(* ===== verification/Prelude.thy ===== *)
theory Prelude
  imports Main "HOL-Library.Word" "HOL-Library.Monad_Syntax"
begin

text \<open>
  The shared vocabulary of the development: the width-carrying integer types, the process
  environment, and the part of Rust's standard library the service uses on strings (character
  boundaries, \<open>trim\<close>, ASCII case folding, \<open>split\<close>, \<open>split_once\<close>, \<open>rsplit_once\<close>, the integer
  parsers and the decimal printer), together with the lemmas the components share.

  A Rust \<open>String\<close> is modelled by the list of its UTF-8 bytes, one \<open>char\<close> of HOL per byte, so
  \<open>length\<close> is Rust's \<open>len()\<close>. Where Rust works character by character, \<open>split_chars\<close> cuts the
  bytes at the character boundaries first.
\<close>

unbundle bit_operations_syntax

named_theorems step_simps \<open>unfolding of the operations of a component into their branches\<close>

type_synonym u8 = "8 word"
type_synonym u32 = "32 word"
type_synonym u64 = "64 word"

text \<open>
  A fallible computation that may also panic. \<open>Panic\<close> is the unwinding of the request's task: no
  value is returned and no response is produced by the code that panicked.
\<close>

datatype ('e, 'a) outcome = Ok 'a | Err 'e | Panic

text \<open>
  The process environment. A variable that is unset, or whose value is not Unicode, is \<open>None\<close>:
  \<open>env::var\<close> answers \<open>Err\<close> for both and no caller tells them apart.
\<close>

type_synonym env = "string \<Rightarrow> string option"

definition env_or :: "env \<Rightarrow> string \<Rightarrow> string \<Rightarrow> string" where
  "env_or e name dflt = (case e name of None \<Rightarrow> dflt | Some v \<Rightarrow> v)"

section \<open>Characters of a UTF-8 string\<close>

definition byte_of :: "char \<Rightarrow> nat" where
  "byte_of c = of_char c"

definition is_ascii :: "char \<Rightarrow> bool" where
  "is_ascii c \<longleftrightarrow> byte_of c < 128"

text \<open>Continuation bytes of UTF-8 are exactly the bytes \<open>10xxxxxx\<close>.\<close>

definition is_cont :: "char \<Rightarrow> bool" where
  "is_cont c \<longleftrightarrow> 128 \<le> byte_of c \<and> byte_of c < 192"

function split_chars :: "string \<Rightarrow> string list" where
  "split_chars [] = []"
| "split_chars (b # bs) = (b # takeWhile is_cont bs) # split_chars (dropWhile is_cont bs)"
  by pat_completeness auto
termination
  by (relation "measure length") (auto simp: le_imp_less_Suc length_dropWhile_le)

lemma concat_split_chars [simp]: "concat (split_chars s) = s"
  by (induction s rule: split_chars.induct) auto

lemma is_ascii_not_cont: "is_ascii c \<Longrightarrow> \<not> is_cont c"
  by (simp add: is_ascii_def is_cont_def)

lemma split_chars_ascii:
  "list_all is_ascii s \<Longrightarrow> split_chars s = map (\<lambda>c. [c]) s"
proof (induction s)
  case Nil
  then show ?case by simp
next
  case (Cons c s)
  have "takeWhile is_cont s = [] \<and> dropWhile is_cont s = s"
    using Cons.prems by (cases s) (auto simp: is_ascii_not_cont)
  then show ?case using Cons by simp
qed

text \<open>The scalar value a character's bytes encode (\<open>char as u32\<close>).\<close>

fun code_point :: "string \<Rightarrow> nat" where
  "code_point [a] = byte_of a"
| "code_point [a, b] = (byte_of a mod 32) * 64 + byte_of b mod 64"
| "code_point [a, b, c] =
     (byte_of a mod 16) * 4096 + (byte_of b mod 64) * 64 + byte_of c mod 64"
| "code_point [a, b, c, d] =
     (byte_of a mod 8) * 262144 + (byte_of b mod 64) * 4096 + (byte_of c mod 64) * 64
       + byte_of d mod 64"
| "code_point _ = 0"

text \<open>The characters with Unicode's property \<open>White_Space\<close> (\<open>char::is_whitespace\<close>).\<close>

definition whitespace_code :: "nat \<Rightarrow> bool" where
  "whitespace_code n \<longleftrightarrow>
     (9 \<le> n \<and> n \<le> 13) \<or> n = 32 \<or> n = 133 \<or> n = 160 \<or> n = 5760 \<or> (8192 \<le> n \<and> n \<le> 8202)
       \<or> n = 8232 \<or> n = 8233 \<or> n = 8239 \<or> n = 8287 \<or> n = 12288"

definition is_whitespace :: "string \<Rightarrow> bool" where
  "is_whitespace ch \<longleftrightarrow> whitespace_code (code_point ch)"

text \<open>\<open>str::trim\<close>.\<close>

definition trim :: "string \<Rightarrow> string" where
  "trim s = concat (rev (dropWhile is_whitespace (rev (dropWhile is_whitespace (split_chars s)))))"

lemma trim_Nil [simp]: "trim [] = []"
  by (simp add: trim_def)

section \<open>ASCII case\<close>

definition ascii_lower :: "char \<Rightarrow> char" where
  "ascii_lower c = (if 65 \<le> byte_of c \<and> byte_of c \<le> 90 then char_of (byte_of c + 32) else c)"

definition ascii_upper :: "char \<Rightarrow> char" where
  "ascii_upper c = (if 97 \<le> byte_of c \<and> byte_of c \<le> 122 then char_of (byte_of c - 32) else c)"

definition to_ascii_lowercase :: "string \<Rightarrow> string" where
  "to_ascii_lowercase s = map ascii_lower s"

definition to_ascii_uppercase :: "string \<Rightarrow> string" where
  "to_ascii_uppercase s = map ascii_upper s"

definition eq_ignore_ascii_case :: "string \<Rightarrow> string \<Rightarrow> bool" where
  "eq_ignore_ascii_case a b \<longleftrightarrow> to_ascii_lowercase a = to_ascii_lowercase b"

lemma byte_of_less [simp]: "byte_of c < 256"
  by (simp add: byte_of_def)

lemma byte_of_char_of [simp]: "byte_of (char_of n) = n mod 256"
  by (simp add: byte_of_def)

lemma ascii_lower_idem [simp]: "ascii_lower (ascii_lower c) = ascii_lower c"
  by (auto simp: ascii_lower_def)

lemma to_ascii_lowercase_idem [simp]:
  "to_ascii_lowercase (to_ascii_lowercase s) = to_ascii_lowercase s"
  by (simp add: to_ascii_lowercase_def)

section \<open>Splitting\<close>

text \<open>\<open>str::split\<close> at an ASCII character: \<open>n\<close> separators give \<open>n + 1\<close> pieces.\<close>

fun split_on :: "char \<Rightarrow> string \<Rightarrow> string list" where
  "split_on d [] = [[]]"
| "split_on d (c # cs) =
     (if c = d then [] # split_on d cs
      else (case split_on d cs of [] \<Rightarrow> [[c]] | p # ps \<Rightarrow> (c # p) # ps))"

lemma split_on_not_Nil [simp]: "split_on d s \<noteq> []"
  by (induction s) (auto split: list.splits)

lemma split_on_no_sep: "d \<notin> set s \<Longrightarrow> split_on d s = [s]"
  by (induction s) auto

lemma split_on_append:
  "d \<notin> set s \<Longrightarrow> split_on d (s @ d # t) = s # split_on d t"
  by (induction s) auto

text \<open>\<open>str::split_once\<close> and \<open>str::rsplit_once\<close>.\<close>

definition split_once :: "char \<Rightarrow> string \<Rightarrow> (string \<times> string) option" where
  "split_once d s =
     (case dropWhile (\<lambda>c. c \<noteq> d) s of
        [] \<Rightarrow> None
      | _ # r \<Rightarrow> Some (takeWhile (\<lambda>c. c \<noteq> d) s, r))"

definition rsplit_once :: "char \<Rightarrow> string \<Rightarrow> (string \<times> string) option" where
  "rsplit_once d s =
     (case split_once d (rev s) of
        None \<Rightarrow> None
      | Some (a, b) \<Rightarrow> Some (rev b, rev a))"

lemma split_once_Some:
  "split_once d s = Some (a, b) \<Longrightarrow> s = a @ d # b \<and> d \<notin> set a"
proof -
  assume h: "split_once d s = Some (a, b)"
  then obtain x where x: "dropWhile (\<lambda>c. c \<noteq> d) s = x # b" and a: "a = takeWhile (\<lambda>c. c \<noteq> d) s"
    by (auto simp: split_once_def split: list.splits)
  from x have "x = d"
    by (metis (mono_tags, lifting) hd_dropWhile list.discI list.sel(1))
  with x a have "s = a @ d # b"
    by (metis takeWhile_dropWhile_id)
  moreover have "d \<notin> set a"
    using a set_takeWhileD by fastforce
  ultimately show ?thesis by simp
qed

lemma split_once_append: "d \<notin> set a \<Longrightarrow> split_once d (a @ d # b) = Some (a, b)"
  by (induction a) (auto simp: split_once_def split: list.splits)

section \<open>Parsing and printing integers\<close>

definition is_digit :: "char \<Rightarrow> bool" where
  "is_digit c \<longleftrightarrow> 48 \<le> byte_of c \<and> byte_of c \<le> 57"

definition digit_val :: "char \<Rightarrow> nat" where
  "digit_val c = byte_of c - 48"

definition parse_dec :: "string \<Rightarrow> nat option" where
  "parse_dec s =
     (if s \<noteq> [] \<and> list_all is_digit s
      then Some (foldl (\<lambda>acc c. 10 * acc + digit_val c) 0 s) else None)"

definition strip_plus :: "string \<Rightarrow> string" where
  "strip_plus s = (case s of [] \<Rightarrow> [] | c # r \<Rightarrow> if c = CHR ''+'' then r else s)"

text \<open>
  \<open>str::parse\<close> at an unsigned type of \<open>w\<close> bits: an optional plus sign, at least one decimal digit,
  nothing else, and no overflow.
\<close>

definition parse_unsigned :: "nat \<Rightarrow> string \<Rightarrow> nat option" where
  "parse_unsigned w s =
     (case parse_dec (strip_plus s) of
        None \<Rightarrow> None
      | Some n \<Rightarrow> if n < 2 ^ w then Some n else None)"

definition parse_u64 :: "string \<Rightarrow> u64 option" where
  "parse_u64 s = map_option of_nat (parse_unsigned 64 s)"

definition parse_u32 :: "string \<Rightarrow> u32 option" where
  "parse_u32 s = map_option of_nat (parse_unsigned 32 s)"

text \<open>\<open>str::parse::<i64>\<close>: a sign of either kind.\<close>

definition parse_i64 :: "string \<Rightarrow> int option" where
  "parse_i64 s =
     (case s of
        [] \<Rightarrow> None
      | c # r \<Rightarrow>
          if c = CHR ''-'' then
            (case parse_dec r of
               None \<Rightarrow> None
             | Some n \<Rightarrow> if n \<le> 2 ^ 63 then Some (- int n) else None)
          else
            (case parse_dec (strip_plus s) of
               None \<Rightarrow> None
             | Some n \<Rightarrow> if n < 2 ^ 63 then Some (int n) else None))"

lemma parse_unsigned_bound: "parse_unsigned w s = Some n \<Longrightarrow> n < 2 ^ w"
  by (auto simp: parse_unsigned_def split: option.splits if_splits)

text \<open>Decimal printing of a natural number, and zero padding to a width.\<close>

fun show_dec :: "nat \<Rightarrow> string" where
  "show_dec n = (if n < 10 then [char_of (48 + n)] else show_dec (n div 10) @ [char_of (48 + n mod 10)])"

declare show_dec.simps [simp del]

definition zero_pad :: "nat \<Rightarrow> string \<Rightarrow> string" where
  "zero_pad w s = replicate (w - length s) (CHR ''0'') @ s"

lemma length_zero_pad: "length (zero_pad w s) = max w (length s)"
  by (simp add: zero_pad_def)

lemma show_dec_digits: "list_all is_digit (show_dec n) \<and> show_dec n \<noteq> []"
proof (induction n rule: show_dec.induct)
  case (1 n)
  have digit: "m < 10 \<Longrightarrow> is_digit (char_of (48 + m))" for m :: nat
    by (simp add: is_digit_def)
  show ?case
  proof (cases "n < 10")
    case True
    then show ?thesis by (simp add: show_dec.simps [of n] digit)
  next
    case False
    have "is_digit (char_of (48 + n mod 10))" by (rule digit) simp
    with False 1 show ?thesis by (simp add: show_dec.simps [of n])
  qed
qed

lemma show_dec_value: "foldl (\<lambda>acc c. 10 * acc + digit_val c) 0 (show_dec n) = n"
proof (induction n rule: show_dec.induct)
  case (1 n)
  have val: "m < 10 \<Longrightarrow> digit_val (char_of (48 + m)) = m" for m :: nat
    by (simp add: digit_val_def)
  show ?case
  proof (cases "n < 10")
    case True
    then show ?thesis by (simp add: show_dec.simps [of n] val)
  next
    case False
    have v: "digit_val (char_of (48 + n mod 10)) = n mod 10" by (rule val) simp
    show ?thesis using False 1 v by (simp add: show_dec.simps [of n])
  qed
qed

lemma parse_dec_show_dec [simp]: "parse_dec (show_dec n) = Some n"
  using show_dec_digits [of n] show_dec_value [of n] by (simp add: parse_dec_def)

lemma show_dec_length: "0 < d \<Longrightarrow> n < 10 ^ d \<Longrightarrow> length (show_dec n) \<le> d"
proof (induction n arbitrary: d rule: show_dec.induct)
  case (1 n)
  show ?case
  proof (cases "n < 10")
    case True
    with 1 show ?thesis by (simp add: show_dec.simps [of n])
  next
    case False
    with "1.prems" have "1 < d" by (cases "d = 1") auto
    then obtain d' where d: "d = Suc d'" "0 < d'"
      by (metis One_nat_def Suc_lessE)
    have "n div 10 < 10 ^ d'" using "1.prems"(2) d by (simp add: less_mult_imp_div_less mult.commute)
    then have "length (show_dec (n div 10)) \<le> d'" using "1.IH" [OF False d(2)] by simp
    with False d show ?thesis by (simp add: show_dec.simps [of n])
  qed
qed

section \<open>Casts between the widths\<close>

text \<open>\<open>u64 as i64\<close> reads the same bits in two's complement; \<open>i64 as usize\<close> (64-bit targets) writes them.\<close>

definition as_i64 :: "u64 \<Rightarrow> int" where
  "as_i64 w = sint w"

definition as_usize :: "int \<Rightarrow> u64" where
  "as_usize i = word_of_int i"

lemma as_usize_as_i64 [simp]: "as_usize (as_i64 w) = w"
  by (simp add: as_usize_def as_i64_def)

lemma as_i64_as_usize: "- (2 ^ 63) \<le> i \<Longrightarrow> i < 2 ^ 63 \<Longrightarrow> as_i64 (as_usize i) = i"
  by (simp add: as_usize_def as_i64_def sint_sbintrunc' signed_take_bit_int_eq_self)

lemma unat_as_usize: "0 \<le> i \<Longrightarrow> i < 2 ^ 63 \<Longrightarrow> unat (as_usize i) = nat i"
  by (simp add: as_usize_def unat_eq_nat_uint uint_word_of_int take_bit_int_eq_self)

lemma as_usize_less: "0 \<le> a \<Longrightarrow> a < 2 ^ 63 \<Longrightarrow> 0 \<le> b \<Longrightarrow> b < 2 ^ 63 \<Longrightarrow>
    (as_usize a < as_usize b) = (a < b)"
  by (auto simp: word_less_nat_alt unat_as_usize)

lemma as_usize_le: "0 \<le> a \<Longrightarrow> a < 2 ^ 63 \<Longrightarrow> 0 \<le> b \<Longrightarrow> b < 2 ^ 63 \<Longrightarrow>
    (as_usize a \<le> as_usize b) = (a \<le> b)"
  by (simp add: word_le_nat_alt unat_as_usize nat_le_iff)

lemma as_i64_small: "unat w < 2 ^ 63 \<Longrightarrow> as_i64 w = int (unat w)"
proof -
  assume "unat w < 2 ^ 63"
  then have "int (unat w) < int (2 ^ 63)" by (simp only: of_nat_less_iff)
  then have "as_i64 (as_usize (int (unat w))) = int (unat w)"
    by (intro as_i64_as_usize) (use uint_ge_0 [of w] in \<open>linarith | simp\<close>)+
  then show ?thesis by (simp add: as_usize_def)
qed

section \<open>UTF-8\<close>

text \<open>
  \<open>String::from_utf8\<close>: well-formed sequences of one to four bytes, without overlong forms,
  surrogates or values beyond \<open>0x10FFFF\<close>.
\<close>

definition in_bytes :: "char \<Rightarrow> nat \<Rightarrow> nat \<Rightarrow> bool" where
  "in_bytes c lo hi \<longleftrightarrow> lo \<le> byte_of c \<and> byte_of c \<le> hi"

fun utf8_valid :: "string \<Rightarrow> bool" where
  "utf8_valid [] = True"
| "utf8_valid (a # s) =
     (if byte_of a < 128 then utf8_valid s
      else (case s of
              [] \<Rightarrow> False
            | b # s1 \<Rightarrow>
                if in_bytes a 194 223 then is_cont b \<and> utf8_valid s1
                else (case s1 of
                        [] \<Rightarrow> False
                      | c # s2 \<Rightarrow>
                          if in_bytes a 224 239 then
                            in_bytes b (if byte_of a = 224 then 160 else 128)
                                       (if byte_of a = 237 then 159 else 191)
                              \<and> is_cont c \<and> utf8_valid s2
                          else (case s2 of
                                  [] \<Rightarrow> False
                                | d # s3 \<Rightarrow>
                                    in_bytes a 240 244 \<and>
                                    in_bytes b (if byte_of a = 240 then 144 else 128)
                                               (if byte_of a = 244 then 143 else 191)
                                      \<and> is_cont c \<and> is_cont d \<and> utf8_valid s3))))"

declare utf8_valid.simps(2) [simp del]

lemma utf8_valid_ascii: "list_all is_ascii s \<Longrightarrow> utf8_valid s"
  by (induction s) (simp_all add: utf8_valid.simps(2) is_ascii_def)

section \<open>Sequencing fallible steps on a state\<close>

text \<open>Rust's \<open>?\<close> between two steps: an error or a panic ends the function with the state so far.\<close>

definition and_then ::
  "('w \<Rightarrow> ('e, 'a) outcome \<times> 'w) \<Rightarrow> ('a \<Rightarrow> 'w \<Rightarrow> ('e, 'b) outcome \<times> 'w) \<Rightarrow> 'w \<Rightarrow> ('e, 'b) outcome \<times> 'w"
where
  "and_then m f w =
     (case m w of
        (Ok a, w') \<Rightarrow> f a w'
      | (Err e, w') \<Rightarrow> (Err e, w')
      | (Panic, w') \<Rightarrow> (Panic, w'))"

definition pure_step :: "('e + 'a) \<Rightarrow> 'w \<Rightarrow> ('e, 'a) outcome \<times> 'w" where
  "pure_step r w = ((case r of Inl e \<Rightarrow> Err e | Inr a \<Rightarrow> Ok a), w)"

lemma and_then_Ok:
  "and_then m f w = (Ok b, w') \<longleftrightarrow> (\<exists>a w1. m w = (Ok a, w1) \<and> f a w1 = (Ok b, w'))"
  by (auto simp: and_then_def split: prod.splits outcome.splits)

lemma pure_step_Ok: "pure_step r w = (Ok a, w') \<longleftrightarrow> r = Inr a \<and> w' = w"
  by (auto simp: pure_step_def split: sum.splits)

lemmas step_Ok = and_then_Ok pure_step_Ok

section \<open>Plain readers of the environment\<close>

text \<open>\<open>env::var(key).ok().and_then(|v| v.parse::<u64>().ok()).unwrap_or(default)\<close>: no trimming.\<close>

definition env_u64 :: "env \<Rightarrow> string \<Rightarrow> u64 \<Rightarrow> u64" where
  "env_u64 e key dflt =
     (case e key of
        None \<Rightarrow> dflt
      | Some v \<Rightarrow> (case parse_u64 v of Some n \<Rightarrow> n | None \<Rightarrow> dflt))"

end
