(* ===== verification/Models.thy ===== *)
theory Models
  imports Prelude
begin

text \<open>
  The data of the service: the DTOs of the public API and the key representations
  (\<open>src/models/mod.rs\<close>), the claims, header and refresh record of \<open>src/models/jwt.rs\<close>, the error
  enums of every layer, and the mapping of an application error to an HTTP response
  (\<open>src/error.rs\<close>).

  A JSON value of the client's own claims (\<open>serde_json::Value\<close>) is a type parameter \<open>'v\<close>: the
  service stores and forwards these values and never looks inside. A JSON object is its list of
  members.
\<close>

type_synonym 'v json_object = "(string \<times> 'v) list"

section \<open>Errors of the layers\<close>

datatype jti_error = JtiBadConnection | JtiWrongOperation

datatype jwk_error = JwkBadConnection | JwkBadResponse | JwkNotFound

datatype key_error = KeyNotFound | KeyInvalidKey | KeyUnsupported

datatype jwt_error =
    UnprocessableEntity | StoreError | BadSignature | NotValid | Broken | KeyError | Serialization

text \<open>The \<open>Display\<close> texts of \<open>JwtError\<close> (the \<open>#[error(...)]\<close> attributes).\<close>

fun jwt_error_text :: "jwt_error \<Rightarrow> string" where
  "jwt_error_text UnprocessableEntity = ''Unprocessable entity''"
| "jwt_error_text StoreError = ''Store error''"
| "jwt_error_text BadSignature = ''Bad signature''"
| "jwt_error_text NotValid = ''Not valid''"
| "jwt_error_text Broken = ''Broken''"
| "jwt_error_text KeyError = ''Key error''"
| "jwt_error_text Serialization = ''Serialization failed''"

section \<open>Tokens\<close>

text \<open>\<open>exp\<close>, \<open>iat\<close> and \<open>nbf\<close> are \<open>usize\<close> in the source: 64-bit words on the supported targets.\<close>

record 'v token_claims =
  tc_iss :: string
  tc_sub :: string
  tc_aud :: "string list"
  tc_exp :: u64
  tc_iat :: u64
  tc_nbf :: u64
  tc_jti :: string
  tc_extra :: "'v json_object"

record token_headers =
  th_alg :: string
  th_kid :: string
  th_typ :: string
  th_jku :: "string option"

record refresh_record =
  rr_subject :: string
  rr_audience :: "string list"
  rr_family :: string

section \<open>Requests and responses\<close>

record 'v token_request =
  tr_sub :: string
  tr_aud :: "string list"
  tr_ttl :: "u64 option"
  tr_refresh :: bool
  tr_claims :: "'v json_object"

record token_verify_request =
  tv_token :: string
  tv_audience :: string

record refresh_request =
  rq_refresh_token :: string

record token_response =
  tk_token :: string
  tk_refresh_token :: "string option"

record revoke_group_response =
  rg_revoked :: u64

record error_response =
  er_error :: string
  er_details :: "string option"

record readiness_response =
  rd_status :: string
  rd_redis :: bool
  rd_jwks :: bool
  rd_jwks_stale :: bool

text \<open>\<open>ErrorResponse::new\<close>.\<close>

definition error_response_new :: "string \<Rightarrow> error_response" where
  "error_response_new msg = \<lparr>er_error = msg, er_details = None\<rparr>"

section \<open>Keys\<close>

record jwk =
  jwk_kty :: string
  jwk_alg :: string
  jwk_kid :: string
  jwk_crv :: "string option"
  jwk_x :: "string option"
  jwk_y :: "string option"
  jwk_n :: "string option"
  jwk_e :: "string option"

record jwk_data =
  jd_id :: string
  jd_kty :: string
  jd_alg :: string
  jd_kid :: string
  jd_crv :: "string option"
  jd_x :: "string option"
  jd_y :: "string option"
  jd_n :: "string option"
  jd_e :: "string option"
  jd_private_key :: string

record jwks =
  jwks_keys :: "jwk list"

section \<open>HTTP responses\<close>

datatype 'v body =
    NoBody
  | ErrorBody error_response
  | TokenBody token_response
  | ClaimsBody "'v token_claims"
  | RevokedBody revoke_group_response
  | ReadinessBody readiness_response
  | TextBody string string \<comment> \<open>content type and text\<close>

record 'v response =
  rs_status :: nat
  rs_headers :: "(string \<times> string) list"
  rs_body :: "'v body"

definition respond :: "nat \<Rightarrow> 'v body \<Rightarrow> 'v response" where
  "respond code b = \<lparr>rs_status = code, rs_headers = [], rs_body = b\<rparr>"

lemma respond_simps [simp]:
  "rs_status (respond c b) = c"
  "rs_headers (respond c b) = []"
  "rs_body (respond c b) = b"
  by (simp_all add: respond_def)

lemma respond_eq_iff [simp]: "respond c b = respond c' b' \<longleftrightarrow> c = c' \<and> b = b'"
  by (auto simp: respond_def)

text \<open>
  The application error of the HTTP layer. The payload of \<open>Reqwest\<close> is the foreign crate's error
  value, which no code here inspects.
\<close>

datatype app_error =
    Validation string
  | Unprocessable string
  | AppJwt jwt_error
  | AppStore jti_error
  | AppReqwest
  | Internal string
  | Unauthorized string
  | Forbidden string
  | NotFound string

text \<open>\<open>ResponseError::error_response\<close> of \<open>src/error.rs\<close>.\<close>

fun app_error_response :: "app_error \<Rightarrow> 'v response" where
  "app_error_response (Validation msg) = respond 400 (ErrorBody (error_response_new msg))"
| "app_error_response (Unprocessable msg) = respond 422 (ErrorBody (error_response_new msg))"
| "app_error_response (Unauthorized msg) = respond 401 (ErrorBody (error_response_new msg))"
| "app_error_response (Forbidden msg) = respond 403 (ErrorBody (error_response_new msg))"
| "app_error_response (NotFound msg) = respond 404 (ErrorBody (error_response_new msg))"
| "app_error_response _ = respond 500 (ErrorBody (error_response_new ''Internal server error''))"

text \<open>The variants whose cause stays inside the service.\<close>

definition is_internal :: "app_error \<Rightarrow> bool" where
  "is_internal e \<longleftrightarrow>
     (case e of AppJwt _ \<Rightarrow> True | AppStore _ \<Rightarrow> True | AppReqwest \<Rightarrow> True | Internal _ \<Rightarrow> True
      | _ \<Rightarrow> False)"

lemma app_error_response_status_500:
  "rs_status (app_error_response e :: 'v response) = 500 \<longleftrightarrow> is_internal e"
  by (cases e) (simp_all add: is_internal_def)

text \<open>
  No detail of an internal failure reaches the client: all internal errors give one and the same
  response, and they are the only ones with status 500.
\<close>

lemma app_error_response_internal:
  "is_internal e \<Longrightarrow>
     app_error_response e = respond 500 (ErrorBody (error_response_new ''Internal server error''))"
  by (cases e) (simp_all add: is_internal_def)

lemma app_error_response_client_error:
  "400 \<le> rs_status (app_error_response e :: 'v response) \<and> rs_status (app_error_response e :: 'v response) \<le> 500"
  by (cases e) simp_all

section \<open>Metrics\<close>

text \<open>
  The Prometheus recorder (\<open>src/metrics.rs\<close>) is a process-wide sink: the model keeps the sequence
  of recorded events. The latency values of the histograms are left out; the labels are kept.
\<close>

datatype metric =
    HttpRequest string string nat     \<comment> \<open>method, route template, status\<close>
  | TokenIssued
  | TokenRevoked
  | TokenVerified bool
  | AuthDenied string
  | RateLimited
  | JwksRequest string bool
  | JwksCache string
  | RedisCommand string bool

end
