(* ===== verification/Jti_Store.thy ===== *)
theory Jti_Store
  imports Models
begin

text \<open>
  The \<open>JtiStore\<close> trait of \<open>src/models/jwt.rs\<close>: its methods as a dictionary over an abstract state
  of the backend, the functions that form the store keys, and the contract every client of the
  trait relies on as the locale \<open>jti_store\<close>. The provider is \<open>RedisClient\<close> (theory
  \<open>Redis_Store\<close>); the clients are the token layer, the facade, the handlers and the replay
  protection of the auth middleware.
\<close>

section \<open>The trait\<close>

record 's jti_store =
  js_ping :: "'s \<Rightarrow> (jti_error + unit) \<times> 's"
  js_store_jti :: "string \<Rightarrow> u64 \<Rightarrow> 's \<Rightarrow> (jti_error + unit) \<times> 's"
  js_check_jti :: "string \<Rightarrow> 's \<Rightarrow> (jti_error + bool) \<times> 's"
  js_delete_jti :: "string \<Rightarrow> 's \<Rightarrow> (jti_error + unit) \<times> 's"
  js_add_to_group :: "string \<Rightarrow> string \<Rightarrow> int \<Rightarrow> 's \<Rightarrow> (jti_error + unit) \<times> 's"
  js_revoke_group :: "string \<Rightarrow> 's \<Rightarrow> (jti_error + u64) \<times> 's"
  js_store_refresh :: "string \<Rightarrow> refresh_record \<Rightarrow> u64 \<Rightarrow> 's \<Rightarrow> (jti_error + unit) \<times> 's"
  js_get_refresh :: "string \<Rightarrow> 's \<Rightarrow> (jti_error + refresh_record option) \<times> 's"
  js_mark_refresh_used :: "string \<Rightarrow> 's \<Rightarrow> (jti_error + bool) \<times> 's"
  js_claim_totp_code :: "string \<Rightarrow> u64 \<Rightarrow> 's \<Rightarrow> (jti_error + bool) \<times> 's"

section \<open>Store keys\<close>

definition totp_code_key :: "string \<Rightarrow> string" where
  "totp_code_key hash = ''totp:used:'' @ hash"

definition subject_group :: "string \<Rightarrow> string" where
  "subject_group subject = ''group:sub:'' @ subject"

definition family_group :: "string \<Rightarrow> string" where
  "family_group family = ''group:family:'' @ family"

definition refresh_key :: "string \<Rightarrow> string" where
  "refresh_key i = ''refresh:'' @ i"

text \<open>The key spaces are disjoint and every key former is injective.\<close>

lemma store_keys_distinct [simp]:
  "totp_code_key h \<noteq> subject_group s" "subject_group s \<noteq> totp_code_key h"
  "totp_code_key h \<noteq> family_group f" "family_group f \<noteq> totp_code_key h"
  "totp_code_key h \<noteq> refresh_key i" "refresh_key i \<noteq> totp_code_key h"
  "subject_group s \<noteq> family_group f" "family_group f \<noteq> subject_group s"
  "subject_group s \<noteq> refresh_key i" "refresh_key i \<noteq> subject_group s"
  "family_group f \<noteq> refresh_key i" "refresh_key i \<noteq> family_group f"
  by (simp_all add: totp_code_key_def subject_group_def family_group_def refresh_key_def)

lemma store_keys_inject [simp]:
  "totp_code_key h = totp_code_key h' \<longleftrightarrow> h = h'"
  "subject_group s = subject_group s' \<longleftrightarrow> s = s'"
  "family_group f = family_group f' \<longleftrightarrow> f = f'"
  "refresh_key i = refresh_key i' \<longleftrightarrow> i = i'"
  by (simp_all add: totp_code_key_def subject_group_def family_group_def refresh_key_def)

text \<open>
  A \<open>jti\<close> is stored under its own name. A bare key is one outside the four prefixed key spaces;
  every UUID is one.
\<close>

definition bare_key :: "string \<Rightarrow> bool" where
  "bare_key k \<longleftrightarrow> CHR '':'' \<notin> set k"

lemma bare_key_not_prefixed [simp]:
  "bare_key k \<Longrightarrow> k \<noteq> totp_code_key h" "bare_key k \<Longrightarrow> k \<noteq> subject_group s"
  "bare_key k \<Longrightarrow> k \<noteq> family_group f" "bare_key k \<Longrightarrow> k \<noteq> refresh_key i"
  by (auto simp: bare_key_def totp_code_key_def subject_group_def family_group_def refresh_key_def)

section \<open>Operations as data\<close>

text \<open>One call of the trait, for statements about sequences of calls.\<close>

datatype store_op =
    OpPing
  | OpStore string u64
  | OpCheck string
  | OpDelete string
  | OpAdd string string int
  | OpRevoke string
  | OpStoreRefresh string refresh_record u64
  | OpGetRefresh string
  | OpMark string
  | OpClaim string u64

fun run_op :: "'s jti_store \<Rightarrow> store_op \<Rightarrow> 's \<Rightarrow> 's" where
  "run_op S OpPing s = snd (js_ping S s)"
| "run_op S (OpStore j ttl) s = snd (js_store_jti S j ttl s)"
| "run_op S (OpCheck j) s = snd (js_check_jti S j s)"
| "run_op S (OpDelete j) s = snd (js_delete_jti S j s)"
| "run_op S (OpAdd g j e) s = snd (js_add_to_group S g j e s)"
| "run_op S (OpRevoke g) s = snd (js_revoke_group S g s)"
| "run_op S (OpStoreRefresh i r ttl) s = snd (js_store_refresh S i r ttl s)"
| "run_op S (OpGetRefresh i) s = snd (js_get_refresh S i s)"
| "run_op S (OpMark i) s = snd (js_mark_refresh_used S i s)"
| "run_op S (OpClaim h ttl) s = snd (js_claim_totp_code S h ttl s)"

text \<open>The keys a call can create, or whose lifetime it can extend.\<close>

fun op_writes :: "store_op \<Rightarrow> string set" where
  "op_writes (OpStore j _) = {j}"
| "op_writes (OpAdd g _ _) = {g}"
| "op_writes (OpStoreRefresh i _ _) = {refresh_key i}"
| "op_writes (OpMark i) = {refresh_key i}"
| "op_writes (OpClaim h _) = {totp_code_key h}"
| "op_writes _ = {}"

text \<open>The keys a call can remove, or whose lifetime it can shorten.\<close>

fun op_removes :: "store_op \<Rightarrow> string set" where
  "op_removes (OpStore j _) = {j}"
| "op_removes (OpDelete j) = {j}"
| "op_removes (OpAdd g _ _) = {g}"
| "op_removes (OpRevoke _) = UNIV"
| "op_removes (OpStoreRefresh i _ _) = {refresh_key i}"
| "op_removes _ = {}"

fun run_ops :: "'s jti_store \<Rightarrow> store_op list \<Rightarrow> 's \<Rightarrow> 's" where
  "run_ops S [] s = s"
| "run_ops S (x # xs) s = run_ops S xs (run_op S x s)"

lemma run_ops_append: "run_ops S (xs @ ys) s = run_ops S ys (run_ops S xs s)"
  by (induction xs arbitrary: s) auto

section \<open>The contract\<close>

text \<open>
  The view of a store: \<open>clock s\<close> is the store's own time at its next command, \<open>wall s\<close> the next
  reading of the process's clock inside the store client; \<open>present s t k\<close> says
  whether the key exists at the store's time \<open>t\<close> if nothing is written meanwhile; \<open>grp s t g\<close> are the
  members of a group with their expiry times (exact up to \<open>2 ^ 53\<close>, the integers a sorted set's
  floating-point scores hold); \<open>refresh_of\<close> and \<open>used\<close> are the refresh record of an
  identifier and its mark.

  A group is indexed by two commands, so \<open>add_result\<close> asks that the group does not expire between
  them. The laws about results speak of calls that succeeded. The three laws about what cannot happen
  (\<open>absent_stays\<close>, \<open>present_stays\<close>, \<open>spent_stays\<close>) hold for every call, failed ones included: a command whose answer
  was lost may still have been executed.
\<close>

locale jti_store =
  fixes S :: "'s jti_store"
    and wf :: "'s \<Rightarrow> bool"
    and clock :: "'s \<Rightarrow> int"
    and wall :: "'s \<Rightarrow> int"
    and present :: "'s \<Rightarrow> int \<Rightarrow> string \<Rightarrow> bool"
    and grp :: "'s \<Rightarrow> int \<Rightarrow> string \<Rightarrow> string \<Rightarrow> int option"
    and refresh_of :: "'s \<Rightarrow> int \<Rightarrow> string \<Rightarrow> refresh_record option"
    and used :: "'s \<Rightarrow> int \<Rightarrow> string \<Rightarrow> bool"
  assumes wf_step: "wf s \<Longrightarrow> wf (run_op S x s)"
    and clock_step: "wf s \<Longrightarrow> clock s \<le> clock (run_op S x s)"
    and present_decays: "wf s \<Longrightarrow> t \<le> t' \<Longrightarrow> present s t' k \<Longrightarrow> present s t k"
    and absent_stays: "wf s \<Longrightarrow> k \<notin> op_writes x \<Longrightarrow> clock (run_op S x s) \<le> t \<Longrightarrow>
          present (run_op S x s) t k \<Longrightarrow> present s t k"
    and present_stays: "wf s \<Longrightarrow> k \<notin> op_removes x \<Longrightarrow> clock (run_op S x s) \<le> t \<Longrightarrow>
          present s t k \<Longrightarrow> present (run_op S x s) t k"
    and spent_stays: "wf s \<Longrightarrow> refresh_key i \<notin> op_writes x \<or> x = OpMark i \<Longrightarrow>
          clock (run_op S x s) \<le> t \<Longrightarrow> present s t (refresh_key i) \<longrightarrow> used s t i \<Longrightarrow>
          present (run_op S x s) t (refresh_key i) \<Longrightarrow> used (run_op S x s) t i"
    and check_result: "wf s \<Longrightarrow> js_check_jti S j s = (Inr b, s') \<Longrightarrow> b = present s (clock s) j"
    and check_frame: "wf s \<Longrightarrow> js_check_jti S j s = (Inr b, s') \<Longrightarrow> clock s' \<le> t \<Longrightarrow>
          present s' t k = present s t k \<and> grp s' t g = grp s t g"
    and store_result: "wf s \<Longrightarrow> js_store_jti S j ttl s = (Inr (), s') \<Longrightarrow> clock s' \<le> t \<Longrightarrow>
          present s' t k = (if k = j then t < clock s + uint ttl else present s t k)"
    and delete_result: "wf s \<Longrightarrow> js_delete_jti S j s = (Inr (), s') \<Longrightarrow> clock s' \<le> t \<Longrightarrow>
          \<not> present s' t j"
    and add_result: "wf s \<Longrightarrow> js_add_to_group S g j e s = (Inr (), s') \<Longrightarrow> \<bar>e\<bar> \<le> 2 ^ 53 \<Longrightarrow>
          (present s (clock s) g \<longrightarrow> present s (clock s') g) \<Longrightarrow>
          clock s' \<le> t \<Longrightarrow> t < e \<Longrightarrow> grp s' t g j = Some e"
    and add_frame: "wf s \<Longrightarrow> js_add_to_group S g j e s = (Inr (), s') \<Longrightarrow> clock s' \<le> t \<Longrightarrow>
          k \<noteq> g \<Longrightarrow> present s' t k = present s t k"
    and revoke_result: "wf s \<Longrightarrow> js_revoke_group S g s = (Inr n, s') \<Longrightarrow>
          clock s' \<le> t \<Longrightarrow> grp s t g k = Some e \<Longrightarrow> wall s < e \<Longrightarrow> \<not> present s' t k"
    and refresh_result: "wf s \<Longrightarrow> js_get_refresh S i s = (Inr r, s') \<Longrightarrow>
          r = refresh_of s (clock s) i"
    and refresh_present: "wf s \<Longrightarrow> clock s \<le> t \<Longrightarrow> refresh_of s t i = Some rr \<Longrightarrow>
          present s t (refresh_key i)"
    and mark_result: "wf s \<Longrightarrow> js_mark_refresh_used S i s = (Inr b, s') \<Longrightarrow>
          b = (\<not> used s (clock s) i)"
    and mark_marks: "wf s \<Longrightarrow> js_mark_refresh_used S i s = (Inr b, s') \<Longrightarrow> clock s' \<le> t \<Longrightarrow>
          present s' t (refresh_key i) \<Longrightarrow> used s' t i"
    and claim_result: "wf s \<Longrightarrow> js_claim_totp_code S h ttl s = (Inr b, s') \<Longrightarrow>
          b = (\<not> present s (clock s) (totp_code_key h))"
    and claim_claims: "wf s \<Longrightarrow> js_claim_totp_code S h ttl s = (Inr True, s') \<Longrightarrow> clock s' \<le> t \<Longrightarrow>
          present s' t (totp_code_key h) = (t < clock s + uint ttl)"
begin

lemma wf_run: "wf s \<Longrightarrow> wf (run_ops S xs s)"
  by (induction xs arbitrary: s) (auto intro: wf_step)

lemma clock_run: "wf s \<Longrightarrow> clock s \<le> clock (run_ops S xs s)"
proof (induction xs arbitrary: s)
  case Nil
  then show ?case by simp
next
  case (Cons x xs)
  have "clock s \<le> clock (run_op S x s)" using Cons.prems by (rule clock_step)
  also have "\<dots> \<le> clock (run_ops S xs (run_op S x s))"
    using Cons.prems by (intro Cons.IH wf_step)
  finally show ?case by simp
qed

text \<open>A key that is absent stays absent until some call names it as a key to write.\<close>

lemma absent_run:
  "wf s \<Longrightarrow> \<forall>x \<in> set xs. k \<notin> op_writes x \<Longrightarrow> clock (run_ops S xs s) \<le> t \<Longrightarrow>
     present (run_ops S xs s) t k \<Longrightarrow> present s t k"
proof (induction xs arbitrary: s)
  case Nil
  then show ?case by simp
next
  case (Cons x xs)
  have w: "wf (run_op S x s)" using Cons.prems by (intro wf_step)
  have rest: "\<forall>y \<in> set xs. k \<notin> op_writes y" and here: "k \<notin> op_writes x"
    using Cons.prems(2) by simp_all
  have p: "present (run_op S x s) t k"
    using Cons.IH [OF w rest] Cons.prems(3,4) by simp
  have "clock (run_op S x s) \<le> t"
    using clock_run [OF w, of xs] Cons.prems(3) by simp
  then show ?case by (rule absent_stays [OF Cons.prems(1) here _ p])
qed

text \<open>
  Revocation is final: after a successful \<open>delete_jti\<close>, a check of the same \<open>jti\<close> answers
  \<open>false\<close> (or fails) for as long as nobody stores that \<open>jti\<close> again, whatever else happens.
\<close>

lemma deleted_stays_deleted:
  assumes "wf s" and "js_delete_jti S j s = (Inr (), s1)"
    and "\<forall>x \<in> set xs. j \<notin> op_writes x"
    and "js_check_jti S j (run_ops S xs s1) = (Inr b, s2)"
  shows "\<not> b"
proof -
  have w1: "wf s1" using wf_step [OF assms(1), of "OpDelete j"] assms(2) by simp
  let ?s = "run_ops S xs s1"
  have "\<not> present s1 (clock ?s) j"
    using assms(1,2) clock_run [OF w1] by (rule delete_result)
  then have "\<not> present ?s (clock ?s) j"
    using absent_run [OF w1 assms(3) order.refl] by blast
  then show ?thesis using check_result [OF wf_run [OF w1] assms(4)] by simp
qed

text \<open>
  Bulk revocation: after a successful \<open>revoke_group\<close>, every \<open>jti\<close> the index held with an expiry
  later than the process's clock is gone and stays gone.
\<close>

lemma group_stays_revoked:
  assumes "wf s" and "js_revoke_group S g s = (Inr n, s1)"
    and "grp s (clock s1) g j = Some e" and "wall s < e"
    and "\<forall>x \<in> set xs. j \<notin> op_writes x"
    and "js_check_jti S j (run_ops S xs s1) = (Inr b, s2)"
  shows "\<not> b"
proof -
  have w1: "wf s1" using wf_step [OF assms(1), of "OpRevoke g"] assms(2) by simp
  let ?s = "run_ops S xs s1"
  have "\<not> present s1 (clock s1) j"
    using revoke_result [OF assms(1,2) order.refl assms(3,4)] .
  then have "\<not> present s1 (clock ?s) j"
    using present_decays [OF w1 clock_run [OF w1]] by blast
  then have "\<not> present ?s (clock ?s) j"
    using absent_run [OF w1 assms(5) order.refl] by blast
  then show ?thesis using check_result [OF wf_run [OF w1] assms(6)] by simp
qed

text \<open>A spent refresh token: wherever its record exists, it carries the mark.\<close>

lemma spent_run:
  assumes "wf s" and "\<forall>x \<in> set xs. refresh_key i \<notin> op_writes x \<or> x = OpMark i"
    and "\<forall>t. clock s \<le> t \<longrightarrow> present s t (refresh_key i) \<longrightarrow> used s t i"
    and "clock (run_ops S xs s) \<le> t" and "present (run_ops S xs s) t (refresh_key i)"
  shows "used (run_ops S xs s) t i"
  using assms
proof (induction xs arbitrary: s)
  case Nil
  then show ?case by simp
next
  case (Cons x xs)
  have w: "wf (run_op S x s)" using Cons.prems by (intro wf_step)
  have spent: "\<forall>t. clock (run_op S x s) \<le> t \<longrightarrow> present (run_op S x s) t (refresh_key i) \<longrightarrow>
          used (run_op S x s) t i"
  proof (intro allI impI)
    fix t
    assume t: "clock (run_op S x s) \<le> t" and p: "present (run_op S x s) t (refresh_key i)"
    have "clock s \<le> t" using clock_step [OF Cons.prems(1), of x] t by linarith
    then have "present s t (refresh_key i) \<longrightarrow> used s t i" using Cons.prems(3) by blast
    then show "used (run_op S x s) t i"
      using Cons.prems(2) by (intro spent_stays [OF Cons.prems(1) _ t _ p]) simp_all
  qed
  have rest: "\<forall>x \<in> set xs. refresh_key i \<notin> op_writes x \<or> x = OpMark i"
    using Cons.prems(2) by simp
  show ?case
    using Cons.IH [OF w rest spent] Cons.prems(4,5) by simp
qed

text \<open>
  A refresh token is exchanged at most once: once a mark call on it has answered, a later
  mark call that finds a record answers \<open>false\<close>, whatever happened in between short of a new
  record under the same identifier.
\<close>

lemma mark_single_use:
  assumes "wf s" and "js_mark_refresh_used S i s = (Inr b, s1)"
    and "\<forall>x \<in> set xs. refresh_key i \<notin> op_writes x \<or> x = OpMark i"
    and "s2 = run_ops S xs s1"
    and "present s2 (clock s2) (refresh_key i)"
    and "js_mark_refresh_used S i s2 = (Inr b', s3)"
  shows "\<not> b'"
proof -
  have w1: "wf s1" using wf_step [OF assms(1), of "OpMark i"] assms(2) by simp
  have "\<forall>t. clock s1 \<le> t \<longrightarrow> present s1 t (refresh_key i) \<longrightarrow> used s1 t i"
    using mark_marks [OF assms(1,2)] by blast
  then have "used s2 (clock s2) i"
    using spent_run [OF w1 assms(3)] assms(4,5) by blast
  then show ?thesis
    using mark_result [OF _ assms(6)] wf_run [OF w1] assms(4) by blast
qed

text \<open>A claimed one-time code cannot be claimed again within its lifetime.\<close>

lemma claim_blocks:
  assumes "wf s" and "js_claim_totp_code S h ttl s = (Inr True, s1)"
    and "clock s1 < clock s + uint ttl"
    and "js_claim_totp_code S h ttl' s1 = (Inr b, s2)"
  shows "\<not> b"
proof -
  have w1: "wf s1" using wf_step [OF assms(1), of "OpClaim h ttl"] assms(2) by simp
  have "present s1 (clock s1) (totp_code_key h)"
    using claim_claims [OF assms(1,2) order.refl] assms(3) by simp
  then show ?thesis using claim_result [OF w1 assms(4)] by simp
qed

text \<open>A key that is present stays until its time is up or some call names it as a key to remove.\<close>

lemma present_run:
  "wf s \<Longrightarrow> \<forall>x \<in> set xs. k \<notin> op_removes x \<Longrightarrow> clock (run_ops S xs s) \<le> t \<Longrightarrow>
     present s t k \<Longrightarrow> present (run_ops S xs s) t k"
proof (induction xs arbitrary: s)
  case (Cons x xs)
  have w: "wf (run_op S x s)" using Cons.prems(1) by (rule wf_step)
  have "clock (run_op S x s) \<le> t" using clock_run [OF w, of xs] Cons.prems(3) by simp
  then have "present (run_op S x s) t k"
    using Cons.prems by (intro present_stays [OF Cons.prems(1)]) simp_all
  then show ?case using Cons.IH [OF w] Cons.prems by simp
qed simp

lemma claim_blocks_later:
  assumes "wf s" and "js_claim_totp_code S h ttl s = (Inr True, s1)"
    and "\<forall>x \<in> set xs. totp_code_key h \<notin> op_removes x" and "s2 = run_ops S xs s1"
    and "clock s2 < clock s + uint ttl" and "js_claim_totp_code S h ttl' s2 = (Inr b, s3)"
  shows "\<not> b"
proof -
  have w1: "wf s1" using wf_step [OF assms(1), of "OpClaim h ttl"] assms(2) by simp
  have "clock s1 \<le> clock s2" using clock_run [OF w1] assms(4) by simp
  then have "present s1 (clock s2) (totp_code_key h)"
    using claim_claims [OF assms(1,2)] assms(5) by simp
  then have "present s2 (clock s2) (totp_code_key h)"
    using present_run [OF w1 assms(3)] assms(4) by simp
  then show ?thesis using claim_result [OF _ assms(6)] wf_run [OF w1] assms(4) by simp
qed

end

end
