(* ===== verification/Redis_Store.thy ===== *)
theory Redis_Store
  imports Jti_Store
begin

text \<open>
  The store client of \<open>src/redis.rs\<close>. The Redis server itself and the \<open>redis\<close> crate are foreign
  code: the server is an abstract state \<open>'r\<close> and its commands are a dictionary (\<open>'r redis\<close>), an
  argument of every operation of the client. What the client relies on is the documented effect of
  the commands, stated in the locale \<open>redis_server\<close> over what a read of a key would see at a later
  time. Theory \<open>Redis_Keyspace\<close> shows that a keyspace with expiring keys satisfies it.
\<close>

section \<open>The commands of the server\<close>

text \<open>The three questions \<open>classify\<close> asks of a \<open>RedisError\<close>.\<close>

record redis_error =
  re_is_timeout :: bool
  re_is_connection_dropped :: bool
  re_is_connection_refusal :: bool

text \<open>
  Each command takes the server's time of its execution, and \<open>Inl\<close> is a failed command. The last
  two fields are \<open>serde_json\<close> on a list of strings.
\<close>

record 'r redis =
  rd_connect :: "'r \<Rightarrow> (redis_error + unit) \<times> 'r"
  rd_ping :: "int \<Rightarrow> 'r \<Rightarrow> (redis_error + unit) \<times> 'r"
  rd_set_ex :: "string \<Rightarrow> string \<Rightarrow> u64 \<Rightarrow> int \<Rightarrow> 'r \<Rightarrow> (redis_error + unit) \<times> 'r"
  rd_exists :: "string \<Rightarrow> int \<Rightarrow> 'r \<Rightarrow> (redis_error + bool) \<times> 'r"
  rd_del :: "string list \<Rightarrow> int \<Rightarrow> 'r \<Rightarrow> (redis_error + unit) \<times> 'r"
  rd_zadd :: "string \<Rightarrow> string \<Rightarrow> int \<Rightarrow> int \<Rightarrow> 'r \<Rightarrow> (redis_error + unit) \<times> 'r"
  rd_expire_at :: "string \<Rightarrow> int \<Rightarrow> int \<Rightarrow> 'r \<Rightarrow> (redis_error + unit) \<times> 'r"
  rd_expire :: "string \<Rightarrow> int \<Rightarrow> int \<Rightarrow> 'r \<Rightarrow> (redis_error + unit) \<times> 'r"
  rd_zrembyscore :: "string \<Rightarrow> int \<Rightarrow> int \<Rightarrow> 'r \<Rightarrow> (redis_error + unit) \<times> 'r"
  rd_zrange :: "string \<Rightarrow> int \<Rightarrow> 'r \<Rightarrow> (redis_error + string list) \<times> 'r"
  rd_hset_multiple :: "string \<Rightarrow> (string \<times> string) list \<Rightarrow> int \<Rightarrow> 'r \<Rightarrow> (redis_error + unit) \<times> 'r"
  rd_hgetall :: "string \<Rightarrow> int \<Rightarrow> 'r \<Rightarrow> (redis_error + (string \<times> string) list) \<times> 'r"
  rd_hset_nx :: "string \<Rightarrow> string \<Rightarrow> string \<Rightarrow> int \<Rightarrow> 'r \<Rightarrow> (redis_error + bool) \<times> 'r"
  rd_set_nx_ex :: "string \<Rightarrow> string \<Rightarrow> u64 \<Rightarrow> int \<Rightarrow> 'r \<Rightarrow> (redis_error + string option) \<times> 'r"
  rd_json_of_strings :: "string list \<Rightarrow> string option"
  rd_strings_of_json :: "string \<Rightarrow> string list option"

section \<open>The client\<close>

text \<open>
  \<open>rc_manager\<close> says whether the \<open>OnceCell\<close> holds a connection manager. \<open>rc_time\<close> is the sequence of
  server times at which successive commands execute, \<open>rc_utc\<close> the sequence of readings of the
  process's own wall clock (\<open>Utc::now\<close>).
\<close>

record 'r redis_client =
  rc_manager :: bool
  rc_server :: 'r
  rc_time :: "nat \<Rightarrow> int"
  rc_tick :: nat
  rc_utc :: "nat \<Rightarrow> int"
  rc_utc_tick :: nat
  rc_metrics :: "metric list"

definition classify :: "redis_error \<Rightarrow> jti_error" where
  "classify e =
     (if re_is_timeout e \<or> re_is_connection_dropped e \<or> re_is_connection_refusal e
      then JtiBadConnection else JtiWrongOperation)"

text \<open>The timeouts and \<open>RedisClient::new\<close>: only the URL is parsed, no connection is opened.\<close>

definition redis_env_millis :: "env \<Rightarrow> string \<Rightarrow> u64 \<Rightarrow> u64" where
  "redis_env_millis e name dflt =
     (case e name of
        None \<Rightarrow> dflt
      | Some raw \<Rightarrow> (case parse_u64 (trim raw) of Some v \<Rightarrow> v | None \<Rightarrow> dflt))"

record redis_config =
  rf_url :: string
  rf_response_timeout_ms :: u64
  rf_connection_timeout_ms :: u64
  rf_number_of_retries :: nat
  rf_max_delay_ms :: nat

definition redis_client_new :: "(string \<Rightarrow> bool) \<Rightarrow> env \<Rightarrow> redis_config option" where
  "redis_client_new valid_url e =
     (let url = env_or e ''REDIS_URL'' ''redis://redis:6379'' in
      if \<not> valid_url url then None
      else Some \<lparr>rf_url = url,
             rf_response_timeout_ms = redis_env_millis e ''REDIS_RESPONSE_TIMEOUT_MS'' 1000,
             rf_connection_timeout_ms = redis_env_millis e ''REDIS_CONNECT_TIMEOUT_MS'' 500,
             rf_number_of_retries = 1,
             rf_max_delay_ms = 200\<rparr>)"

definition redis_client_init :: "'r \<Rightarrow> (nat \<Rightarrow> int) \<Rightarrow> (nat \<Rightarrow> int) \<Rightarrow> 'r redis_client" where
  "redis_client_init r time utc =
     \<lparr>rc_manager = False, rc_server = r, rc_time = time, rc_tick = 0, rc_utc = utc,
      rc_utc_tick = 0, rc_metrics = []\<rparr>"

text \<open>The server time at which the next command executes.\<close>

definition rc_clock :: "'r redis_client \<Rightarrow> int" where
  "rc_clock c = rc_time c (rc_tick c)"

definition issue ::
  "(int \<Rightarrow> 'r \<Rightarrow> (redis_error + 'a) \<times> 'r) \<Rightarrow> 'r redis_client \<Rightarrow> (redis_error + 'a) \<times> 'r redis_client" where
  "issue cmd c =
     (case cmd (rc_clock c) (rc_server c) of
        (x, r') \<Rightarrow> (x, c\<lparr>rc_server := r', rc_tick := Suc (rc_tick c)\<rparr>))"

definition record_redis_command :: "string \<Rightarrow> bool \<Rightarrow> 'r redis_client \<Rightarrow> 'r redis_client" where
  "record_redis_command name success c =
     c\<lparr>rc_metrics := rc_metrics c @ [RedisCommand name success]\<rparr>"

definition redis_utc_now :: "'r redis_client \<Rightarrow> int \<times> 'r redis_client" where
  "redis_utc_now c = (rc_utc c (rc_utc_tick c), c\<lparr>rc_utc_tick := Suc (rc_utc_tick c)\<rparr>)"

text \<open>\<open>RedisClient::connection\<close>: a failed attempt leaves the cell empty.\<close>

definition redis_connection ::
  "'r redis \<Rightarrow> 'r redis_client \<Rightarrow> (jti_error + unit) \<times> 'r redis_client" where
  "redis_connection R c =
     (if rc_manager c then (Inr (), c)
      else (case rd_connect R (rc_server c) of
              (Inr _, r') \<Rightarrow> (Inr (), c\<lparr>rc_manager := True, rc_server := r'\<rparr>)
            | (Inl _, r') \<Rightarrow> (Inl JtiBadConnection, c\<lparr>rc_server := r'\<rparr>)))"

text \<open>The common tail of every operation: record the command and classify a failure.\<close>

definition finish ::
  "string \<Rightarrow> (redis_error + 'a) \<times> 'r redis_client \<Rightarrow> (jti_error + 'a) \<times> 'r redis_client" where
  "finish name res =
     (case res of
        (Inr v, c) \<Rightarrow> (Inr v, record_redis_command name True c)
      | (Inl e, c) \<Rightarrow> (Inl (classify e), record_redis_command name False c))"

definition with_connection ::
  "'r redis \<Rightarrow> ('r redis_client \<Rightarrow> (jti_error + 'a) \<times> 'r redis_client) \<Rightarrow> 'r redis_client
     \<Rightarrow> (jti_error + 'a) \<times> 'r redis_client" where
  "with_connection R body c =
     (case redis_connection R c of
        (Inl e, c1) \<Rightarrow> (Inl e, c1)
      | (Inr _, c1) \<Rightarrow> body c1)"

section \<open>The operations\<close>

definition redis_ping :: "'r redis \<Rightarrow> 'r redis_client \<Rightarrow> (jti_error + unit) \<times> 'r redis_client" where
  "redis_ping R = with_connection R (\<lambda>c. finish ''ping'' (issue (rd_ping R) c))"

definition redis_store_jti ::
  "'r redis \<Rightarrow> string \<Rightarrow> u64 \<Rightarrow> 'r redis_client \<Rightarrow> (jti_error + unit) \<times> 'r redis_client" where
  "redis_store_jti R jti ttl =
     with_connection R (\<lambda>c. finish ''store_jti'' (issue (rd_set_ex R jti ''1'' ttl) c))"

definition redis_check_jti ::
  "'r redis \<Rightarrow> string \<Rightarrow> 'r redis_client \<Rightarrow> (jti_error + bool) \<times> 'r redis_client" where
  "redis_check_jti R jti =
     with_connection R (\<lambda>c. finish ''check_jti'' (issue (rd_exists R jti) c))"

definition redis_add_to_group ::
  "'r redis \<Rightarrow> string \<Rightarrow> string \<Rightarrow> int \<Rightarrow> 'r redis_client \<Rightarrow> (jti_error + unit) \<times> 'r redis_client" where
  "redis_add_to_group R gkey jti expires_at =
     with_connection R (\<lambda>c. finish ''add_to_group''
       (case issue (rd_zadd R gkey jti expires_at) c of
          (Inl e, c1) \<Rightarrow> (Inl e, c1)
        | (Inr _, c1) \<Rightarrow> issue (rd_expire_at R gkey expires_at) c1))"

definition redis_revoke_group ::
  "'r redis \<Rightarrow> string \<Rightarrow> 'r redis_client \<Rightarrow> (jti_error + u64) \<times> 'r redis_client" where
  "redis_revoke_group R gkey =
     with_connection R (\<lambda>c0. case redis_utc_now c0 of (now, c) \<Rightarrow> finish ''revoke_group''
       (case issue (rd_zrembyscore R gkey now) c of
          (Inl e, c1) \<Rightarrow> (Inl e, c1)
        | (Inr _, c1) \<Rightarrow>
            (case issue (rd_zrange R gkey) c1 of
               (Inl e, c2) \<Rightarrow> (Inl e, c2)
             | (Inr jtis, c2) \<Rightarrow>
                 (case (if jtis \<noteq> [] then issue (rd_del R jtis) c2 else (Inr (), c2)) of
                    (Inl e, c3) \<Rightarrow> (Inl e, c3)
                  | (Inr _, c3) \<Rightarrow>
                      (case issue (rd_del R [gkey]) c3 of
                         (Inl e, c4) \<Rightarrow> (Inl e, c4)
                       | (Inr _, c4) \<Rightarrow> (Inr (of_nat (length jtis)), c4))))))"

definition redis_store_refresh ::
  "'r redis \<Rightarrow> string \<Rightarrow> refresh_record \<Rightarrow> u64 \<Rightarrow> 'r redis_client
     \<Rightarrow> (jti_error + unit) \<times> 'r redis_client" where
  "redis_store_refresh R i rec ttl =
     with_connection R (\<lambda>c.
       case rd_json_of_strings R (rr_audience rec) of
         None \<Rightarrow> (Inl JtiWrongOperation, c)
       | Some audience \<Rightarrow> finish ''store_refresh''
           (case issue (rd_hset_multiple R (refresh_key i)
                          [(''sub'', rr_subject rec), (''aud'', audience),
                           (''family'', rr_family rec)]) c of
              (Inl e, c1) \<Rightarrow> (Inl e, c1)
            | (Inr _, c1) \<Rightarrow> issue (rd_expire R (refresh_key i) (as_i64 ttl)) c1))"

text \<open>An incomplete record, or one whose audience does not parse, is treated as absent.\<close>

definition record_of_fields :: "'r redis \<Rightarrow> (string \<Rightarrow> string option) \<Rightarrow> refresh_record option" where
  "record_of_fields R kvs =
     (case (kvs ''sub'', kvs ''aud'', kvs ''family'') of
        (Some subject, Some audience, Some family) \<Rightarrow>
          (case rd_strings_of_json R audience of
             None \<Rightarrow> None
           | Some aud \<Rightarrow> Some \<lparr>rr_subject = subject, rr_audience = aud, rr_family = family\<rparr>)
      | _ \<Rightarrow> None)"

definition redis_get_refresh ::
  "'r redis \<Rightarrow> string \<Rightarrow> 'r redis_client \<Rightarrow> (jti_error + refresh_record option) \<times> 'r redis_client" where
  "redis_get_refresh R i =
     with_connection R (\<lambda>c.
       case finish ''get_refresh'' (issue (rd_hgetall R (refresh_key i)) c) of
         (Inl e, c1) \<Rightarrow> (Inl e, c1)
       | (Inr kvs, c1) \<Rightarrow>
           (Inr (if kvs = [] then None else record_of_fields R (map_of kvs)), c1))"

definition redis_mark_refresh_used ::
  "'r redis \<Rightarrow> string \<Rightarrow> 'r redis_client \<Rightarrow> (jti_error + bool) \<times> 'r redis_client" where
  "redis_mark_refresh_used R i =
     with_connection R (\<lambda>c.
       finish ''mark_refresh_used'' (issue (rd_hset_nx R (refresh_key i) ''used'' ''1'') c))"

definition redis_claim_totp_code ::
  "'r redis \<Rightarrow> string \<Rightarrow> u64 \<Rightarrow> 'r redis_client \<Rightarrow> (jti_error + bool) \<times> 'r redis_client" where
  "redis_claim_totp_code R hash ttl =
     with_connection R (\<lambda>c.
       case finish ''claim_totp_code'' (issue (rd_set_nx_ex R (totp_code_key hash) ''1'' ttl) c) of
         (Inl e, c1) \<Rightarrow> (Inl e, c1)
       | (Inr result, c1) \<Rightarrow> (Inr (result \<noteq> None), c1))"

definition redis_delete_jti ::
  "'r redis \<Rightarrow> string \<Rightarrow> 'r redis_client \<Rightarrow> (jti_error + unit) \<times> 'r redis_client" where
  "redis_delete_jti R jti =
     with_connection R (\<lambda>c. finish ''delete_jti'' (issue (rd_del R [jti]) c))"

text \<open>\<open>impl JtiStore for RedisClient\<close>.\<close>

definition redis_jti_store :: "'r redis \<Rightarrow> 'r redis_client jti_store" where
  "redis_jti_store R =
     \<lparr>js_ping = redis_ping R,
      js_store_jti = redis_store_jti R,
      js_check_jti = redis_check_jti R,
      js_delete_jti = redis_delete_jti R,
      js_add_to_group = redis_add_to_group R,
      js_revoke_group = redis_revoke_group R,
      js_store_refresh = redis_store_refresh R,
      js_get_refresh = redis_get_refresh R,
      js_mark_refresh_used = redis_mark_refresh_used R,
      js_claim_totp_code = redis_claim_totp_code R\<rparr>"

end
