(* ===== verification/Redis_Contract.thy ===== *)
theory Redis_Contract
  imports Redis_Store
begin

text \<open>
  The documented effects of the Redis commands, the locale \<open>redis_server\<close> that assumes them, and
  the proof that \<open>RedisClient\<close> over such a server keeps the contract of the \<open>JtiStore\<close> trait
  (\<open>sublocale redis_server \<subseteq> jti_store\<close>).
\<close>

section \<open>What a read would see\<close>

datatype rvalue =
    RStr string
  | RHash "string \<Rightarrow> string option"
  | RZset "string \<Rightarrow> int option"

text \<open>
  A view says what a read of a key at a server time would see if nothing were written meanwhile.
  Time only removes: a key that has a deadline disappears at it.
\<close>

type_synonym view = "int \<Rightarrow> string \<Rightarrow> rvalue option"

definition decays :: "view \<Rightarrow> bool" where
  "decays V \<longleftrightarrow> (\<forall>t t' k. t \<le> t' \<longrightarrow> V t' k = V t k \<or> V t' k = None)"

definition agree :: "int \<Rightarrow> view \<Rightarrow> view \<Rightarrow> bool" where
  "agree t V V' \<longleftrightarrow> (\<forall>t' k. t \<le> t' \<longrightarrow> V t' k = V' t' k)"

fun hash_of :: "rvalue option \<Rightarrow> string \<Rightarrow> string option" where
  "hash_of (Some (RHash h)) = h"
| "hash_of _ = Map.empty"

fun zset_of :: "rvalue option \<Rightarrow> string \<Rightarrow> int option" where
  "zset_of (Some (RZset z)) = z"
| "zset_of _ = Map.empty"

section \<open>Effects of the commands\<close>

text \<open>Storing a value in place: an existing deadline is kept, a new key has none.\<close>

definition put :: "string \<Rightarrow> rvalue \<Rightarrow> int \<Rightarrow> view \<Rightarrow> view" where
  "put k v t V = (\<lambda>t' k'. if k' = k
     then (if V t k = None then Some v else if V t' k = None then None else Some v)
     else V t' k')"

text \<open>\<open>SETEX\<close> replaces the value and the deadline.\<close>

definition eff_set_ex :: "string \<Rightarrow> string \<Rightarrow> u64 \<Rightarrow> int \<Rightarrow> view \<Rightarrow> view" where
  "eff_set_ex k v ttl t V = (\<lambda>t' k'. if k' = k
     then (if t' < t + uint ttl then Some (RStr v) else None) else V t' k')"

definition eff_del :: "string list \<Rightarrow> int \<Rightarrow> view \<Rightarrow> view" where
  "eff_del ks t V = (\<lambda>t' k'. if k' \<in> set ks then None else V t' k')"

definition eff_zadd :: "string \<Rightarrow> string \<Rightarrow> int \<Rightarrow> int \<Rightarrow> view \<Rightarrow> view" where
  "eff_zadd k m sc t V = put k (RZset ((zset_of (V t k))(m \<mapsto> sc))) t V"

text \<open>\<open>EXPIREAT\<close> replaces the deadline, whether the new one is later or earlier.\<close>

definition eff_expire_at :: "string \<Rightarrow> int \<Rightarrow> int \<Rightarrow> view \<Rightarrow> view" where
  "eff_expire_at k e t V = (\<lambda>t' k'. if k' = k then (if t' < e then V t k else None) else V t' k')"

definition eff_expire :: "string \<Rightarrow> int \<Rightarrow> int \<Rightarrow> view \<Rightarrow> view" where
  "eff_expire k secs t V = eff_expire_at k (t + secs) t V"

text \<open>\<open>ZREMRANGEBYSCORE k -inf mx\<close>; a sorted set that becomes empty is removed.\<close>

definition above :: "int \<Rightarrow> (string \<Rightarrow> int option) \<Rightarrow> string \<Rightarrow> int option" where
  "above mx z = (\<lambda>m. case z m of None \<Rightarrow> None | Some sc \<Rightarrow> if sc \<le> mx then None else Some sc)"

definition eff_zrem :: "string \<Rightarrow> int \<Rightarrow> int \<Rightarrow> view \<Rightarrow> view" where
  "eff_zrem k mx t V =
     (case V t k of
        Some (RZset z) \<Rightarrow>
          (\<lambda>t' k'. if k' = k \<and> V t' k \<noteq> None
             then (if above mx z = Map.empty then None else Some (RZset (above mx z)))
             else V t' k')
      | _ \<Rightarrow> V)"

definition eff_hset :: "string \<Rightarrow> (string \<times> string) list \<Rightarrow> int \<Rightarrow> view \<Rightarrow> view" where
  "eff_hset k kvs t V = put k (RHash (hash_of (V t k) ++ map_of (rev kvs))) t V"

definition eff_hset_nx :: "string \<Rightarrow> string \<Rightarrow> string \<Rightarrow> int \<Rightarrow> view \<Rightarrow> view" where
  "eff_hset_nx k f v t V =
     (if hash_of (V t k) f = None then put k (RHash ((hash_of (V t k))(f \<mapsto> v))) t V else V)"

definition eff_set_nx_ex :: "string \<Rightarrow> string \<Rightarrow> u64 \<Rightarrow> int \<Rightarrow> view \<Rightarrow> view" where
  "eff_set_nx_ex k v ttl t V = (if V t k = None then eff_set_ex k v ttl t V else V)"

definition eff_none :: "int \<Rightarrow> view \<Rightarrow> view" where
  "eff_none t V = V"

lemmas effects = put_def eff_set_ex_def eff_del_def eff_zadd_def eff_expire_at_def eff_expire_def
  eff_zrem_def eff_hset_def eff_hset_nx_def eff_set_nx_ex_def eff_none_def

text \<open>
  A command obeys an effect when a success has it exactly, with an answer that fits the state the
  command saw, and a failure either has it or changed nothing.
\<close>

definition obeys ::
  "('r \<Rightarrow> view) \<Rightarrow> (int \<Rightarrow> 'r \<Rightarrow> (redis_error + 'a) \<times> 'r) \<Rightarrow> (int \<Rightarrow> view \<Rightarrow> view)
     \<Rightarrow> (int \<Rightarrow> view \<Rightarrow> 'a \<Rightarrow> bool) \<Rightarrow> bool" where
  "obeys look cmd eff ans \<longleftrightarrow>
     (\<forall>t r x r'. cmd t r = (x, r') \<longrightarrow>
        (case x of
           Inr a \<Rightarrow> ans t (look r) a \<and> agree t (look r') (eff t (look r))
         | Inl _ \<Rightarrow> agree t (look r') (look r) \<or> agree t (look r') (eff t (look r))))"

section \<open>Commands and steps of the client\<close>

text \<open>
  An effect keeps the keys outside \<open>K\<close> and \<open>L\<close>: outside \<open>K\<close> it neither creates nor rewrites a key,
  outside \<open>L\<close> it removes none.
\<close>

definition keeps :: "string set \<Rightarrow> string set \<Rightarrow> (int \<Rightarrow> view \<Rightarrow> view) \<Rightarrow> bool" where
  "keeps K L eff \<longleftrightarrow>
     (\<forall>t V t' k. decays V \<longrightarrow> t \<le> t' \<longrightarrow>
        (k \<notin> K \<longrightarrow> eff t V t' k \<noteq> None \<longrightarrow>
           V t' k \<noteq> None \<and> hash_of (eff t V t' k) = hash_of (V t' k)) \<and>
        (k \<notin> L \<longrightarrow> V t' k \<noteq> None \<longrightarrow> eff t V t' k \<noteq> None))"

lemma decaysD: "decays V \<Longrightarrow> t \<le> t' \<Longrightarrow> V t' k = V t k \<or> V t' k = None"
  by (auto simp: decays_def)

lemma decays_Some: "decays V \<Longrightarrow> t \<le> t' \<Longrightarrow> V t' k = Some v \<Longrightarrow> V t k = Some v"
  using decaysD [of V t t' k] by simp

lemma agreeD: "agree t V V' \<Longrightarrow> t \<le> t' \<Longrightarrow> V t' k = V' t' k"
  by (simp add: agree_def)

lemma keeps_effects [simp]:
  "keeps K L eff_none"
  "k \<in> K \<Longrightarrow> k \<in> L \<Longrightarrow> keeps K L (eff_set_ex k v ttl)"
  "set ks \<subseteq> L \<Longrightarrow> keeps K L (eff_del ks)"
  "k \<in> K \<Longrightarrow> k \<in> L \<Longrightarrow> keeps K L (eff_expire_at k e)"
  "k \<in> K \<Longrightarrow> k \<in> L \<Longrightarrow> keeps K L (eff_expire k e)"
  "k \<in> K \<Longrightarrow> keeps K L (eff_hset k kvs)"
  "k \<in> K \<Longrightarrow> keeps K L (eff_hset_nx k f v)"
  by (auto simp: keeps_def effects)

lemma keeps_set_nx_ex [simp]: "k \<in> K \<Longrightarrow> keeps K L (eff_set_nx_ex k v ttl)"
  unfolding keeps_def effects by (auto dest!: decaysD)

lemma keeps_zrem [simp]:
  assumes "k \<in> L"
  shows "keeps K L (eff_zrem k mx)"
  unfolding keeps_def
proof (intro allI impI)
  fix t t' :: int and V k'
  assume d: "decays V" and le: "t \<le> t'"
  show "(k' \<notin> K \<longrightarrow> eff_zrem k mx t V t' k' \<noteq> None \<longrightarrow>
      V t' k' \<noteq> None \<and> hash_of (eff_zrem k mx t V t' k') = hash_of (V t' k')) \<and>
    (k' \<notin> L \<longrightarrow> V t' k' \<noteq> None \<longrightarrow> eff_zrem k mx t V t' k' \<noteq> None)"
    using assms decaysD [OF d le, of k]
    by (auto simp: eff_zrem_def split: option.splits rvalue.splits if_splits)
qed

text \<open>
  A step of the client that writes at most the keys in \<open>K\<close> and removes at most those in \<open>L\<close>: the
  server's time does not go back, every key outside \<open>K\<close> that exists afterwards existed before with
  the same hash fields, and every key outside \<open>L\<close> that existed still exists.
\<close>

definition client_step ::
  "('r \<Rightarrow> view) \<Rightarrow> string set \<Rightarrow> string set \<Rightarrow> 'r redis_client \<Rightarrow> 'r redis_client \<Rightarrow> bool" where
  "client_step look K L c c' \<longleftrightarrow>
     (mono (rc_time c) \<longrightarrow>
        mono (rc_time c') \<and> rc_clock c \<le> rc_clock c' \<and>
        (\<forall>t k. rc_clock c' \<le> t \<longrightarrow>
           (k \<notin> K \<longrightarrow> look (rc_server c') t k \<noteq> None \<longrightarrow>
              look (rc_server c) t k \<noteq> None \<and>
              hash_of (look (rc_server c') t k) = hash_of (look (rc_server c) t k)) \<and>
           (k \<notin> L \<longrightarrow> look (rc_server c) t k \<noteq> None \<longrightarrow> look (rc_server c') t k \<noteq> None)))"

lemma client_step_refl [simp]: "client_step look K L c c"
  by (simp add: client_step_def)

lemma client_step_trans:
  assumes "client_step look K L c c1" and "client_step look K L c1 c2"
  shows "client_step look K L c c2"
  unfolding client_step_def
proof (intro impI conjI allI)
  assume m: "mono (rc_time c)"
  have m1: "mono (rc_time c1)" and le: "rc_clock c \<le> rc_clock c1" using assms(1) m by (simp_all add: client_step_def)
  show "mono (rc_time c2)" using assms(2) m1 by (simp add: client_step_def)
  have le2: "rc_clock c1 \<le> rc_clock c2" using assms(2) m1 by (simp add: client_step_def)
  then show "rc_clock c \<le> rc_clock c2" using le by simp
  fix t k
  assume t: "rc_clock c2 \<le> t"
  have t1: "rc_clock c1 \<le> t" using t le2 by simp
  show "look (rc_server c) t k \<noteq> None" and "hash_of (look (rc_server c2) t k) = hash_of (look (rc_server c) t k)"
    if "k \<notin> K" "look (rc_server c2) t k \<noteq> None"
    using that assms m m1 t t1 by (simp_all add: client_step_def)
  show "look (rc_server c2) t k \<noteq> None" if "k \<notin> L" "look (rc_server c) t k \<noteq> None"
    using that assms m m1 t t1 by (simp add: client_step_def)
qed

lemma client_step_recorded [simp]:
  "client_step look K L c (record_redis_command name ok c') = client_step look K L c c'"
  by (simp add: client_step_def record_redis_command_def rc_clock_def)

lemma client_step_utc:
  "redis_utc_now c = (now, c') \<Longrightarrow> client_step look K L c c'"
  by (auto simp: client_step_def redis_utc_now_def rc_clock_def)

text \<open>The next reading of the process's own clock.\<close>

definition rs_wall :: "'r redis_client \<Rightarrow> int" where
  "rs_wall c = rc_utc c (rc_utc_tick c)"

locale redis_server =
  fixes R :: "'r redis" and look :: "'r \<Rightarrow> view"
  assumes look_decays: "decays (look r)"
    and connect: "rd_connect R r = (x, r') \<Longrightarrow> look r' = look r"
    and ping: "obeys look (rd_ping R) eff_none (\<lambda>_ _ _. True)"
    and set_ex: "obeys look (rd_set_ex R k v ttl) (eff_set_ex k v ttl) (\<lambda>_ _ _. True)"
    and exists: "obeys look (rd_exists R k) eff_none (\<lambda>t V b. b = (V t k \<noteq> None))"
    and del: "obeys look (rd_del R ks) (eff_del ks) (\<lambda>_ _ _. True)"
    and zadd: "\<bar>sc\<bar> \<le> 2 ^ 53 \<Longrightarrow>
          obeys look (rd_zadd R k m sc) (eff_zadd k m sc) (\<lambda>_ _ _. True)"
    and zadd_other: "rd_zadd R k m sc t r = (x, r') \<Longrightarrow> t \<le> t' \<Longrightarrow> k' \<noteq> k \<Longrightarrow>
          look r' t' k' = look r t' k'"
    and expire_at: "obeys look (rd_expire_at R k sc) (eff_expire_at k sc) (\<lambda>_ _ _. True)"
    and expire: "obeys look (rd_expire R k sc) (eff_expire k sc) (\<lambda>_ _ _. True)"
    and zrem: "obeys look (rd_zrembyscore R k sc) (eff_zrem k sc)
          (\<lambda>t V _. V t k = None \<or> (\<exists>z. V t k = Some (RZset z)))"
    and zrange: "obeys look (rd_zrange R k) eff_none
          (\<lambda>t V ms. set ms = dom (zset_of (V t k)) \<and> distinct ms)"
    and hset: "obeys look (rd_hset_multiple R k kvs) (eff_hset k kvs) (\<lambda>_ _ _. True)"
    and hgetall: "obeys look (rd_hgetall R k) eff_none (\<lambda>t V h. map_of h = hash_of (V t k))"
    and hset_nx: "obeys look (rd_hset_nx R k v w) (eff_hset_nx k v w)
          (\<lambda>t V b. b = (hash_of (V t k) v = None))"
    and set_nx_ex: "obeys look (rd_set_nx_ex R k v ttl) (eff_set_nx_ex k v ttl)
          (\<lambda>t V a. (a \<noteq> None) = (V t k = None))"
begin

lemma connection_step:
  "redis_connection R c = (x, c') \<Longrightarrow>
     client_step look K L c c' \<and> rc_clock c' = rc_clock c \<and> rc_time c' = rc_time c \<and>
     look (rc_server c') = look (rc_server c) \<and> rs_wall c' = rs_wall c"
  by (auto simp: redis_connection_def client_step_def rc_clock_def rs_wall_def
      split: if_splits prod.splits sum.splits dest!: connect)

lemma issue_time:
  "issue cmd c = (x, c') \<Longrightarrow> rc_time c' = rc_time c \<and> rc_tick c' = Suc (rc_tick c)"
  by (auto simp: issue_def split: prod.splits)

lemma issue_clock: "mono (rc_time c) \<Longrightarrow> issue cmd c = (x, c') \<Longrightarrow> rc_clock c \<le> rc_clock c'"
  by (auto dest!: issue_time simp: rc_clock_def monoD)

text \<open>What a successful command leaves behind, and what its answer says of the state it saw.\<close>

lemma issue_Inr:
  assumes "obeys look cmd eff ans" and "issue cmd c = (Inr a, c')"
  shows "ans (rc_clock c) (look (rc_server c)) a \<and>
         agree (rc_clock c) (look (rc_server c')) (eff (rc_clock c) (look (rc_server c)))"
  using assms by (fastforce simp: obeys_def issue_def split: prod.splits sum.splits)

lemma issue_any:
  assumes "obeys look cmd eff ans" and "issue cmd c = (x, c')"
  shows "agree (rc_clock c) (look (rc_server c')) (look (rc_server c)) \<or>
         agree (rc_clock c) (look (rc_server c')) (eff (rc_clock c) (look (rc_server c)))"
proof -
  obtain r' where r: "cmd (rc_clock c) (rc_server c) = (x, r')" and c': "rc_server c' = r'"
    using assms(2) by (auto simp: issue_def split: prod.splits)
  show ?thesis
    using assms(1) [unfolded obeys_def, rule_format, OF r] c' by (cases x) auto
qed

lemma issue_step:
  assumes ob: "obeys look cmd eff ans" and kp: "keeps K L eff" and iss: "issue cmd c = (x, c')"
  shows "client_step look K L c c'"
  unfolding client_step_def
proof (intro impI conjI allI)
  assume m: "mono (rc_time c)"
  show "mono (rc_time c')" using issue_time [OF iss] m by simp
  show le: "rc_clock c \<le> rc_clock c'" using issue_clock [OF m iss] .
  fix t k
  assume t: "rc_clock c' \<le> t"
  let ?V = "look (rc_server c)" and ?V' = "look (rc_server c')"
  have at: "rc_clock c \<le> t" using le t by simp
  have "?V' t k = ?V t k \<or> ?V' t k = eff (rc_clock c) ?V t k"
    using issue_any [OF ob iss] at by (auto dest: agreeD)
  then have e: "?V' t k = ?V t k \<or> ?V' t k = eff (rc_clock c) ?V t k" .
  note kp' = kp [unfolded keeps_def, rule_format, OF look_decays [of "rc_server c"] at, of k]
  show "?V t k \<noteq> None" and "hash_of (?V' t k) = hash_of (?V t k)" if "k \<notin> K" "?V' t k \<noteq> None"
    using e kp' that by metis+
  show "?V' t k \<noteq> None" if "k \<notin> L" "?V t k \<noteq> None"
    using e kp' that by metis
qed

lemma zadd_frame:
  assumes "issue (rd_zadd R k m sc) c = (x, c')" and "rc_clock c \<le> t" and "k' \<noteq> k"
  shows "look (rc_server c') t k' = look (rc_server c) t k'"
proof -
  obtain r' where "rd_zadd R k m sc (rc_clock c) (rc_server c) = (x, r')" and "rc_server c' = r'"
    using assms(1) by (auto simp: issue_def split: prod.splits)
  then show ?thesis using zadd_other [OF _ assms(2,3)] by simp
qed

lemma zadd_step:
  assumes "issue (rd_zadd R k m sc) c = (x, c')" and "k \<in> K" and "k \<in> L"
  shows "client_step look K L c c'"
proof -
  show ?thesis
    unfolding client_step_def
  proof (intro impI conjI allI)
    assume m: "mono (rc_time c)"
    show "mono (rc_time c')" using issue_time [OF assms(1)] m by simp
    show le: "rc_clock c \<le> rc_clock c'" using issue_clock [OF m assms(1)] .
    fix t k'
    assume t: "rc_clock c' \<le> t"
    have e: "look (rc_server c') t k' = look (rc_server c) t k'" if "k' \<noteq> k"
      using le t that by (intro zadd_frame [OF assms(1)]) auto
    show "look (rc_server c) t k' \<noteq> None"
      and "hash_of (look (rc_server c') t k') = hash_of (look (rc_server c) t k')"
      if "k' \<notin> K" "look (rc_server c') t k' \<noteq> None"
      using that e assms(2) by metis+
    show "look (rc_server c') t k' \<noteq> None" if "k' \<notin> L" "look (rc_server c) t k' \<noteq> None"
      using that e assms(3) by metis
  qed
qed

lemma with_connection_step:
  assumes "with_connection R body c = (x, c')"
    and "\<And>c1 x c'. body c1 = (x, c') \<Longrightarrow> client_step look K L c1 c'"
  shows "client_step look K L c c'"
proof -
  obtain y c1 where y: "redis_connection R c = (y, c1)" by fastforce
  have s: "client_step look K L c c1" using connection_step [OF y] by blast
  show ?thesis
    using assms(1) s assms(2) [of c1] unfolding with_connection_def y
    by (cases y) (auto intro: client_step_trans)
qed

lemma finish_step:
  "finish name (y, c1) = (x, c') \<Longrightarrow> client_step look K L c c1 \<Longrightarrow> client_step look K L c c'"
  by (auto simp: finish_def split: sum.splits)

end

context redis_server
begin

lemma finish_issue_step:
  assumes "obeys look cmd eff ans" and "keeps K L eff" and "finish name (issue cmd c) = (x, c')"
  shows "client_step look K L c c'"
proof -
  obtain y c1 where i: "issue cmd c = (y, c1)" by fastforce
  show ?thesis
    using issue_step [OF assms(1,2) i] assms(3) i by (auto intro: finish_step)
qed

lemma ping_step: "redis_ping R c = (x, c') \<Longrightarrow> client_step look K L c c'"
  unfolding redis_ping_def
  by (erule with_connection_step) (rule finish_issue_step [OF ping], simp_all)

lemma store_jti_step: "redis_store_jti R j ttl c = (x, c') \<Longrightarrow> client_step look {j} {j} c c'"
  unfolding redis_store_jti_def
  by (erule with_connection_step) (rule finish_issue_step [OF set_ex], simp_all)

lemma check_jti_step: "redis_check_jti R j c = (x, c') \<Longrightarrow> client_step look K L c c'"
  unfolding redis_check_jti_def
  by (erule with_connection_step) (rule finish_issue_step [OF exists], simp_all)

lemma delete_jti_step: "redis_delete_jti R j c = (x, c') \<Longrightarrow> client_step look K {j} c c'"
  unfolding redis_delete_jti_def
  by (erule with_connection_step) (rule finish_issue_step [OF del], simp_all)

lemma mark_step:
  "redis_mark_refresh_used R i c = (x, c') \<Longrightarrow> client_step look {refresh_key i} L c c'"
  unfolding redis_mark_refresh_used_def
  by (erule with_connection_step) (rule finish_issue_step [OF hset_nx], simp_all)

lemma get_refresh_step: "redis_get_refresh R i c = (x, c') \<Longrightarrow> client_step look K L c c'"
  unfolding redis_get_refresh_def
  by (erule with_connection_step)
    (auto split: prod.splits sum.splits elim: finish_issue_step [OF hgetall keeps_effects(1)])

lemma claim_step:
  "redis_claim_totp_code R h ttl c = (x, c') \<Longrightarrow> client_step look {totp_code_key h} L c c'"
  unfolding redis_claim_totp_code_def
  by (erule with_connection_step)
    (auto split: prod.splits sum.splits elim: finish_issue_step [OF set_nx_ex keeps_set_nx_ex [OF singletonI]])

lemma add_to_group_step:
  assumes "redis_add_to_group R g j e c = (x, c')"
  shows "client_step look {g} {g} c c'"
  using assms unfolding redis_add_to_group_def
proof (rule with_connection_step)
  fix c x c'
  assume a: "finish ''add_to_group''
       (case issue (rd_zadd R g j e) c of (Inl e, c1) \<Rightarrow> (Inl e, c1)
        | (Inr _, c1) \<Rightarrow> issue (rd_expire_at R g e) c1) = (x, c')"
  obtain y c1 where z: "issue (rd_zadd R g j e) c = (y, c1)" by fastforce
  obtain w c2 where e: "issue (rd_expire_at R g e) c1 = (w, c2)" by fastforce
  have s1: "client_step look {g} {g} c c1" by (rule zadd_step [OF z]) simp_all
  have s2: "client_step look {g} {g} c1 c2" by (rule issue_step [OF expire_at _ e]) simp
  show "client_step look {g} {g} c c'"
    using a s1 client_step_trans [OF s1 s2] unfolding z e
    by (cases y) (auto elim: finish_step simp: e)
qed

lemma store_refresh_step:
  assumes "redis_store_refresh R i rec ttl c = (x, c')"
  shows "client_step look {refresh_key i} {refresh_key i} c c'"
  using assms unfolding redis_store_refresh_def
proof (rule with_connection_step)
  fix c x c'
  let ?h = "\<lambda>aud. rd_hset_multiple R (refresh_key i)
      [(''sub'', rr_subject rec), (''aud'', aud), (''family'', rr_family rec)]"
  let ?e = "rd_expire R (refresh_key i) (as_i64 ttl)"
  assume a: "(case rd_json_of_strings R (rr_audience rec) of
      None \<Rightarrow> (Inl JtiWrongOperation, c)
    | Some audience \<Rightarrow> finish ''store_refresh''
        (case issue (?h audience) c of (Inl e, c1) \<Rightarrow> (Inl e, c1)
         | (Inr _, c1) \<Rightarrow> issue ?e c1)) = (x, c')"
  show "client_step look {refresh_key i} {refresh_key i} c c'"
  proof (cases "rd_json_of_strings R (rr_audience rec)")
    case None
    with a show ?thesis by simp
  next
    case (Some aud)
    obtain y c1 where z: "issue (?h aud) c = (y, c1)" by fastforce
    obtain w c2 where e: "issue ?e c1 = (w, c2)" by fastforce
    have s1: "client_step look {refresh_key i} {refresh_key i} c c1" by (rule issue_step [OF hset _ z]) simp
    have s2: "client_step look {refresh_key i} {refresh_key i} c1 c2" by (rule issue_step [OF expire _ e]) simp
    show ?thesis
      using a s1 client_step_trans [OF s1 s2] unfolding Some z e
      by (cases y) (auto elim: finish_step simp: z e)
  qed
qed

end

context redis_server
begin

lemma revoke_group_step:
  assumes "redis_revoke_group R g c = (x, c')"
  shows "client_step look K UNIV c c'"
  using assms unfolding redis_revoke_group_def
proof (rule with_connection_step)
  fix c0 c' :: "'r redis_client" and x :: "jti_error + u64"
  obtain now c where u: "redis_utc_now c0 = (now, c)" by fastforce
  obtain y1 c1 where a: "issue (rd_zrembyscore R g now) c = (y1, c1)" by fastforce
  obtain y2 c2 where b: "issue (rd_zrange R g) c1 = (y2, c2)" by fastforce
  have s0: "client_step look K UNIV c0 c" by (rule client_step_utc [OF u])
  have s1: "client_step look K UNIV c c1" by (rule issue_step [OF zrem _ a]) simp
  have s2: "client_step look K UNIV c1 c2" by (rule issue_step [OF zrange _ b]) simp
  note s12 = client_step_trans [OF s0 s1] client_step_trans [OF client_step_trans [OF s0 s1] s2]
  have d: "client_step look K UNIV c2 c3" if "issue (rd_del R ks) c2 = (y, c3)" for y ks c3
    by (rule issue_step [OF del _ that]) simp
  have d': "client_step look K UNIV c3 c4" if "issue (rd_del R ks) c3 = (y, c4)" for y ks c3 c4
    by (rule issue_step [OF del _ that]) simp
  show "client_step look K UNIV c0 c'"
    if "(case redis_utc_now c0 of (now, c) \<Rightarrow> finish ''revoke_group''
       (case issue (rd_zrembyscore R g now) c of
          (Inl e, c1) \<Rightarrow> (Inl e, c1)
        | (Inr _, c1) \<Rightarrow>
            (case issue (rd_zrange R g) c1 of
               (Inl e, c2) \<Rightarrow> (Inl e, c2)
             | (Inr jtis, c2) \<Rightarrow>
                 (case (if jtis \<noteq> [] then issue (rd_del R jtis) c2 else (Inr (), c2)) of
                    (Inl e, c3) \<Rightarrow> (Inl e, c3)
                  | (Inr _, c3) \<Rightarrow>
                      (case issue (rd_del R [g]) c3 of
                         (Inl e, c4) \<Rightarrow> (Inl e, c4)
                       | (Inr _, c4) \<Rightarrow> (Inr (of_nat (length jtis)), c4)))))) = (x, c')"
    using that s12 unfolding u
    by (auto simp: a b split: sum.splits prod.splits if_splits
        elim!: finish_step intro: client_step_trans dest!: d d')
qed

text \<open>Peeling the wrappers off a call that succeeded.\<close>

lemma with_connection_Inr:
  assumes "with_connection R body c = (Inr v, c')"
  obtains c1 where "body c1 = (Inr v, c')" and "rc_clock c1 = rc_clock c"
    and "rc_time c1 = rc_time c" and "look (rc_server c1) = look (rc_server c)"
    and "rs_wall c1 = rs_wall c"
proof -
  obtain y c1 where y: "redis_connection R c = (y, c1)" by fastforce
  show ?thesis
    using assms that connection_step [OF y] unfolding with_connection_def y
    by (cases y) auto
qed

lemma finish_Inr:
  assumes "finish name res = (Inr v, c')"
  obtains c1 where "res = (Inr v, c1)" and "rc_server c' = rc_server c1"
    and "rc_clock c' = rc_clock c1" and "rc_time c' = rc_time c1"
  using assms
  by (auto simp: finish_def record_redis_command_def rc_clock_def split: sum.splits prod.splits)

text \<open>The common case of one command: its answer and its effect.\<close>

lemma single_command:
  assumes "mono (rc_time c)" and "obeys look cmd eff ans"
    and "with_connection R (\<lambda>c. finish name (issue cmd c)) c = (Inr v, c')"
  shows "ans (rc_clock c) (look (rc_server c)) v \<and> rc_clock c \<le> rc_clock c' \<and>
    (\<forall>t k. rc_clock c' \<le> t \<longrightarrow>
       look (rc_server c') t k = eff (rc_clock c) (look (rc_server c)) t k)"
proof -
  obtain c1 where b: "finish name (issue cmd c1) = (Inr v, c')"
    and eq: "rc_clock c1 = rc_clock c" "rc_time c1 = rc_time c"
      "look (rc_server c1) = look (rc_server c)"
    using with_connection_Inr [OF assms(3)] by blast
  obtain c2 where i: "issue cmd c1 = (Inr v, c2)" and f: "rc_server c' = rc_server c2"
      "rc_clock c' = rc_clock c2"
    using finish_Inr [OF b] by blast
  have "rc_clock c1 \<le> rc_clock c2" using assms(1) eq(2) by (intro issue_clock [OF _ i]) simp
  then show ?thesis
    using issue_Inr [OF assms(2) i] eq f by (auto simp: agree_def)
qed

lemmas redis_step_lemmas =
  ping_step store_jti_step check_jti_step delete_jti_step add_to_group_step revoke_group_step
  store_refresh_step get_refresh_step mark_step claim_step

lemma step_snd:
  "(\<And>y c'. p = (y, c') \<Longrightarrow> client_step look K L c c') \<Longrightarrow> client_step look K L c (snd p)"
  by (cases p) auto

lemma run_op_step: "client_step look (op_writes x) (op_removes x) c (run_op (redis_jti_store R) x c)"
  by (cases x) (auto simp: redis_jti_store_def intro: step_snd redis_step_lemmas)

end

section \<open>The contract of the trait\<close>

text \<open>The views of the trait's contract, over what a read of the server would see.\<close>

definition rs_wf :: "'r redis_client \<Rightarrow> bool" where
  "rs_wf c \<longleftrightarrow> mono (rc_time c)"

definition rs_present :: "('r \<Rightarrow> view) \<Rightarrow> 'r redis_client \<Rightarrow> int \<Rightarrow> string \<Rightarrow> bool" where
  "rs_present look c t k \<longleftrightarrow> look (rc_server c) t k \<noteq> None"

definition rs_grp :: "('r \<Rightarrow> view) \<Rightarrow> 'r redis_client \<Rightarrow> int \<Rightarrow> string \<Rightarrow> string \<Rightarrow> int option" where
  "rs_grp look c t g = zset_of (look (rc_server c) t g)"

definition rs_refresh_of ::
  "'r redis \<Rightarrow> ('r \<Rightarrow> view) \<Rightarrow> 'r redis_client \<Rightarrow> int \<Rightarrow> string \<Rightarrow> refresh_record option" where
  "rs_refresh_of R look c t i = record_of_fields R (hash_of (look (rc_server c) t (refresh_key i)))"

definition rs_used :: "('r \<Rightarrow> view) \<Rightarrow> 'r redis_client \<Rightarrow> int \<Rightarrow> string \<Rightarrow> bool" where
  "rs_used look c t i \<longleftrightarrow> hash_of (look (rc_server c) t (refresh_key i)) ''used'' \<noteq> None"

lemmas rs_views = rs_present_def rs_grp_def rs_refresh_of_def rs_used_def

context redis_server
begin

lemma mark_spends:
  assumes m: "mono (rc_time c)" and r: "redis_mark_refresh_used R i c = (x, c')"
    and t: "rc_clock c' \<le> t" and before: "rs_present look c t (refresh_key i) \<longrightarrow> rs_used look c t i"
    and p: "rs_present look c' t (refresh_key i)"
  shows "rs_used look c' t i"
proof -
  obtain y c1 where y: "redis_connection R c = (y, c1)" by fastforce
  have eq: "rc_clock c1 = rc_clock c" "rc_time c1 = rc_time c"
      "look (rc_server c1) = look (rc_server c)"
    using connection_step [OF y] by auto
  let ?k = "refresh_key i" and ?V = "look (rc_server c)"
  let ?cmd = "rd_hset_nx R ?k ''used'' ''1''"
  obtain z c2 where z: "issue ?cmd c1 = (z, c2)" by fastforce
  show ?thesis
  proof (cases y)
    case (Inl e)
    then have "c' = c1" using r y by (simp add: redis_mark_refresh_used_def with_connection_def)
    then show ?thesis using before p eq by (simp add: rs_views)
  next
    case (Inr u)
    then have f: "finish ''mark_refresh_used'' (z, c2) = (x, c')"
      using r y z by (simp add: redis_mark_refresh_used_def with_connection_def)
    then have c2: "look (rc_server c') = look (rc_server c2)" "rc_clock c' = rc_clock c2"
      by (auto simp: finish_def record_redis_command_def rc_clock_def split: sum.splits)
    have "rc_clock c1 \<le> rc_clock c2" using m eq by (intro issue_clock [OF _ z]) simp
    then have le: "rc_clock c \<le> t" using t c2 eq by simp
    let ?eff = "eff_hset_nx ?k ''used'' ''1'' (rc_clock c) ?V"
    have "look (rc_server c') t ?k = ?V t ?k \<or> look (rc_server c') t ?k = ?eff t ?k"
      using issue_any [OF hset_nx z] le eq c2 by (auto dest: agreeD)
    then show ?thesis
      using before p decaysD [OF look_decays le, of "rc_server c" ?k] eq
      by (auto simp: rs_views eff_hset_nx_def put_def split: if_splits)
  qed
qed

lemma add_to_group_Inr:
  assumes m: "mono (rc_time c)" and r: "redis_add_to_group R g j e c = (Inr (), c')"
  obtains c1 c2 c3 where "rc_clock c1 = rc_clock c" "look (rc_server c1) = look (rc_server c)"
    "issue (rd_zadd R g j e) c1 = (Inr (), c2)" "issue (rd_expire_at R g e) c2 = (Inr (), c3)"
    "rc_server c' = rc_server c3" "rc_clock c' = rc_clock c3" "rc_clock c1 \<le> rc_clock c2"
    "rc_clock c2 \<le> rc_clock c3"
proof -
  obtain c1 where b: "finish ''add_to_group''
       (case issue (rd_zadd R g j e) c1 of (Inl e, c1) \<Rightarrow> (Inl e, c1)
        | (Inr _, c1) \<Rightarrow> issue (rd_expire_at R g e) c1) = (Inr (), c')"
    and eq: "rc_clock c1 = rc_clock c" "rc_time c1 = rc_time c"
      "look (rc_server c1) = look (rc_server c)"
    using with_connection_Inr [OF r [unfolded redis_add_to_group_def]] by blast
  obtain c3 where "(case issue (rd_zadd R g j e) c1 of (Inl e, c1) \<Rightarrow> (Inl e, c1)
        | (Inr _, c1) \<Rightarrow> issue (rd_expire_at R g e) c1) = (Inr (), c3)"
    and f: "rc_server c' = rc_server c3" "rc_clock c' = rc_clock c3"
    using finish_Inr [OF b] by blast
  then obtain c2 where z: "issue (rd_zadd R g j e) c1 = (Inr (), c2)"
    and x: "issue (rd_expire_at R g e) c2 = (Inr (), c3)"
    by (auto split: prod.splits sum.splits)
  have m2: "mono (rc_time c2)" using issue_time [OF z] m eq by simp
  have "rc_clock c1 \<le> rc_clock c2" using m eq by (intro issue_clock [OF _ z]) simp
  then show ?thesis using that eq z x f issue_clock [OF m2 x] by blast
qed

lemma redis_add_result:
  assumes "mono (rc_time c)" and "redis_add_to_group R g j e c = (Inr (), c')"
    and "\<bar>e\<bar> \<le> 2 ^ 53" and "rs_present look c (rc_clock c) g \<longrightarrow> rs_present look c (rc_clock c') g"
    and "rc_clock c' \<le> t" and "t < e"
  shows "rs_grp look c' t g j = Some e"
proof -
  obtain c1 c2 c3 where eq: "rc_clock c1 = rc_clock c" "look (rc_server c1) = look (rc_server c)"
    and z: "issue (rd_zadd R g j e) c1 = (Inr (), c2)"
    and x: "issue (rd_expire_at R g e) c2 = (Inr (), c3)"
    and f: "rc_server c' = rc_server c3" "rc_clock c' = rc_clock c3"
    and le: "rc_clock c1 \<le> rc_clock c2" "rc_clock c2 \<le> rc_clock c3"
    using add_to_group_Inr [OF assms(1,2)] by blast
  let ?V = "look (rc_server c)"
  have "look (rc_server c2) (rc_clock c2) g = eff_zadd g j e (rc_clock c) ?V (rc_clock c2) g"
    using issue_Inr [OF zadd [OF assms(3)] z] eq le by (auto dest: agreeD)
  moreover have "?V (rc_clock c) g = None \<or> ?V (rc_clock c2) g \<noteq> None"
    using assms(4) le f decaysD [OF look_decays le(2), of "rc_server c" g]
    by (auto simp: rs_views)
  ultimately have "\<exists>v. look (rc_server c2) (rc_clock c2) g = Some (RZset (v(j \<mapsto> e)))"
    by (auto simp: eff_zadd_def put_def)
  moreover have "look (rc_server c3) t g = look (rc_server c2) (rc_clock c2) g"
    using issue_Inr [OF expire_at x] assms(5,6) le f
    by (auto dest!: agreeD [where t' = t and k = g] simp: eff_expire_at_def)
  ultimately show ?thesis using f by (auto simp: rs_views)
qed

lemma redis_add_frame:
  assumes "mono (rc_time c)" and "redis_add_to_group R g j e c = (Inr (), c')"
    and "rc_clock c' \<le> t" and "k \<noteq> g"
  shows "look (rc_server c') t k = look (rc_server c) t k"
proof -
  obtain c1 c2 c3 where eq: "rc_clock c1 = rc_clock c" "look (rc_server c1) = look (rc_server c)"
    and z: "issue (rd_zadd R g j e) c1 = (Inr (), c2)"
    and x: "issue (rd_expire_at R g e) c2 = (Inr (), c3)"
    and f: "rc_server c' = rc_server c3" "rc_clock c' = rc_clock c3"
    and le: "rc_clock c1 \<le> rc_clock c2" "rc_clock c2 \<le> rc_clock c3"
    using add_to_group_Inr [OF assms(1,2)] by blast
  have "look (rc_server c2) t k = look (rc_server c1) t k"
    using assms(3,4) le f by (intro zadd_frame [OF z]) auto
  moreover have "look (rc_server c3) t k = look (rc_server c2) t k"
    using issue_Inr [OF expire_at x] assms(3,4) le f
    by (auto dest!: agreeD [where t' = t and k = k] simp: eff_expire_at_def)
  ultimately show ?thesis using eq f by simp
qed

end

context redis_server
begin

text \<open>
  Bulk revocation: with \<open>now\<close> the reading of the process's clock, every member of the index whose
  score is later than \<open>now\<close> is deleted.
\<close>

lemma revoke_group_Inr:
  assumes m: "mono (rc_time c0)" and r: "redis_revoke_group R g c0 = (Inr n, c')"
  obtains c c1 c2 c3 c4 jtis where
    "rc_clock c = rc_clock c0" "look (rc_server c) = look (rc_server c0)"
    "issue (rd_zrembyscore R g (rs_wall c0)) c = (Inr (), c1)"
    "issue (rd_zrange R g) c1 = (Inr jtis, c2)"
    "jtis = [] \<and> c3 = c2 \<or> jtis \<noteq> [] \<and> issue (rd_del R jtis) c2 = (Inr (), c3)"
    "issue (rd_del R [g]) c3 = (Inr (), c4)"
    "rc_server c' = rc_server c4" "rc_clock c' = rc_clock c4" "n = of_nat (length jtis)"
    "rc_clock c \<le> rc_clock c1" "rc_clock c1 \<le> rc_clock c2" "rc_clock c2 \<le> rc_clock c3"
    "rc_clock c3 \<le> rc_clock c4"
proof -
  obtain ca where b: "(case redis_utc_now ca of (now, c) \<Rightarrow> finish ''revoke_group''
       (case issue (rd_zrembyscore R g now) c of
          (Inl e, c1) \<Rightarrow> (Inl e, c1)
        | (Inr _, c1) \<Rightarrow>
            (case issue (rd_zrange R g) c1 of
               (Inl e, c2) \<Rightarrow> (Inl e, c2)
             | (Inr jtis, c2) \<Rightarrow>
                 (case (if jtis \<noteq> [] then issue (rd_del R jtis) c2 else (Inr (), c2)) of
                    (Inl e, c3) \<Rightarrow> (Inl e, c3)
                  | (Inr _, c3) \<Rightarrow>
                      (case issue (rd_del R [g]) c3 of
                         (Inl e, c4) \<Rightarrow> (Inl e, c4)
                       | (Inr _, c4) \<Rightarrow> (Inr (of_nat (length jtis)), c4)))))) = (Inr n, c')"
    and eq: "rc_clock ca = rc_clock c0" "rc_time ca = rc_time c0"
      "look (rc_server ca) = look (rc_server c0)" "rs_wall ca = rs_wall c0"
    using with_connection_Inr [OF r [unfolded redis_revoke_group_def]] by blast
  obtain now c where u: "redis_utc_now ca = (now, c)" by fastforce
  have uq: "rc_clock c = rc_clock ca" "rc_server c = rc_server ca" "rc_time c = rc_time ca"
    and now: "now = rs_wall c0"
    using u eq(4) by (auto simp: redis_utc_now_def rc_clock_def rs_wall_def)
  note b' = b [unfolded u prod.case]
  obtain c4 where body: "(case issue (rd_zrembyscore R g now) c of
          (Inl e, c1) \<Rightarrow> (Inl e, c1)
        | (Inr _, c1) \<Rightarrow>
            (case issue (rd_zrange R g) c1 of
               (Inl e, c2) \<Rightarrow> (Inl e, c2)
             | (Inr jtis, c2) \<Rightarrow>
                 (case (if jtis \<noteq> [] then issue (rd_del R jtis) c2 else (Inr (), c2)) of
                    (Inl e, c3) \<Rightarrow> (Inl e, c3)
                  | (Inr _, c3) \<Rightarrow>
                      (case issue (rd_del R [g]) c3 of
                         (Inl e, c4) \<Rightarrow> (Inl e, c4)
                       | (Inr _, c4) \<Rightarrow> (Inr (of_nat (length jtis)), c4))))) = (Inr n, c4)"
    and f: "rc_server c' = rc_server c4" "rc_clock c' = rc_clock c4"
    using finish_Inr [OF b'] by blast
  obtain c1 where i1: "issue (rd_zrembyscore R g now) c = (Inr (), c1)"
    using body by (auto split: prod.splits sum.splits)
  obtain jtis c2 where i2: "issue (rd_zrange R g) c1 = (Inr jtis, c2)"
    using body i1 by (auto split: prod.splits sum.splits)
  obtain c3 where i3: "(if jtis \<noteq> [] then issue (rd_del R jtis) c2 else (Inr (), c2)) = (Inr (), c3)"
    using body i1 i2 by (auto split: prod.splits sum.splits if_splits)
  have i4: "issue (rd_del R [g]) c3 = (Inr (), c4)" and n: "n = of_nat (length jtis)"
    using body i1 i2 i3 by (auto split: prod.splits sum.splits)
  have m0: "mono (rc_time c)" using m eq uq by simp
  have l1: "rc_clock c \<le> rc_clock c1" and m1: "mono (rc_time c1)"
    using issue_clock [OF m0 i1] issue_time [OF i1] m0 by auto
  have l2: "rc_clock c1 \<le> rc_clock c2" and m2: "mono (rc_time c2)"
    using issue_clock [OF m1 i2] issue_time [OF i2] m1 by auto
  have d: "jtis = [] \<and> c3 = c2 \<or> jtis \<noteq> [] \<and> issue (rd_del R jtis) c2 = (Inr (), c3)"
    using i3 by (auto split: if_splits)
  have l3: "rc_clock c2 \<le> rc_clock c3" and m3: "mono (rc_time c3)"
    using d m2 issue_clock [OF m2] issue_time by fastforce+
  have l4: "rc_clock c3 \<le> rc_clock c4" by (rule issue_clock [OF m3 i4])
  show ?thesis
    by (rule that [OF _ _ i1 [unfolded now] i2 d i4 f n l1 l2 l3 l4]) (simp_all add: eq uq)
qed

lemma redis_revoke_result:
  assumes "mono (rc_time c)" and "redis_revoke_group R g c = (Inr n, c')"
    and t: "rc_clock c' \<le> t" and g: "rs_grp look c t g k = Some e" and e: "rs_wall c < e"
  shows "\<not> rs_present look c' t k"
proof -
  let ?now = "rs_wall c"
  obtain c0 c1 c2 c3 c4 jtis where
    eq: "rc_clock c0 = rc_clock c" "look (rc_server c0) = look (rc_server c)"
    and i1: "issue (rd_zrembyscore R g ?now) c0 = (Inr (), c1)"
    and i2: "issue (rd_zrange R g) c1 = (Inr jtis, c2)"
    and i3: "jtis = [] \<and> c3 = c2 \<or> jtis \<noteq> [] \<and> issue (rd_del R jtis) c2 = (Inr (), c3)"
    and i4: "issue (rd_del R [g]) c3 = (Inr (), c4)"
    and f: "rc_server c' = rc_server c4" "rc_clock c' = rc_clock c4"
    and le: "rc_clock c0 \<le> rc_clock c1" "rc_clock c1 \<le> rc_clock c2" "rc_clock c2 \<le> rc_clock c3"
      "rc_clock c3 \<le> rc_clock c4"
    by (rule revoke_group_Inr [OF assms(1,2)]) (rule that; assumption)
  let ?V = "look (rc_server c)"
  show ?thesis
  proof -
    obtain z where z: "?V t g = Some (RZset z)" and zk: "z k = Some e"
      using g by (cases "?V t g" rule: zset_of.cases) (auto simp: rs_views)
    have at: "?V s g = Some (RZset z)" if "s \<le> t" for s
      using decays_Some [OF look_decays that z] .
    have "rc_clock c0 \<le> rc_clock c1" "rc_clock c1 \<le> t" "rc_clock c0 \<le> t" using le f t by simp_all
    then have V: "?V (rc_clock c0) g = Some (RZset z)" "?V (rc_clock c1) g = Some (RZset z)"
      using at by blast+
    have "above ?now z k = Some e" using zk e by (simp add: above_def)
    then have ne: "above ?now z \<noteq> Map.empty" by (metis option.discI)
    have "look (rc_server c1) (rc_clock c1) g =
        eff_zrem g ?now (rc_clock c0) (look (rc_server c0)) (rc_clock c1) g"
      using agreeD [OF conjunct2 [OF issue_Inr [OF zrem i1]] le(1)] .
    then have "look (rc_server c1) (rc_clock c1) g = Some (RZset (above ?now z))"
      using V eq ne by (simp add: eff_zrem_def)
    then have "k \<in> set jtis"
      using issue_Inr [OF zrange i2] zk e by (auto simp: above_def dom_def)
    then have "issue (rd_del R jtis) c2 = (Inr (), c3)" using i3 by auto
    then have "look (rc_server c3) t k = None"
      using issue_Inr [OF del] \<open>k \<in> set jtis\<close> le f t
      by (fastforce dest: agreeD [where t' = t and k = k] simp: eff_del_def)
    moreover have "look (rc_server c4) t k = None \<or> look (rc_server c4) t k = look (rc_server c3) t k"
      using issue_Inr [OF del i4] le f t
      by (auto dest!: agreeD [where t' = t and k = k] simp: eff_del_def)
    ultimately show ?thesis using f by (auto simp: rs_views)
  qed
qed

lemma redis_get_refresh_result:
  assumes "mono (rc_time c)" and "redis_get_refresh R i c = (Inr r, c')"
  shows "r = rs_refresh_of R look c (rc_clock c) i"
proof -
  obtain kvs c2 where
    "with_connection R (\<lambda>c. finish ''get_refresh'' (issue (rd_hgetall R (refresh_key i)) c)) c
       = (Inr kvs, c2)"
    and r: "r = (if kvs = [] then None else record_of_fields R (map_of kvs))"
    using assms(2)
    by (auto simp: redis_get_refresh_def with_connection_def split: prod.splits sum.splits)
  then have "map_of kvs = hash_of (look (rc_server c) (rc_clock c) (refresh_key i))"
    using single_command [OF assms(1) hgetall] by simp
  moreover have "record_of_fields R Map.empty = None" by (simp add: record_of_fields_def)
  ultimately show ?thesis using r by (auto simp: rs_views)
qed

lemma redis_claim_single:
  assumes "mono (rc_time c)" and "redis_claim_totp_code R h ttl c = (Inr b, c')"
  shows "b = (\<not> rs_present look c (rc_clock c) (totp_code_key h)) \<and> rc_clock c \<le> rc_clock c' \<and>
    (\<forall>t k. rc_clock c' \<le> t \<longrightarrow> look (rc_server c') t k =
       eff_set_nx_ex (totp_code_key h) ''1'' ttl (rc_clock c) (look (rc_server c)) t k)"
proof -
  obtain a where
    "with_connection R (\<lambda>c. finish ''claim_totp_code''
        (issue (rd_set_nx_ex R (totp_code_key h) ''1'' ttl) c)) c = (Inr a, c')"
    and b: "b = (a \<noteq> None)"
    using assms(2)
    by (auto simp: redis_claim_totp_code_def with_connection_def split: prod.splits sum.splits)
  then show ?thesis
    using single_command [OF assms(1) set_nx_ex] by (auto simp: rs_views)
qed

end

sublocale redis_server \<subseteq> jti_store "redis_jti_store R" rs_wf rc_clock rs_wall "rs_present look"
  "rs_grp look" "rs_refresh_of R look" "rs_used look"
proof (unfold_locales, unfold rs_wf_def)
  fix s s' :: "'r redis_client" and x k t i j b g e ttl r n h and rr :: refresh_record
  assume m: "mono (rc_time s)"
  have st: "client_step look (op_writes x) (op_removes x) s (run_op (redis_jti_store R) x s)"
    by (rule run_op_step)
  show "mono (rc_time (run_op (redis_jti_store R) x s))"
    using st m by (simp add: client_step_def)
  show "rc_clock s \<le> rc_clock (run_op (redis_jti_store R) x s)"
    using st m by (simp add: client_step_def)
  show "rs_present look s t1 k" if "t1 \<le> t2" and "rs_present look s t2 k" for t1 t2 :: int
    using decays_Some [OF look_decays that(1)] that(2) unfolding rs_present_def by blast
  show "rs_present look s t k" if "k \<notin> op_writes x"
    "rc_clock (run_op (redis_jti_store R) x s) \<le> t"
    "rs_present look (run_op (redis_jti_store R) x s) t k"
    using st m that by (simp add: client_step_def rs_views)
  show "rs_present look (run_op (redis_jti_store R) x s) t k" if "k \<notin> op_removes x"
    "rc_clock (run_op (redis_jti_store R) x s) \<le> t" "rs_present look s t k"
    using st m that by (simp add: client_step_def rs_views)
  show "rs_used look (run_op (redis_jti_store R) x s) t i"
    if a: "refresh_key i \<notin> op_writes x \<or> x = OpMark i"
      and t: "rc_clock (run_op (redis_jti_store R) x s) \<le> t"
      and before: "rs_present look s t (refresh_key i) \<longrightarrow> rs_used look s t i"
      and p: "rs_present look (run_op (redis_jti_store R) x s) t (refresh_key i)"
  proof (cases "x = OpMark i")
    case True
    obtain y s1 where y: "redis_mark_refresh_used R i s = (y, s1)" by fastforce
    then show ?thesis
      using mark_spends [OF m y] t before p True by (simp add: redis_jti_store_def)
  next
    case False
    then show ?thesis using st m a t before p by (simp add: client_step_def rs_views)
  qed
  show "b = rs_present look s (rc_clock s) j" if "js_check_jti (redis_jti_store R) j s = (Inr b, s')"
    using single_command [OF m exists, of "''check_jti''"] that
    by (simp add: redis_jti_store_def redis_check_jti_def rs_views)
  show "rs_present look s' t k = rs_present look s t k \<and> rs_grp look s' t g = rs_grp look s t g"
    if "js_check_jti (redis_jti_store R) j s = (Inr b, s')" and "rc_clock s' \<le> t"
    using single_command [OF m exists, of "''check_jti''"] that
    by (simp add: redis_jti_store_def redis_check_jti_def rs_views eff_none_def)
  show "rs_present look s' t k = (if k = j then t < rc_clock s + uint ttl else rs_present look s t k)"
    if "js_store_jti (redis_jti_store R) j ttl s = (Inr (), s')" and "rc_clock s' \<le> t"
    using single_command [OF m set_ex, of "''store_jti''"] that
    by (simp add: redis_jti_store_def redis_store_jti_def rs_views eff_set_ex_def)
  show "\<not> rs_present look s' t j"
    if "js_delete_jti (redis_jti_store R) j s = (Inr (), s')" and "rc_clock s' \<le> t"
    using single_command [OF m del, of "''delete_jti''"] that
    by (simp add: redis_jti_store_def redis_delete_jti_def rs_views eff_del_def)
  show "rs_grp look s' t g j = Some e"
    if "js_add_to_group (redis_jti_store R) g j e s = (Inr (), s')" and "\<bar>e\<bar> \<le> 2 ^ 53"
      and "rs_present look s (rc_clock s) g \<longrightarrow> rs_present look s (rc_clock s') g"
      and "rc_clock s' \<le> t" and "t < e"
    using redis_add_result [OF m] that by (simp add: redis_jti_store_def)
  show "rs_present look s' t k = rs_present look s t k"
    if "js_add_to_group (redis_jti_store R) g j e s = (Inr (), s')" and "rc_clock s' \<le> t" and "k \<noteq> g"
    using redis_add_frame [OF m] that by (simp add: redis_jti_store_def rs_views)
  show "\<not> rs_present look s' t k"
    if "js_revoke_group (redis_jti_store R) g s = (Inr n, s')" and "rc_clock s' \<le> t"
      and "rs_grp look s t g k = Some e" and "rs_wall s < e"
    using redis_revoke_result [OF m] that by (simp add: redis_jti_store_def)
  show "r = rs_refresh_of R look s (rc_clock s) i"
    if "js_get_refresh (redis_jti_store R) i s = (Inr r, s')"
    using redis_get_refresh_result [OF m] that by (simp add: redis_jti_store_def)
  show "rs_present look s t (refresh_key i)" if "rs_refresh_of R look s t i = Some rr"
    using that by (cases "look (rc_server s) t (refresh_key i)")
      (auto simp: rs_views record_of_fields_def)
  show "b = (\<not> rs_used look s (rc_clock s) i)"
    if "js_mark_refresh_used (redis_jti_store R) i s = (Inr b, s')"
    using single_command [OF m hset_nx, of "''mark_refresh_used''"] that
    by (simp add: redis_jti_store_def redis_mark_refresh_used_def rs_views)
  show "rs_used look s' t i"
    if r: "js_mark_refresh_used (redis_jti_store R) i s = (Inr b, s')" and t: "rc_clock s' \<le> t"
      and p: "rs_present look s' t (refresh_key i)"
  proof -
    let ?V = "look (rc_server s)" and ?k = "refresh_key i"
    have call: "with_connection R (\<lambda>c. finish ''mark_refresh_used''
        (issue (rd_hset_nx R ?k ''used'' ''1'') c)) s = (Inr b, s')"
      using r by (simp add: redis_jti_store_def redis_mark_refresh_used_def)
    have e: "look (rc_server s') t ?k = eff_hset_nx ?k ''used'' ''1'' (rc_clock s) ?V t ?k"
      and le: "rc_clock s \<le> t"
      using single_command [OF m hset_nx call] t by simp_all
    show ?thesis
      using e p decaysD [OF look_decays le, of "rc_server s" ?k]
      by (auto simp: rs_views eff_hset_nx_def put_def split: if_splits)
  qed
  show "b = (\<not> rs_present look s (rc_clock s) (totp_code_key h))"
    if "js_claim_totp_code (redis_jti_store R) h ttl s = (Inr b, s')"
    using redis_claim_single [OF m] that by (simp add: redis_jti_store_def)
  show "rs_present look s' t (totp_code_key h) = (t < rc_clock s + uint ttl)"
    if c: "js_claim_totp_code (redis_jti_store R) h ttl s = (Inr True, s')" and t: "rc_clock s' \<le> t"
    using redis_claim_single [OF m] c t
    by (auto simp: redis_jti_store_def rs_views eff_set_nx_ex_def eff_set_ex_def)
qed

context redis_server
begin

lemma refines_contract:
  "jti_store (redis_jti_store R) rs_wf rc_clock rs_wall (rs_present look) (rs_grp look)
     (rs_refresh_of R look) (rs_used look)"
  by unfold_locales

end

end
