(* ===== verification/Redis_Keyspace.thy ===== *)
theory Redis_Keyspace
  imports Redis_Contract "HOL-Library.AList"
begin

text \<open>
  A keyspace with expiring keys: a server for which the laws of \<open>redis_server\<close> hold, used to run
  the client's operations on concrete inputs and to show that the laws can hold together. Every
  command may be scripted to fail, before or after it took effect.
\<close>

datatype kvalue =
    KStr string
  | KHash "(string \<times> string) list"
  | KZset "(string \<times> int) list"

text \<open>A key holds a value and, when it is volatile, its deadline.\<close>

type_synonym keymap = "string \<Rightarrow> (kvalue \<times> int option) option"

record keyspace =
  ks_map :: keymap
  ks_faults :: "(redis_error \<times> bool) option list"

fun abs_value :: "kvalue \<Rightarrow> rvalue" where
  "abs_value (KStr s) = RStr s"
| "abs_value (KHash h) = RHash (map_of h)"
| "abs_value (KZset z) = RZset (map_of z)"

definition alive :: "int \<Rightarrow> int option \<Rightarrow> bool" where
  "alive t d \<longleftrightarrow> (case d of None \<Rightarrow> True | Some e \<Rightarrow> t < e)"

definition live :: "int \<Rightarrow> keymap \<Rightarrow> string \<Rightarrow> (kvalue \<times> int option) option" where
  "live t m k = (case m k of None \<Rightarrow> None | Some (v, d) \<Rightarrow> if alive t d then Some (v, d) else None)"

definition map_look :: "keymap \<Rightarrow> view" where
  "map_look m t k = map_option (\<lambda>(v, _). abs_value v) (live t m k)"

definition ks_look :: "keyspace \<Rightarrow> view" where
  "ks_look ks = map_look (ks_map ks)"

definition wrong_type :: redis_error where
  "wrong_type = \<lparr>re_is_timeout = False, re_is_connection_dropped = False,
     re_is_connection_refusal = False\<rparr>"

section \<open>Commands on the key map\<close>

type_synonym 'a command = "int \<Rightarrow> keymap \<Rightarrow> (redis_error + 'a) \<times> keymap"

definition k_ping :: "unit command" where
  "k_ping t m = (Inr (), m)"

definition k_set_ex :: "string \<Rightarrow> string \<Rightarrow> u64 \<Rightarrow> unit command" where
  "k_set_ex k v ttl t m =
     (if ttl = 0 then (Inl wrong_type, m) else (Inr (), m(k \<mapsto> (KStr v, Some (t + uint ttl)))))"

definition k_exists :: "string \<Rightarrow> bool command" where
  "k_exists k t m = (Inr (live t m k \<noteq> None), m)"

definition k_del :: "string list \<Rightarrow> unit command" where
  "k_del ks t m = (Inr (), (\<lambda>k. if k \<in> set ks then None else m k))"

definition k_zadd :: "string \<Rightarrow> string \<Rightarrow> int \<Rightarrow> unit command" where
  "k_zadd k e sc t m =
     (case live t m k of
        None \<Rightarrow> (Inr (), m(k \<mapsto> (KZset [(e, sc)], None)))
      | Some (KZset z, d) \<Rightarrow> (Inr (), m(k \<mapsto> (KZset (AList.update e sc z), d)))
      | _ \<Rightarrow> (Inl wrong_type, m))"

definition k_expire_at :: "string \<Rightarrow> int \<Rightarrow> unit command" where
  "k_expire_at k e t m =
     (case live t m k of
        None \<Rightarrow> (Inr (), m(k := None))
      | Some (v, _) \<Rightarrow> (Inr (), m(k \<mapsto> (v, Some e))))"

definition k_expire :: "string \<Rightarrow> int \<Rightarrow> unit command" where
  "k_expire k secs t m = k_expire_at k (t + secs) t m"

definition k_zrem :: "string \<Rightarrow> int \<Rightarrow> unit command" where
  "k_zrem k mx t m =
     (case live t m k of
        None \<Rightarrow> (Inr (), m)
      | Some (KZset z, d) \<Rightarrow>
          (let z' = AList.clearjunk z; z'' = filter (\<lambda>p. mx < snd p) z'
           in (Inr (), m(k := (if z'' = [] then None else Some (KZset z'', d)))))
      | _ \<Rightarrow> (Inl wrong_type, m))"

definition k_zrange :: "string \<Rightarrow> string list command" where
  "k_zrange k t m =
     (case live t m k of
        None \<Rightarrow> (Inr [], m)
      | Some (KZset z, d) \<Rightarrow> (Inr (map fst (sort_key snd (AList.clearjunk z))), m)
      | _ \<Rightarrow> (Inl wrong_type, m))"

definition k_hset :: "string \<Rightarrow> (string \<times> string) list \<Rightarrow> unit command" where
  "k_hset k kvs t m =
     (case live t m k of
        None \<Rightarrow> (Inr (), m(k \<mapsto> (KHash (rev kvs), None)))
      | Some (KHash h, d) \<Rightarrow> (Inr (), m(k \<mapsto> (KHash (rev kvs @ h), d)))
      | _ \<Rightarrow> (Inl wrong_type, m))"

definition k_hgetall :: "string \<Rightarrow> (string \<times> string) list command" where
  "k_hgetall k t m =
     (case live t m k of
        None \<Rightarrow> (Inr [], m)
      | Some (KHash h, d) \<Rightarrow> (Inr h, m)
      | _ \<Rightarrow> (Inl wrong_type, m))"

definition k_hset_nx :: "string \<Rightarrow> string \<Rightarrow> string \<Rightarrow> bool command" where
  "k_hset_nx k f v t m =
     (case live t m k of
        None \<Rightarrow> (Inr True, m(k \<mapsto> (KHash [(f, v)], None)))
      | Some (KHash h, d) \<Rightarrow>
          (if map_of h f = None then (Inr True, m(k \<mapsto> (KHash ((f, v) # h), d))) else (Inr False, m))
      | _ \<Rightarrow> (Inl wrong_type, m))"

definition k_set_nx_ex :: "string \<Rightarrow> string \<Rightarrow> u64 \<Rightarrow> string option command" where
  "k_set_nx_ex k v ttl t m =
     (if ttl = 0 then (Inl wrong_type, m)
      else if live t m k = None then (Inr (Some ''OK''), m(k \<mapsto> (KStr v, Some (t + uint ttl))))
      else (Inr None, m))"

section \<open>The server\<close>

definition ks_exec :: "'a command \<Rightarrow> int \<Rightarrow> keyspace \<Rightarrow> (redis_error + 'a) \<times> keyspace" where
  "ks_exec f t ks =
     (case ks_faults ks of
        Some (e, applied) # fs \<Rightarrow>
          (Inl e, ks\<lparr>ks_faults := fs,
             ks_map := (if applied then snd (f t (ks_map ks)) else ks_map ks)\<rparr>)
      | fs \<Rightarrow> (case f t (ks_map ks) of
                 (x, m') \<Rightarrow> (x, ks\<lparr>ks_map := m', ks_faults := tl fs\<rparr>)))"

text \<open>
  The two JSON functions of the client on lists of plain strings: every element is quoted and
  followed by a comma.
\<close>

definition plain_char :: "char \<Rightarrow> bool" where
  "plain_char c \<longleftrightarrow> 32 \<le> byte_of c \<and> byte_of c \<notin> {34, 44, 92}"

definition json_of_strings :: "string list \<Rightarrow> string option" where
  "json_of_strings xs =
     (if list_all (list_all plain_char) xs
      then Some (''['' @ concat (map (\<lambda>s. CHR 34 # s @ [CHR 34, CHR '','']) xs) @ '']'') else None)"

definition strings_of_json :: "string \<Rightarrow> string list option" where
  "strings_of_json s =
     Some (map (\<lambda>q. tl (butlast q)) (butlast (split_on (CHR '','') (tl s))))"

definition keyspace_redis :: "keyspace redis" where
  "keyspace_redis =
     \<lparr>rd_connect = (\<lambda>ks. (Inr (), ks)),
      rd_ping = ks_exec k_ping,
      rd_set_ex = (\<lambda>k v ttl. ks_exec (k_set_ex k v ttl)),
      rd_exists = (\<lambda>k. ks_exec (k_exists k)),
      rd_del = (\<lambda>ks. ks_exec (k_del ks)),
      rd_zadd = (\<lambda>k e sc. ks_exec (k_zadd k e sc)),
      rd_expire_at = (\<lambda>k e. ks_exec (k_expire_at k e)),
      rd_expire = (\<lambda>k secs. ks_exec (k_expire k secs)),
      rd_zrembyscore = (\<lambda>k mx. ks_exec (k_zrem k mx)),
      rd_zrange = (\<lambda>k. ks_exec (k_zrange k)),
      rd_hset_multiple = (\<lambda>k kvs. ks_exec (k_hset k kvs)),
      rd_hgetall = (\<lambda>k. ks_exec (k_hgetall k)),
      rd_hset_nx = (\<lambda>k f v. ks_exec (k_hset_nx k f v)),
      rd_set_nx_ex = (\<lambda>k v ttl. ks_exec (k_set_nx_ex k v ttl)),
      rd_json_of_strings = json_of_strings,
      rd_strings_of_json = strings_of_json\<rparr>"

section \<open>The laws hold\<close>

lemma live_later: "t \<le> t' \<Longrightarrow> live t m k = None \<Longrightarrow> live t' m k = None"
  by (auto simp: live_def alive_def split: option.splits if_splits)

lemma live_Some: "live t m k = Some (v, d) \<longleftrightarrow> m k = Some (v, d) \<and> alive t d"
  by (auto simp: live_def split: option.splits if_splits)

lemma map_look_decays: "decays (map_look m)"
  by (auto simp: decays_def map_look_def live_def alive_def split: option.splits)

lemma map_look_None: "map_look m t k = None \<longleftrightarrow> live t m k = None"
  by (simp add: map_look_def)

lemma map_look_upd:
  "map_look (m(k := x)) t k' = (if k' = k
     then (case x of None \<Rightarrow> None | Some (v, d) \<Rightarrow> if alive t d then Some (abs_value v) else None)
     else map_look m t k')"
  by (auto simp: map_look_def live_def split: option.splits)

lemma exec_obeys:
  assumes "\<And>t m x m'. f t m = (x, m') \<Longrightarrow>
     (case x of
        Inr a \<Rightarrow> ans t (map_look m) a \<and> agree t (map_look m') (eff t (map_look m))
      | Inl _ \<Rightarrow> m' = m)"
  shows "obeys ks_look (ks_exec f) eff ans"
  unfolding obeys_def
proof (intro allI impI)
  fix t r x r'
  assume e: "ks_exec f t r = (x, r')"
  obtain y m' where f: "f t (ks_map r) = (y, m')" by fastforce
  show "case x of Inl _ \<Rightarrow> agree t (ks_look r') (ks_look r) \<or> agree t (ks_look r') (eff t (ks_look r))
      | Inr a \<Rightarrow> ans t (ks_look r) a \<and> agree t (ks_look r') (eff t (ks_look r))"
    using e assms [OF f]
    by (auto simp: ks_exec_def f ks_look_def agree_def split: list.splits option.splits sum.splits)
qed

lemma map_of_filter_above:
  "distinct (map fst zs) \<Longrightarrow> map_of (filter (\<lambda>p. mx < snd p) zs) k = above mx (map_of zs) k"
proof (induction zs)
  case Nil
  then show ?case by (simp add: above_def)
next
  case (Cons p zs)
  obtain a sc where p: "p = (a, sc)" by (cases p)
  have "map_of zs a = None" using Cons.prems p by (simp add: map_of_eq_None_iff)
  then show ?case using Cons p by (auto simp: above_def)
qed

lemma map_of_clearjunk_filter:
  "map_of (filter (\<lambda>p. mx < snd p) (AList.clearjunk z)) = above mx (map_of z)"
  by (rule ext) (simp add: map_of_filter_above distinct_clearjunk map_of_clearjunk)

lemma above_empty_iff:
  "above mx (map_of z) = Map.empty \<longleftrightarrow> filter (\<lambda>p. mx < snd p) (AList.clearjunk z) = []"
  using map_of_clearjunk_filter [of mx z] by (metis map_of_eq_empty_iff)

lemmas command_defs = k_ping_def k_set_ex_def k_exists_def k_del_def k_zadd_def k_expire_at_def
  k_expire_def k_zrem_def k_zrange_def k_hset_def k_hgetall_def k_hset_nx_def k_set_nx_ex_def

lemma look_None: "live t m k = None \<Longrightarrow> t \<le> t' \<Longrightarrow> map_look m t' k = None"
  by (simp add: map_look_None live_later)

lemma look_Some: "live t m k = Some (w, d) \<Longrightarrow> t \<le> t' \<Longrightarrow>
    map_look m t' k = (if alive t' d then Some (abs_value w) else None)"
  by (auto simp: map_look_def live_def split: option.splits if_splits)

lemma look_here: "live t m k = Some (w, d) \<Longrightarrow> map_look m t k = Some (abs_value w)"
  by (simp add: map_look_def)

lemma alive_simps [simp]: "alive t None" "alive t (Some e) = (t < e)"
  by (simp_all add: alive_def)

text \<open>Replacing the value of a key in place is \<open>put\<close>.\<close>

lemma upd_put:
  assumes "live t m k = None \<and> d = None \<or> (\<exists>w. live t m k = Some (w, d))"
  shows "agree t (map_look (m(k \<mapsto> (v, d)))) (put k (abs_value v) t (map_look m))"
  using assms
proof
  assume "live t m k = None \<and> d = None"
  then show ?thesis by (auto simp: agree_def put_def map_look_upd map_look_None)
next
  assume "\<exists>w. live t m k = Some (w, d)"
  then obtain w where w: "live t m k = Some (w, d)" ..
  show ?thesis
    using look_Some [OF w] look_here [OF w] by (auto simp: agree_def put_def map_look_upd)
qed

lemma ks_set_ex: "obeys ks_look (ks_exec (k_set_ex k v ttl)) (eff_set_ex k v ttl) (\<lambda>_ _ _. True)"
  by (rule exec_obeys)
    (auto simp: k_set_ex_def eff_set_ex_def agree_def map_look_upd split: if_splits)

lemma ks_del: "obeys ks_look (ks_exec (k_del ks)) (eff_del ks) (\<lambda>_ _ _. True)"
  by (rule exec_obeys) (auto simp: k_del_def eff_del_def agree_def map_look_def live_def)

lemma ks_zadd: "obeys ks_look (ks_exec (k_zadd k e sc)) (eff_zadd k e sc) (\<lambda>_ _ _. True)"
proof (rule exec_obeys)
  fix t m x m'
  assume f: "k_zadd k e sc t m = (x, m')"
  show "case x of Inl _ \<Rightarrow> m' = m
      | Inr a \<Rightarrow> True \<and> agree t (map_look m') (eff_zadd k e sc t (map_look m))"
  proof (cases "live t m k")
    case None
    then show ?thesis
      using f upd_put [of t m k None "KZset [(e, sc)]"]
      by (auto simp: k_zadd_def eff_zadd_def look_None)
  next
    case (Some p)
    then obtain w d where p: "live t m k = Some (w, d)" by (cases p) auto
    show ?thesis
    proof (cases w)
      case (KZset z)
      then show ?thesis
        using f p upd_put [of t m k d "KZset (AList.update e sc z)"]
        by (auto simp: k_zadd_def eff_zadd_def look_here update_conv')
    qed (use f p in \<open>auto simp: k_zadd_def\<close>)
  qed
qed

lemma ks_expire_at: "obeys ks_look (ks_exec (k_expire_at k e)) (eff_expire_at k e) (\<lambda>_ _ _. True)"
proof (rule exec_obeys)
  fix t m x m'
  assume f: "k_expire_at k e t m = (x, m')"
  show "case x of Inl _ \<Rightarrow> m' = m
      | Inr a \<Rightarrow> True \<and> agree t (map_look m') (eff_expire_at k e t (map_look m))"
    using f by (cases "live t m k")
      (auto simp: k_expire_at_def eff_expire_at_def agree_def map_look_upd look_None look_here)
qed

lemma ks_expire: "obeys ks_look (ks_exec (k_expire k e)) (eff_expire k e) (\<lambda>_ _ _. True)"
proof (rule exec_obeys)
  fix t m x m'
  assume f: "k_expire k e t m = (x, m')"
  show "case x of Inl _ \<Rightarrow> m' = m
      | Inr a \<Rightarrow> True \<and> agree t (map_look m') (eff_expire k e t (map_look m))"
    using f by (cases "live t m k")
      (auto simp: k_expire_def k_expire_at_def eff_expire_def eff_expire_at_def agree_def
        map_look_upd look_None look_here)
qed

lemma ks_hset: "obeys ks_look (ks_exec (k_hset k kvs)) (eff_hset k kvs) (\<lambda>_ _ _. True)"
proof (rule exec_obeys)
  fix t m x m'
  assume f: "k_hset k kvs t m = (x, m')"
  show "case x of Inl _ \<Rightarrow> m' = m
      | Inr a \<Rightarrow> True \<and> agree t (map_look m') (eff_hset k kvs t (map_look m))"
  proof (cases "live t m k")
    case None
    then show ?thesis
      using f upd_put [of t m k None "KHash (rev kvs)"]
      by (auto simp: k_hset_def eff_hset_def look_None)
  next
    case (Some p)
    then obtain w d where p: "live t m k = Some (w, d)" by (cases p) auto
    show ?thesis
    proof (cases w)
      case (KHash h)
      then show ?thesis
        using f p upd_put [of t m k d "KHash (rev kvs @ h)"]
        by (auto simp: k_hset_def eff_hset_def look_here)
    qed (use f p in \<open>auto simp: k_hset_def\<close>)
  qed
qed

lemma ks_hset_nx: "obeys ks_look (ks_exec (k_hset_nx k f v)) (eff_hset_nx k f v)
    (\<lambda>t V b. b = (hash_of (V t k) f = None))"
proof (rule exec_obeys)
  fix t m x m'
  assume r: "k_hset_nx k f v t m = (x, m')"
  show "case x of Inl _ \<Rightarrow> m' = m
      | Inr a \<Rightarrow> a = (hash_of (map_look m t k) f = None) \<and>
          agree t (map_look m') (eff_hset_nx k f v t (map_look m))"
  proof (cases "live t m k")
    case None
    then show ?thesis
      using r upd_put [of t m k None "KHash [(f, v)]"]
      by (auto simp: k_hset_nx_def eff_hset_nx_def look_None)
  next
    case (Some p)
    then obtain w d where p: "live t m k = Some (w, d)" by (cases p) auto
    show ?thesis
    proof (cases w)
      case (KHash h)
      then show ?thesis
        using r p upd_put [of t m k d "KHash ((f, v) # h)"]
        by (auto simp: k_hset_nx_def eff_hset_nx_def look_here agree_def split: if_splits)
    qed (use r p in \<open>auto simp: k_hset_nx_def\<close>)
  qed
qed

lemma ks_set_nx_ex: "obeys ks_look (ks_exec (k_set_nx_ex k v ttl)) (eff_set_nx_ex k v ttl)
    (\<lambda>t V a. (a \<noteq> None) = (V t k = None))"
  by (rule exec_obeys)
    (auto simp: k_set_nx_ex_def eff_set_nx_ex_def eff_set_ex_def agree_def map_look_upd
      map_look_None split: if_splits)

lemma ks_zrem: "obeys ks_look (ks_exec (k_zrem k mx)) (eff_zrem k mx)
    (\<lambda>t V _. V t k = None \<or> (\<exists>z. V t k = Some (RZset z)))"
proof (rule exec_obeys)
  fix t m x m'
  assume f: "k_zrem k mx t m = (x, m')"
  show "case x of Inl _ \<Rightarrow> m' = m
      | Inr a \<Rightarrow> (map_look m t k = None \<or> (\<exists>z. map_look m t k = Some (RZset z))) \<and>
          agree t (map_look m') (eff_zrem k mx t (map_look m))"
  proof (cases "live t m k")
    case None
    then show ?thesis
      using f by (auto simp: k_zrem_def eff_zrem_def look_None agree_def)
  next
    case (Some p)
    then obtain w d where p: "live t m k = Some (w, d)" by (cases p) auto
    show ?thesis
    proof (cases w)
      case (KZset z)
      have "agree t (map_look m') (eff_zrem k mx t (map_look m))"
        using f p KZset look_Some [OF p] look_here [OF p] map_of_clearjunk_filter [of mx z]
          above_empty_iff [of mx z]
        by (auto simp: k_zrem_def eff_zrem_def agree_def map_look_upd Let_def)
      then show ?thesis using f p KZset by (auto simp: k_zrem_def look_here Let_def)
    qed (use f p in \<open>auto simp: k_zrem_def\<close>)
  qed
qed

lemma range_clearjunk:
  "set (map fst (sort_key snd (AList.clearjunk z))) = dom (map_of z) \<and>
   distinct (map fst (sort_key snd (AList.clearjunk z)))"
proof -
  have "fst ` set (AList.clearjunk z) = dom (map_of z)"
    by (metis dom_map_of_conv_image_fst map_of_clearjunk)
  moreover have "distinct (map fst (sort_key snd (AList.clearjunk z)))"
    using distinct_clearjunk [of z] by (simp add: distinct_map)
  ultimately show ?thesis by simp
qed

interpretation ks: redis_server keyspace_redis ks_look
proof (unfold_locales, simp_all add: keyspace_redis_def ks_set_ex ks_del ks_zadd ks_expire_at
    ks_expire ks_hset ks_hset_nx ks_set_nx_ex ks_zrem)
  show "decays (ks_look r)" for r by (simp add: ks_look_def map_look_decays)
  show "obeys ks_look (ks_exec k_ping) eff_none (\<lambda>_ _ _. True)"
    by (rule exec_obeys) (auto simp: k_ping_def eff_none_def agree_def)
  show "obeys ks_look (ks_exec (k_exists k)) eff_none (\<lambda>t V b. b = (\<exists>y. V t k = Some y))" for k
    by (rule exec_obeys) (auto simp: k_exists_def eff_none_def agree_def map_look_def)
  show "ks_look r' t' k' = ks_look r t' k'"
    if "ks_exec (k_zadd k m sc) t r = (x, r')" "k' \<noteq> k" for k m sc t r x r' t' k'
    using that by (auto simp: ks_exec_def k_zadd_def ks_look_def map_look_upd
        split: list.splits option.splits prod.splits kvalue.splits)
  show "obeys ks_look (ks_exec (k_zrange k)) eff_none
     (\<lambda>t V ms. set ms = dom (zset_of (V t k)) \<and> distinct ms)" for k
    by (rule exec_obeys)
      (auto simp: k_zrange_def eff_none_def agree_def look_None look_here
        conjunct1 [OF range_clearjunk] conjunct2 [OF range_clearjunk] simp del: set_map
        split: option.splits kvalue.splits)
  show "obeys ks_look (ks_exec (k_set_nx_ex k v ttl)) (eff_set_nx_ex k v ttl)
     (\<lambda>t V a. (\<exists>y. a = Some y) = (V t k = None))" for k v ttl
    using ks_set_nx_ex by simp
  show "obeys ks_look (ks_exec (k_hgetall k)) eff_none (\<lambda>t V h. map_of h = hash_of (V t k))" for k
    by (rule exec_obeys)
      (auto simp: k_hgetall_def eff_none_def agree_def look_None look_here split: option.splits kvalue.splits)
qed

end
