(* ===== verification/Redis_Properties.thy ===== *)
theory Redis_Properties
  imports Redis_Keyspace
begin

text \<open>
  The properties of the store client (\<open>src/redis.rs\<close>) over any Redis server that has the documented
  effects of its commands (\<open>redis_server\<close>), each with a run on the keyspace of theory
  \<open>Redis_Keyspace\<close>, and what the client does at the edges of its own contract.
\<close>

section \<open>The contract and its consequences\<close>

text \<open>
  C14. The Redis client keeps the contract of the \<open>JtiStore\<close> trait: with the documented effects of
  the commands, every operation of the client satisfies the laws the rest of the service relies on,
  with the views read off the server's keys.
\<close>

theorem redis_refines_contract:
  assumes "redis_server R look"
  shows "jti_store (redis_jti_store R) rs_wf rc_clock rs_wall (rs_present look) (rs_grp look)
           (rs_refresh_of R look) (rs_used look)"
  by (rule redis_server.refines_contract [OF assms])

text \<open>
  Revocation is final: after \<open>delete_jti\<close> succeeded, a check of that \<open>jti\<close> that answers at all
  answers \<open>false\<close>, whatever operations ran in between (failed ones included), unless one of them
  stored the same \<open>jti\<close> again.
\<close>

theorem redis_revocation_final:
  assumes "redis_server R look" and "mono (rc_time c)"
    and "redis_delete_jti R j c = (Inr (), c1)"
    and "\<forall>x \<in> set xs. j \<notin> op_writes x"
    and "redis_check_jti R j (run_ops (redis_jti_store R) xs c1) = (Inr b, c2)"
  shows "\<not> b"
  using jti_store.deleted_stays_deleted [OF redis_server.refines_contract [OF assms(1)], of c j c1 xs b c2]
    assms(2-) by (simp add: redis_jti_store_def rs_wf_def)

text \<open>
  Bulk revocation reaches every indexed token: after \<open>revoke_group\<close> succeeded, each \<open>jti\<close> the
  index held with an expiry later than the client's clock is gone, and stays gone unless stored again.
\<close>

theorem redis_group_revocation_final:
  assumes "redis_server R look" and "mono (rc_time c)"
    and "redis_revoke_group R g c = (Inr n, c1)"
    and "rs_grp look c (rc_clock c1) g j = Some e" and "rs_wall c < e"
    and "\<forall>x \<in> set xs. j \<notin> op_writes x"
    and "redis_check_jti R j (run_ops (redis_jti_store R) xs c1) = (Inr b, c2)"
  shows "\<not> b"
  using jti_store.group_stays_revoked [OF redis_server.refines_contract [OF assms(1)], of c g n c1 j e xs b c2]
    assms(2-) by (simp add: redis_jti_store_def rs_wf_def)

text \<open>
  A refresh token is exchanged once: after a mark call on it has answered, a later mark call
  that finds a record answers \<open>false\<close>, whatever ran in between short of a new record under the same
  identifier. Marks that failed on the way, or that took effect without an answer, are included.
\<close>

theorem redis_refresh_single_use:
  assumes "redis_server R look" and "mono (rc_time c)"
    and "redis_mark_refresh_used R i c = (Inr b, c1)"
    and "\<forall>x \<in> set xs. refresh_key i \<notin> op_writes x \<or> x = OpMark i"
    and "c2 = run_ops (redis_jti_store R) xs c1"
    and "rs_present look c2 (rc_clock c2) (refresh_key i)"
    and "redis_mark_refresh_used R i c2 = (Inr b', c3)"
  shows "\<not> b'"
  using jti_store.mark_single_use [OF redis_server.refines_contract [OF assms(1)], of c i b c1 xs c2 b' c3]
    assms(2-) by (simp add: redis_jti_store_def rs_wf_def)

text \<open>
  A one-time code is claimed once: while a successful claim lives, every later claim of the
  same code is refused.
\<close>

theorem redis_claim_once:
  assumes "redis_server R look" and "mono (rc_time c)"
    and "redis_claim_totp_code R h ttl c = (Inr True, c1)"
    and "rc_clock c1 < rc_clock c + uint ttl"
    and "redis_claim_totp_code R h ttl' c1 = (Inr b, c2)"
  shows "\<not> b"
  using jti_store.claim_blocks [OF redis_server.refines_contract [OF assms(1)], of c h ttl c1 ttl' b c2]
    assms(2-) by (simp add: redis_jti_store_def rs_wf_def)

section \<open>Errors\<close>

text \<open>
  A store that cannot be reached is never mistaken for an answer: without a connection every
  operation fails with \<open>BadConnection\<close> and no command is sent.
\<close>

theorem redis_unreachable_is_error:
  assumes "\<not> rc_manager c" and "rd_connect R (rc_server c) = (Inl e, r)"
  shows "redis_ping R c = (Inl JtiBadConnection, c\<lparr>rc_server := r\<rparr>) \<and>
         redis_store_jti R j ttl c = (Inl JtiBadConnection, c\<lparr>rc_server := r\<rparr>) \<and>
         redis_check_jti R j c = (Inl JtiBadConnection, c\<lparr>rc_server := r\<rparr>) \<and>
         redis_delete_jti R j c = (Inl JtiBadConnection, c\<lparr>rc_server := r\<rparr>) \<and>
         redis_add_to_group R g j t c = (Inl JtiBadConnection, c\<lparr>rc_server := r\<rparr>) \<and>
         redis_revoke_group R g c = (Inl JtiBadConnection, c\<lparr>rc_server := r\<rparr>) \<and>
         redis_store_refresh R i rec ttl c = (Inl JtiBadConnection, c\<lparr>rc_server := r\<rparr>) \<and>
         redis_get_refresh R i c = (Inl JtiBadConnection, c\<lparr>rc_server := r\<rparr>) \<and>
         redis_mark_refresh_used R i c = (Inl JtiBadConnection, c\<lparr>rc_server := r\<rparr>) \<and>
         redis_claim_totp_code R h ttl c = (Inl JtiBadConnection, c\<lparr>rc_server := r\<rparr>)"
  using assms
  by (simp add: redis_ping_def redis_store_jti_def redis_check_jti_def redis_delete_jti_def
      redis_add_to_group_def redis_revoke_group_def redis_store_refresh_def redis_get_refresh_def
      redis_mark_refresh_used_def redis_claim_totp_code_def with_connection_def
      redis_connection_def)

section \<open>The lifetime of the index\<close>

context redis_server
begin

text \<open>The index after a member was added: its members until the expiry of that token, nothing after.\<close>

lemma added_index:
  assumes m: "mono (rc_time c)" and a: "redis_add_to_group R g j e c = (Inr (), c')" and b: "\<bar>e\<bar> \<le> 2 ^ 53"
    and l: "rs_present look c (rc_clock c) g \<longrightarrow> rs_present look c (rc_clock c') g" and t: "rc_clock c' \<le> t"
  shows "look (rc_server c') t g =
     (if t < e then Some (RZset ((rs_grp look c (rc_clock c) g)(j \<mapsto> e))) else None)"
proof -
  obtain c1 c2 c3 where eq: "rc_clock c1 = rc_clock c" "look (rc_server c1) = look (rc_server c)"
    and z: "issue (rd_zadd R g j e) c1 = (Inr (), c2)"
    and x: "issue (rd_expire_at R g e) c2 = (Inr (), c3)"
    and f: "rc_server c' = rc_server c3" "rc_clock c' = rc_clock c3"
    and le: "rc_clock c1 \<le> rc_clock c2" "rc_clock c2 \<le> rc_clock c3"
    using add_to_group_Inr [OF m a] by blast
  let ?V = "look (rc_server c)"
  have "look (rc_server c2) (rc_clock c2) g = eff_zadd g j e (rc_clock c) ?V (rc_clock c2) g"
    using issue_Inr [OF zadd [OF b] z] eq le by (auto dest: agreeD)
  moreover have "?V (rc_clock c) g = None \<or> ?V (rc_clock c2) g \<noteq> None"
    using l le f decaysD [OF look_decays le(2), of "rc_server c" g] by (auto simp: rs_views)
  ultimately have "look (rc_server c2) (rc_clock c2) g = Some (RZset ((zset_of (?V (rc_clock c) g))(j \<mapsto> e)))"
    by (auto simp: eff_zadd_def put_def)
  moreover have "look (rc_server c3) t g = (if t < e then look (rc_server c2) (rc_clock c2) g else None)"
    using issue_Inr [OF expire_at x] t le f
    by (auto dest!: agreeD [where t' = t and k = g] simp: eff_expire_at_def)
  ultimately show ?thesis using f by (simp add: rs_grp_def)
qed

text \<open>A revocation that finds no index deletes no token.\<close>

lemma revoke_nothing:
  assumes m: "mono (rc_time c)" and r: "redis_revoke_group R g c = (Inr n, c')"
    and none: "\<not> rs_present look c (rc_clock c) g" and t: "rc_clock c' \<le> t" and k: "k \<noteq> g"
  shows "n = 0 \<and> look (rc_server c') t k = look (rc_server c) t k"
proof -
  obtain c0 c1 c2 c3 c4 jtis where
    eq: "rc_clock c0 = rc_clock c" "look (rc_server c0) = look (rc_server c)"
    and i1: "issue (rd_zrembyscore R g (rs_wall c)) c0 = (Inr (), c1)"
    and i2: "issue (rd_zrange R g) c1 = (Inr jtis, c2)"
    and i3: "jtis = [] \<and> c3 = c2 \<or> jtis \<noteq> [] \<and> issue (rd_del R jtis) c2 = (Inr (), c3)"
    and i4: "issue (rd_del R [g]) c3 = (Inr (), c4)"
    and f: "rc_server c' = rc_server c4" "rc_clock c' = rc_clock c4" "n = of_nat (length jtis)"
    and le: "rc_clock c0 \<le> rc_clock c1" "rc_clock c1 \<le> rc_clock c2" "rc_clock c2 \<le> rc_clock c3"
      "rc_clock c3 \<le> rc_clock c4"
    by (rule revoke_group_Inr [OF m r]) (rule that; assumption)
  let ?V = "look (rc_server c)"
  have no: "?V (rc_clock c0) g = None" using none eq by (simp add: rs_present_def)
  then have same: "look (rc_server c1) u h = ?V u h" if "rc_clock c0 \<le> u" for u h
    using issue_Inr [OF zrem i1] eq that by (auto dest: agreeD simp: eff_zrem_def)
  have "?V (rc_clock c1) g = None"
    using decaysD [OF look_decays le(1), of "rc_server c" g] no by simp
  then have "look (rc_server c1) (rc_clock c1) g = None" using same le(1) by simp
  then have j: "jtis = []" using issue_Inr [OF zrange i2] by simp
  have at: "rc_clock c1 \<le> t" "rc_clock c3 \<le> t" "rc_clock c0 \<le> t" using le f(2) t by simp_all
  have "look (rc_server c4) t k = look (rc_server c3) t k"
    using issue_Inr [OF del i4] at k by (auto dest!: agreeD [where t' = t and k = k] simp: eff_del_def)
  also have "\<dots> = look (rc_server c1) t k"
    using issue_Inr [OF zrange i2] i3 j at le(2)
    by (auto dest!: agreeD [where t' = t and k = k] simp: eff_none_def)
  finally show ?thesis using same at f j by simp
qed

end

text \<open>
  C33. The index of a group lives exactly as long as the token added last. After a member was added (its
  expiry a score that a sorted set holds exactly, an index that was there not expiring in the middle of the
  call), the index exists up to that token's expiry, with the members it had and the new one, and from
  that expiry on does not exist, also for members that expire later. So a longer-lived token that was
  added before a shorter-lived one drops out of the index before it expires: a revocation that succeeds
  after that moment, with no call that writes the index in between, answers 0 and leaves every token as
  it is.
\<close>

theorem redis_index_lives_as_last_added:
  assumes "redis_server R look" and "mono (rc_time c)"
    and "redis_add_to_group R g j e c = (Inr (), c')" and "\<bar>e\<bar> \<le> 2 ^ 53"
    and "rs_present look c (rc_clock c) g \<longrightarrow> rs_present look c (rc_clock c') g"
  shows "(\<forall>t \<ge> rc_clock c'. (rs_present look c' t g \<longleftrightarrow> t < e) \<and>
       (\<forall>k. rs_grp look c' t g k = (if t < e then ((rs_grp look c (rc_clock c) g)(j \<mapsto> e)) k else None))) \<and>
     (\<forall>xs c1 n c2. (\<forall>x \<in> set xs. g \<notin> op_writes x) \<and> c1 = run_ops (redis_jti_store R) xs c' \<and> e \<le> rc_clock c1 \<and>
         redis_revoke_group R g c1 = (Inr n, c2) \<longrightarrow>
       n = 0 \<and> (\<forall>t k. rc_clock c2 \<le> t \<and> k \<noteq> g \<longrightarrow> rs_present look c2 t k = rs_present look c1 t k))"
proof (intro conjI allI impI; (elim conjE)?)
  note at = redis_server.added_index [OF assms]
  note con = redis_server.refines_contract [OF assms(1)]
  fix t
  assume t: "rc_clock c' \<le> t"
  show "rs_present look c' t g \<longleftrightarrow> t < e" using at [OF t] by (simp add: rs_present_def)
  show "rs_grp look c' t g k = (if t < e then ((rs_grp look c (rc_clock c) g)(j \<mapsto> e)) k else None)" for k
    using at [OF t] by (simp add: rs_grp_def)
next
  note at = redis_server.added_index [OF assms]
  note con = redis_server.refines_contract [OF assms(1)]
  fix xs c1 n c2
  assume x: "\<forall>x \<in> set xs. g \<notin> op_writes x" and c1: "c1 = run_ops (redis_jti_store R) xs c'"
    and e: "e \<le> rc_clock c1" and r: "redis_revoke_group R g c1 = (Inr n, c2)"
  have "rs_wf c" using assms(2) by (simp add: rs_wf_def)
  then have w: "rs_wf c'"
    using jti_store.wf_step [OF con, of c "OpAdd g j e"] assms(3) by (simp add: redis_jti_store_def)
  have w1: "rs_wf c1" and le: "rc_clock c' \<le> rc_clock c1"
    unfolding c1 by (rule jti_store.wf_run [OF con w], rule jti_store.clock_run [OF con w])
  have "\<not> rs_present look c' (rc_clock c1) g" using at [OF le] e by (simp add: rs_present_def)
  then have "\<not> rs_present look c1 (rc_clock c1) g"
    using jti_store.absent_run [OF con w x] unfolding c1 by blast
  note gone = redis_server.revoke_nothing [OF assms(1) w1 [unfolded rs_wf_def] r this]
  have other: "g @ ''x'' \<noteq> g" by simp
  then show "n = 0" using gone [OF order.refl other] by simp
  show "rs_present look c2 t k = rs_present look c1 t k" if "rc_clock c2 \<le> t" "k \<noteq> g" for t k
    using gone that by (simp add: rs_present_def)
qed

section \<open>What keeps a key\<close>

text \<open>
  A run of calls that does not remove \<open>k\<close>: no call names it as a key to remove, and a group that is
  revoked does not have it as a member then.
\<close>

fun spares_key :: "'r redis \<Rightarrow> ('r \<Rightarrow> view) \<Rightarrow> string \<Rightarrow> store_op list \<Rightarrow> 'r redis_client \<Rightarrow> bool" where
  "spares_key R look k [] c \<longleftrightarrow> True"
| "spares_key R look k (x # xs) c \<longleftrightarrow>
     (case x of
        OpRevoke g \<Rightarrow> g \<noteq> k \<and> rs_grp look c (rc_clock c) g k = None
      | _ \<Rightarrow> k \<notin> op_removes x) \<and>
     spares_key R look k xs (run_op (redis_jti_store R) x c)"

text \<open>A step of the client that leaves \<open>k\<close> as it is.\<close>

definition same_key :: "('r \<Rightarrow> view) \<Rightarrow> string \<Rightarrow> 'r redis_client \<Rightarrow> 'r redis_client \<Rightarrow> bool" where
  "same_key look k c c' \<longleftrightarrow>
     (mono (rc_time c) \<longrightarrow> mono (rc_time c') \<and> rc_clock c \<le> rc_clock c' \<and>
        (\<forall>t. rc_clock c' \<le> t \<longrightarrow> look (rc_server c') t k = look (rc_server c) t k))"

lemma same_key_refl [simp]: "same_key look k c c"
  by (simp add: same_key_def)

lemma same_key_trans [trans]: "same_key look k a b \<Longrightarrow> same_key look k b c \<Longrightarrow> same_key look k a c"
  by (auto simp: same_key_def)

lemma same_key_recorded [simp]: "same_key look k c (record_redis_command name ok c') = same_key look k c c'"
  by (simp add: same_key_def record_redis_command_def rc_clock_def)

context redis_server
begin

lemma issue_same_key:
  assumes ob: "obeys look cmd eff ans" and iss: "issue cmd c = (x, c')"
    and eff: "\<And>t0 t V. eff t0 V t k = V t k"
  shows "same_key look k c c'"
  unfolding same_key_def
proof (intro impI conjI allI)
  assume m: "mono (rc_time c)"
  show "mono (rc_time c')" using issue_time [OF iss] m by simp
  show le: "rc_clock c \<le> rc_clock c'" by (rule issue_clock [OF m iss])
  show "look (rc_server c') t k = look (rc_server c) t k" if "rc_clock c' \<le> t" for t
    using issue_any [OF ob iss] le that eff by (auto dest!: agreeD [where t' = t and k = k])
qed

text \<open>Who is not a member when a revocation begins is not among those it finds.\<close>

lemma revoked_members:
  assumes m: "mono (rc_time c)" and z: "issue (rd_zrembyscore R g now) c = (z, c1)"
    and r: "issue (rd_zrange R g) c1 = (Inr jtis, c2)" and none: "rs_grp look c (rc_clock c) g k = None"
  shows "k \<notin> set jtis"
proof -
  have le: "rc_clock c \<le> rc_clock c1" by (rule issue_clock [OF m z])
  have "look (rc_server c1) (rc_clock c1) g = look (rc_server c) (rc_clock c1) g \<or>
      look (rc_server c1) (rc_clock c1) g = eff_zrem g now (rc_clock c) (look (rc_server c)) (rc_clock c1) g"
    using issue_any [OF zrem z] le by (auto dest: agreeD)
  moreover have "look (rc_server c) (rc_clock c1) g = look (rc_server c) (rc_clock c) g \<or> look (rc_server c) (rc_clock c1) g = None"
    by (rule decaysD [OF look_decays le])
  ultimately have "zset_of (look (rc_server c1) (rc_clock c1) g) k = None"
    using none by (auto simp: rs_grp_def eff_zrem_def above_def split: option.splits rvalue.splits)
  then show ?thesis using issue_Inr [OF zrange r] by auto
qed

lemma revoke_same_key:
  assumes m: "mono (rc_time c)" and r: "redis_revoke_group R g c = (y, c')" and k: "g \<noteq> k"
    and none: "rs_grp look c (rc_clock c) g k = None"
  shows "same_key look k c c'"
proof -
  obtain u c1 where con: "redis_connection R c = (u, c1)" by fastforce
  obtain now c2 where utc: "redis_utc_now c1 = (now, c2)" by fastforce
  obtain z c3 where z: "issue (rd_zrembyscore R g now) c2 = (z, c3)" by fastforce
  obtain v c4 where v: "issue (rd_zrange R g) c3 = (v, c4)" by fastforce
  have c1: "rc_time c1 = rc_time c" "rc_clock c1 = rc_clock c" "look (rc_server c1) = look (rc_server c)"
    using connection_step [OF con] by simp_all
  have c2: "rc_time c2 = rc_time c" "rc_clock c2 = rc_clock c" "look (rc_server c2) = look (rc_server c)"
    using utc c1 by (auto simp: redis_utc_now_def rc_clock_def)
  have s1: "same_key look k c c1" and s2: "same_key look k c c2" using c1 c2 by (simp_all add: same_key_def)
  have s3: "same_key look k c c3"
    by (rule same_key_trans [OF s2 issue_same_key [OF zrem z]])
      (use k in \<open>auto simp: eff_zrem_def split: option.splits rvalue.splits\<close>)
  have s4: "same_key look k c c4" by (rule same_key_trans [OF s3 issue_same_key [OF zrange v]]) (simp add: eff_none_def)
  have del_jtis: "same_key look k c c5" if "v = Inr jtis" "issue (rd_del R jtis) c4 = (d, c5)" for jtis d c5
  proof -
    have "k \<notin> set jtis"
      by (rule revoked_members [OF _ z]) (use m c2 none v that(1) in \<open>simp_all add: rs_grp_def\<close>)
    then show ?thesis by (intro same_key_trans [OF s4 issue_same_key [OF del that(2)]]) (simp add: eff_del_def)
  qed
  have del_g: "same_key look k c c6" if "same_key look k c c5" "issue (rd_del R [g]) c5 = (d, c6)" for c5 d c6
    by (rule same_key_trans [OF that(1) issue_same_key [OF del that(2)]]) (use k in \<open>simp add: eff_del_def\<close>)
  let ?body = "case z of Inl e \<Rightarrow> (Inl e, c3)
     | Inr _ \<Rightarrow> (case v of Inl e \<Rightarrow> (Inl e, c4)
       | Inr jtis \<Rightarrow> (case (if jtis \<noteq> [] then issue (rd_del R jtis) c4 else (Inr (), c4)) of
           (Inl e, c) \<Rightarrow> (Inl e, c)
         | (Inr _, c) \<Rightarrow> (case issue (rd_del R [g]) c of
             (Inl e, c4) \<Rightarrow> (Inl e, c4) | (Inr _, c4) \<Rightarrow> (Inr (of_nat (length jtis) :: u64), c4))))"
  have body: "same_key look k c (snd ?body)"
  proof (cases z)
    case Inr
    show ?thesis
    proof (cases v)
      case jtis: (Inr jtis)
      obtain d c5 where d: "(if jtis \<noteq> [] then issue (rd_del R jtis) c4 else (Inr (), c4)) = (d, c5)" by fastforce
      have s5: "same_key look k c c5" using d del_jtis [OF jtis] s4 by (auto split: if_splits)
      obtain f c6 where f: "issue (rd_del R [g]) c5 = (f, c6)" by fastforce
      show ?thesis using Inr jtis d f s5 del_g [OF s5 f] by (simp split: sum.splits)
    qed (use Inr s4 in simp)
  qed (use s3 in simp)
  have "redis_revoke_group R g c = (case u of Inl e \<Rightarrow> (Inl e, c1) | Inr _ \<Rightarrow> finish ''revoke_group'' ?body)"
    by (simp only: redis_revoke_group_def with_connection_def con utc z v prod.case)
  then have "snd (redis_revoke_group R g c) = (case u of Inl _ \<Rightarrow> c1 | Inr _ \<Rightarrow> snd (finish ''revoke_group'' ?body))"
    by (cases u) (simp_all only: sum.case snd_conv)
  moreover have "c' = snd (redis_revoke_group R g c)" using r by simp
  moreover have "same_key look k c (snd (finish name res)) = same_key look k c (snd res)" for name and res :: "(redis_error + u64) \<times> 'r redis_client"
    by (auto simp: finish_def split: prod.splits sum.splits)
  ultimately show ?thesis using s1 body by (cases u) (simp_all only: sum.case)
qed

lemma present_spared:
  assumes m: "mono (rc_time c)" and k: "spares_key R look k xs c" and p: "rs_present look c t k"
    and t: "rc_clock (run_ops (redis_jti_store R) xs c) \<le> t"
  shows "rs_present look (run_ops (redis_jti_store R) xs c) t k"
  using m k p t
proof (induction xs arbitrary: c)
  case (Cons x xs)
  let ?c = "run_op (redis_jti_store R) x c"
  note con = refines_contract
  have w: "rs_wf c" using Cons.prems(1) by (simp add: rs_wf_def)
  have w1: "rs_wf ?c" by (rule jti_store.wf_step [OF con w])
  have t: "rc_clock ?c \<le> t" using jti_store.clock_run [OF con w1, of xs] Cons.prems(4) by simp
  have "rs_present look ?c t k"
  proof (cases "\<exists>g. x = OpRevoke g")
    case True
    then obtain g where x: "x = OpRevoke g" by blast
    obtain y c' where r: "redis_revoke_group R g c = (y, c')" by fastforce
    then have "same_key look k c ?c"
      using revoke_same_key [OF Cons.prems(1) r] Cons.prems(2) x by (simp add: redis_jti_store_def)
    then show ?thesis using Cons.prems(1,3) t by (simp add: same_key_def rs_present_def)
  next
    case False
    then have "k \<notin> op_removes x" using Cons.prems(2) by (cases x) auto
    then show ?thesis using jti_store.present_stays [OF con w _ t] Cons.prems(3) by blast
  qed
  then show ?case using Cons.IH [of ?c] Cons.prems(2,4) w1 by (simp add: rs_wf_def)
qed simp

end

section \<open>Witnesses\<close>

text \<open>A client over an empty keyspace; one command per second.\<close>

definition demo_client :: "keyspace redis_client" where
  "demo_client = redis_client_init \<lparr>ks_map = Map.empty, ks_faults = []\<rparr> int (\<lambda>_. 0)"

definition demo_run :: "store_op list \<Rightarrow> keyspace redis_client" where
  "demo_run xs = run_ops (redis_jti_store keyspace_redis) xs demo_client"

lemma demo_mono: "mono (rc_time (demo_run xs))"
proof -
  have "rs_wf (run_ops (redis_jti_store keyspace_redis) xs demo_client)"
    by (rule ks.wf_run) (simp add: rs_wf_def demo_client_def redis_client_init_def mono_def)
  then show ?thesis by (simp add: demo_run_def rs_wf_def)
qed

lemmas redis_run_defs = demo_run_def demo_client_def redis_client_init_def redis_jti_store_def
  keyspace_redis_def redis_store_jti_def redis_check_jti_def redis_delete_jti_def
  redis_add_to_group_def redis_revoke_group_def redis_mark_refresh_used_def
  redis_claim_totp_code_def redis_store_refresh_def with_connection_def redis_connection_def
  finish_def issue_def rc_clock_def ks_exec_def record_redis_command_def redis_utc_now_def
  k_ping_def k_set_ex_def k_exists_def k_del_def k_zadd_def k_expire_at_def k_expire_def k_zrem_def
  k_zrange_def k_hset_def k_hset_nx_def k_set_nx_ex_def live_def alive_def wrong_type_def

lemma redis_refines_contract_witness:
  "jti_store (redis_jti_store keyspace_redis) rs_wf rc_clock rs_wall (rs_present ks_look)
     (rs_grp ks_look) (rs_refresh_of keyspace_redis ks_look) (rs_used ks_look)"
  by (rule redis_refines_contract) (rule ks.redis_server_axioms)

text \<open>Revoke \<open>j1\<close>, issue \<open>j2\<close>, check \<open>j1\<close>.\<close>

lemma redis_revocation_final_witness:
  "\<exists>c2. redis_check_jti keyspace_redis ''j1''
     (demo_run [OpStore ''j1'' 100, OpDelete ''j1'', OpStore ''j2'' 100]) = (Inr False, c2)"
proof -
  let ?c = "demo_run [OpStore ''j1'' 100]"
  let ?c1 = "demo_run [OpStore ''j1'' 100, OpDelete ''j1'']"
  have d: "redis_delete_jti keyspace_redis ''j1'' ?c = (Inr (), ?c1)"
    by (simp add: redis_run_defs)
  have r: "run_ops (redis_jti_store keyspace_redis) [OpStore ''j2'' 100] ?c1
      = demo_run [OpStore ''j1'' 100, OpDelete ''j1'', OpStore ''j2'' 100]"
    by (simp add: demo_run_def)
  obtain b c2 where k: "redis_check_jti keyspace_redis ''j1''
      (demo_run [OpStore ''j1'' 100, OpDelete ''j1'', OpStore ''j2'' 100]) = (Inr b, c2)"
    by (simp add: redis_run_defs, blast)
  have "\<not> b"
    using redis_revocation_final [OF ks.redis_server_axioms demo_mono d _ k [folded r]] by simp
  then show ?thesis using k by auto
qed

lemma redis_group_revocation_final_witness:
  "\<exists>c2. redis_check_jti keyspace_redis ''j1''
     (demo_run [OpStore ''j1'' 100, OpAdd ''g'' ''j1'' 100, OpRevoke ''g'']) = (Inr False, c2)"
proof -
  let ?c = "demo_run [OpStore ''j1'' 100, OpAdd ''g'' ''j1'' 100]"
  let ?c1 = "demo_run [OpStore ''j1'' 100, OpAdd ''g'' ''j1'' 100, OpRevoke ''g'']"
  have d: "redis_revoke_group keyspace_redis ''g'' ?c = (Inr 1, ?c1)"
    by (simp add: redis_run_defs)
  have g: "rs_grp ks_look ?c (rc_clock ?c1) ''g'' ''j1'' = Some 100" and w: "rs_wall ?c < 100"
    by (simp_all add: redis_run_defs rs_grp_def ks_look_def map_look_def rs_wall_def)
  obtain b c2 where k: "redis_check_jti keyspace_redis ''j1'' ?c1 = (Inr b, c2)"
    by (simp add: redis_run_defs, blast)
  have "\<not> b"
    using redis_group_revocation_final [OF ks.redis_server_axioms demo_mono d g w, of "[]"] k by simp
  then show ?thesis using k by auto
qed

definition demo_record :: refresh_record where
  "demo_record = \<lparr>rr_subject = ''alice'', rr_audience = [], rr_family = ''f''\<rparr>"

lemma redis_refresh_single_use_witness:
  "\<exists>c3. redis_mark_refresh_used keyspace_redis ''i''
     (demo_run [OpStoreRefresh ''i'' demo_record 100, OpMark ''i'']) = (Inr False, c3)"
proof -
  let ?c = "demo_run [OpStoreRefresh ''i'' demo_record 100]"
  let ?c1 = "demo_run [OpStoreRefresh ''i'' demo_record 100, OpMark ''i'']"
  have d: "redis_mark_refresh_used keyspace_redis ''i'' ?c = (Inr True, ?c1)"
    by (simp add: redis_run_defs demo_record_def json_of_strings_def as_i64_def)
  have p: "rs_present ks_look ?c1 (rc_clock ?c1) (refresh_key ''i'')"
    by (simp add: redis_run_defs demo_record_def json_of_strings_def as_i64_def rs_present_def
        ks_look_def map_look_def)
  obtain b' c3 where k: "redis_mark_refresh_used keyspace_redis ''i'' ?c1 = (Inr b', c3)"
    by (simp add: redis_run_defs demo_record_def json_of_strings_def as_i64_def, blast)
  have "\<not> b'"
    using redis_refresh_single_use [OF ks.redis_server_axioms demo_mono d, of "[]", OF _ _ p k] by simp
  then show ?thesis using k by auto
qed

lemma redis_claim_once_witness:
  "\<exists>c2. redis_claim_totp_code keyspace_redis ''h'' 90 (demo_run [OpClaim ''h'' 90]) = (Inr False, c2)"
proof -
  let ?c1 = "demo_run [OpClaim ''h'' 90]"
  have d: "redis_claim_totp_code keyspace_redis ''h'' 90 (demo_run []) = (Inr True, ?c1)"
    by (simp add: redis_run_defs)
  have t: "rc_clock ?c1 < rc_clock (demo_run []) + uint (90 :: u64)"
    by (simp add: redis_run_defs)
  obtain b c2 where k: "redis_claim_totp_code keyspace_redis ''h'' 90 ?c1 = (Inr b, c2)"
    by (simp add: redis_run_defs, blast)
  have "\<not> b" using redis_claim_once [OF ks.redis_server_axioms demo_mono d t k] .
  then show ?thesis using k by auto
qed

definition demo_unreachable :: "unit redis" where
  "demo_unreachable =
     \<lparr>rd_connect = \<lambda>r. (Inl wrong_type, r), rd_ping = \<lambda>_ r. (Inr (), r),
      rd_set_ex = \<lambda>_ _ _ _ r. (Inr (), r), rd_exists = \<lambda>_ _ r. (Inr True, r),
      rd_del = \<lambda>_ _ r. (Inr (), r), rd_zadd = \<lambda>_ _ _ _ r. (Inr (), r),
      rd_expire_at = \<lambda>_ _ _ r. (Inr (), r), rd_expire = \<lambda>_ _ _ r. (Inr (), r),
      rd_zrembyscore = \<lambda>_ _ _ r. (Inr (), r), rd_zrange = \<lambda>_ _ r. (Inr [], r),
      rd_hset_multiple = \<lambda>_ _ _ r. (Inr (), r), rd_hgetall = \<lambda>_ _ r. (Inr [], r),
      rd_hset_nx = \<lambda>_ _ _ _ r. (Inr True, r), rd_set_nx_ex = \<lambda>_ _ _ _ r. (Inr None, r),
      rd_json_of_strings = \<lambda>_. None, rd_strings_of_json = \<lambda>_. None\<rparr>"

lemma redis_unreachable_is_error_witness:
  "fst (redis_check_jti demo_unreachable ''j'' (redis_client_init () int int)) = Inl JtiBadConnection"
  using redis_unreachable_is_error [of "redis_client_init () int int" demo_unreachable wrong_type "()"]
  by (simp add: redis_client_init_def demo_unreachable_def)

text \<open>
  A token that expires at 100 is indexed, then one that expires at 10; from 10 on the index is gone: the
  revocation finds nothing, and the first token is still present.
\<close>

lemma redis_index_lives_as_last_added_witness:
  "\<exists>c2. redis_revoke_group keyspace_redis ''g''
       (demo_run [OpStore ''j1'' 100, OpAdd ''g'' ''j1'' 100, OpAdd ''g'' ''j2'' 10, OpPing, OpPing, OpPing, OpPing, OpPing])
       = (Inr 0, c2) \<and>
     rs_present ks_look c2 20 ''j1''"
proof -
  let ?xs = "[OpPing, OpPing, OpPing, OpPing, OpPing]"
  let ?c = "demo_run [OpStore ''j1'' 100, OpAdd ''g'' ''j1'' 100]"
  let ?mid = "demo_run [OpStore ''j1'' 100, OpAdd ''g'' ''j1'' 100, OpAdd ''g'' ''j2'' 10]"
  let ?c1 = "demo_run [OpStore ''j1'' 100, OpAdd ''g'' ''j1'' 100, OpAdd ''g'' ''j2'' 10, OpPing, OpPing, OpPing, OpPing, OpPing]"
  have d: "redis_add_to_group keyspace_redis ''g'' ''j2'' 10 ?c = (Inr (), ?mid)"
    by (simp add: redis_run_defs)
  have "rc_clock ?mid = 5" by (simp add: redis_run_defs)
  moreover have "rs_present ks_look ?c 5 ''g''" by (simp add: redis_run_defs rs_present_def ks_look_def map_look_def)
  ultimately have p: "rs_present ks_look ?c (rc_clock ?c) ''g'' \<longrightarrow> rs_present ks_look ?c (rc_clock ?mid) ''g''" by simp
  have c1: "?c1 = run_ops (redis_jti_store keyspace_redis) ?xs ?mid" by (simp add: demo_run_def)
  have t: "10 \<le> rc_clock ?c1" by (simp add: redis_run_defs redis_ping_def)
  have j: "rs_present ks_look ?c1 20 ''j1''"
    by (simp add: redis_run_defs redis_ping_def rs_present_def ks_look_def map_look_def)
  have "\<exists>n c2. redis_revoke_group keyspace_redis ''g'' ?c1 = (Inr n, c2) \<and> rc_clock c2 \<le> 20"
    by (simp add: redis_run_defs redis_ping_def)
  then obtain n c2 where r: "redis_revoke_group keyspace_redis ''g'' ?c1 = (Inr n, c2)" and l: "rc_clock c2 \<le> 20"
    by blast
  have "n = 0 \<and> (\<forall>t k. rc_clock c2 \<le> t \<and> k \<noteq> ''g'' \<longrightarrow> rs_present ks_look c2 t k = rs_present ks_look ?c1 t k)"
    by (rule conjunct2 [OF redis_index_lives_as_last_added [OF ks.redis_server_axioms demo_mono d _ p],
          THEN spec [of _ ?xs], THEN spec, THEN spec, THEN spec, THEN mp]) (use c1 t r in simp_all)
  then show ?thesis using r l j by auto
qed

end
