(* ===== verification/Jwk_Service.thy ===== *)
theory Jwk_Service
  imports Models
begin

text \<open>
  The client of the key service (\<open>src/jwk.rs\<close>): the cache of public keys with its freshness,
  throttling and stale-serving rules, and the three calls to \<open>jwks-service-app\<close>. The key service
  and the HTTP client are foreign: they are a dictionary over an abstract network state \<open>'n\<close>.

  Durations and instants are naturals in nanoseconds; \<open>Instant::elapsed\<close> saturates at zero, as
  subtraction of naturals does. Every reading of the monotonic clock takes the next element of the
  sequence \<open>sv_clk\<close>.
\<close>

section \<open>Durations\<close>

definition nanos_per_sec :: nat where
  "nanos_per_sec = 1000000000"

definition duration_from_secs :: "u64 \<Rightarrow> nat" where
  "duration_from_secs s = unat s * nanos_per_sec"

definition duration_max :: nat where
  "duration_max = (2 ^ 64 - 1) * nanos_per_sec + 999999999"

definition saturating_add :: "nat \<Rightarrow> nat \<Rightarrow> nat" where
  "saturating_add a b = min (a + b) duration_max"

section \<open>Configuration\<close>

definition jwk_env_u64 :: "env \<Rightarrow> string \<Rightarrow> u64 \<Rightarrow> u64" where
  "jwk_env_u64 e name dflt =
     (case e name of
        None \<Rightarrow> dflt
      | Some raw \<Rightarrow> (case parse_u64 (trim raw) of Some v \<Rightarrow> v | None \<Rightarrow> dflt))"

text \<open>The timeouts of the HTTP client, in milliseconds, and the idle time of its pool, in seconds.\<close>

record http_timeouts =
  ht_request_ms :: u64
  ht_connect_ms :: u64
  ht_pool_idle_secs :: u64

definition build_client :: "env \<Rightarrow> http_timeouts" where
  "build_client e =
     \<lparr>ht_request_ms = jwk_env_u64 e ''JWKS_REQUEST_TIMEOUT_MS'' 2000,
      ht_connect_ms = jwk_env_u64 e ''JWKS_CONNECT_TIMEOUT_MS'' 500,
      ht_pool_idle_secs = 60\<rparr>"

record cache_state =
  cs_entry :: "(jwks \<times> nat) option"
  cs_last_attempt :: "nat option"
  cs_last_failure :: "nat option"

record http_response =
  hr_status :: nat
  hr_body :: string

text \<open>
  The key service as the client sees it: \<open>None\<close> is a request that could not be sent or was not
  answered in time. The last two fields are the decoding of a response body.
\<close>

record 'n key_server =
  kn_get :: "string \<Rightarrow> 'n \<Rightarrow> http_response option \<times> 'n"
  kn_post_alg :: "string \<Rightarrow> string \<Rightarrow> 'n \<Rightarrow> http_response option \<times> 'n"
  kn_jwks_of :: "string \<Rightarrow> jwks option"
  kn_key_of :: "string \<Rightarrow> jwk_data option"

record 'n jwk_service =
  sv_client :: http_timeouts
  sv_url :: string
  sv_cache :: cache_state
  sv_cache_ttl :: nat
  sv_miss_refresh_interval :: nat
  sv_stale_grace :: nat
  sv_net :: 'n
  sv_clk :: "nat \<Rightarrow> nat"
  sv_tick :: nat
  sv_metrics :: "metric list"

definition jwk_service_new :: "env \<Rightarrow> 'n \<Rightarrow> (nat \<Rightarrow> nat) \<Rightarrow> 'n jwk_service" where
  "jwk_service_new e net clk =
     \<lparr>sv_client = build_client e,
      sv_url = env_or e ''JWKS_SERVICE_URL'' ''http://jwks-service-app:8080'',
      sv_cache = \<lparr>cs_entry = None, cs_last_attempt = None, cs_last_failure = None\<rparr>,
      sv_cache_ttl = duration_from_secs (jwk_env_u64 e ''JWKS_CACHE_TTL_SECONDS'' 300),
      sv_miss_refresh_interval =
        duration_from_secs (jwk_env_u64 e ''JWKS_CACHE_MISS_REFRESH_SECONDS'' 10),
      sv_stale_grace = duration_from_secs (jwk_env_u64 e ''JWKS_CACHE_STALE_GRACE_SECONDS'' 10),
      sv_net = net, sv_clk = clk, sv_tick = 0, sv_metrics = []\<rparr>"

section \<open>Effects\<close>

definition instant_now :: "'n jwk_service \<Rightarrow> nat \<times> 'n jwk_service" where
  "instant_now s = (sv_clk s (sv_tick s), s\<lparr>sv_tick := Suc (sv_tick s)\<rparr>)"

definition record_jwks :: "metric \<Rightarrow> 'n jwk_service \<Rightarrow> 'n jwk_service" where
  "record_jwks m s = s\<lparr>sv_metrics := sv_metrics s @ [m]\<rparr>"

section \<open>The cache at an instant\<close>

definition find_kid :: "string \<Rightarrow> jwks \<Rightarrow> jwk option" where
  "find_kid kid ks = find (\<lambda>j. jwk_kid j = kid) (jwks_keys ks)"

definition lookup_fresh_at :: "'n jwk_service \<Rightarrow> nat \<Rightarrow> string \<Rightarrow> jwk option" where
  "lookup_fresh_at s now kid =
     (case cs_entry (sv_cache s) of
        None \<Rightarrow> None
      | Some (ks, fetched_at) \<Rightarrow>
          if sv_cache_ttl s \<le> now - fetched_at then None else find_kid kid ks)"

text \<open>With a zero TTL the cache is off: no snapshot is ever servable.\<close>

definition servable_max_age :: "'n jwk_service \<Rightarrow> nat" where
  "servable_max_age s =
     (if sv_cache_ttl s = 0 then 0 else saturating_add (sv_cache_ttl s) (sv_stale_grace s))"

definition lookup_stale_at :: "'n jwk_service \<Rightarrow> nat \<Rightarrow> string \<Rightarrow> (jwk \<times> nat) option" where
  "lookup_stale_at s now kid =
     (case cs_entry (sv_cache s) of
        None \<Rightarrow> None
      | Some (ks, fetched_at) \<Rightarrow>
          (let age = now - fetched_at in
           if servable_max_age s \<le> age then None
           else map_option (\<lambda>j. (j, age)) (find_kid kid ks)))"

definition has_servable_snapshot_at :: "'n jwk_service \<Rightarrow> nat \<Rightarrow> bool" where
  "has_servable_snapshot_at s now =
     (case cs_entry (sv_cache s) of
        None \<Rightarrow> False
      | Some (ks, fetched_at) \<Rightarrow> jwks_keys ks \<noteq> [] \<and> now - fetched_at < servable_max_age s)"

definition cache_is_fresh_at :: "'n jwk_service \<Rightarrow> nat \<Rightarrow> bool" where
  "cache_is_fresh_at s now =
     (case cs_entry (sv_cache s) of
        None \<Rightarrow> False
      | Some (_, fetched_at) \<Rightarrow> now - fetched_at < sv_cache_ttl s)"

definition recently :: "nat option \<Rightarrow> nat \<Rightarrow> nat \<Rightarrow> bool" where
  "recently at now interval = (case at of None \<Rightarrow> False | Some t \<Rightarrow> now - t < interval)"

section \<open>The cache operations, with their clock readings\<close>

definition lookup_fresh :: "string \<Rightarrow> 'n jwk_service \<Rightarrow> jwk option \<times> 'n jwk_service" where
  "lookup_fresh kid s = (case instant_now s of (now, s1) \<Rightarrow> (lookup_fresh_at s now kid, s1))"

definition has_servable_snapshot :: "'n jwk_service \<Rightarrow> bool \<times> 'n jwk_service" where
  "has_servable_snapshot s = (case instant_now s of (now, s1) \<Rightarrow> (has_servable_snapshot_at s now, s1))"

definition cache_is_fresh :: "'n jwk_service \<Rightarrow> bool \<times> 'n jwk_service" where
  "cache_is_fresh s = (case instant_now s of (now, s1) \<Rightarrow> (cache_is_fresh_at s now, s1))"

definition refresh_recently_failed :: "'n jwk_service \<Rightarrow> bool \<times> 'n jwk_service" where
  "refresh_recently_failed s =
     (case instant_now s of (now, s1) \<Rightarrow>
        (recently (cs_last_failure (sv_cache s)) now (sv_miss_refresh_interval s), s1))"

definition allow_refresh_on_miss :: "'n jwk_service \<Rightarrow> bool \<times> 'n jwk_service" where
  "allow_refresh_on_miss s =
     (case instant_now s of (now, s1) \<Rightarrow>
        if recently (cs_last_attempt (sv_cache s)) now (sv_miss_refresh_interval s) then (False, s1)
        else (case instant_now s1 of (now', s2) \<Rightarrow>
                (True, s2\<lparr>sv_cache := (sv_cache s2)\<lparr>cs_last_attempt := Some now'\<rparr>\<rparr>)))"

definition serve_stale :: "string \<Rightarrow> 'n jwk_service \<Rightarrow> jwk option \<times> 'n jwk_service" where
  "serve_stale kid s =
     (case instant_now s of (now, s1) \<Rightarrow>
        (case lookup_stale_at s now kid of
           None \<Rightarrow> (None, s1)
         | Some (j, _) \<Rightarrow> (Some j, record_jwks (JwksCache ''stale'') s1)))"

section \<open>Calls to the key service\<close>

definition public_keys ::
  "'n key_server \<Rightarrow> 'n jwk_service \<Rightarrow> (jwk_error + jwks) \<times> 'n jwk_service" where
  "public_keys K s =
     (case kn_get K (sv_url s @ ''/.well-known/jwks.json'') (sv_net s) of
        (None, n) \<Rightarrow>
          (Inl JwkBadConnection, record_jwks (JwksRequest ''public_keys'' False) (s\<lparr>sv_net := n\<rparr>))
      | (Some r, n) \<Rightarrow>
          (case kn_jwks_of K (hr_body r) of
             Some v \<Rightarrow> (Inr v, record_jwks (JwksRequest ''public_keys'' True) (s\<lparr>sv_net := n\<rparr>))
           | None \<Rightarrow>
               (Inl JwkBadResponse, record_jwks (JwksRequest ''public_keys'' False) (s\<lparr>sv_net := n\<rparr>))))"

definition health_check ::
  "'n key_server \<Rightarrow> 'n jwk_service \<Rightarrow> (jwk_error + unit) \<times> 'n jwk_service" where
  "health_check K s =
     (case public_keys K s of (Inl e, s1) \<Rightarrow> (Inl e, s1) | (Inr _, s1) \<Rightarrow> (Inr (), s1))"

definition fetch_and_store ::
  "'n key_server \<Rightarrow> 'n jwk_service \<Rightarrow> (jwk_error + jwks) \<times> 'n jwk_service" where
  "fetch_and_store K s =
     (case instant_now s of (attempt, s1) \<Rightarrow>
        (case public_keys K (s1\<lparr>sv_cache := (sv_cache s1)\<lparr>cs_last_attempt := Some attempt\<rparr>\<rparr>) of
           (Inl e, s2) \<Rightarrow>
             (case instant_now s2 of (failed, s3) \<Rightarrow>
                (Inl e, s3\<lparr>sv_cache := (sv_cache s3)\<lparr>cs_last_failure := Some failed\<rparr>\<rparr>))
         | (Inr ks, s2) \<Rightarrow>
             (case instant_now s2 of (fetched, s3) \<Rightarrow>
                (Inr ks, s3\<lparr>sv_cache := (sv_cache s3)\<lparr>cs_entry := Some (ks, fetched),
                                                    cs_last_failure := None\<rparr>\<rparr>))))"

text \<open>The trip to the network at the end of \<open>public_key\<close>.\<close>

definition public_key_fetch ::
  "'n key_server \<Rightarrow> string \<Rightarrow> 'n jwk_service \<Rightarrow> (jwk_error + jwk) \<times> 'n jwk_service" where
  "public_key_fetch K kid s =
     (case fetch_and_store K s of
        (Inl e, s1) \<Rightarrow>
          (case serve_stale kid s1 of
             (Some j, s2) \<Rightarrow> (Inr j, s2)
           | (None, s2) \<Rightarrow> (Inl e, record_jwks (JwksCache ''miss'') s2))
      | (Inr ks, s1) \<Rightarrow>
          (case find_kid kid ks of
             Some j \<Rightarrow> (Inr j, record_jwks (JwksCache ''miss'') s1)
           | None \<Rightarrow> (Inl JwkNotFound, record_jwks (JwksCache ''miss'') s1)))"

text \<open>What \<open>public_key\<close> does when a refresh is throttled: \<open>None\<close> falls through to the network.\<close>

definition public_key_throttled ::
  "string \<Rightarrow> 'n jwk_service \<Rightarrow> (jwk_error + jwk) option \<times> 'n jwk_service" where
  "public_key_throttled kid s =
     (case refresh_recently_failed s of (failed, s1) \<Rightarrow>
        (case (if failed then serve_stale kid s1 else (None, s1)) of
           (Some j, s2) \<Rightarrow> (Some (Inr j), s2)
         | (None, s2) \<Rightarrow>
             (case cache_is_fresh s2 of
                (True, s3) \<Rightarrow> (Some (Inl JwkNotFound), record_jwks (JwksCache ''throttled'') s3)
              | (False, s3) \<Rightarrow> (None, s3))))"

text \<open>\<open>public_key\<close> from the moment the refresh lock is held.\<close>

definition public_key_locked ::
  "'n key_server \<Rightarrow> string \<Rightarrow> 'n jwk_service \<Rightarrow> (jwk_error + jwk) \<times> 'n jwk_service" where
  "public_key_locked K kid s =
     (case lookup_fresh kid s of
        (Some j, s1) \<Rightarrow> (Inr j, record_jwks (JwksCache ''hit'') s1)
      | (None, s1) \<Rightarrow>
          (case allow_refresh_on_miss s1 of
             (True, s2) \<Rightarrow> public_key_fetch K kid s2
           | (False, s2) \<Rightarrow>
               (case public_key_throttled kid s2 of
                  (Some r, s3) \<Rightarrow> (r, s3)
                | (None, s3) \<Rightarrow> public_key_fetch K kid s3)))"

definition public_key ::
  "'n key_server \<Rightarrow> string \<Rightarrow> 'n jwk_service \<Rightarrow> (jwk_error + jwk) \<times> 'n jwk_service" where
  "public_key K kid s =
     (case lookup_fresh kid s of
        (Some j, s1) \<Rightarrow> (Inr j, record_jwks (JwksCache ''hit'') s1)
      | (None, s1) \<Rightarrow> public_key_locked K kid s1)"

definition create_key ::
  "'n key_server \<Rightarrow> string \<Rightarrow> 'n jwk_service \<Rightarrow> (jwk_error + jwk_data) \<times> 'n jwk_service" where
  "create_key K alg s =
     (let alg' = (if alg = ''EdDSA'' then ''Ed25519'' else alg) in
      case kn_post_alg K (sv_url s @ ''/jwks'') alg' (sv_net s) of
        (None, n) \<Rightarrow>
          (Inl JwkBadConnection, record_jwks (JwksRequest ''private_key'' False) (s\<lparr>sv_net := n\<rparr>))
      | (Some r, n) \<Rightarrow>
          (case kn_key_of K (hr_body r) of
             Some v \<Rightarrow> (Inr v, record_jwks (JwksRequest ''private_key'' True) (s\<lparr>sv_net := n\<rparr>))
           | None \<Rightarrow>
               (Inl JwkBadResponse, record_jwks (JwksRequest ''private_key'' False) (s\<lparr>sv_net := n\<rparr>))))"

definition get_key ::
  "'n key_server \<Rightarrow> string \<Rightarrow> 'n jwk_service \<Rightarrow> (jwk_error + jwk_data) \<times> 'n jwk_service" where
  "get_key K i s =
     (case kn_get K (sv_url s @ ''/jwks/'' @ i) (sv_net s) of
        (None, n) \<Rightarrow>
          (Inl JwkBadConnection, record_jwks (JwksRequest ''get_key'' False) (s\<lparr>sv_net := n\<rparr>))
      | (Some r, n) \<Rightarrow>
          if hr_status r = 404 then
            (Inl JwkNotFound, record_jwks (JwksRequest ''get_key'' True) (s\<lparr>sv_net := n\<rparr>))
          else if \<not> (200 \<le> hr_status r \<and> hr_status r < 300) then
            (Inl JwkBadResponse, record_jwks (JwksRequest ''get_key'' False) (s\<lparr>sv_net := n\<rparr>))
          else (case kn_key_of K (hr_body r) of
             Some v \<Rightarrow> (Inr v, record_jwks (JwksRequest ''get_key'' True) (s\<lparr>sv_net := n\<rparr>))
           | None \<Rightarrow>
               (Inl JwkBadResponse, record_jwks (JwksRequest ''get_key'' False) (s\<lparr>sv_net := n\<rparr>))))"

definition private_key ::
  "'n key_server \<Rightarrow> string \<Rightarrow> string \<Rightarrow> 'n jwk_service \<Rightarrow> (jwk_error + jwk_data) \<times> 'n jwk_service" where
  "private_key K i alg s =
     (if i = [] then create_key K alg s
      else (case get_key K i s of
              (Inr v, s1) \<Rightarrow> (Inr v, s1)
            | (Inl JwkNotFound, s1) \<Rightarrow> create_key K alg s1
            | (Inl e, s1) \<Rightarrow> (Inl e, s1)))"

end
