(* ===== verification/Jwk_Cache.thy ===== *)
theory Jwk_Cache
  imports Jwk_Service
begin

text \<open>
  Correctness of the key cache: what \<open>public_key\<close> may return and from where, the bound on the age
  of a stale key, the throttling of network trips, availability through an outage of the key
  service, and the conditions under which a new private key is created.
\<close>

section \<open>Branch equations\<close>

lemma instant_now_eq [step_simps]:
  "instant_now s = (sv_clk s (sv_tick s), s\<lparr>sv_tick := Suc (sv_tick s)\<rparr>)"
  by (simp add: instant_now_def)

lemma find_kid_Some: "find_kid kid ks = Some j \<Longrightarrow> jwk_kid j = kid \<and> j \<in> set (jwks_keys ks)"
  by (auto simp: find_kid_def find_Some_iff)

lemma lookup_fresh_at_tick [simp]:
  "lookup_fresh_at (s\<lparr>sv_tick := n\<rparr>) now kid = lookup_fresh_at s now kid"
  "lookup_stale_at (s\<lparr>sv_tick := n\<rparr>) now kid = lookup_stale_at s now kid"
  "cache_is_fresh_at (s\<lparr>sv_tick := n\<rparr>) now = cache_is_fresh_at s now"
  by (simp_all add: lookup_fresh_at_def lookup_stale_at_def cache_is_fresh_at_def
      servable_max_age_def split: option.splits)

lemma servable_le: "servable_max_age s \<le> sv_cache_ttl s + sv_stale_grace s"
  by (simp add: servable_max_age_def saturating_add_def)

lemma lookup_stale_at_Some:
  "lookup_stale_at s now kid = Some (j, age) \<longleftrightarrow>
     (\<exists>ks at. cs_entry (sv_cache s) = Some (ks, at) \<and> age = now - at \<and> age < servable_max_age s \<and>
        find_kid kid ks = Some j)"
  by (auto simp: lookup_stale_at_def Let_def split: option.splits)

lemma lookup_fresh_at_Some:
  "lookup_fresh_at s now kid = Some j \<longleftrightarrow>
     (\<exists>ks at. cs_entry (sv_cache s) = Some (ks, at) \<and> now - at < sv_cache_ttl s \<and>
        find_kid kid ks = Some j)"
  by (auto simp: lookup_fresh_at_def split: option.splits)

text \<open>What the operations leave unchanged: the configuration, the clock, and (without a fetch) the snapshot.\<close>

definition same_service :: "'n jwk_service \<Rightarrow> 'n jwk_service \<Rightarrow> bool" where
  "same_service s s' \<longleftrightarrow> sv_url s' = sv_url s \<and> sv_cache_ttl s' = sv_cache_ttl s \<and>
     sv_miss_refresh_interval s' = sv_miss_refresh_interval s \<and>
     sv_stale_grace s' = sv_stale_grace s \<and> sv_clk s' = sv_clk s \<and> sv_tick s \<le> sv_tick s'"

lemma same_service_refl [simp]: "same_service s s"
  by (simp add: same_service_def)

lemma same_service_trans: "same_service a b \<Longrightarrow> same_service b c \<Longrightarrow> same_service a c"
  by (auto simp: same_service_def)

lemma same_service_servable: "same_service s s' \<Longrightarrow> servable_max_age s' = servable_max_age s"
  by (simp add: same_service_def servable_max_age_def)

lemma lookup_fresh_Some:
  "lookup_fresh kid s = (Some j, s1) \<Longrightarrow>
     \<exists>ks at. cs_entry (sv_cache s) = Some (ks, at) \<and> find_kid kid ks = Some j \<and>
       sv_clk s (sv_tick s) - at < sv_cache_ttl s"
  by (auto simp: lookup_fresh_def step_simps lookup_fresh_at_Some)

lemma lookup_fresh_state:
  "lookup_fresh kid s = (x, s1) \<Longrightarrow> same_service s s1 \<and> sv_cache s1 = sv_cache s \<and> sv_net s1 = sv_net s"
  by (auto simp: lookup_fresh_def step_simps same_service_def)

lemma serve_stale_Some:
  "serve_stale kid s = (Some j, s1) \<Longrightarrow>
     \<exists>ks at. cs_entry (sv_cache s) = Some (ks, at) \<and> find_kid kid ks = Some j \<and>
       sv_clk s (sv_tick s) - at < servable_max_age s"
  by (auto simp: serve_stale_def step_simps lookup_stale_at_Some split: option.splits prod.splits)

lemma serve_stale_state:
  "serve_stale kid s = (x, s1) \<Longrightarrow> same_service s s1 \<and> sv_cache s1 = sv_cache s \<and> sv_net s1 = sv_net s"
  by (auto simp: serve_stale_def step_simps same_service_def record_jwks_def
      split: option.splits prod.splits)

lemma allow_refresh_state:
  "allow_refresh_on_miss s = (b, s1) \<Longrightarrow>
     same_service s s1 \<and> cs_entry (sv_cache s1) = cs_entry (sv_cache s) \<and> sv_net s1 = sv_net s \<and>
     (\<not> b \<longrightarrow> sv_cache s1 = sv_cache s)"
  by (auto simp: allow_refresh_on_miss_def step_simps same_service_def split: if_splits)

lemma public_keys_Inr:
  "public_keys K s = (Inr ks, s1) \<Longrightarrow>
     (\<exists>r n. kn_get K (sv_url s @ ''/.well-known/jwks.json'') (sv_net s) = (Some r, n) \<and>
        kn_jwks_of K (hr_body r) = Some ks)"
  by (auto simp: public_keys_def split: prod.splits option.splits)

lemma public_keys_state:
  "public_keys K s = (x, s1) \<Longrightarrow> same_service s s1 \<and> sv_cache s1 = sv_cache s"
  by (auto simp: public_keys_def same_service_def record_jwks_def split: prod.splits option.splits)

text \<open>A fetch either installs the new snapshot and clears the failure mark, or marks the failure.\<close>

lemma fetch_and_store_state:
  "fetch_and_store K s = (x, s1) \<Longrightarrow> same_service s s1 \<and>
     (case x of
        Inr ks \<Rightarrow> (\<exists>at. cs_entry (sv_cache s1) = Some (ks, at)) \<and>
          cs_last_failure (sv_cache s1) = None
      | Inl _ \<Rightarrow> cs_entry (sv_cache s1) = cs_entry (sv_cache s) \<and>
          cs_last_failure (sv_cache s1) \<noteq> None)"
  by (auto simp: fetch_and_store_def step_simps same_service_def
      split: prod.splits sum.splits dest!: public_keys_state)

lemma fetch_and_store_Inr:
  "fetch_and_store K s = (Inr ks, s1) \<Longrightarrow>
     \<exists>r n. kn_get K (sv_url s @ ''/.well-known/jwks.json'') (sv_net s) = (Some r, n) \<and>
       kn_jwks_of K (hr_body r) = Some ks"
  by (auto simp: fetch_and_store_def step_simps split: prod.splits sum.splits
      dest!: public_keys_Inr)

text \<open>
  Where a returned key comes from: a usable snapshot held before the call, or an answer of the key
  service during the call.
\<close>

definition key_from ::
  "'n key_server \<Rightarrow> 'n jwk_service \<Rightarrow> string \<Rightarrow> jwk \<Rightarrow> bool" where
  "key_from K s kid j \<longleftrightarrow>
     (\<exists>ks at i. cs_entry (sv_cache s) = Some (ks, at) \<and> find_kid kid ks = Some j \<and>
        sv_tick s \<le> i \<and> 0 < sv_cache_ttl s \<and>
        sv_clk s i - at < sv_cache_ttl s + sv_stale_grace s) \<or>
     (\<exists>n r n' ks. kn_get K (sv_url s @ ''/.well-known/jwks.json'') n = (Some r, n') \<and>
        kn_jwks_of K (hr_body r) = Some ks \<and> find_kid kid ks = Some j)"

lemma key_from_step:
  "key_from K s1 kid j \<Longrightarrow> same_service s s1 \<Longrightarrow> cs_entry (sv_cache s1) = cs_entry (sv_cache s)
     \<Longrightarrow> key_from K s kid j"
  unfolding key_from_def same_service_def by (auto intro: order_trans)

lemma lookup_fresh_from: "lookup_fresh kid s = (Some j, s1) \<Longrightarrow> key_from K s kid j"
  by (drule lookup_fresh_Some) (auto simp: key_from_def intro!: exI [of _ "sv_tick s"])

lemma serve_stale_from: "serve_stale kid s = (Some j, s1) \<Longrightarrow> key_from K s kid j"
proof -
  assume "serve_stale kid s = (Some j, s1)"
  from serve_stale_Some [OF this] obtain ks at
    where h: "cs_entry (sv_cache s) = Some (ks, at)" "find_kid kid ks = Some j"
      and a: "sv_clk s (sv_tick s) - at < servable_max_age s" by blast
  from a have "0 < sv_cache_ttl s" by (auto simp: servable_max_age_def intro: ccontr)
  moreover have "sv_clk s (sv_tick s) - at < sv_cache_ttl s + sv_stale_grace s"
    using a servable_le [of s] by linarith
  ultimately show ?thesis using h by (auto simp: key_from_def)
qed

lemma public_key_fetch_from:
  assumes "public_key_fetch K kid s = (Inr j, s')"
  shows "key_from K s kid j"
proof -
  obtain x s1 where f: "fetch_and_store K s = (x, s1)" by fastforce
  note st = fetch_and_store_state [OF f]
  show ?thesis
  proof (cases x)
    case (Inl e)
    then obtain s2 where "serve_stale kid s1 = (Some j, s2)"
      using assms f by (auto simp: public_key_fetch_def split: prod.splits option.splits)
    then have "key_from K s1 kid j" by (rule serve_stale_from)
    then show ?thesis using st Inl by (auto intro: key_from_step)
  next
    case (Inr ks)
    then have "find_kid kid ks = Some j"
      using assms f by (auto simp: public_key_fetch_def split: option.splits)
    then show ?thesis using fetch_and_store_Inr [OF f [unfolded Inr]] unfolding key_from_def by blast
  qed
qed

lemma public_key_throttled_state:
  "public_key_throttled kid s = (x, s1) \<Longrightarrow>
     same_service s s1 \<and> sv_cache s1 = sv_cache s \<and> sv_net s1 = sv_net s"
  by (auto simp: public_key_throttled_def refresh_recently_failed_def cache_is_fresh_def step_simps
      record_jwks_def same_service_def split: prod.splits option.splits bool.splits if_splits
      dest!: serve_stale_state)

lemma public_key_throttled_from:
  "public_key_throttled kid s = (Some (Inr j), s1) \<Longrightarrow> key_from K s kid j"
  by (auto simp: public_key_throttled_def refresh_recently_failed_def cache_is_fresh_def step_simps
      split: prod.splits option.splits bool.splits if_splits
      dest!: serve_stale_from intro: key_from_step simp: same_service_def)

lemma public_key_locked_from:
  assumes "public_key_locked K kid s = (Inr j, s')"
  shows "key_from K s kid j"
proof -
  obtain x s1 where l: "lookup_fresh kid s = (x, s1)" by fastforce
  obtain b s2 where a: "allow_refresh_on_miss s1 = (b, s2)" by fastforce
  obtain y s3 where t: "public_key_throttled kid s2 = (y, s3)" by fastforce
  note states = lookup_fresh_state [OF l] allow_refresh_state [OF a] public_key_throttled_state [OF t]
  show ?thesis
  proof (cases x)
    case (Some j')
    then show ?thesis using assms l by (auto simp: public_key_locked_def intro: lookup_fresh_from)
  next
    case None
    have s12: "same_service s s2" "cs_entry (sv_cache s2) = cs_entry (sv_cache s)"
      using states by (auto intro: same_service_trans)
    have s13: "same_service s s3" "cs_entry (sv_cache s3) = cs_entry (sv_cache s)"
      using states s12 by (auto intro: same_service_trans)
    show ?thesis
      using assms None l a t s12 s13
      by (auto simp: public_key_locked_def split: bool.splits option.splits
          intro: key_from_step public_key_fetch_from public_key_throttled_from)
  qed
qed

lemma find_kid_key_from: "key_from K s kid j \<Longrightarrow> jwk_kid j = kid"
  by (auto simp: key_from_def dest: find_kid_Some)

lemma public_key_from_cases:
  assumes "public_key K kid s = (Inr j, s')"
  shows "key_from K s kid j"
proof -
  obtain x s1 where l: "lookup_fresh kid s = (x, s1)" by fastforce
  show ?thesis
  proof (cases x)
    case (Some j')
    then show ?thesis using assms l by (auto simp: public_key_def intro: lookup_fresh_from)
  next
    case None
    then have "public_key_locked K kid s1 = (Inr j, s')" using assms l by (simp add: public_key_def)
    then have "key_from K s1 kid j" by (rule public_key_locked_from)
    then show ?thesis using lookup_fresh_state [OF l] by (auto intro: key_from_step)
  qed
qed

section \<open>The quiet window\<close>

text \<open>
  While the snapshot is fresh and a refresh was attempted within the miss interval, at every clock
  reading from now on, the service is quiet.
\<close>

definition quiet_with :: "jwks \<Rightarrow> 'n jwk_service \<Rightarrow> bool" where
  "quiet_with ks s \<longleftrightarrow>
     (\<exists>at t. cs_entry (sv_cache s) = Some (ks, at) \<and> cs_last_attempt (sv_cache s) = Some t \<and>
        (\<forall>i\<ge>sv_tick s. sv_clk s i - at < sv_cache_ttl s \<and>
           sv_clk s i - t < sv_miss_refresh_interval s))"

lemma quiet_step:
  "quiet_with ks s \<Longrightarrow> same_service s s1 \<Longrightarrow> sv_cache s1 = sv_cache s \<Longrightarrow> quiet_with ks s1"
  by (auto simp: quiet_with_def same_service_def)

lemma quiet_lookup:
  "quiet_with ks s \<Longrightarrow> lookup_fresh kid s = (x, s1) \<Longrightarrow> x = find_kid kid ks"
  by (auto simp: quiet_with_def lookup_fresh_def step_simps lookup_fresh_at_def not_le)

lemma quiet_refused:
  "quiet_with ks s \<Longrightarrow> allow_refresh_on_miss s = (b, s1) \<Longrightarrow> \<not> b"
  by (auto simp: quiet_with_def allow_refresh_on_miss_def step_simps recently_def split: if_splits)

lemma quiet_serve_stale:
  "quiet_with ks s \<Longrightarrow> find_kid kid ks = None \<Longrightarrow> serve_stale kid s = (x, s1) \<Longrightarrow> x = None"
  by (auto simp: quiet_with_def serve_stale_def step_simps lookup_stale_at_def Let_def
      split: option.splits if_splits)

lemma quiet_is_fresh: "quiet_with ks s \<Longrightarrow> cache_is_fresh s = (b, s1) \<Longrightarrow> b"
  by (auto simp: quiet_with_def cache_is_fresh_def step_simps cache_is_fresh_at_def)

lemma cache_is_fresh_state:
  "cache_is_fresh s = (b, s1) \<Longrightarrow> same_service s s1 \<and> sv_cache s1 = sv_cache s \<and> sv_net s1 = sv_net s"
  by (auto simp: cache_is_fresh_def step_simps same_service_def)

lemma recently_failed_state:
  "refresh_recently_failed s = (b, s1) \<Longrightarrow>
     same_service s s1 \<and> sv_cache s1 = sv_cache s \<and> sv_net s1 = sv_net s"
  by (auto simp: refresh_recently_failed_def step_simps same_service_def)

lemma quiet_throttled:
  assumes q: "quiet_with ks s" and f: "find_kid kid ks = None"
    and t: "public_key_throttled kid s = (x, s')"
  shows "x = Some (Inl JwkNotFound)"
proof -
  obtain b s1 where r: "refresh_recently_failed s = (b, s1)" by fastforce
  obtain y s2 where v: "(if b then serve_stale kid s1 else (None, s1)) = (y, s2)" by fastforce
  obtain c s3 where c: "cache_is_fresh s2 = (c, s3)" by fastforce
  have q1: "quiet_with ks s1" using q recently_failed_state [OF r] by (auto intro: quiet_step)
  have y: "y = None" using v q1 f by (auto split: if_splits dest: quiet_serve_stale)
  have q2: "quiet_with ks s2" using v q1 by (auto split: if_splits dest!: serve_stale_state intro: quiet_step)
  have c': "c" using q2 c by (rule quiet_is_fresh)
  then show ?thesis using t r v y c by (auto simp: public_key_throttled_def)
qed

lemma quiet_public_key:
  assumes q: "quiet_with ks s" and p: "public_key K kid s = (r, s')"
  shows "r = (case find_kid kid ks of Some j \<Rightarrow> Inr j | None \<Rightarrow> Inl JwkNotFound)"
    and "same_service s s'" and "sv_cache s' = sv_cache s" and "sv_net s' = sv_net s"
proof -
  obtain x s1 where l: "lookup_fresh kid s = (x, s1)" by fastforce
  obtain x2 s2 where l2: "lookup_fresh kid s1 = (x2, s2)" by fastforce
  obtain b s3 where a: "allow_refresh_on_miss s2 = (b, s3)" by fastforce
  obtain y s4 where t: "public_key_throttled kid s3 = (y, s4)" by fastforce
  note st = lookup_fresh_state [OF l] lookup_fresh_state [OF l2] allow_refresh_state [OF a]
    public_key_throttled_state [OF t]
  have q1: "quiet_with ks s1" using q st(1) by (auto intro: quiet_step)
  have q2: "quiet_with ks s2" using q1 st(2) by (auto intro: quiet_step)
  have nb: "\<not> b" using q2 a by (rule quiet_refused)
  have q3: "quiet_with ks s3" using q2 st(3) nb by (auto intro: quiet_step)
  have x: "x = find_kid kid ks" "x2 = find_kid kid ks"
    using quiet_lookup [OF q l] quiet_lookup [OF q1 l2] by auto
  have all: "r = (case find_kid kid ks of Some j \<Rightarrow> Inr j | None \<Rightarrow> Inl JwkNotFound) \<and>
      same_service s s' \<and> sv_cache s' = sv_cache s \<and> sv_net s' = sv_net s"
  proof (cases "find_kid kid ks")
    case (Some j)
    then show ?thesis using p l x st(1)
      by (auto simp: public_key_def record_jwks_def same_service_def)
  next
    case None
    have "y = Some (Inl JwkNotFound)" using quiet_throttled [OF q3 None t] .
    then have "r = Inl JwkNotFound \<and> s' = s4"
      using p l l2 a t nb x None by (auto simp: public_key_def public_key_locked_def)
    moreover have "same_service s s4 \<and> sv_cache s4 = sv_cache s \<and> sv_net s4 = sv_net s"
      using st nb by (auto intro: same_service_trans)
    ultimately show ?thesis using None by simp
  qed
  then show "r = (case find_kid kid ks of Some j \<Rightarrow> Inr j | None \<Rightarrow> Inl JwkNotFound)"
    "same_service s s'" "sv_cache s' = sv_cache s" "sv_net s' = sv_net s" by auto
qed

text \<open>A run of lookups, one after the other, with the answers in order.\<close>

fun public_key_run ::
  "'n key_server \<Rightarrow> string list \<Rightarrow> 'n jwk_service \<Rightarrow> (jwk_error + jwk) list \<times> 'n jwk_service" where
  "public_key_run K [] s = ([], s)"
| "public_key_run K (kid # kids) s =
     (case public_key K kid s of (r, s1) \<Rightarrow>
        (case public_key_run K kids s1 of (rs, s2) \<Rightarrow> (r # rs, s2)))"

lemma quiet_run:
  "quiet_with ks s \<Longrightarrow> public_key_run K kids s = (rs, s') \<Longrightarrow>
     rs = map (\<lambda>kid. case find_kid kid ks of Some j \<Rightarrow> Inr j | None \<Rightarrow> Inl JwkNotFound) kids \<and>
     sv_cache s' = sv_cache s \<and> sv_net s' = sv_net s"
proof (induction kids arbitrary: s rs s')
  case Nil
  then show ?case by simp
next
  case (Cons kid kids)
  obtain r s1 where p: "public_key K kid s = (r, s1)" by fastforce
  obtain rs' s2 where t: "public_key_run K kids s1 = (rs', s2)" by fastforce
  note q = quiet_public_key [OF Cons.prems(1) p]
  have "quiet_with ks s1" using Cons.prems(1) q by (auto intro: quiet_step)
  from Cons.IH [OF this t] show ?case using Cons.prems(2) p t q by simp
qed

section \<open>Outage\<close>

definition outage :: "'n key_server \<Rightarrow> bool" where
  "outage K \<longleftrightarrow> (\<forall>u n. case fst (kn_get K u n) of None \<Rightarrow> True | Some r \<Rightarrow> kn_jwks_of K (hr_body r) = None)"

lemma outage_public_keys: "outage K \<Longrightarrow> public_keys K s = (x, s1) \<Longrightarrow> \<exists>e. x = Inl e"
  unfolding outage_def public_keys_def
  by (drule spec [of _ "sv_url s @ ''/.well-known/jwks.json''"], drule spec [of _ "sv_net s"])
    (auto split: prod.splits option.splits)

lemma outage_fetch: "outage K \<Longrightarrow> fetch_and_store K s = (x, s1) \<Longrightarrow> \<exists>e. x = Inl e"
  by (auto simp: fetch_and_store_def step_simps split: prod.splits sum.splits
      dest: outage_public_keys)

definition servable_with :: "jwks \<Rightarrow> 'n jwk_service \<Rightarrow> bool" where
  "servable_with ks s \<longleftrightarrow> (\<exists>at. cs_entry (sv_cache s) = Some (ks, at) \<and>
     (\<forall>i\<ge>sv_tick s. sv_clk s i - at < servable_max_age s))"

lemma servable_step:
  "servable_with ks s \<Longrightarrow> same_service s s1 \<Longrightarrow> cs_entry (sv_cache s1) = cs_entry (sv_cache s) \<Longrightarrow>
     servable_with ks s1"
  by (auto simp: servable_with_def same_service_servable) (auto simp: same_service_def)

lemma servable_serve_stale:
  "servable_with ks s \<Longrightarrow> find_kid kid ks = Some j \<Longrightarrow> serve_stale kid s = (x, s1) \<Longrightarrow> x = Some j"
  by (auto simp: servable_with_def serve_stale_def step_simps lookup_stale_at_def
      simp flip: not_le split: option.splits)

lemma outage_public_key_fetch:
  assumes o: "outage K" and v: "servable_with ks s" and f: "find_kid kid ks = Some j"
    and p: "public_key_fetch K kid s = (r, s')"
  shows "r = Inr j"
proof -
  obtain x s1 where t: "fetch_and_store K s = (x, s1)" by fastforce
  obtain e where x: "x = Inl e" using outage_fetch [OF o t] by blast
  obtain y s2 where y: "serve_stale kid s1 = (y, s2)" by fastforce
  have "servable_with ks s1"
    using v fetch_and_store_state [OF t] x by (auto intro: servable_step)
  then have "y = Some j" using f y by (rule servable_serve_stale)
  then show ?thesis using p t x y by (simp add: public_key_fetch_def)
qed

text \<open>The monotonic clock: later readings are not smaller.\<close>

definition mono_clock :: "'n jwk_service \<Rightarrow> bool" where
  "mono_clock s \<longleftrightarrow> (\<forall>i j. i \<le> j \<longrightarrow> sv_clk s i \<le> sv_clk s j)"

lemma outage_throttled:
  assumes v: "servable_with ks s" and f: "find_kid kid ks = Some j"
    and stale: "\<And>i. sv_tick s \<le> i \<Longrightarrow> \<not> cache_is_fresh_at s (sv_clk s i)"
    and t: "public_key_throttled kid s = (y, s')"
  shows "y = None \<or> y = Some (Inr j)"
proof -
  obtain b s1 where r: "refresh_recently_failed s = (b, s1)" by fastforce
  note st = recently_failed_state [OF r]
  show ?thesis
  proof (cases b)
    case True
    obtain z s2 where z: "serve_stale kid s1 = (z, s2)" by fastforce
    have "servable_with ks s1" using v st by (auto intro: servable_step)
    then have "z = Some j" using f z by (rule servable_serve_stale)
    then show ?thesis using t r True z by (simp add: public_key_throttled_def)
  next
    case False
    have "cache_is_fresh_at s1 (sv_clk s1 (sv_tick s1)) = cache_is_fresh_at s (sv_clk s (sv_tick s1))"
      using st by (simp add: cache_is_fresh_at_def same_service_def split: option.splits)
    moreover have "\<not> cache_is_fresh_at s (sv_clk s (sv_tick s1))"
      using st by (intro stale) (simp add: same_service_def)
    ultimately have "\<not> fst (cache_is_fresh s1)" by (simp add: cache_is_fresh_def step_simps)
    then show ?thesis using t r False
      by (auto simp: public_key_throttled_def split: prod.splits bool.splits)
  qed
qed

lemma lookup_fresh_None_stale:
  assumes "mono_clock s" "servable_with ks s" "find_kid kid ks = Some j"
    and "lookup_fresh kid s = (None, s1)" and "sv_tick s \<le> i"
  shows "\<not> cache_is_fresh_at s (sv_clk s i)"
proof -
  obtain at where e: "cs_entry (sv_cache s) = Some (ks, at)"
    using assms(2) by (auto simp: servable_with_def)
  have "sv_cache_ttl s \<le> sv_clk s (sv_tick s) - at"
    using assms(3,4) e by (auto simp: lookup_fresh_def step_simps lookup_fresh_at_def split: if_splits)
  moreover have "sv_clk s (sv_tick s) \<le> sv_clk s i"
    using assms(1,5) by (simp add: mono_clock_def)
  ultimately show ?thesis using e by (simp add: cache_is_fresh_at_def)
qed

lemma outage_locked:
  assumes o: "outage K" and m: "mono_clock s" and v: "servable_with ks s"
    and f: "find_kid kid ks = Some j" and p: "public_key_locked K kid s = (r, s')"
  shows "r = Inr j"
proof -
  obtain x s1 where l: "lookup_fresh kid s = (x, s1)" by fastforce
  obtain b s2 where a: "allow_refresh_on_miss s1 = (b, s2)" by fastforce
  obtain y s3 where t: "public_key_throttled kid s2 = (y, s3)" by fastforce
  note st = lookup_fresh_state [OF l] allow_refresh_state [OF a] public_key_throttled_state [OF t]
  obtain at where e: "cs_entry (sv_cache s) = Some (ks, at)"
    using v by (auto simp: servable_with_def)
  have v2: "servable_with ks s2" using v st by (auto intro: servable_step same_service_trans)
  have v3: "servable_with ks s3" using v2 st by (auto intro: servable_step)
  have fetch: "public_key_fetch K kid s2 = (r, s') \<Longrightarrow> r = Inr j"
    "public_key_fetch K kid s3 = (r, s') \<Longrightarrow> r = Inr j"
    using outage_public_key_fetch [OF o v2 f] outage_public_key_fetch [OF o v3 f] by blast+
  show ?thesis
  proof (cases x)
    case (Some j')
    then have "x = find_kid kid ks"
      using l e by (auto simp: lookup_fresh_def step_simps lookup_fresh_at_def split: if_splits)
    then show ?thesis using Some f p l by (simp add: public_key_locked_def)
  next
    case None
    show ?thesis
    proof (cases b)
      case True
      then show ?thesis using None p l a fetch(1) by (simp add: public_key_locked_def)
    next
      case False
      have c2: "sv_cache s2 = sv_cache s" "sv_cache_ttl s2 = sv_cache_ttl s" "sv_clk s2 = sv_clk s"
        "sv_tick s \<le> sv_tick s2" using st False by (auto simp: same_service_def)
      have "\<not> cache_is_fresh_at s2 (sv_clk s2 i)" if "sv_tick s2 \<le> i" for i
        using lookup_fresh_None_stale [OF m v f l [unfolded None], of i] that c2
        by (simp add: cache_is_fresh_at_def split: option.splits prod.splits)
      from outage_throttled [OF v2 f this t] have "y = None \<or> y = Some (Inr j)" by blast
      then show ?thesis using None False p l a t fetch(2)
        by (auto simp: public_key_locked_def)
    qed
  qed
qed

section \<open>The properties\<close>

text \<open>
  C24. A key that \<open>public_key\<close> returns has the requested identifier, and it comes either from an
  answer of the key service or from a cached snapshot no older than the TTL plus the stale grace
  (and only when caching is on).
\<close>

theorem public_key_provenance:
  assumes "public_key K kid s = (Inr j, s')"
  shows "jwk_kid j = kid \<and> key_from K s kid j"
  using public_key_from_cases [OF assms] by (simp add: find_kid_key_from)

text \<open>
  C25. While the snapshot is fresh and a refresh was attempted within the miss interval, no sequence
  of lookups, whatever identifiers an attacker puts in the tokens, sends a request to the key
  service or changes the cache: each is answered from the snapshot.
\<close>

theorem public_key_flood:
  assumes "quiet_with ks s" and "public_key_run K kids s = (rs, s')"
  shows "rs = map (\<lambda>kid. case find_kid kid ks of Some j \<Rightarrow> Inr j | None \<Rightarrow> Inl JwkNotFound) kids
      \<and> sv_cache s' = sv_cache s \<and> sv_net s' = sv_net s"
  using quiet_run [OF assms] .

text \<open>
  C26. Through an outage of the key service every key of the snapshot stays available for the TTL
  plus the grace: the lookup succeeds with the cached key, whichever branch serves it.
\<close>

theorem public_key_outage:
  assumes "outage K" and "mono_clock s" and "servable_with ks s" and "find_kid kid ks = Some j"
  shows "fst (public_key K kid s) = Inr j"
proof -
  obtain x s1 where l: "lookup_fresh kid s = (x, s1)" by fastforce
  obtain r s' where p: "public_key_locked K kid s1 = (r, s')" by fastforce
  note st = lookup_fresh_state [OF l]
  have m1: "mono_clock s1" using assms(2) st by (simp add: mono_clock_def same_service_def)
  have v1: "servable_with ks s1" using assms(3) st by (auto intro: servable_step)
  have r: "r = Inr j" using outage_locked [OF assms(1) m1 v1 assms(4) p] .
  have "x = None \<or> x = Some j"
    using l assms(3,4)
    by (auto simp: lookup_fresh_def step_simps lookup_fresh_at_def servable_with_def split: if_splits)
  then show ?thesis using l p r by (auto simp: public_key_def)
qed

text \<open>
  A rotated key is picked up: when the identifier is not in the fresh snapshot, a refresh is not
  throttled and the key service answers with a set that decodes, the lookup returns exactly what
  the new set holds, and the new set replaces the snapshot for everyone.
\<close>

theorem public_key_rotation:
  assumes miss: "\<And>now. lookup_fresh_at s now kid = None"
    and due: "\<And>now. \<not> recently (cs_last_attempt (sv_cache s)) now (sv_miss_refresh_interval s)"
    and up: "kn_get K (sv_url s @ ''/.well-known/jwks.json'') (sv_net s) = (Some r, n)"
    and decodes: "kn_jwks_of K (hr_body r) = Some ks"
    and result: "public_key K kid s = (x, s')"
  shows "x = (case find_kid kid ks of Some j \<Rightarrow> Inr j | None \<Rightarrow> Inl JwkNotFound)
      \<and> (\<exists>at. cs_entry (sv_cache s') = Some (ks, at)) \<and> cs_last_failure (sv_cache s') = None
      \<and> sv_net s' = n"
  using result
  by (auto simp: public_key_def public_key_locked_def public_key_fetch_def fetch_and_store_def
      public_keys_def lookup_fresh_def allow_refresh_on_miss_def step_simps miss due up decodes
      record_jwks_def split: option.splits)

text \<open>
  The readiness probe tells the truth about the cache: a servable snapshot is reported exactly
  when some identifier would be answered from it at that instant.
\<close>

theorem has_servable_snapshot_iff:
  "has_servable_snapshot_at s now \<longleftrightarrow> (\<exists>kid. lookup_stale_at s now kid \<noteq> None)"
proof (cases "cs_entry (sv_cache s)")
  case None
  then show ?thesis by (simp add: has_servable_snapshot_at_def lookup_stale_at_def)
next
  case (Some entry)
  obtain ks at where e: "cs_entry (sv_cache s) = Some (ks, at)" using Some by (cases entry) simp
  have "jwks_keys ks \<noteq> [] \<longleftrightarrow> (\<exists>kid. find_kid kid ks \<noteq> None)"
  proof (cases "jwks_keys ks")
    case Nil
    then show ?thesis by (simp add: find_kid_def)
  next
    case (Cons j js)
    then have "find_kid (jwk_kid j) ks = Some j" by (simp add: find_kid_def)
    then show ?thesis using Cons by (metis list.distinct(1) option.distinct(1))
  qed
  then show ?thesis
    by (auto simp: e has_servable_snapshot_at_def lookup_stale_at_def Let_def not_le)
qed

text \<open>
  A signing key is created only when no identifier was given or the key service answered 404 for
  it. Any other failure of the lookup is reported as it is, and no request to create is sent.
\<close>

theorem private_key_creates_only_if_absent:
  assumes "i \<noteq> []" and "fst (get_key K i s) \<noteq> Inl JwkNotFound"
  shows "private_key K i alg s = get_key K i s"
  using assms by (auto simp: private_key_def split: prod.splits sum.splits jwk_error.splits)

text \<open>
  With a TTL of zero the cache is off: a key is returned only if the key service supplied it
  during the call, however recent the snapshot and however long the grace.
\<close>

theorem public_key_cache_off:
  assumes "sv_cache_ttl s = 0" and "public_key K kid s = (Inr j, s')"
  shows "\<exists>n r n' ks. kn_get K (sv_url s @ ''/.well-known/jwks.json'') n = (Some r, n') \<and>
           kn_jwks_of K (hr_body r) = Some ks \<and> find_kid kid ks = Some j"
  using public_key_from_cases [OF assms(2)] assms(1) by (simp add: key_from_def)

section \<open>Witnesses\<close>

text \<open>A key service that holds one key, one that is down, and a client with a snapshot of age 0.\<close>

definition demo_jwk :: jwk where
  "demo_jwk = \<lparr>jwk_kty = ''EC'', jwk_alg = ''ES256'', jwk_kid = ''k1'', jwk_crv = None, jwk_x = None,
     jwk_y = None, jwk_n = None, jwk_e = None\<rparr>"

definition demo_jwks :: jwks where
  "demo_jwks = \<lparr>jwks_keys = [demo_jwk]\<rparr>"

definition demo_down :: "nat key_server" where
  "demo_down = \<lparr>kn_get = \<lambda>_ n. (None, Suc n), kn_post_alg = \<lambda>_ _ n. (None, Suc n),
     kn_jwks_of = \<lambda>_. None, kn_key_of = \<lambda>_. None\<rparr>"

definition demo_up :: "nat key_server" where
  "demo_up = \<lparr>kn_get = \<lambda>_ n. (Some \<lparr>hr_status = 200, hr_body = ''keys''\<rparr>, Suc n),
     kn_post_alg = \<lambda>_ _ n. (None, Suc n),
     kn_jwks_of = \<lambda>b. if b = ''keys'' then Some demo_jwks else None, kn_key_of = \<lambda>_. None\<rparr>"

definition demo_cold :: "nat jwk_service" where
  "demo_cold = jwk_service_new (\<lambda>_. None) 0 (\<lambda>i. i)"

definition demo_warm :: "nat jwk_service" where
  "demo_warm = demo_cold\<lparr>sv_cache := \<lparr>cs_entry = Some (demo_jwks, 0), cs_last_attempt = Some 0,
     cs_last_failure = None\<rparr>, sv_clk := \<lambda>_. 1\<rparr>"

definition demo_off :: "nat jwk_service" where
  "demo_off = demo_cold\<lparr>sv_cache_ttl := 0\<rparr>"

lemmas demo_defs = demo_jwk_def demo_jwks_def demo_down_def demo_up_def demo_cold_def demo_warm_def
  demo_off_def jwk_service_new_def build_client_def jwk_env_u64_def env_or_def

lemmas public_key_unfold = public_key_def public_key_locked_def public_key_fetch_def
  fetch_and_store_def public_keys_def lookup_fresh_def allow_refresh_on_miss_def step_simps
  lookup_fresh_at_def recently_def record_jwks_def find_kid_def

lemma demo_cold_result: "fst (public_key demo_up ''k1'' demo_cold) = Inr demo_jwk"
  by (simp add: public_key_unfold demo_defs)

lemma demo_off_result: "fst (public_key demo_up ''k1'' demo_off) = Inr demo_jwk"
  by (simp add: public_key_unfold demo_defs)

lemma demo_warm_fields:
  "sv_cache demo_warm = \<lparr>cs_entry = Some (demo_jwks, 0), cs_last_attempt = Some 0, cs_last_failure = None\<rparr>"
  "sv_clk demo_warm = (\<lambda>_. 1)"
  "sv_cache_ttl demo_warm = 300000000000"
  "sv_miss_refresh_interval demo_warm = 10000000000"
  "sv_stale_grace demo_warm = 10000000000"
  by (simp_all add: demo_defs duration_from_secs_def nanos_per_sec_def)

lemma demo_quiet: "quiet_with demo_jwks demo_warm"
  by (simp add: quiet_with_def demo_warm_fields)

lemma public_key_provenance_witness:
  "jwk_kid demo_jwk = ''k1'' \<and> key_from demo_up demo_cold ''k1'' demo_jwk"
  by (rule public_key_provenance [of _ _ _ _ "snd (public_key demo_up ''k1'' demo_cold)"])
    (simp add: prod_eq_iff demo_cold_result)

lemma public_key_flood_witness:
  "fst (public_key_run demo_down [''k1'', ''random''] demo_warm) = [Inr demo_jwk, Inl JwkNotFound] \<and>
   sv_net (snd (public_key_run demo_down [''k1'', ''random''] demo_warm)) = 0"
  using public_key_flood [OF demo_quiet prod.collapse [symmetric, of "public_key_run demo_down [''k1'', ''random''] demo_warm"]]
  by (simp add: find_kid_def demo_jwks_def demo_jwk_def demo_warm_def demo_cold_def jwk_service_new_def)

lemma public_key_outage_witness: "fst (public_key demo_down ''k1'' demo_warm) = Inr demo_jwk"
  by (rule public_key_outage [where ks = demo_jwks])
    (simp_all add: outage_def mono_clock_def servable_with_def servable_max_age_def demo_warm_fields
      demo_down_def find_kid_def demo_jwks_def demo_jwk_def saturating_add_def duration_max_def
      nanos_per_sec_def)

lemma public_key_rotation_witness:
  "fst (public_key demo_up ''k1'' demo_cold) = Inr demo_jwk \<and>
   (\<exists>at. cs_entry (sv_cache (snd (public_key demo_up ''k1'' demo_cold))) = Some (demo_jwks, at))"
  using public_key_rotation [of demo_cold "''k1''" demo_up "\<lparr>hr_status = 200, hr_body = ''keys''\<rparr>" 1
      demo_jwks "fst (public_key demo_up ''k1'' demo_cold)" "snd (public_key demo_up ''k1'' demo_cold)"]
  by (simp add: demo_up_def demo_cold_def jwk_service_new_def lookup_fresh_at_def recently_def
      find_kid_def demo_jwks_def demo_jwk_def)

lemma private_key_creates_only_if_absent_witness:
  "private_key demo_down ''id1'' ''ES256'' demo_cold = get_key demo_down ''id1'' demo_cold"
  by (rule private_key_creates_only_if_absent) (simp_all add: get_key_def demo_down_def)

lemma public_key_cache_off_witness:
  "\<exists>n r n' ks. kn_get demo_up (sv_url demo_off @ ''/.well-known/jwks.json'') n = (Some r, n') \<and>
     kn_jwks_of demo_up (hr_body r) = Some ks \<and> find_kid ''k1'' ks = Some demo_jwk"
  by (rule public_key_cache_off [of _ _ _ _ "snd (public_key demo_up ''k1'' demo_off)"])
    (simp add: demo_off_def, simp add: prod_eq_iff demo_off_result)

end
