(* ===== verification/Tasks.thy ===== *)
theory Tasks
  imports Prelude
begin

text \<open>
  Concurrent requests. The handlers are asynchronous functions: each \<open>await\<close> of a call to the store
  or to the key service is a point at which any other request may run. A task is such a function
  as far as it still has to run: it is finished, or it is pending with its next call, which acts on
  the shared world and leaves the rest of the task. Run alone a task is a function on the world;
  a pool of tasks makes one call of one task at a time.
\<close>

datatype ('w, 'a) task =
    Finished 'a
  | Pending "'w \<Rightarrow> ('w, 'a) task \<times> 'w"

section \<open>A task by itself\<close>

primrec run :: "('w, 'a) task \<Rightarrow> 'w \<Rightarrow> 'a \<times> 'w" where
  "run (Finished a) = (\<lambda>w. (a, w))"
| "run (Pending f) = (\<lambda>w. case map_prod run (\<lambda>w'. w') (f w) of (r, w') \<Rightarrow> r w')"

definition call :: "('w \<Rightarrow> 'a \<times> 'w) \<Rightarrow> ('w, 'a) task" where
  "call f = Pending (\<lambda>w. case f w of (x, w') \<Rightarrow> (Finished x, w'))"

text \<open>The operator \<open>?\<close> of Rust after an \<open>await\<close>: an error or a panic ends the task.\<close>

primrec and_task ::
  "('w, ('e, 'a) outcome) task \<Rightarrow> ('a \<Rightarrow> ('w, ('e, 'b) outcome) task) \<Rightarrow> ('w, ('e, 'b) outcome) task" where
  "and_task (Finished x) k = (case x of Ok a \<Rightarrow> k a | Err e \<Rightarrow> Finished (Err e) | Panic \<Rightarrow> Finished Panic)"
| "and_task (Pending f) k = Pending (\<lambda>w. map_prod (\<lambda>t. and_task t k) (\<lambda>w'. w') (f w))"

primrec map_result :: "('a \<Rightarrow> 'b) \<Rightarrow> ('w, 'a) task \<Rightarrow> ('w, 'b) task" where
  "map_result h (Finished a) = Finished (h a)"
| "map_result h (Pending f) = Pending (\<lambda>w. map_prod (map_result h) (\<lambda>w'. w') (f w))"

text \<open>An \<open>await\<close> followed by any code, and the operator \<open>?\<close> on the sums the store client returns.\<close>

primrec then_task :: "('w, 'a) task \<Rightarrow> ('a \<Rightarrow> ('w, 'b) task) \<Rightarrow> ('w, 'b) task" where
  "then_task (Finished a) k = k a"
| "then_task (Pending f) k = Pending (\<lambda>w. map_prod (\<lambda>t. then_task t k) (\<lambda>w'. w') (f w))"

definition try_task :: "('w, 'e + 'a) task \<Rightarrow> ('a \<Rightarrow> ('w, 'e + 'b) task) \<Rightarrow> ('w, 'e + 'b) task" where
  "try_task t k = then_task t (\<lambda>r. case r of Inl e \<Rightarrow> Finished (Inl e) | Inr a \<Rightarrow> k a)"

definition result_task :: "('e + 'a) \<Rightarrow> ('w, ('e, 'a) outcome) task" where
  "result_task x = Finished (case x of Inl e \<Rightarrow> Err e | Inr a \<Rightarrow> Ok a)"

lemma run_call [simp]: "run (call f) = f"
  by (simp add: call_def fun_eq_iff split: prod.splits)

lemma run_result_task [simp]: "run (result_task x) = pure_step x"
  by (auto simp: result_task_def pure_step_def fun_eq_iff split: sum.splits)

lemma run_and_task [simp]: "run (and_task t k) w = and_then (run t) (\<lambda>a. run (k a)) w"
proof (induction t arbitrary: w)
  case (Finished x)
  then show ?case by (cases x) (simp_all add: and_then_def)
next
  case (Pending f)
  obtain t' w' where f: "f w = (t', w')" by fastforce
  have m: "(t', w') \<in> range f" using f by (metis rangeI)
  then have "run (and_task t' k) w' = and_then (run t') (\<lambda>a. run (k a)) w'"
    by (intro Pending [OF m]) (simp add: f)
  then show ?case by (simp add: f and_then_def)
qed

lemma run_map_result [simp]: "run (map_result h t) w = (case run t w of (x, w') \<Rightarrow> (h x, w'))"
proof (induction t arbitrary: w)
  case (Pending f)
  obtain t' w' where f: "f w = (t', w')" by fastforce
  have m: "(t', w') \<in> range f" using f by (metis rangeI)
  then have "run (map_result h t') w' = (case run t' w' of (x, w') \<Rightarrow> (h x, w'))"
    by (intro Pending [OF m]) (simp add: f)
  then show ?case by (simp add: f)
qed simp

lemma run_then_task [simp]: "run (then_task t k) w = (case run t w of (x, w') \<Rightarrow> run (k x) w')"
proof (induction t arbitrary: w)
  case (Pending f)
  obtain t' w' where f: "f w = (t', w')" by fastforce
  have m: "(t', w') \<in> range f" using f by (metis rangeI)
  then have "run (then_task t' k) w' = (case run t' w' of (x, w') \<Rightarrow> run (k x) w')"
    by (intro Pending [OF m]) (simp add: f)
  then show ?case by (simp add: f)
qed simp

lemma run_try_task [simp]:
  "run (try_task t k) w =
     (case run t w of (Inl e, w') \<Rightarrow> (Inl e, w') | (Inr a, w') \<Rightarrow> run (k a) w')"
  by (simp add: try_task_def split: prod.splits sum.splits)

lemma then_task_assoc: "then_task (then_task t k) l = then_task t (\<lambda>x. then_task (k x) l)"
proof (induction t)
  case (Pending f)
  have "map_prod (\<lambda>t. then_task t l) (\<lambda>w'. w') (map_prod (\<lambda>t. then_task t k) (\<lambda>w'. w') (f w)) =
      map_prod (\<lambda>t. then_task t (\<lambda>x. then_task (k x) l)) (\<lambda>w'. w') (f w)" for w
  proof (cases "f w")
    case (Pair t w')
    then have m: "(t, w') \<in> range f" by (metis rangeI)
    show ?thesis using Pending [OF m, of t] by (simp add: Pair)
  qed
  then show ?case by simp
qed simp

lemma then_task_Finished [simp]: "then_task t Finished = t"
proof (induction t)
  case (Pending f)
  have "map_prod (\<lambda>t. then_task t Finished) (\<lambda>w'. w') (f w) = f w" for w
  proof (cases "f w")
    case (Pair t w')
    then have "(t, w') \<in> range f" by (metis rangeI)
    then show ?thesis using Pending [of "(t, w')" t] by (simp add: Pair)
  qed
  then show ?case by simp
qed simp

lemma try_task_Inr [simp]:
  fixes t :: "('w, 'e + 'a) task"
  shows "try_task t (\<lambda>a. Finished (Inr a)) = t"
proof -
  have "(case r of Inl e \<Rightarrow> Finished (Inl e) | Inr a \<Rightarrow> Finished (Inr a)) = (Finished r :: ('w, 'e + 'a) task)" for r
    by (simp split: sum.splits)
  then show ?thesis by (simp add: try_task_def)
qed

section \<open>A pool of tasks\<close>

record ('w, 'a) pool =
  po_tasks :: "('w, 'a) task list"
  po_world :: 'w

inductive pool_step :: "('w, 'a) pool \<Rightarrow> ('w, 'a) pool \<Rightarrow> bool" where
  advance: "n < length (po_tasks p) \<Longrightarrow> po_tasks p ! n = Pending f \<Longrightarrow> f (po_world p) = (t, w) \<Longrightarrow>
     pool_step p (p\<lparr>po_tasks := (po_tasks p)[n := t], po_world := w\<rparr>)"

inductive_cases pool_stepE: "pool_step p p'"

abbreviation pool_reaches :: "('w, 'a) pool \<Rightarrow> ('w, 'a) pool \<Rightarrow> bool" where
  "pool_reaches \<equiv> pool_step\<^sup>*\<^sup>*"

text \<open>An executable scheduler: the numbers say whose call is next.\<close>

fun schedule :: "nat list \<Rightarrow> ('w, 'a) pool \<Rightarrow> ('w, 'a) pool" where
  "schedule [] p = p"
| "schedule (n # ns) p =
     (if n < length (po_tasks p)
      then (case po_tasks p ! n of
              Finished _ \<Rightarrow> schedule ns p
            | Pending f \<Rightarrow>
                (case f (po_world p) of
                   (t, w) \<Rightarrow> schedule ns (p\<lparr>po_tasks := (po_tasks p)[n := t], po_world := w\<rparr>)))
      else schedule ns p)"

lemma schedule_reaches: "pool_reaches p (schedule ns p)"
proof (induction ns p rule: schedule.induct)
  case (2 n ns p)
  show ?case
  proof (cases "n < length (po_tasks p)")
    case True
    note n = True
    show ?thesis
    proof (cases "po_tasks p ! n")
      case (Finished a)
      then show ?thesis using 2 n by simp
    next
      case (Pending f)
      obtain t w where f: "f (po_world p) = (t, w)" by fastforce
      have "pool_step p (p\<lparr>po_tasks := (po_tasks p)[n := t], po_world := w\<rparr>)"
        by (rule pool_step.advance [where f = f, OF n Pending f])
      moreover have "pool_reaches (p\<lparr>po_tasks := (po_tasks p)[n := t], po_world := w\<rparr>) (schedule (n # ns) p)"
        using 2(2) [OF n Pending f [symmetric]] n by (simp add: Pending f)
      ultimately show ?thesis by (rule converse_rtranclp_into_rtranclp)
    qed
  next
    case False
    then show ?thesis using 2 by simp
  qed
qed simp

text \<open>One call; and a part of a task, or the rest of it, with nothing in between.\<close>

lemma reach_call:
  assumes "pool_reaches p \<lparr>po_tasks = ts, po_world = w\<rparr>" and "n < length ts" and "ts ! n = Pending f"
    and "f w = (t, w')"
  shows "pool_reaches p \<lparr>po_tasks = ts[n := t], po_world = w'\<rparr>"
  using assms(1) pool_step.advance [of n "\<lparr>po_tasks = ts, po_world = w\<rparr>" f t w'] assms(2-4)
  by (auto intro: rtranclp.rtrancl_into_rtrancl)

lemma reach_part:
  assumes "pool_reaches p \<lparr>po_tasks = ts, po_world = w\<rparr>" and "n < length ts" and "ts ! n = h t"
    and "run t w = (x, w')" and h: "\<And>f. h (Pending f) = Pending (\<lambda>w. map_prod h (\<lambda>w'. w') (f w))"
  shows "pool_reaches p \<lparr>po_tasks = ts[n := h (Finished x)], po_world = w'\<rparr>"
  using assms(1-4)
proof (induction t arbitrary: ts w)
  case (Finished y)
  then have "y = x" "w' = w" by simp_all
  then show ?case using Finished.prems(1,3) list_update_id [of ts n] by simp
next
  case (Pending f)
  obtain t w1 where f: "f w = (t, w1)" by fastforce
  have m: "(t, w1) \<in> range f" using f by (metis rangeI)
  have "pool_reaches p \<lparr>po_tasks = ts[n := h t], po_world = w1\<rparr>"
    by (rule reach_call [OF Pending.prems(1,2), where f = "\<lambda>w. map_prod h (\<lambda>w'. w') (f w)"])
      (simp_all add: Pending.prems(3) h f)
  moreover have "run t w1 = (x, w')" using Pending.prems(4) f by simp
  ultimately have "pool_reaches p \<lparr>po_tasks = (ts[n := h t])[n := h (Finished x)], po_world = w'\<rparr>"
    using Pending.prems(2) by (intro Pending.IH [OF m, of t]) (simp_all add: prod_set_simps)
  then show ?case by simp
qed

lemma reach_run:
  assumes "pool_reaches p \<lparr>po_tasks = ts, po_world = w\<rparr>" and "n < length ts" and "run (ts ! n) w = (a, w')"
  shows "pool_reaches p \<lparr>po_tasks = ts[n := Finished a], po_world = w'\<rparr>"
  by (rule reach_part [where h = "\<lambda>t. t", OF assms(1,2) refl assms(3)]) (simp add: map_prod_def)

lemma pool_length: "pool_reaches p p' \<Longrightarrow> length (po_tasks p') = length (po_tasks p)"
  by (induction rule: rtranclp_induct) (auto elim!: pool_stepE)

section \<open>Invariants of a pool\<close>

text \<open>
  What is proved of pools has one shape: an invariant \<open>I\<close> of the world, a relation \<open>G\<close> that every
  call makes between the world before and after, and a property \<open>Q\<close> of the result. \<open>within I G Q\<close>
  says that a task does so from wherever the other tasks have left the world, as long as they
  keep \<open>I\<close>.
\<close>

primrec within :: "('w \<Rightarrow> bool) \<Rightarrow> ('w \<Rightarrow> 'w \<Rightarrow> bool) \<Rightarrow> ('a \<Rightarrow> bool) \<Rightarrow> ('w, 'a) task \<Rightarrow> bool" where
  "within I G Q (Finished a) = Q a"
| "within I G Q (Pending f) =
     (\<forall>w. I w \<longrightarrow> (case map_prod (within I G Q) (\<lambda>w'. w') (f w) of (ok, w') \<Rightarrow> ok \<and> G w w'))"

lemma within_step:
  "within I G Q (Pending f) \<Longrightarrow> I w \<Longrightarrow> f w = (t, w') \<Longrightarrow> within I G Q t \<and> G w w'"
  by (simp add: split_def) (metis fst_map_prod snd_map_prod fst_conv snd_conv)

lemma within_pending:
  assumes "\<And>w t w'. I w \<Longrightarrow> f w = (t, w') \<Longrightarrow> within I G Q t \<and> G w w'"
  shows "within I G Q (Pending f)"
proof (simp, intro allI impI)
  fix w
  assume w: "I w"
  obtain t w' where f: "f w = (t, w')" by fastforce
  show "case map_prod (within I G Q) (\<lambda>w'. w') (f w) of (ok, w') \<Rightarrow> ok \<and> G w w'"
    using assms [OF w f] f by simp
qed

lemma within_call:
  "(\<And>w x w'. I w \<Longrightarrow> f w = (x, w') \<Longrightarrow> Q x \<and> G w w') \<Longrightarrow> within I G Q (call f)"
  unfolding call_def by (rule within_pending) (auto split: prod.splits)

text \<open>Steps of a composed task are steps of its first part, which then hands on what it knows.\<close>

lemma within_bind:
  assumes "within I G Q t" and "\<And>x. Q x \<Longrightarrow> within I G R (h (Finished x))"
    and "\<And>f. h (Pending f) = Pending (\<lambda>w. map_prod h (\<lambda>w'. w') (f w))"
  shows "within I G R (h t)"
  using assms(1)
proof (induction t)
  case (Finished x)
  then show ?case using assms(2) by simp
next
  case (Pending f)
  show ?case
    unfolding assms(3)
  proof (rule within_pending)
    fix w t w'
    assume w: "I w" and s: "map_prod h (\<lambda>w'. w') (f w) = (t, w')"
    then obtain t' where f: "f w = (t', w')" and t: "t = h t'" by (cases "f w") auto
    have m: "(t', w') \<in> range f" using f by (metis rangeI)
    have "within I G Q t' \<and> G w w'" using within_step [OF Pending.prems w f] .
    then show "within I G R t \<and> G w w'" using Pending.IH [OF m, of t'] t by simp
  qed
qed

lemma within_then:
  assumes "within I G Q t" and "\<And>x. Q x \<Longrightarrow> within I G R (k x)"
  shows "within I G R (then_task t k)"
  by (rule within_bind [where h = "\<lambda>t. then_task t k", OF assms(1)]) (simp_all add: assms(2))

lemma within_try:
  assumes "within I G (\<lambda>_. True) t" and "\<And>a. within I G (\<lambda>_. True) (k a)"
  shows "within I G (\<lambda>_. True) (try_task t k)"
  unfolding try_task_def
  by (rule within_then [OF assms(1)]) (simp add: assms(2) split: sum.split)

text \<open>Of a result only the success matters: an error or a panic satisfies every property.\<close>

definition on_ok :: "('a \<Rightarrow> bool) \<Rightarrow> ('e, 'a) outcome \<Rightarrow> bool" where
  "on_ok P x = (case x of Ok a \<Rightarrow> P a | _ \<Rightarrow> True)"

lemma on_ok_simps [simp]:
  "on_ok P (Ok a) = P a" "on_ok P (Err e) = True" "on_ok P Panic = True"
  "on_ok P (map_outcome g h x) = on_ok (\<lambda>a. P (h a)) x"
  by (simp_all add: on_ok_def split: outcome.splits)

lemma on_ok_True [intro!]: "on_ok (\<lambda>_. True) x"
  by (cases x) simp_all

lemma within_and_task:
  assumes "within I G (on_ok P) t" and "\<And>a. P a \<Longrightarrow> within I G (on_ok R) (k a)"
  shows "within I G (on_ok R) (and_task t k)"
proof (rule within_bind [where h = "\<lambda>t. and_task t k", OF assms(1)])
  show "within I G (on_ok R) (and_task (Finished x) k)" if "on_ok P x" for x
    using that assms(2) by (cases x) auto
qed simp

lemma within_map_result:
  assumes "within I G Q t" and "\<And>x. Q x \<Longrightarrow> R (g x)"
  shows "within I G R (map_result g t)"
  by (rule within_bind [where h = "map_result g", OF assms(1)]) (simp_all add: assms(2))

lemma within_result_task:
  "(\<And>a. x = Inr a \<Longrightarrow> P a) \<Longrightarrow> within I G (on_ok P) (result_task x)"
  by (cases x) (simp_all add: result_task_def)

text \<open>The rules for a task of which nothing is said but the calls it makes.\<close>

lemma within_any:
  "within I G (on_ok (\<lambda>_. True)) t \<Longrightarrow> (\<And>a. within I G (on_ok R) (k a)) \<Longrightarrow> within I G (on_ok R) (and_task t k)"
  by (rule within_and_task)

lemma within_mono:
  assumes "within I G Q t" and "\<And>w w'. G w w' \<Longrightarrow> G' w w'" and "\<And>x. Q x \<Longrightarrow> Q' x"
    and "\<And>w. I' w \<Longrightarrow> I w"
  shows "within I' G' Q' t"
  using assms(1)
proof (induction t)
  case (Finished x)
  then show ?case using assms(3) by simp
next
  case (Pending f)
  show ?case
  proof (rule within_pending)
    fix w t w'
    assume w: "I' w" and f: "f w = (t, w')"
    have m: "(t, w') \<in> range f" using f by (metis rangeI)
    have "within I G Q t \<and> G w w'" using within_step [OF Pending.prems assms(4) [OF w] f] .
    then show "within I' G' Q' t \<and> G' w w'" using Pending.IH [OF m, of t] assms(2) by simp
  qed
qed

text \<open>Run alone, a task keeps what its calls keep.\<close>

lemma within_run:
  assumes "\<And>w w'. J w \<Longrightarrow> G w w' \<Longrightarrow> J w'"
  shows "within (\<lambda>_. True) G Q t \<Longrightarrow> J w \<Longrightarrow> J (snd (run t w))"
proof (induction t arbitrary: w)
  case (Pending f)
  obtain t' w' where f: "f w = (t', w')" by fastforce
  have m: "(t', w') \<in> range f" using f by (metis rangeI)
  have "within (\<lambda>_. True) G Q t' \<and> G w w'" using within_step [OF Pending.prems(1) TrueI f] .
  then show ?case using Pending.IH [OF m, of t' w'] assms [OF Pending.prems(2)] f by simp
qed simp

text \<open>
  A task that takes effect in one call: all its calls are in \<open>G\<close>, and it ends with a result of which
  nothing more is said than \<open>E\<close>, or one of its calls has the effect \<open>P\<close> with a result that the calls
  after it only hand on.
\<close>

inductive one_call ::
  "('w \<Rightarrow> 'w \<Rightarrow> bool) \<Rightarrow> ('w \<Rightarrow> 'a \<Rightarrow> 'w \<Rightarrow> bool) \<Rightarrow> ('a \<Rightarrow> bool) \<Rightarrow> ('w, 'a) task \<Rightarrow> bool"
  for G P E where
  without: "E x \<Longrightarrow> one_call G P E (Finished x)"
| calls: "(\<And>w t w'. f w = (t, w') \<Longrightarrow> G w w' \<and>
      (one_call G P E t \<or> (\<exists>x. P w x w' \<and> within (\<lambda>_. True) G (\<lambda>y. y = x) t))) \<Longrightarrow>
    one_call G P E (Pending f)"

inductive_simps one_call_Finished: "one_call G P E (Finished x)"
inductive_simps one_call_Pending: "one_call G P E (Pending f)"

lemma one_call_step:
  "one_call G P E (Pending f) \<Longrightarrow> f w = (t, w') \<Longrightarrow> G w w' \<and>
     (one_call G P E t \<or> (\<exists>x. P w x w' \<and> within (\<lambda>_. True) G (\<lambda>y. y = x) t))"
  by (simp add: one_call_Pending)

text \<open>A first call with no effect of its own, which may fail, then one call and the rest.\<close>

lemma one_call_try:
  assumes "\<And>w x w'. f w = (x, w') \<Longrightarrow> G w w'" and "one_call G P E k" and "\<And>e. E (Inl e)"
  shows "one_call G P E (try_task (call f) (\<lambda>_. k))"
  unfolding try_task_def call_def then_task.simps
  by (rule one_call.calls) (use assms in \<open>auto split: prod.splits sum.splits intro: one_call.without\<close>)

lemma one_call_then:
  assumes "\<And>w x w'. f w = (x, w') \<Longrightarrow> G w w' \<and> P w (g x) w' \<and> within (\<lambda>_. True) G (\<lambda>y. y = g x) (k x)"
  shows "one_call G P E (then_task (call f) k)"
  unfolding call_def then_task.simps
  by (rule one_call.calls) (use assms in \<open>fastforce split: prod.splits\<close>)

lemma one_call_within:
  assumes "one_call G P E t" and "\<And>w x w'. I w \<Longrightarrow> P w x w' \<Longrightarrow> Q x" and "\<And>x. E x \<Longrightarrow> Q x"
  shows "within I G Q t"
  using assms(1)
proof induction
  case (without x)
  then show ?case using assms(3) by simp
next
  case (calls f)
  show ?case
  proof (rule within_pending)
    fix w t w'
    assume "I w" and "f w = (t, w')"
    then show "within I G Q t \<and> G w w'"
      using calls [of w t w'] assms(2) by (auto intro: within_mono)
  qed
qed

text \<open>
  A task on its way to a state \<open>Z\<close>: while \<open>K\<close> holds, every call keeps it or reaches \<open>Z\<close>, and at some
  call the task may have learnt enough to reach \<open>Z\<close> from anywhere; it ends before only with a result
  in \<open>E\<close>. \<open>I\<close> is the invariant of the world.
\<close>

inductive secures ::
  "('w \<Rightarrow> bool) \<Rightarrow> ('w \<Rightarrow> 'w \<Rightarrow> bool) \<Rightarrow> ('w \<Rightarrow> bool) \<Rightarrow> ('a \<Rightarrow> bool) \<Rightarrow> ('w \<Rightarrow> bool) \<Rightarrow> ('w, 'a) task \<Rightarrow> bool"
  for I G Z E where
  ends: "E x \<Longrightarrow> secures I G Z E K (Finished x)"
| works: "within (\<lambda>_. True) G (\<lambda>_. True) (Pending f) \<Longrightarrow>
    (\<And>w t w'. I w \<Longrightarrow> K w \<Longrightarrow> f w = (t, w') \<Longrightarrow>
       Z w' \<or> secures I G Z E (\<lambda>_. True) t \<or> K w' \<and> secures I G Z E K t) \<Longrightarrow>
    secures I G Z E K (Pending f)"

inductive_simps secures_Finished: "secures I G Z E K (Finished x)"
inductive_simps secures_Pending: "secures I G Z E K (Pending f)"

lemma secures_within: "secures I G Z E K t \<Longrightarrow> within (\<lambda>_. True) G (\<lambda>_. True) t"
  by (induction rule: secures.induct) simp_all

lemma secures_step:
  "secures I G Z E K (Pending f) \<Longrightarrow> I w \<Longrightarrow> K w \<Longrightarrow> f w = (t, w') \<Longrightarrow>
     Z w' \<or> secures I G Z E (\<lambda>_. True) t \<or> K w' \<and> secures I G Z E K t"
  by (simp add: secures_Pending)

lemma secures_call:
  assumes "within (\<lambda>_. True) G (\<lambda>_. True) (then_task (call f) k)"
    and "\<And>w x w'. I w \<Longrightarrow> K w \<Longrightarrow> f w = (x, w') \<Longrightarrow>
       Z w' \<or> secures I G Z E (\<lambda>_. True) (k x) \<or> K w' \<and> secures I G Z E K (k x)"
  shows "secures I G Z E K (then_task (call f) k)"
  using assms(1) unfolding call_def then_task.simps
  by (rule secures.works) (use assms(2) in \<open>auto split: prod.splits\<close>)

text \<open>
  One task of a pool at a time: a property of pools that each step keeps, seen as a property of the
  task that moved and the world around it.
\<close>

lemma pool_step_cases:
  assumes "pool_step p p'"
  obtains n f t where "n < length (po_tasks p)" "po_tasks p ! n = Pending f"
    "f (po_world p) = (t, po_world p')" "po_tasks p' = (po_tasks p)[n := t]"
  using assms by (elim pool_stepE) auto

lemma pool_within:
  assumes "pool_reaches p p'" and "I (po_world p)" and "\<And>w w'. I w \<Longrightarrow> G w w' \<Longrightarrow> I w'"
    and "\<forall>t \<in> set (po_tasks p). within I G Q t"
  shows "I (po_world p') \<and> (\<forall>t \<in> set (po_tasks p'). within I G Q t)"
  using assms(1)
proof (induction rule: rtranclp_induct)
  case base
  then show ?case using assms(2,4) by simp
next
  case (step p1 p2)
  then have I: "I (po_world p1)" and T: "\<forall>t \<in> set (po_tasks p1). within I G Q t" by simp_all
  obtain n f t where n: "n < length (po_tasks p1)" and f: "po_tasks p1 ! n = Pending f"
    and s: "f (po_world p1) = (t, po_world p2)" "po_tasks p2 = (po_tasks p1)[n := t]"
    using pool_step_cases [OF step(2)] by metis
  have "within I G Q (Pending f)" using T n f by (metis nth_mem)
  then have "within I G Q t \<and> G (po_world p1) (po_world p2)" using I s by (intro within_step)
  then show ?case using assms(3) [OF I] T s(2) by (auto dest!: set_update_subset_insert [THEN subsetD])
qed

text \<open>One task of such a pool and what it still may answer.\<close>

lemma pool_result:
  assumes "pool_reaches p p'" and "I (po_world p)" and "\<And>w w'. I w \<Longrightarrow> G w w' \<Longrightarrow> I w'"
    and "\<forall>t \<in> set (po_tasks p). within I G Q t"
    and "n < length (po_tasks p)" and "within I G R (po_tasks p ! n)"
  shows "within I G R (po_tasks p' ! n)"
  using assms(1)
proof (induction rule: rtranclp_induct)
  case base
  then show ?case using assms(6) by simp
next
  case (step p1 p2)
  have I: "I (po_world p1)"
    using pool_within [where I = I and G = G and Q = Q, OF step(1) assms(2) _ assms(4)] assms(3) by blast
  obtain m f t where m: "m < length (po_tasks p1)" and f: "po_tasks p1 ! m = Pending f"
    and s: "f (po_world p1) = (t, po_world p2)" "po_tasks p2 = (po_tasks p1)[m := t]"
    using pool_step_cases [OF step(2)] by metis
  show ?case
  proof (cases "m = n")
    case True
    then have "within I G R (Pending f)" using step.IH f by simp
    then have "within I G R t \<and> G (po_world p1) (po_world p2)" using I s(1) by (intro within_step)
    then show ?thesis using True m s(2) by simp
  next
    case False
    then show ?thesis using step.IH s(2) by simp
  qed
qed

end
