(* ===== verification/Jwk_Flight.thy ===== *)
theory Jwk_Flight
  imports Jwk_Cache Tasks
begin

text \<open>
  Concurrent lookups of \<open>src/jwk.rs\<close>: any number of tasks run \<open>public_key\<close> at the same time. A task
  first looks into the snapshot; on a miss it waits for the \<open>refresh\<close> mutex and runs the rest of the
  function while it holds it. That rest is a task of its own: each section under the lock of the cache,
  the sending of the request, the wait for its answer and each metric is one step, and any other task
  may step in between. A task may be dropped wherever it stands, as actix drops the future of a
  request whose client has gone; a dropped holder gives the mutex back.
\<close>

section \<open>The rest of the function, step by step\<close>

text \<open>The critical sections of \<open>fetch_and_store\<close>, and the request of \<open>public_keys\<close>.\<close>

definition note_attempt :: "'n jwk_service \<Rightarrow> unit \<times> 'n jwk_service" where
  "note_attempt s = (case instant_now s of (at, s1) \<Rightarrow> ((), s1\<lparr>sv_cache := (sv_cache s1)\<lparr>cs_last_attempt := Some at\<rparr>\<rparr>))"

definition note_failure :: "'n jwk_service \<Rightarrow> unit \<times> 'n jwk_service" where
  "note_failure s = (case instant_now s of (at, s1) \<Rightarrow> ((), s1\<lparr>sv_cache := (sv_cache s1)\<lparr>cs_last_failure := Some at\<rparr>\<rparr>))"

definition store_snapshot :: "jwks \<Rightarrow> 'n jwk_service \<Rightarrow> unit \<times> 'n jwk_service" where
  "store_snapshot ks s =
     (case instant_now s of (at, s1) \<Rightarrow>
        ((), s1\<lparr>sv_cache := (sv_cache s1)\<lparr>cs_entry := Some (ks, at), cs_last_failure := None\<rparr>\<rparr>))"

definition send_request :: "'n key_server \<Rightarrow> 'n jwk_service \<Rightarrow> http_response option \<times> 'n jwk_service" where
  "send_request K s =
     (case kn_get K (sv_url s @ ''/.well-known/jwks.json'') (sv_net s) of (x, n) \<Rightarrow> (x, s\<lparr>sv_net := n\<rparr>))"

definition wait_answer :: "'n jwk_service \<Rightarrow> unit \<times> 'n jwk_service" where
  "wait_answer s = ((), s)"

definition recorded :: "metric \<Rightarrow> 'n jwk_service \<Rightarrow> unit \<times> 'n jwk_service" where
  "recorded m s = ((), record_jwks m s)"

definition public_keys_task :: "'n key_server \<Rightarrow> ('n jwk_service, jwk_error + jwks) task" where
  "public_keys_task K =
     then_task (call (send_request K)) (\<lambda>x.
     then_task (call wait_answer) (\<lambda>_.
       (case x of
          None \<Rightarrow> then_task (call (recorded (JwksRequest ''public_keys'' False))) (\<lambda>_. Finished (Inl JwkBadConnection))
        | Some r \<Rightarrow>
            (case kn_jwks_of K (hr_body r) of
               Some v \<Rightarrow> then_task (call (recorded (JwksRequest ''public_keys'' True))) (\<lambda>_. Finished (Inr v))
             | None \<Rightarrow>
                 then_task (call (recorded (JwksRequest ''public_keys'' False))) (\<lambda>_. Finished (Inl JwkBadResponse))))))"

definition fetch_and_store_task :: "'n key_server \<Rightarrow> ('n jwk_service, jwk_error + jwks) task" where
  "fetch_and_store_task K =
     then_task (call note_attempt) (\<lambda>_.
     then_task (public_keys_task K) (\<lambda>x.
       (case x of
          Inl e \<Rightarrow> then_task (call note_failure) (\<lambda>_. Finished (Inl e))
        | Inr ks \<Rightarrow> then_task (call (store_snapshot ks)) (\<lambda>_. Finished (Inr ks)))))"

definition fetch_task :: "'n key_server \<Rightarrow> string \<Rightarrow> ('n jwk_service, jwk_error + jwk) task" where
  "fetch_task K kid =
     then_task (fetch_and_store_task K) (\<lambda>x.
       (case x of
          Inl e \<Rightarrow>
            then_task (call (serve_stale kid)) (\<lambda>y.
              (case y of
                 Some j \<Rightarrow> Finished (Inr j)
               | None \<Rightarrow> then_task (call (recorded (JwksCache ''miss''))) (\<lambda>_. Finished (Inl e))))
        | Inr ks \<Rightarrow>
            then_task (call (recorded (JwksCache ''miss''))) (\<lambda>_.
              Finished (case find_kid kid ks of Some j \<Rightarrow> Inr j | None \<Rightarrow> Inl JwkNotFound))))"

definition throttled_task :: "string \<Rightarrow> ('n jwk_service, (jwk_error + jwk) option) task" where
  "throttled_task kid =
     then_task (call refresh_recently_failed) (\<lambda>failed.
     then_task (if failed then call (serve_stale kid) else Finished None) (\<lambda>y.
       (case y of
          Some j \<Rightarrow> Finished (Some (Inr j))
        | None \<Rightarrow>
            then_task (call cache_is_fresh) (\<lambda>fresh.
              if fresh
              then then_task (call (recorded (JwksCache ''throttled''))) (\<lambda>_. Finished (Some (Inl JwkNotFound)))
              else Finished None))))"

text \<open>\<open>public_key\<close> from the moment the mutex is held.\<close>

definition locked_task :: "'n key_server \<Rightarrow> string \<Rightarrow> ('n jwk_service, jwk_error + jwk) task" where
  "locked_task K kid =
     then_task (call (lookup_fresh kid)) (\<lambda>x.
       (case x of
          Some j \<Rightarrow> then_task (call (recorded (JwksCache ''hit''))) (\<lambda>_. Finished (Inr j))
        | None \<Rightarrow>
            then_task (call allow_refresh_on_miss) (\<lambda>allowed.
              if allowed then fetch_task K kid
              else then_task (throttled_task kid) (\<lambda>y.
                (case y of Some r \<Rightarrow> Finished r | None \<Rightarrow> fetch_task K kid)))))"

text \<open>With nothing in between these steps are the function of the sequential model.\<close>

lemma run_public_keys_task: "run (public_keys_task K) = public_keys K"
  by (simp add: fun_eq_iff public_keys_task_def public_keys_def send_request_def wait_answer_def recorded_def
      split: prod.splits option.splits)

lemma run_fetch_and_store_task: "run (fetch_and_store_task K) = fetch_and_store K"
  by (simp add: fun_eq_iff fetch_and_store_task_def fetch_and_store_def run_public_keys_task note_attempt_def
      note_failure_def store_snapshot_def split: prod.splits sum.splits)

lemma run_fetch_task: "run (fetch_task K kid) = public_key_fetch K kid"
  by (simp add: fun_eq_iff fetch_task_def public_key_fetch_def run_fetch_and_store_task recorded_def
      split: prod.splits sum.splits option.splits)

lemma run_throttled_task: "run (throttled_task kid) = public_key_throttled kid"
  by (auto simp: fun_eq_iff throttled_task_def public_key_throttled_def recorded_def
      split: prod.splits option.splits bool.splits)

lemma locked_task_runs: "run (locked_task K kid) = public_key_locked K kid"
  by (auto simp: fun_eq_iff locked_task_def public_key_locked_def run_fetch_task run_throttled_task recorded_def
      split: prod.splits option.splits bool.splits)

section \<open>The tasks and the mutex\<close>

datatype 'n flight_phase =
    Asking string
  | Waiting string
  | Holding "('n jwk_service, jwk_error + jwk) task"
  | Done "jwk_error + jwk"
  | Dropped

record 'n flight =
  fl_service :: "'n jwk_service"
  fl_lock :: "nat option"
  fl_tasks :: "nat \<Rightarrow> 'n flight_phase"
  fl_dropped :: nat \<comment> \<open>how many were dropped while they held the mutex\<close>

inductive flight_step :: "'n key_server \<Rightarrow> 'n flight \<Rightarrow> 'n flight \<Rightarrow> bool" for K where
  look_hit: "fl_tasks f i = Asking kid \<Longrightarrow> lookup_fresh kid (fl_service f) = (Some j, s1) \<Longrightarrow>
     flight_step K f (f\<lparr>fl_service := record_jwks (JwksCache ''hit'') s1,
                        fl_tasks := (fl_tasks f)(i := Done (Inr j))\<rparr>)"
| look_miss: "fl_tasks f i = Asking kid \<Longrightarrow> lookup_fresh kid (fl_service f) = (None, s1) \<Longrightarrow>
     flight_step K f (f\<lparr>fl_service := s1, fl_tasks := (fl_tasks f)(i := Waiting kid)\<rparr>)"
| acquire: "fl_tasks f i = Waiting kid \<Longrightarrow> fl_lock f = None \<Longrightarrow>
     flight_step K f (f\<lparr>fl_lock := Some i, fl_tasks := (fl_tasks f)(i := Holding (locked_task K kid))\<rparr>)"
| work: "fl_tasks f i = Holding (Pending g) \<Longrightarrow> g (fl_service f) = (t, s1) \<Longrightarrow>
     flight_step K f (f\<lparr>fl_service := s1, fl_tasks := (fl_tasks f)(i := Holding t)\<rparr>)"
| release: "fl_tasks f i = Holding (Finished r) \<Longrightarrow>
     flight_step K f (f\<lparr>fl_lock := None, fl_tasks := (fl_tasks f)(i := Done r)\<rparr>)"
| drop: "fl_tasks f i \<in> {Asking kid, Waiting kid} \<Longrightarrow>
     flight_step K f (f\<lparr>fl_tasks := (fl_tasks f)(i := Dropped)\<rparr>)"
| drop_holder: "fl_tasks f i = Holding t \<Longrightarrow>
     flight_step K f (f\<lparr>fl_lock := None, fl_tasks := (fl_tasks f)(i := Dropped), fl_dropped := Suc (fl_dropped f)\<rparr>)"

inductive flight_reachable :: "'n key_server \<Rightarrow> 'n flight \<Rightarrow> 'n flight \<Rightarrow> bool" for K f0 where
  start: "flight_reachable K f0 f0"
| step: "flight_reachable K f0 f \<Longrightarrow> flight_step K f f' \<Longrightarrow> flight_reachable K f0 f'"

text \<open>At the start every task is about to look, and nobody holds the mutex.\<close>

definition flight_start :: "'n jwk_service \<Rightarrow> (nat \<Rightarrow> string) \<Rightarrow> 'n flight" where
  "flight_start s kids = \<lparr>fl_service = s, fl_lock = None, fl_tasks = \<lambda>i. Asking (kids i), fl_dropped = 0\<rparr>"

definition answer :: "jwks \<Rightarrow> string \<Rightarrow> jwk_error + jwk" where
  "answer ks kid = (case find_kid kid ks of Some j \<Rightarrow> Inr j | None \<Rightarrow> Inl JwkNotFound)"

section \<open>A holder and the others\<close>

text \<open>
  What the others do while one task holds the mutex: they read the clock and record metrics. \<open>alone\<close>
  says that a task, with such steps of the others before each of its own, keeps \<open>P\<close> at every step and
  ends with a result in \<open>Q\<close>.
\<close>

definition beside :: "'n jwk_service \<Rightarrow> 'n jwk_service \<Rightarrow> bool" where
  "beside s s' \<longleftrightarrow> same_service s s' \<and> sv_cache s' = sv_cache s \<and> sv_net s' = sv_net s"

lemma beside_refl [simp]: "beside s s"
  by (simp add: beside_def)

lemma beside_trans: "beside a b \<Longrightarrow> beside b c \<Longrightarrow> beside a c"
  by (auto simp: beside_def intro: same_service_trans)

primrec alone ::
  "('n jwk_service \<Rightarrow> bool) \<Rightarrow> ('a \<Rightarrow> 'n jwk_service \<Rightarrow> bool) \<Rightarrow> ('n jwk_service, 'a) task \<Rightarrow> 'n jwk_service \<Rightarrow> bool" where
  "alone P Q (Finished a) = Q a"
| "alone P Q (Pending f) = (\<lambda>s. \<forall>s1. beside s s1 \<longrightarrow>
     (case map_prod (alone P Q) (\<lambda>s'. s') (f s1) of (rest, s2) \<Rightarrow> P s2 \<and> rest s2))"

lemma alone_pending:
  assumes "\<And>s1 t s2. beside s s1 \<Longrightarrow> f s1 = (t, s2) \<Longrightarrow> P s2 \<and> alone P Q t s2"
  shows "alone P Q (Pending f) s"
proof (simp, intro allI impI)
  fix s1
  assume b: "beside s s1"
  obtain t s2 where f: "f s1 = (t, s2)" by fastforce
  then show "case map_prod (alone P Q) (\<lambda>s'. s') (f s1) of (rest, s2) \<Rightarrow> P s2 \<and> rest s2"
    using assms [OF b f] by simp
qed

lemma alone_step:
  "alone P Q (Pending f) s \<Longrightarrow> f s = (t, s') \<Longrightarrow> P s' \<and> alone P Q t s'"
  by (drule fun_cong [OF alone.simps(2), THEN iffD1]) (metis beside_refl map_prod_simp split_conv)

definition stable :: "('n jwk_service \<Rightarrow> bool) \<Rightarrow> bool" where
  "stable A \<longleftrightarrow> (\<forall>s s'. A s \<longrightarrow> beside s s' \<longrightarrow> A s')"

lemma alone_beside:
  assumes "\<And>a. stable (Q a)"
  shows "alone P Q t s \<Longrightarrow> beside s s' \<Longrightarrow> alone P Q t s'"
  using assms by (cases t) (auto simp: stable_def intro: beside_trans)

lemma alone_call:
  fixes f :: "'n jwk_service \<Rightarrow> 'a \<times> 'n jwk_service"
  assumes "A s" and "stable A" and "\<And>s x s'. A s \<Longrightarrow> f s = (x, s') \<Longrightarrow> P s' \<and> Q x s'"
  shows "alone P Q (call f) s"
  unfolding call_def
proof (rule alone_pending)
  fix s1 s2 and t :: "('n jwk_service, 'a) task"
  assume "beside s s1" and c: "(case f s1 of (x, w') \<Rightarrow> (Finished x, w')) = (t, s2)"
  then have "A s1" using assms(1,2) unfolding stable_def by blast
  then show "P s2 \<and> alone P Q t s2" using c assms(3) by (auto split: prod.splits)
qed

lemma alone_then:
  assumes "alone P B t s" and "\<And>x s. B x s \<Longrightarrow> alone P Q (k x) s"
  shows "alone P Q (then_task t k) s"
  using assms(1)
proof (induction t arbitrary: s)
  case (Finished x)
  then show ?case using assms(2) by simp
next
  case (Pending f)
  show ?case
    unfolding then_task.simps
  proof (rule alone_pending)
    fix s1 t s2
    assume b: "beside s s1" and m: "map_prod (\<lambda>t. then_task t k) (\<lambda>w'. w') (f s1) = (t, s2)"
    then obtain t' where f: "f s1 = (t', s2)" and t: "t = then_task t' k" by (cases "f s1") auto
    have r: "(t', s2) \<in> range f" using f by (metis rangeI)
    have "alone P B (Pending f) s1"
      using Pending.prems b by (auto intro: beside_trans)
    then have "P s2 \<and> alone P B t' s2" using f by (rule alone_step)
    then show "P s2 \<and> alone P Q t s2" using Pending.IH [OF r, of t'] t by simp
  qed
qed

lemmas alone_call_then = alone_then [OF alone_call]

section \<open>The window\<close>

text \<open>
  The window of the claim: the clock moves less than the TTL and less than the miss interval between
  any two readings, and the key service answers with \<open>ks\<close> and counts its requests.
\<close>

definition short_window :: "'n jwk_service \<Rightarrow> bool" where
  "short_window s \<longleftrightarrow> (\<forall>i k. sv_clk s i - sv_clk s k < sv_cache_ttl s \<and>
     sv_clk s i - sv_clk s k < sv_miss_refresh_interval s)"

definition counts :: "nat key_server \<Rightarrow> jwks \<Rightarrow> bool" where
  "counts K ks \<longleftrightarrow> (\<exists>r. kn_jwks_of K (hr_body r) = Some ks \<and> (\<forall>u n. kn_get K u n = (Some r, Suc n)))"

definition cold :: "nat jwk_service \<Rightarrow> bool" where
  "cold s \<longleftrightarrow> cs_entry (sv_cache s) = None \<and> cs_last_attempt (sv_cache s) = None \<and>
     cs_last_failure (sv_cache s) = None \<and> sv_net s = 0"

text \<open>
  What holds at every moment, \<open>d\<close> holders having been dropped so far; what holds while nobody has
  the mutex; and the two states a holder can find: no snapshot, or a snapshot without its key.
\<close>

definition valid :: "jwks \<Rightarrow> nat \<Rightarrow> nat jwk_service \<Rightarrow> bool" where
  "valid ks d s \<longleftrightarrow> short_window s \<and> cs_last_failure (sv_cache s) = None \<and> sv_net s \<le> Suc d \<and>
     (\<forall>t. cs_last_attempt (sv_cache s) = Some t \<longrightarrow> t \<in> range (sv_clk s)) \<and>
     (\<forall>k at. cs_entry (sv_cache s) = Some (k, at) \<longrightarrow>
        k = ks \<and> at \<in> range (sv_clk s) \<and> cs_last_attempt (sv_cache s) \<noteq> None)"

definition idle :: "jwks \<Rightarrow> nat \<Rightarrow> nat jwk_service \<Rightarrow> bool" where
  "idle ks d s \<longleftrightarrow> valid ks d s \<and> (cs_entry (sv_cache s) = None \<longrightarrow> sv_net s \<le> d)"

definition missing :: "jwks \<Rightarrow> nat \<Rightarrow> nat jwk_service \<Rightarrow> bool" where
  "missing ks d s \<longleftrightarrow> idle ks d s \<and> cs_entry (sv_cache s) = None"

definition unknown :: "jwks \<Rightarrow> nat \<Rightarrow> string \<Rightarrow> nat jwk_service \<Rightarrow> bool" where
  "unknown ks d kid s \<longleftrightarrow> idle ks d s \<and> (cs_entry (sv_cache s) = None \<or> find_kid kid ks = None)"

definition noted :: "jwks \<Rightarrow> nat \<Rightarrow> nat jwk_service \<Rightarrow> bool" where
  "noted ks d s \<longleftrightarrow> missing ks d s \<and> cs_last_attempt (sv_cache s) \<noteq> None"

definition sent :: "jwks \<Rightarrow> nat \<Rightarrow> nat jwk_service \<Rightarrow> bool" where
  "sent ks d s \<longleftrightarrow> valid ks d s \<and> cs_entry (sv_cache s) = None \<and> cs_last_attempt (sv_cache s) \<noteq> None"

lemmas flight_states = valid_def idle_def missing_def unknown_def noted_def sent_def

lemma states_valid:
  "idle ks d s \<Longrightarrow> valid ks d s" "missing ks d s \<Longrightarrow> idle ks d s" "unknown ks d kid s \<Longrightarrow> idle ks d s"
  "noted ks d s \<Longrightarrow> missing ks d s" "sent ks d s \<Longrightarrow> valid ks d s"
  by (simp_all add: idle_def missing_def unknown_def noted_def sent_def)

lemma short_window_same: "short_window s \<Longrightarrow> same_service s s1 \<Longrightarrow> short_window s1"
  by (simp add: short_window_def same_service_def)

lemma stable_states [intro!, simp]:
  "stable (valid ks d)" "stable (idle ks d)" "stable (missing ks d)" "stable (unknown ks d kid)"
  "stable (noted ks d)" "stable (sent ks d)"
  by (auto simp: stable_def beside_def flight_states same_service_def short_window_def)

lemma stable_and [intro!]: "stable A \<Longrightarrow> stable (\<lambda>s. p \<and> A s)"
  by (auto simp: stable_def)

text \<open>A snapshot of the window is fresh, and a remembered attempt recent.\<close>

lemma window_fresh:
  "valid ks d s \<Longrightarrow> cs_entry (sv_cache s) = Some (k, at) \<Longrightarrow> k = ks \<and> sv_clk s i - at < sv_cache_ttl s"
  by (auto simp: valid_def short_window_def)

lemma window_recent:
  "valid ks d s \<Longrightarrow> cs_last_attempt (sv_cache s) = Some t \<Longrightarrow> sv_clk s i - t < sv_miss_refresh_interval s"
  by (auto simp: valid_def short_window_def)

lemma window_lookup:
  assumes "valid ks d s" and "lookup_fresh kid s = (x, s1)"
  shows "beside s s1 \<and> x = (if cs_entry (sv_cache s) = None then None else find_kid kid ks)"
proof -
  have "lookup_fresh_at s now kid = (if cs_entry (sv_cache s) = None then None else find_kid kid ks)"
    if "now = sv_clk s i" for now i
    using window_fresh [OF assms(1), of _ _ i] that
    by (auto simp: lookup_fresh_at_def not_le split: option.splits)
  then show ?thesis
    using assms(2) lookup_fresh_state [OF assms(2)] by (auto simp: beside_def lookup_fresh_def step_simps)
qed

lemma recorded_state [simp]:
  "P (snd (recorded m s)) = P (record_jwks m s)" "fst (recorded m s) = ()"
  by (simp_all add: recorded_def)

lemma beside_record [simp]: "beside s (record_jwks m s)"
  by (simp add: beside_def record_jwks_def same_service_def)

lemma alone_recorded:
  assumes "A s" and "stable A" and "\<And>s. A s \<Longrightarrow> P s" and "\<And>s. A s \<Longrightarrow> Q v s"
  shows "alone P Q (then_task (call (recorded m)) (\<lambda>_. Finished v)) s"
  by (rule alone_call_then [where A = A and B = "\<lambda>_. A", OF assms(1,2)])
    (use assms(2-) beside_record in \<open>auto simp: recorded_def stable_def\<close>)

section \<open>A holder in the window\<close>

text \<open>The critical sections, each from the state it finds.\<close>

lemma note_attempt_noted: "missing ks d s \<Longrightarrow> note_attempt s = (x, s') \<Longrightarrow> noted ks d s'"
  by (auto simp: note_attempt_def step_simps flight_states short_window_def)

lemma send_request_sent:
  assumes "noted ks d s" and "kn_get K (sv_url s @ ''/.well-known/jwks.json'') (sv_net s) = (Some a, Suc (sv_net s))"
    and "send_request K s = (x, s')"
  shows "x = Some a \<and> sent ks d s'"
  using assms by (auto simp: send_request_def flight_states short_window_def)

lemma store_snapshot_idle: "sent ks d s \<Longrightarrow> store_snapshot ks s = (x, s') \<Longrightarrow> idle ks d s'"
  by (auto simp: store_snapshot_def step_simps flight_states short_window_def)

lemma allow_refresh_window:
  assumes "unknown ks d kid s" and "allow_refresh_on_miss s = (b, s')"
  shows "if b then missing ks d s' else unknown ks d kid s'"
proof -
  note v = states_valid(1) [OF states_valid(3) [OF assms(1)]]
  have "cs_entry (sv_cache s) = None" if b
  proof (rule ccontr)
    assume "cs_entry (sv_cache s) \<noteq> None"
    then obtain t where "cs_last_attempt (sv_cache s) = Some t" using v by (auto simp: valid_def)
    then have "\<not> b" using assms(2) window_recent [OF v]
      by (simp add: allow_refresh_on_miss_def step_simps recently_def)
    then show False using that by simp
  qed
  then show ?thesis
    using assms by (auto simp: allow_refresh_on_miss_def step_simps flight_states short_window_def split: if_splits)
qed

lemma recently_failed_window:
  "valid ks d s \<Longrightarrow> refresh_recently_failed s = (b, s') \<Longrightarrow> \<not> b \<and> beside s s'"
  by (auto simp: refresh_recently_failed_def step_simps valid_def recently_def beside_def same_service_def)

lemma cache_is_fresh_window:
  assumes "valid ks d s" and "cache_is_fresh s = (b, s')"
  shows "beside s s' \<and> (b \<longleftrightarrow> cs_entry (sv_cache s) \<noteq> None)"
  using assms(2) window_fresh [OF assms(1), of _ _ "sv_tick s"] cache_is_fresh_state [OF assms(2)]
  by (auto simp: cache_is_fresh_def cache_is_fresh_at_def step_simps beside_def split: option.splits)

lemma stable_beside: "stable A \<Longrightarrow> A s \<Longrightarrow> beside s s' \<Longrightarrow> A s'"
  by (auto simp: stable_def)

text \<open>The trip to the network of a holder that found no snapshot.\<close>

lemma alone_public_keys:
  assumes "counts K ks" and "noted ks d s"
  shows "alone (valid ks d) (\<lambda>x s. x = Inr ks \<and> sent ks d s) (public_keys_task K) s"
proof -
  obtain a where a: "kn_jwks_of K (hr_body a) = Some ks" "\<And>u n. kn_get K u n = (Some a, Suc n)"
    using assms(1) by (auto simp: counts_def)
  show ?thesis
    unfolding public_keys_task_def
  proof (rule alone_call_then [where A = "noted ks d" and B = "\<lambda>x s. x = Some a \<and> sent ks d s", OF assms(2)])
    show "valid ks d s' \<and> x = Some a \<and> sent ks d s'" if "noted ks d s" "send_request K s = (x, s')" for s x s'
      using send_request_sent [OF that(1) a(2) that(2)] states_valid by blast
    fix x s assume x: "x = Some a \<and> sent ks d s"
    show "alone (valid ks d) (\<lambda>x s. x = Inr ks \<and> sent ks d s)
       (then_task (call wait_answer) (\<lambda>_. case x of
          None \<Rightarrow> then_task (call (recorded (JwksRequest ''public_keys'' False))) (\<lambda>_. Finished (Inl JwkBadConnection))
        | Some r \<Rightarrow> (case kn_jwks_of K (hr_body r) of
               Some v \<Rightarrow> then_task (call (recorded (JwksRequest ''public_keys'' True))) (\<lambda>_. Finished (Inr v))
             | None \<Rightarrow> then_task (call (recorded (JwksRequest ''public_keys'' False))) (\<lambda>_. Finished (Inl JwkBadResponse))))) s"
    proof (rule alone_call_then [where A = "sent ks d" and B = "\<lambda>_. sent ks d", OF conjunct2 [OF x]])
      show "valid ks d s' \<and> sent ks d s'" if "sent ks d s" "wait_answer s = (u, s')" for s u s'
        using that states_valid by (auto simp: wait_answer_def)
    qed (use x a(1) states_valid in \<open>auto intro!: alone_recorded [where A = "sent ks d"]\<close>)
  qed simp
qed

lemma alone_fetch_and_store:
  assumes "counts K ks" and "missing ks d s"
  shows "alone (valid ks d) (\<lambda>x s. x = Inr ks \<and> idle ks d s) (fetch_and_store_task K) s"
  unfolding fetch_and_store_task_def
proof (rule alone_call_then [where A = "missing ks d" and B = "\<lambda>_. noted ks d", OF assms(2)])
  show "valid ks d s' \<and> noted ks d s'" if "missing ks d s" "note_attempt s = (u, s')" for s u s'
    using note_attempt_noted [OF that] states_valid by blast
  fix s assume n: "noted ks d s"
  show "alone (valid ks d) (\<lambda>x s. x = Inr ks \<and> idle ks d s)
     (then_task (public_keys_task K) (\<lambda>x. case x of
        Inl e \<Rightarrow> then_task (call note_failure) (\<lambda>_. Finished (Inl e))
      | Inr ks \<Rightarrow> then_task (call (store_snapshot ks)) (\<lambda>_. Finished (Inr ks)))) s"
  proof (rule alone_then [OF alone_public_keys [OF assms(1) n]])
    fix x s assume x: "x = Inr ks \<and> sent ks d s"
    have "alone (valid ks d) (\<lambda>x s. x = Inr ks \<and> idle ks d s)
       (then_task (call (store_snapshot ks)) (\<lambda>_. Finished (Inr ks))) s"
    proof (rule alone_call_then [where A = "sent ks d" and B = "\<lambda>_. idle ks d", OF conjunct2 [OF x]])
      show "valid ks d s' \<and> idle ks d s'" if "sent ks d s" "store_snapshot ks s = (u, s')" for s u s'
        using store_snapshot_idle [OF that] states_valid by blast
    qed simp_all
    then show "alone (valid ks d) (\<lambda>x s. x = Inr ks \<and> idle ks d s)
       (case x of Inl e \<Rightarrow> then_task (call note_failure) (\<lambda>_. Finished (Inl e))
        | Inr ks \<Rightarrow> then_task (call (store_snapshot ks)) (\<lambda>_. Finished (Inr ks))) s"
      using x by simp
  qed
qed simp

lemma alone_fetch:
  assumes "counts K ks" and "missing ks d s"
  shows "alone (valid ks d) (\<lambda>r s. r = answer ks kid \<and> idle ks d s) (fetch_task K kid) s"
  unfolding fetch_task_def
  by (rule alone_then [OF alone_fetch_and_store [OF assms]])
    (auto simp: answer_def states_valid intro!: alone_recorded [where A = "idle ks d"])

lemma alone_throttled:
  assumes "unknown ks d kid s"
  shows "alone (valid ks d) (\<lambda>y s. case y of Some r \<Rightarrow> r = answer ks kid \<and> idle ks d s | None \<Rightarrow> missing ks d s)
     (throttled_task kid) s" (is "alone _ ?Q _ _")
  unfolding throttled_task_def
proof (rule alone_call_then [where A = "unknown ks d kid" and B = "\<lambda>failed s. \<not> failed \<and> unknown ks d kid s", OF assms])
  note v = states_valid(1) [OF states_valid(3)]
  show "valid ks d s' \<and> \<not> b \<and> unknown ks d kid s'" if "unknown ks d kid s" "refresh_recently_failed s = (b, s')" for s b s'
    using recently_failed_window [OF v [OF that(1)] that(2)] that(1) stable_beside [OF stable_states(4)] v by blast
  fix failed and s :: "nat jwk_service" assume f: "\<not> failed \<and> unknown ks d kid s"
  have "alone (valid ks d) ?Q
     (then_task (call cache_is_fresh) (\<lambda>fresh.
        if fresh then then_task (call (recorded (JwksCache ''throttled''))) (\<lambda>_. Finished (Some (Inl JwkNotFound)))
        else Finished None)) s"
  proof (rule alone_call_then [where A = "unknown ks d kid" and
        B = "\<lambda>fresh s. unknown ks d kid s \<and> (fresh \<longleftrightarrow> cs_entry (sv_cache s) \<noteq> None)", OF conjunct2 [OF f]])
    show "valid ks d s' \<and> unknown ks d kid s' \<and> (b \<longleftrightarrow> cs_entry (sv_cache s') \<noteq> None)"
      if "unknown ks d kid s" "cache_is_fresh s = (b, s')" for s b s'
      using cache_is_fresh_window [OF v [OF that(1)] that(2)] that(1) stable_beside [OF stable_states(4)] v
      by (metis beside_def)
    fix fresh and s :: "nat jwk_service" assume u: "unknown ks d kid s \<and> (fresh \<longleftrightarrow> cs_entry (sv_cache s) \<noteq> None)"
    then have "fresh \<Longrightarrow> find_kid kid ks = None" by (auto simp: unknown_def)
    then show "alone (valid ks d) ?Q
       (if fresh then then_task (call (recorded (JwksCache ''throttled''))) (\<lambda>_. Finished (Some (Inl JwkNotFound)))
        else Finished None) s"
      using u states_valid
      by (auto simp: answer_def missing_def intro!: alone_recorded [where A = "idle ks d"])
  qed simp
  then show "alone (valid ks d) ?Q
     (then_task (if failed then call (serve_stale kid) else Finished None)
       (\<lambda>y. case y of Some j \<Rightarrow> Finished (Some (Inr j))
        | None \<Rightarrow> then_task (call cache_is_fresh) (\<lambda>fresh.
            if fresh then then_task (call (recorded (JwksCache ''throttled''))) (\<lambda>_. Finished (Some (Inl JwkNotFound)))
            else Finished None))) s"
    using f by simp
qed simp

text \<open>A holder from its look on: it makes a request only if there is no snapshot, and has the answer of the set.\<close>

lemma alone_locked:
  assumes k: "counts K ks" and "idle ks d s"
  shows "alone (valid ks d) (\<lambda>r s. r = answer ks kid \<and> idle ks d s) (locked_task K kid) s" (is "alone _ ?Q _ _")
  unfolding locked_task_def
proof (rule alone_call_then [where A = "idle ks d" and
      B = "\<lambda>x s. (case x of Some j \<Rightarrow> Inr j = answer ks kid \<and> idle ks d s | None \<Rightarrow> unknown ks d kid s)", OF assms(2)])
  show "valid ks d s' \<and> (case x of Some j \<Rightarrow> Inr j = answer ks kid \<and> idle ks d s' | None \<Rightarrow> unknown ks d kid s')"
    if i: "idle ks d s" and l: "lookup_fresh kid s = (x, s')" for s x s'
  proof -
    note w = window_lookup [OF states_valid(1) [OF i] l]
    have "idle ks d s'" by (rule stable_beside [OF stable_states(2) i conjunct1 [OF w]])
    then show ?thesis
      using w states_valid by (auto simp: answer_def unknown_def beside_def split: option.splits if_splits)
  qed
  fix x s assume x: "case x of Some j \<Rightarrow> Inr j = answer ks kid \<and> idle ks d s | None \<Rightarrow> unknown ks d kid s"
  show "alone (valid ks d) ?Q
     (case x of Some j \<Rightarrow> then_task (call (recorded (JwksCache ''hit''))) (\<lambda>_. Finished (Inr j))
      | None \<Rightarrow> then_task (call allow_refresh_on_miss) (\<lambda>allowed.
          if allowed then fetch_task K kid
          else then_task (throttled_task kid) (\<lambda>y. case y of Some r \<Rightarrow> Finished r | None \<Rightarrow> fetch_task K kid))) s"
  proof (cases x)
    case (Some j)
    then show ?thesis using x states_valid by (auto intro!: alone_recorded [where A = "idle ks d"])
  next
    case None
    then have u: "unknown ks d kid s" using x by simp
    have "alone (valid ks d) ?Q (then_task (call allow_refresh_on_miss) (\<lambda>allowed.
        if allowed then fetch_task K kid
        else then_task (throttled_task kid) (\<lambda>y. case y of Some r \<Rightarrow> Finished r | None \<Rightarrow> fetch_task K kid))) s"
    proof (rule alone_call_then [where A = "unknown ks d kid" and
          B = "\<lambda>b s. if b then missing ks d s else unknown ks d kid s", OF u])
      show "valid ks d s' \<and> (if b then missing ks d s' else unknown ks d kid s')"
        if "unknown ks d kid s" "allow_refresh_on_miss s = (b, s')" for s b s'
        using allow_refresh_window [OF that] states_valid by (auto split: if_splits)
      fix b and s :: "nat jwk_service" assume b: "if b then missing ks d s else unknown ks d kid s"
      show "alone (valid ks d) ?Q (if b then fetch_task K kid
          else then_task (throttled_task kid) (\<lambda>y. case y of Some r \<Rightarrow> Finished r | None \<Rightarrow> fetch_task K kid)) s"
      proof (cases b)
        case True
        then show ?thesis using b alone_fetch [OF k] by simp
      next
        case False
        then have "unknown ks d kid s" using b by simp
        then have "alone (valid ks d) ?Q
            (then_task (throttled_task kid) (\<lambda>y. case y of Some r \<Rightarrow> Finished r | None \<Rightarrow> fetch_task K kid)) s"
          by (rule alone_then [OF alone_throttled]) (auto split: option.splits intro: alone_fetch [OF k])
        then show ?thesis using False by simp
      qed
    qed simp
    then show ?thesis using None by simp
  qed
qed simp

section \<open>One flight\<close>

text \<open>
  Each task keeps its own identifier and a finished one has the answer for it; only the owner of the
  mutex is inside, and it runs beside the others.
\<close>

definition task_ok :: "jwks \<Rightarrow> nat flight \<Rightarrow> string \<Rightarrow> nat \<Rightarrow> bool" where
  "task_ok ks f kid i \<longleftrightarrow>
     (case fl_tasks f i of
        Asking k \<Rightarrow> k = kid
      | Waiting k \<Rightarrow> k = kid
      | Holding t \<Rightarrow> fl_lock f = Some i \<and>
          alone (valid ks (fl_dropped f)) (\<lambda>r s. r = answer ks kid \<and> idle ks (fl_dropped f) s) t (fl_service f)
      | Done r \<Rightarrow> r = answer ks kid
      | Dropped \<Rightarrow> True)"

definition flight_inv :: "jwks \<Rightarrow> (nat \<Rightarrow> string) \<Rightarrow> nat flight \<Rightarrow> bool" where
  "flight_inv ks kids f \<longleftrightarrow> valid ks (fl_dropped f) (fl_service f) \<and>
     (fl_lock f = None \<longrightarrow> idle ks (fl_dropped f) (fl_service f)) \<and> (\<forall>i. task_ok ks f (kids i) i)"

lemma inv_task: "flight_inv ks kids f \<Longrightarrow> task_ok ks f (kids i) i"
  by (simp add: flight_inv_def)

text \<open>A step of a task that is not inside, which leaves the cache and the mutex alone.\<close>

lemma outside_inv:
  assumes inv: "flight_inv ks kids f" and b: "beside (fl_service f) s1"
    and out: "\<forall>t. fl_tasks f i \<noteq> Holding t" and new: "new \<in> {Waiting (kids i), Done (answer ks (kids i)), Dropped}"
  shows "flight_inv ks kids (f\<lparr>fl_service := s1, fl_tasks := (fl_tasks f)(i := new)\<rparr>)"
proof -
  have "task_ok ks (f\<lparr>fl_service := s1, fl_tasks := (fl_tasks f)(i := new)\<rparr>) (kids k) k" for k
  proof (cases "k = i")
    case True
    then show ?thesis using new by (auto simp: task_ok_def)
  next
    case False
    have "stable (\<lambda>s. r = answer ks (kids k) \<and> idle ks (fl_dropped f) s)" for r by (rule stable_and) simp
    from alone_beside [where Q = "\<lambda>r s. r = answer ks (kids k) \<and> idle ks (fl_dropped f) s", OF this _ b]
    show ?thesis
      using False inv_task [OF inv, of k] by (auto simp: task_ok_def split: flight_phase.splits)
  qed
  then show ?thesis
    using inv stable_beside [OF stable_states(1) _ b] stable_beside [OF stable_states(2) _ b]
    by (simp add: flight_inv_def)
qed

text \<open>A step of the task inside: by the mutex it is the only one.\<close>

lemma inside_inv:
  assumes inv: "flight_inv ks kids f" and h: "fl_tasks f i = Holding t"
    and f': "fl_tasks f' = (fl_tasks f)(i := new)"
    and new: "task_ok ks f' (kids i) i" and v: "valid ks (fl_dropped f') (fl_service f')"
    and free: "fl_lock f' = None \<longrightarrow> idle ks (fl_dropped f') (fl_service f')"
  shows "flight_inv ks kids f'"
proof -
  have i: "fl_lock f = Some i" using inv_task [OF inv, of i] h by (simp add: task_ok_def)
  have "task_ok ks f' (kids k) k" for k
  proof (cases "k = i")
    case False
    then show ?thesis
      using inv_task [OF inv, of k] i by (auto simp: task_ok_def f' split: flight_phase.splits)
  qed (use new in simp)
  then show ?thesis using v free by (simp add: flight_inv_def)
qed

lemma flight_step_inv:
  assumes "flight_step K f f'" and inv: "flight_inv ks kids f" and k: "counts K ks"
  shows "flight_inv ks kids f'"
  using assms(1)
proof cases
  case (look_hit i kid j s1)
  have v: "valid ks (fl_dropped f) (fl_service f)" using inv by (simp add: flight_inv_def)
  note w = window_lookup [OF v look_hit(3)]
  have "kid = kids i" using inv_task [OF inv, of i] look_hit(2) by (simp add: task_ok_def)
  then have "Inr j = answer ks (kids i)" using w by (simp add: answer_def split: if_splits) (metis option.simps(5))
  moreover have "beside (fl_service f) (record_jwks (JwksCache ''hit'') s1)"
    using beside_trans [OF conjunct1 [OF w] beside_record] .
  ultimately show ?thesis unfolding look_hit(1) by (intro outside_inv [OF inv]) (simp_all add: look_hit(2))
next
  case (look_miss i kid s1)
  have v: "valid ks (fl_dropped f) (fl_service f)" using inv by (simp add: flight_inv_def)
  have "kid = kids i" using inv_task [OF inv, of i] look_miss(2) by (simp add: task_ok_def)
  then show ?thesis
    unfolding look_miss(1)
    by (intro outside_inv [OF inv conjunct1 [OF window_lookup [OF v look_miss(3)]]]) (simp_all add: look_miss(2))
next
  case (acquire i kid)
  have kid: "kid = kids i" using inv_task [OF inv, of i] acquire(2) by (simp add: task_ok_def)
  have d: "idle ks (fl_dropped f) (fl_service f)" using inv acquire(3) by (simp add: flight_inv_def)
  have "task_ok ks f' (kids j) j" for j
    using inv_task [OF inv, of j] acquire(3) alone_locked [OF k d, of kid] kid
    by (auto simp: acquire(1) task_ok_def split: flight_phase.splits)
  then show ?thesis using inv by (simp add: flight_inv_def acquire(1))
next
  case (work i g t s1)
  have h: "fl_lock f = Some i"
    "alone (valid ks (fl_dropped f)) (\<lambda>r s. r = answer ks (kids i) \<and> idle ks (fl_dropped f) s) (Pending g) (fl_service f)"
    using inv_task [OF inv, of i] work(2) by (simp_all add: task_ok_def)
  show ?thesis
    by (rule inside_inv [OF inv work(2), where new = "Holding t"])
      (use alone_step [OF h(2) work(3)] h(1) in \<open>simp_all add: work(1) task_ok_def\<close>)
next
  case (release i r)
  have "r = answer ks (kids i) \<and> idle ks (fl_dropped f) (fl_service f)"
    using inv_task [OF inv, of i] release(2) by (simp add: task_ok_def)
  then show ?thesis
    by (intro inside_inv [OF inv release(2), where new = "Done r"])
      (simp_all add: release(1) task_ok_def states_valid)
next
  case (drop i kid)
  show ?thesis
    using outside_inv [OF inv beside_refl, of i Dropped] drop by auto
next
  case (drop_holder i t)
  have "valid ks (fl_dropped f) (fl_service f)" using inv by (simp add: flight_inv_def)
  then have "idle ks (Suc (fl_dropped f)) (fl_service f)" by (auto simp: idle_def valid_def)
  then show ?thesis
    by (intro inside_inv [OF inv drop_holder(2), where new = Dropped])
      (simp_all add: drop_holder(1) task_ok_def states_valid)
qed


section \<open>Witness\<close>

text \<open>
  Two tasks miss; the first takes the mutex, sends its request and waits for the answer, while the second
  waits for the mutex.
\<close>

definition demo_window :: "nat jwk_service" where
  "demo_window = demo_cold\<lparr>sv_clk := \<lambda>_. 0\<rparr>"

lemma demo_window_fields:
  "sv_cache demo_window = \<lparr>cs_entry = None, cs_last_attempt = None, cs_last_failure = None\<rparr>"
  "sv_clk demo_window = (\<lambda>_. 0)" "sv_net demo_window = 0" "sv_tick demo_window = 0"
  "sv_cache_ttl demo_window = 300000000000" "sv_miss_refresh_interval demo_window = 10000000000"
  by (simp_all add: demo_window_def demo_defs duration_from_secs_def nanos_per_sec_def)

definition demo_flight :: "nat flight" where
  "demo_flight =
     \<lparr>fl_service = demo_window\<lparr>sv_tick := 2\<rparr>, fl_lock = Some 0,
      fl_tasks = (\<lambda>_. Asking ''k1'')(0 := Waiting ''k1'', 1 := Waiting ''k1'', 0 := Holding (locked_task demo_up ''k1'')),
      fl_dropped = 0\<rparr>"

lemma demo_flight_reachable: "flight_reachable demo_up (flight_start demo_window (\<lambda>_. ''k1'')) demo_flight"
proof -
  define ts :: "nat \<Rightarrow> nat flight_phase" where "ts = (\<lambda>_. Asking ''k1'')"
  let ?at = "\<lambda>n l ts. \<lparr>fl_service = demo_window\<lparr>sv_tick := n\<rparr>, fl_lock = l, fl_tasks = ts, fl_dropped = 0\<rparr>"
  have m: "lookup_fresh ''k1'' (demo_window\<lparr>sv_tick := n\<rparr>) = (None, demo_window\<lparr>sv_tick := Suc n\<rparr>)" for n
    by (simp add: lookup_fresh_def step_simps lookup_fresh_at_def demo_window_fields)
  have "demo_window\<lparr>sv_tick := 0\<rparr> = demo_window" by (simp add: demo_window_def demo_defs)
  then have z: "flight_start demo_window (\<lambda>_. ''k1'') = ?at 0 None ts" by (simp add: flight_start_def ts_def)
  have "flight_step demo_up (?at 0 None ts) (?at 1 None (ts(0 := Waiting ''k1'')))"
    using look_miss [of "?at 0 None ts" 0 "''k1''" _ demo_up] m [of 0] by (simp add: ts_def)
  moreover have "flight_step demo_up (?at 1 None (ts(0 := Waiting ''k1''))) (?at 2 None (ts(0 := Waiting ''k1'', 1 := Waiting ''k1'')))"
    using look_miss [of "?at 1 None (ts(0 := Waiting ''k1''))" 1 "''k1''" _ demo_up] m [of 1]
    by (simp add: ts_def numeral_2_eq_2)
  moreover have "flight_step demo_up (?at 2 None (ts(0 := Waiting ''k1'', 1 := Waiting ''k1''))) demo_flight"
    using acquire [of "?at 2 None (ts(0 := Waiting ''k1'', 1 := Waiting ''k1''))" 0 "''k1''" demo_up]
    by (simp add: ts_def demo_flight_def)
  ultimately show ?thesis unfolding z by (metis flight_reachable.intros)
qed

text \<open>Some steps of tasks inside, in the order given.\<close>

fun work_steps :: "nat list \<Rightarrow> 'n flight \<Rightarrow> 'n flight" where
  "work_steps [] f = f"
| "work_steps (i # is) f =
     (case fl_tasks f i of
        Holding (Pending g) \<Rightarrow>
          (case g (fl_service f) of
             (t, s1) \<Rightarrow> work_steps is (f\<lparr>fl_service := s1, fl_tasks := (fl_tasks f)(i := Holding t)\<rparr>))
      | _ \<Rightarrow> f)"

lemma work_steps_reachable: "flight_reachable K f0 f \<Longrightarrow> flight_reachable K f0 (work_steps is f)"
proof (induction "is" arbitrary: f)
  case (Cons i "is")
  show ?case
  proof (cases "\<exists>g. fl_tasks f i = Holding (Pending g)")
    case True
    then obtain g where g: "fl_tasks f i = Holding (Pending g)" by blast
    obtain t s1 where "g (fl_service f) = (t, s1)" by fastforce
    then show ?thesis using Cons flight_reachable.step [OF Cons.prems work [OF g]] g by simp
  next
    case False
    then show ?thesis using Cons.prems by (auto split: flight_phase.splits task.splits)
  qed
qed simp

lemma demo_flight_sent: "sv_net (fl_service (work_steps [0, 0, 0, 0] demo_flight)) = 1"
proof -
  have l: "lookup_fresh ''k1'' (demo_window\<lparr>sv_tick := 2\<rparr>) = (None, demo_window\<lparr>sv_tick := 3\<rparr>)"
    by (simp add: lookup_fresh_def step_simps lookup_fresh_at_def demo_window_fields)
  have a: "\<exists>s. allow_refresh_on_miss (demo_window\<lparr>sv_tick := 3\<rparr>) = (True, s) \<and> sv_net s = 0"
    by (simp add: allow_refresh_on_miss_def step_simps recently_def demo_window_fields)
  have n: "\<exists>s'. note_attempt s = ((), s') \<and> sv_net s' = sv_net s" for s :: "nat jwk_service"
    by (simp add: note_attempt_def step_simps)
  have r: "\<exists>x s'. send_request demo_up s = (x, s') \<and> sv_net s' = Suc (sv_net s)" for s
    by (simp add: send_request_def demo_up_def)
  obtain s1 s2 x s3 where st: "allow_refresh_on_miss (demo_window\<lparr>sv_tick := 3\<rparr>) = (True, s1)"
    "note_attempt s1 = ((), s2)" "send_request demo_up s2 = (x, s3)" "sv_net s3 = 1"
    using a n r by (metis One_nat_def)
  show ?thesis
    by (simp add: demo_flight_def locked_task_def call_def l st fetch_task_def fetch_and_store_task_def public_keys_task_def)
qed


end
