(* ===== verification/Key_Manager.thy ===== *)
theory Key_Manager
  imports Jwk_Cache
begin

text \<open>
  The key manager (\<open>src/key.rs\<close>): the private key for signing, reused through
  \<open>current_key_id\<close>, and the public keys for verification, rebuilt from the components of a JWK.

  OpenSSL and the base64 crate are foreign: the calls the manager makes are a dictionary over the
  types of big numbers \<open>'b\<close>, curve groups \<open>'g\<close>, public keys \<open>'p\<close> and private keys \<open>'k\<close>. \<open>None\<close> is
  a call that failed. \<open>cr_ec_public\<close> stands for the chain from \<open>BigNumContext::new\<close> to
  \<open>PKey::from_ec_key\<close>, whose failures all become \<open>InvalidKey\<close>.
\<close>

datatype curve = Prime256v1 | Secp384r1 | Secp521r1

datatype eddsa_id = Ed25519 | Ed448

datatype digest = Sha256 | Sha384 | Sha512 | NoDigest

record ('b, 'g, 'p, 'k) crypto =
  cr_b64_encode :: "string \<Rightarrow> string"
  cr_b64_decode :: "string \<Rightarrow> string option"
  cr_bignum :: "string \<Rightarrow> 'b option"
  cr_rsa_public :: "'b \<Rightarrow> 'b \<Rightarrow> 'p option"
  cr_ec_group :: "curve \<Rightarrow> 'g option"
  cr_ec_public :: "'g \<Rightarrow> 'b \<Rightarrow> 'b \<Rightarrow> 'p option"
  cr_raw_public :: "string \<Rightarrow> eddsa_id \<Rightarrow> 'p option"
  cr_pkcs8 :: "string \<Rightarrow> 'k option"
  cr_sign :: "digest \<Rightarrow> 'k \<Rightarrow> string \<Rightarrow> string option"
  cr_verify :: "digest \<Rightarrow> 'p \<Rightarrow> string \<Rightarrow> string \<Rightarrow> bool option"

definition SUPPORTED_ALGORITHMS :: "string list" where
  "SUPPORTED_ALGORITHMS =
     [''RS256'', ''RS384'', ''RS512'', ''ES256'', ''ES384'', ''ES512'', ''EdDSA'']"

record 'n key_manager =
  km_current_key_id :: string
  km_service :: "'n jwk_service"
  km_algorithm :: string

definition key_manager_new :: "'n jwk_service \<Rightarrow> string \<Rightarrow> 'n key_manager" where
  "key_manager_new sv alg = \<lparr>km_current_key_id = [], km_service = sv, km_algorithm = alg\<rparr>"

section \<open>Readiness\<close>

definition check_jwks ::
  "'n key_server \<Rightarrow> 'n key_manager \<Rightarrow> (key_error + unit) \<times> 'n key_manager" where
  "check_jwks K m =
     (case health_check K (km_service m) of
        (Inr _, s) \<Rightarrow> (Inr (), m\<lparr>km_service := s\<rparr>)
      | (Inl _, s) \<Rightarrow> (Inl KeyNotFound, m\<lparr>km_service := s\<rparr>))"

definition has_servable_jwks_snapshot :: "'n key_manager \<Rightarrow> bool \<times> 'n key_manager" where
  "has_servable_jwks_snapshot m =
     (case has_servable_snapshot (km_service m) of (b, s) \<Rightarrow> (b, m\<lparr>km_service := s\<rparr>))"

section \<open>Keys of the service\<close>

definition get_jwk_data ::
  "'n key_server \<Rightarrow> 'n key_manager \<Rightarrow> (key_error + jwk_data) \<times> 'n key_manager" where
  "get_jwk_data K m =
     (case private_key K (km_current_key_id m) (km_algorithm m) (km_service m) of
        (Inl _, s) \<Rightarrow> (Inl KeyNotFound, m\<lparr>km_service := s\<rparr>)
      | (Inr j, s) \<Rightarrow> (Inr j, m\<lparr>km_service := s, km_current_key_id := jd_id j\<rparr>))"

definition get_jwk ::
  "'n key_server \<Rightarrow> string \<Rightarrow> 'n key_manager \<Rightarrow> (key_error + jwk) \<times> 'n key_manager" where
  "get_jwk K kid m =
     (case public_key K kid (km_service m) of
        (Inl _, s) \<Rightarrow> (Inl KeyNotFound, m\<lparr>km_service := s\<rparr>)
      | (Inr j, s) \<Rightarrow> (Inr j, m\<lparr>km_service := s\<rparr>))"

definition get_private_key ::
  "('b, 'g, 'p, 'k) crypto \<Rightarrow> 'n key_server \<Rightarrow> 'n key_manager
     \<Rightarrow> (key_error + (jwk_data \<times> 'k)) \<times> 'n key_manager" where
  "get_private_key C K m =
     (case get_jwk_data K m of
        (Inl e, m1) \<Rightarrow> (Inl e, m1)
      | (Inr j, m1) \<Rightarrow>
          (case cr_b64_decode C (jd_private_key j) of
             None \<Rightarrow> (Inl KeyInvalidKey, m1)
           | Some bytes \<Rightarrow>
               (case cr_pkcs8 C bytes of
                  None \<Rightarrow> (Inl KeyInvalidKey, m1)
                | Some k \<Rightarrow> (Inr (j, k), m1))))"

section \<open>Public keys from their components\<close>

definition get_big_num_from_option_string ::
  "('b, 'g, 'p, 'k) crypto \<Rightarrow> string option \<Rightarrow> key_error + 'b" where
  "get_big_num_from_option_string C str =
     (case str of
        None \<Rightarrow> Inl KeyInvalidKey
      | Some encoded \<Rightarrow>
          (case cr_b64_decode C encoded of
             None \<Rightarrow> Inl KeyInvalidKey
           | Some bytes \<Rightarrow>
               (case cr_bignum C bytes of None \<Rightarrow> Inl KeyInvalidKey | Some b \<Rightarrow> Inr b)))"

definition get_public_key_from_rs :: "('b, 'g, 'p, 'k) crypto \<Rightarrow> jwk \<Rightarrow> key_error + 'p" where
  "get_public_key_from_rs C j =
     (case get_big_num_from_option_string C (jwk_n j) of
        Inl e \<Rightarrow> Inl e
      | Inr n \<Rightarrow>
          (case get_big_num_from_option_string C (jwk_e j) of
             Inl e \<Rightarrow> Inl e
           | Inr e \<Rightarrow>
               (case cr_rsa_public C n e of None \<Rightarrow> Inl KeyInvalidKey | Some k \<Rightarrow> Inr k)))"

definition curve_of_alg :: "string \<Rightarrow> curve option" where
  "curve_of_alg alg =
     (if alg = ''ES256'' then Some Prime256v1
      else if alg = ''ES384'' then Some Secp384r1
      else if alg = ''ES512'' then Some Secp521r1
      else None)"

definition get_public_key_from_es :: "('b, 'g, 'p, 'k) crypto \<Rightarrow> jwk \<Rightarrow> key_error + 'p" where
  "get_public_key_from_es C j =
     (case curve_of_alg (jwk_alg j) of
        None \<Rightarrow> Inl KeyUnsupported
      | Some crv \<Rightarrow>
          (case cr_ec_group C crv of
             None \<Rightarrow> Inl KeyInvalidKey
           | Some g \<Rightarrow>
               (case get_big_num_from_option_string C (jwk_x j) of
                  Inl e \<Rightarrow> Inl e
                | Inr x \<Rightarrow>
                    (case get_big_num_from_option_string C (jwk_y j) of
                       Inl e \<Rightarrow> Inl e
                     | Inr y \<Rightarrow>
                         (case cr_ec_public C g x y of
                            None \<Rightarrow> Inl KeyInvalidKey
                          | Some k \<Rightarrow> Inr k)))))"

definition eddsa_of_crv :: "string \<Rightarrow> eddsa_id option" where
  "eddsa_of_crv crv =
     (if crv = ''Ed25519'' then Some Ed25519 else if crv = ''Ed448'' then Some Ed448 else None)"

definition get_public_key_from_dsa :: "('b, 'g, 'p, 'k) crypto \<Rightarrow> jwk \<Rightarrow> key_error + 'p" where
  "get_public_key_from_dsa C j =
     (case jwk_x j of
        None \<Rightarrow> Inl KeyInvalidKey
      | Some encoded \<Rightarrow>
          (case cr_b64_decode C encoded of
             None \<Rightarrow> Inl KeyInvalidKey
           | Some bytes \<Rightarrow>
               (case jwk_crv j of
                  None \<Rightarrow> Inl KeyInvalidKey
                | Some crv \<Rightarrow>
                    (case eddsa_of_crv crv of
                       None \<Rightarrow> Inl KeyUnsupported
                     | Some i \<Rightarrow>
                         (case cr_raw_public C bytes i of
                            None \<Rightarrow> Inl KeyInvalidKey
                          | Some k \<Rightarrow> Inr k)))))"

text \<open>The assembly of a key is selected by the \<open>alg\<close> of the JWK.\<close>

definition public_key_of_jwk :: "('b, 'g, 'p, 'k) crypto \<Rightarrow> jwk \<Rightarrow> key_error + 'p" where
  "public_key_of_jwk C j =
     (if jwk_alg j \<in> {''RS256'', ''RS384'', ''RS512''} then get_public_key_from_rs C j
      else if jwk_alg j \<in> {''ES256'', ''ES384'', ''ES512''} then get_public_key_from_es C j
      else if jwk_alg j = ''EdDSA'' then get_public_key_from_dsa C j
      else Inl KeyUnsupported)"

definition get_public_key ::
  "('b, 'g, 'p, 'k) crypto \<Rightarrow> 'n key_server \<Rightarrow> string \<Rightarrow> 'n key_manager
     \<Rightarrow> (key_error + 'p) \<times> 'n key_manager" where
  "get_public_key C K kid m =
     (case get_jwk K kid m of
        (Inl e, m1) \<Rightarrow> (Inl e, m1)
      | (Inr j, m1) \<Rightarrow> (public_key_of_jwk C j, m1))"

section \<open>Lemmas\<close>

lemma get_public_key_Inr:
  "get_public_key C K kid m = (Inr p, m') \<Longrightarrow>
     \<exists>j s. public_key K kid (km_service m) = (Inr j, s) \<and> public_key_of_jwk C j = Inr p \<and>
       m' = m\<lparr>km_service := s\<rparr>"
  by (auto simp: get_public_key_def get_jwk_def split: prod.splits sum.splits)

lemma public_key_of_jwk_supported:
  "public_key_of_jwk C j = Inr p \<Longrightarrow> jwk_alg j \<in> set SUPPORTED_ALGORITHMS"
  by (auto simp: public_key_of_jwk_def SUPPORTED_ALGORITHMS_def split: if_splits)

lemma get_jwk_data_Inr:
  "get_jwk_data K m = (Inr j, m') \<Longrightarrow>
     \<exists>s. private_key K (km_current_key_id m) (km_algorithm m) (km_service m) = (Inr j, s) \<and>
       m' = m\<lparr>km_service := s, km_current_key_id := jd_id j\<rparr>"
  by (auto simp: get_jwk_data_def split: prod.splits sum.splits)

text \<open>
  A verification key is always the key of the identifier in the token header: it is assembled
  from a JWK with exactly that \<open>kid\<close> and a supported \<open>alg\<close>, obtained from the key service or from a
  snapshot within the cache's age bound.
\<close>

theorem get_public_key_sound:
  assumes "get_public_key C K kid m = (Inr p, m')"
  shows "\<exists>j. jwk_kid j = kid \<and> jwk_alg j \<in> set SUPPORTED_ALGORITHMS \<and>
           public_key_of_jwk C j = Inr p \<and> key_from K (km_service m) kid j"
proof -
  obtain j s where p: "public_key K kid (km_service m) = (Inr j, s)"
    and k: "public_key_of_jwk C j = Inr p"
    using get_public_key_Inr [OF assms] by auto
  have "key_from K (km_service m) kid j" by (rule public_key_from_cases [OF p])
  then show ?thesis
    using find_kid_key_from public_key_of_jwk_supported [OF k] k by (intro exI [of _ j] conjI)
qed

text \<open>
  One signing key is reused: after a key was obtained, the next call asks the key service for
  that identifier, and as long as the lookup does not answer 404 no other key is created.
\<close>

theorem signing_key_reused:
  assumes "get_jwk_data K m = (Inr j, m1)" and "jd_id j \<noteq> []"
    and "fst (get_key K (jd_id j) (km_service m1)) \<noteq> Inl JwkNotFound"
  shows "get_jwk_data K m1 =
    (case get_key K (jd_id j) (km_service m1) of
       (Inl _, s) \<Rightarrow> (Inl KeyNotFound, m1\<lparr>km_service := s\<rparr>)
     | (Inr j', s) \<Rightarrow> (Inr j', m1\<lparr>km_service := s, km_current_key_id := jd_id j'\<rparr>))"
proof -
  have i: "km_current_key_id m1 = jd_id j"
    using get_jwk_data_Inr [OF assms(1)] by auto
  have "private_key K (jd_id j) (km_algorithm m1) (km_service m1) = get_key K (jd_id j) (km_service m1)"
    using assms(2,3)
    by (auto simp: private_key_def split: prod.splits sum.splits jwk_error.splits)
  then show ?thesis by (simp add: get_jwk_data_def i)
qed

section \<open>Witnesses\<close>

text \<open>A toy cryptography: a signature is the key's name put before the signed text.\<close>

definition demo_crypto :: "(string, unit, string, string) crypto" where
  "demo_crypto =
     \<lparr>cr_b64_encode = \<lambda>s. s, cr_b64_decode = \<lambda>s. Some s, cr_bignum = \<lambda>s. Some s,
      cr_rsa_public = \<lambda>n e. Some n, cr_ec_group = \<lambda>_. Some (), cr_ec_public = \<lambda>_ x y. Some x,
      cr_raw_public = \<lambda>x _. Some x, cr_pkcs8 = \<lambda>s. Some s,
      cr_sign = \<lambda>_ k d. Some (k @ d), cr_verify = \<lambda>_ p s d. Some (s = p @ d)\<rparr>"

definition demo_key_data :: jwk_data where
  "demo_key_data = \<lparr>jd_id = ''id1'', jd_kty = ''EC'', jd_alg = ''ES256'', jd_kid = ''k1'', jd_crv = None,
     jd_x = None, jd_y = None, jd_n = None, jd_e = None, jd_private_key = ''K1''\<rparr>"

definition demo_ec_jwk :: jwk where
  "demo_ec_jwk = demo_jwk\<lparr>jwk_x := Some ''K1'', jwk_y := Some ''y''\<rparr>"

text \<open>A key service with one signing key and its public half.\<close>

definition demo_service :: "nat key_server" where
  "demo_service = \<lparr>kn_get = \<lambda>_ n. (Some \<lparr>hr_status = 200, hr_body = ''keys''\<rparr>, Suc n),
     kn_post_alg = \<lambda>_ _ n. (Some \<lparr>hr_status = 200, hr_body = ''key''\<rparr>, Suc n),
     kn_jwks_of = \<lambda>b. Some \<lparr>jwks_keys = [demo_ec_jwk]\<rparr>, kn_key_of = \<lambda>b. Some demo_key_data\<rparr>"

definition demo_manager :: "nat key_manager" where
  "demo_manager = key_manager_new demo_cold ''ES256''"

lemmas demo_key_defs = demo_service_def demo_manager_def demo_key_data_def demo_ec_jwk_def
  demo_crypto_def key_manager_new_def demo_defs

lemma demo_public_key: "fst (get_public_key demo_crypto demo_service ''k1'' demo_manager) = Inr ''K1''"
  by (simp add: get_public_key_def get_jwk_def public_key_unfold demo_key_defs public_key_of_jwk_def
      get_public_key_from_es_def curve_of_alg_def get_big_num_from_option_string_def)

lemma demo_jwk_data: "fst (get_jwk_data demo_service demo_manager) = Inr demo_key_data"
  by (simp add: get_jwk_data_def private_key_def create_key_def demo_key_defs)

lemma get_public_key_sound_witness:
  "\<exists>j. jwk_kid j = ''k1'' \<and> jwk_alg j \<in> set SUPPORTED_ALGORITHMS \<and>
     public_key_of_jwk demo_crypto j = Inr ''K1'' \<and> key_from demo_service (km_service demo_manager) ''k1'' j"
  by (rule get_public_key_sound [of _ _ _ _ _ "snd (get_public_key demo_crypto demo_service ''k1'' demo_manager)"])
    (simp add: prod_eq_iff demo_public_key)

lemma signing_key_reused_witness:
  "fst (get_jwk_data demo_service (snd (get_jwk_data demo_service demo_manager))) = Inr demo_key_data"
proof -
  have g: "fst (get_key demo_service i s) = Inr demo_key_data" for i s
    by (simp add: get_key_def demo_service_def)
  have "get_jwk_data demo_service demo_manager = (Inr demo_key_data, snd (get_jwk_data demo_service demo_manager))"
    by (simp add: prod_eq_iff demo_jwk_data)
  from signing_key_reused [OF this] show ?thesis
    using g by (auto simp: demo_key_data_def split: prod.splits sum.splits)
      (metis fst_conv sum.inject(2) sum.distinct(1))+
qed

end
