(* ===== verification/Issuer.thy ===== *)
theory Issuer
  imports Models
begin

text \<open>
  The allowlist of issuers (\<open>src/issuer.rs\<close>): its parsing from \<open>TOKEN_ISSUER_ALLOWLIST\<close> and the
  case-insensitive, otherwise exact test of a \<open>Host\<close> against it.
\<close>

definition issuer_parse :: "string \<Rightarrow> string list" where
  "issuer_parse raw =
     filter (\<lambda>s. s \<noteq> []) (map (\<lambda>s. to_ascii_lowercase (trim s)) (split_on (CHR '','') raw))"

definition allowlist :: "env \<Rightarrow> string list" where
  "allowlist e = issuer_parse (env_or e ''TOKEN_ISSUER_ALLOWLIST'' [])"

definition allowed_by :: "string list \<Rightarrow> string \<Rightarrow> bool" where
  "allowed_by allowed host \<longleftrightarrow>
     allowed = [] \<or> list_ex (\<lambda>a. a = to_ascii_lowercase host) allowed"

definition is_allowed :: "env \<Rightarrow> string \<Rightarrow> bool" where
  "is_allowed e host = allowed_by (allowlist e) host"

text \<open>The summary written at startup: the message, and whether it is a warning.\<close>

definition issuer_log_summary :: "env \<Rightarrow> bool \<times> string list" where
  "issuer_log_summary e = (allowlist e = [], allowlist e)"

section \<open>Lemmas\<close>

lemma allowlist_unset [simp]: "e ''TOKEN_ISSUER_ALLOWLIST'' = None \<Longrightarrow> allowlist e = []"
  by (simp add: allowlist_def env_or_def issuer_parse_def to_ascii_lowercase_def)

lemma allowed_by_iff:
  "allowed_by allowed host \<longleftrightarrow> allowed = [] \<or> to_ascii_lowercase host \<in> set allowed"
  by (auto simp: allowed_by_def list_ex_iff)

lemma issuer_parse_lower: "a \<in> set (issuer_parse raw) \<Longrightarrow> to_ascii_lowercase a = a \<and> a \<noteq> []"
  by (auto simp: issuer_parse_def)

lemma image_filter_iff:
  "y \<in> {x \<in> h ` A. x \<noteq> []} \<longleftrightarrow> (\<exists>a \<in> A. h a \<noteq> [] \<and> h a = y)"
  by auto

lemma to_ascii_lowercase_Nil [simp]: "to_ascii_lowercase s = [] \<longleftrightarrow> s = []"
  by (simp add: to_ascii_lowercase_def)

text \<open>
  The allowlist decides by the host alone, without case: with a non-empty list a host is
  allowed exactly when one entry of the variable, trimmed, equals it up to ASCII case; hosts that
  differ only in case are treated alike, and an unset or blank list allows every host.
\<close>

theorem is_allowed_iff:
  "is_allowed e host \<longleftrightarrow>
     allowlist e = [] \<or>
     (\<exists>entry \<in> set (split_on (CHR '','') (env_or e ''TOKEN_ISSUER_ALLOWLIST'' [])).
        trim entry \<noteq> [] \<and> eq_ignore_ascii_case (trim entry) host)"
proof -
  have "to_ascii_lowercase host \<in> set (allowlist e) \<longleftrightarrow>
     (\<exists>entry \<in> set (split_on (CHR '','') (env_or e ''TOKEN_ISSUER_ALLOWLIST'' [])).
        trim entry \<noteq> [] \<and> eq_ignore_ascii_case (trim entry) host)"
    unfolding allowlist_def issuer_parse_def eq_ignore_ascii_case_def set_filter set_map image_filter_iff
    by simp
  then show ?thesis by (simp add: is_allowed_def allowed_by_iff)
qed

end
