(* ===== verification/Token.thy ===== *)
theory Token
  imports Jti_Store Key_Manager
begin

text \<open>
  The token of \<open>src/models/jwt.rs\<close>: the custom claims and their limits, the claims with their
  issuing and checking, the header, and the signed compact form.

  The world of a request is the store, the key manager, the process's wall clock (seconds of
  \<open>Utc::now\<close>), the supply of random UUIDs and the metrics. What is not under \<open>src/\<close> is collected
  in \<open>deps\<close>: the environment of the process, base64 and OpenSSL, the key service, \<open>serde_json\<close> on the
  three types it is used for, and \<open>chrono\<close>'s addition of seconds to a time (\<open>None\<close> is its panic on
  overflow). The store is the trait's dictionary.
\<close>

record 'v json_codec =
  sj_claims_to :: "'v token_claims \<Rightarrow> string option"
  sj_claims_from :: "string \<Rightarrow> 'v token_claims option"
  sj_headers_to :: "token_headers \<Rightarrow> string option"
  sj_headers_from :: "string \<Rightarrow> token_headers option"
  sj_map_to :: "'v json_object \<Rightarrow> string option"

record ('b, 'g, 'p, 'k, 'v, 'n, 's) deps =
  dp_env :: env
  dp_crypto :: "('b, 'g, 'p, 'k) crypto"
  dp_server :: "'n key_server"
  dp_json :: "'v json_codec"
  dp_store :: "'s jti_store"
  dp_plus :: "int \<Rightarrow> int \<Rightarrow> int option"

record ('n, 's) world =
  w_store :: 's
  w_keys :: "'n key_manager"
  w_utc :: "nat \<Rightarrow> int"
  w_utc_tick :: nat
  w_uuid :: "nat \<Rightarrow> string"
  w_uuid_tick :: nat
  w_metrics :: "metric list"

section \<open>Effects\<close>

definition utc_now :: "('n, 's) world \<Rightarrow> int" where
  "utc_now w = w_utc w (w_utc_tick w)"

definition utc_tick :: "('n, 's) world \<Rightarrow> ('n, 's) world" where
  "utc_tick w = w\<lparr>w_utc_tick := Suc (w_utc_tick w)\<rparr>"

definition uuid_next :: "('n, 's) world \<Rightarrow> string" where
  "uuid_next w = w_uuid w (w_uuid_tick w)"

definition uuid_tick :: "('n, 's) world \<Rightarrow> ('n, 's) world" where
  "uuid_tick w = w\<lparr>w_uuid_tick := Suc (w_uuid_tick w)\<rparr>"

text \<open>A store call whose error becomes \<open>StoreError\<close>, and a key call with its own error.\<close>

definition store_call ::
  "('s \<Rightarrow> (jti_error + 'a) \<times> 's) \<Rightarrow> ('n, 's) world \<Rightarrow> (jwt_error, 'a) outcome \<times> ('n, 's) world" where
  "store_call f w =
     (case f (w_store w) of
        (Inl _, s) \<Rightarrow> (Err StoreError, w\<lparr>w_store := s\<rparr>)
      | (Inr a, s) \<Rightarrow> (Ok a, w\<lparr>w_store := s\<rparr>))"

definition key_call ::
  "jwt_error \<Rightarrow> ('n key_manager \<Rightarrow> (key_error + 'a) \<times> 'n key_manager) \<Rightarrow> ('n, 's) world
     \<Rightarrow> (jwt_error, 'a) outcome \<times> ('n, 's) world" where
  "key_call e f w =
     (case f (w_keys w) of
        (Inl _, m) \<Rightarrow> (Err e, w\<lparr>w_keys := m\<rparr>)
      | (Inr a, m) \<Rightarrow> (Ok a, w\<lparr>w_keys := m\<rparr>))"

definition fail :: "jwt_error \<Rightarrow> ('n, 's) world \<Rightarrow> (jwt_error, 'a) outcome \<times> ('n, 's) world" where
  "fail e w = (Err e, w)"

section \<open>Custom claims\<close>

definition RESERVED_CLAIMS :: "string list" where
  "RESERVED_CLAIMS = [''iss'', ''sub'', ''aud'', ''exp'', ''iat'', ''nbf'', ''jti'']"

definition validate_custom_claims ::
  "env \<Rightarrow> 'v json_codec \<Rightarrow> 'v json_object \<Rightarrow> jwt_error + unit" where
  "validate_custom_claims e J claims =
     (if claims = [] then Inr ()
      else if unat (env_u64 e ''TOKEN_CLAIMS_MAX_COUNT'' 32) < length claims then Inl UnprocessableEntity
      else if list_ex (\<lambda>name. name \<in> set RESERVED_CLAIMS) (map fst claims) then Inl UnprocessableEntity
      else (case sj_map_to J claims of
              None \<Rightarrow> Inl Serialization
            | Some bytes \<Rightarrow>
                if unat (env_u64 e ''TOKEN_CLAIMS_MAX_BYTES'' 4096) < length bytes
                then Inl UnprocessableEntity else Inr ()))"

section \<open>Checking claims\<close>

text \<open>The conditions on the claims alone, and the full check with the store.\<close>

definition claims_valid_at :: "'v token_claims \<Rightarrow> string \<Rightarrow> string \<Rightarrow> u64 \<Rightarrow> bool" where
  "claims_valid_at c issuer audience now \<longleftrightarrow>
     tc_iss c = issuer \<and> audience \<in> set (tc_aud c) \<and> tc_nbf c \<le> now \<and> tc_iat c \<le> now \<and> now < tc_exp c"

definition claims_is_verify ::
  "'s jti_store \<Rightarrow> 'v token_claims \<Rightarrow> string \<Rightarrow> string \<Rightarrow> ('n, 's) world \<Rightarrow> bool \<times> ('n, 's) world" where
  "claims_is_verify S c issuer audience w =
     (let now = as_usize (utc_now w); w1 = utc_tick w in
      if \<not> claims_valid_at c issuer audience now then (False, w1)
      else (case js_check_jti S (tc_jti c) (w_store w1) of
              (Inr b, s) \<Rightarrow> (b, w1\<lparr>w_store := s\<rparr>)
            | (Inl _, s) \<Rightarrow> (False, w1\<lparr>w_store := s\<rparr>)))"

section \<open>Issuing claims\<close>

text \<open>The lifetime of a new token.\<close>

definition expiration_seconds :: "env \<Rightarrow> u64 option \<Rightarrow> jwt_error + u64" where
  "expiration_seconds e ttl =
     (case ttl of
        Some requested \<Rightarrow>
          if requested < env_u64 e ''TOKEN_TTL_MIN_SECONDS'' 1 \<or>
             env_u64 e ''TOKEN_TTL_MAX_SECONDS'' 86400 < requested
          then Inl UnprocessableEntity else Inr requested
      | None \<Rightarrow>
          (case parse_u64 (env_or e ''TOKEN_EXPIRATION_SECONDS'' ''3600'') of
             Some v \<Rightarrow> Inr v
           | None \<Rightarrow> Inl UnprocessableEntity))"

definition new_claims ::
  "string \<Rightarrow> string \<Rightarrow> string list \<Rightarrow> int \<Rightarrow> int \<Rightarrow> string \<Rightarrow> 'v json_object \<Rightarrow> 'v token_claims" where
  "new_claims issuer subject audience now expiry jti extra =
     \<lparr>tc_iss = issuer, tc_sub = subject, tc_aud = audience, tc_exp = as_usize expiry,
      tc_iat = as_usize now, tc_nbf = as_usize now, tc_jti = jti, tc_extra = extra\<rparr>"

definition claims_create_new ::
  "('b, 'g, 'p, 'k, 'v, 'n, 's) deps \<Rightarrow> string \<Rightarrow> string \<Rightarrow> string list \<Rightarrow> u64 option
     \<Rightarrow> 'v json_object \<Rightarrow> ('n, 's) world \<Rightarrow> (jwt_error, 'v token_claims) outcome \<times> ('n, 's) world" where
  "claims_create_new D issuer subject audience ttl extra =
     and_then (pure_step (validate_custom_claims (dp_env D) (dp_json D) extra)) (\<lambda>_.
     and_then (pure_step (expiration_seconds (dp_env D) ttl)) (\<lambda>secs.
     case audience of
       [] \<Rightarrow> fail UnprocessableEntity
     | first_audience # _ \<Rightarrow> (\<lambda>w.
         let now = utc_now w; w1 = utc_tick w in
         case dp_plus D now (as_i64 secs) of
           None \<Rightarrow> (Panic, w1)
         | Some expiry \<Rightarrow>
             (let jti = uuid_next w1; w2 = uuid_tick w1 in
              and_then (store_call (js_store_jti (dp_store D) jti secs)) (\<lambda>_.
              and_then (store_call (js_add_to_group (dp_store D) (subject_group subject) jti expiry)) (\<lambda>_ w3.
                let c = new_claims issuer subject audience now expiry jti extra in
                case claims_is_verify (dp_store D) c issuer first_audience w3 of
                  (True, w4) \<Rightarrow> (Ok c, w4)
                | (False, w4) \<Rightarrow> (Err StoreError, w4))) w2))))"

section \<open>Segments\<close>

text \<open>A segment of the compact form: base64url, UTF-8, JSON.\<close>

definition segment_text :: "('b, 'g, 'p, 'k) crypto \<Rightarrow> string \<Rightarrow> jwt_error + string" where
  "segment_text C str =
     (case cr_b64_decode C str of
        None \<Rightarrow> Inl Broken
      | Some bytes \<Rightarrow> if utf8_valid bytes then Inr bytes else Inl Broken)"

definition claims_from_base64 ::
  "('b, 'g, 'p, 'k) crypto \<Rightarrow> 'v json_codec \<Rightarrow> string \<Rightarrow> jwt_error + 'v token_claims" where
  "claims_from_base64 C J str =
     (case segment_text C str of
        Inl e \<Rightarrow> Inl e
      | Inr json \<Rightarrow> (case sj_claims_from J json of None \<Rightarrow> Inl Broken | Some c \<Rightarrow> Inr c))"

definition claims_to_base64 ::
  "('b, 'g, 'p, 'k) crypto \<Rightarrow> 'v json_codec \<Rightarrow> 'v token_claims \<Rightarrow> jwt_error + string" where
  "claims_to_base64 C J c =
     (case sj_claims_to J c of
        None \<Rightarrow> Inl Serialization
      | Some json \<Rightarrow> Inr (cr_b64_encode C json))"

definition headers_create_new :: "env \<Rightarrow> string \<Rightarrow> token_headers" where
  "headers_create_new e kid =
     \<lparr>th_alg = env_or e ''TOKEN_ALGORITHM'' ''RS256'', th_kid = kid, th_typ = ''JWT'',
      th_jku = e ''TOKEN_JKU''\<rparr>"

definition headers_from_base64 ::
  "('b, 'g, 'p, 'k) crypto \<Rightarrow> 'v json_codec \<Rightarrow> string \<Rightarrow> jwt_error + token_headers" where
  "headers_from_base64 C J str =
     (case segment_text C str of
        Inl e \<Rightarrow> Inl e
      | Inr json \<Rightarrow> (case sj_headers_from J json of None \<Rightarrow> Inl Broken | Some h \<Rightarrow> Inr h))"

definition headers_to_base64 ::
  "('b, 'g, 'p, 'k) crypto \<Rightarrow> 'v json_codec \<Rightarrow> token_headers \<Rightarrow> jwt_error + string" where
  "headers_to_base64 C J h =
     (case sj_headers_to J h of
        None \<Rightarrow> Inl Serialization
      | Some json \<Rightarrow> Inr (cr_b64_encode C json))"

definition headers_is_verify :: "env \<Rightarrow> token_headers \<Rightarrow> bool" where
  "headers_is_verify e h \<longleftrightarrow>
     th_alg h \<in> set SUPPORTED_ALGORITHMS \<and> th_jku h = e ''TOKEN_JKU'' \<and> th_typ h = ''JWT''"

section \<open>The signed form\<close>

record ('v, 'key) json_web_token =
  jt_headers :: token_headers
  jt_claims :: "'v token_claims"
  jt_key :: 'key

definition digest_of_alg :: "string \<Rightarrow> digest" where
  "digest_of_alg alg =
     (if alg = ''RS256'' \<or> alg = ''ES256'' then Sha256
      else if alg = ''RS384'' \<or> alg = ''ES384'' then Sha384
      else if alg = ''RS512'' \<or> alg = ''ES512'' then Sha512
      else NoDigest)"

definition token_to_string ::
  "('b, 'g, 'p, 'k) crypto \<Rightarrow> 'v json_codec \<Rightarrow> ('v, 'k) json_web_token \<Rightarrow> jwt_error + string" where
  "token_to_string C J t =
     (case headers_to_base64 C J (jt_headers t) of
        Inl e \<Rightarrow> Inl e
      | Inr h \<Rightarrow>
          (case claims_to_base64 C J (jt_claims t) of
             Inl e \<Rightarrow> Inl e
           | Inr c \<Rightarrow>
               (case cr_sign C (digest_of_alg (th_alg (jt_headers t))) (jt_key t) (h @ ''.'' @ c) of
                  None \<Rightarrow> Inl BadSignature
                | Some sig \<Rightarrow> Inr (h @ ''.'' @ c @ ''.'' @ cr_b64_encode C sig))))"

text \<open>The signature check of \<open>from_string\<close> on the segments.\<close>

definition check_signature ::
  "('b, 'g, 'p, 'k) crypto \<Rightarrow> token_headers \<Rightarrow> 'p \<Rightarrow> string \<Rightarrow> string \<Rightarrow> string \<Rightarrow> jwt_error + unit" where
  "check_signature C headers key h c s =
     (case cr_b64_decode C s of
        None \<Rightarrow> Inl Broken
      | Some sig \<Rightarrow>
          (case cr_verify C (digest_of_alg (th_alg headers)) key sig (h @ ''.'' @ c) of
             None \<Rightarrow> Inl BadSignature
           | Some ok \<Rightarrow> if ok then Inr () else Inl BadSignature))"

definition token_from_string ::
  "('b, 'g, 'p, 'k, 'v, 'n, 's) deps \<Rightarrow> string \<Rightarrow> string \<Rightarrow> string \<Rightarrow> ('n, 's) world
     \<Rightarrow> (jwt_error, ('v, 'p) json_web_token) outcome \<times> ('n, 's) world" where
  "token_from_string D token issuer audience =
     (case split_on (CHR ''.'') token of
        h # c # s # _ \<Rightarrow>
          and_then (pure_step (headers_from_base64 (dp_crypto D) (dp_json D) h)) (\<lambda>headers.
          and_then (key_call BadSignature (get_public_key (dp_crypto D) (dp_server D) (th_kid headers))) (\<lambda>key.
          and_then (pure_step (check_signature (dp_crypto D) headers key h c s)) (\<lambda>_.
          and_then (pure_step (claims_from_base64 (dp_crypto D) (dp_json D) c)) (\<lambda>claims w.
            if \<not> headers_is_verify (dp_env D) headers then (Err NotValid, w)
            else (case claims_is_verify (dp_store D) claims issuer audience w of
                    (False, w1) \<Rightarrow> (Err NotValid, w1)
                  | (True, w1) \<Rightarrow>
                      (Ok \<lparr>jt_headers = headers, jt_claims = claims, jt_key = key\<rparr>, w1))))))
      | _ \<Rightarrow> fail Broken)"

end
