(* ===== verification/Token_Correct.thy ===== *)
theory Token_Correct
  imports Token Redis_Properties
begin

text \<open>
  Correctness of the token layer: what an accepted token guarantees, what an issued token holds,
  the round trip from issuing to verification, and the requests that are refused before anything
  is stored.
\<close>

section \<open>Steps that succeeded\<close>

lemma store_call_Ok:
  "store_call f w = (Ok a, w') \<longleftrightarrow> (\<exists>s. f (w_store w) = (Inr a, s) \<and> w' = w\<lparr>w_store := s\<rparr>)"
  by (auto simp: store_call_def split: prod.splits sum.splits)

lemma key_call_Ok:
  "key_call e f w = (Ok a, w') \<longleftrightarrow> (\<exists>m. f (w_keys w) = (Inr a, m) \<and> w' = w\<lparr>w_keys := m\<rparr>)"
  by (auto simp: key_call_def split: prod.splits sum.splits)

lemma fail_Ok [simp]: "fail e w \<noteq> (Ok a, w')"
  by (simp add: fail_def)

lemma claims_is_verify_True:
  "claims_is_verify S c issuer audience w = (True, w') \<longleftrightarrow>
     claims_valid_at c issuer audience (as_usize (utc_now w)) \<and>
     (\<exists>s. js_check_jti S (tc_jti c) (w_store w) = (Inr True, s) \<and>
        w' = (utc_tick w)\<lparr>w_store := s\<rparr>)"
  by (auto simp: claims_is_verify_def Let_def utc_tick_def split: if_splits prod.splits sum.splits)

lemma check_signature_Inr:
  "check_signature C hdr key h c s = Inr () \<longleftrightarrow>
     (\<exists>sig. cr_b64_decode C s = Some sig \<and>
        cr_verify C (digest_of_alg (th_alg hdr)) key sig (h @ ''.'' @ c) = Some True)"
  by (auto simp: check_signature_def split: option.splits)

section \<open>Verification\<close>

lemma token_from_string_Ok:
  "token_from_string D token issuer audience w = (Ok t, w') \<longleftrightarrow>
     (\<exists>h c s rest m.
        split_on (CHR ''.'') token = h # c # s # rest \<and>
        headers_from_base64 (dp_crypto D) (dp_json D) h = Inr (jt_headers t) \<and>
        get_public_key (dp_crypto D) (dp_server D) (th_kid (jt_headers t)) (w_keys w) = (Inr (jt_key t), m) \<and>
        check_signature (dp_crypto D) (jt_headers t) (jt_key t) h c s = Inr () \<and>
        claims_from_base64 (dp_crypto D) (dp_json D) c = Inr (jt_claims t) \<and>
        headers_is_verify (dp_env D) (jt_headers t) \<and>
        claims_is_verify (dp_store D) (jt_claims t) issuer audience (w\<lparr>w_keys := m\<rparr>) = (True, w'))"
proof (cases "split_on (CHR ''.'') token" rule: list.exhaust [case_names Nil c1])
  case Nil
  then show ?thesis by (simp add: token_from_string_def)
next
  case (c1 h r1)
  show ?thesis
  proof (cases r1 rule: list.exhaust [case_names Nil c2])
    case Nil
    then show ?thesis using c1 by (simp add: token_from_string_def)
  next
    case (c2 c r2)
    show ?thesis
    proof (cases r2 rule: list.exhaust [case_names Nil c3])
      case Nil
      then show ?thesis using c1 c2 by (simp add: token_from_string_def)
    next
      case (c3 s r3)
      have p: "split_on (CHR ''.'') token = h # c # s # r3" using c1 c2 c3 by simp
      have "token_from_string D token issuer audience w = (Ok t, w') \<longleftrightarrow>
         (\<exists>hdr key m cl. headers_from_base64 (dp_crypto D) (dp_json D) h = Inr hdr \<and>
            get_public_key (dp_crypto D) (dp_server D) (th_kid hdr) (w_keys w) = (Inr key, m) \<and>
            check_signature (dp_crypto D) hdr key h c s = Inr () \<and>
            claims_from_base64 (dp_crypto D) (dp_json D) c = Inr cl \<and> headers_is_verify (dp_env D) hdr \<and>
            claims_is_verify (dp_store D) cl issuer audience (w\<lparr>w_keys := m\<rparr>) = (True, w') \<and>
            t = \<lparr>jt_headers = hdr, jt_claims = cl, jt_key = key\<rparr>)"
        unfolding token_from_string_def p list.case step_Ok key_call_Ok
        by (intro iffI; elim exE conjE)
          (fastforce split: if_splits prod.splits bool.splits, fastforce)
      then show ?thesis unfolding p by (cases t) auto
    qed
  qed
qed

text \<open>
  C1. Soundness of verification. A token is accepted only if its header names a supported
  algorithm, the type \<open>JWT\<close> and the configured \<open>jku\<close>; its signature over \<open>header.payload\<close> is valid
  under the key of the header's \<open>kid\<close>; its claims name the issuer and contain the audience; the
  time is within \<open>nbf\<close>, \<open>iat\<close> and \<open>exp\<close>; and the store holds its \<open>jti\<close>.
\<close>

theorem verification_sound:
  assumes "token_from_string D token issuer audience w = (Ok t, w')"
  shows "\<exists>h c s rest sig j.
     split_on (CHR ''.'') token = h # c # s # rest \<and>
     headers_from_base64 (dp_crypto D) (dp_json D) h = Inr (jt_headers t) \<and>
     claims_from_base64 (dp_crypto D) (dp_json D) c = Inr (jt_claims t) \<and>
     th_alg (jt_headers t) \<in> set SUPPORTED_ALGORITHMS \<and> th_typ (jt_headers t) = ''JWT'' \<and>
     th_jku (jt_headers t) = dp_env D ''TOKEN_JKU'' \<and>
     cr_b64_decode (dp_crypto D) s = Some sig \<and>
     cr_verify (dp_crypto D) (digest_of_alg (th_alg (jt_headers t))) (jt_key t) sig (h @ ''.'' @ c) = Some True \<and>
     public_key_of_jwk (dp_crypto D) j = Inr (jt_key t) \<and> jwk_kid j = th_kid (jt_headers t) \<and>
     key_from (dp_server D) (km_service (w_keys w)) (th_kid (jt_headers t)) j \<and>
     tc_iss (jt_claims t) = issuer \<and> audience \<in> set (tc_aud (jt_claims t)) \<and>
     tc_nbf (jt_claims t) \<le> as_usize (utc_now w) \<and> tc_iat (jt_claims t) \<le> as_usize (utc_now w) \<and>
     as_usize (utc_now w) < tc_exp (jt_claims t) \<and>
     fst (js_check_jti (dp_store D) (tc_jti (jt_claims t)) (w_store w)) = Inr True"
proof -
  from assms obtain h c s rest m where
    a: "split_on (CHR ''.'') token = h # c # s # rest"
      "headers_from_base64 (dp_crypto D) (dp_json D) h = Inr (jt_headers t)"
      "claims_from_base64 (dp_crypto D) (dp_json D) c = Inr (jt_claims t)"
      "headers_is_verify (dp_env D) (jt_headers t)"
    and k: "get_public_key (dp_crypto D) (dp_server D) (th_kid (jt_headers t)) (w_keys w) = (Inr (jt_key t), m)"
    and g: "check_signature (dp_crypto D) (jt_headers t) (jt_key t) h c s = Inr ()"
    and v: "claims_is_verify (dp_store D) (jt_claims t) issuer audience (w\<lparr>w_keys := m\<rparr>) = (True, w')"
    unfolding token_from_string_Ok by (elim exE conjE)
  obtain sig where sig: "cr_b64_decode (dp_crypto D) s = Some sig"
     "cr_verify (dp_crypto D) (digest_of_alg (th_alg (jt_headers t))) (jt_key t) sig (h @ ''.'' @ c) = Some True"
    using g unfolding check_signature_Inr by (elim exE conjE)
  obtain j s' where j: "public_key (dp_server D) (th_kid (jt_headers t)) (km_service (w_keys w)) = (Inr j, s')"
      "public_key_of_jwk (dp_crypto D) j = Inr (jt_key t)"
    using get_public_key_Inr [OF k] by (elim exE conjE)
  have from_j: "key_from (dp_server D) (km_service (w_keys w)) (th_kid (jt_headers t)) j"
    by (rule public_key_from_cases [OF j(1)])
  have "claims_valid_at (jt_claims t) issuer audience (as_usize (utc_now w))"
    and "fst (js_check_jti (dp_store D) (tc_jti (jt_claims t)) (w_store w)) = Inr True"
    using v by (auto simp: claims_is_verify_True utc_now_def)
  moreover have "th_alg (jt_headers t) \<in> set SUPPORTED_ALGORITHMS" "th_typ (jt_headers t) = ''JWT''"
      "th_jku (jt_headers t) = dp_env D ''TOKEN_JKU''"
    using a(4) by (simp_all add: headers_is_verify_def)
  ultimately show ?thesis unfolding claims_valid_at_def using a(1-3) sig j(2) from_j find_kid_key_from [OF from_j] by (intro exI conjI) (elim conjE; assumption)+
qed

text \<open>
  Only the first three segments of a token count: whatever follows a further dot is neither
  covered by the signature nor looked at, so a token with a trailing segment appended has the same
  verdict as the token itself.
\<close>

lemma split_on_append_sep:
  "split_on d (s @ d # r) = split_on d s @ split_on d r"
  by (induction s) (auto split: list.splits)

theorem trailing_segment_ignored:
  assumes "2 \<le> length (filter (\<lambda>ch. ch = CHR ''.'') token)"
  shows "token_from_string D (token @ CHR ''.'' # junk) issuer audience w =
         token_from_string D token issuer audience w"
proof -
  have len: "length (split_on d s) = Suc (length (filter (\<lambda>ch. ch = d) s))" for d s
    by (induction s) (auto split: list.splits)
  then have "3 \<le> length (split_on (CHR ''.'') token)"
    using assms len [of "CHR ''.''" token] by simp
  then obtain h c s rest where p: "split_on (CHR ''.'') token = h # c # s # rest"
    by (metis (no_types, lifting) Suc_le_length_iff numeral_3_eq_3)
  then have "split_on (CHR ''.'') (token @ CHR ''.'' # junk) = h # c # s # (rest @ split_on (CHR ''.'') junk)"
    using split_on_append_sep [of "CHR ''.''" token junk] by simp
  then show ?thesis by (simp add: token_from_string_def p)
qed

section \<open>Issuing\<close>

lemma validate_Inr:
  "validate_custom_claims e J extra = Inr () \<Longrightarrow>
     (\<forall>name \<in> fst ` set extra. name \<notin> set RESERVED_CLAIMS)"
  by (auto simp: validate_custom_claims_def list_ex_iff split: if_splits)

lemma expiration_seconds_Inr:
  "expiration_seconds e ttl = Inr secs \<Longrightarrow>
     (case ttl of
        Some t \<Rightarrow> secs = t \<and> env_u64 e ''TOKEN_TTL_MIN_SECONDS'' 1 \<le> t \<and>
          t \<le> env_u64 e ''TOKEN_TTL_MAX_SECONDS'' 86400
      | None \<Rightarrow> parse_u64 (env_or e ''TOKEN_EXPIRATION_SECONDS'' ''3600'') = Some secs)"
  by (auto simp: expiration_seconds_def split: option.splits if_splits)

text \<open>The calls an issuing that succeeded made, with the states of the store between them.\<close>

definition issued_with ::
  "('b, 'g, 'p, 'k, 'v, 'n, 's) deps \<Rightarrow> string \<Rightarrow> string \<Rightarrow> string list \<Rightarrow> u64 option \<Rightarrow> 'v json_object
     \<Rightarrow> ('n, 's) world \<Rightarrow> 'v token_claims \<Rightarrow> u64 \<Rightarrow> int \<Rightarrow> 's \<Rightarrow> 's \<Rightarrow> 's \<Rightarrow> bool" where
  "issued_with D issuer subject audience ttl extra w c secs expiry s1 s2 s3 \<longleftrightarrow>
     validate_custom_claims (dp_env D) (dp_json D) extra = Inr () \<and>
     expiration_seconds (dp_env D) ttl = Inr secs \<and> audience \<noteq> [] \<and>
     dp_plus D (utc_now w) (as_i64 secs) = Some expiry \<and>
     c = new_claims issuer subject audience (utc_now w) expiry (uuid_next w) extra \<and>
     js_store_jti (dp_store D) (uuid_next w) secs (w_store w) = (Inr (), s1) \<and>
     js_add_to_group (dp_store D) (subject_group subject) (uuid_next w) expiry s1 = (Inr (), s2) \<and>
     js_check_jti (dp_store D) (uuid_next w) s2 = (Inr True, s3)"

lemma checked_Ok:
  "(case p of (True, w4) \<Rightarrow> (Ok a, w4) | (False, w4) \<Rightarrow> (Err e, w4)) = (Ok c, w')
     \<longleftrightarrow> p = (True, w') \<and> c = a"
  by (cases p) (auto split: bool.splits)

lemma create_new_Ok:
  assumes "claims_create_new D issuer subject audience ttl extra w = (Ok c, w')"
  shows "\<exists>secs expiry s1 s2 s3.
     issued_with D issuer subject audience ttl extra w c secs expiry s1 s2 s3 \<and>
     w_store w' = s3 \<and> w_keys w' = w_keys w \<and> w_uuid w' = w_uuid w \<and> w_metrics w' = w_metrics w \<and>
     w_utc w' = w_utc w \<and>
     claims_valid_at c issuer (hd audience) (as_usize (w_utc w (Suc (w_utc_tick w)))) \<and>
     w_utc_tick w' = Suc (Suc (w_utc_tick w)) \<and> w_uuid_tick w' = Suc (w_uuid_tick w)"
proof -
  obtain secs where v: "validate_custom_claims (dp_env D) (dp_json D) extra = Inr ()"
    "expiration_seconds (dp_env D) ttl = Inr secs"
    using assms by (auto simp: claims_create_new_def step_Ok)
  obtain first rest where a: "audience = first # rest"
    using assms v by (cases audience) (auto simp: claims_create_new_def step_Ok)
  obtain expiry where e: "dp_plus D (utc_now w) (as_i64 secs) = Some expiry"
    using assms v a by (auto simp: claims_create_new_def step_Ok Let_def split: option.splits)
  let ?w2 = "uuid_tick (utc_tick w)" and ?j = "uuid_next w"
  let ?c = "new_claims issuer subject audience (utc_now w) expiry ?j extra"
  have u: "uuid_next (utc_tick w) = ?j" by (simp add: uuid_next_def utc_tick_def)
  from assms obtain w3 w4 where
    st: "store_call (js_store_jti (dp_store D) ?j secs) ?w2 = (Ok (), w3)"
    and ad: "store_call (js_add_to_group (dp_store D) (subject_group subject) ?j expiry) w3 = (Ok (), w4)"
    and vf: "claims_is_verify (dp_store D) ?c issuer first w4 = (True, w') \<and> c = ?c"
    using v a e
    by (auto simp: claims_create_new_def step_Ok Let_def u checked_Ok)
  obtain s1 where s1: "js_store_jti (dp_store D) ?j secs (w_store w) = (Inr (), s1)"
    "w3 = ?w2\<lparr>w_store := s1\<rparr>"
    using st by (auto simp: store_call_Ok uuid_tick_def utc_tick_def)
  obtain s2 where s2: "js_add_to_group (dp_store D) (subject_group subject) ?j expiry s1 = (Inr (), s2)"
    "w4 = ?w2\<lparr>w_store := s2\<rparr>"
    using ad s1 by (auto simp: store_call_Ok)
  obtain s3 where s3: "js_check_jti (dp_store D) ?j s2 = (Inr True, s3)"
    and val: "claims_valid_at ?c issuer first (as_usize (utc_now w4))" and w': "w' = (utc_tick w4)\<lparr>w_store := s3\<rparr>"
    using vf s2 by (auto simp: claims_is_verify_True new_claims_def)
  have "issued_with D issuer subject audience ttl extra w c secs expiry s1 s2 s3"
    using v a e s1 s2 s3 vf by (simp add: issued_with_def)
  then show ?thesis
    using val w' s2(2) a vf
    by (rule_tac x = secs in exI, rule_tac x = expiry in exI, rule_tac x = s1 in exI,
        rule_tac x = s2 in exI, rule_tac x = s3 in exI)
      (simp add: uuid_tick_def utc_tick_def utc_now_def)
qed

text \<open>
  What an issued token holds. Its claims are exactly the issuer, subject, audience and custom
  claims of the call with a fresh identifier, the present as \<open>iat\<close> and \<open>nbf\<close> and the present plus
  the lifetime as \<open>exp\<close>; a requested lifetime is within the configured bounds; no custom claim has
  a reserved name; and the identifier was stored for that lifetime, indexed under the subject, and
  found again before the token left.
\<close>

theorem issued_claims:
  assumes "claims_create_new D issuer subject audience ttl extra w = (Ok c, w')"
  shows "\<exists>secs expiry s1 s2.
     c = new_claims issuer subject audience (utc_now w) expiry (uuid_next w) extra \<and>
     dp_plus D (utc_now w) (as_i64 secs) = Some expiry \<and> audience \<noteq> [] \<and>
     (\<forall>name. name \<in> fst ` set extra \<longrightarrow> name \<notin> set RESERVED_CLAIMS) \<and>
     (\<forall>t. ttl = Some t \<longrightarrow> secs = t \<and> env_u64 (dp_env D) ''TOKEN_TTL_MIN_SECONDS'' 1 \<le> t \<and>
        t \<le> env_u64 (dp_env D) ''TOKEN_TTL_MAX_SECONDS'' 86400) \<and>
     js_store_jti (dp_store D) (tc_jti c) secs (w_store w) = (Inr (), s1) \<and>
     js_add_to_group (dp_store D) (subject_group subject) (tc_jti c) expiry s1 = (Inr (), s2) \<and>
     fst (js_check_jti (dp_store D) (tc_jti c) s2) = Inr True"
proof -
  obtain secs expiry s1 s2 s3 where i: "issued_with D issuer subject audience ttl extra w c secs expiry s1 s2 s3"
    using create_new_Ok [OF assms] by (elim exE conjE)
  have r: "\<forall>name. name \<in> fst ` set extra \<longrightarrow> name \<notin> set RESERVED_CLAIMS"
    using i validate_Inr by (auto simp: issued_with_def)
  have b: "\<forall>t. ttl = Some t \<longrightarrow> secs = t \<and> env_u64 (dp_env D) ''TOKEN_TTL_MIN_SECONDS'' 1 \<le> t \<and>
        t \<le> env_u64 (dp_env D) ''TOKEN_TTL_MAX_SECONDS'' 86400"
    using i expiration_seconds_Inr by (fastforce simp: issued_with_def)
  have j: "tc_jti c = uuid_next w" using i by (simp add: issued_with_def new_claims_def)
  show ?thesis
    unfolding j
    by (rule exI [of _ secs], rule exI [of _ expiry], rule exI [of _ s1], rule exI [of _ s2])
      (use i r b in \<open>simp add: issued_with_def\<close>)
qed

text \<open>
  The lifetime is honest: with \<open>chrono\<close> adding seconds as documented and times before the
  year 292 billion, \<open>exp - iat\<close> is exactly the number of seconds the store keeps the identifier,
  and the sum does not wrap.
\<close>

theorem issued_lifetime:
  assumes "claims_create_new D issuer subject audience (Some secs) extra w = (Ok c, w')"
    and "\<And>a b e. dp_plus D a b = Some e \<Longrightarrow> e = a + b"
    and "0 \<le> utc_now w" and "utc_now w + int (unat secs) < 2 ^ 63"
  shows "uint (tc_exp c) = uint (tc_iat c) + uint secs \<and> tc_nbf c = tc_iat c"
proof -
  obtain expiry s1 s2 s3 where i: "issued_with D issuer subject audience (Some secs) extra w c secs expiry s1 s2 s3"
    using create_new_Ok [OF assms(1)] by (auto simp: issued_with_def expiration_seconds_def split: if_splits)
  have "int (unat secs) < int (2 ^ 63)" using assms(3,4) by simp
  then have small: "unat secs < 2 ^ 63" by (simp only: of_nat_less_iff)
  have e: "expiry = utc_now w + int (unat secs)"
    using i assms(2) as_i64_small [OF small] by (auto simp: issued_with_def)
  have c: "c = new_claims issuer subject audience (utc_now w) expiry (uuid_next w) extra"
    using i by (simp add: issued_with_def)
  have u: "uint (as_usize x) = x" if "0 \<le> x" "x < 2 ^ 63" for x
    using unat_as_usize [OF that] that by (simp add: uint_nat)
  have "utc_now w < 2 ^ 63" "0 \<le> expiry" "expiry < 2 ^ 63"
    using assms(3,4) e uint_ge_0 [of secs] by linarith+
  then have "uint (as_usize (utc_now w)) = utc_now w" "uint (as_usize expiry) = expiry"
    using u assms(3) by blast+
  then show ?thesis using e c by (simp add: new_claims_def)
qed

definition bad_issue_request ::
  "env \<Rightarrow> string list \<Rightarrow> u64 option \<Rightarrow> 'v json_object \<Rightarrow> bool" where
  "bad_issue_request e audience ttl extra \<longleftrightarrow>
     (\<exists>name \<in> fst ` set extra. name \<in> set RESERVED_CLAIMS) \<or>
     (extra \<noteq> [] \<and> unat (env_u64 e ''TOKEN_CLAIMS_MAX_COUNT'' 32) < length extra) \<or>
     (case ttl of None \<Rightarrow> False
      | Some t \<Rightarrow> t < env_u64 e ''TOKEN_TTL_MIN_SECONDS'' 1 \<or> env_u64 e ''TOKEN_TTL_MAX_SECONDS'' 86400 < t) \<or>
     audience = []"

text \<open>
  Requests that must be refused are refused before anything happens: a custom claim with a
  reserved name, too many claims, a lifetime outside the bounds or an empty audience ends the
  issuing with an error, and the world, the store included, is untouched.
\<close>

theorem bad_request_refused:
  assumes "bad_issue_request (dp_env D) audience ttl extra"
  shows "\<exists>e. claims_create_new D issuer subject audience ttl extra w = (Err e, w) \<and>
           (e = UnprocessableEntity \<or> e = Serialization)"
proof (cases "validate_custom_claims (dp_env D) (dp_json D) extra")
  case (Inl e)
  then have "e = UnprocessableEntity \<or> e = Serialization"
    by (auto simp: validate_custom_claims_def split: if_splits option.splits)
  then show ?thesis using Inl by (simp add: claims_create_new_def and_then_def pure_step_def)
next
  case (Inr u)
  then have v: "validate_custom_claims (dp_env D) (dp_json D) extra = Inr ()" by simp
  then have "\<not> (\<exists>name \<in> fst ` set extra. name \<in> set RESERVED_CLAIMS)"
    "\<not> (extra \<noteq> [] \<and> unat (env_u64 (dp_env D) ''TOKEN_CLAIMS_MAX_COUNT'' 32) < length extra)"
    by (auto simp: validate_custom_claims_def list_ex_iff split: if_splits)
  then have rest: "(case ttl of None \<Rightarrow> False
      | Some t \<Rightarrow> t < env_u64 (dp_env D) ''TOKEN_TTL_MIN_SECONDS'' 1 \<or>
          env_u64 (dp_env D) ''TOKEN_TTL_MAX_SECONDS'' 86400 < t) \<or> audience = []"
    using assms by (auto simp: bad_issue_request_def)
  show ?thesis
  proof (cases "expiration_seconds (dp_env D) ttl")
    case (Inl e)
    then have "e = UnprocessableEntity"
      by (auto simp: expiration_seconds_def split: if_splits option.splits)
    then show ?thesis using Inl v by (simp add: claims_create_new_def and_then_def pure_step_def)
  next
    case (Inr secs)
    then have "audience = []"
      using rest by (auto simp: expiration_seconds_def split: if_splits option.splits)
    then show ?thesis using Inr v
      by (simp add: claims_create_new_def and_then_def pure_step_def fail_def)
  qed
qed

section \<open>From issuing to verification\<close>

text \<open>
  What the round trip needs of the foreign code, as documented: base64url without padding decodes
  what it encoded and writes no dot; a signature verifies under the public half of its key over
  the same bytes and digest; and \<open>serde_json\<close> reads back what it wrote, valid UTF-8, for a header and
  for claims whose custom part has no reserved and no repeated name (a repeated member would be
  refused by the reader).
\<close>

definition lawful_crypto :: "('b, 'g, 'p, 'k) crypto \<Rightarrow> ('k \<Rightarrow> 'p \<Rightarrow> bool) \<Rightarrow> bool" where
  "lawful_crypto C pair \<longleftrightarrow>
     (\<forall>s. cr_b64_decode C (cr_b64_encode C s) = Some s \<and> CHR ''.'' \<notin> set (cr_b64_encode C s)) \<and>
     (\<forall>d k p m sig. pair k p \<longrightarrow> cr_sign C d k m = Some sig \<longrightarrow> cr_verify C d p sig m = Some True)"

definition plain_claims :: "'v token_claims \<Rightarrow> bool" where
  "plain_claims c \<longleftrightarrow> distinct (map fst (tc_extra c)) \<and>
     (\<forall>name \<in> fst ` set (tc_extra c). name \<notin> set RESERVED_CLAIMS)"

definition lawful_json :: "'v json_codec \<Rightarrow> bool" where
  "lawful_json J \<longleftrightarrow>
     (\<forall>c s. plain_claims c \<longrightarrow> sj_claims_to J c = Some s \<longrightarrow> utf8_valid s \<and> sj_claims_from J s = Some c) \<and>
     (\<forall>h s. sj_headers_to J h = Some s \<longrightarrow> utf8_valid s \<and> sj_headers_from J s = Some h)"

lemma headers_roundtrip:
  "lawful_crypto C pair \<Longrightarrow> lawful_json J \<Longrightarrow> headers_to_base64 C J h = Inr seg \<Longrightarrow>
     headers_from_base64 C J seg = Inr h \<and> CHR ''.'' \<notin> set seg"
  by (auto simp: headers_to_base64_def headers_from_base64_def segment_text_def lawful_crypto_def
      lawful_json_def split: option.splits)

lemma claims_roundtrip:
  "lawful_crypto C pair \<Longrightarrow> lawful_json J \<Longrightarrow> plain_claims c \<Longrightarrow> claims_to_base64 C J c = Inr seg \<Longrightarrow>
     claims_from_base64 C J seg = Inr c \<and> CHR ''.'' \<notin> set seg"
  by (auto simp: claims_to_base64_def claims_from_base64_def segment_text_def lawful_crypto_def
      lawful_json_def split: option.splits)

lemma token_to_string_Inr:
  assumes "token_to_string C J t = Inr token"
  obtains h c sig where "headers_to_base64 C J (jt_headers t) = Inr h"
    and "claims_to_base64 C J (jt_claims t) = Inr c"
    and "cr_sign C (digest_of_alg (th_alg (jt_headers t))) (jt_key t) (h @ ''.'' @ c) = Some sig"
    and "token = h @ ''.'' @ c @ ''.'' @ cr_b64_encode C sig"
  using assms by (auto simp: token_to_string_def split: sum.splits option.splits)

text \<open>The segments of a token the service wrote are read back as they were.\<close>

lemma token_segments:
  assumes l: "lawful_crypto C pair" "lawful_json J" and p: "plain_claims (jt_claims t)"
    and s: "token_to_string C J t = Inr token" and k: "pair (jt_key t) pub"
  shows "\<exists>h c s. split_on (CHR ''.'') token = [h, c, s] \<and>
     headers_from_base64 C J h = Inr (jt_headers t) \<and> claims_from_base64 C J c = Inr (jt_claims t) \<and>
     check_signature C (jt_headers t) pub h c s = Inr ()"
proof -
  obtain h c sig where t: "headers_to_base64 C J (jt_headers t) = Inr h"
    "claims_to_base64 C J (jt_claims t) = Inr c"
    "cr_sign C (digest_of_alg (th_alg (jt_headers t))) (jt_key t) (h @ ''.'' @ c) = Some sig"
    "token = h @ ''.'' @ c @ ''.'' @ cr_b64_encode C sig"
    using token_to_string_Inr [OF s] by blast
  note hr = headers_roundtrip [OF l t(1)] and cr = claims_roundtrip [OF l p t(2)]
  have e: "CHR ''.'' \<notin> set (cr_b64_encode C sig)" "cr_b64_decode C (cr_b64_encode C sig) = Some sig"
    using l(1) by (auto simp: lawful_crypto_def)
  have "split_on (CHR ''.'') token = [h, c, cr_b64_encode C sig]"
    using hr cr e(1) split_on_append [of "CHR ''.''" h "c @ ''.'' @ cr_b64_encode C sig"]
      split_on_append [of "CHR ''.''" c "cr_b64_encode C sig"]
    by (simp add: t(4) split_on_no_sep)
  moreover have "check_signature C (jt_headers t) pub h c (cr_b64_encode C sig) = Inr ()"
    using l(1) k t(3) e(2) unfolding check_signature_Inr lawful_crypto_def by blast
  ultimately show ?thesis using hr cr by blast
qed

text \<open>
  C16. What the service signs, it accepts: a token written by \<open>to_string\<close> passes \<open>from_string\<close> with
  the very header and claims it was made of, whenever the header passes its own check, the claims
  fit issuer, audience and time, the key manager has the public half for the \<open>kid\<close> and the store
  still holds the identifier.
\<close>

theorem signed_token_accepted:
  assumes "lawful_crypto (dp_crypto D) pair" and "lawful_json (dp_json D)"
    and "plain_claims (jt_claims t)" and "token_to_string (dp_crypto D) (dp_json D) t = Inr token"
    and "pair (jt_key t) pub" and "headers_is_verify (dp_env D) (jt_headers t)"
    and "get_public_key (dp_crypto D) (dp_server D) (th_kid (jt_headers t)) (w_keys w) = (Inr pub, m)"
    and "claims_valid_at (jt_claims t) issuer audience (as_usize (utc_now w))"
    and "js_check_jti (dp_store D) (tc_jti (jt_claims t)) (w_store w) = (Inr True, s)"
  shows "fst (token_from_string D token issuer audience w) =
     Ok \<lparr>jt_headers = jt_headers t, jt_claims = jt_claims t, jt_key = pub\<rparr>"
proof -
  obtain h c sg where seg: "split_on (CHR ''.'') token = [h, c, sg]"
    "headers_from_base64 (dp_crypto D) (dp_json D) h = Inr (jt_headers t)"
    "claims_from_base64 (dp_crypto D) (dp_json D) c = Inr (jt_claims t)"
    "check_signature (dp_crypto D) (jt_headers t) pub h c sg = Inr ()"
    using token_segments [OF assms(1-5)] by blast
  have "claims_is_verify (dp_store D) (jt_claims t) issuer audience (w\<lparr>w_keys := m\<rparr>)
      = (True, (utc_tick (w\<lparr>w_keys := m\<rparr>))\<lparr>w_store := s\<rparr>)"
    using assms(8,9) by (auto simp: claims_is_verify_True utc_now_def)
  then have "token_from_string D token issuer audience w =
      (Ok \<lparr>jt_headers = jt_headers t, jt_claims = jt_claims t, jt_key = pub\<rparr>,
       (utc_tick (w\<lparr>w_keys := m\<rparr>))\<lparr>w_store := s\<rparr>)"
    unfolding token_from_string_Ok using seg assms(6,7) by simp
  then show ?thesis by simp
qed

section \<open>With the contract of the store\<close>

context jti_store
begin

text \<open>An issued token is present for its lifetime, and indexed under its subject.\<close>

lemma issued_in_store:
  assumes D: "dp_store D = S" and w: "wf (w_store w)"
    and i: "issued_with D issuer subject audience ttl extra w c secs expiry s1 s2 s3"
    and b: "bare_key (uuid_next w)" and t: "clock s3 \<le> t"
  shows "present s3 t (tc_jti c) = (t < clock (w_store w) + uint secs)"
    and "\<bar>expiry\<bar> \<le> 2 ^ 53 \<Longrightarrow>
         present s1 (clock s1) (subject_group subject) \<longrightarrow> present s1 (clock s2) (subject_group subject) \<Longrightarrow>
         t < expiry \<Longrightarrow> grp s3 t (subject_group subject) (tc_jti c) = Some expiry"
proof -
  let ?j = "uuid_next w"
  have j: "tc_jti c = ?j" using i by (simp add: issued_with_def new_claims_def)
  have st: "js_store_jti S ?j secs (w_store w) = (Inr (), s1)"
    and ad: "js_add_to_group S (subject_group subject) ?j expiry s1 = (Inr (), s2)"
    and ck: "js_check_jti S ?j s2 = (Inr True, s3)"
    using i D by (simp_all add: issued_with_def)
  have w1: "wf s1" using wf_step [OF w, of "OpStore ?j secs"] st by simp
  have w2: "wf s2" using wf_step [OF w1, of "OpAdd (subject_group subject) ?j expiry"] ad by simp
  have t2: "clock s2 \<le> t" using clock_step [OF w2, of "OpCheck ?j"] ck t by simp
  have t1: "clock s1 \<le> t"
    using clock_step [OF w1, of "OpAdd (subject_group subject) ?j expiry"] ad t2 by simp
  have "present s3 t ?j = present s2 t ?j" using check_frame [OF w2 ck t] by blast
  also have "\<dots> = present s1 t ?j"
    using add_frame [OF w1 ad t2] b bare_key_not_prefixed(2) by blast
  also have "\<dots> = (t < clock (w_store w) + uint secs)"
    using store_result [OF w st t1, of ?j] by simp
  finally show "present s3 t (tc_jti c) = (t < clock (w_store w) + uint secs)" by (simp add: j)
  show "grp s3 t (subject_group subject) (tc_jti c) = Some expiry"
    if "\<bar>expiry\<bar> \<le> 2 ^ 53"
      "present s1 (clock s1) (subject_group subject) \<longrightarrow> present s1 (clock s2) (subject_group subject)"
      "t < expiry"
    using add_result [OF w1 ad that(1,2) t2 that(3)] check_frame [OF w2 ck t] j by metis
qed

text \<open>A revoked identifier: no token with it is accepted any more.\<close>

lemma revoked_not_accepted:
  assumes D: "dp_store D = S" and w: "wf s" and r: "js_delete_jti S j s = (Inr (), s1)"
    and x: "\<forall>x \<in> set xs. j \<notin> op_writes x" and s: "w_store w = run_ops S xs s1"
    and v: "token_from_string D token issuer audience w = (Ok t, w')"
  shows "tc_jti (jt_claims t) \<noteq> j"
proof
  assume j: "tc_jti (jt_claims t) = j"
  obtain m where "claims_is_verify S (jt_claims t) issuer audience (w\<lparr>w_keys := m\<rparr>) = (True, w')"
    using v D unfolding token_from_string_Ok by blast
  then obtain s2 where "js_check_jti S j (run_ops S xs s1) = (Inr True, s2)"
    using j s by (auto simp: claims_is_verify_True)
  then show False using deleted_stays_deleted [OF w r x] by blast
qed

lemma group_revoked_not_accepted:
  assumes D: "dp_store D = S" and w: "wf s" and r: "js_revoke_group S g s = (Inr n, s1)"
    and g: "grp s (clock s1) g j = Some e" "wall s < e"
    and x: "\<forall>x \<in> set xs. j \<notin> op_writes x" and s: "w_store w = run_ops S xs s1"
    and v: "token_from_string D token issuer audience w = (Ok t, w')"
  shows "tc_jti (jt_claims t) \<noteq> j"
proof
  assume j: "tc_jti (jt_claims t) = j"
  obtain m where "claims_is_verify S (jt_claims t) issuer audience (w\<lparr>w_keys := m\<rparr>) = (True, w')"
    using v D unfolding token_from_string_Ok by blast
  then obtain s2 where "js_check_jti S j (run_ops S xs s1) = (Inr True, s2)"
    using j s by (auto simp: claims_is_verify_True)
  then show False using group_stays_revoked [OF w r g x] by blast
qed

end

context jti_store
begin

text \<open>
  The index entry of an issued token, from a condition on the state before the issuing: an index
  that exists does not expire while the token is being issued.
\<close>

lemma issued_indexed:
  assumes D: "dp_store D = S" and w: "wf (w_store w)"
    and i: "issued_with D issuer subject audience ttl extra w c secs expiry s1 s2 s3"
    and b: "bare_key (uuid_next w)" and t: "clock s3 \<le> t" "t < expiry" "\<bar>expiry\<bar> \<le> 2 ^ 53"
    and live: "\<And>u. u \<le> clock s3 \<Longrightarrow> present (w_store w) (clock (w_store w)) (subject_group subject) \<Longrightarrow>
      present (w_store w) u (subject_group subject)"
  shows "grp s3 t (subject_group subject) (tc_jti c) = Some expiry"
proof -
  let ?j = "uuid_next w" and ?g = "subject_group subject"
  have st: "js_store_jti S ?j secs (w_store w) = (Inr (), s1)"
    and ad: "js_add_to_group S ?g ?j expiry s1 = (Inr (), s2)"
    and ck: "js_check_jti S ?j s2 = (Inr True, s3)"
    using i D by (simp_all add: issued_with_def)
  have w1: "wf s1" and c0: "clock (w_store w) \<le> clock s1"
    using wf_step [OF w, of "OpStore ?j secs"] clock_step [OF w, of "OpStore ?j secs"] st by simp_all
  have w2: "wf s2" and c1: "clock s1 \<le> clock s2"
    using wf_step [OF w1, of "OpAdd ?g ?j expiry"] clock_step [OF w1, of "OpAdd ?g ?j expiry"] ad by simp_all
  have c2: "clock s2 \<le> clock s3" using clock_step [OF w2, of "OpCheck ?j"] ck by simp
  have ne: "?g \<noteq> ?j" using b bare_key_not_prefixed(2) by metis
  have same: "present s1 u ?g = present (w_store w) u ?g" if "clock s1 \<le> u" for u
    using store_result [OF w st that, of ?g] ne by simp
  have "present s1 (clock s1) ?g \<longrightarrow> present s1 (clock s2) ?g"
    using same [OF order.refl] same [OF c1] present_decays [OF w c0] live [OF c2] by blast
  then show ?thesis
    by (rule issued_in_store(2) [OF D w i b t(1) t(3) _ t(2)])
qed

end

text \<open>What is used of \<open>chrono\<close>: exact addition, within its range of some 262000 years.\<close>

definition chrono_law :: "('b, 'g, 'p, 'k, 'v, 'n, 's) deps \<Rightarrow> bool" where
  "chrono_law D \<longleftrightarrow> (\<forall>a b e. dp_plus D a b = Some e \<longrightarrow> e = a + b \<and> \<bar>e\<bar> \<le> 2 ^ 53)"

lemma as_usize_back: "\<bar>i\<bar> \<le> 2 ^ 53 \<Longrightarrow> uint (as_usize i) < 2 ^ 63 \<Longrightarrow> uint (as_usize i) = i"
proof -
  assume a: "\<bar>i\<bar> \<le> 2 ^ 53" and u: "uint (as_usize i) < 2 ^ 63"
  have m: "uint (as_usize i) = i mod 2 ^ 64"
    by (simp add: as_usize_def uint_word_of_int take_bit_eq_mod)
  show ?thesis
  proof (cases "0 \<le> i")
    case True
    then show ?thesis using a m by simp
  next
    case False
    have "i mod 2 ^ 64 = (i + 2 ^ 64) mod 2 ^ 64" by simp
    also have "\<dots> = i + 2 ^ 64" using False a by (intro mod_pos_pos_trivial) (simp_all add: abs_le_iff)
    finally show ?thesis using m u a by (simp add: abs_le_iff)
  qed
qed

text \<open>
  A revoked token is dead: after the store confirmed the deletion of an identifier, no token
  with that identifier passes verification, for any issuer and audience and after any other
  operations on the store, unless the identifier is stored again.
\<close>

theorem revoked_token_rejected:
  assumes "redis_server R look" and "dp_store D = redis_jti_store R" and "mono (rc_time c)"
    and "redis_delete_jti R j c = (Inr (), c1)"
    and "\<forall>x \<in> set xs. j \<notin> op_writes x" and "w_store w = run_ops (redis_jti_store R) xs c1"
    and "token_from_string D token issuer audience w = (Ok t, w')"
  shows "tc_jti (jt_claims t) \<noteq> j"
  using jti_store.revoked_not_accepted
    [OF redis_server.refines_contract [OF assms(1)] assms(2) _ _ assms(5,6,7), of c]
    assms(3,4) by (simp add: rs_wf_def redis_jti_store_def)

section \<open>Witnesses\<close>

text \<open>
  A world in which a token is issued and verified: an encoding of bytes that writes no dot, a
  signature that carries the key, a serialiser for one header and one claim set, and the Redis
  client over an empty keyspace.
\<close>

fun demo_enc :: "string \<Rightarrow> string" where
  "demo_enc [] = []"
| "demo_enc (c # s) =
     (if c = CHR ''.'' then CHR ''b'' # CHR ''x'' # demo_enc s else CHR ''a'' # c # demo_enc s)"

fun demo_dec :: "string \<Rightarrow> string" where
  "demo_dec (a # c # s) = (if a = CHR ''b'' then CHR ''.'' else c) # demo_dec s"
| "demo_dec _ = []"

definition demo_b64 :: "(string, unit, string, string) crypto" where
  "demo_b64 = demo_crypto\<lparr>cr_b64_encode := demo_enc, cr_b64_decode := \<lambda>s. Some (demo_dec s)\<rparr>"

definition demo_claims :: "unit token_claims" where
  "demo_claims = new_claims ''iss'' ''alice'' [''app''] 1000 1060 ''u0'' []"

definition demo_headers :: token_headers where
  "demo_headers = \<lparr>th_alg = ''RS256'', th_kid = ''k1'', th_typ = ''JWT'', th_jku = None\<rparr>"

definition demo_json :: "unit json_codec" where
  "demo_json = \<lparr>sj_claims_to = \<lambda>c. if c = demo_claims then Some ''C'' else None,
     sj_claims_from = \<lambda>s. if s = ''C'' then Some demo_claims else None,
     sj_headers_to = \<lambda>h. if h = demo_headers then Some ''H'' else None,
     sj_headers_from = \<lambda>s. if s = ''H'' then Some demo_headers else None,
     sj_map_to = \<lambda>_. Some ''{}''\<rparr>"

definition demo_deps ::
  "(string, unit, string, string, unit, nat, keyspace redis_client) deps" where
  "demo_deps = \<lparr>dp_env = \<lambda>_. None, dp_crypto = demo_b64, dp_server = demo_service,
     dp_json = demo_json, dp_store = redis_jti_store keyspace_redis,
     dp_plus = \<lambda>a b. if \<bar>a + b\<bar> \<le> 2 ^ 53 then Some (a + b) else None\<rparr>"

definition demo_world :: "(nat, keyspace redis_client) world" where
  "demo_world = \<lparr>w_store = redis_client_init \<lparr>ks_map = Map.empty, ks_faults = []\<rparr> (\<lambda>_. 1000) (\<lambda>_. 1000),
     w_keys = demo_manager, w_utc = \<lambda>_. 1000, w_utc_tick = 0, w_uuid = \<lambda>_. ''u0'', w_uuid_tick = 0,
     w_metrics = []\<rparr>"

definition demo_token :: string where
  "demo_token = ''aH.aC.a1aaaHbxaaaC''"

definition demo_jwt :: "(unit, string) json_web_token" where
  "demo_jwt = \<lparr>jt_headers = demo_headers, jt_claims = demo_claims, jt_key = ''1''\<rparr>"

lemma demo_enc_dec: "demo_dec (demo_enc s) = s \<and> CHR ''.'' \<notin> set (demo_enc s)"
  by (induction s) auto

lemma demo_lawful_crypto: "lawful_crypto demo_b64 (=)"
  using demo_enc_dec by (simp add: lawful_crypto_def demo_b64_def demo_crypto_def)

lemma demo_lawful_json: "lawful_json demo_json"
  by (simp add: lawful_json_def demo_json_def utf8_valid.simps byte_of_def)

lemma demo_chrono: "chrono_law demo_deps"
  by (simp add: chrono_law_def demo_deps_def)

lemma demo_to_string: "token_to_string demo_b64 demo_json demo_jwt = Inr demo_token"
  by (simp add: token_to_string_def headers_to_base64_def claims_to_base64_def demo_json_def
      demo_jwt_def demo_b64_def demo_crypto_def demo_token_def)

lemma demo_pub: "fst (get_public_key demo_b64 demo_service ''k1'' demo_manager) = Inr ''1''"
  by (simp add: get_public_key_def get_jwk_def public_key_unfold demo_key_defs demo_b64_def
      public_key_of_jwk_def get_public_key_from_es_def curve_of_alg_def get_big_num_from_option_string_def)

text \<open>The world after issuing the demo token.\<close>

definition demo_issued :: "(nat, keyspace redis_client) world" where
  "demo_issued = snd (claims_create_new demo_deps ''iss'' ''alice'' [''app''] (Some 60) [] demo_world)"

lemma demo_uint: "uint (as_usize 1060) = 1060" "as_i64 60 = 60" "as_usize 1000 = 1000" "as_usize 1060 = 1060"
  by (simp_all add: as_usize_def as_i64_def)

lemma demo_issue:
  "claims_create_new demo_deps ''iss'' ''alice'' [''app''] (Some 60) [] demo_world = (Ok demo_claims, demo_issued)"
proof -
  have "fst (claims_create_new demo_deps ''iss'' ''alice'' [''app''] (Some 60) [] demo_world) = Ok demo_claims"
    by (simp add: claims_create_new_def and_then_def pure_step_def validate_custom_claims_def
        expiration_seconds_def env_u64_def demo_deps_def demo_world_def utc_now_def utc_tick_def
        uuid_next_def uuid_tick_def demo_uint Let_def store_call_def claims_is_verify_def
        claims_valid_at_def new_claims_def demo_claims_def redis_run_defs subject_group_def)
  then show ?thesis by (simp add: demo_issued_def prod_eq_iff)
qed

lemmas demo_issue_defs = claims_create_new_def and_then_def pure_step_def validate_custom_claims_def
  expiration_seconds_def env_u64_def demo_deps_def demo_world_def utc_now_def utc_tick_def
  uuid_next_def uuid_tick_def demo_uint Let_def store_call_def claims_is_verify_def
  claims_valid_at_def new_claims_def demo_claims_def redis_run_defs subject_group_def

lemma demo_issued_fields:
  "w_keys demo_issued = demo_manager" "utc_now demo_issued = 1000"
  "rc_time (w_store demo_issued) = (\<lambda>_. 1000)" "rc_manager (w_store demo_issued) = True"
  "rc_utc (w_store demo_issued) = (\<lambda>_. 1000)"
  "ks_faults (rc_server (w_store demo_issued)) = []"
  "ks_map (rc_server (w_store demo_issued)) =
     [''u0'' \<mapsto> (KStr ''1'', Some 1060), ''group:sub:alice'' \<mapsto> (KZset [(''u0'', 1060)], Some 1060)]"
  by (simp_all add: demo_issued_def demo_issue_defs)

lemma demo_present:
  "fst (redis_check_jti keyspace_redis ''u0'' (w_store demo_issued)) = Inr True"
  by (simp add: redis_check_jti_def with_connection_def redis_connection_def finish_def issue_def
      rc_clock_def ks_exec_def keyspace_redis_def k_exists_def live_def alive_def demo_issued_fields)

lemma demo_claims_fields:
  "tc_iss demo_claims = ''iss''" "tc_aud demo_claims = [''app'']" "tc_jti demo_claims = ''u0''"
  "tc_nbf demo_claims = 1000" "tc_iat demo_claims = 1000" "tc_exp demo_claims = 1060"
  "tc_extra demo_claims = []"
  by (simp_all add: demo_claims_def new_claims_def demo_uint)

lemma demo_headers_ok: "headers_is_verify (\<lambda>_. None) demo_headers"
  by (simp add: headers_is_verify_def demo_headers_def SUPPORTED_ALGORITHMS_def)

lemma demo_valid: "claims_valid_at demo_claims ''iss'' ''app'' 1000"
  by (simp add: claims_valid_at_def demo_claims_fields)

lemma demo_verified:
  "\<exists>w'. token_from_string demo_deps demo_token ''iss'' ''app'' demo_issued = (Ok demo_jwt, w')"
proof -
  obtain m where m: "get_public_key demo_b64 demo_service ''k1'' demo_manager = (Inr ''1'', m)"
    using demo_pub by (metis prod.collapse)
  obtain s where "js_check_jti (redis_jti_store keyspace_redis) ''u0'' (w_store demo_issued) = (Inr True, s)"
    using demo_present by (simp add: redis_jti_store_def) (metis prod.collapse)
  then have v: "claims_is_verify (redis_jti_store keyspace_redis) demo_claims ''iss'' ''app''
      (demo_issued\<lparr>w_keys := m\<rparr>) = (True, (utc_tick (demo_issued\<lparr>w_keys := m\<rparr>))\<lparr>w_store := s\<rparr>)"
    using demo_valid demo_issued_fields(2)
    by (simp add: claims_is_verify_True demo_claims_fields utc_now_def demo_uint)
  have seg: "split_on (CHR ''.'') demo_token = [''aH'', ''aC'', ''a1aaaHbxaaaC'']"
    by (simp add: demo_token_def)
  have "token_from_string demo_deps demo_token ''iss'' ''app'' demo_issued
      = (Ok demo_jwt, (utc_tick (demo_issued\<lparr>w_keys := m\<rparr>))\<lparr>w_store := s\<rparr>)"
    unfolding token_from_string_Ok seg using v m demo_headers_ok
    by (simp add: demo_deps_def headers_from_base64_def claims_from_base64_def segment_text_def
        demo_json_def utf8_valid.simps byte_of_def check_signature_def demo_issued_fields demo_jwt_def
        demo_headers_def demo_b64_def demo_crypto_def)
  then show ?thesis by blast
qed

lemma verification_sound_witness:
  "th_alg demo_headers \<in> set SUPPORTED_ALGORITHMS \<and> (1000 :: u64) < tc_exp demo_claims \<and>
   fst (js_check_jti (dp_store demo_deps) ''u0'' (w_store demo_issued)) = Inr True"
proof -
  obtain w' where "token_from_string demo_deps demo_token ''iss'' ''app'' demo_issued = (Ok demo_jwt, w')"
    using demo_verified by blast
  from verification_sound [OF this] show ?thesis
    by (auto simp: demo_jwt_def demo_claims_fields demo_issued_fields demo_uint)
qed

lemma trailing_segment_ignored_witness:
  "token_from_string demo_deps (demo_token @ CHR ''.'' # ''junk'') ''iss'' ''app'' demo_issued =
   token_from_string demo_deps demo_token ''iss'' ''app'' demo_issued"
  by (rule trailing_segment_ignored) (simp add: demo_token_def)

lemma issued_claims_witness:
  "\<exists>s1 s2 secs expiry. js_store_jti (dp_store demo_deps) ''u0'' secs (w_store demo_world) = (Inr (), s1) \<and>
     js_add_to_group (dp_store demo_deps) (subject_group ''alice'') ''u0'' expiry s1 = (Inr (), s2)"
  using issued_claims [OF demo_issue] by (auto simp: demo_claims_fields)

lemma issued_lifetime_witness: "uint (tc_exp demo_claims) = uint (tc_iat demo_claims) + 60"
proof -
  have "uint (tc_exp demo_claims) = uint (tc_iat demo_claims) + uint (60 :: u64) \<and>
      tc_nbf demo_claims = tc_iat demo_claims"
    by (rule issued_lifetime [OF demo_issue])
      (simp_all add: demo_deps_def demo_world_def utc_now_def split: if_splits)
  then show ?thesis by simp
qed

lemma bad_request_refused_witness:
  "\<exists>e. claims_create_new demo_deps ''iss'' ''alice'' [''app''] None [(''exp'', ())] demo_world = (Err e, demo_world)"
  using bad_request_refused [of demo_deps "[''app'']" None "[(''exp'', ())]" "''iss''" "''alice''" demo_world]
  by (auto simp: bad_issue_request_def RESERVED_CLAIMS_def)

lemma signed_token_accepted_witness:
  "fst (token_from_string demo_deps demo_token ''iss'' ''app'' demo_issued) =
     Ok \<lparr>jt_headers = demo_headers, jt_claims = demo_claims, jt_key = ''1''\<rparr>"
proof -
  obtain m where m: "get_public_key demo_b64 demo_service ''k1'' demo_manager = (Inr ''1'', m)"
    using demo_pub by (metis prod.collapse)
  obtain s where s: "js_check_jti (redis_jti_store keyspace_redis) ''u0'' (w_store demo_issued) = (Inr True, s)"
    using demo_present by (simp add: redis_jti_store_def) (metis prod.collapse)
  have "fst (token_from_string demo_deps demo_token ''iss'' ''app'' demo_issued) =
     Ok \<lparr>jt_headers = jt_headers demo_jwt, jt_claims = jt_claims demo_jwt, jt_key = ''1''\<rparr>"
  proof (rule signed_token_accepted [where pair = "(=)"])
    show "lawful_crypto (dp_crypto demo_deps) (=)" "lawful_json (dp_json demo_deps)"
      using demo_lawful_crypto demo_lawful_json by (simp_all add: demo_deps_def)
    show "plain_claims (jt_claims demo_jwt)" by (simp add: plain_claims_def demo_jwt_def demo_claims_fields)
    show "token_to_string (dp_crypto demo_deps) (dp_json demo_deps) demo_jwt = Inr demo_token"
      using demo_to_string by (simp add: demo_deps_def)
    show "jt_key demo_jwt = ''1''" by (simp add: demo_jwt_def)
    show "headers_is_verify (dp_env demo_deps) (jt_headers demo_jwt)"
      using demo_headers_ok by (simp add: demo_deps_def demo_jwt_def)
    show "get_public_key (dp_crypto demo_deps) (dp_server demo_deps) (th_kid (jt_headers demo_jwt))
        (w_keys demo_issued) = (Inr ''1'', m)"
      using m by (simp add: demo_deps_def demo_jwt_def demo_headers_def demo_issued_fields)
    show "claims_valid_at (jt_claims demo_jwt) ''iss'' ''app'' (as_usize (utc_now demo_issued))"
      using demo_valid by (simp add: demo_jwt_def demo_issued_fields demo_uint)
    show "js_check_jti (dp_store demo_deps) (tc_jti (jt_claims demo_jwt)) (w_store demo_issued) = (Inr True, s)"
      using s by (simp add: demo_deps_def demo_jwt_def demo_claims_fields)
  qed
  then show ?thesis by (simp add: demo_jwt_def)
qed

text \<open>The demo token is revoked, and then refused.\<close>

definition demo_deleted :: "(nat, keyspace redis_client) world" where
  "demo_deleted = demo_issued\<lparr>w_store := snd (redis_delete_jti keyspace_redis ''u0'' (w_store demo_issued))\<rparr>"

definition demo_killed :: "(nat, keyspace redis_client) world" where
  "demo_killed = demo_issued\<lparr>w_store :=
     snd (redis_revoke_group keyspace_redis (subject_group ''alice'') (w_store demo_issued))\<rparr>"

lemma revoked_token_rejected_witness:
  "fst (token_from_string demo_deps demo_token ''iss'' ''app'' demo_deleted) \<noteq> Ok demo_jwt"
proof
  assume "fst (token_from_string demo_deps demo_token ''iss'' ''app'' demo_deleted) = Ok demo_jwt"
  then obtain w' where v: "token_from_string demo_deps demo_token ''iss'' ''app'' demo_deleted = (Ok demo_jwt, w')"
    by (metis prod.collapse)
  have d: "redis_delete_jti keyspace_redis ''u0'' (w_store demo_issued) = (Inr (), w_store demo_deleted)"
    by (simp add: demo_deleted_def prod_eq_iff redis_delete_jti_def with_connection_def
        redis_connection_def finish_def issue_def keyspace_redis_def ks_exec_def k_del_def demo_issued_fields)
  have "tc_jti (jt_claims demo_jwt) \<noteq> ''u0''"
    by (rule revoked_token_rejected [OF ks.redis_server_axioms _ _ d _ _ v, where xs = "[]"])
      (simp_all add: demo_deps_def demo_issued_fields mono_def)
  then show False by (simp add: demo_jwt_def demo_claims_fields)
qed

end
