(* ===== verification/Store_Tasks.thy ===== *)
theory Store_Tasks
  imports Tasks Jti_Store
begin

text \<open>
  The \<open>JtiStore\<close> trait as what it is in the source, a trait of asynchronous methods: each method is a
  task over the state of the backend, and between two of its calls to the backend other requests may
  run. The locale \<open>jti_tasks\<close> extends the contract of the trait by what concurrent callers rely on:
  a relation \<open>act x\<close> that every call made for the operation \<open>x\<close> keeps to, and for the operations that
  decide something the one call that decides it. \<open>late e s\<close> says that the process's clock reads less
  than \<open>e\<close> from now on.
\<close>

section \<open>The trait\<close>

record 's store_tasks =
  st_ping :: "('s, jti_error + unit) task"
  st_store_jti :: "string \<Rightarrow> u64 \<Rightarrow> ('s, jti_error + unit) task"
  st_check_jti :: "string \<Rightarrow> ('s, jti_error + bool) task"
  st_delete_jti :: "string \<Rightarrow> ('s, jti_error + unit) task"
  st_add_to_group :: "string \<Rightarrow> string \<Rightarrow> int \<Rightarrow> ('s, jti_error + unit) task"
  st_revoke_group :: "string \<Rightarrow> ('s, jti_error + u64) task"
  st_store_refresh :: "string \<Rightarrow> refresh_record \<Rightarrow> u64 \<Rightarrow> ('s, jti_error + unit) task"
  st_get_refresh :: "string \<Rightarrow> ('s, jti_error + refresh_record option) task"
  st_mark_refresh_used :: "string \<Rightarrow> ('s, jti_error + bool) task"
  st_claim_totp_code :: "string \<Rightarrow> u64 \<Rightarrow> ('s, jti_error + bool) task"

text \<open>The methods run with nothing in between: the store of the sequential theories.\<close>

definition store_of :: "'s store_tasks \<Rightarrow> 's jti_store" where
  "store_of T =
     \<lparr>js_ping = run (st_ping T),
      js_store_jti = \<lambda>j ttl. run (st_store_jti T j ttl),
      js_check_jti = \<lambda>j. run (st_check_jti T j),
      js_delete_jti = \<lambda>j. run (st_delete_jti T j),
      js_add_to_group = \<lambda>g j e. run (st_add_to_group T g j e),
      js_revoke_group = \<lambda>g. run (st_revoke_group T g),
      js_store_refresh = \<lambda>i r ttl. run (st_store_refresh T i r ttl),
      js_get_refresh = \<lambda>i. run (st_get_refresh T i),
      js_mark_refresh_used = \<lambda>i. run (st_mark_refresh_used T i),
      js_claim_totp_code = \<lambda>h ttl. run (st_claim_totp_code T h ttl)\<rparr>"

lemma store_of_simps [simp]:
  "js_ping (store_of T) = run (st_ping T)" "js_store_jti (store_of T) j ttl = run (st_store_jti T j ttl)"
  "js_check_jti (store_of T) j = run (st_check_jti T j)"
  "js_delete_jti (store_of T) j = run (st_delete_jti T j)"
  "js_add_to_group (store_of T) g j e = run (st_add_to_group T g j e)"
  "js_revoke_group (store_of T) g = run (st_revoke_group T g)"
  "js_store_refresh (store_of T) i r ttl = run (st_store_refresh T i r ttl)"
  "js_get_refresh (store_of T) i = run (st_get_refresh T i)"
  "js_mark_refresh_used (store_of T) i = run (st_mark_refresh_used T i)"
  "js_claim_totp_code (store_of T) h ttl = run (st_claim_totp_code T h ttl)"
  by (simp_all add: store_of_def)

section \<open>The contract\<close>

text \<open>All calls of a task are in \<open>G\<close>.\<close>

abbreviation only :: "('s \<Rightarrow> 's \<Rightarrow> bool) \<Rightarrow> ('s, 'a) task \<Rightarrow> bool" where
  "only G \<equiv> within (\<lambda>_. True) G (\<lambda>_. True)"

text \<open>The call of an operation, as a task, makes only calls in \<open>act x\<close>.\<close>

fun acts :: "'s store_tasks \<Rightarrow> (store_op \<Rightarrow> 's \<Rightarrow> 's \<Rightarrow> bool) \<Rightarrow> store_op \<Rightarrow> bool" where
  "acts T act OpPing = only (act OpPing) (st_ping T)"
| "acts T act (OpStore j ttl) = only (act (OpStore j ttl)) (st_store_jti T j ttl)"
| "acts T act (OpCheck j) = only (act (OpCheck j)) (st_check_jti T j)"
| "acts T act (OpDelete j) = only (act (OpDelete j)) (st_delete_jti T j)"
| "acts T act (OpAdd g j e) = only (act (OpAdd g j e)) (st_add_to_group T g j e)"
| "acts T act (OpRevoke g) = only (act (OpRevoke g)) (st_revoke_group T g)"
| "acts T act (OpStoreRefresh i r ttl) = only (act (OpStoreRefresh i r ttl)) (st_store_refresh T i r ttl)"
| "acts T act (OpGetRefresh i) = only (act (OpGetRefresh i)) (st_get_refresh T i)"
| "acts T act (OpMark i) = only (act (OpMark i)) (st_mark_refresh_used T i)"
| "acts T act (OpClaim h ttl) = only (act (OpClaim h ttl)) (st_claim_totp_code T h ttl)"

text \<open>A failed operation.\<close>

definition failed :: "'e + 'a \<Rightarrow> bool" where
  "failed x \<longleftrightarrow> (\<exists>e. x = Inl e)"

lemma failed_simps [simp]: "failed (Inl e)" "\<not> failed (Inr a)"
  by (simp_all add: failed_def)

locale jti_tasks = jti_store S wf clock wall present grp refresh_of used
  for S :: "'s jti_store" and wf clock wall present grp refresh_of used +
  fixes T :: "'s store_tasks"
    and act :: "store_op \<Rightarrow> 's \<Rightarrow> 's \<Rightarrow> bool"
    and late :: "int \<Rightarrow> 's \<Rightarrow> bool"
  assumes sequential: "store_of T = S"
    and acts: "acts T act x"
    and act_wf: "wf s \<Longrightarrow> act x s s' \<Longrightarrow> wf s'"
    and act_clock: "wf s \<Longrightarrow> act x s s' \<Longrightarrow> clock s \<le> clock s'"
    and act_absent: "wf s \<Longrightarrow> act x s s' \<Longrightarrow> k \<notin> op_writes x \<Longrightarrow> clock s' \<le> t \<Longrightarrow>
          present s' t k \<Longrightarrow> present s t k"
    and act_present: "wf s \<Longrightarrow> act x s s' \<Longrightarrow> k \<notin> op_removes x \<Longrightarrow> clock s' \<le> t \<Longrightarrow>
          present s t k \<Longrightarrow> present s' t k"
    and act_spent: "wf s \<Longrightarrow> act x s s' \<Longrightarrow> refresh_key i \<notin> op_writes x \<or> x = OpMark i \<Longrightarrow>
          clock s' \<le> t \<Longrightarrow> present s t (refresh_key i) \<longrightarrow> used s t i \<Longrightarrow>
          present s' t (refresh_key i) \<Longrightarrow> used s' t i"
    and act_group: "wf s \<Longrightarrow> act x s s' \<Longrightarrow> g \<notin> op_writes x \<Longrightarrow> g \<notin> op_removes x \<Longrightarrow> clock s' \<le> t \<Longrightarrow>
          grp s' t g = grp s t g"
    and check_decides: "one_call (act (OpCheck j))
          (\<lambda>s x s'. wf s \<longrightarrow> (\<forall>b. x = Inr b \<longrightarrow> b = present s (clock s) j)) failed (st_check_jti T j)"
    and delete_secures: "secures wf (act (OpDelete j)) (\<lambda>s. \<forall>t. clock s \<le> t \<longrightarrow> \<not> present s t j) failed
          (\<lambda>_. True) (st_delete_jti T j)"
    and revoke_secures: "secures wf (act (OpRevoke g))
          (\<lambda>s. clock s \<le> t0 \<longrightarrow> (\<forall>t. clock s \<le> t \<longrightarrow> \<not> present s t j)) failed
          (\<lambda>s. late e s \<and> (clock s \<le> t0 \<longrightarrow> grp s t0 g j = Some e)) (st_revoke_group T g)"
    and act_late: "act x s s' \<Longrightarrow> late e s \<Longrightarrow> late e s'"
    and mark_decides: "one_call (act (OpMark i))
          (\<lambda>s x s'. wf s \<longrightarrow> (\<forall>b. x = Inr b \<longrightarrow> b = (\<not> used s (clock s) i) \<and>
             (\<forall>t. clock s' \<le> t \<longrightarrow> present s' t (refresh_key i) \<longrightarrow> used s' t i))) failed
          (st_mark_refresh_used T i)"

end
