(* ===== verification/Redis_Tasks.thy ===== *)
theory Redis_Tasks
  imports Store_Tasks Redis_Contract
begin

text \<open>
  The client of \<open>src/redis.rs\<close> with every command a step of its own: the connection, each command as
  the server executes it, the reading of the process's clock and the return of the answer are the
  points between which other requests run. Run with nothing in between the tasks are the operations
  of \<open>Redis_Store\<close>, and over a server with the documented effects they keep the contract
  \<open>jti_tasks\<close>.
\<close>

section \<open>The operations\<close>

definition connected :: "'r redis \<Rightarrow> ('r redis_client, jti_error + 'a) task \<Rightarrow> ('r redis_client, jti_error + 'a) task" where
  "connected R k = try_task (call (redis_connection R)) (\<lambda>_. k)"

definition command :: "(int \<Rightarrow> 'r \<Rightarrow> (redis_error + 'a) \<times> 'r) \<Rightarrow> ('r redis_client, redis_error + 'a) task" where
  "command cmd = call (issue cmd)"

definition finish_task ::
  "string \<Rightarrow> ('r redis_client, redis_error + 'a) task \<Rightarrow> ('r redis_client, jti_error + 'a) task" where
  "finish_task name t = then_task t (\<lambda>r. call (\<lambda>c. finish name (r, c)))"

definition ping_task :: "'r redis \<Rightarrow> ('r redis_client, jti_error + unit) task" where
  "ping_task R = connected R (finish_task ''ping'' (command (rd_ping R)))"

definition store_jti_task :: "'r redis \<Rightarrow> string \<Rightarrow> u64 \<Rightarrow> ('r redis_client, jti_error + unit) task" where
  "store_jti_task R jti ttl = connected R (finish_task ''store_jti'' (command (rd_set_ex R jti ''1'' ttl)))"

definition check_jti_task :: "'r redis \<Rightarrow> string \<Rightarrow> ('r redis_client, jti_error + bool) task" where
  "check_jti_task R jti = connected R (finish_task ''check_jti'' (command (rd_exists R jti)))"

definition delete_jti_task :: "'r redis \<Rightarrow> string \<Rightarrow> ('r redis_client, jti_error + unit) task" where
  "delete_jti_task R jti = connected R (finish_task ''delete_jti'' (command (rd_del R [jti])))"

definition add_to_group_task ::
  "'r redis \<Rightarrow> string \<Rightarrow> string \<Rightarrow> int \<Rightarrow> ('r redis_client, jti_error + unit) task" where
  "add_to_group_task R gkey jti expires_at =
     connected R (finish_task ''add_to_group''
       (try_task (command (rd_zadd R gkey jti expires_at))
          (\<lambda>_. command (rd_expire_at R gkey expires_at))))"

definition revoke_group_task :: "'r redis \<Rightarrow> string \<Rightarrow> ('r redis_client, jti_error + u64) task" where
  "revoke_group_task R gkey =
     connected R (then_task (call redis_utc_now) (\<lambda>now. finish_task ''revoke_group''
       (try_task (command (rd_zrembyscore R gkey now)) (\<lambda>_.
        try_task (command (rd_zrange R gkey)) (\<lambda>jtis.
        try_task (if jtis \<noteq> [] then command (rd_del R jtis) else Finished (Inr ())) (\<lambda>_.
        try_task (command (rd_del R [gkey])) (\<lambda>_.
          Finished (Inr (of_nat (length jtis))))))))))"

definition store_refresh_task ::
  "'r redis \<Rightarrow> string \<Rightarrow> refresh_record \<Rightarrow> u64 \<Rightarrow> ('r redis_client, jti_error + unit) task" where
  "store_refresh_task R i rec ttl =
     connected R
       (case rd_json_of_strings R (rr_audience rec) of
          None \<Rightarrow> Finished (Inl JtiWrongOperation)
        | Some audience \<Rightarrow> finish_task ''store_refresh''
            (try_task (command (rd_hset_multiple R (refresh_key i)
                [(''sub'', rr_subject rec), (''aud'', audience), (''family'', rr_family rec)]))
               (\<lambda>_. command (rd_expire R (refresh_key i) (as_i64 ttl)))))"

definition get_refresh_task ::
  "'r redis \<Rightarrow> string \<Rightarrow> ('r redis_client, jti_error + refresh_record option) task" where
  "get_refresh_task R i =
     connected R (try_task (finish_task ''get_refresh'' (command (rd_hgetall R (refresh_key i))))
       (\<lambda>kvs. Finished (Inr (if kvs = [] then None else record_of_fields R (map_of kvs)))))"

definition mark_refresh_used_task :: "'r redis \<Rightarrow> string \<Rightarrow> ('r redis_client, jti_error + bool) task" where
  "mark_refresh_used_task R i =
     connected R (finish_task ''mark_refresh_used'' (command (rd_hset_nx R (refresh_key i) ''used'' ''1'')))"

definition claim_totp_code_task ::
  "'r redis \<Rightarrow> string \<Rightarrow> u64 \<Rightarrow> ('r redis_client, jti_error + bool) task" where
  "claim_totp_code_task R hash ttl =
     connected R (try_task (finish_task ''claim_totp_code'' (command (rd_set_nx_ex R (totp_code_key hash) ''1'' ttl)))
       (\<lambda>result. Finished (Inr (result \<noteq> None))))"

definition redis_tasks :: "'r redis \<Rightarrow> 'r redis_client store_tasks" where
  "redis_tasks R =
     \<lparr>st_ping = ping_task R,
      st_store_jti = store_jti_task R,
      st_check_jti = check_jti_task R,
      st_delete_jti = delete_jti_task R,
      st_add_to_group = add_to_group_task R,
      st_revoke_group = revoke_group_task R,
      st_store_refresh = store_refresh_task R,
      st_get_refresh = get_refresh_task R,
      st_mark_refresh_used = mark_refresh_used_task R,
      st_claim_totp_code = claim_totp_code_task R\<rparr>"

lemmas redis_task_defs = ping_task_def store_jti_task_def check_jti_task_def delete_jti_task_def
  add_to_group_task_def revoke_group_task_def store_refresh_task_def get_refresh_task_def
  mark_refresh_used_task_def claim_totp_code_task_def

lemma redis_tasks_simps [simp]:
  "st_ping (redis_tasks R) = ping_task R" "st_store_jti (redis_tasks R) = store_jti_task R"
  "st_check_jti (redis_tasks R) = check_jti_task R" "st_delete_jti (redis_tasks R) = delete_jti_task R"
  "st_add_to_group (redis_tasks R) = add_to_group_task R"
  "st_revoke_group (redis_tasks R) = revoke_group_task R"
  "st_store_refresh (redis_tasks R) = store_refresh_task R"
  "st_get_refresh (redis_tasks R) = get_refresh_task R"
  "st_mark_refresh_used (redis_tasks R) = mark_refresh_used_task R"
  "st_claim_totp_code (redis_tasks R) = claim_totp_code_task R"
  by (simp_all add: redis_tasks_def)

section \<open>Run with nothing in between\<close>

lemma run_connected [simp]: "run (connected R k) = with_connection R (run k)"
  by (simp add: fun_eq_iff connected_def with_connection_def split: prod.splits sum.splits)

lemma run_command [simp]: "run (command cmd) = issue cmd"
  by (simp add: command_def)

lemma run_finish_task [simp]: "run (finish_task name t) = (\<lambda>c. finish name (run t c))"
  by (simp add: fun_eq_iff finish_task_def split: prod.splits)

lemma with_connection_cong: "(\<And>c. f c = g c) \<Longrightarrow> with_connection R f = with_connection R g"
  by presburger

lemma run_redis_tasks [simp]:
  "run (ping_task R) = redis_ping R" "run (store_jti_task R j ttl) = redis_store_jti R j ttl"
  "run (check_jti_task R j) = redis_check_jti R j" "run (delete_jti_task R j) = redis_delete_jti R j"
  "run (mark_refresh_used_task R i) = redis_mark_refresh_used R i"
  by (simp_all add: redis_task_defs redis_ping_def redis_store_jti_def redis_check_jti_def
      redis_delete_jti_def redis_mark_refresh_used_def)

lemma run_add_to_group [simp]: "run (add_to_group_task R g j e) = redis_add_to_group R g j e"
  unfolding add_to_group_task_def redis_add_to_group_def run_connected
  by (rule with_connection_cong) (auto split: prod.splits sum.splits)

lemma run_store_refresh [simp]: "run (store_refresh_task R i rec ttl) = redis_store_refresh R i rec ttl"
  unfolding store_refresh_task_def redis_store_refresh_def run_connected
  by (rule with_connection_cong) (auto split: option.splits prod.splits sum.splits)

lemma run_get_refresh [simp]: "run (get_refresh_task R i) = redis_get_refresh R i"
  unfolding get_refresh_task_def redis_get_refresh_def run_connected
  by (rule with_connection_cong) (auto split: prod.splits sum.splits)

lemma run_claim [simp]: "run (claim_totp_code_task R h ttl) = redis_claim_totp_code R h ttl"
  unfolding claim_totp_code_task_def redis_claim_totp_code_def run_connected
  by (rule with_connection_cong) (auto split: prod.splits sum.splits)

lemma run_revoke_group [simp]: "run (revoke_group_task R g) = redis_revoke_group R g"
  unfolding revoke_group_task_def redis_revoke_group_def run_connected
  by (rule with_connection_cong) (auto split: prod.splits sum.splits)

lemma store_of_redis [simp]: "store_of (redis_tasks R) = redis_jti_store R"
  by (simp add: store_of_def redis_jti_store_def)

section \<open>What one step may do\<close>

text \<open>
  A step made for the operation \<open>x\<close>: it writes and removes no keys but those of \<open>x\<close>, leaves the values
  of all others as they are, and a mark turns no marked record into an unmarked one.
\<close>

definition redis_act :: "('r \<Rightarrow> view) \<Rightarrow> store_op \<Rightarrow> 'r redis_client \<Rightarrow> 'r redis_client \<Rightarrow> bool" where
  "redis_act look x c c' \<longleftrightarrow>
     client_step look (op_writes x) (op_removes x) c c' \<and>
     rc_utc c' = rc_utc c \<and> rc_utc_tick c \<le> rc_utc_tick c' \<and>
     (mono (rc_time c) \<longrightarrow> (\<forall>t. rc_clock c' \<le> t \<longrightarrow>
        (\<forall>k. k \<notin> op_writes x \<longrightarrow> k \<notin> op_removes x \<longrightarrow> look (rc_server c') t k = look (rc_server c) t k) \<and>
        (\<forall>i. x = OpMark i \<longrightarrow> (rs_present look c t (refresh_key i) \<longrightarrow> rs_used look c t i) \<longrightarrow>
           rs_present look c' t (refresh_key i) \<longrightarrow> rs_used look c' t i)))"

lemma quiet_act:
  "rc_time c' = rc_time c \<Longrightarrow> rc_clock c' = rc_clock c \<Longrightarrow> look (rc_server c') = look (rc_server c) \<Longrightarrow>
     rc_utc c' = rc_utc c \<Longrightarrow> rc_utc_tick c \<le> rc_utc_tick c' \<Longrightarrow> redis_act look x c c'"
  by (simp add: redis_act_def client_step_def rs_views)

lemma recorded_act [simp]: "redis_act look x c (record_redis_command name ok c)"
  by (rule quiet_act) (simp_all add: record_redis_command_def rc_clock_def)

lemma finish_act: "finish name (r, c) = (y, c') \<Longrightarrow> redis_act look x c c'"
  by (rule quiet_act)
    (auto simp: finish_def record_redis_command_def rc_clock_def split: sum.splits)

lemma utc_act: "redis_utc_now c = (y, c') \<Longrightarrow> redis_act look x c c'"
  by (rule quiet_act) (auto simp: redis_utc_now_def rc_clock_def)

text \<open>A key that is gone, and stays so while nobody writes it.\<close>

definition absent :: "('r \<Rightarrow> view) \<Rightarrow> string \<Rightarrow> 'r redis_client \<Rightarrow> bool" where
  "absent look j c \<longleftrightarrow> (\<forall>t. rc_clock c \<le> t \<longrightarrow> \<not> rs_present look c t j)"

text \<open>From now on the process's clock reads less than \<open>e\<close>.\<close>

definition rs_late :: "int \<Rightarrow> 'r redis_client \<Rightarrow> bool" where
  "rs_late e c \<longleftrightarrow> (\<forall>n \<ge> rc_utc_tick c. rc_utc c n < e)"

lemma late_act: "redis_act look x c c' \<Longrightarrow> rs_late e c \<Longrightarrow> rs_late e c'"
  by (auto simp: redis_act_def rs_late_def)

text \<open>An effect that leaves all keys but those in \<open>K\<close> as they are.\<close>

definition frames :: "string set \<Rightarrow> (int \<Rightarrow> view \<Rightarrow> view) \<Rightarrow> bool" where
  "frames K eff \<longleftrightarrow> (\<forall>t V t' k. k \<notin> K \<longrightarrow> eff t V t' k = V t' k)"

lemma frames_effects [simp]:
  "frames K eff_none"
  "k \<in> K \<Longrightarrow> frames K (eff_set_ex k v ttl)"
  "set ks \<subseteq> K \<Longrightarrow> frames K (eff_del ks)"
  "k \<in> K \<Longrightarrow> frames K (eff_expire_at k e)"
  "k \<in> K \<Longrightarrow> frames K (eff_expire k secs)"
  "k \<in> K \<Longrightarrow> frames K (eff_hset k kvs)"
  "k \<in> K \<Longrightarrow> frames K (eff_hset_nx k f v)"
  "k \<in> K \<Longrightarrow> frames K (eff_set_nx_ex k v ttl)"
  "frames UNIV eff"
  by (auto simp: frames_def effects)

lemma issue_utc: "issue cmd c = (y, c') \<Longrightarrow> rc_utc c' = rc_utc c \<and> rc_utc_tick c' = rc_utc_tick c"
  by (auto simp: issue_def split: prod.splits)

context redis_server
begin

lemma connection_act: "redis_connection R c = (y, c') \<Longrightarrow> redis_act look x c c'"
  by (rule quiet_act)
    (auto simp: redis_connection_def rc_clock_def split: if_splits prod.splits sum.splits dest: connect)

lemma issue_act:
  assumes ob: "obeys look cmd eff ans" and kp: "keeps (op_writes x) (op_removes x) eff"
    and fr: "frames (op_writes x \<union> op_removes x) eff" and nm: "\<And>i. x \<noteq> OpMark i"
    and iss: "issue cmd c = (y, c')"
  shows "redis_act look x c c'"
proof -
  have "look (rc_server c') t k = look (rc_server c) t k"
    if "mono (rc_time c)" "rc_clock c' \<le> t" "k \<notin> op_writes x" "k \<notin> op_removes x" for t k
  proof -
    have "rc_clock c \<le> t" using issue_clock [OF that(1) iss] that(2) by simp
    then show ?thesis
      using issue_any [OF ob iss] fr that(3,4) by (auto dest!: agreeD [where t' = t and k = k] simp: frames_def)
  qed
  then show ?thesis using issue_step [OF ob kp iss] issue_utc [OF iss] nm by (simp add: redis_act_def)
qed

lemma mark_act:
  assumes iss: "issue (rd_hset_nx R (refresh_key i) ''used'' ''1'') c = (y, c')"
  shows "redis_act look (OpMark i) c c'"
  unfolding redis_act_def
proof (intro conjI impI allI)
  show "client_step look (op_writes (OpMark i)) (op_removes (OpMark i)) c c'"
    by (rule issue_step [OF hset_nx _ iss]) simp
  show "rc_utc c' = rc_utc c" "rc_utc_tick c \<le> rc_utc_tick c'" using issue_utc [OF iss] by simp_all
  fix t
  assume m: "mono (rc_time c)" and t: "rc_clock c' \<le> t"
  have le: "rc_clock c \<le> t" using issue_clock [OF m iss] t by simp
  note e = issue_any [OF hset_nx iss]
  show "look (rc_server c') t k = look (rc_server c) t k" if "k \<notin> op_writes (OpMark i)" for k
    using e le that by (auto dest!: agreeD [where t' = t and k = k] simp: eff_hset_nx_def put_def)
  fix j
  assume "OpMark i = OpMark j" and "rs_present look c t (refresh_key j) \<longrightarrow> rs_used look c t j"
    and "rs_present look c' t (refresh_key j)"
  then show "rs_used look c' t j"
    using e le decaysD [OF look_decays le, of "rc_server c" "refresh_key j"]
    by (auto dest!: agreeD [where t' = t and k = "refresh_key j"] simp: rs_views eff_hset_nx_def put_def
        split: if_splits)
qed

lemma zadd_act:
  assumes "issue (rd_zadd R g j e) c = (y, c')"
  shows "redis_act look (OpAdd g j e') c c'"
proof -
  have "look (rc_server c') t k = look (rc_server c) t k"
    if "mono (rc_time c)" "rc_clock c' \<le> t" "k \<noteq> g" for t k
    using issue_clock [OF that(1) assms] that(2,3) by (intro zadd_frame [OF assms]) auto
  then show ?thesis using zadd_step [OF assms, of "{g}" "{g}"] issue_utc [OF assms] by (simp add: redis_act_def)
qed

text \<open>The tasks make no other calls.\<close>

lemma only_call: "(\<And>c y c'. f c = (y, c') \<Longrightarrow> redis_act look x c c') \<Longrightarrow> only (redis_act look x) (call f)"
  by (rule within_call) simp

lemma only_connected: "only (redis_act look x) k \<Longrightarrow> only (redis_act look x) (connected R k)"
  unfolding connected_def by (intro within_try only_call) (auto intro: connection_act)

lemma only_finish: "only (redis_act look x) t \<Longrightarrow> only (redis_act look x) (finish_task name t)"
  unfolding finish_task_def
  by (rule within_then, assumption) (auto intro: only_call finish_act)

lemma only_command:
  "obeys look cmd eff ans \<Longrightarrow> keeps (op_writes x) (op_removes x) eff \<Longrightarrow>
     frames (op_writes x \<union> op_removes x) eff \<Longrightarrow> (\<And>i. x \<noteq> OpMark i) \<Longrightarrow>
     only (redis_act look x) (command cmd)"
  unfolding command_def by (rule only_call) (rule issue_act)

lemma only_utc: "(\<And>now. only (redis_act look x) (k now)) \<Longrightarrow> only (redis_act look x) (then_task (call redis_utc_now) k)"
  by (rule within_then [where Q = "\<lambda>_. True"]) (auto intro: only_call utc_act)

lemma only_zadd: "only (redis_act look (OpAdd g j e)) (command (rd_zadd R g j e))"
  unfolding command_def by (rule only_call) (rule zadd_act)

lemma only_mark: "only (redis_act look (OpMark i)) (command (rd_hset_nx R (refresh_key i) ''used'' ''1''))"
  unfolding command_def by (rule only_call) (rule mark_act)

lemma redis_acts: "acts (redis_tasks R) (redis_act look) x"
proof (cases x)
  case (OpRevoke g)
  have d: "only (redis_act look (OpRevoke g)) (command (rd_del R ks))" for ks
    by (rule only_command [OF del]) simp_all
  show ?thesis
    using OpRevoke d
    by (auto simp: revoke_group_task_def intro!: only_connected only_utc only_finish within_try
        only_command [OF zrem] only_command [OF zrange])
qed (auto simp: redis_task_defs intro!: only_connected only_finish within_try only_zadd only_mark
      only_command [OF ping] only_command [OF set_ex] only_command [OF exists] only_command [OF del]
      only_command [OF expire_at] only_command [OF expire] only_command [OF hset] only_command [OF hgetall]
      only_command [OF set_nx_ex] split: option.split)

text \<open>The decisive command of an operation with one command.\<close>

lemma command_decides:
  assumes act: "\<And>c y c'. issue cmd c = (y, c') \<Longrightarrow> redis_act look x c c'"
    and P: "\<And>c a c'. issue cmd c = (Inr a, c') \<Longrightarrow> P c (Inr a) c'"
    and E: "\<And>c e c'. P c (Inl e) c'"
  shows "one_call (redis_act look x) P failed (connected R (finish_task name (command cmd)))"
proof -
  have f: "one_call (redis_act look x) P failed (finish_task name (command cmd))"
    unfolding finish_task_def command_def
  proof (rule one_call_then)
    fix c y c'
    assume i: "issue cmd c = (y, c')"
    let ?g = "\<lambda>r. case r of Inl e \<Rightarrow> Inl (classify e) | Inr a \<Rightarrow> Inr a"
    have "within (\<lambda>_. True) (redis_act look x) (\<lambda>z. z = ?g y) (call (\<lambda>c. finish name (y, c)))"
      by (rule within_call) (auto simp: finish_def split: sum.splits dest: finish_act [of name y, unfolded finish_def]
          intro!: quiet_act simp: record_redis_command_def rc_clock_def)
    then show "redis_act look x c c' \<and> P c (?g y) c' \<and>
        within (\<lambda>_. True) (redis_act look x) (\<lambda>z. z = ?g y) (call (\<lambda>c. finish name (y, c)))"
      using act [OF i] P E i by (cases y) auto
  qed
  show ?thesis
    unfolding connected_def by (rule one_call_try) (auto intro: connection_act f)
qed

text \<open>A deletion, alone and as the third command of a bulk revocation.\<close>

lemma secures_error:
  "secures rs_wf (redis_act look x) Z failed K (finish_task name (Finished (Inl e)))"
  unfolding finish_task_def then_task.simps
  by (subst then_task_Finished [symmetric], rule secures_call)
    (auto simp: finish_def intro!: secures.ends only_call)

lemma finish_try:
  "finish_task name (try_task (command cmd) k) = then_task (call (issue cmd))
     (\<lambda>r. finish_task name (case r of Inl e \<Rightarrow> Finished (Inl e) | Inr a \<Rightarrow> k a))"
  by (simp add: finish_task_def try_task_def command_def then_task_assoc)

lemma finish_command:
  "finish_task name (command cmd) = finish_task name (try_task (command cmd) (\<lambda>a. Finished (Inr a)))"
  by simp

lemma secures_connected:
  assumes "secures rs_wf (redis_act look x) Z failed K k" and "\<And>c y c'. redis_connection R c = (y, c') \<Longrightarrow> K c \<Longrightarrow> K c'"
  shows "secures rs_wf (redis_act look x) Z failed K (connected R k)"
  unfolding connected_def try_task_def
proof (rule secures_call)
  show "only (redis_act look x) (then_task (call (redis_connection R))
      (\<lambda>r. case r of Inl e \<Rightarrow> Finished (Inl e) | Inr _ \<Rightarrow> k))"
    using only_connected [OF secures_within [OF assms(1)]] by (simp add: connected_def try_task_def)
qed (use assms(1) in \<open>auto split: sum.splits intro: secures.ends assms(2)\<close>)

lemma secures_finish_try:
  assumes "only (redis_act look x) (finish_task name (try_task (command cmd) k))"
    and "\<And>c a c'. rs_wf c \<Longrightarrow> K c \<Longrightarrow> issue cmd c = (Inr a, c') \<Longrightarrow>
       Z c' \<or> secures rs_wf (redis_act look x) Z failed (\<lambda>_. True) (finish_task name (k a)) \<or>
       K c' \<and> secures rs_wf (redis_act look x) Z failed K (finish_task name (k a))"
  shows "secures rs_wf (redis_act look x) Z failed K (finish_task name (try_task (command cmd) k))"
  unfolding finish_try
  by (rule secures_call)
    (use assms in \<open>auto simp: finish_try split: sum.splits intro: secures_error\<close>)

lemma del_absent:
  assumes "rs_wf c" and "issue (rd_del R ks) c = (Inr a, c')" and "j \<in> set ks"
  shows "absent look j c'"
proof -
  have "rc_clock c \<le> rc_clock c'" using assms(1) by (intro issue_clock [OF _ assms(2)]) (simp add: rs_wf_def)
  then show ?thesis
    using issue_Inr [OF del assms(2)] assms(3)
    by (auto simp: absent_def rs_present_def agree_def eff_del_def)
qed

lemma redis_delete_secures:
  "secures rs_wf (redis_act look (OpDelete j)) (absent look j) failed (\<lambda>_. True) (delete_jti_task R j)"
  unfolding delete_jti_task_def
proof (subst finish_command, intro secures_connected secures_finish_try)
  show "only (redis_act look (OpDelete j)) (finish_task ''delete_jti'' (try_task (command (rd_del R [j])) (\<lambda>a. Finished (Inr a))))"
    by (auto intro!: only_finish within_try only_command [OF del])
qed (auto dest: del_absent)

text \<open>The member \<open>j\<close> of a group on its way through a bulk revocation.\<close>

lemma grp_before:
  assumes "rs_grp look c t g j = Some e" and "u \<le> t"
  obtains z where "look (rc_server c) t g = Some (RZset z)" "look (rc_server c) u g = Some (RZset z)" "z j = Some e"
proof -
  obtain z where "look (rc_server c) t g = Some (RZset z)" "z j = Some e"
    using assms(1) by (cases "look (rc_server c) t g" rule: zset_of.cases) (auto simp: rs_grp_def)
  then show ?thesis using that decays_Some [OF look_decays assms(2)] by blast
qed

lemma zrem_keeps:
  assumes "rs_wf c" and "issue (rd_zrembyscore R g now) c = (Inr a, c')" and "now < e" and "rc_clock c' \<le> t"
    and "rs_grp look c t g j = Some e"
  shows "rs_grp look c' t g j = Some e"
proof -
  have le: "rc_clock c \<le> t"
    using issue_clock [OF _ assms(2)] assms(1,4) by (simp add: rs_wf_def)
  obtain z where z: "look (rc_server c) t g = Some (RZset z)" "look (rc_server c) (rc_clock c) g = Some (RZset z)"
      "z j = Some e"
    using grp_before [OF assms(5) le] by blast
  have a: "above now z j = Some e" using z(3) assms(3) by (simp add: above_def)
  then have "above now z \<noteq> Map.empty" by auto
  then have "look (rc_server c') t g = Some (RZset (above now z))"
    using issue_Inr [OF zrem assms(2)] le z
    by (auto dest!: agreeD [where t' = t and k = g] simp: eff_zrem_def)
  then show ?thesis using a by (simp add: rs_grp_def)
qed

lemma zrange_finds:
  assumes "rs_wf c" and "issue (rd_zrange R g) c = (Inr jtis, c')" and "rc_clock c' \<le> t"
    and "rs_grp look c t g j = Some e"
  shows "j \<in> set jtis"
proof -
  have le: "rc_clock c \<le> t"
    using issue_clock [OF _ assms(2)] assms(1,3) by (simp add: rs_wf_def)
  obtain z where "look (rc_server c) (rc_clock c) g = Some (RZset z)" "z j = Some e"
    using grp_before [OF assms(4) le] by blast
  then show ?thesis using issue_Inr [OF zrange assms(2)] by (simp add: domI)
qed

lemma redis_revoke_secures:
  "secures rs_wf (redis_act look (OpRevoke g)) (\<lambda>c. rc_clock c \<le> t \<longrightarrow> absent look j c) failed
     (\<lambda>c. rs_late e c \<and> (rc_clock c \<le> t \<longrightarrow> rs_grp look c t g j = Some e)) (revoke_group_task R g)"
  (is "secures _ ?G ?Z _ ?K _")
proof -
  let ?n = "''revoke_group''"
  have d: "only ?G (command (rd_del R ks))" for ks by (rule only_command [OF del]) simp_all
  let ?k3 = "\<lambda>jtis. try_task (if jtis \<noteq> [] then command (rd_del R jtis) else Finished (Inr ())) (\<lambda>_.
      try_task (command (rd_del R [g])) (\<lambda>_. Finished (Inr (of_nat (length jtis) :: u64))))"
  let ?k2 = "try_task (command (rd_zrange R g)) ?k3"
  have o3: "only ?G (?k3 jtis)" for jtis using d by (auto intro!: within_try)
  have o2: "only ?G ?k2" by (intro within_try only_command [OF zrange] o3) simp_all
  have s3: "secures rs_wf ?G ?Z failed (\<lambda>_. True) (finish_task ?n (?k3 jtis))" if j: "j \<in> set jtis" for jtis
  proof -
    have ne: "jtis \<noteq> []" using j by auto
    have "secures rs_wf ?G ?Z failed (\<lambda>_. True) (finish_task ?n (try_task (command (rd_del R jtis)) (\<lambda>_.
        try_task (command (rd_del R [g])) (\<lambda>_. Finished (Inr (of_nat (length jtis) :: u64))))))"
      by (rule secures_finish_try) (use del_absent j o3 [of jtis] ne in \<open>auto intro!: only_finish\<close>)
    then show ?thesis using ne by simp
  qed
  have s2: "secures rs_wf ?G ?Z failed ?K (finish_task ?n ?k2)"
  proof (rule secures_finish_try [OF only_finish [OF o2]])
    fix c jtis c'
    assume w: "rs_wf c" and K: "?K c" and i: "issue (rd_zrange R g) c = (Inr jtis, c')"
    have "j \<in> set jtis" if "rc_clock c' \<le> t"
    proof -
      have "rc_clock c \<le> t" using issue_clock [OF _ i] w that by (simp add: rs_wf_def)
      then show ?thesis using zrange_finds [OF w i that] K by blast
    qed
    then show "?Z c' \<or> secures rs_wf ?G ?Z failed (\<lambda>_. True) (finish_task ?n (?k3 jtis)) \<or>
        ?K c' \<and> secures rs_wf ?G ?Z failed ?K (finish_task ?n (?k3 jtis))"
      using s3 by blast
  qed
  have s1: "secures rs_wf ?G ?Z failed ?K (finish_task ?n (try_task (command (rd_zrembyscore R g now)) (\<lambda>_. ?k2)))"
    if n: "now < e" for now
  proof (rule secures_finish_try)
    show "only ?G (finish_task ?n (try_task (command (rd_zrembyscore R g now)) (\<lambda>_. ?k2)))"
      by (intro only_finish within_try o2 only_command [OF zrem]) simp_all
    fix c a c'
    assume w: "rs_wf c" and K: "?K c" and i: "issue (rd_zrembyscore R g now) c = (Inr a, c')"
    have "?G c c'" by (rule issue_act [OF zrem _ _ _ i]) simp_all
    then have "rs_late e c'" using K late_act by blast
    moreover have "rs_grp look c' t g j = Some e" if "rc_clock c' \<le> t"
    proof -
      have "rc_clock c \<le> t" using issue_clock [OF _ i] w that by (simp add: rs_wf_def)
      then show ?thesis using zrem_keeps [OF w i n that] K by blast
    qed
    ultimately show "?Z c' \<or> secures rs_wf ?G ?Z failed (\<lambda>_. True) (finish_task ?n ?k2) \<or>
        ?K c' \<and> secures rs_wf ?G ?Z failed ?K (finish_task ?n ?k2)" using s2 by blast
  qed
  let ?b = "\<lambda>now. finish_task ?n (try_task (command (rd_zrembyscore R g now)) (\<lambda>_. ?k2))"
  have s0: "secures rs_wf ?G ?Z failed ?K (then_task (call redis_utc_now) ?b)"
  proof (rule secures_call)
    show "only ?G (then_task (call redis_utc_now) ?b)"
      by (intro only_utc only_finish within_try o2 only_command [OF zrem]) simp_all
    fix c now c'
    assume "?K c" and "redis_utc_now c = (now, c')"
    then have "now < e" "?K c'" by (auto simp: redis_utc_now_def rs_late_def rc_clock_def rs_grp_def)
    then show "?Z c' \<or> secures rs_wf ?G ?Z failed (\<lambda>_. True) (?b now) \<or> ?K c' \<and> secures rs_wf ?G ?Z failed ?K (?b now)"
      using s1 by blast
  qed
  show ?thesis
    unfolding revoke_group_task_def
  proof (rule secures_connected [OF s0])
    fix c y c'
    assume c: "redis_connection R c = (y, c')" and K: "?K c"
    have "?G c c'" by (rule connection_act [OF c])
    then show "?K c'" using K late_act connection_step [OF c] by (auto simp: rs_grp_def)
  qed
qed

end

text \<open>The contract of the trait of tasks.\<close>

sublocale redis_server \<subseteq> async: jti_tasks "redis_jti_store R" rs_wf rc_clock rs_wall "rs_present look"
  "rs_grp look" "rs_refresh_of R look" "rs_used look" "redis_tasks R" "redis_act look" rs_late
proof (unfold_locales, unfold redis_tasks_simps)
  show "store_of (redis_tasks R) = redis_jti_store R" by simp
  show "acts (redis_tasks R) (redis_act look) x" for x by (rule redis_acts)
  fix s s' :: "'r redis_client" and x k t i g
  show "rs_late e s'" if "redis_act look x s s'" "rs_late e s" for e
    using that by (rule late_act)
  show "rs_wf s'" if "rs_wf s" "redis_act look x s s'"
    using that by (simp add: redis_act_def client_step_def rs_wf_def)
  show "rc_clock s \<le> rc_clock s'" if "rs_wf s" "redis_act look x s s'"
    using that by (simp add: redis_act_def client_step_def rs_wf_def)
  show "rs_present look s t k" if "rs_wf s" "redis_act look x s s'" "k \<notin> op_writes x" "rc_clock s' \<le> t"
    "rs_present look s' t k"
    using that by (simp add: redis_act_def client_step_def rs_wf_def rs_present_def)
  show "rs_present look s' t k" if "rs_wf s" "redis_act look x s s'" "k \<notin> op_removes x" "rc_clock s' \<le> t"
    "rs_present look s t k"
    using that by (simp add: redis_act_def client_step_def rs_wf_def rs_present_def)
  show "rs_grp look s' t g = rs_grp look s t g" if "rs_wf s" "redis_act look x s s'" "g \<notin> op_writes x"
    "g \<notin> op_removes x" "rc_clock s' \<le> t"
    using that by (simp add: redis_act_def rs_wf_def rs_grp_def)
  show "rs_used look s' t i"
    if "rs_wf s" and a: "redis_act look x s s'" and w: "refresh_key i \<notin> op_writes x \<or> x = OpMark i"
      and "rc_clock s' \<le> t" "rs_present look s t (refresh_key i) \<longrightarrow> rs_used look s t i"
      "rs_present look s' t (refresh_key i)"
    using w
  proof
    assume "x = OpMark i"
    then show ?thesis using that by (simp add: redis_act_def rs_wf_def)
  next
    assume "refresh_key i \<notin> op_writes x"
    then show ?thesis using that by (simp add: redis_act_def client_step_def rs_wf_def rs_views)
  qed
  show "secures rs_wf (redis_act look (OpDelete j)) (\<lambda>s. \<forall>t. rc_clock s \<le> t \<longrightarrow> \<not> rs_present look s t j) failed
      (\<lambda>_. True) (delete_jti_task R j)" for j
    using redis_delete_secures [of j] by (simp add: absent_def [abs_def])
  show "secures rs_wf (redis_act look (OpRevoke g))
      (\<lambda>s. rc_clock s \<le> t0 \<longrightarrow> (\<forall>t. rc_clock s \<le> t \<longrightarrow> \<not> rs_present look s t j)) failed
      (\<lambda>s. rs_late e s \<and> (rc_clock s \<le> t0 \<longrightarrow> rs_grp look s t0 g j = Some e)) (revoke_group_task R g)" for j e t0
    using redis_revoke_secures [of g t0 j e] by (simp add: absent_def [abs_def])
  show "one_call (redis_act look (OpCheck j))
      (\<lambda>s x s'. rs_wf s \<longrightarrow> (\<forall>b. x = Inr b \<longrightarrow> b = rs_present look s (rc_clock s) j)) failed (check_jti_task R j)" for j
    unfolding check_jti_task_def
    by (rule command_decides)
      (auto intro: issue_act [OF exists] dest!: issue_Inr [OF exists] simp: rs_present_def)
  show "one_call (redis_act look (OpMark i))
      (\<lambda>s x s'. rs_wf s \<longrightarrow> (\<forall>b. x = Inr b \<longrightarrow> b = (\<not> rs_used look s (rc_clock s) i) \<and>
         (\<forall>t. rc_clock s' \<le> t \<longrightarrow> rs_present look s' t (refresh_key i) \<longrightarrow> rs_used look s' t i))) failed
      (mark_refresh_used_task R i)" for i
    unfolding mark_refresh_used_task_def
  proof (rule command_decides)
    show "redis_act look (OpMark i) c c'" if "issue (rd_hset_nx R (refresh_key i) ''used'' ''1'') c = (y, c')" for c c' y
      using that by (rule mark_act)
    fix c c' :: "'r redis_client" and a
    assume i: "issue (rd_hset_nx R (refresh_key i) ''used'' ''1'') c = (Inr a, c')"
    show "rs_wf c \<longrightarrow> (\<forall>b. (Inr a :: jti_error + bool) = Inr b \<longrightarrow> b = (\<not> rs_used look c (rc_clock c) i) \<and>
        (\<forall>t. rc_clock c' \<le> t \<longrightarrow> rs_present look c' t (refresh_key i) \<longrightarrow> rs_used look c' t i))"
    proof (intro impI allI)
    fix b
    assume w: "rs_wf c" and b: "(Inr a :: jti_error + bool) = Inr b"
    note e = issue_Inr [OF hset_nx i]
    have le: "rc_clock c \<le> rc_clock c'" using w by (intro issue_clock [OF _ i]) (simp add: rs_wf_def)
    have "rs_used look c' t i" if "rc_clock c' \<le> t" "rs_present look c' t (refresh_key i)" for t
    proof -
      have at: "rc_clock c \<le> t" using le that(1) by simp
      show ?thesis
        using e at that(2) decaysD [OF look_decays at, of "rc_server c" "refresh_key i"]
        by (auto dest!: agreeD [where t' = t and k = "refresh_key i"]
            simp: rs_views eff_hset_nx_def put_def split: if_splits)
    qed
    then show "b = (\<not> rs_used look c (rc_clock c) i) \<and>
        (\<forall>t. rc_clock c' \<le> t \<longrightarrow> rs_present look c' t (refresh_key i) \<longrightarrow> rs_used look c' t i)"
      using e b by (auto simp: rs_used_def)
    qed
  qed simp_all
qed

context redis_server
begin

lemma async_contract:
  "jti_tasks (redis_jti_store R) rs_wf rc_clock rs_wall (rs_present look) (rs_grp look)
     (rs_refresh_of R look) (rs_used look) (redis_tasks R) (redis_act look) rs_late"
  by unfold_locales

end

end
