(* ===== verification/Subject_Revocation.thy ===== *)
theory Subject_Revocation
  imports Token_Correct Redis_Tasks
begin

text \<open>
  The issuing of a token (\<open>TokenClaims::create_new\<close>, \<open>src/models/jwt.rs\<close>) and the bulk revocation of its
  subject (\<open>revoke_group\<close>, \<open>src/redis.rs\<close>), with other calls of the store between them: what keeps the
  token in the index of its subject, and that the revocation then reaches it.
\<close>

section \<open>What keeps a member in its index\<close>

text \<open>
  A call that leaves the entry of \<open>j\<close> in the index \<open>g\<close> up to the time \<open>T\<close>: it does not touch the index, or
  it indexes another token, one that expires after \<open>T\<close>.
\<close>

definition keeps_indexed :: "string \<Rightarrow> string \<Rightarrow> int \<Rightarrow> store_op \<Rightarrow> bool" where
  "keeps_indexed g j T x \<longleftrightarrow>
     g \<notin> op_writes x \<and> g \<notin> op_removes x \<or>
     (\<exists>i e. x = OpAdd g i e \<and> i \<noteq> j \<and> \<bar>e\<bar> \<le> 2 ^ 53 \<and> T < e)"

context jti_tasks
begin

text \<open>A call that does not touch a group, whatever it answers.\<close>

lemma untouched_group:
  assumes "wf s" and "g \<notin> op_writes x" and "g \<notin> op_removes x" and "clock (run_op S x s) \<le> t"
  shows "grp (run_op S x s) t g = grp s t g"
proof -
  define J where "J s' \<longleftrightarrow> wf s' \<and> (\<forall>t. clock s' \<le> t \<longrightarrow> grp s' t g = grp s t g)" for s'
  have step: "J s2" if "J s1" "act x s1 s2" for s1 s2
  proof -
    have w: "wf s1" using that(1) by (simp add: J_def)
    show ?thesis
      using that(1) act_wf [OF w that(2)] act_clock [OF w that(2)] act_group [OF w that(2) assms(2,3)]
      by (simp add: J_def)
  qed
  have J: "J s" using assms(1) by (simp add: J_def)
  have run: "J (snd (run u s))" if "only (act x) u" for u
    using within_run [where J = J, OF _ that J] step by metis
  have "J (run_op S x s)"
    using acts [of x] by (cases x) (simp_all add: run flip: sequential)
  then show ?thesis using assms(4) by (simp add: J_def)
qed

end

context redis_server
begin

text \<open>A command whose effect leaves the entry.\<close>

lemma issue_keeps_entry:
  assumes ob: "obeys look cmd eff ans" and iss: "issue cmd c = (x, c')" and m: "mono (rc_time c)"
    and t: "rc_clock c' \<le> t" and j: "rs_grp look c t g j = Some e"
    and eff: "\<And>t0 V v. V t0 g = Some (RZset v) \<Longrightarrow> V t g = Some (RZset v) \<Longrightarrow> v j = Some e \<Longrightarrow>
      zset_of (eff t0 V t g) j = Some e"
  shows "rs_grp look c' t g j = Some e"
proof -
  have le: "rc_clock c \<le> t" using issue_clock [OF m iss] t by simp
  obtain v where v: "look (rc_server c) t g = Some (RZset v)" "v j = Some e"
    using j by (cases "look (rc_server c) t g" rule: zset_of.cases) (auto simp: rs_grp_def)
  have "look (rc_server c) (rc_clock c) g = Some (RZset v)" by (rule decays_Some [OF look_decays le v(1)])
  then have "zset_of (eff (rc_clock c) (look (rc_server c)) t g) j = Some e" using v eff by blast
  then show ?thesis
    using issue_any [OF ob iss] le v by (auto dest!: agreeD [where t' = t and k = g] simp: rs_grp_def)
qed

lemma other_add_keeps:
  assumes m: "mono (rc_time c)" and a: "redis_add_to_group R g i e' c = (y, c')" and b: "\<bar>e'\<bar> \<le> 2 ^ 53"
    and t: "rc_clock c' \<le> t" "t < e'" and j: "i \<noteq> j" "rs_grp look c t g j = Some e"
  shows "rs_grp look c' t g j = Some e"
proof (cases "redis_connection R c")
  case (Pair u c1)
  note con = connection_step [OF Pair]
  have g1: "rs_grp look c1 t g j = Some e" and m1: "mono (rc_time c1)" using con m j(2) by (simp_all add: rs_grp_def)
  show ?thesis
  proof (cases u)
    case (Inl x)
    then show ?thesis using a Pair g1 by (simp add: redis_add_to_group_def with_connection_def)
  next
    case (Inr x)
    obtain z c2 where z: "issue (rd_zadd R g i e') c1 = (z, c2)" by fastforce
    have m2: "mono (rc_time c2)" using issue_time [OF z] m1 by simp
    obtain r c3 where r: "(case z of Inl e \<Rightarrow> (Inl e, c2) | Inr _ \<Rightarrow> issue (rd_expire_at R g e') c2) = (r, c3)"
      by fastforce
    have "c' = record_redis_command ''add_to_group'' (case r of Inl _ \<Rightarrow> False | Inr _ \<Rightarrow> True) c3"
      using a Pair Inr z r
      by (auto simp: redis_add_to_group_def with_connection_def finish_def split: sum.splits)
    then have c': "rc_server c' = rc_server c3" "rc_clock c' = rc_clock c3"
      by (simp_all add: record_redis_command_def rc_clock_def)
    have "rc_clock c2 \<le> rc_clock c3"
      using r issue_clock [OF m2] by (cases z) auto
    then have g2: "rs_grp look c2 t g j = Some e"
      using c'(2) t(1) j(1) by (intro issue_keeps_entry [OF zadd [OF b] z m1 _ g1]) (auto simp: eff_zadd_def put_def)
    have "rs_grp look c3 t g j = Some e"
    proof (cases z)
      case (Inl x)
      then show ?thesis using r g2 by simp
    next
      case (Inr x)
      then have "issue (rd_expire_at R g e') c2 = (r, c3)" using r by simp
      then show ?thesis
        using c'(2) t by (intro issue_keeps_entry [OF expire_at _ m2 _ g2]) (auto simp: eff_expire_at_def)
    qed
    then show ?thesis using c'(1) by (simp add: rs_grp_def)
  qed
qed

lemma keeps_indexed_step:
  assumes m: "mono (rc_time c)" and k: "keeps_indexed g j T x" and t: "rc_clock (run_op (redis_jti_store R) x c) \<le> t" "t \<le> T"
    and j: "rs_grp look c t g j = Some e"
  shows "rs_grp look (run_op (redis_jti_store R) x c) t g j = Some e"
proof (cases "g \<notin> op_writes x \<and> g \<notin> op_removes x")
  case True
  then show ?thesis
    using jti_tasks.untouched_group [OF async_contract, of c g x t] m t(1) j by (simp add: rs_wf_def)
next
  case False
  then obtain i e' where x: "x = OpAdd g i e'" and i: "i \<noteq> j" and e': "\<bar>e'\<bar> \<le> 2 ^ 53" "T < e'"
    using k by (auto simp: keeps_indexed_def)
  obtain y c' where "redis_add_to_group R g i e' c = (y, c')" by fastforce
  then show ?thesis
    using other_add_keeps [OF m _ e'(1) _ _ i j] x t e'(2) by (simp add: redis_jti_store_def)
qed

lemma keeps_indexed_run:
  assumes "mono (rc_time c)" and "\<forall>x \<in> set xs. keeps_indexed g j T x"
    and "\<And>t. rc_clock c \<le> t \<Longrightarrow> t \<le> T \<Longrightarrow> rs_grp look c t g j = Some e"
    and "rc_clock (run_ops (redis_jti_store R) xs c) \<le> t" and "t \<le> T"
  shows "rs_grp look (run_ops (redis_jti_store R) xs c) t g j = Some e"
  using assms
proof (induction xs arbitrary: c)
  case (Cons x xs)
  note con = refines_contract
  let ?c = "run_op (redis_jti_store R) x c"
  have w: "rs_wf c" using Cons.prems(1) by (simp add: rs_wf_def)
  have m: "mono (rc_time ?c)" using jti_store.wf_step [OF con w] by (simp add: rs_wf_def)
  have k: "keeps_indexed g j T x" using Cons.prems(2) by simp
  have "rs_grp look ?c u g j = Some e" if "rc_clock ?c \<le> u" "u \<le> T" for u
    using that jti_store.clock_step [OF con w, of x]
    by (intro keeps_indexed_step [OF Cons.prems(1) k that] Cons.prems(3)) auto
  then show ?case using Cons.IH [OF m] Cons.prems(2,4,5) by simp
qed simp

end

section \<open>Bulk revocation reaches what was issued\<close>


section \<open>A run\<close>

text \<open>
  The demo token is issued, the index gets another token that expires later, a third token is revoked, and
  then the subject.
\<close>

definition demo_calls :: "store_op list" where
  "demo_calls = [OpAdd (subject_group ''alice'') ''u1'' 2000, OpDelete ''u2'']"

definition demo_between :: "keyspace redis_client" where
  "demo_between = run_ops (redis_jti_store keyspace_redis) demo_calls (w_store demo_issued)"

definition demo_swept :: "(nat, keyspace redis_client) world" where
  "demo_swept = demo_issued\<lparr>w_store :=
     snd (redis_revoke_group keyspace_redis (subject_group ''alice'') demo_between)\<rparr>"

lemmas demo_steps = with_connection_def redis_utc_now_def redis_connection_def finish_def issue_def keyspace_redis_def
  ks_exec_def k_zadd_def k_expire_at_def k_zrem_def k_zrange_def k_del_def live_def alive_def rc_clock_def
  record_redis_command_def subject_group_def

lemma demo_between_fields:
  "rc_time demo_between = (\<lambda>_. 1000)" "rc_manager demo_between = True" "rc_utc demo_between = (\<lambda>_. 1000)"
  "ks_faults (rc_server demo_between) = []"
  "ks_map (rc_server demo_between) (subject_group ''alice'') = Some (KZset [(''u0'', 1060), (''u1'', 2000)], Some 2000)"
  by (simp_all add: demo_between_def demo_calls_def redis_jti_store_def redis_add_to_group_def redis_delete_jti_def
      demo_steps demo_issued_fields)

lemma demo_revoked:
  "\<exists>c. redis_revoke_group keyspace_redis (subject_group ''alice'') demo_between = (Inr 2, c) \<and> rc_time c = (\<lambda>_. 1000)"
  using demo_between_fields by (simp add: redis_revoke_group_def demo_steps)


end
