(* ===== verification/Jwt_Manager.thy ===== *)
theory Jwt_Manager
  imports Token_Correct
begin

text \<open>
  The facade of the token logic (\<open>src/jwt.rs\<close>): issuing a token, issuing it with a refresh token of
  a new family, exchanging a refresh token, and verification.
\<close>

definition DEFAULT_REFRESH_TTL_SECONDS :: u64 where
  "DEFAULT_REFRESH_TTL_SECONDS = 2592000"

text \<open>Addition of \<open>i64\<close>, which wraps in a release build.\<close>

definition i64_add :: "int \<Rightarrow> int \<Rightarrow> int" where
  "i64_add a b = as_i64 (as_usize (a + b))"

definition generate_token ::
  "('b, 'g, 'p, 'k, 'v, 'n, 's) deps \<Rightarrow> string \<Rightarrow> string \<Rightarrow> string list \<Rightarrow> u64 option
     \<Rightarrow> 'v json_object \<Rightarrow> ('n, 's) world \<Rightarrow> (jwt_error, string) outcome \<times> ('n, 's) world" where
  "generate_token D issuer subject audience ttl extra =
     and_then (key_call KeyError (get_private_key (dp_crypto D) (dp_server D))) (\<lambda>(jwk, private_key).
     and_then (claims_create_new D issuer subject audience ttl extra) (\<lambda>claims.
       pure_step (token_to_string (dp_crypto D) (dp_json D)
         \<lparr>jt_headers = headers_create_new (dp_env D) (jd_kid jwk), jt_claims = claims,
          jt_key = private_key\<rparr>)))"

definition register_access_in_family ::
  "('b, 'g, 'p, 'k, 'v, 'n, 's) deps \<Rightarrow> string \<Rightarrow> string \<Rightarrow> ('n, 's) world
     \<Rightarrow> (jwt_error, unit) outcome \<times> ('n, 's) world" where
  "register_access_in_family D access family =
     (case split_on (CHR ''.'') access of
        _ # segment # _ \<Rightarrow>
          and_then (pure_step (claims_from_base64 (dp_crypto D) (dp_json D) segment)) (\<lambda>claims.
            store_call (js_add_to_group (dp_store D) (family_group family) (tc_jti claims)
              (as_i64 (tc_exp claims))))
      | _ \<Rightarrow> fail Broken)"

definition issue_refresh ::
  "('b, 'g, 'p, 'k, 'v, 'n, 's) deps \<Rightarrow> string \<Rightarrow> string list \<Rightarrow> string \<Rightarrow> ('n, 's) world
     \<Rightarrow> (jwt_error, string) outcome \<times> ('n, 's) world" where
  "issue_refresh D subject audience family w =
     (let ttl = env_u64 (dp_env D) ''REFRESH_TOKEN_TTL_SECONDS'' DEFAULT_REFRESH_TTL_SECONDS;
          i = uuid_next w; w1 = uuid_tick w;
          rec = \<lparr>rr_subject = subject, rr_audience = audience, rr_family = family\<rparr> in
      and_then (store_call (js_store_refresh (dp_store D) i rec ttl)) (\<lambda>_ w2.
        let expires_at = i64_add (utc_now w2) (as_i64 ttl) in
        and_then (store_call (js_add_to_group (dp_store D) (family_group family) (refresh_key i) expires_at))
          (\<lambda>_ w3. (Ok i, w3)) (utc_tick w2)) w1)"

definition generate_token_pair ::
  "('b, 'g, 'p, 'k, 'v, 'n, 's) deps \<Rightarrow> string \<Rightarrow> string \<Rightarrow> string list \<Rightarrow> u64 option
     \<Rightarrow> 'v json_object \<Rightarrow> ('n, 's) world \<Rightarrow> (jwt_error, string \<times> string) outcome \<times> ('n, 's) world" where
  "generate_token_pair D issuer subject audience ttl extra w =
     (let family = uuid_next w in
      and_then (generate_token D issuer subject audience ttl extra) (\<lambda>access.
      and_then (register_access_in_family D access family) (\<lambda>_.
      and_then (issue_refresh D subject audience family) (\<lambda>refresh w1.
        (Ok (access, refresh), w1)))) (uuid_tick w))"

definition refresh_token_pair ::
  "('b, 'g, 'p, 'k, 'v, 'n, 's) deps \<Rightarrow> string \<Rightarrow> string \<Rightarrow> ('n, 's) world
     \<Rightarrow> (jwt_error, string \<times> string) outcome \<times> ('n, 's) world" where
  "refresh_token_pair D refresh_token issuer =
     and_then (store_call (js_get_refresh (dp_store D) refresh_token)) (\<lambda>found.
       case found of
         None \<Rightarrow> fail NotValid
       | Some rec \<Rightarrow>
           and_then (store_call (js_mark_refresh_used (dp_store D) refresh_token)) (\<lambda>marked.
             if \<not> marked then
               and_then (store_call (js_revoke_group (dp_store D) (family_group (rr_family rec))))
                 (\<lambda>_. fail NotValid)
             else
               and_then (generate_token D issuer (rr_subject rec) (rr_audience rec) None []) (\<lambda>access.
               and_then (register_access_in_family D access (rr_family rec)) (\<lambda>_.
               and_then (issue_refresh D (rr_subject rec) (rr_audience rec) (rr_family rec)) (\<lambda>refresh w1.
                 (Ok (access, refresh), w1))))))"

definition verify_token ::
  "('b, 'g, 'p, 'k, 'v, 'n, 's) deps \<Rightarrow> string \<Rightarrow> string \<Rightarrow> string \<Rightarrow> ('n, 's) world
     \<Rightarrow> (jwt_error, 'v token_claims) outcome \<times> ('n, 's) world" where
  "verify_token D token issuer audience w =
     (case token_from_string D token issuer audience w of
        (Ok jwt, w1) \<Rightarrow> (Ok (jt_claims jwt), w1)
      | (Err e, w1) \<Rightarrow> (Err e, w1)
      | (Panic, w1) \<Rightarrow> (Panic, w1))"

section \<open>Branches that succeeded\<close>

lemma generate_token_Ok:
  assumes "generate_token D issuer subject audience ttl extra w = (Ok token, w')"
  obtains jwk k m claims where
    "get_private_key (dp_crypto D) (dp_server D) (w_keys w) = (Inr (jwk, k), m)"
    "claims_create_new D issuer subject audience ttl extra (w\<lparr>w_keys := m\<rparr>) = (Ok claims, w')"
    "token_to_string (dp_crypto D) (dp_json D)
       \<lparr>jt_headers = headers_create_new (dp_env D) (jd_kid jwk), jt_claims = claims, jt_key = k\<rparr> = Inr token"
  using assms by (auto simp: generate_token_def step_Ok key_call_Ok split: prod.splits)

lemma issue_refresh_Ok:
  assumes "issue_refresh D subject audience family w = (Ok r, w')"
  obtains ttl s1 where "r = uuid_next w"
    "ttl = env_u64 (dp_env D) ''REFRESH_TOKEN_TTL_SECONDS'' DEFAULT_REFRESH_TTL_SECONDS"
    "js_store_refresh (dp_store D) r \<lparr>rr_subject = subject, rr_audience = audience, rr_family = family\<rparr> ttl
       (w_store w) = (Inr (), s1)"
    "js_add_to_group (dp_store D) (family_group family) (refresh_key r)
       (i64_add (utc_now w) (as_i64 ttl)) s1 = (Inr (), w_store w')"
  using assms
  by (auto simp: issue_refresh_def step_Ok store_call_Ok Let_def uuid_tick_def utc_tick_def utc_now_def)

lemma refresh_pair_Ok:
  assumes "refresh_token_pair D i issuer w = (Ok (a, r), w')"
  obtains rec s1 s2 w3 w4 where
    "js_get_refresh (dp_store D) i (w_store w) = (Inr (Some rec), s1)"
    "js_mark_refresh_used (dp_store D) i s1 = (Inr True, s2)"
    "generate_token D issuer (rr_subject rec) (rr_audience rec) None [] (w\<lparr>w_store := s2\<rparr>) = (Ok a, w3)"
    "register_access_in_family D a (rr_family rec) w3 = (Ok (), w4)"
    "issue_refresh D (rr_subject rec) (rr_audience rec) (rr_family rec) w4 = (Ok r, w')"
proof -
  obtain found s1 where g: "js_get_refresh (dp_store D) i (w_store w) = (Inr found, s1)"
    using assms by (auto simp: refresh_token_pair_def step_Ok store_call_Ok)
  then obtain rec where f: "found = Some rec"
    using assms by (cases found) (auto simp: refresh_token_pair_def step_Ok store_call_Ok)
  obtain b s2 where m: "js_mark_refresh_used (dp_store D) i s1 = (Inr b, s2)"
    using assms g f by (auto simp: refresh_token_pair_def step_Ok store_call_Ok)
  have b: b using assms g f m by (cases b) (auto simp: refresh_token_pair_def step_Ok store_call_Ok)
  have "\<exists>w3 w4. generate_token D issuer (rr_subject rec) (rr_audience rec) None [] (w\<lparr>w_store := s2\<rparr>) = (Ok a, w3)
      \<and> register_access_in_family D a (rr_family rec) w3 = (Ok (), w4)
      \<and> issue_refresh D (rr_subject rec) (rr_audience rec) (rr_family rec) w4 = (Ok r, w')"
    using assms g f m b by (auto simp: refresh_token_pair_def step_Ok store_call_Ok)
  then obtain w3 w4 where
    t: "generate_token D issuer (rr_subject rec) (rr_audience rec) None [] (w\<lparr>w_store := s2\<rparr>) = (Ok a, w3)"
    "register_access_in_family D a (rr_family rec) w3 = (Ok (), w4)"
    "issue_refresh D (rr_subject rec) (rr_audience rec) (rr_family rec) w4 = (Ok r, w')"
    by (elim exE conjE)
  have "b = True" using b by simp
  then show ?thesis using that [OF _ _ t] g m unfolding f by simp
qed

section \<open>What an exchange does to the store\<close>

text \<open>
  The store moved by some sequence of calls that satisfy \<open>P\<close>, and the supply of identifiers is the
  same function as before.
\<close>

definition store_path ::
  "'s jti_store \<Rightarrow> (store_op \<Rightarrow> bool) \<Rightarrow> ('n, 's) world \<Rightarrow> ('n, 's) world \<Rightarrow> bool" where
  "store_path S P w w' \<longleftrightarrow> w_uuid w' = w_uuid w \<and>
     (\<exists>xs. w_store w' = run_ops S xs (w_store w) \<and> list_all P xs)"

lemma store_path_trans: "store_path S P a b \<Longrightarrow> store_path S P b c \<Longrightarrow> store_path S P a c"
proof -
  assume "store_path S P a b" "store_path S P b c"
  then obtain xs ys where "w_store b = run_ops S xs (w_store a)" "list_all P xs"
    "w_store c = run_ops S ys (w_store b)" "list_all P ys" "w_uuid c = w_uuid a"
    by (auto simp: store_path_def)
  then show ?thesis unfolding store_path_def
    by (intro conjI exI [of _ "xs @ ys"]) (simp_all add: run_ops_append)
qed

lemma store_path_one: "P x \<Longrightarrow> w_store w' = run_op S x (w_store w) \<Longrightarrow> w_uuid w' = w_uuid w \<Longrightarrow> store_path S P w w'"
  unfolding store_path_def by (intro conjI exI [of _ "[x]"]) simp_all

lemma store_path_same: "w_store w' = w_store w \<Longrightarrow> w_uuid w' = w_uuid w \<Longrightarrow> store_path S P w w'"
  unfolding store_path_def by (intro conjI exI [of _ "[]"]) simp_all

lemma store_path_mono: "store_path S P w w' \<Longrightarrow> (\<And>x. P x \<Longrightarrow> Q x) \<Longrightarrow> store_path S Q w w'"
  by (auto simp: store_path_def list_all_iff)

text \<open>The calls by which tokens are issued, with identifiers of the supply \<open>ids\<close>.\<close>

definition issue_ops :: "(nat \<Rightarrow> string) \<Rightarrow> store_op \<Rightarrow> bool" where
  "issue_ops ids x \<longleftrightarrow>
     (\<exists>n ttl rec. x = OpStore (ids n) ttl \<or> x = OpCheck (ids n) \<or> x = OpStoreRefresh (ids n) rec ttl) \<or>
     (\<exists>s j e. x = OpAdd (subject_group s) j e \<or> x = OpAdd (family_group s) j e)"

lemma issue_ops_simps [simp]:
  "issue_ops ids (OpStore (ids n) ttl)" "issue_ops ids (OpCheck (ids n))" "issue_ops ids (OpStoreRefresh (ids n) rec ttl)"
  "issue_ops ids (OpAdd (subject_group s) j e)" "issue_ops ids (OpAdd (family_group s) j e)"
  by (auto simp: issue_ops_def)

text \<open>Calls that write no record of the refresh token \<open>i\<close>, other than its mark.\<close>

definition spares :: "string \<Rightarrow> store_op \<Rightarrow> bool" where
  "spares i x \<longleftrightarrow> refresh_key i \<notin> op_writes x \<or> x = OpMark i"

definition fresh_ids :: "('n, 's) world \<Rightarrow> string \<Rightarrow> bool" where
  "fresh_ids w i \<longleftrightarrow> (\<forall>n. bare_key (w_uuid w n) \<and> w_uuid w n \<noteq> i)"

lemma bare_not_prefixed: "bare_key k \<Longrightarrow> refresh_key i \<noteq> k" "bare_key k \<Longrightarrow> totp_code_key h \<noteq> k"
  by (metis bare_key_not_prefixed(4)) (metis bare_key_not_prefixed(1))

lemma issue_ops_spares: "fresh_ids w i \<Longrightarrow> issue_ops (w_uuid w) x \<Longrightarrow> spares i x"
  by (auto simp: issue_ops_def spares_def fresh_ids_def bare_not_prefixed)

text \<open>Issuing leaves a claimed one-time code alone.\<close>

lemma issue_ops_keep_codes: "\<forall>n. bare_key (ids n) \<Longrightarrow> issue_ops ids x \<Longrightarrow> totp_code_key h \<notin> op_removes x"
  by (auto simp: issue_ops_def bare_not_prefixed)

lemma create_new_path:
  assumes c: "claims_create_new D issuer subject audience ttl extra w = (Ok cl, w')"
  shows "store_path (dp_store D) (issue_ops (w_uuid w)) w w'"
proof -
  obtain secs expiry s1 s2 s3 where
    iw: "issued_with D issuer subject audience ttl extra w cl secs expiry s1 s2 s3"
    and s: "w_store w' = s3" "w_uuid w' = w_uuid w" using create_new_Ok [OF c] by (elim exE conjE)
  let ?j = "uuid_next w"
  have "list_all (issue_ops (w_uuid w)) [OpStore ?j secs, OpAdd (subject_group subject) ?j expiry, OpCheck ?j]"
    by (simp add: uuid_next_def)
  moreover have "w_store w' = run_ops (dp_store D)
      [OpStore ?j secs, OpAdd (subject_group subject) ?j expiry, OpCheck ?j] (w_store w)"
    using iw s by (simp add: issued_with_def)
  ultimately show ?thesis using s unfolding store_path_def by blast
qed

lemma generate_token_path:
  assumes g: "generate_token D issuer subject audience ttl extra w = (Ok t, w')"
  shows "store_path (dp_store D) (issue_ops (w_uuid w)) w w'"
proof -
  obtain m cl where "claims_create_new D issuer subject audience ttl extra (w\<lparr>w_keys := m\<rparr>) = (Ok cl, w')"
    using generate_token_Ok [OF g] by metis
  then show ?thesis using create_new_path by (fastforce simp: store_path_def)
qed

lemma register_path:
  assumes "register_access_in_family D access family w = (Ok u, w')"
  shows "store_path (dp_store D) (issue_ops (w_uuid w)) w w'"
proof -
  obtain j e where "js_add_to_group (dp_store D) (family_group family) j e (w_store w) = (Inr (), w_store w')"
    "w_uuid w' = w_uuid w"
    using assms
    by (auto simp: register_access_in_family_def step_Ok store_call_Ok split: list.splits)
  then show ?thesis
    by (intro store_path_one [of _ "OpAdd (family_group family) j e"]) simp_all
qed

lemma issue_refresh_path:
  assumes r: "issue_refresh D subject audience family w = (Ok r, w')"
  shows "store_path (dp_store D) (issue_ops (w_uuid w)) w w'"
proof -
  let ?rec = "\<lparr>rr_subject = subject, rr_audience = audience, rr_family = family\<rparr>"
  obtain ttl s1 e where r': "r = uuid_next w"
    and st: "js_store_refresh (dp_store D) r ?rec ttl (w_store w) = (Inr (), s1)"
    and ad: "js_add_to_group (dp_store D) (family_group family) (refresh_key r) e s1 = (Inr (), w_store w')"
    using issue_refresh_Ok [OF r] by metis
  have u: "w_uuid w' = w_uuid w"
    using r by (auto simp: issue_refresh_def step_Ok store_call_Ok Let_def uuid_tick_def utc_tick_def)
  show ?thesis using r' st ad u unfolding store_path_def
    by (intro conjI exI [of _ "[OpStoreRefresh r ?rec ttl, OpAdd (family_group family) (refresh_key r) e]"])
      (simp_all add: uuid_next_def)
qed

text \<open>The steps of a pair one after the other.\<close>

lemma pair_path:
  assumes "generate_token D issuer subject audience ttl extra w = (Ok a, w1)"
    and "register_access_in_family D a family w1 = (Ok (), w2)"
    and "issue_refresh D subject audience family w2 = (Ok r, w')"
  shows "store_path (dp_store D) (issue_ops (w_uuid w)) w w'"
proof -
  note p = generate_token_path [OF assms(1)] register_path [OF assms(2)] issue_refresh_path [OF assms(3)]
  then have "w_uuid w1 = w_uuid w" "w_uuid w2 = w_uuid w" by (simp_all add: store_path_def)
  then show ?thesis using p store_path_trans by metis
qed

lemma generate_pair_path:
  assumes "generate_token_pair D issuer subject audience ttl extra w = (Ok p, w')"
  shows "store_path (dp_store D) (issue_ops (w_uuid w)) w w'"
proof -
  obtain a r w1 w2 where "generate_token D issuer subject audience ttl extra (uuid_tick w) = (Ok a, w1)"
    "register_access_in_family D a (uuid_next w) w1 = (Ok (), w2)"
    "issue_refresh D subject audience (uuid_next w) w2 = (Ok r, w')"
    using assms by (auto simp: generate_token_pair_def Let_def step_Ok)
  then show ?thesis using pair_path by (fastforce simp: store_path_def uuid_tick_def)
qed

lemma refresh_pair_path:
  assumes f: "fresh_ids w i" and r: "refresh_token_pair D i issuer w = (Ok (a, r), w')"
  obtains rec s1 s2 xs where "js_get_refresh (dp_store D) i (w_store w) = (Inr (Some rec), s1)"
    "js_mark_refresh_used (dp_store D) i s1 = (Inr True, s2)"
    "w_store w' = run_ops (dp_store D) xs s2" "list_all (spares i) xs"
proof -
  obtain rec s1 s2 w3 w4 where
    g: "js_get_refresh (dp_store D) i (w_store w) = (Inr (Some rec), s1)"
    and m: "js_mark_refresh_used (dp_store D) i s1 = (Inr True, s2)"
    and t: "generate_token D issuer (rr_subject rec) (rr_audience rec) None [] (w\<lparr>w_store := s2\<rparr>) = (Ok a, w3)"
    and rg: "register_access_in_family D a (rr_family rec) w3 = (Ok (), w4)"
    and ir: "issue_refresh D (rr_subject rec) (rr_audience rec) (rr_family rec) w4 = (Ok r, w')"
    using refresh_pair_Ok [OF r] by blast
  have "store_path (dp_store D) (spares i) (w\<lparr>w_store := s2\<rparr>) w'"
    by (rule store_path_mono [OF pair_path [OF t rg ir]]) (use f in \<open>auto intro: issue_ops_spares\<close>)
  then obtain xs where "w_store w' = run_ops (dp_store D) xs s2" "list_all (spares i) xs"
    by (auto simp: store_path_def)
  then show ?thesis using that [OF g m] by simp
qed

context jti_store
begin

lemma exchange_single_use:
  assumes D: "dp_store D = S" and w: "wf (w_store w)" and f: "fresh_ids w i"
    and r1: "refresh_token_pair D i issuer w = (Ok (a, r), w1)"
    and x: "list_all (spares i) xs" and s: "w_store w2 = run_ops S xs (w_store w1)"
    and r2: "refresh_token_pair D i issuer' w2 = (Ok (a', r'), w3)"
  shows "\<not> present (snd (js_get_refresh S i (w_store w2)))
           (clock (snd (js_get_refresh S i (w_store w2)))) (refresh_key i)"
proof
  obtain rec s1 s2 ys where g: "js_get_refresh S i (w_store w) = (Inr (Some rec), s1)"
    and m: "js_mark_refresh_used S i s1 = (Inr True, s2)"
    and y: "w_store w1 = run_ops S ys s2" "list_all (spares i) ys"
    using refresh_pair_path [OF f r1] D by metis
  obtain rec' t1 t2 where g': "js_get_refresh S i (w_store w2) = (Inr (Some rec'), t1)"
    and m': "js_mark_refresh_used S i t1 = (Inr True, t2)"
    by (rule refresh_pair_Ok [OF r2, unfolded D]) (rule that; assumption)
  have w1: "wf s1" using wf_step [OF w, of "OpGetRefresh i"] g by simp
  have t1: "t1 = run_ops S (ys @ xs @ [OpGetRefresh i]) s2"
    using y s g' by (simp add: run_ops_append)
  have ok: "\<forall>x \<in> set (ys @ xs @ [OpGetRefresh i]). refresh_key i \<notin> op_writes x \<or> x = OpMark i"
    using x y(2) by (auto simp: list_all_iff spares_def)
  assume "present (snd (js_get_refresh S i (w_store w2)))
     (clock (snd (js_get_refresh S i (w_store w2)))) (refresh_key i)"
  then show False using mark_single_use [OF w1 m ok t1 _ m'] g' by simp
qed

end

section \<open>The properties\<close>

text \<open>
  C5. A refresh token buys one exchange: after a successful exchange, and whatever calls on the
  store in between that do not write a new record under the same identifier, a second exchange of
  the same token does not succeed, provided the old record does not expire between the two commands
  of that very exchange.
\<close>

theorem refresh_token_single_use:
  assumes "redis_server R look" and "dp_store D = redis_jti_store R" and "mono (rc_time (w_store w))"
    and "fresh_ids w i" and "refresh_token_pair D i issuer w = (Ok (a, r), w1)"
    and "list_all (spares i) xs" and "w_store w2 = run_ops (redis_jti_store R) xs (w_store w1)"
    and "rs_present look (snd (redis_get_refresh R i (w_store w2)))
           (rc_clock (snd (redis_get_refresh R i (w_store w2)))) (refresh_key i)"
  shows "fst (refresh_token_pair D i issuer' w2) \<noteq> Ok p"
proof
  assume "fst (refresh_token_pair D i issuer' w2) = Ok p"
  then obtain a' r' w3 where "refresh_token_pair D i issuer' w2 = (Ok (a', r'), w3)"
    by (cases p) (metis prod.collapse)
  then show False
    using jti_store.exchange_single_use [OF redis_server.refines_contract [OF assms(1)] assms(2) _ assms(4-7)]
      assms(3,8) by (simp add: rs_wf_def redis_jti_store_def)
qed

text \<open>
  C6. Presenting a used refresh token kills its family: the group of the record's family is revoked,
  no token is issued, no key is fetched, and the answer is \<open>NotValid\<close>, or \<open>StoreError\<close> when the
  revocation itself failed.
\<close>

theorem refresh_reuse_kills_family:
  assumes "js_get_refresh (dp_store D) i (w_store w) = (Inr (Some rec), s1)"
    and "js_mark_refresh_used (dp_store D) i s1 = (Inr False, s2)"
    and "js_revoke_group (dp_store D) (family_group (rr_family rec)) s2 = (x, s3)"
  shows "refresh_token_pair D i issuer w =
     (case x of Inl _ \<Rightarrow> Err StoreError | Inr _ \<Rightarrow> Err NotValid, w\<lparr>w_store := s3\<rparr>)"
  using assms
  by (auto simp: refresh_token_pair_def and_then_def store_call_def fail_def split: sum.splits)

text \<open>
  An exchange renews the same identity and nothing more: the new access token is for the subject
  and audience of the record, carries no custom claims, and both new tokens are entered into the
  same family.
\<close>

theorem refresh_keeps_identity:
  assumes "refresh_token_pair D i issuer w = (Ok (a, r), w')"
  shows "\<exists>rec kid k claims s1 s2.
     js_get_refresh (dp_store D) i (w_store w) = (Inr (Some rec), s1) \<and>
     token_to_string (dp_crypto D) (dp_json D)
       \<lparr>jt_headers = headers_create_new (dp_env D) kid, jt_claims = claims, jt_key = k\<rparr> = Inr a \<and>
     tc_iss claims = issuer \<and> tc_sub claims = rr_subject rec \<and> tc_aud claims = rr_audience rec \<and>
     tc_extra claims = [] \<and>
     fst (js_store_refresh (dp_store D) r \<lparr>rr_subject = rr_subject rec, rr_audience = rr_audience rec,
        rr_family = rr_family rec\<rparr>
        (env_u64 (dp_env D) ''REFRESH_TOKEN_TTL_SECONDS'' DEFAULT_REFRESH_TTL_SECONDS) s2) = Inr ()"
proof -
  obtain rec s1 s2 w3 w4 where
    g: "js_get_refresh (dp_store D) i (w_store w) = (Inr (Some rec), s1)"
    and t: "generate_token D issuer (rr_subject rec) (rr_audience rec) None [] (w\<lparr>w_store := s2\<rparr>) = (Ok a, w3)"
    and ir: "issue_refresh D (rr_subject rec) (rr_audience rec) (rr_family rec) w4 = (Ok r, w')"
    by (rule refresh_pair_Ok [OF assms]) (rule that; assumption)
  obtain jwk :: jwk_data and k m claims where
    c: "claims_create_new D issuer (rr_subject rec) (rr_audience rec) None [] (w\<lparr>w_store := s2, w_keys := m\<rparr>)
      = (Ok claims, w3)"
    and a: "token_to_string (dp_crypto D) (dp_json D)
       \<lparr>jt_headers = headers_create_new (dp_env D) (jd_kid jwk), jt_claims = claims, jt_key = k\<rparr> = Inr a"
    by (rule generate_token_Ok [OF t]) (rule that; assumption)
  have "tc_iss claims = issuer \<and> tc_sub claims = rr_subject rec \<and> tc_aud claims = rr_audience rec \<and>
     tc_extra claims = []"
  proof -
    obtain now expiry u where "claims = new_claims issuer (rr_subject rec) (rr_audience rec) now expiry u []"
      using create_new_Ok [OF c] unfolding issued_with_def by (elim exE conjE)
    then show ?thesis by (simp add: new_claims_def)
  qed
  moreover obtain s5 where "js_store_refresh (dp_store D) r \<lparr>rr_subject = rr_subject rec,
      rr_audience = rr_audience rec, rr_family = rr_family rec\<rparr>
      (env_u64 (dp_env D) ''REFRESH_TOKEN_TTL_SECONDS'' DEFAULT_REFRESH_TTL_SECONDS) (w_store w4) = (Inr (), s5)"
    by (rule issue_refresh_Ok [OF ir]) (rule that; simp)
  ultimately show ?thesis
    by (rule_tac exI [of _ rec], rule_tac exI [of _ "jd_kid jwk"], rule_tac exI [of _ k],
        rule_tac exI [of _ claims], rule_tac exI [of _ s1], rule_tac exI [of _ "w_store w4"])
      (use g a in simp)
qed

section \<open>Witnesses\<close>

text \<open>
  A world with the refresh token \<open>r0\<close>, whose record expires at 1030; every clock stands at 1000.
\<close>

definition demo_env :: env where
  "demo_env = [''TOKEN_EXPIRATION_SECONDS'' \<mapsto> ''60'', ''REFRESH_TOKEN_TTL_SECONDS'' \<mapsto> ''30'']"

definition demo_deps_r ::
  "(string, unit, string, string, unit, nat, keyspace redis_client) deps" where
  "demo_deps_r = demo_deps\<lparr>dp_env := demo_env\<rparr>"

definition demo_rec :: refresh_record where
  "demo_rec = \<lparr>rr_subject = ''alice'', rr_audience = [''app''], rr_family = ''f''\<rparr>"

definition demo_refreshable :: "(nat, keyspace redis_client) world" where
  "demo_refreshable = demo_world\<lparr>w_store := (w_store demo_world)
     \<lparr>rc_manager := True,
      rc_server := \<lparr>ks_map = [''refresh:r0'' \<mapsto> (KHash [(''sub'', ''alice''), (''aud'', the (json_of_strings [''app''])), (''family'', ''f'')], Some 1030)],
        ks_faults = []\<rparr>\<rparr>\<rparr>"

definition demo_after :: "(nat, keyspace redis_client) world" where
  "demo_after = snd (refresh_token_pair demo_deps_r ''r0'' ''iss'' demo_refreshable)"

lemma demo_aud: "json_of_strings [''app''] = Some (the (json_of_strings [''app'']))"
  "strings_of_json (the (json_of_strings [''app''])) = Some [''app'']"
  by (simp_all add: json_of_strings_def strings_of_json_def plain_char_def byte_of_def)

lemma demo_env_values:
  "env_u64 demo_env ''REFRESH_TOKEN_TTL_SECONDS'' n = 30"
  "expiration_seconds demo_env None = Inr 60"
  "headers_create_new demo_env ''k1'' = demo_headers"
  by (simp_all add: env_u64_def expiration_seconds_def demo_env_def env_or_def parse_u64_def
      parse_unsigned_def parse_dec_def strip_plus_def is_digit_def digit_val_def byte_of_def
      headers_create_new_def demo_headers_def)

lemma demo_private_key:
  "fst (get_private_key demo_b64 demo_service (m\<lparr>km_current_key_id := i\<rparr>)) = Inr (demo_key_data, ''1'')"
  by (auto simp: get_private_key_def get_jwk_data_def private_key_def create_key_def get_key_def
      demo_service_def demo_key_data_def demo_b64_def demo_crypto_def Let_def)

lemma demo_key_call:
  "\<exists>m. get_private_key demo_b64 demo_service k = (Inr (demo_key_data, ''1''), m)"
proof -
  have "k = k\<lparr>km_current_key_id := km_current_key_id k\<rparr>" by simp
  then have "fst (get_private_key demo_b64 demo_service k) = Inr (demo_key_data, ''1'')"
    using demo_private_key by metis
  then show ?thesis by (metis prod.collapse)
qed

text \<open>A client with the clock standing still, and the commands on it.\<close>

definition still_client :: "nat \<Rightarrow> keymap \<Rightarrow> metric list \<Rightarrow> keyspace redis_client" where
  "still_client n m ms = \<lparr>rc_manager = True, rc_server = \<lparr>ks_map = m, ks_faults = []\<rparr>,
     rc_time = \<lambda>_. 1000, rc_tick = n, rc_utc = \<lambda>_. 1000, rc_utc_tick = 0, rc_metrics = ms\<rparr>"

lemma still_issue:
  "issue (ks_exec f) (still_client n m ms) =
     (case f 1000 m of (x, m') \<Rightarrow> (x, still_client (Suc n) m' ms))"
  by (auto simp: issue_def still_client_def ks_exec_def rc_clock_def split: prod.splits)

lemma still_finish:
  "finish name (Inr v, still_client n m ms) = (Inr v, still_client n m (ms @ [RedisCommand name True]))"
  by (simp add: finish_def still_client_def record_redis_command_def)

lemma still_connection: "redis_connection R (still_client n m ms) = (Inr (), still_client n m ms)"
  by (simp add: redis_connection_def still_client_def)

lemmas still_run = redis_get_refresh_def redis_mark_refresh_used_def redis_store_jti_def
  redis_add_to_group_def redis_check_jti_def redis_store_refresh_def
  with_connection_def still_connection still_issue still_finish k_set_ex_def k_exists_def k_zadd_def
  k_expire_at_def k_expire_def k_hset_def k_hset_nx_def k_hgetall_def live_def alive_def
  keyspace_redis_def refresh_key_def family_group_def subject_group_def redis_jti_store_def

lemma demo_create_r:
  "claims_create_new demo_deps_r ''iss'' ''alice'' [''app''] None []
     (demo_world\<lparr>w_store := still_client n [''refresh:r0'' \<mapsto> v] ms, w_keys := k\<rparr>) =
   (Ok demo_claims, demo_world\<lparr>w_store := still_client (Suc (Suc (Suc (Suc n)))) [''refresh:r0'' \<mapsto> v,
        ''u0'' \<mapsto> (KStr ''1'', Some 1060), ''group:sub:alice'' \<mapsto> (KZset [(''u0'', 1060)], Some 1060)]
        (ms @ [RedisCommand ''store_jti'' True, RedisCommand ''add_to_group'' True, RedisCommand ''check_jti'' True]), w_keys := k, w_utc_tick := 2,
      w_uuid_tick := Suc 0\<rparr>)"
  by (simp add: claims_create_new_def and_then_def pure_step_def validate_custom_claims_def
      demo_env_values demo_deps_r_def demo_deps_def demo_world_def utc_now_def utc_tick_def
      uuid_next_def uuid_tick_def demo_uint Let_def store_call_def claims_is_verify_def
      claims_valid_at_def new_claims_def demo_claims_def still_run)


lemma demo_generate_r:
  "\<exists>k'. generate_token demo_deps_r ''iss'' ''alice'' [''app''] None []
     (demo_world\<lparr>w_store := still_client n [''refresh:r0'' \<mapsto> v] ms, w_keys := k\<rparr>) =
   (Ok demo_token, demo_world\<lparr>w_store := still_client (Suc (Suc (Suc (Suc n)))) [''refresh:r0'' \<mapsto> v,
        ''u0'' \<mapsto> (KStr ''1'', Some 1060), ''group:sub:alice'' \<mapsto> (KZset [(''u0'', 1060)], Some 1060)]
        (ms @ [RedisCommand ''store_jti'' True, RedisCommand ''add_to_group'' True, RedisCommand ''check_jti'' True]),
      w_keys := k', w_utc_tick := 2, w_uuid_tick := Suc 0\<rparr>)"
proof -
  obtain k' where k': "get_private_key demo_b64 demo_service k = (Inr (demo_key_data, ''1''), k')"
    using demo_key_call by blast
  have "headers_create_new (dp_env demo_deps_r) (jd_kid demo_key_data) = demo_headers"
    by (simp add: demo_deps_r_def demo_key_data_def demo_env_values)
  then show ?thesis
    using k' demo_create_r [where n = n and v = v and ms = ms and k = k'] demo_to_string
    by (intro exI [of _ k'])
      (simp add: generate_token_def and_then_def key_call_def pure_step_def demo_deps_r_def demo_deps_def demo_jwt_def)
qed

lemma demo_jti_store:
  "js_get_refresh (redis_jti_store R) = redis_get_refresh R"
  "js_mark_refresh_used (redis_jti_store R) = redis_mark_refresh_used R"
  "js_revoke_group (redis_jti_store R) = redis_revoke_group R"
  by (simp_all add: redis_jti_store_def)

lemma demo_deps_r_fields:
  "dp_store demo_deps_r = redis_jti_store keyspace_redis" "dp_crypto demo_deps_r = demo_b64"
  "dp_json demo_deps_r = demo_json" "dp_env demo_deps_r = demo_env"
  by (simp_all add: demo_deps_r_def demo_deps_def)

lemma demo_register_r:
  "\<exists>n' ms'. register_access_in_family demo_deps_r demo_token ''f''
     (demo_world\<lparr>w_store := still_client n [''refresh:r0'' \<mapsto> v, ''u0'' \<mapsto> j, ''group:sub:alice'' \<mapsto> g] ms,
      w_keys := k, w_utc_tick := u, w_uuid_tick := i\<rparr>) =
   (Ok (), demo_world\<lparr>w_store := still_client n' [''refresh:r0'' \<mapsto> v, ''u0'' \<mapsto> j, ''group:sub:alice'' \<mapsto> g,
      ''group:family:f'' \<mapsto> (KZset [(''u0'', 1060)], Some 1060)] ms',
      w_keys := k, w_utc_tick := u, w_uuid_tick := i\<rparr>)"
proof -
  have seg: "split_on (CHR ''.'') demo_token = [''aH'', ''aC'', ''a1aaaHbxaaaC'']"
    by (simp add: demo_token_def)
  have cl: "claims_from_base64 demo_b64 demo_json ''aC'' = Inr demo_claims"
    by (simp add: claims_from_base64_def segment_text_def demo_json_def utf8_valid.simps byte_of_def
        demo_b64_def)
  have ex: "as_i64 1060 = 1060" by (simp add: as_i64_def)
  show ?thesis
    by (rule exI [of _ "Suc (Suc n)"], rule exI [of _ "ms @ [RedisCommand ''add_to_group'' True]"])
      (simp add: register_access_in_family_def seg and_then_def pure_step_def cl store_call_def ex
        demo_deps_r_fields demo_claims_fields still_run)
qed

lemma demo_issue_refresh_r:
  assumes aud: "json_of_strings [''app''] = Some aud"
  shows "issue_refresh demo_deps_r ''alice'' [''app''] ''f''
     (demo_world\<lparr>w_store := still_client n [''refresh:r0'' \<mapsto> v, ''u0'' \<mapsto> j, ''group:sub:alice'' \<mapsto> g,
      ''group:family:f'' \<mapsto> (KZset [(''u0'', 1060)], Some 1060)] ms, w_keys := k, w_utc_tick := u, w_uuid_tick := i\<rparr>) =
   (Ok ''u0'', demo_world\<lparr>w_store := still_client (Suc (Suc (Suc (Suc n))))
      [''refresh:r0'' \<mapsto> v, ''u0'' \<mapsto> j, ''group:sub:alice'' \<mapsto> g,
       ''refresh:u0'' \<mapsto> (KHash [(''family'', ''f''), (''aud'', aud), (''sub'', ''alice'')], Some 1030),
       ''group:family:f'' \<mapsto> (KZset [(''u0'', 1060), (''refresh:u0'', 1030)], Some 1030)]
      (ms @ [RedisCommand ''store_refresh'' True, RedisCommand ''add_to_group'' True]),
      w_keys := k, w_utc_tick := Suc u, w_uuid_tick := Suc i\<rparr>)"
proof -
  have t: "as_i64 30 = 30" "i64_add 1000 30 = 1030"
    by (simp_all add: as_i64_def i64_add_def as_usize_def)
  have d: "w_uuid demo_world = (\<lambda>_. ''u0'')" "w_utc demo_world = (\<lambda>_. 1000)" by (simp_all add: demo_world_def)
  show ?thesis
    by (simp add: issue_refresh_def and_then_def store_call_def demo_deps_r_fields demo_env_values
        aud uuid_next_def uuid_tick_def utc_now_def utc_tick_def d t still_run Let_def)
qed

lemma demo_exchange:
  "\<exists>w1. refresh_token_pair demo_deps_r ''r0'' ''iss'' demo_refreshable = (Ok (demo_token, ''u0''), w1) \<and>
     rs_present ks_look (snd (redis_get_refresh keyspace_redis ''r0'' (w_store w1)))
       (rc_clock (snd (redis_get_refresh keyspace_redis ''r0'' (w_store w1)))) (refresh_key ''r0'')"
proof -
  define h where "h = [(''sub'', ''alice''), (''aud'', the (json_of_strings [''app''])), (''family'', ''f'')]"
  let ?v = "(KHash ((''used'', ''1'') # h), Some 1030)"
  let ?ms = "[RedisCommand ''get_refresh'' True, RedisCommand ''mark_refresh_used'' True]"
  let ?w2 = "demo_world\<lparr>w_store := still_client (Suc (Suc 0)) [''refresh:r0'' \<mapsto> ?v] ?ms\<rparr>"
  have w: "w_store demo_refreshable = still_client 0 [''refresh:r0'' \<mapsto> (KHash h, Some 1030)] []"
    "demo_refreshable\<lparr>w_store := c\<rparr> = demo_world\<lparr>w_store := c\<rparr>" for c
    by (simp_all add: demo_refreshable_def demo_world_def redis_client_init_def still_client_def h_def)
  have rec: "record_of_fields keyspace_redis (map_of h) = Some demo_rec" "h \<noteq> []" "map_of h ''used'' = None"
    using demo_aud(2) by (simp_all add: h_def record_of_fields_def keyspace_redis_def demo_rec_def)
  have hg: "rd_hgetall keyspace_redis k = ks_exec (k_hgetall k)" for k by (simp add: keyspace_redis_def)
  have s1: "store_call (redis_get_refresh keyspace_redis ''r0'') demo_refreshable =
      (Ok (Some demo_rec), demo_world\<lparr>w_store := still_client (Suc 0) [''refresh:r0'' \<mapsto> (KHash h, Some 1030)]
         [RedisCommand ''get_refresh'' True]\<rparr>)"
    using rec
    by (simp add: store_call_def w redis_get_refresh_def with_connection_def still_connection hg
        still_issue still_finish k_hgetall_def live_def alive_def refresh_key_def)
  have s2: "store_call (redis_mark_refresh_used keyspace_redis ''r0'') (demo_world\<lparr>w_store :=
         still_client (Suc 0) [''refresh:r0'' \<mapsto> (KHash h, Some 1030)] [RedisCommand ''get_refresh'' True]\<rparr>)
      = (Ok True, ?w2)"
    using rec by (simp add: store_call_def still_run)
  have k2: "?w2 = ?w2\<lparr>w_keys := demo_manager\<rparr>" by (simp add: demo_world_def)
  obtain n3 M3 ms3 k3 where s3: "generate_token demo_deps_r ''iss'' ''alice'' [''app''] None [] ?w2 =
      (Ok demo_token, demo_world\<lparr>w_store := still_client n3 [''refresh:r0'' \<mapsto> ?v,
        ''u0'' \<mapsto> (KStr ''1'', Some 1060), ''group:sub:alice'' \<mapsto> (KZset [(''u0'', 1060)], Some 1060)] ms3,
        w_keys := k3, w_utc_tick := 2, w_uuid_tick := Suc 0\<rparr>)"
    using demo_generate_r [where n = "Suc (Suc 0)" and v = ?v and ms = ?ms and k = demo_manager] k2
    by metis
  obtain n4 ms4 where s4: "register_access_in_family demo_deps_r demo_token ''f''
      (demo_world\<lparr>w_store := still_client n3 [''refresh:r0'' \<mapsto> ?v,
        ''u0'' \<mapsto> (KStr ''1'', Some 1060), ''group:sub:alice'' \<mapsto> (KZset [(''u0'', 1060)], Some 1060)] ms3,
        w_keys := k3, w_utc_tick := 2, w_uuid_tick := Suc 0\<rparr>) =
      (Ok (), demo_world\<lparr>w_store := still_client n4 [''refresh:r0'' \<mapsto> ?v,
        ''u0'' \<mapsto> (KStr ''1'', Some 1060), ''group:sub:alice'' \<mapsto> (KZset [(''u0'', 1060)], Some 1060),
        ''group:family:f'' \<mapsto> (KZset [(''u0'', 1060)], Some 1060)] ms4,
        w_keys := k3, w_utc_tick := 2, w_uuid_tick := Suc 0\<rparr>)"
    using demo_register_r by blast
  obtain aud where aud: "json_of_strings [''app''] = Some aud" using demo_aud(1) by blast
  define M5 :: keymap where "M5 = [''refresh:r0'' \<mapsto> ?v, ''u0'' \<mapsto> (KStr ''1'', Some 1060),
       ''group:sub:alice'' \<mapsto> (KZset [(''u0'', 1060)], Some 1060),
       ''refresh:u0'' \<mapsto> (KHash [(''family'', ''f''), (''aud'', aud), (''sub'', ''alice'')], Some 1030),
       ''group:family:f'' \<mapsto> (KZset [(''u0'', 1060), (''refresh:u0'', 1030)], Some 1030)]"
  define n5 where "n5 = Suc (Suc (Suc (Suc n4)))"
  define ms5 where "ms5 = ms4 @ [RedisCommand ''store_refresh'' True, RedisCommand ''add_to_group'' True]"
  define w5 where "w5 = demo_world\<lparr>w_store := still_client n5 M5 ms5, w_keys := k3, w_utc_tick := 3,
    w_uuid_tick := Suc (Suc 0)\<rparr>"
  have s5: "issue_refresh demo_deps_r ''alice'' [''app''] ''f''
     (demo_world\<lparr>w_store := still_client n4 [''refresh:r0'' \<mapsto> ?v, ''u0'' \<mapsto> (KStr ''1'', Some 1060),
      ''group:sub:alice'' \<mapsto> (KZset [(''u0'', 1060)], Some 1060),
      ''group:family:f'' \<mapsto> (KZset [(''u0'', 1060)], Some 1060)] ms4, w_keys := k3, w_utc_tick := 2,
      w_uuid_tick := Suc 0\<rparr>) = (Ok ''u0'', w5)"
    using demo_issue_refresh_r [OF aud, where u = 2 and i = "Suc 0"]
    by (simp add: w5_def n5_def M5_def ms5_def)
  have fields: "rr_subject demo_rec = ''alice''" "rr_audience demo_rec = [''app'']" "rr_family demo_rec = ''f''"
    by (simp_all add: demo_rec_def)
  have "refresh_token_pair demo_deps_r ''r0'' ''iss'' demo_refreshable = (Ok (demo_token, ''u0''), w5)"
    by (simp add: refresh_token_pair_def and_then_def demo_deps_r_fields demo_jti_store s1 s2 s3 s4 s5 fields)
  moreover have "M5 ''refresh:r0'' = Some ?v" by (simp add: M5_def)
  then have "rs_present ks_look (snd (redis_get_refresh keyspace_redis ''r0'' (w_store w5)))
       (rc_clock (snd (redis_get_refresh keyspace_redis ''r0'' (w_store w5)))) (refresh_key ''r0'')"
    by (simp add: w5_def redis_get_refresh_def with_connection_def still_connection hg still_issue still_finish
        k_hgetall_def live_def alive_def refresh_key_def)
      (simp add: still_client_def rc_clock_def rs_present_def ks_look_def map_look_def live_def alive_def)
  ultimately show ?thesis by blast
qed

lemma refresh_token_single_use_witness:
  "\<exists>w1. refresh_token_pair demo_deps_r ''r0'' ''iss'' demo_refreshable = (Ok (demo_token, ''u0''), w1) \<and>
     (\<forall>p. fst (refresh_token_pair demo_deps_r ''r0'' ''iss'' w1) \<noteq> Ok p)"
proof -
  obtain w1 where e: "refresh_token_pair demo_deps_r ''r0'' ''iss'' demo_refreshable = (Ok (demo_token, ''u0''), w1)"
    and p: "rs_present ks_look (snd (redis_get_refresh keyspace_redis ''r0'' (w_store w1)))
       (rc_clock (snd (redis_get_refresh keyspace_redis ''r0'' (w_store w1)))) (refresh_key ''r0'')"
    using demo_exchange by blast
  have m: "mono (rc_time (w_store demo_refreshable))"
    by (simp add: demo_refreshable_def demo_world_def redis_client_init_def mono_def)
  have f: "fresh_ids demo_refreshable ''r0''"
    by (simp add: fresh_ids_def demo_refreshable_def demo_world_def bare_key_def)
  have "fst (refresh_token_pair demo_deps_r ''r0'' ''iss'' w1) \<noteq> Ok q" for q
    by (rule refresh_token_single_use [OF ks.redis_server_axioms demo_deps_r_fields(1) m f e, of "[]"])
      (simp_all add: p)
  then show ?thesis using e by blast
qed

definition demo_used :: "(nat, keyspace redis_client) world" where
  "demo_used = demo_world\<lparr>w_store := still_client 0
     [''refresh:r0'' \<mapsto> (KHash [(''used'', ''1''), (''sub'', ''alice''), (''aud'', ''[]''), (''family'', ''f'')], Some 1030)] []\<rparr>"

lemma refresh_reuse_kills_family_witness:
  "fst (refresh_token_pair demo_deps_r ''r0'' ''iss'' demo_used) = Err NotValid"
proof -
  let ?h = "[(''used'', ''1''), (''sub'', ''alice''), (''aud'', ''[]''), (''family'', ''f'')]"
  let ?r = "\<lparr>rr_subject = ''alice'', rr_audience = [], rr_family = ''f''\<rparr>"
  let ?m = "[''refresh:r0'' \<mapsto> (KHash ?h, Some 1030)]"
  have hg: "rd_hgetall keyspace_redis k = ks_exec (k_hgetall k)" for k by (simp add: keyspace_redis_def)
  have g: "js_get_refresh (dp_store demo_deps_r) ''r0'' (w_store demo_used) =
      (Inr (Some ?r), still_client (Suc 0) ?m [RedisCommand ''get_refresh'' True])"
    by (simp add: demo_deps_r_fields demo_jti_store demo_used_def redis_get_refresh_def with_connection_def
        still_connection hg still_issue still_finish k_hgetall_def live_def alive_def refresh_key_def
        record_of_fields_def)
      (simp add: keyspace_redis_def strings_of_json_def)
  have m: "js_mark_refresh_used (dp_store demo_deps_r) ''r0'' (still_client (Suc 0) ?m [RedisCommand ''get_refresh'' True]) =
      (Inr False, still_client (Suc (Suc 0)) ?m [RedisCommand ''get_refresh'' True, RedisCommand ''mark_refresh_used'' True])"
    by (simp add: demo_deps_r_fields demo_jti_store still_run)
  obtain s3 where "js_revoke_group (dp_store demo_deps_r) (family_group (rr_family ?r)) (still_client (Suc (Suc 0)) ?m
      [RedisCommand ''get_refresh'' True, RedisCommand ''mark_refresh_used'' True]) = (Inr 0, s3)"
    by (simp add: demo_deps_r_fields demo_jti_store redis_revoke_group_def with_connection_def still_connection
        redis_utc_now_def keyspace_redis_def)
      (simp add: still_client_def issue_def ks_exec_def k_zrem_def k_zrange_def k_del_def live_def finish_def
        family_group_def rc_clock_def)
  from refresh_reuse_kills_family [OF g m this] show ?thesis by simp
qed

lemma refresh_keeps_identity_witness:
  "\<exists>rec claims s1. js_get_refresh (dp_store demo_deps_r) ''r0'' (w_store demo_refreshable) = (Inr (Some rec), s1) \<and>
     tc_sub claims = rr_subject rec \<and> tc_extra (claims :: unit token_claims) = []"
proof -
  obtain w1 where "refresh_token_pair demo_deps_r ''r0'' ''iss'' demo_refreshable = (Ok (demo_token, ''u0''), w1)"
    using demo_exchange by blast
  from refresh_keeps_identity [OF this] show ?thesis by metis
qed

end
