(* ===== verification/Net.thy ===== *)
theory Net
  imports Prelude
begin

text \<open>
  Addresses as \<open>std::net\<close> has them: octets in network order, the parser of \<open>IpAddr::from_str\<close>, and
  the conversion of a mapped IPv6 address. Requests carry the peer address and the headers.
\<close>

section \<open>Addresses\<close>

datatype ip_addr = V4 "u8 list" | V6 "u8 list"

fun ip_wf :: "ip_addr \<Rightarrow> bool" where
  "ip_wf (V4 os) = (length os = 4)"
| "ip_wf (V6 os) = (length os = 16)"

fun octets :: "ip_addr \<Rightarrow> u8 list" where
  "octets (V4 os) = os"
| "octets (V6 os) = os"

definition is_ipv4 :: "ip_addr \<Rightarrow> bool" where
  "is_ipv4 ip = (case ip of V4 _ \<Rightarrow> True | V6 _ \<Rightarrow> False)"

text \<open>\<open>Ipv6Addr::to_ipv4_mapped\<close>: ten zero octets and two of \<open>0xff\<close> before the IPv4 address.\<close>

definition to_ipv4_mapped :: "u8 list \<Rightarrow> u8 list option" where
  "to_ipv4_mapped os =
     (if take 12 os = replicate 10 0 @ [0xff, 0xff] then Some (drop 12 os) else None)"

section \<open>Parsing\<close>

definition hex_val :: "char \<Rightarrow> nat option" where
  "hex_val c =
     (let b = byte_of c in
      if 48 \<le> b \<and> b \<le> 57 then Some (b - 48)
      else if 65 \<le> b \<and> b \<le> 70 then Some (b - 55)
      else if 97 \<le> b \<and> b \<le> 102 then Some (b - 87)
      else None)"

definition radix_val :: "nat \<Rightarrow> char \<Rightarrow> nat option" where
  "radix_val radix c = (case hex_val c of None \<Rightarrow> None | Some d \<Rightarrow> if d < radix then Some d else None)"

text \<open>
  \<open>Parser::read_number\<close>: the longest run of digits, at least one, at most \<open>maxd\<close>, in range, and
  without a leading zero unless that is allowed. The result is the number and the rest.
\<close>

definition read_number :: "nat \<Rightarrow> nat \<Rightarrow> bool \<Rightarrow> nat \<Rightarrow> string \<Rightarrow> (nat \<times> string) option" where
  "read_number radix maxd zero_prefix bound s =
     (let ds = takeWhile (\<lambda>c. radix_val radix c \<noteq> None) s;
          v = foldl (\<lambda>acc c. radix * acc + the (radix_val radix c)) 0 ds in
      if ds = [] \<or> maxd < length ds \<or> bound \<le> v \<or>
         (\<not> zero_prefix \<and> hd ds = CHR ''0'' \<and> 1 < length ds)
      then None else Some (v, drop (length ds) s))"

definition read_char :: "char \<Rightarrow> string \<Rightarrow> string option" where
  "read_char d s = (case s of [] \<Rightarrow> None | c # r \<Rightarrow> if c = d then Some r else None)"

text \<open>\<open>Parser::read_separator\<close>: the separator precedes every element but the first.\<close>

definition read_separator ::
  "char \<Rightarrow> nat \<Rightarrow> (string \<Rightarrow> ('a \<times> string) option) \<Rightarrow> string \<Rightarrow> ('a \<times> string) option" where
  "read_separator d i inner s =
     (if i = 0 then inner s else (case read_char d s of None \<Rightarrow> None | Some r \<Rightarrow> inner r))"

fun read_octets :: "nat \<Rightarrow> nat \<Rightarrow> string \<Rightarrow> (nat list \<times> string) option" where
  "read_octets 0 i s = Some ([], s)"
| "read_octets (Suc n) i s =
     (case read_separator (CHR ''.'') i (read_number 10 3 False 256) s of
        None \<Rightarrow> None
      | Some (v, r) \<Rightarrow>
          (case read_octets n (Suc i) r of None \<Rightarrow> None | Some (vs, r') \<Rightarrow> Some (v # vs, r')))"

definition read_ipv4 :: "string \<Rightarrow> (u8 list \<times> string) option" where
  "read_ipv4 s = map_option (\<lambda>(vs, r). (map of_nat vs, r)) (read_octets 4 0 s)"

definition group_octets :: "nat \<Rightarrow> u8 list" where
  "group_octets g = [of_nat (g div 256), of_nat (g mod 256)]"

text \<open>
  \<open>read_groups\<close> of the IPv6 parser: up to \<open>limit\<close> groups of one to four hexadecimal digits; where at
  least two groups are left, an embedded IPv4 address ends the run.
\<close>

function read_groups :: "nat \<Rightarrow> nat \<Rightarrow> string \<Rightarrow> u8 list \<times> bool \<times> string" where
  "read_groups limit i s =
     (if limit \<le> i then ([], False, s)
      else (case (if i < limit - 1 then read_separator (CHR '':'') i read_ipv4 s else None) of
              Some (v4, r) \<Rightarrow> (v4, True, r)
            | None \<Rightarrow>
                (case read_separator (CHR '':'') i (read_number 16 4 True 65536) s of
                   None \<Rightarrow> ([], False, s)
                 | Some (g, r) \<Rightarrow>
                     (case read_groups limit (Suc i) r of
                        (os, b, r') \<Rightarrow> (group_octets g @ os, b, r')))))"
  by pat_completeness auto
termination by (relation "measure (\<lambda>(limit, i, _). limit - i)") auto

declare read_groups.simps [simp del]

definition read_ipv6 :: "string \<Rightarrow> (u8 list \<times> string) option" where
  "read_ipv6 s =
     (case read_groups 8 0 s of
        (head, head_ipv4, r) \<Rightarrow>
          if length head = 16 then Some (head, r)
          else if head_ipv4 then None
          else (case read_char (CHR '':'') r of
                  None \<Rightarrow> None
                | Some r1 \<Rightarrow>
                    (case read_char (CHR '':'') r1 of
                       None \<Rightarrow> None
                     | Some r2 \<Rightarrow>
                         (case read_groups (8 - (length head div 2 + 1)) 0 r2 of
                            (tail, _, r3) \<Rightarrow>
                              Some (head @ replicate (16 - length head - length tail) 0 @ tail, r3)))))"

text \<open>\<open>IpAddr::from_str\<close>: IPv4 first, then IPv6, and all of the input.\<close>

definition parse_ip :: "string \<Rightarrow> ip_addr option" where
  "parse_ip s =
     (case read_ipv4 s of
        Some (os, r) \<Rightarrow> if r = [] then Some (V4 os) else None
      | None \<Rightarrow>
          (case read_ipv6 s of
             Some (os, r) \<Rightarrow> if r = [] then Some (V6 os) else None
           | None \<Rightarrow> None))"

lemma read_octets_length: "read_octets n i s = Some (vs, r) \<Longrightarrow> length vs = n"
  by (induction n i s arbitrary: vs r rule: read_octets.induct) (auto split: option.splits prod.splits)

lemma read_ipv4_length: "read_ipv4 s = Some (os, r) \<Longrightarrow> length os = 4"
  by (auto simp: read_ipv4_def dest: read_octets_length)

lemma read_groups_length:
  "read_groups limit i s = (os, b, r) \<Longrightarrow> i \<le> limit \<Longrightarrow>
     even (length os) \<and> length os \<le> 2 * (limit - i)"
proof (induction limit i s arbitrary: os b r rule: read_groups.induct)
  case (1 limit i s)
  show ?case
  proof (cases "limit \<le> i")
    case True
    then show ?thesis
      using "1.prems" by (simp add: read_groups.simps [of i i s] read_groups.simps [of limit i s])
  next
    case False
    let ?q = "if i < limit - 1 then read_separator (CHR '':'') i read_ipv4 s else None"
    show ?thesis
    proof (cases ?q)
      case (Some p)
      then obtain v4 r4 where p: "?q = Some (v4, r4)" by (cases p) auto
      then have l: "i < limit - 1" "length v4 = 4"
        by (auto simp: read_separator_def read_ipv4_length split: if_splits option.splits)
      have "os = v4" using "1.prems"(1) False p by (simp add: read_groups.simps [of limit i])
      then show ?thesis using l by simp
    next
      case None
      show ?thesis
      proof (cases "read_separator (CHR '':'') i (read_number 16 4 True 65536) s")
        case None
        then show ?thesis using "1.prems"(1) False \<open>?q = None\<close>
          by (simp add: read_groups.simps [of limit i])
      next
        case (Some p)
        then obtain g r' where g: "read_separator (CHR '':'') i (read_number 16 4 True 65536) s = Some (g, r')"
          by (cases p) auto
        obtain os' b' r'' where t: "read_groups limit (Suc i) r' = (os', b', r'')" by (metis prod_cases3)
        have os: "os = group_octets g @ os'"
          using "1.prems"(1) False \<open>?q = None\<close> g t by (simp add: read_groups.simps [of limit i])
        have "even (length os') \<and> length os' \<le> 2 * (limit - Suc i)"
          using "1.IH" [OF False \<open>?q = None\<close> g refl t] False by simp
        then show ?thesis using os False by (auto simp: group_octets_def)
      qed
    qed
  qed
qed

lemma read_ipv6_length: "read_ipv6 s = Some (os, r) \<Longrightarrow> length os = 16"
proof -
  assume a: "read_ipv6 s = Some (os, r)"
  obtain head b r1 where h: "read_groups 8 0 s = (head, b, r1)" by (metis prod_cases3)
  have e: "even (length head)" "length head \<le> 16" using read_groups_length [OF h] by simp_all
  show ?thesis
  proof (cases "length head = 16")
    case True
    then show ?thesis using a h by (simp add: read_ipv6_def)
  next
    case False
    then obtain r2 tail b' r3 where t: "read_groups (8 - (length head div 2 + 1)) 0 r2 = (tail, b', r3)"
      and os: "os = head @ replicate (16 - length head - length tail) 0 @ tail"
      using a h by (auto simp: read_ipv6_def split: if_splits option.splits prod.splits)
    have "length tail \<le> 2 * (8 - (length head div 2 + 1))" using read_groups_length [OF t] by simp
    then have "length head + length tail \<le> 16" using e False by presburger
    then show ?thesis using os by simp
  qed
qed

lemma parse_ip_wf: "parse_ip s = Some ip \<Longrightarrow> ip_wf ip"
  by (auto simp: parse_ip_def read_ipv4_length read_ipv6_length split: option.splits if_splits)

section \<open>Requests\<close>

text \<open>
  A header value: its bytes, and its text where \<open>HeaderValue::to_str\<close> gives one. Header names are in
  lower case and several fields may carry the same name.
\<close>

record header_value =
  hv_bytes :: string
  hv_text :: "string option"

type_synonym headers = "(string \<times> header_value) list"

definition header_get :: "headers \<Rightarrow> string \<Rightarrow> header_value option" where
  "header_get hs name = map_of hs (to_ascii_lowercase name)"

definition header_get_all :: "headers \<Rightarrow> string \<Rightarrow> header_value list" where
  "header_get_all hs name = map snd (filter (\<lambda>p. fst p = to_ascii_lowercase name) hs)"

end
