(* ===== verification/Http.thy ===== *)
theory Http
  imports Net Token
begin

text \<open>
  What the HTTP layer works on: a request as actix hands it over, the service inside a middleware,
  and the state of the application, which is the world of the token layer and the buckets of the
  rate limiters. A service returns a response or panics; an application error has become its
  response before it leaves the handler.
\<close>

record request =
  rq_method :: string
  rq_path :: string
  rq_headers :: headers
  rq_peer :: "ip_addr option"
  rq_body :: string

record ('n, 's, 'g) app_world =
  aw_world :: "('n, 's) world"
  aw_limits :: 'g

type_synonym ('v, 'w) service = "request \<Rightarrow> 'w \<Rightarrow> (unit, 'v response) outcome \<times> 'w"

definition record_metric :: "metric \<Rightarrow> ('n, 's) world \<Rightarrow> ('n, 's) world" where
  "record_metric m w = w\<lparr>w_metrics := w_metrics w @ [m]\<rparr>"

definition record_app_metric :: "metric \<Rightarrow> ('n, 's, 'g) app_world \<Rightarrow> ('n, 's, 'g) app_world" where
  "record_app_metric m a = a\<lparr>aw_world := record_metric m (aw_world a)\<rparr>"

text \<open>\<open>Result<HttpResponse, Error>\<close> of a handler as the response actix makes of it.\<close>

definition into_response :: "(app_error, 'v response) outcome \<Rightarrow> (unit, 'v response) outcome" where
  "into_response r = (case r of Ok x \<Rightarrow> Ok x | Err e \<Rightarrow> Ok (app_error_response e) | Panic \<Rightarrow> Panic)"

lemma record_metric_simps [simp]:
  "w_store (record_metric m w) = w_store w" "w_keys (record_metric m w) = w_keys w"
  "w_utc (record_metric m w) = w_utc w" "w_uuid (record_metric m w) = w_uuid w"
  "w_metrics (record_metric m w) = w_metrics w @ [m]"
  by (simp_all add: record_metric_def)

lemma record_app_metric_simps [simp]:
  "aw_limits (record_app_metric m a) = aw_limits a"
  "aw_world (record_app_metric m a) = record_metric m (aw_world a)"
  by (simp_all add: record_app_metric_def)

end
