(* ===== verification/Rate_Limit.thy ===== *)
theory Rate_Limit
  imports Http
begin

text \<open>
  Rate limiting (\<open>src/rate_limit.rs\<close>): the configuration with its trusted proxies, the address a
  request is counted under, and the middleware. The token buckets are the \<open>governor\<close> crate's: a
  dictionary over their state \<open>'g\<close>, where \<open>Inl\<close> is a refusal with the time to wait in nanoseconds.
  \<open>with_period\<close> is \<open>Quota::with_period\<close> on a period in nanoseconds.
\<close>

section \<open>Environment\<close>

definition rl_env_u64 :: "env \<Rightarrow> string \<Rightarrow> u64 \<Rightarrow> u64" where
  "rl_env_u64 e key dflt =
     (case e key of None \<Rightarrow> dflt | Some v \<Rightarrow> (case parse_u64 (trim v) of Some n \<Rightarrow> n | None \<Rightarrow> dflt))"

definition rl_env_u32 :: "env \<Rightarrow> string \<Rightarrow> u32 \<Rightarrow> u32" where
  "rl_env_u32 e key dflt =
     (case e key of None \<Rightarrow> dflt | Some v \<Rightarrow> (case parse_u32 (trim v) of Some n \<Rightarrow> n | None \<Rightarrow> dflt))"

definition rl_env_bool :: "env \<Rightarrow> string \<Rightarrow> bool \<Rightarrow> bool" where
  "rl_env_bool e key dflt =
     (case e key of
        None \<Rightarrow> dflt
      | Some v \<Rightarrow>
          (let t = to_ascii_lowercase (trim v) in
           if t \<in> {''1'', ''true'', ''yes'', ''on''} then True
           else if t \<in> {''0'', ''false'', ''no'', ''off'', ''''} then False
           else dflt))"

section \<open>Addresses and ranges\<close>

definition canonical :: "ip_addr \<Rightarrow> ip_addr" where
  "canonical ip =
     (case ip of
        V6 os \<Rightarrow> (case to_ipv4_mapped os of Some v4 \<Rightarrow> V4 v4 | None \<Rightarrow> V6 os)
      | V4 os \<Rightarrow> V4 os)"

definition group_v6 :: "ip_addr \<Rightarrow> ip_addr" where
  "group_v6 ip = (case ip of V6 os \<Rightarrow> V6 (take 7 os @ replicate 9 0) | V4 os \<Rightarrow> V4 os)"

text \<open>The prefix is a \<open>u8\<close> in range of the address (see \<open>cidr_wf\<close>), so no slice goes out of bounds.\<close>

definition prefix_match :: "u8 list \<Rightarrow> u8 list \<Rightarrow> nat \<Rightarrow> bool" where
  "prefix_match a b prefix =
     (let whole = prefix div 8; rem = prefix mod 8 in
      if take whole a \<noteq> take whole b then False
      else if rem = 0 then True
      else (let mask = push_bit (8 - rem) (0xff :: u8) in
            (a ! whole) AND mask = (b ! whole) AND mask))"

record cidr =
  ci_addr :: ip_addr
  ci_prefix :: nat

definition max_prefix :: "ip_addr \<Rightarrow> nat" where
  "max_prefix ip = (if is_ipv4 ip then 32 else 128)"

definition cidr_parse :: "string \<Rightarrow> cidr option" where
  "cidr_parse raw =
     (let s = trim raw;
          (addr_str, pfx) = (case split_once (CHR ''/'') s of
                              Some (a, p) \<Rightarrow> (trim a, Some (trim p)) | None \<Rightarrow> (s, None)) in
      case parse_ip addr_str of
        None \<Rightarrow> None
      | Some ip \<Rightarrow>
          (let addr = canonical ip in
           case pfx of
             None \<Rightarrow> Some \<lparr>ci_addr = addr, ci_prefix = max_prefix addr\<rparr>
           | Some p \<Rightarrow>
               (case parse_unsigned 8 p of
                  None \<Rightarrow> None
                | Some n \<Rightarrow>
                    if max_prefix addr < n then None else Some \<lparr>ci_addr = addr, ci_prefix = n\<rparr>)))"

definition cidr_contains :: "cidr \<Rightarrow> ip_addr \<Rightarrow> bool" where
  "cidr_contains c ip =
     (case (ci_addr c, ip) of
        (V4 a, V4 b) \<Rightarrow> prefix_match a b (ci_prefix c)
      | (V6 a, V6 b) \<Rightarrow> prefix_match a b (ci_prefix c)
      | _ \<Rightarrow> False)"

definition ip_is_trusted :: "cidr list \<Rightarrow> ip_addr \<Rightarrow> bool" where
  "ip_is_trusted trusted ip = list_ex (\<lambda>c. cidr_contains c ip) trusted"

section \<open>The key of a request\<close>

definition parse_forwarded_ip :: "string \<Rightarrow> ip_addr option" where
  "parse_forwarded_ip raw =
     (let entry = trim raw in
      case parse_ip entry of
        Some ip \<Rightarrow> Some (canonical ip)
      | None \<Rightarrow>
          (case rsplit_once (CHR '':'') entry of
             None \<Rightarrow> None
           | Some (host, _) \<Rightarrow> map_option canonical (parse_ip host)))"

definition forwarded_ips :: "headers \<Rightarrow> string \<Rightarrow> ip_addr list" where
  "forwarded_ips hs header =
     concat (map (\<lambda>v. case hv_text v of
                        None \<Rightarrow> []
                      | Some text \<Rightarrow> List.map_filter parse_forwarded_ip (split_on (CHR '','') text))
                 (header_get_all hs header))"

definition client_from_forwarded :: "headers \<Rightarrow> string \<Rightarrow> cidr list \<Rightarrow> ip_addr option" where
  "client_from_forwarded hs header trusted =
     (let ips = forwarded_ips hs header in
      case find (\<lambda>ip. \<not> ip_is_trusted trusted ip) (rev ips) of
        Some ip \<Rightarrow> Some ip
      | None \<Rightarrow> (case ips of [] \<Rightarrow> None | ip # _ \<Rightarrow> Some ip))"

definition resolve_key_ip ::
  "ip_addr option \<Rightarrow> headers \<Rightarrow> string \<Rightarrow> cidr list \<Rightarrow> ip_addr option" where
  "resolve_key_ip peer hs header trusted =
     (case peer of
        None \<Rightarrow> None
      | Some p \<Rightarrow>
          (let peer' = canonical p;
               ip = (if ip_is_trusted trusted peer'
                     then (case client_from_forwarded hs header trusted of Some c \<Rightarrow> c | None \<Rightarrow> peer')
                     else peer') in
           Some (group_v6 ip)))"

section \<open>Quotas and configuration\<close>

definition quota :: "(nat \<Rightarrow> 'q option) \<Rightarrow> u64 \<Rightarrow> u32 \<Rightarrow> (unit, 'q \<times> nat) outcome" where
  "quota with_period per_second burst =
     (let per = max 1 (unat per_second); b = max 1 (unat burst) in
      case with_period (1000000000 div per) of
        None \<Rightarrow> Panic
      | Some q \<Rightarrow> Ok (q, b))"

definition retry_after_secs :: "nat \<Rightarrow> nat" where
  "retry_after_secs wait = max 1 (wait div 1000000000)"

record rate_limit_config =
  rl_verify_enabled :: bool
  rl_verify_per_second :: u64
  rl_verify_burst :: u32
  rl_internal_enabled :: bool
  rl_internal_per_second :: u64
  rl_internal_burst :: u32
  rl_trusted :: "cidr list"
  rl_forwarded_header :: string

definition trusted_from :: "string \<Rightarrow> cidr list" where
  "trusted_from raw =
     List.map_filter cidr_parse (filter (\<lambda>s. s \<noteq> []) (map trim (split_on (CHR '','') raw)))"

definition rate_limit_from_env :: "env \<Rightarrow> rate_limit_config" where
  "rate_limit_from_env e =
     \<lparr>rl_verify_enabled = rl_env_bool e ''RATE_LIMIT_VERIFY_ENABLED'' True,
      rl_verify_per_second = rl_env_u64 e ''RATE_LIMIT_VERIFY_PER_SECOND'' 10,
      rl_verify_burst = rl_env_u32 e ''RATE_LIMIT_VERIFY_BURST'' 20,
      rl_internal_enabled = rl_env_bool e ''RATE_LIMIT_INTERNAL_ENABLED'' False,
      rl_internal_per_second = rl_env_u64 e ''RATE_LIMIT_INTERNAL_PER_SECOND'' 50,
      rl_internal_burst = rl_env_u32 e ''RATE_LIMIT_INTERNAL_BURST'' 100,
      rl_trusted = trusted_from (env_or e ''RATE_LIMIT_TRUSTED_PROXIES'' []),
      rl_forwarded_header = env_or e ''RATE_LIMIT_FORWARDED_HEADER'' ''X-Forwarded-For''\<rparr>"

record 'q per_ip_limiter =
  pl_quota :: "'q \<times> nat"
  pl_trusted :: "cidr list"
  pl_forwarded_header :: string

definition build_verify ::
  "(nat \<Rightarrow> 'q option) \<Rightarrow> rate_limit_config \<Rightarrow> (unit, 'q per_ip_limiter option) outcome" where
  "build_verify with_period c =
     (if \<not> rl_verify_enabled c then Ok None
      else (case quota with_period (rl_verify_per_second c) (rl_verify_burst c) of
              Ok q \<Rightarrow> Ok (Some \<lparr>pl_quota = q, pl_trusted = rl_trusted c,
                                pl_forwarded_header = rl_forwarded_header c\<rparr>)
            | Err e \<Rightarrow> Err e
            | Panic \<Rightarrow> Panic))"

definition build_internal ::
  "(nat \<Rightarrow> 'q option) \<Rightarrow> rate_limit_config \<Rightarrow> (unit, ('q \<times> nat) option) outcome" where
  "build_internal with_period c =
     (if \<not> rl_internal_enabled c then Ok None
      else (case quota with_period (rl_internal_per_second c) (rl_internal_burst c) of
              Ok q \<Rightarrow> Ok (Some q) | Err e \<Rightarrow> Err e | Panic \<Rightarrow> Panic))"

section \<open>The middleware\<close>

text \<open>
  The buckets in the state: one per address for the per-IP limiter and a single one for the global
  cap, which all internal endpoints share.
\<close>

record 'g governor =
  gv_check_key :: "ip_addr \<Rightarrow> 'g \<Rightarrow> (nat + unit) \<times> 'g"
  gv_check :: "'g \<Rightarrow> (nat + unit) \<times> 'g"

datatype strategy =
    LimitDisabled
  | PerIp "cidr list" string
  | LimitGlobal

definition rate_limit_per_ip :: "'q per_ip_limiter option \<Rightarrow> strategy" where
  "rate_limit_per_ip l =
     (case l of None \<Rightarrow> LimitDisabled | Some p \<Rightarrow> PerIp (pl_trusted p) (pl_forwarded_header p))"

definition rate_limit_global :: "('q \<times> nat) option \<Rightarrow> strategy" where
  "rate_limit_global l = (case l of None \<Rightarrow> LimitDisabled | Some _ \<Rightarrow> LimitGlobal)"

definition refusal :: "(nat + unit) \<times> 'g \<Rightarrow> (nat + unit) \<times> 'g" where
  "refusal r = (case r of (Inl wait, g) \<Rightarrow> (Inl (retry_after_secs wait), g) | (Inr u, g) \<Rightarrow> (Inr u, g))"

definition strategy_check :: "'g governor \<Rightarrow> strategy \<Rightarrow> request \<Rightarrow> 'g \<Rightarrow> (nat + unit) \<times> 'g" where
  "strategy_check G st r g =
     (case st of
        LimitDisabled \<Rightarrow> (Inr (), g)
      | LimitGlobal \<Rightarrow> refusal (gv_check G g)
      | PerIp trusted header \<Rightarrow>
          (case resolve_key_ip (rq_peer r) (rq_headers r) header trusted of
             Some ip \<Rightarrow> refusal (gv_check_key G ip g)
           | None \<Rightarrow> (Inr (), g)))"

definition too_many_requests :: "nat \<Rightarrow> 'v response" where
  "too_many_requests secs =
     \<lparr>rs_status = 429, rs_headers = [(''retry-after'', show_dec secs)],
      rs_body = ErrorBody (error_response_new ''Too Many Requests'')\<rparr>"

definition rate_limit_call ::
  "'g governor \<Rightarrow> strategy \<Rightarrow> ('v, ('n, 's, 'g) app_world) service \<Rightarrow> ('v, ('n, 's, 'g) app_world) service" where
  "rate_limit_call G st inner r a =
     (case strategy_check G st r (aw_limits a) of
        (Inr _, g) \<Rightarrow> inner r (a\<lparr>aw_limits := g\<rparr>)
      | (Inl secs, g) \<Rightarrow> (Ok (too_many_requests secs), record_app_metric RateLimited (a\<lparr>aw_limits := g\<rparr>)))"

end
