(* ===== verification/Bits.thy ===== *)
theory Bits
  imports Prelude
begin

text \<open>
  Bytes as lists of their bits, most significant first: the view in which address prefixes and
  base32 are specified.
\<close>

definition byte_bits :: "u8 \<Rightarrow> bool list" where
  "byte_bits b = map (\<lambda>i. bit b (7 - i)) [0..<8]"

definition octet_bits :: "u8 list \<Rightarrow> bool list" where
  "octet_bits os = concat (map byte_bits os)"

lemma length_byte_bits [simp]: "length (byte_bits b) = 8"
  by (simp add: byte_bits_def)

lemma byte_bits_nth: "i < 8 \<Longrightarrow> byte_bits b ! i = bit b (7 - i)"
  by (simp add: byte_bits_def)

lemma byte_bits_inject: "byte_bits a = byte_bits b \<longleftrightarrow> a = b"
proof
  assume e: "byte_bits a = byte_bits b"
  have "bit a n = bit b n" if "n < 8" for n
  proof -
    have "7 - n < 8" "7 - (7 - n) = n" using that by simp_all
    then have "byte_bits x ! (7 - n) = bit x n" for x by (metis byte_bits_nth)
    then show ?thesis using e by metis
  qed
  then show "a = b" by (intro bit_word_eqI) simp
qed simp

lemma length_octet_bits [simp]: "length (octet_bits os) = 8 * length os"
  by (induction os) (simp_all add: octet_bits_def)

lemma octet_bits_Cons: "octet_bits (b # os) = byte_bits b @ octet_bits os"
  by (simp add: octet_bits_def)

end
