(* ===== verification/Rate_Limit_Correct.thy ===== *)
theory Rate_Limit_Correct
  imports Rate_Limit Bits
begin

text \<open>
  Correctness of the rate limiter: ranges of addresses against the bits of the addresses, the key of
  a request under forged headers, the quota, and what a refused request does.
\<close>

section \<open>Ranges of addresses\<close>

lemma masked_eq:
  fixes a b :: u8
  assumes r: "r < 8"
  shows "a AND push_bit (8 - r) 0xff = b AND push_bit (8 - r) 0xff \<longleftrightarrow>
     take r (byte_bits a) = take r (byte_bits b)"
proof -
  have ff: "bit (0xff :: u8) n = (n < 8)" for n
  proof -
    have "(mask 8 :: u8) = 0xff" by (simp add: mask_eq_exp_minus_1)
    moreover have "bit (mask 8 :: u8) n = (n < 8)" by (simp add: bit_mask_iff)
    ultimately show ?thesis by simp
  qed
  have m: "bit (x AND push_bit (8 - r) 0xff) n \<longleftrightarrow> bit x n \<and> 8 - r \<le> n" if "n < 8" for x :: u8 and n
    using that ff [of "n - (8 - r)"] by (auto simp: bit_and_iff bit_push_bit_iff)
  have "a AND push_bit (8 - r) 0xff = b AND push_bit (8 - r) 0xff \<longleftrightarrow>
      (\<forall>n<8. 8 - r \<le> n \<longrightarrow> bit a n = bit b n)"
  proof
    assume e: "a AND push_bit (8 - r) 0xff = b AND push_bit (8 - r) 0xff"
    show "\<forall>n<8. 8 - r \<le> n \<longrightarrow> bit a n = bit b n" using m e by metis
  next
    assume e: "\<forall>n<8. 8 - r \<le> n \<longrightarrow> bit a n = bit b n"
    show "a AND push_bit (8 - r) 0xff = b AND push_bit (8 - r) 0xff"
      by (rule bit_word_eqI) (use m e in auto)
  qed
  also have "\<dots> \<longleftrightarrow> (\<forall>i<r. bit a (7 - i) = bit b (7 - i))"
  proof
    assume e: "\<forall>n<8. 8 - r \<le> n \<longrightarrow> bit a n = bit b n"
    show "\<forall>i<r. bit a (7 - i) = bit b (7 - i)" using e r by simp
  next
    assume e: "\<forall>i<r. bit a (7 - i) = bit b (7 - i)"
    show "\<forall>n<8. 8 - r \<le> n \<longrightarrow> bit a n = bit b n"
    proof (intro allI impI)
      fix n :: nat
      assume n: "n < 8" "8 - r \<le> n"
      then have "7 - n < r" using r by linarith
      then have "bit a (7 - (7 - n)) = bit b (7 - (7 - n))" using e by blast
      then show "bit a n = bit b n" using n by simp
    qed
  qed
  also have "\<dots> \<longleftrightarrow> take r (byte_bits a) = take r (byte_bits b)"
    using r by (simp add: list_eq_iff_nth_eq byte_bits_def)
  finally show ?thesis .
qed

lemma prefix_match_Cons:
  "8 \<le> p \<Longrightarrow> prefix_match (a # as) (b # bs) p \<longleftrightarrow> a = b \<and> prefix_match as bs (p - 8)"
proof -
  assume p: "8 \<le> p"
  then obtain q where q: "p = q + 8" by (metis le_add_diff_inverse2)
  have "(q + 8) div 8 = Suc (q div 8)" by simp
  then show ?thesis by (auto simp: q prefix_match_def Let_def)
qed

lemma prefix_match_bits_aux:
  "length a = length b \<Longrightarrow> p \<le> 8 * length a \<Longrightarrow>
     prefix_match a b p \<longleftrightarrow> take p (octet_bits a) = take p (octet_bits b)"
proof (induction a b arbitrary: p rule: list_induct2')
  case 1
  then show ?case by (simp add: prefix_match_def)
next
  case (4 x xs y ys)
  show ?case
  proof (cases "8 \<le> p")
    case True
    then show ?thesis using 4
      by (simp add: prefix_match_Cons octet_bits_Cons byte_bits_inject)
  next
    case False
    then have "prefix_match (x # xs) (y # ys) p \<longleftrightarrow> take p (byte_bits x) = take p (byte_bits y)"
      using masked_eq [of p x y] by (auto simp: prefix_match_def Let_def)
    then show ?thesis using False by (simp add: octet_bits_Cons)
  qed
qed simp_all

section \<open>Parsed ranges are in bounds\<close>

definition cidr_wf :: "cidr \<Rightarrow> bool" where
  "cidr_wf c \<longleftrightarrow> ip_wf (ci_addr c) \<and> ci_prefix c \<le> 8 * length (octets (ci_addr c))"

lemma canonical_wf: "ip_wf ip \<Longrightarrow> ip_wf (canonical ip)"
  by (cases ip) (auto simp: canonical_def to_ipv4_mapped_def split: option.splits if_splits)

lemma canonical_idem: "canonical (canonical ip) = canonical ip"
  by (cases ip) (auto simp: canonical_def split: option.splits)

lemma max_prefix_wf: "ip_wf ip \<Longrightarrow> max_prefix ip = 8 * length (octets ip)"
  by (cases ip) (simp_all add: max_prefix_def is_ipv4_def)

lemma cidr_parse_wf: "cidr_parse s = Some c \<Longrightarrow> cidr_wf c"
proof -
  assume a: "cidr_parse s = Some c"
  obtain t ip where p: "parse_ip t = Some ip" and c: "ci_addr c = canonical ip"
    and n: "ci_prefix c \<le> max_prefix (canonical ip)"
    using a by (auto simp: cidr_parse_def Let_def split: option.splits prod.splits if_splits)
  have "ip_wf (canonical ip)" by (rule canonical_wf [OF parse_ip_wf [OF p]])
  then show ?thesis using c n max_prefix_wf by (simp add: cidr_wf_def)
qed

text \<open>
  C32. A range that was read is well typed: its address is the four or sixteen octets of its family, an
  IPv4-mapped IPv6 address has become the IPv4 address, the prefix is no longer than the address (so
  every slice the range test takes is in bounds), and the range contains its own address.
\<close>

theorem cidr_type:
  assumes "cidr_parse s = Some c"
  shows "ip_wf (ci_addr c) \<and> canonical (ci_addr c) = ci_addr c \<and>
     ci_prefix c \<le> 8 * length (octets (ci_addr c)) \<and> cidr_contains c (ci_addr c)"
proof -
  have w: "ip_wf (ci_addr c)" "ci_prefix c \<le> 8 * length (octets (ci_addr c))"
    using cidr_parse_wf [OF assms] by (simp_all add: cidr_wf_def)
  obtain ip where "ci_addr c = canonical ip"
    using assms by (auto simp: cidr_parse_def Let_def split: option.splits prod.splits if_splits)
  then have "canonical (ci_addr c) = ci_addr c" by (simp add: canonical_idem)
  moreover have "cidr_contains c (ci_addr c)"
    using prefix_match_bits_aux [of "octets (ci_addr c)" "octets (ci_addr c)" "ci_prefix c"] w
    by (cases "ci_addr c") (simp_all add: cidr_contains_def)
  ultimately show ?thesis using w by blast
qed

text \<open>
  C31. A range contains exactly the addresses that share its prefix: for a configured range that
  parsed, the byte-and-mask test is equality of the first \<open>prefix\<close> bits within the same family, and
  no slice it takes is out of bounds.
\<close>

theorem cidr_contains_bits:
  assumes "cidr_parse s = Some c" and "ip_wf ip"
  shows "cidr_contains c ip \<longleftrightarrow>
     is_ipv4 ip = is_ipv4 (ci_addr c) \<and>
     take (ci_prefix c) (octet_bits (octets ip)) = take (ci_prefix c) (octet_bits (octets (ci_addr c))) \<and>
     ci_prefix c \<le> 8 * length (octets ip)"
proof -
  have w: "cidr_wf c" by (rule cidr_parse_wf [OF assms(1)])
  show ?thesis
    using w assms(2) prefix_match_bits_aux [of "octets (ci_addr c)" "octets ip" "ci_prefix c"]
    by (cases "ci_addr c"; cases ip) (auto simp: cidr_contains_def cidr_wf_def is_ipv4_def)
qed

section \<open>The key under forged headers\<close>

text \<open>
  Without trust the headers do not count: when the peer is not a trusted proxy, the key of the
  request is the peer's own address, whatever \<open>X-Forwarded-For\<close> says.
\<close>

theorem untrusted_peer_ignores_headers:
  assumes "\<not> ip_is_trusted trusted (canonical p)"
  shows "resolve_key_ip (Some p) hs header trusted = Some (group_v6 (canonical p))"
  using assms by (simp add: resolve_key_ip_def)

lemma map_filter_append [simp]: "List.map_filter f (xs @ ys) = List.map_filter f xs @ List.map_filter f ys"
  by (induction xs) (auto simp: List.map_filter_def split: option.splits)

lemma map_filter_trusted:
  "list_all (\<lambda>e. \<exists>ip. parse_forwarded_ip e = Some ip \<and> ip_is_trusted trusted ip) ts \<Longrightarrow>
     list_all (ip_is_trusted trusted) (List.map_filter parse_forwarded_ip ts)"
  by (induction ts) (auto simp: List.map_filter_def)

lemma find_rev_trusted:
  assumes "list_all (ip_is_trusted trusted) ts" and "\<not> ip_is_trusted trusted c"
  shows "find (\<lambda>ip. \<not> ip_is_trusted trusted ip) (rev (es @ c # ts)) = Some c"
proof -
  have "find (\<lambda>ip. \<not> ip_is_trusted trusted ip) (rev ts @ xs) = find (\<lambda>ip. \<not> ip_is_trusted trusted ip) xs" for xs
    using assms(1) by (induction ts arbitrary: xs) auto
  then show ?thesis using assms(2) by simp
qed

text \<open>
  C30. Forged entries do not count: behind a chain of trusted proxies the key is the address the
  outermost of them recorded for its client, whatever the client itself wrote into the header before
  it: in earlier fields or in earlier entries of the field.
\<close>

theorem forged_entries_ignored:
  assumes "ip_is_trusted trusted (canonical p)"
    and "header_get_all hs header = vs @ [v]"
    and "hv_text v = Some text" and "split_on (CHR '','') text = forged @ client # proxies"
    and "parse_forwarded_ip client = Some c" and "\<not> ip_is_trusted trusted c"
    and "list_all (\<lambda>e. \<exists>ip. parse_forwarded_ip e = Some ip \<and> ip_is_trusted trusted ip) proxies"
  shows "resolve_key_ip (Some p) hs header trusted = Some (group_v6 c)"
proof -
  let ?f = "\<lambda>v. case hv_text v of None \<Rightarrow> []
      | Some text \<Rightarrow> List.map_filter parse_forwarded_ip (split_on (CHR '','') text)"
  have ips: "forwarded_ips hs header = (concat (map ?f vs) @ List.map_filter parse_forwarded_ip forged)
      @ c # List.map_filter parse_forwarded_ip proxies"
    using assms(2-5) by (simp add: forwarded_ips_def List.map_filter_def)
  have "client_from_forwarded hs header trusted = Some c"
    unfolding client_from_forwarded_def ips Let_def
      find_rev_trusted [OF map_filter_trusted [OF assms(7)] assms(6)] by simp
  then show ?thesis using assms(1) by (simp add: resolve_key_ip_def)
qed

text \<open>
  An entry that does not parse is skipped, not refused: when the entry a trusted proxy recorded is
  not an address the parser knows, the entry before it decides, and that one came from the client.
\<close>

theorem unparsable_entry_falls_through:
  assumes "ip_is_trusted trusted (canonical p)"
    and "header_get_all hs header = [v]"
    and "hv_text v = Some text" and "split_on (CHR '','') text = [forged, recorded]"
    and "parse_forwarded_ip recorded = None"
    and "parse_forwarded_ip forged = Some c"
  shows "resolve_key_ip (Some p) hs header trusted = Some (group_v6 c)"
  using assms
  by (cases "ip_is_trusted trusted c")
    (simp_all add: resolve_key_ip_def client_from_forwarded_def forwarded_ips_def List.map_filter_def)

text \<open>
  One bucket per IPv6 network: two IPv6 addresses share a key exactly when they agree on the first
  56 bits, and an IPv4 address is a key of its own.
\<close>

theorem group_v6_key:
  assumes "ip_wf a" and "ip_wf b"
  shows "group_v6 a = group_v6 b \<longleftrightarrow>
     is_ipv4 a = is_ipv4 b \<and>
     (if is_ipv4 a then a = b
      else take 56 (octet_bits (octets a)) = take 56 (octet_bits (octets b)))"
proof (cases a; cases b)
  fix x y
  assume ab: "a = V6 x" "b = V6 y"
  have l: "length x = 16" "length y = 16" using assms ab by simp_all
  have "take 56 (octet_bits x) = take 56 (octet_bits y) \<longleftrightarrow> prefix_match x y 56"
    using l prefix_match_bits_aux [of x y 56] by simp
  also have "\<dots> \<longleftrightarrow> take 7 x = take 7 y" by (simp add: prefix_match_def)
  finally show ?thesis using ab l by (simp add: group_v6_def is_ipv4_def)
qed (simp_all add: group_v6_def is_ipv4_def)

section \<open>Quotas\<close>

text \<open>
  A quota is built, and the service starts, exactly for rates up to one request per nanosecond:
  with \<open>Quota::with_period\<close> refusing only a zero period, a rate of more than 1000000000 per second
  truncates the period to zero and panics; below that the quota is the period of the rate, raised
  to one per second, with a burst of at least one.
\<close>

theorem quota_total:
  assumes "\<And>n. with_period n = None \<longleftrightarrow> n = 0"
  shows "quota with_period per_second burst =
    (if 1000000000 < unat per_second then Panic
     else Ok (the (with_period (1000000000 div max 1 (unat per_second))), max 1 (unat burst)))"
proof -
  have "1000000000 div max 1 (unat per_second) = 0 \<longleftrightarrow> 1000000000 < unat per_second"
    by (auto simp: div_eq_0_iff max_def)
  then have "with_period (1000000000 div max 1 (unat per_second)) = None \<longleftrightarrow> 1000000000 < unat per_second"
    using assms by simp
  then show ?thesis
    by (cases "with_period (1000000000 div max 1 (unat per_second))") (simp_all add: quota_def Let_def)
qed

text \<open>
  A refused request goes no further: over the limit the answer is 429 with a delay of at least one
  second, the wrapped service does not run, and nothing but the buckets and the metric changes.
\<close>

theorem over_limit_stops:
  assumes "strategy_check G st r (aw_limits a) = (Inl secs, g)"
  shows "\<exists>resp a'. rate_limit_call G st inner r a = (Ok resp, a') \<and> rs_status resp = 429 \<and>
     rs_headers resp = [(''retry-after'', show_dec secs)] \<and> 1 \<le> secs \<and>
     aw_world a' = record_metric RateLimited (aw_world a) \<and> aw_limits a' = g"
proof -
  have "1 \<le> secs"
    using assms
    by (auto simp: strategy_check_def refusal_def retry_after_secs_def
        split: strategy.splits option.splits prod.splits sum.splits)
  then show ?thesis using assms by (simp add: rate_limit_call_def too_many_requests_def)
qed
section \<open>Witnesses\<close>

lemma hex_run:
  "hex_val CHR ''0'' = Some 0" "hex_val CHR ''1'' = Some 1" "hex_val CHR ''2'' = Some 2"
  "hex_val CHR ''3'' = Some 3" "hex_val CHR ''4'' = Some 4" "hex_val CHR ''8'' = Some 8"
  "hex_val CHR ''9'' = Some 9" "hex_val CHR ''.'' = None" "hex_val CHR ''['' = None"
  by (simp_all add: hex_val_def byte_of_def)

lemma char_run:
  "\<not> is_cont CHR ''0''" "\<not> is_cont CHR ''1''" "\<not> is_cont CHR ''2''" "\<not> is_cont CHR ''3''"
  "\<not> is_cont CHR ''4''" "\<not> is_cont CHR ''7''" "\<not> is_cont CHR ''8''" "\<not> is_cont CHR ''9''"
  "\<not> is_cont CHR ''b''" "\<not> is_cont CHR ''d''" "\<not> is_cont CHR '' ''" "\<not> is_cont CHR ''.''"
  "\<not> is_cont CHR ''/''" "\<not> is_cont CHR '':''" "\<not> is_cont CHR ''[''" "\<not> is_cont CHR '']''"
  "\<not> is_whitespace ''0''" "\<not> is_whitespace ''1''" "\<not> is_whitespace ''2''" "\<not> is_whitespace ''4''"
  "\<not> is_whitespace ''8''" "\<not> is_whitespace ''9''" "\<not> is_whitespace ''[''" "is_whitespace '' ''"
  by (simp_all add: is_cont_def is_whitespace_def whitespace_code_def byte_of_def)

lemma read_octets_4: "read_octets 4 = read_octets (Suc (Suc (Suc (Suc 0))))"
  by (simp add: numeral_eq_Suc)

lemmas parse_run = parse_forwarded_ip_def trim_def parse_ip_def read_ipv4_def read_octets_4
  read_separator_def read_number_def radix_val_def read_char_def hex_run char_run canonical_def

definition demo_range :: cidr where
  "demo_range = \<lparr>ci_addr = V4 [10, 0, 0, 0], ci_prefix = 8\<rparr>"

lemma demo_range_parse: "cidr_parse '' 10.0.0.0/8'' = Some demo_range"
  by (simp add: demo_range_def cidr_parse_def split_once_def parse_run is_ipv4_def max_prefix_def
      parse_unsigned_def parse_dec_def strip_plus_def is_digit_def digit_val_def byte_of_def)

lemma cidr_type_witness:
  "ip_wf (ci_addr demo_range) \<and> canonical (ci_addr demo_range) = ci_addr demo_range \<and>
   ci_prefix demo_range \<le> 32 \<and> cidr_contains demo_range (V4 [10, 0, 0, 0])"
  using cidr_type [OF demo_range_parse] by (simp add: demo_range_def)

lemma cidr_contains_bits_witness:
  "cidr_contains demo_range (V4 [10, 1, 2, 3]) \<longleftrightarrow>
     take 8 (octet_bits [10, 1, 2, 3]) = take 8 (octet_bits [10, 0, 0, 0])"
  using cidr_contains_bits [OF demo_range_parse, of "V4 [10, 1, 2, 3]"]
  by (simp add: demo_range_def is_ipv4_def)

lemma demo_trust:
  "ip_is_trusted [demo_range] (V4 (10 # os))"
  "c \<noteq> 10 \<Longrightarrow> \<not> ip_is_trusted [demo_range] (V4 (c # os))"
  by (simp_all add: ip_is_trusted_def demo_range_def cidr_contains_def prefix_match_def)

definition demo_forwarded :: "string \<Rightarrow> headers" where
  "demo_forwarded s = [(''x-forwarded-for'', \<lparr>hv_bytes = s, hv_text = Some s\<rparr>)]"

lemma demo_forwarded_all:
  "header_get_all (demo_forwarded s) ''X-Forwarded-For'' = [\<lparr>hv_bytes = s, hv_text = Some s\<rparr>]"
proof -
  have "to_ascii_lowercase ''X-Forwarded-For'' = ''x-forwarded-for''"
    by (simp add: to_ascii_lowercase_def ascii_lower_def byte_of_def char_of_def bit_iff_odd)
  then show ?thesis by (simp add: header_get_all_def demo_forwarded_def)
qed

lemma untrusted_peer_ignores_headers_witness:
  "resolve_key_ip (Some (V4 [9, 9, 9, 9])) (demo_forwarded ''1.2.3.4'') ''X-Forwarded-For'' [demo_range]
     = Some (V4 [9, 9, 9, 9])"
proof -
  have "\<not> ip_is_trusted [demo_range] (canonical (V4 [9, 9, 9, 9]))"
    by (simp add: canonical_def demo_trust)
  from untrusted_peer_ignores_headers [OF this] show ?thesis
    by (simp add: canonical_def group_v6_def)
qed

text \<open>The client claims \<open>1.2.3.4\<close>; the first proxy recorded \<open>9.9.9.9\<close> and the second \<open>10.0.0.2\<close>.\<close>

lemma forged_entries_ignored_witness:
  "resolve_key_ip (Some (V4 [10, 0, 0, 1])) (demo_forwarded ''1.2.3.4, 9.9.9.9, 10.0.0.2'')
     ''X-Forwarded-For'' [demo_range] = Some (V4 [9, 9, 9, 9])"
proof -
  let ?s = "''1.2.3.4, 9.9.9.9, 10.0.0.2''"
  have s: "split_on (CHR '','') ?s = [''1.2.3.4''] @ '' 9.9.9.9'' # ['' 10.0.0.2'']" by simp
  have c: "parse_forwarded_ip '' 9.9.9.9'' = Some (V4 [9, 9, 9, 9])"
    and x: "parse_forwarded_ip '' 10.0.0.2'' = Some (V4 [10, 0, 0, 2])"
    by (simp_all add: parse_run)
  have "resolve_key_ip (Some (V4 [10, 0, 0, 1])) (demo_forwarded ?s) ''X-Forwarded-For'' [demo_range]
      = Some (group_v6 (V4 [9, 9, 9, 9]))"
    by (rule forged_entries_ignored
          [OF _ _ _ s c, where vs = "[]" and v = "\<lparr>hv_bytes = ?s, hv_text = Some ?s\<rparr>"])
      (simp_all add: canonical_def demo_trust demo_forwarded_all x)
  then show ?thesis by (simp add: group_v6_def)
qed

lemma demo_bracket: "parse_ip (CHR ''['' # s) = None"
proof -
  have d: "radix_val 10 (CHR ''['') = None" "radix_val 16 (CHR ''['') = None"
    by (simp_all add: radix_val_def hex_run)
  have n: "read_number r m z b (CHR ''['' # s) = None" if "r \<in> {10, 16}" for r m z b
    using that d by (auto simp: read_number_def)
  have o: "read_octets 4 0 (CHR ''['' # s) = None"
    by (simp add: read_separator_def n eval_nat_numeral(3) numeral_eq_Suc)
  then have "read_groups 8 0 (CHR ''['' # s) = ([], False, CHR ''['' # s)"
    by (simp add: read_groups.simps [of 8 0] read_separator_def read_ipv4_def n)
  then show ?thesis using o by (simp add: parse_ip_def read_ipv4_def read_ipv6_def read_char_def)
qed

text \<open>The proxy recorded \<open>[2001:db8::1]:4711\<close>, which no parser here knows: the forged entry counts.\<close>

lemma unparsable_entry_falls_through_witness:
  "resolve_key_ip (Some (V4 [10, 0, 0, 1])) (demo_forwarded ''1.2.3.4,[2001:db8::1]:4711'')
     ''X-Forwarded-For'' [demo_range] = Some (V4 [1, 2, 3, 4])"
proof -
  let ?s = "''1.2.3.4,[2001:db8::1]:4711''"
  have s: "split_on (CHR '','') ?s = [''1.2.3.4'', ''[2001:db8::1]:4711'']" by simp
  have c: "parse_forwarded_ip ''1.2.3.4'' = Some (V4 [1, 2, 3, 4])"
    by (simp add: parse_run)
  have t: "trim ''[2001:db8::1]:4711'' = ''[2001:db8::1]:4711''"
      "rsplit_once (CHR '':'') ''[2001:db8::1]:4711'' = Some (''[2001:db8::1]'', ''4711'')"
    by (simp_all add: parse_run rsplit_once_def split_once_def)
  have x: "parse_forwarded_ip ''[2001:db8::1]:4711'' = None"
    by (simp add: parse_forwarded_ip_def t demo_bracket)
  have "resolve_key_ip (Some (V4 [10, 0, 0, 1])) (demo_forwarded ?s) ''X-Forwarded-For'' [demo_range]
      = Some (group_v6 (V4 [1, 2, 3, 4]))"
    by (rule unparsable_entry_falls_through [OF _ _ _ s x c, where v = "\<lparr>hv_bytes = ?s, hv_text = Some ?s\<rparr>"])
      (simp_all add: canonical_def demo_trust demo_forwarded_all)
  then show ?thesis by (simp add: group_v6_def)
qed

lemma group_v6_key_witness:
  "group_v6 (V6 (replicate 16 1)) = group_v6 (V6 (replicate 7 1 @ replicate 9 2)) \<longleftrightarrow>
     take 56 (octet_bits (replicate 16 1)) = take 56 (octet_bits (replicate 7 1 @ replicate 9 2))"
  using group_v6_key [of "V6 (replicate 16 1)" "V6 (replicate 7 1 @ replicate 9 2)"]
  by (simp add: is_ipv4_def)

lemma quota_total_witness:
  "quota (\<lambda>n. if n = 0 then None else Some n) 2000000000 5 = Panic \<and>
   quota (\<lambda>n. if n = 0 then None else Some n) 10 0 = Ok (100000000, 1)"
  using quota_total [of "\<lambda>n. if n = 0 then None else Some n" 2000000000 5]
    quota_total [of "\<lambda>n. if n = 0 then None else Some n" 10 0] by simp

definition demo_governor :: "nat governor" where
  "demo_governor = \<lparr>gv_check_key = \<lambda>_ g. (Inl 1500000000, g), gv_check = \<lambda>g. (Inl 10, g)\<rparr>"

definition demo_app :: "(unit, unit, nat) app_world" where
  "demo_app = \<lparr>aw_world = \<lparr>w_store = (), w_keys = undefined, w_utc = \<lambda>_. 0, w_utc_tick = 0,
     w_uuid = \<lambda>_. [], w_uuid_tick = 0, w_metrics = []\<rparr>, aw_limits = 0\<rparr>"

definition demo_request :: request where
  "demo_request = \<lparr>rq_method = ''POST'', rq_path = ''/tokens'', rq_headers = [], rq_peer = None, rq_body = []\<rparr>"

lemma over_limit_stops_witness:
  "\<exists>resp a'. rate_limit_call demo_governor LimitGlobal (\<lambda>r a. (Panic, a)) demo_request demo_app
     = (Ok resp, a') \<and> rs_status (resp :: unit response) = 429"
proof -
  have "strategy_check demo_governor LimitGlobal demo_request (aw_limits demo_app) = (Inl 1, 0)"
    by (simp add: strategy_check_def demo_governor_def refusal_def retry_after_secs_def demo_app_def)
  from over_limit_stops [OF this] show ?thesis by blast
qed

end
