(* ===== verification/Auth.thy ===== *)
theory Auth
  imports Http
begin

text \<open>
  The access levels (\<open>src/auth.rs\<close>): the proxy secret, the one-time code, the bearer token of the
  metrics, their configuration and the middleware. HMAC is OpenSSL's: a parameter from digest, key
  and message to the tag, \<open>None\<close> where one of its calls fails. Secrets are bytes; header values are
  compared byte by byte (\<open>openssl::memcmp::eq\<close> after the test of the lengths is equality).
\<close>

datatype auth_level = Open | ProxySecret | Totp | MetricsToken

fun auth_level_str :: "auth_level \<Rightarrow> string" where
  "auth_level_str Open = ''open''"
| "auth_level_str ProxySecret = ''proxy_secret''"
| "auth_level_str Totp = ''totp''"
| "auth_level_str MetricsToken = ''metrics_token''"

definition auth_env_u64 :: "env \<Rightarrow> string \<Rightarrow> u64 \<Rightarrow> u64" where
  "auth_env_u64 e key dflt =
     (case e key of None \<Rightarrow> dflt | Some v \<Rightarrow> (case parse_u64 v of Some n \<Rightarrow> n | None \<Rightarrow> dflt))"

section \<open>Base32\<close>

definition BASE32_ALPHABET :: string where
  "BASE32_ALPHABET = ''ABCDEFGHIJKLMNOPQRSTUVWXYZ234567''"

fun position :: "('a \<Rightarrow> bool) \<Rightarrow> 'a list \<Rightarrow> nat option" where
  "position P [] = None"
| "position P (x # xs) = (if P x then Some 0 else map_option Suc (position P xs))"

text \<open>\<open>ch.to_ascii_uppercase() as u8\<close> looked up in the alphabet: the cast keeps the low byte only.\<close>

definition base32_value :: "string \<Rightarrow> nat option" where
  "base32_value ch =
     position (\<lambda>a. byte_of a = code_point (to_ascii_uppercase ch) mod 256) BASE32_ALPHABET"

text \<open>One character's five bits enter the buffer; a full byte leaves it.\<close>

definition base32_push :: "nat \<Rightarrow> u64 \<Rightarrow> nat \<Rightarrow> u64 \<times> nat \<times> u8 list" where
  "base32_push value buffer bits =
     (let buffer' = push_bit 5 buffer OR of_nat value; bits' = bits + 5 in
      if 8 \<le> bits' then (buffer', bits' - 8, [ucast (drop_bit (bits' - 8) buffer')])
      else (buffer', bits', []))"

fun base32_loop :: "string list \<Rightarrow> u64 \<Rightarrow> nat \<Rightarrow> u8 list option" where
  "base32_loop [] buffer bits = Some []"
| "base32_loop (ch # chs) buffer bits =
     (if is_whitespace ch \<or> ch = ''='' then base32_loop chs buffer bits
      else (case base32_value ch of
              None \<Rightarrow> None
            | Some value \<Rightarrow>
                (case base32_push value buffer bits of
                   (buffer', bits', emitted) \<Rightarrow> map_option ((@) emitted) (base32_loop chs buffer' bits'))))"

definition base32_decode :: "string \<Rightarrow> u8 list option" where
  "base32_decode input = base32_loop (split_chars input) 0 0"

section \<open>One-time codes\<close>

datatype mac_digest = MacSha1 | MacSha256 | MacSha512

type_synonym hmac = "mac_digest \<Rightarrow> u8 list \<Rightarrow> u8 list \<Rightarrow> u8 list option"

definition digest_by_name :: "string \<Rightarrow> mac_digest" where
  "digest_by_name name =
     (let n = to_ascii_uppercase (trim name) in
      if n = ''SHA256'' \<or> n = ''SHA-256'' then MacSha256
      else if n = ''SHA512'' \<or> n = ''SHA-512'' then MacSha512
      else MacSha1)"

definition u64_to_be_bytes :: "u64 \<Rightarrow> u8 list" where
  "u64_to_be_bytes w = map (\<lambda>i. ucast (drop_bit (8 * (7 - i)) w)) [0..<8]"

text \<open>The dynamic truncation of RFC 4226; an index out of the tag's range panics.\<close>

definition hotp_truncate :: "u8 list \<Rightarrow> nat \<Rightarrow> u32" where
  "hotp_truncate hs offset =
     push_bit 24 (ucast (hs ! offset) AND 0x7f) OR push_bit 16 (ucast (hs ! (offset + 1))) OR
     push_bit 8 (ucast (hs ! (offset + 2))) OR ucast (hs ! (offset + 3))"

definition hotp :: "hmac \<Rightarrow> u8 list \<Rightarrow> u64 \<Rightarrow> nat \<Rightarrow> mac_digest \<Rightarrow> (unit, string) outcome" where
  "hotp H secret counter digits digest =
     (case H digest secret (u64_to_be_bytes counter) of
        None \<Rightarrow> Err ()
      | Some hs \<Rightarrow>
          (if hs = [] then Panic
           else (let offset = unat (last hs AND 0x0f) in
                 if length hs \<le> offset + 3 then Panic
                 else (let otp = hotp_truncate hs offset mod 10 ^ digits in
                       Ok (zero_pad digits (show_dec (unat otp)))))))"

section \<open>The validators\<close>

record proxy_validator =
  pv_header :: string
  pv_secret :: string

definition proxy_validate :: "proxy_validator \<Rightarrow> headers \<Rightarrow> bool" where
  "proxy_validate v hs =
     (case header_get hs (pv_header v) of
        Some provided \<Rightarrow> hv_bytes provided = pv_secret v
      | None \<Rightarrow> False)"

record metrics_validator =
  mv_token :: "string option"

definition metrics_validate :: "metrics_validator \<Rightarrow> headers \<Rightarrow> bool" where
  "metrics_validate v hs =
     (case mv_token v of
        None \<Rightarrow> False
      | Some expected \<Rightarrow>
          (case header_get hs ''Authorization'' of
             None \<Rightarrow> False
           | Some value \<Rightarrow>
               (case hv_text value of
                  None \<Rightarrow> False
                | Some text \<Rightarrow>
                    (case split_once (CHR '' '') text of
                       None \<Rightarrow> False
                     | Some (scheme, provided) \<Rightarrow>
                         if \<not> eq_ignore_ascii_case scheme ''Bearer'' then False
                         else trim provided = expected))))"

record totp_validator =
  tv_header :: string
  tv_secrets :: "u8 list list"
  tv_step :: u64
  tv_digits :: nat
  tv_skew :: u64
  tv_digest :: mac_digest

definition bytes_of :: "string \<Rightarrow> u8 list" where
  "bytes_of s = map (\<lambda>c. of_nat (byte_of c)) s"

definition hex_digit :: "nat \<Rightarrow> char" where
  "hex_digit n = (if n < 10 then char_of (48 + n) else char_of (87 + n))"

definition hex_of_bytes :: "u8 list \<Rightarrow> string" where
  "hex_of_bytes bs = concat (map (\<lambda>b. [hex_digit (unat b div 16), hex_digit (unat b mod 16)]) bs)"

definition code_fingerprint :: "hmac \<Rightarrow> totp_validator \<Rightarrow> headers \<Rightarrow> string option" where
  "code_fingerprint H v hs =
     (case header_get hs (tv_header v) of
        None \<Rightarrow> None
      | Some provided \<Rightarrow>
          (case tv_secrets v of
             [] \<Rightarrow> None
           | secret # _ \<Rightarrow> map_option hex_of_bytes (H MacSha256 secret (bytes_of (hv_bytes provided)))))"

text \<open>The product wraps, as it does in a release build.\<close>

definition replay_window_seconds :: "totp_validator \<Rightarrow> u64" where
  "replay_window_seconds v = tv_step v * (2 * tv_skew v + 1)"

definition u64_saturating_sub :: "u64 \<Rightarrow> u64 \<Rightarrow> u64" where
  "u64_saturating_sub a b = (if a < b then 0 else a - b)"

definition u64_saturating_add :: "u64 \<Rightarrow> u64 \<Rightarrow> u64" where
  "u64_saturating_add a b = (if unat a + unat b < 2 ^ 64 then a + b else - 1)"

definition counters_around :: "totp_validator \<Rightarrow> u64 \<Rightarrow> u64 list" where
  "counters_around v now =
     (let counter = now div tv_step v;
          low = u64_saturating_sub counter (tv_skew v);
          high = u64_saturating_add counter (tv_skew v) in
      map of_nat [unat low..<Suc (unat high)])"

text \<open>The loops do not stop at a match, so the time does not tell which code matched.\<close>

fun totp_scan ::
  "hmac \<Rightarrow> totp_validator \<Rightarrow> string \<Rightarrow> (u8 list \<times> u64) list \<Rightarrow> bool \<Rightarrow> (unit, bool) outcome" where
  "totp_scan H v provided [] matched = Ok matched"
| "totp_scan H v provided ((secret, c) # rest) matched =
     (case hotp H secret c (tv_digits v) (tv_digest v) of
        Ok code \<Rightarrow> totp_scan H v provided rest (if provided = code then True else matched)
      | Err _ \<Rightarrow> totp_scan H v provided rest matched
      | Panic \<Rightarrow> Panic)"

definition totp_validate :: "hmac \<Rightarrow> totp_validator \<Rightarrow> headers \<Rightarrow> u64 \<Rightarrow> (unit, bool) outcome" where
  "totp_validate H v hs now =
     (case header_get hs (tv_header v) of
        None \<Rightarrow> Ok False
      | Some provided \<Rightarrow>
          if tv_step v = 0 then Panic
          else totp_scan H v (hv_bytes provided) (List.product (tv_secrets v) (counters_around v now)) False)"

section \<open>Configuration\<close>

record auth_config =
  ac_proxy :: proxy_validator
  ac_totp :: totp_validator
  ac_metrics :: metrics_validator
  ac_replay :: bool

definition totp_replay_claim :: "hmac \<Rightarrow> auth_config \<Rightarrow> headers \<Rightarrow> (string \<times> u64) option" where
  "totp_replay_claim H c hs =
     map_option (\<lambda>fp. (fp, replay_window_seconds (ac_totp c))) (code_fingerprint H (ac_totp c) hs)"

definition metrics_enabled :: "auth_config \<Rightarrow> bool" where
  "metrics_enabled c \<longleftrightarrow> mv_token (ac_metrics c) \<noteq> None"

text \<open>One of the two variables of the secrets: the secrets it adds and the errors it reports.\<close>

definition totp_secret_from :: "env \<Rightarrow> string \<Rightarrow> u8 list list \<times> string list" where
  "totp_secret_from e var =
     (case e var of
        Some raw \<Rightarrow>
          (if trim raw = [] then ([], [])
           else (case base32_decode raw of
                   Some bytes \<Rightarrow> if bytes \<noteq> [] then ([bytes], []) else ([], [var @ '' is not valid base32''])
                 | None \<Rightarrow> ([], [var @ '' is not valid base32''])))
      | None \<Rightarrow> ([], []))"

fun join :: "string \<Rightarrow> string list \<Rightarrow> string" where
  "join sep [] = []"
| "join sep [x] = x"
| "join sep (x # y # zs) = x @ sep @ join sep (y # zs)"

text \<open>
  The texts of the two missing-secret errors contain a dash outside ASCII (\<open>U+2014\<close>); its three bytes
  are written out.
\<close>

definition em_dash :: string where
  "em_dash = [char_of (226 :: nat), char_of (128 :: nat), char_of (148 :: nat)]"

definition proxy_secret_missing :: string where
  "proxy_secret_missing =
     ''AUTH_PROXY_SECRET is not set (mandatory for level 2 '' @ em_dash @ '' the proxy secret)''"

definition totp_secret_missing :: string where
  "totp_secret_missing =
     ''AUTH_TOTP_SECRET is not set (mandatory for level 3 '' @ em_dash @ '' TOTP)''"

definition proxy_secret_from :: "env \<Rightarrow> string option" where
  "proxy_secret_from e = (case e ''AUTH_PROXY_SECRET'' of Some s \<Rightarrow> if s = [] then None else Some s | None \<Rightarrow> None)"

definition auth_errors :: "env \<Rightarrow> string list" where
  "auth_errors e =
     (let (s1, e1) = totp_secret_from e ''AUTH_TOTP_SECRET'';
          (s2, e2) = totp_secret_from e ''AUTH_TOTP_SECRET_NEXT'' in
      (if proxy_secret_from e = None then [proxy_secret_missing] else []) @ e1 @ e2 @
      (if s1 @ s2 = [] then [totp_secret_missing] else []))"

definition auth_config_from_env :: "env \<Rightarrow> string + auth_config" where
  "auth_config_from_env e =
     (if auth_errors e \<noteq> [] then Inl (join ''; '' (auth_errors e))
      else Inr
        \<lparr>ac_proxy = \<lparr>pv_header = env_or e ''AUTH_PROXY_SECRET_HEADER'' ''X-Proxy-Secret'',
                     pv_secret = the (proxy_secret_from e)\<rparr>,
         ac_totp =
           \<lparr>tv_header = env_or e ''AUTH_TOTP_HEADER'' ''X-TOTP-Code'',
            tv_secrets = fst (totp_secret_from e ''AUTH_TOTP_SECRET'') @ fst (totp_secret_from e ''AUTH_TOTP_SECRET_NEXT''),
            tv_step = max (auth_env_u64 e ''AUTH_TOTP_STEP_SECONDS'' 30) 1,
            tv_digits = min 8 (max 6 (unat (auth_env_u64 e ''AUTH_TOTP_DIGITS'' 6))),
            tv_skew = auth_env_u64 e ''AUTH_TOTP_SKEW_STEPS'' 1,
            tv_digest = digest_by_name (env_or e ''AUTH_TOTP_ALGORITHM'' ''SHA1'')\<rparr>,
         ac_metrics =
           \<lparr>mv_token = (case e ''AUTH_METRICS_TOKEN'' of
                          Some s \<Rightarrow> if trim s = [] then None else Some (trim s) | None \<Rightarrow> None)\<rparr>,
         ac_replay = (case e ''AUTH_TOTP_REPLAY_PROTECTION'' of
                        Some v \<Rightarrow> to_ascii_lowercase (trim v) \<in> {''1'', ''true'', ''yes''} | None \<Rightarrow> False)\<rparr>)"

section \<open>The middleware\<close>

text \<open>Only the level of the one-time code reads the clock.\<close>

definition authorize ::
  "hmac \<Rightarrow> auth_config \<Rightarrow> auth_level \<Rightarrow> headers \<Rightarrow> ('n, 's) world \<Rightarrow> (unit, bool) outcome \<times> ('n, 's) world" where
  "authorize H c level hs w =
     (case level of
        Open \<Rightarrow> (Ok True, w)
      | ProxySecret \<Rightarrow> (Ok (proxy_validate (ac_proxy c) hs), w)
      | Totp \<Rightarrow> (totp_validate H (ac_totp c) hs (of_int (max 0 (utc_now w))), utc_tick w)
      | MetricsToken \<Rightarrow> (Ok (metrics_validate (ac_metrics c) hs), w))"

definition unauthorized_response :: "'v response" where
  "unauthorized_response = respond 401 (ErrorBody (error_response_new ''Unauthorized''))"

text \<open>
  The claim of the code: a refusal withdraws the authorisation, a failure of the store does not.
  \<open>store\<close> is what \<open>app_data\<close> holds for the middleware's store type.
\<close>

definition replay_check ::
  "hmac \<Rightarrow> 's jti_store option \<Rightarrow> auth_config \<Rightarrow> auth_level \<Rightarrow> headers \<Rightarrow> ('n, 's) world \<Rightarrow> bool \<times> ('n, 's) world" where
  "replay_check H store c level hs w =
     (if level = Totp \<and> ac_replay c
      then (case (totp_replay_claim H c hs, store) of
              (Some (fp, ttl), Some S) \<Rightarrow>
                (case js_claim_totp_code S fp ttl (w_store w) of
                   (Inr b, s) \<Rightarrow> (b, w\<lparr>w_store := s\<rparr>)
                 | (Inl _, s) \<Rightarrow> (True, w\<lparr>w_store := s\<rparr>))
            | _ \<Rightarrow> (True, w))
      else (True, w))"

definition auth_decide ::
  "hmac \<Rightarrow> 's jti_store option \<Rightarrow> auth_config \<Rightarrow> auth_level \<Rightarrow> headers \<Rightarrow> ('n, 's) world
     \<Rightarrow> (unit, bool) outcome \<times> ('n, 's) world" where
  "auth_decide H store c level hs w =
     (case authorize H c level hs w of
        (Ok True, w1) \<Rightarrow> (case replay_check H store c level hs w1 of (b, w2) \<Rightarrow> (Ok b, w2))
      | r \<Rightarrow> r)"

definition auth_call ::
  "hmac \<Rightarrow> 's jti_store option \<Rightarrow> auth_config \<Rightarrow> auth_level \<Rightarrow> ('v, ('n, 's, 'g) app_world) service
     \<Rightarrow> ('v, ('n, 's, 'g) app_world) service" where
  "auth_call H store c level inner r a =
     (case auth_decide H store c level (rq_headers r) (aw_world a) of
        (Ok True, w) \<Rightarrow> inner r (a\<lparr>aw_world := w\<rparr>)
      | (Ok False, w) \<Rightarrow>
          (Ok unauthorized_response, a\<lparr>aw_world := record_metric (AuthDenied (auth_level_str level)) w\<rparr>)
      | (_, w) \<Rightarrow> (Panic, a\<lparr>aw_world := w\<rparr>))"

end
