(* ===== verification/Auth_Correct.thy ===== *)
theory Auth_Correct
  imports Auth Redis_Properties
begin

text \<open>
  Correctness of the access levels: what a one-time code must be to pass, the shape of a code, the
  time a code lives and the time its use is remembered, the configuration, and what a denied request
  does.
\<close>

section \<open>The configuration\<close>

definition totp_wf :: "totp_validator \<Rightarrow> bool" where
  "totp_wf v \<longleftrightarrow> 1 \<le> unat (tv_step v) \<and> 6 \<le> tv_digits v \<and> tv_digits v \<le> 8 \<and>
     tv_secrets v \<noteq> [] \<and> [] \<notin> set (tv_secrets v)"

definition auth_config_wf :: "auth_config \<Rightarrow> bool" where
  "auth_config_wf c \<longleftrightarrow> totp_wf (ac_totp c) \<and> pv_secret (ac_proxy c) \<noteq> [] \<and>
     mv_token (ac_metrics c) \<noteq> Some []"

text \<open>A variable of a secret is usable when it is blank or decodes to at least one byte.\<close>

definition usable_secret :: "env \<Rightarrow> string \<Rightarrow> bool" where
  "usable_secret e var \<longleftrightarrow>
     (case e var of
        None \<Rightarrow> True
      | Some raw \<Rightarrow> trim raw = [] \<or> (case base32_decode raw of None \<Rightarrow> False | Some bs \<Rightarrow> bs \<noteq> []))"

definition has_secret :: "env \<Rightarrow> string \<Rightarrow> bool" where
  "has_secret e var \<longleftrightarrow>
     (case e var of
        None \<Rightarrow> False
      | Some raw \<Rightarrow> trim raw \<noteq> [] \<and> (case base32_decode raw of None \<Rightarrow> False | Some bs \<Rightarrow> bs \<noteq> []))"

lemma totp_secret_from_cases:
  "totp_secret_from e var = (secrets, errs) \<Longrightarrow>
     (errs = [] \<longleftrightarrow> usable_secret e var) \<and> (secrets = [] \<longleftrightarrow> \<not> has_secret e var) \<and> [] \<notin> set secrets"
  by (auto simp: totp_secret_from_def usable_secret_def has_secret_def split: option.splits if_splits)

text \<open>
  The service starts only with its secrets: the configuration is built exactly when the proxy
  secret is set and not empty, each of the two variables of the one-time secret is blank or valid
  base32, and at least one of them holds a secret.
\<close>

theorem auth_config_built_iff:
  "(\<exists>c. auth_config_from_env e = Inr c) \<longleftrightarrow>
     proxy_secret_from e \<noteq> None \<and> usable_secret e ''AUTH_TOTP_SECRET'' \<and>
     usable_secret e ''AUTH_TOTP_SECRET_NEXT'' \<and>
     (has_secret e ''AUTH_TOTP_SECRET'' \<or> has_secret e ''AUTH_TOTP_SECRET_NEXT'')"
proof -
  obtain s1 e1 s2 e2 where s: "totp_secret_from e ''AUTH_TOTP_SECRET'' = (s1, e1)"
    "totp_secret_from e ''AUTH_TOTP_SECRET_NEXT'' = (s2, e2)" by (metis prod.exhaust)
  have "(\<exists>c. auth_config_from_env e = Inr c) \<longleftrightarrow> auth_errors e = []"
    by (simp add: auth_config_from_env_def)
  also have "\<dots> \<longleftrightarrow> proxy_secret_from e \<noteq> None \<and> e1 = [] \<and> e2 = [] \<and> (s1 \<noteq> [] \<or> s2 \<noteq> [])"
    by (auto simp: auth_errors_def s)
  finally show ?thesis using totp_secret_from_cases [OF s(1)] totp_secret_from_cases [OF s(2)] by blast
qed

lemma proxy_secret_from_not_Nil: "proxy_secret_from e \<noteq> Some []"
  by (simp add: proxy_secret_from_def split: option.splits)

lemma one_step: "1 \<le> unat (max x 1)" for x :: u64
  using word_le_nat_alt [of 1 "max x 1"] by simp

lemma built_step_not_zero: "auth_config_from_env e = Inr c \<Longrightarrow> tv_step (ac_totp c) \<noteq> 0"
  using one_step [of "auth_env_u64 e ''AUTH_TOTP_STEP_SECONDS'' 30"]
  by (auto simp: auth_config_from_env_def split: if_splits)

text \<open>
  C39. A configuration that was built is well formed, whatever the other variables hold: a step of at
  least one second, six to eight digits, one or two secrets none of which is empty, and no empty
  proxy secret or metrics token that an empty header would match.
\<close>

theorem auth_config_invariant:
  assumes "auth_config_from_env e = Inr c"
  shows "auth_config_wf c \<and> length (tv_secrets (ac_totp c)) \<le> 2"
proof -
  obtain s1 e1 s2 e2 where s: "totp_secret_from e ''AUTH_TOTP_SECRET'' = (s1, e1)"
    "totp_secret_from e ''AUTH_TOTP_SECRET_NEXT'' = (s2, e2)" by (metis prod.exhaust)
  have none: "auth_errors e = []" using assms by (simp add: auth_config_from_env_def split: if_splits)
  then have ok: "proxy_secret_from e \<noteq> None" "s1 \<noteq> [] \<or> s2 \<noteq> []"
    by (auto simp: auth_errors_def s split: if_splits)
  have nonempty: "[] \<notin> set s1" "[] \<notin> set s2"
    using totp_secret_from_cases [OF s(1)] totp_secret_from_cases [OF s(2)] by simp_all
  have len: "length s1 \<le> 1" "length s2 \<le> 1"
    using s by (auto simp: totp_secret_from_def split: option.splits if_splits)
  obtain p where p: "proxy_secret_from e = Some p" "p \<noteq> []"
    using ok(1) proxy_secret_from_not_Nil [of e] by auto
  have c: "tv_secrets (ac_totp c) = s1 @ s2" "tv_step (ac_totp c) = max (auth_env_u64 e ''AUTH_TOTP_STEP_SECONDS'' 30) 1"
    "tv_digits (ac_totp c) = min 8 (max 6 (unat (auth_env_u64 e ''AUTH_TOTP_DIGITS'' 6)))"
    "pv_secret (ac_proxy c) = p" "mv_token (ac_metrics c) \<noteq> Some []"
    using assms none s p by (auto simp: auth_config_from_env_def split: option.splits if_splits)
  show ?thesis using c p ok(2) nonempty len one_step
    by (auto simp: auth_config_wf_def totp_wf_def)
qed

section \<open>The shape of a code\<close>

definition tag_bytes :: "hmac \<Rightarrow> bool" where
  "tag_bytes H \<longleftrightarrow> (\<forall>d k m t. H d k m = Some t \<longrightarrow> 20 \<le> length t)"

lemma nibble_bound: "unat (b AND 0x0f :: u8) \<le> 15"
proof -
  have "b AND 0x0f \<le> 0x0f" by (rule word_and_le1)
  then show ?thesis by (simp add: word_le_nat_alt)
qed

text \<open>With a tag of at least 20 bytes, as every one of the three digests gives, no index is out of range.\<close>

lemma hotp_not_Panic: "tag_bytes H \<Longrightarrow> hotp H k c n d \<noteq> Panic"
proof
  assume H: "tag_bytes H" and P: "hotp H k c n d = Panic"
  obtain t where t: "H d k (u64_to_be_bytes c) = Some t"
    using P by (auto simp: hotp_def split: option.splits)
  then have "20 \<le> length t" using H by (simp add: tag_bytes_def)
  moreover have "unat (last t AND 0x0f) + 3 \<le> 18" using nibble_bound [of "last t"] by simp
  ultimately show False using P t by (auto simp: hotp_def Let_def split: if_splits)
qed

text \<open>
  A code is exactly its digits: whatever the HMAC yields, a generated code has the configured
  number of characters, all of them decimal digits, so no other header value can match.
\<close>

theorem hotp_code_shape:
  assumes "hotp H secret counter digits digest = Ok code" and "1 \<le> digits" and "digits \<le> 9"
  shows "length code = digits \<and> list_all is_digit code"
proof -
  obtain x :: u32 where code: "code = zero_pad digits (show_dec (unat (x mod 10 ^ digits)))"
    using assms(1) by (auto simp: hotp_def Let_def split: option.splits if_splits)
  have "(10 :: nat) ^ digits \<le> 10 ^ 9" using assms(3) by (intro power_increasing) simp_all
  then have small: "(10 :: nat) ^ digits < 2 ^ 32" by simp
  have "unat (of_nat (10 ^ digits) :: u32) = 10 ^ digits"
    using small by (simp only: unat_of_nat) simp
  then have "unat ((10 :: u32) ^ digits) = 10 ^ digits" by simp
  then have "unat (x mod 10 ^ digits) < 10 ^ digits" by (simp add: unat_mod)
  then have "length (show_dec (unat (x mod 10 ^ digits))) \<le> digits"
    using assms(2) by (intro show_dec_length) simp_all
  moreover have "list_all is_digit (show_dec n)" for n using show_dec_digits by blast
  moreover have "list_all is_digit (replicate n (CHR ''0''))" for n
    by (simp add: list_all_iff is_digit_def byte_of_def)
  ultimately show ?thesis by (simp add: code length_zero_pad) (simp add: zero_pad_def)
qed
section \<open>What a one-time code must be\<close>

definition window :: "totp_validator \<Rightarrow> u64 \<Rightarrow> nat set" where
  "window v now = {unat now div unat (tv_step v) - unat (tv_skew v) ..
                   unat now div unat (tv_step v) + unat (tv_skew v)}"

lemma unat_saturating_sub: "unat (u64_saturating_sub a b) = unat a - unat b"
  by (auto simp: u64_saturating_sub_def word_less_nat_alt unat_sub_if')

lemma unat_saturating_add: "unat (u64_saturating_add a b) = min (unat a + unat b) (2 ^ 64 - 1)"
proof (cases "unat a + unat b < 2 ^ 64")
  case True
  then show ?thesis by (simp add: u64_saturating_add_def unat_word_ariths)
next
  case False
  have "unat (- 1 :: u64) = 2 ^ 64 - 1" by (simp add: unsigned_minus_1_eq_mask mask_eq_exp_minus_1)
  then show ?thesis using False by (simp add: u64_saturating_add_def)
qed

lemma counters_around_set: "c \<in> set (counters_around v now) \<longleftrightarrow> unat c \<in> window v now"
proof -
  let ?k = "unat now div unat (tv_step v)" and ?s = "unat (tv_skew v)"
  have s: "set (counters_around v now) = of_nat ` {?k - ?s..<Suc (min (?k + ?s) (2 ^ 64 - 1))}"
    by (simp only: counters_around_def Let_def set_map set_upt unat_saturating_sub unat_saturating_add unat_div)
  have b: "unat c < 2 ^ 64" using unsigned_less [of c] by simp
  show ?thesis
  proof
    assume "c \<in> set (counters_around v now)"
    then obtain n where n: "c = of_nat n" "?k - ?s \<le> n" "n < Suc (min (?k + ?s) (2 ^ 64 - 1))"
      unfolding s by (auto simp only: image_iff atLeastLessThan_iff)
    have "n < 2 ^ 64" using n(3) by simp
    then have "unat c = n" using n(1) by (simp add: unat_of_nat)
    then show "unat c \<in> window v now" using n by (simp add: window_def)
  next
    assume "unat c \<in> window v now"
    then have "unat c \<in> {?k - ?s..<Suc (min (?k + ?s) (2 ^ 64 - 1))}"
      unfolding atLeastLessThan_iff less_Suc_eq_le min.bounded_iff using b by (auto simp: window_def)
    then show "c \<in> set (counters_around v now)" unfolding s by (intro image_eqI [where x = "unat c"]) simp_all
  qed
qed

lemma totp_scan_result:
  assumes "tag_bytes H"
  shows "totp_scan H v p cs m =
    Ok (m \<or> list_ex (\<lambda>(k, c). hotp H k c (tv_digits v) (tv_digest v) = Ok p) cs)"
proof (induction cs arbitrary: m)
  case (Cons kc rest)
  obtain k c where kc: "kc = (k, c)" by (cases kc)
  show ?case
    using Cons hotp_not_Panic [OF assms, of k c "tv_digits v" "tv_digest v"]
    by (cases "hotp H k c (tv_digits v) (tv_digest v)") (auto simp: kc)
qed simp

lemma totp_validate_eq:
  assumes "tag_bytes H" and "tv_step v \<noteq> 0"
  shows "totp_validate H v hs now =
    Ok (\<exists>provided. header_get hs (tv_header v) = Some provided \<and>
         (\<exists>secret \<in> set (tv_secrets v). \<exists>c. unat c \<in> window v now \<and>
            hotp H secret c (tv_digits v) (tv_digest v) = Ok (hv_bytes provided)))"
  using assms
  by (cases "header_get hs (tv_header v)")
    (simp_all add: totp_validate_def totp_scan_result list_ex_iff Bex_def split_paired_Ex
      counters_around_set conj_assoc)

text \<open>
  C4. A one-time code passes exactly when it is the code of an active secret for a time step within
  the tolerance: with step, digits and tolerance as configured, at no distance does the window wrap
  around, and the loop over secrets and counters never panics.
\<close>

theorem totp_accepts_iff:
  assumes "tag_bytes H" and "tv_step v \<noteq> 0"
  shows "totp_validate H v hs now =
    Ok (\<exists>provided. header_get hs (tv_header v) = Some provided \<and>
         (\<exists>secret \<in> set (tv_secrets v). \<exists>c. unat c \<in> window v now \<and>
            hotp H secret c (tv_digits v) (tv_digest v) = Ok (hv_bytes provided)))"
  by (rule totp_validate_eq [OF assms])

section \<open>Replay\<close>

text \<open>
  C29. The use of a code is remembered for as long as the code lives: if a counter is in the window at
  two times, the second is less than the replay window after the first, as long as the configured
  tolerance does not overflow the product.
\<close>

theorem replay_window_covers:
  assumes "unat c \<in> window v t1" and "unat c \<in> window v t2" and "tv_step v \<noteq> 0"
    and "unat (tv_step v) * (2 * unat (tv_skew v) + 1) < 2 ^ 64"
  shows "unat t2 < unat t1 + unat (replay_window_seconds v)"
proof -
  let ?s = "unat (tv_step v)" and ?k = "unat (tv_skew v)"
  have s: "0 < ?s" using assms(3) by (simp add: unat_gt_0)
  have "unat (2 * tv_skew v + 1) = 2 * ?k + 1"
  proof -
    have "2 * ?k + 1 \<le> ?s * (2 * ?k + 1)" using mult_le_mono1 [of 1 ?s "2 * ?k + 1"] s by simp
    then have "2 * ?k + 1 < 2 ^ 64" using assms(4) by linarith
    then have "unat (of_nat (2 * ?k + 1) :: u64) = 2 * ?k + 1" by (simp only: unat_of_nat) simp
    then show ?thesis by (simp add: add.commute)
  qed
  then have r: "unat (replay_window_seconds v) = ?s * (2 * ?k + 1)"
    using assms(4) by (simp add: replay_window_seconds_def unat_word_ariths)
  have "unat t2 div ?s \<le> unat t1 div ?s + 2 * ?k" using assms(1,2) by (auto simp: window_def)
  then have "unat t2 div ?s < unat t1 div ?s + 2 * ?k + 1" by simp
  then have "unat t2 < (unat t1 div ?s + 2 * ?k + 1) * ?s" using s by (simp add: div_less_iff_less_mult)
  also have "\<dots> = unat t1 div ?s * ?s + ?s * (2 * ?k + 1)" by (simp add: algebra_simps)
  also have "\<dots> \<le> unat t1 + unat (replay_window_seconds v)" by (simp add: r)
  finally show ?thesis .
qed

text \<open>
  With an overflow it is not: a tolerance of \<open>2 ^ 63\<close> steps accepts almost any counter, and the use of
  a code is remembered for a single step.
\<close>

lemma replay_window_wraps: "tv_skew v = 2 ^ 63 \<Longrightarrow> replay_window_seconds v = tv_step v"
proof -
  assume k: "tv_skew v = 2 ^ 63"
  have "2 * 2 ^ 63 + 1 = (1 :: u64)" by simp
  then show ?thesis by (simp only: replay_window_seconds_def k mult_1_right)
qed

lemma replay_check_claimed:
  assumes "totp_replay_claim H c hs = Some (fp, ttl)" and "ac_replay c"
    and "js_claim_totp_code S fp ttl (w_store w) = (Inr b, s)"
  shows "replay_check H (Some S) c Totp hs w = (b, w\<lparr>w_store := s\<rparr>)"
  using assms by (simp add: replay_check_def)

lemma auth_decide_Ok_True:
  "auth_decide H store c level hs w = (Ok True, w') \<longleftrightarrow>
     (\<exists>w1. authorize H c level hs w = (Ok True, w1) \<and> replay_check H store c level hs w1 = (True, w'))"
  by (auto simp: auth_decide_def split: prod.splits outcome.splits bool.splits)

lemma authorize_store: "authorize H c level hs w = (r, w') \<Longrightarrow> w_store w' = w_store w"
  by (cases level) (auto simp: authorize_def utc_tick_def)

text \<open>
  C28. A used code is refused: with replay protection on, once a code has passed and its claim was
  answered, any request that presents the same code while the claim lives is not let through, at whatever
  clock reading and after whatever calls of the store in between (those of the first request's own handler
  and of other requests, failed ones too, bulk revocations too) that do not remove the claim's key, unless
  the store does not answer the second claim.
\<close>

theorem replayed_code_denied:
  assumes R: "redis_server R look" "mono (rc_time (w_store w))"
    and c: "ac_replay c" "totp_replay_claim H c hs = Some (fp, ttl)"
    and first: "auth_decide H (Some (redis_jti_store R)) c Totp hs w = (Ok True, w1)"
      "redis_claim_totp_code R fp ttl (w_store w) = (Inr b, s1)"
    and between: "spares_key R look (totp_code_key fp) xs (w_store w1)"
      "w_store w2 = run_ops (redis_jti_store R) xs (w_store w1)"
    and again: "rc_clock (w_store w2) < rc_clock (w_store w) + uint ttl"
      "totp_replay_claim H c hs' = Some (fp, ttl)"
      "redis_claim_totp_code R fp ttl (w_store w2) = (Inr b', s2)"
  shows "fst (auth_decide H (Some (redis_jti_store R)) c Totp hs' w2) \<noteq> Ok True"
proof
  have js: "js_claim_totp_code (redis_jti_store R) = redis_claim_totp_code R"
    by (simp add: redis_jti_store_def)
  obtain v where v: "authorize H c Totp hs w = (Ok True, v)"
    "replay_check H (Some (redis_jti_store R)) c Totp hs v = (True, w1)"
    using first(1) unfolding auth_decide_Ok_True by blast
  have "js_claim_totp_code (redis_jti_store R) fp ttl (w_store v) = (Inr b, s1)"
    using first(2) authorize_store [OF v(1)] js by simp
  from replay_check_claimed [OF c(2,1) this] v(2) have s1: "b" "w_store w1 = s1" by auto
  assume "fst (auth_decide H (Some (redis_jti_store R)) c Totp hs' w2) = Ok True"
  then obtain w3 where "auth_decide H (Some (redis_jti_store R)) c Totp hs' w2 = (Ok True, w3)"
    by (metis prod.collapse)
  then obtain v' where v': "authorize H c Totp hs' w2 = (Ok True, v')"
    "replay_check H (Some (redis_jti_store R)) c Totp hs' v' = (True, w3)"
    unfolding auth_decide_Ok_True by blast
  have "js_claim_totp_code (redis_jti_store R) fp ttl (w_store v') = (Inr b', s2)"
    using again(3) authorize_store [OF v'(1)] js by simp
  from replay_check_claimed [OF again(2) c(1) this] v'(2) have "b'" by simp
  note con = redis_server.refines_contract [OF R(1)]
  have w: "rs_wf (w_store w)" using R(2) by (simp add: rs_wf_def)
  have claim: "js_claim_totp_code (redis_jti_store R) fp ttl (w_store w) = (Inr True, w_store w1)"
    using first(2) s1 js by simp
  have w1: "rs_wf (w_store w1)" using jti_store.wf_step [OF con w, of "OpClaim fp ttl"] claim by simp
  have le: "rc_clock (w_store w1) \<le> rc_clock (w_store w2)" unfolding between(2) by (rule jti_store.clock_run [OF con w1])
  have "rs_present look (w_store w1) (rc_clock (w_store w2)) (totp_code_key fp)"
    using jti_store.claim_claims [OF con w claim le] again(1) by simp
  then have "rs_present look (w_store w2) (rc_clock (w_store w2)) (totp_code_key fp)"
    using redis_server.present_spared [OF R(1) _ between(1)] w1 between(2) by (simp add: rs_wf_def)
  moreover have "rs_wf (w_store w2)" unfolding between(2) by (rule jti_store.wf_run [OF con w1])
  ultimately have "\<not> b'" using jti_store.claim_result [OF con _, of "w_store w2" fp ttl b' s2] again(3) js by simp
  then show False using \<open>b'\<close> by simp
qed

section \<open>What a denied request does\<close>

text \<open>
  A request that is not authorised goes no further: the wrapped service does not run, the answer
  is the one 401 without any detail, and apart from the denial in the metrics only the claim of a
  one-time code can have touched the store.
\<close>

theorem denied_request_stops:
  assumes "auth_decide H store c level (rq_headers r) (aw_world a) = (Ok False, w)"
  shows "auth_call H store c level inner r a =
     (Ok (respond 401 (ErrorBody (error_response_new ''Unauthorized''))),
      a\<lparr>aw_world := record_metric (AuthDenied (auth_level_str level)) w\<rparr>) \<and>
   (level \<noteq> Totp \<or> \<not> ac_replay c \<longrightarrow> w_store w = w_store (aw_world a))"
proof -
  have "w_store w = w_store (aw_world a)" if "level \<noteq> Totp \<or> \<not> ac_replay c"
    using assms that authorize_store [of H c level "rq_headers r" "aw_world a"]
    by (auto simp: auth_decide_def replay_check_def split: prod.splits outcome.splits bool.splits)
  then show ?thesis using assms by (simp add: auth_call_def unauthorized_response_def)
qed

text \<open>
  The metrics are never open by accident: without a configured token nothing passes their level,
  and with one exactly the bearer token, under any spelling of the scheme, does.
\<close>

theorem metrics_token_iff:
  "metrics_validate v hs \<longleftrightarrow>
     (\<exists>expected value text scheme provided. mv_token v = Some expected \<and>
        header_get hs ''Authorization'' = Some value \<and> hv_text value = Some text \<and>
        text = scheme @ '' '' @ provided \<and> to_ascii_lowercase scheme = ''bearer'' \<and>
        trim provided = expected)"
proof -
  have l: "to_ascii_lowercase ''Bearer'' = ''bearer''"
    by (simp add: to_ascii_lowercase_def ascii_lower_def byte_of_def char_of_def bit_iff_odd)
  have sp: "CHR '' '' \<notin> set scheme" if "to_ascii_lowercase scheme = ''bearer''" for scheme
  proof
    assume "CHR '' '' \<in> set scheme"
    then have "ascii_lower CHR '' '' \<in> set (to_ascii_lowercase scheme)"
      by (auto simp: to_ascii_lowercase_def)
    then show False using that by (simp add: ascii_lower_def byte_of_def)
  qed
  show ?thesis
    by (auto simp: metrics_validate_def eq_ignore_ascii_case_def l sp split_once_append
        dest!: split_once_Some split: option.splits) (metis split_once_append sp option.inject prod.inject)+
qed
section \<open>Witnesses\<close>

text \<open>An HMAC whose truncation is the low half of the counter, so the code of step 3 is \<open>000003\<close>.\<close>

definition demo_hmac :: hmac where
  "demo_hmac d k m = Some (drop 4 m @ replicate 20 0)"

lemma demo_hmac_bytes: "tag_bytes demo_hmac"
  by (simp add: tag_bytes_def demo_hmac_def)

lemma demo_hotp: "hotp demo_hmac k 3 6 d = Ok ''000003''"
proof -
  have "u64_to_be_bytes 3 = [0, 0, 0, 0, 0, 0, 0, 3]"
    by (simp add: u64_to_be_bytes_def upt_rec drop_bit_eq_div)
  then have "hotp demo_hmac k 3 6 d = Ok (zero_pad 6 (show_dec (unat (3 mod 1000000 :: u32))))"
    by (simp add: hotp_def demo_hmac_def hotp_truncate_def)
  also have "show_dec (unat (3 mod 1000000 :: u32)) = ''3''"
    by (simp add: show_dec.simps char_of_def bit_iff_odd)
  finally show ?thesis by (simp add: zero_pad_def numeral_eq_Suc)
qed

lemma hotp_code_shape_witness: "length ''000003'' = 6 \<and> list_all is_digit ''000003''"
  using hotp_code_shape [OF demo_hotp] by simp

definition demo_totp :: totp_validator where
  "demo_totp = \<lparr>tv_header = ''x-totp-code'', tv_secrets = [[1]], tv_step = 30, tv_digits = 6,
     tv_skew = 1, tv_digest = MacSha1\<rparr>"

definition demo_auth :: auth_config where
  "demo_auth = \<lparr>ac_proxy = \<lparr>pv_header = ''x-proxy-secret'', pv_secret = ''s''\<rparr>, ac_totp = demo_totp,
     ac_metrics = \<lparr>mv_token = None\<rparr>, ac_replay = True\<rparr>"

definition demo_code :: headers where
  "demo_code = [(''x-totp-code'', \<lparr>hv_bytes = ''000003'', hv_text = Some ''000003''\<rparr>)]"

lemma demo_code_get: "header_get demo_code (tv_header demo_totp) = Some \<lparr>hv_bytes = ''000003'', hv_text = Some ''000003''\<rparr>"
proof -
  have "to_ascii_lowercase ''x-totp-code'' = ''x-totp-code''"
    by (simp add: to_ascii_lowercase_def ascii_lower_def byte_of_def)
  then show ?thesis by (simp add: header_get_def demo_code_def demo_totp_def)
qed

text \<open>At second 119 the code of the step 90 to 119 passes.\<close>

lemma demo_accepted:
  "\<exists>c. unat c \<in> window demo_totp 119 \<and>
     hotp demo_hmac [1] c (tv_digits demo_totp) (tv_digest demo_totp) = Ok ''000003''"
  using demo_hotp [of "[1]" MacSha1] by (intro exI [of _ 3]) (simp add: window_def demo_totp_def)

lemma demo_totp_simps: "tv_step demo_totp \<noteq> 0" "tv_secrets demo_totp = [[1]]"
  by (simp_all add: demo_totp_def)

lemma totp_accepts_iff_witness: "totp_validate demo_hmac demo_totp demo_code 119 = Ok True"
  using totp_accepts_iff [OF demo_hmac_bytes demo_totp_simps(1), of demo_code 119] demo_code_get demo_accepted
  by (simp add: demo_totp_simps)

lemma replay_window_covers_witness: "unat (149 :: u64) < unat (60 :: u64) + unat (replay_window_seconds demo_totp)"
  by (rule replay_window_covers [of "3 :: u64"]) (simp_all add: window_def demo_totp_def)

definition demo_world_at :: "'s \<Rightarrow> (unit, 's) world" where
  "demo_world_at s = \<lparr>w_store = s, w_keys = undefined, w_utc = \<lambda>_. 119, w_utc_tick = 0,
     w_uuid = \<lambda>_. [], w_uuid_tick = 0, w_metrics = []\<rparr>"

lemma demo_authorize:
  "authorize demo_hmac demo_auth Totp demo_code (demo_world_at s) = (Ok True, utc_tick (demo_world_at s))"
  using totp_validate_eq [OF demo_hmac_bytes demo_totp_simps(1), of demo_code 119] demo_code_get demo_accepted
  by (simp add: authorize_def demo_auth_def demo_world_at_def utc_now_def demo_totp_simps)

lemma replayed_code_denied_witness:
  "\<exists>fp s1. fst (auth_decide demo_hmac (Some (redis_jti_store keyspace_redis)) demo_auth Totp demo_code
       (demo_world_at (demo_run []))) = Ok True \<and>
     fst (auth_decide demo_hmac (Some (redis_jti_store keyspace_redis)) demo_auth Totp demo_code
       (demo_world_at s1)) \<noteq> Ok True \<and>
     s1 = demo_run [OpClaim fp 90, OpStore ''j'' 60, OpAdd ''g'' ''j'' 60, OpRevoke ''g'']"
proof -
  let ?S = "redis_jti_store keyspace_redis"
  obtain fp where fp: "totp_replay_claim demo_hmac demo_auth demo_code = Some (fp, 90)"
    using demo_code_get
    by (auto simp: totp_replay_claim_def code_fingerprint_def demo_auth_def demo_totp_def demo_hmac_def
        replay_window_seconds_def)
  let ?s1 = "demo_run [OpClaim fp 90]"
  have d: "redis_claim_totp_code keyspace_redis fp 90 (demo_run []) = (Inr True, ?s1)"
    by (simp add: redis_run_defs)
  let ?xs = "[OpStore ''j'' 60, OpAdd ''g'' ''j'' 60, OpRevoke ''g'']"
  let ?s2 = "demo_run [OpClaim fp 90, OpStore ''j'' 60, OpAdd ''g'' ''j'' 60, OpRevoke ''g'']"
  have s2: "?s2 = run_ops ?S ?xs ?s1" by (simp add: demo_run_def)
  have xs: "spares_key keyspace_redis ks_look (totp_code_key fp) ?xs ?s1"
    by (simp add: redis_run_defs totp_code_key_def rs_grp_def ks_look_def map_look_def)
  obtain b' s3 where d2: "redis_claim_totp_code keyspace_redis fp 90 ?s2 = (Inr b', s3)"
    by (simp add: redis_run_defs totp_code_key_def, blast)
  have r: "ac_replay demo_auth" by (simp add: demo_auth_def)
  have w: "w_store (demo_world_at s) = s" for s :: "keyspace redis_client" by (simp add: demo_world_at_def)
  have t: "rc_clock ?s2 < rc_clock (w_store (demo_world_at (demo_run []))) + uint (90 :: u64)"
    by (simp add: redis_run_defs w totp_code_key_def)
  have first: "auth_decide demo_hmac (Some ?S) demo_auth Totp demo_code (demo_world_at (demo_run [])) =
      (Ok True, (utc_tick (demo_world_at (demo_run [])))\<lparr>w_store := ?s1\<rparr>)"
    unfolding auth_decide_Ok_True
    by (intro exI conjI, rule demo_authorize, rule replay_check_claimed [OF fp r])
      (simp add: redis_jti_store_def d utc_tick_def w)
  have "fst (auth_decide demo_hmac (Some ?S) demo_auth Totp demo_code (demo_world_at ?s2)) \<noteq> Ok True"
  proof (rule replayed_code_denied [OF ks.redis_server_axioms _ r fp first, where xs = "?xs" and ?w2.0 = "demo_world_at ?s2"])
    show "mono (rc_time (w_store (demo_world_at (demo_run []))))" unfolding w by (rule demo_mono)
    show "redis_claim_totp_code keyspace_redis fp 90 (w_store (demo_world_at (demo_run []))) = (Inr True, ?s1)"
      unfolding w by (rule d)
    show "spares_key keyspace_redis ks_look (totp_code_key fp) ?xs
        (w_store ((utc_tick (demo_world_at (demo_run [])))\<lparr>w_store := ?s1\<rparr>))" using xs by simp
    show "w_store (demo_world_at ?s2) =
        run_ops ?S ?xs (w_store ((utc_tick (demo_world_at (demo_run [])))\<lparr>w_store := ?s1\<rparr>))" using s2 by (simp add: w)
    show "rc_clock (w_store (demo_world_at ?s2)) < rc_clock (w_store (demo_world_at (demo_run []))) + uint (90 :: u64)"
      using t unfolding w .
    show "redis_claim_totp_code keyspace_redis fp 90 (w_store (demo_world_at ?s2)) = (Inr b', s3)" using d2 unfolding w .
  qed (rule fp)
  then show ?thesis using first by auto
qed

lemma denied_request_stops_witness:
  "fst (auth_call demo_hmac None demo_auth Totp (\<lambda>r a. (Panic, a)) \<lparr>rq_method = ''GET'', rq_path = ''/'', rq_headers = [], rq_peer = None, rq_body = []\<rparr>
      \<lparr>aw_world = demo_world_at (), aw_limits = ()\<rparr>)
     = Ok (respond 401 (ErrorBody (error_response_new ''Unauthorized'')))"
proof -
  let ?r = "\<lparr>rq_method = ''GET'', rq_path = ''/'', rq_headers = [], rq_peer = None, rq_body = []\<rparr>"
  let ?a = "\<lparr>aw_world = demo_world_at (), aw_limits = ()\<rparr>"
  have "auth_decide demo_hmac None demo_auth Totp (rq_headers ?r) (aw_world ?a) = (Ok False, utc_tick (demo_world_at ()))"
    by (simp add: auth_decide_def authorize_def totp_validate_def header_get_def)
  then show ?thesis by (simp add: denied_request_stops [where level = Totp])
qed

definition demo_auth_env :: env where
  "demo_auth_env = [''AUTH_PROXY_SECRET'' \<mapsto> ''s'', ''AUTH_TOTP_SECRET'' \<mapsto> ''AAAA'', ''AUTH_TOTP_DIGITS'' \<mapsto> ''99'']"

lemma demo_auth_built: "\<exists>c. auth_config_from_env demo_auth_env = Inr c"
proof -
  have c: "\<not> is_cont CHR ''A''" "\<not> is_whitespace ''A''" "\<not> is_whitespace [CHR ''s'']"
    by (simp_all add: is_cont_def is_whitespace_def whitespace_code_def byte_of_def)
  have v: "base32_value ''A'' = Some 0"
    by (simp add: base32_value_def BASE32_ALPHABET_def to_ascii_uppercase_def ascii_upper_def byte_of_def)
  have "base32_decode ''AAAA'' = Some [0, 0]"
    by (simp add: base32_decode_def c v base32_push_def Let_def)
  then have "auth_errors demo_auth_env = []"
    using c by (simp add: auth_errors_def demo_auth_env_def proxy_secret_from_def totp_secret_from_def trim_def)
  then show ?thesis by (simp add: auth_config_from_env_def)
qed

lemma auth_config_invariant_witness:
  "\<exists>c. auth_config_from_env demo_auth_env = Inr c \<and> tv_digits (ac_totp c) \<le> 8"
proof -
  obtain c where c: "auth_config_from_env demo_auth_env = Inr c" using demo_auth_built by blast
  from auth_config_invariant [OF this] c show ?thesis by (auto simp: auth_config_wf_def totp_wf_def)
qed

end
