(* ===== verification/Rfc4226.thy ===== *)
theory Rfc4226
  imports Auth_Correct
begin

text \<open>
  The one-time codes as RFC 4226 and RFC 6238 write them, on numbers: the counter in base 256, the
  truncation as a number below \<open>2 ^ 31\<close>, the code as its decimal digits. The service's \<open>hotp\<close>, which works
  on machine words with shifts and masks and pads a printed number, computes them. \<open>totp-rs\<close>, the library
  of the client, is held to this definition and not to the service's code.
\<close>

section \<open>The definition of the RFC\<close>

definition rfc_counter :: "nat \<Rightarrow> u8 list" where
  "rfc_counter C = map (\<lambda>i. of_nat (C div 256 ^ (7 - i) mod 256)) [0..<8]"

definition rfc_truncate :: "u8 list \<Rightarrow> nat" where
  "rfc_truncate tag =
     (let i = unat (last tag) mod 16 in
      (unat (tag ! i) * 2 ^ 24 + unat (tag ! (i + 1)) * 2 ^ 16 + unat (tag ! (i + 2)) * 2 ^ 8
         + unat (tag ! (i + 3))) mod 2 ^ 31)"

fun decimal :: "nat \<Rightarrow> nat \<Rightarrow> string" where
  "decimal 0 n = []"
| "decimal (Suc d) n = decimal d (n div 10) @ [char_of (48 + n mod 10)]"

definition rfc_hotp :: "hmac \<Rightarrow> u8 list \<Rightarrow> nat \<Rightarrow> nat \<Rightarrow> mac_digest \<Rightarrow> string option" where
  "rfc_hotp H secret C d digest =
     map_option (\<lambda>tag. decimal d (rfc_truncate tag mod 10 ^ d)) (H digest secret (rfc_counter C))"

definition rfc_totp :: "hmac \<Rightarrow> u8 list \<Rightarrow> nat \<Rightarrow> nat \<Rightarrow> nat \<Rightarrow> mac_digest \<Rightarrow> string option" where
  "rfc_totp H secret now step d digest = rfc_hotp H secret (now div step) d digest"

section \<open>The counter\<close>

lemma counter_byte: "ucast (drop_bit (8 * k) c) = (of_nat (unat c div 256 ^ k mod 256) :: u8)" for c :: u64
proof (rule word_unat_eq_iff [THEN iffD2])
  have "unat (ucast (drop_bit (8 * k) c) :: u8) = unat c div 2 ^ (8 * k) mod 256"
    using unsigned_less [of c, where 'a = nat]
    by (simp only: unsigned_ucast_eq unsigned_drop_bit_eq) (simp add: take_bit_eq_mod drop_bit_eq_div)
  then show "unat (ucast (drop_bit (8 * k) c) :: u8) = unat (of_nat (unat c div 256 ^ k mod 256) :: u8)"
    by (simp add: unat_of_nat power_mult)
qed

lemma counter_bytes: "u64_to_be_bytes c = rfc_counter (unat c)"
  by (simp add: u64_to_be_bytes_def rfc_counter_def counter_byte)

section \<open>The truncation\<close>

lemma low_nibble: "unat (b AND 0x0f :: u8) = unat b mod 16"
proof -
  have "(b AND 0x0f :: u8) = take_bit 4 b" by (simp add: take_bit_eq_mask mask_eq_exp_minus_1)
  then show ?thesis by (simp only: unsigned_take_bit_eq) (simp add: take_bit_eq_mod)
qed

lemma or_shifted: "x < 2 ^ k \<Longrightarrow> push_bit k y OR x = y * 2 ^ k + (x :: nat)"
proof -
  assume "x < 2 ^ k"
  then have "take_bit k x = x" by (simp add: take_bit_nat_eq_self)
  then have "push_bit k y AND x = push_bit k y AND take_bit k x" by simp
  also have "\<dots> = 0" by (auto simp: bit_eq_iff bit_simps)
  finally show ?thesis by (simp flip: disjunctive_add_eq_or add: push_bit_eq_mult)
qed

lemma push_byte: "k \<le> 24 \<Longrightarrow> unat x < 256 \<Longrightarrow> unat (push_bit k x) = push_bit k (unat x)" for x :: u32
proof -
  assume k: "k \<le> 24" and x: "unat x < 256"
  have "unat x * 2 ^ k < 256 * 2 ^ k" using x by simp
  also have "256 * 2 ^ k \<le> (256 * 2 ^ 24 :: nat)" using k by (intro mult_left_mono power_increasing) simp_all
  finally have "push_bit k (unat x) < 2 ^ 32" by (simp add: push_bit_eq_mult)
  then show ?thesis by (simp only: unsigned_push_bit_eq) (simp add: take_bit_nat_eq_self)
qed

lemma byte_value: "unat (ucast b :: u32) = unat b" "unat b < 256" for b :: u8
proof -
  show b: "unat b < 256" using unsigned_less [of b, where 'a = nat] by simp
  then show "unat (ucast b :: u32) = unat b" by (simp add: unsigned_ucast_eq take_bit_nat_eq_self)
qed

lemma low_seven: "unat (ucast b AND 0x7f :: u32) = unat b mod 128" for b :: u8
proof -
  have "(ucast b AND 0x7f :: u32) = take_bit 7 (ucast b)" by (simp add: take_bit_eq_mask mask_eq_exp_minus_1)
  then show ?thesis by (simp only: unsigned_take_bit_eq byte_value) (simp add: take_bit_eq_mod)
qed

lemma truncate_number: "unat (hotp_truncate tag i) =
     (unat (tag ! i) * 2 ^ 24 + unat (tag ! (i + 1)) * 2 ^ 16 + unat (tag ! (i + 2)) * 2 ^ 8 + unat (tag ! (i + 3))) mod 2 ^ 31"
proof -
  let ?n = "\<lambda>j. unat (tag ! (i + j))"
  let ?low = "?n 1 * 65536 + (?n 2 * 256 + ?n 3)"
  have b: "?n j < 256" for j by (rule byte_value)
  have l: "?low < 2 ^ 24" using b [of 1] b [of 2] b [of 3] by simp
  have "unat (hotp_truncate tag i) = push_bit 24 (?n 0 mod 128) OR (push_bit 16 (?n 1) OR (push_bit 8 (?n 2) OR ?n 3))"
    using b by (simp add: hotp_truncate_def unsigned_or_eq push_byte byte_value low_seven or.assoc del: push_bit_and)
  also have "push_bit 8 (?n 2) OR ?n 3 = ?n 2 * 256 + ?n 3" using or_shifted [of "?n 3" 8 "?n 2"] b by simp
  also have "push_bit 16 (?n 1) OR (?n 2 * 256 + ?n 3) = ?low"
    using or_shifted [of "?n 2 * 256 + ?n 3" 16 "?n 1"] b [of 2] b [of 3] by simp
  also have "push_bit 24 (?n 0 mod 128) OR ?low = ?n 0 mod 128 * 2 ^ 24 + ?low" by (rule or_shifted [OF l])
  also have "\<dots> = (?n 0 * 2 ^ 24 + ?low) mod (2 ^ 24 * 128)" unfolding mod_mult2_eq using l by simp
  finally show ?thesis by (simp add: add.assoc)
qed

section \<open>The digits\<close>

lemma zero_digit: "char_of (48 :: nat) = CHR ''0''"
  by (simp add: char_of_def bit_iff_odd)

lemma decimal_zero_pad: "n < 10 ^ Suc d \<Longrightarrow> zero_pad (Suc d) (show_dec n) = decimal (Suc d) n"
proof (induction d arbitrary: n)
  case 0
  then show ?case by (simp add: zero_pad_def show_dec.simps)
next
  case (Suc d)
  have ih: "zero_pad (Suc d) (show_dec (n div 10)) = decimal (Suc d) (n div 10)" using Suc by simp
  show ?case
  proof (cases "n < 10")
    case True
    then have "decimal (Suc d) 0 = zero_pad (Suc d) ''0''" using Suc.IH [of 0] by (simp add: show_dec.simps zero_digit)
    then show ?thesis using True
      by (simp add: zero_pad_def show_dec.simps [of n] del: decimal.simps(2)) (simp add: replicate_append_same)
  next
    case False
    then show ?thesis using ih
      by (simp add: show_dec.simps [of n] zero_pad_def del: decimal.simps(2)) (simp add: decimal.simps(2) [of "Suc d"] del: decimal.simps)
  qed
qed

section \<open>The service computes the code of the RFC\<close>

lemma code_number:
  assumes "d \<le> 9"
  shows "unat (x mod 10 ^ d :: u32) = unat x mod 10 ^ d"
proof -
  have "(10 :: nat) ^ d \<le> 10 ^ 9" using assms by (intro power_increasing) simp_all
  then have "(10 :: nat) ^ d < 2 ^ 32" by simp
  then have "unat (of_nat (10 ^ d) :: u32) = 10 ^ d" by (simp only: unat_of_nat) simp
  then show ?thesis by (simp add: unat_mod)
qed

lemma hotp_rfc:
  assumes "tag_bytes H" and "1 \<le> d" and "d \<le> 9"
  shows "hotp H secret c d digest = (case rfc_hotp H secret (unat c) d digest of None \<Rightarrow> Err () | Some code \<Rightarrow> Ok code)"
proof (cases "H digest secret (rfc_counter (unat c))")
  case None
  then show ?thesis by (simp add: hotp_def rfc_hotp_def counter_bytes)
next
  case (Some tag)
  obtain d' where d: "d = Suc d'" using assms(2) by (cases d) auto
  have "20 \<le> length tag" using assms(1) Some unfolding tag_bytes_def by blast
  moreover have "unat (last tag AND 0x0f) + 3 \<le> 18" using nibble_bound [of "last tag"] by simp
  ultimately have "tag \<noteq> []" "\<not> length tag \<le> unat (last tag AND 0x0f) + 3" by auto
  moreover have "unat (hotp_truncate tag (unat (last tag AND 0x0f))) = rfc_truncate tag"
    by (simp add: truncate_number rfc_truncate_def low_nibble Let_def)
  ultimately have "hotp H secret c d digest = Ok (zero_pad d (show_dec (rfc_truncate tag mod 10 ^ d)))"
    using Some by (simp add: hotp_def counter_bytes Let_def code_number [OF assms(3)])
  moreover have "zero_pad d (show_dec (rfc_truncate tag mod 10 ^ d)) = decimal d (rfc_truncate tag mod 10 ^ d)"
    unfolding d by (rule decimal_zero_pad) simp
  ultimately show ?thesis using Some by (simp add: rfc_hotp_def)
qed

text \<open>
  C17. The service's one-time code is the code of RFC 4226: for every secret, counter and digest and for
  1 to 9 digits, \<open>hotp\<close> on 64-bit and 32-bit words, with its shifts, the mask of the top bit and the
  padding of the printed number, gives the decimal digits of the RFC's number, refuses exactly when the
  key is refused by the HMAC, and never panics on a tag of one of the three digests.
\<close>

theorem hotp_is_rfc4226:
  assumes "tag_bytes H" and "1 \<le> d" and "d \<le> 9"
  shows "hotp H secret c d digest = (case rfc_hotp H secret (unat c) d digest of None \<Rightarrow> Err () | Some code \<Rightarrow> Ok code)"
  by (rule hotp_rfc [OF assms])

lemma hotp_is_rfc4226_witness: "rfc_hotp demo_hmac [1] 3 6 MacSha1 = Some ''000003''"
  using hotp_is_rfc4226 [of demo_hmac 6 "[1]" 3 MacSha1] demo_hotp [of "[1]" MacSha1] demo_hmac_bytes
  by (simp split: option.splits)

end
