(* ===== verification/Base32_Correct.thy ===== *)
theory Base32_Correct
  imports Auth Bits
begin

text \<open>
  The base32 decoder of the access levels against its specification on bits: the bytes are the
  five-bit values of the characters, cut into eights; a reference encoder is undone by it; and what
  the decoder does with characters outside ASCII.
\<close>

section \<open>The specification\<close>

definition bits5 :: "nat \<Rightarrow> bool list" where
  "bits5 v = map (\<lambda>i. bit v (4 - i)) [0..<5]"

definition value5 :: "bool list \<Rightarrow> nat" where
  "value5 bs = horner_sum of_bool 2 (rev bs)"

text \<open>The characters that count, and their values.\<close>

definition base32_chars :: "string \<Rightarrow> string list" where
  "base32_chars s = filter (\<lambda>ch. \<not> (is_whitespace ch \<or> ch = ''='')) (split_chars s)"

definition base32_values :: "string \<Rightarrow> nat list" where
  "base32_values s = map (\<lambda>ch. the (base32_value ch)) (base32_chars s)"

text \<open>A reference encoder without padding: the bits in fives, the last group filled with zeros.\<close>

function chunks5 :: "bool list \<Rightarrow> nat list" where
  "chunks5 bs = (if bs = [] then [] else value5 (take 5 (bs @ replicate 4 False)) # chunks5 (drop 5 bs))"
  by pat_completeness auto
termination by (relation "measure length") simp_all

declare chunks5.simps [simp del]

definition base32_encode :: "u8 list \<Rightarrow> string" where
  "base32_encode os = map (\<lambda>v. BASE32_ALPHABET ! v) (chunks5 (octet_bits os))"

section \<open>The buffer\<close>

definition low_bits :: "nat \<Rightarrow> u64 \<Rightarrow> bool list" where
  "low_bits n w = map (\<lambda>i. bit w (n - 1 - i)) [0..<n]"

lemma length_bits5 [simp]: "length (bits5 v) = 5"
  by (simp add: bits5_def)

lemma length_low_bits [simp]: "length (low_bits n w) = n"
  by (simp add: low_bits_def)

lemma bit_small: "(v :: nat) < 2 ^ k \<Longrightarrow> bit v n \<Longrightarrow> n < k"
proof -
  assume v: "v < 2 ^ k" and b: "bit v n"
  have "take_bit k v = v" using v by (simp add: take_bit_nat_eq_self)
  then show "n < k" using b by (metis bit_take_bit_iff)
qed

lemma low_bits_push:
  assumes "v < 32" and "n + 5 \<le> 64"
  shows "low_bits (n + 5) (push_bit 5 w OR of_nat v) = low_bits n w @ bits5 v"
proof (rule nth_equalityI)
  fix i
  assume "i < length (low_bits (n + 5) (push_bit 5 w OR of_nat v))"
  then have i: "i < n + 5" by simp
  have v: "bit v k \<Longrightarrow> k < 5" for k using bit_small [of v 5 k] assms(1) by simp
  show "low_bits (n + 5) (push_bit 5 w OR of_nat v) ! i = (low_bits n w @ bits5 v) ! i"
  proof (cases "i < n")
    case True
    then have "n + 5 - 1 - i = (n - 1 - i) + 5" "n + 5 - 1 - i < 64" using assms(2) by simp_all
    then show ?thesis using True i v [of "n - 1 - i + 5"]
      by (auto simp: low_bits_def nth_append bit_or_iff bit_push_bit_iff bit_of_nat_iff)
  next
    case False
    then have "n + 5 - 1 - i = 4 - (i - n)" "4 - (i - n) < 5" "i - n < 5" using i by simp_all
    then show ?thesis using False i
      by (simp add: low_bits_def bits5_def nth_append bit_or_iff bit_push_bit_iff bit_of_nat_iff)
  qed
qed simp

lemma low_bits_split:
  assumes "m + 8 \<le> 64"
  shows "low_bits (m + 8) w = byte_bits (ucast (drop_bit m w)) @ low_bits m w"
proof (rule nth_equalityI)
  fix i
  assume "i < length (low_bits (m + 8) w)"
  then have i: "i < m + 8" by simp
  show "low_bits (m + 8) w ! i = (byte_bits (ucast (drop_bit m w)) @ low_bits m w) ! i"
  proof (cases "i < 8")
    case True
    then have "m + 8 - 1 - i = m + (7 - i)" "7 - i < 8" by simp_all
    then show ?thesis using True i
      by (simp add: low_bits_def byte_bits_def nth_append bit_drop_bit_eq bit_ucast_iff)
  next
    case False
    then have "m + 8 - 1 - i = m - 1 - (i - 8)" using i by simp
    then show ?thesis using False i by (simp add: low_bits_def nth_append)
  qed
qed simp

section \<open>The decoder against the specification\<close>

lemma position_nth: "position P xs = Some n \<Longrightarrow> n < length xs \<and> P (xs ! n)"
  by (induction xs arbitrary: n) (auto split: if_splits)

lemma base32_value_less: "base32_value ch = Some v \<Longrightarrow> v < 32"
proof -
  assume "base32_value ch = Some v"
  then have "v < length BASE32_ALPHABET" by (simp add: base32_value_def position_nth)
  then show "v < 32" by (simp add: BASE32_ALPHABET_def)
qed

lemma base32_push_bits:
  assumes "v < 32" and "bits < 8" and "base32_push v buffer bits = (buffer', bits', emitted)"
  shows "bits' < 8" and "8 * length emitted + bits' = bits + 5"
    and "octet_bits emitted @ low_bits bits' buffer' = low_bits bits buffer @ bits5 v"
proof -
  have p: "low_bits (bits + 5) (push_bit 5 buffer OR of_nat v) = low_bits bits buffer @ bits5 v"
    by (rule low_bits_push) (use assms in simp_all)
  show "bits' < 8" "8 * length emitted + bits' = bits + 5"
    using assms(2,3) by (auto simp: base32_push_def Let_def split: if_splits)
  show "octet_bits emitted @ low_bits bits' buffer' = low_bits bits buffer @ bits5 v"
  proof (cases "8 \<le> bits + 5")
    case True
    then have b: "bits + 5 - 8 + 8 = bits + 5" by simp
    have "low_bits (bits + 5) (push_bit 5 buffer OR of_nat v) =
        byte_bits (ucast (drop_bit (bits + 5 - 8) (push_bit 5 buffer OR of_nat v))) @
        low_bits (bits + 5 - 8) (push_bit 5 buffer OR of_nat v)"
      using low_bits_split [of "bits + 5 - 8" "push_bit 5 buffer OR of_nat v"] assms(2)
      unfolding b by simp
    then show ?thesis using True p assms(3)
      by (auto simp: base32_push_def Let_def octet_bits_def)
  next
    case False
    then show ?thesis using p assms(3) by (auto simp: base32_push_def Let_def octet_bits_def)
  qed
qed

definition counted :: "string list \<Rightarrow> string list" where
  "counted chs = filter (\<lambda>ch. \<not> (is_whitespace ch \<or> ch = ''='')) chs"

lemma base32_loop_Some:
  "base32_loop chs buffer bits \<noteq> None \<longleftrightarrow> (\<forall>ch \<in> set (counted chs). base32_value ch \<noteq> None)"
  by (induction chs buffer bits rule: base32_loop.induct)
    (auto simp: counted_def split: option.splits prod.splits)

lemma base32_loop_bits:
  "base32_loop chs buffer bits = Some out \<Longrightarrow> bits < 8 \<Longrightarrow>
     \<exists>rest. length rest < 8 \<and>
       octet_bits out @ rest = low_bits bits buffer @ concat (map (\<lambda>ch. bits5 (the (base32_value ch))) (counted chs))"
proof (induction chs arbitrary: buffer bits out)
  case Nil
  then show ?case by (intro exI [of _ "low_bits bits buffer"]) (simp add: counted_def octet_bits_def)
next
  case (Cons ch chs)
  show ?case
  proof (cases "is_whitespace ch \<or> ch = ''=''")
    case True
    then have "base32_loop chs buffer bits = Some out" "counted (ch # chs) = counted chs"
      using Cons.prems(1) by (auto simp: counted_def)
    then show ?thesis using Cons.IH [OF _ Cons.prems(2)] by simp
  next
    case False
    obtain v where v: "base32_value ch = Some v" using Cons.prems(1) False
      by (auto split: option.splits)
    obtain buffer' bits' emitted where p: "base32_push v buffer bits = (buffer', bits', emitted)"
      by (metis prod_cases3)
    obtain out' where o: "base32_loop chs buffer' bits' = Some out'" "out = emitted @ out'"
      using Cons.prems(1) False v p by auto
    note push = base32_push_bits [OF base32_value_less [OF v] Cons.prems(2) p]
    obtain rest where l: "length rest < 8"
      and r: "octet_bits out' @ rest = low_bits bits' buffer' @ concat (map (\<lambda>ch. bits5 (the (base32_value ch))) (counted chs))"
      using Cons.IH [OF o(1) push(1)] by blast
    have "octet_bits out @ rest = octet_bits emitted @ octet_bits out' @ rest"
      by (simp add: o(2) octet_bits_def)
    also have "\<dots> = (octet_bits emitted @ low_bits bits' buffer') @
        concat (map (\<lambda>ch. bits5 (the (base32_value ch))) (counted chs))" by (simp add: r)
    also have "\<dots> = low_bits bits buffer @ concat (map (\<lambda>ch. bits5 (the (base32_value ch))) (counted (ch # chs)))"
      using v False by (simp add: push(3) counted_def)
    finally show ?thesis using l by blast
  qed
qed

lemma length_concat_bits5: "length (concat (map (\<lambda>x. bits5 (f x)) xs)) = 5 * length xs"
  by (induction xs) simp_all

lemma base32_decode_spec:
  assumes "base32_decode s = Some out"
  shows "length out = 5 * length (base32_values s) div 8" and
    "octet_bits out = take (8 * length out) (concat (map bits5 (base32_values s)))"
proof -
  obtain rest where r: "length rest < 8" "octet_bits out @ rest = concat (map bits5 (base32_values s))"
    using base32_loop_bits [of "split_chars s" 0 0 out] assms
    by (auto simp: base32_decode_def base32_values_def base32_chars_def counted_def low_bits_def comp_def)
  have "8 * length out + length rest = 5 * length (base32_values s)"
    using arg_cong [OF r(2), of length] length_concat_bits5 [of "\<lambda>x. x" "base32_values s"] by simp
  then show "length out = 5 * length (base32_values s) div 8" using r(1) by linarith
  show "octet_bits out = take (8 * length out) (concat (map bits5 (base32_values s)))"
    using arg_cong [OF r(2), of "take (8 * length out)"] by simp
qed

text \<open>
  Base32 is decoded as RFC 4648 describes it: decoding succeeds exactly when every character that
  counts has a value, and then the bytes are the characters' five-bit values read as one sequence of
  bits, whole bytes only; the 64-bit buffer never loses a bit that is still needed.
\<close>

theorem base32_decode_bits:
  "(base32_decode s \<noteq> None \<longleftrightarrow> list_all (\<lambda>ch. base32_value ch \<noteq> None) (base32_chars s)) \<and>
   map_option octet_bits (base32_decode s) =
     (if base32_decode s = None then None
      else Some (take (8 * (5 * length (base32_values s) div 8)) (concat (map bits5 (base32_values s)))))"
proof
  show "base32_decode s \<noteq> None \<longleftrightarrow> list_all (\<lambda>ch. base32_value ch \<noteq> None) (base32_chars s)"
    using base32_loop_Some [of "split_chars s" 0 0]
    by (simp add: base32_decode_def base32_chars_def counted_def list_all_iff)
next
  show "map_option octet_bits (base32_decode s) =
     (if base32_decode s = None then None
      else Some (take (8 * (5 * length (base32_values s) div 8)) (concat (map bits5 (base32_values s)))))"
    using base32_decode_spec [of s] by (cases "base32_decode s") auto
qed
section \<open>The round trip\<close>

lemma value5_less: "length bs = 5 \<Longrightarrow> value5 bs < 32"
proof -
  assume "length bs = 5"
  then have "take_bit 5 (value5 bs) = value5 bs"
    by (intro bit_eqI) (auto simp: value5_def bit_take_bit_iff bit_horner_sum_bit_iff)
  then show ?thesis using take_bit_nat_less_exp [of 5 "value5 bs"] by simp
qed

lemma bits5_value5: "length bs = 5 \<Longrightarrow> bits5 (value5 bs) = bs"
  by (rule nth_equalityI) (auto simp: bits5_def value5_def bit_horner_sum_bit_iff rev_nth)

lemma chunks5_props:
  "list_all (\<lambda>v. v < 32) (chunks5 bs) \<and>
   (\<exists>k<5. concat (map bits5 (chunks5 bs)) = bs @ replicate k False)"
proof (induction bs rule: chunks5.induct)
  case (1 bs)
  show ?case
  proof (cases "bs = []")
    case True
    then show ?thesis by (simp add: chunks5.simps)
  next
    case False
    let ?h = "take 5 (bs @ replicate 4 False)"
    have h: "length ?h = 5" using False by (cases bs) auto
    obtain k where k: "k < 5" "concat (map bits5 (chunks5 (drop 5 bs))) = drop 5 bs @ replicate k False"
      and l: "list_all (\<lambda>v. v < 32) (chunks5 (drop 5 bs))"
      using 1 [OF False] by blast
    have c: "chunks5 bs = value5 ?h # chunks5 (drop 5 bs)" using False by (simp add: chunks5.simps [of bs])
    have e: "concat (map bits5 (chunks5 bs)) = ?h @ concat (map bits5 (chunks5 (drop 5 bs)))"
      unfolding c by (simp only: list.map concat.simps bits5_value5 [OF h])
    have "\<exists>k<5. concat (map bits5 (chunks5 bs)) = bs @ replicate k False"
    proof (cases "5 \<le> length bs")
      case True
      then show ?thesis using e k by (intro exI [of _ k]) simp
    next
      case False
      then have d: "drop 5 bs = []" by simp
      have "5 - length bs \<le> 4" using \<open>bs \<noteq> []\<close> by (cases bs) auto
      then show ?thesis using e False
        by (intro exI [of _ "5 - length bs"]) (simp add: d chunks5.simps [of "[]"])
    qed
    then show ?thesis using c l value5_less [OF h] by simp
  qed
qed

lemma alphabet_values:
  "list_all (\<lambda>v. base32_value [BASE32_ALPHABET ! v] = Some v) [0..<32]"
  by (simp add: upt_rec base32_value_def BASE32_ALPHABET_def to_ascii_uppercase_def ascii_upper_def byte_of_def)

lemma alphabet_chars:
  "list_all (\<lambda>c. is_ascii c \<and> \<not> is_whitespace [c] \<and> c \<noteq> CHR ''='') BASE32_ALPHABET"
  by (simp add: BASE32_ALPHABET_def is_ascii_def is_whitespace_def whitespace_code_def byte_of_def)

lemma alphabet_nth:
  assumes "v < 32"
  shows "is_ascii (BASE32_ALPHABET ! v)" "\<not> is_whitespace [BASE32_ALPHABET ! v]"
    "BASE32_ALPHABET ! v \<noteq> CHR ''=''" "base32_value [BASE32_ALPHABET ! v] = Some v"
proof -
  have "length BASE32_ALPHABET = 32" by (simp add: BASE32_ALPHABET_def)
  then have "BASE32_ALPHABET ! v \<in> set BASE32_ALPHABET" using assms by simp
  then show "is_ascii (BASE32_ALPHABET ! v)" "\<not> is_whitespace [BASE32_ALPHABET ! v]"
    "BASE32_ALPHABET ! v \<noteq> CHR ''=''"
    using alphabet_chars by (auto simp: list_all_iff)
  show "base32_value [BASE32_ALPHABET ! v] = Some v"
    using alphabet_values assms by (simp add: list_all_iff)
qed

lemma encoded_chars:
  assumes "list_all (\<lambda>v. v < 32) vs"
  shows "split_chars (map (\<lambda>v. BASE32_ALPHABET ! v) vs) = map (\<lambda>v. [BASE32_ALPHABET ! v]) vs"
    and "counted (map (\<lambda>v. [BASE32_ALPHABET ! v]) vs) = map (\<lambda>v. [BASE32_ALPHABET ! v]) vs"
proof -
  have "list_all is_ascii (map (\<lambda>v. BASE32_ALPHABET ! v) vs)"
    using assms alphabet_nth(1) by (simp add: list_all_iff)
  then show "split_chars (map (\<lambda>v. BASE32_ALPHABET ! v) vs) = map (\<lambda>v. [BASE32_ALPHABET ! v]) vs"
    by (simp add: split_chars_ascii comp_def)
  show "counted (map (\<lambda>v. [BASE32_ALPHABET ! v]) vs) = map (\<lambda>v. [BASE32_ALPHABET ! v]) vs"
    unfolding counted_def using assms alphabet_nth(2,3) by (intro filter_True) (auto simp: list_all_iff)
qed

text \<open>
  C40. What RFC 4648 encodes, the service decodes: any bytes written in base32, with the last group
  filled with zero bits, come back unchanged.
\<close>

theorem base32_roundtrip: "base32_decode (base32_encode os) = Some os"
proof -
  let ?vs = "chunks5 (octet_bits os)"
  have l: "list_all (\<lambda>v. v < 32) ?vs" using chunks5_props by blast
  obtain k where k: "k < 5" "concat (map bits5 ?vs) = octet_bits os @ replicate k False"
    using chunks5_props by blast
  have c: "base32_chars (base32_encode os) = map (\<lambda>v. [BASE32_ALPHABET ! v]) ?vs"
    using encoded_chars [OF l] by (simp add: base32_chars_def base32_encode_def counted_def)
  have v: "base32_values (base32_encode os) = ?vs"
    using l alphabet_nth(4) by (simp add: base32_values_def c comp_def list_all_iff map_idI)
  have "list_all (\<lambda>ch. base32_value ch \<noteq> None) (base32_chars (base32_encode os))"
    using l alphabet_nth(4) by (auto simp: c list_all_iff)
  then obtain out where o: "base32_decode (base32_encode os) = Some out"
    using base32_loop_Some [of "split_chars (base32_encode os)" 0 0]
    by (auto simp: base32_decode_def base32_chars_def counted_def list_all_iff)
  note spec = base32_decode_spec [OF o, unfolded v k(2)]
  have "5 * length ?vs = 8 * length os + k"
    using arg_cong [OF k(2), of length] length_concat_bits5 [of "\<lambda>x. x" ?vs] by simp
  then have n: "length out = length os" using spec(1) k(1) by simp
  have "octet_bits out = octet_bits os" using spec(2) n by simp
  then have "out = os" using n
  proof (induction out os rule: list_induct2')
    case (4 x xs y ys)
    then show ?case by (simp add: octet_bits_Cons byte_bits_inject)
  qed simp_all
  then show ?thesis using o by simp
qed

section \<open>Characters outside ASCII\<close>

text \<open>
  The cast to a byte keeps the low eight bits of a character: \<open>U+0141\<close>, which is no character of the
  alphabet, is read as \<open>A\<close> (\<open>0x41\<close>).
\<close>

lemma base32_truncates_characters:
  "base32_value [char_of (0xC5 :: nat), char_of (0x81 :: nat)] = base32_value ''A''"
  by (simp add: base32_value_def BASE32_ALPHABET_def to_ascii_uppercase_def ascii_upper_def byte_of_def)

end
