(* ===== verification/Handlers.thy ===== *)
theory Handlers
  imports Jwt_Manager Issuer Http
begin

text \<open>
  The HTTP handlers (\<open>src/handlers.rs\<close>), on the values their extractors hand them: the decoded body
  or path, the headers, and the shared store and key manager of the world. A handler returns
  \<open>Result<HttpResponse, Error>\<close>; the probes and the metrics return a response. The lists
  \<open>*_responses\<close> are the statuses the OpenAPI attribute of each handler documents.
\<close>

section \<open>The issuer of a request\<close>

definition host_header :: "headers \<Rightarrow> app_error + string" where
  "host_header hs =
     (case header_get hs ''Host'' of
        None \<Rightarrow> Inl (Validation ''Missing Host header'')
      | Some v \<Rightarrow> (case hv_text v of None \<Rightarrow> Inl (Validation ''Invalid Host header'') | Some s \<Rightarrow> Inr s))"

definition issuer_for_issuance :: "env \<Rightarrow> headers \<Rightarrow> app_error + string" where
  "issuer_for_issuance e hs =
     (case host_header hs of
        Inl err \<Rightarrow> Inl err
      | Inr host \<Rightarrow> if \<not> is_allowed e host then Inl (Forbidden ''Issuer not allowed'') else Inr host)"

section \<open>Issuing\<close>

type_synonym ('v, 'n, 's) handler_result = "(app_error, 'v response) outcome \<times> ('n, 's) world"

definition issue_for ::
  "('b, 'g, 'p, 'k, 'v, 'n, 's) deps \<Rightarrow> string \<Rightarrow> 'v token_request \<Rightarrow> ('n, 's) world
     \<Rightarrow> (jwt_error, string \<times> string option) outcome \<times> ('n, 's) world" where
  "issue_for D host req =
     (if tr_refresh req
      then and_then (generate_token_pair D host (tr_sub req) (tr_aud req) (tr_ttl req) (tr_claims req))
             (\<lambda>(token, refresh) w. (Ok (token, Some refresh), w))
      else and_then (generate_token D host (tr_sub req) (tr_aud req) (tr_ttl req) (tr_claims req))
             (\<lambda>token w. (Ok (token, None), w)))"

definition token_ok :: "string \<Rightarrow> string option \<Rightarrow> 'v response" where
  "token_ok token refresh = respond 200 (TokenBody \<lparr>tk_token = token, tk_refresh_token = refresh\<rparr>)"

definition create_token_error :: "jwt_error \<Rightarrow> app_error" where
  "create_token_error e =
     (case e of
        UnprocessableEntity \<Rightarrow> Unprocessable ''Invalid token request parameters''
      | _ \<Rightarrow> Internal (jwt_error_text e))"

definition create_token ::
  "('b, 'g, 'p, 'k, 'v, 'n, 's) deps \<Rightarrow> 'v token_request \<Rightarrow> headers \<Rightarrow> ('n, 's) world
     \<Rightarrow> ('v, 'n, 's) handler_result" where
  "create_token D req hs w =
     (case issuer_for_issuance (dp_env D) hs of
        Inl e \<Rightarrow> (Err e, w)
      | Inr host \<Rightarrow>
          (case issue_for D host req w of
             (Ok (token, refresh), w1) \<Rightarrow> (Ok (token_ok token refresh), record_metric TokenIssued w1)
           | (Err e, w1) \<Rightarrow> (Err (create_token_error e), w1)
           | (Panic, w1) \<Rightarrow> (Panic, w1)))"

definition create_token_responses :: "nat list" where
  "create_token_responses = [200, 400, 401, 403, 422, 429, 500]"

section \<open>Verification\<close>

definition invalid_token :: app_error where
  "invalid_token = Unauthorized ''Invalid or expired token''"

definition verify_token_handler ::
  "('b, 'g, 'p, 'k, 'v, 'n, 's) deps \<Rightarrow> token_verify_request \<Rightarrow> headers \<Rightarrow> ('n, 's) world
     \<Rightarrow> ('v, 'n, 's) handler_result" where
  "verify_token_handler D req hs w =
     (case host_header hs of
        Inl e \<Rightarrow> (Err e, w)
      | Inr host \<Rightarrow>
          if \<not> is_allowed (dp_env D) host then (Err invalid_token, w)
          else (case verify_token D (tv_token req) host (tv_audience req) w of
                  (Ok claims, w1) \<Rightarrow> (Ok (respond 200 (ClaimsBody claims)), record_metric (TokenVerified True) w1)
                | (Err _, w1) \<Rightarrow> (Err invalid_token, record_metric (TokenVerified False) w1)
                | (Panic, w1) \<Rightarrow> (Panic, w1)))"

definition verify_token_responses :: "nat list" where
  "verify_token_responses = [200, 400, 401, 429]"

section \<open>Revocation\<close>

definition revoke_token ::
  "('b, 'g, 'p, 'k, 'v, 'n, 's) deps \<Rightarrow> string \<Rightarrow> ('n, 's) world \<Rightarrow> ('v, 'n, 's) handler_result" where
  "revoke_token D jti w =
     (case js_delete_jti (dp_store D) jti (w_store w) of
        (Inr _, s) \<Rightarrow> (Ok (respond 204 NoBody), record_metric TokenRevoked (w\<lparr>w_store := s\<rparr>))
      | (Inl _, s) \<Rightarrow> (Err (Internal ''Failed to revoke token''), w\<lparr>w_store := s\<rparr>))"

definition revoke_token_responses :: "nat list" where
  "revoke_token_responses = [204, 401, 429, 500]"

fun record_revoked :: "nat \<Rightarrow> ('n, 's) world \<Rightarrow> ('n, 's) world" where
  "record_revoked 0 w = w"
| "record_revoked (Suc n) w = record_revoked n (record_metric TokenRevoked w)"

definition revoke_subject_tokens ::
  "('b, 'g, 'p, 'k, 'v, 'n, 's) deps \<Rightarrow> string \<Rightarrow> ('n, 's) world \<Rightarrow> ('v, 'n, 's) handler_result" where
  "revoke_subject_tokens D sub w =
     (case js_revoke_group (dp_store D) (subject_group sub) (w_store w) of
        (Inr revoked, s) \<Rightarrow>
          (Ok (respond 200 (RevokedBody \<lparr>rg_revoked = revoked\<rparr>)),
           record_revoked (unat revoked) (w\<lparr>w_store := s\<rparr>))
      | (Inl _, s) \<Rightarrow> (Err (Internal ''Failed to revoke subject tokens''), w\<lparr>w_store := s\<rparr>))"

definition revoke_subject_tokens_responses :: "nat list" where
  "revoke_subject_tokens_responses = [200, 401, 429, 500]"

section \<open>Exchange of a refresh token\<close>

definition refresh_token_error :: "jwt_error \<Rightarrow> app_error" where
  "refresh_token_error e =
     (case e of NotValid \<Rightarrow> Unauthorized ''Invalid refresh token'' | _ \<Rightarrow> Internal (jwt_error_text e))"

definition refresh_token_handler ::
  "('b, 'g, 'p, 'k, 'v, 'n, 's) deps \<Rightarrow> refresh_request \<Rightarrow> headers \<Rightarrow> ('n, 's) world
     \<Rightarrow> ('v, 'n, 's) handler_result" where
  "refresh_token_handler D req hs w =
     (case issuer_for_issuance (dp_env D) hs of
        Inl e \<Rightarrow> (Err e, w)
      | Inr host \<Rightarrow>
          (case refresh_token_pair D (rq_refresh_token req) host w of
             (Ok (token, refresh), w1) \<Rightarrow> (Ok (token_ok token (Some refresh)), record_metric TokenIssued w1)
           | (Err e, w1) \<Rightarrow> (Err (refresh_token_error e), w1)
           | (Panic, w1) \<Rightarrow> (Panic, w1)))"

definition refresh_token_responses :: "nat list" where
  "refresh_token_responses = [200, 400, 401, 429, 500]"

section \<open>Metrics and probes\<close>

text \<open>\<open>render\<close> is the exposition of the Prometheus recorder, a foreign crate.\<close>

definition metrics_handler :: "(('n, 's) world \<Rightarrow> string) \<Rightarrow> ('n, 's) world \<Rightarrow> 'v response \<times> ('n, 's) world" where
  "metrics_handler render w = (respond 200 (TextBody ''text/plain; version=0.0.4'' (render w)), w)"

definition metrics_responses :: "nat list" where
  "metrics_responses = [200]"

definition livez :: "('n, 's) world \<Rightarrow> 'v response \<times> ('n, 's) world" where
  "livez w = (respond 200 NoBody, w)"

definition livez_responses :: "nat list" where
  "livez_responses = [200]"

definition readiness_status :: "bool \<Rightarrow> bool \<Rightarrow> string" where
  "readiness_status ready stale =
     (if \<not> ready then ''unavailable'' else if stale then ''degraded'' else ''ok'')"

text \<open>The servable snapshot is asked for only when the key service did not answer.\<close>

definition readyz ::
  "('b, 'g, 'p, 'k, 'v, 'n, 's) deps \<Rightarrow> ('n, 's) world \<Rightarrow> 'v response \<times> ('n, 's) world" where
  "readyz D w =
     (case js_ping (dp_store D) (w_store w) of
        (ping, s) \<Rightarrow>
          (case check_jwks (dp_server D) (w_keys w) of
             (answer, m) \<Rightarrow>
               (let store_ok = (case ping of Inr _ \<Rightarrow> True | Inl _ \<Rightarrow> False);
                    jwks_live = (case answer of Inr _ \<Rightarrow> True | Inl _ \<Rightarrow> False) in
                case (if jwks_live then (False, m) else has_servable_jwks_snapshot m) of
                  (jwks_stale, m1) \<Rightarrow>
                    (let jwks_ok = (jwks_live \<or> jwks_stale);
                         ready = (store_ok \<and> jwks_ok);
                         body = ReadinessBody \<lparr>rd_status = readiness_status ready jwks_stale,
                                  rd_redis = store_ok, rd_jwks = jwks_ok, rd_jwks_stale = jwks_stale\<rparr> in
                     (respond (if ready then 200 else 503) body, w\<lparr>w_store := s, w_keys := m1\<rparr>)))))"

definition readyz_responses :: "nat list" where
  "readyz_responses = [200, 503]"

end
