(* ===== verification/Handlers_Correct.thy ===== *)
theory Handlers_Correct
  imports Handlers
begin

text \<open>
  What a client of the API can observe of the handlers: which statuses they answer with and under
  which conditions, that failures of verification look alike, that a success of a revocation means
  it took effect, and that the token a client gets carries the host it asked.
\<close>

section \<open>Branches of the handlers\<close>

lemma host_header_Inl:
  "host_header hs = Inl e \<Longrightarrow> rs_status (app_error_response e :: 'v response) = 400"
  by (auto simp: host_header_def split: option.splits)

lemma issuer_for_issuance_Inl:
  "issuer_for_issuance env hs = Inl e \<Longrightarrow> rs_status (app_error_response e :: 'v response) \<in> {400, 403}"
  using host_header_Inl [of hs, where 'v = 'v]
  by (auto simp: issuer_for_issuance_def split: sum.splits if_splits)

lemma issuer_for_issuance_Inr:
  "issuer_for_issuance env hs = Inr host \<longleftrightarrow> host_header hs = Inr host \<and> is_allowed env host"
  by (auto simp: issuer_for_issuance_def split: sum.splits)

lemma create_token_error_status:
  "rs_status (app_error_response (create_token_error e) :: 'v response) \<in> {422, 500}"
  by (cases e) (simp_all add: create_token_error_def)

lemma refresh_token_error_status:
  "rs_status (app_error_response (refresh_token_error e) :: 'v response) \<in> {401, 500}"
  by (cases e) (simp_all add: refresh_token_error_def)

definition status_of :: "(app_error, 'v response) outcome \<Rightarrow> nat option" where
  "status_of x = (case into_response x of Ok resp \<Rightarrow> Some (rs_status resp) | _ \<Rightarrow> None)"

lemma status_of_simps [simp]:
  "status_of (Ok resp) = Some (rs_status resp)"
  "status_of (Err e :: (app_error, 'v response) outcome) = Some (rs_status (app_error_response e :: 'v response))"
  "status_of Panic = None"
  by (simp_all add: status_of_def into_response_def)

lemma token_ok_status [simp]: "rs_status (token_ok t r) = 200"
  by (simp add: token_ok_def)

section \<open>The documented statuses\<close>

text \<open>
  C35. The API answers as its OpenAPI description says: whatever the request and the state, each of the
  eight handlers that does not panic answers with one of the statuses its description lists, except that an exchange
  of a refresh token can also be refused with 403.
\<close>

theorem statuses_documented:
  "set_option (status_of (fst (create_token D req hs w))) \<subseteq> set create_token_responses \<and>
   set_option (status_of (fst (verify_token_handler D vreq hs w))) \<subseteq> set verify_token_responses \<and>
   set_option (status_of (fst (revoke_token D jti w))) \<subseteq> set revoke_token_responses \<and>
   set_option (status_of (fst (revoke_subject_tokens D sub w))) \<subseteq> set revoke_subject_tokens_responses \<and>
   set_option (status_of (fst (refresh_token_handler D rreq hs w))) \<subseteq> insert 403 (set refresh_token_responses) \<and>
   rs_status (fst (readyz D w)) \<in> set readyz_responses \<and>
   rs_status (fst (livez w)) \<in> set livez_responses \<and>
   rs_status (fst (metrics_handler render w)) \<in> set metrics_responses"
proof (intro conjI)
  show "set_option (status_of (fst (create_token D req hs w))) \<subseteq> set create_token_responses"
    using issuer_for_issuance_Inl [of "dp_env D" hs] create_token_error_status
    by (auto simp: create_token_def create_token_responses_def split: sum.splits prod.splits outcome.splits)
  show "set_option (status_of (fst (verify_token_handler D vreq hs w))) \<subseteq> set verify_token_responses"
    using host_header_Inl [of hs]
    by (auto simp: verify_token_handler_def verify_token_responses_def invalid_token_def
        split: sum.splits prod.splits outcome.splits)
  show "set_option (status_of (fst (revoke_token D jti w))) \<subseteq> set revoke_token_responses"
    by (auto simp: revoke_token_def revoke_token_responses_def split: sum.splits prod.splits)
  show "set_option (status_of (fst (revoke_subject_tokens D sub w))) \<subseteq> set revoke_subject_tokens_responses"
    by (auto simp: revoke_subject_tokens_def revoke_subject_tokens_responses_def
        split: sum.splits prod.splits)
  show "set_option (status_of (fst (refresh_token_handler D rreq hs w))) \<subseteq> insert 403 (set refresh_token_responses)"
    using issuer_for_issuance_Inl [of "dp_env D" hs] refresh_token_error_status
    by (auto simp: refresh_token_handler_def refresh_token_responses_def split: sum.splits prod.splits outcome.splits)
  show "rs_status (fst (readyz D w)) \<in> set readyz_responses"
    by (auto simp: readyz_def readyz_responses_def Let_def split: prod.splits)
  show "rs_status (fst (livez w)) \<in> set livez_responses" by (simp add: livez_def livez_responses_def)
  show "rs_status (fst (metrics_handler render w)) \<in> set metrics_responses"
    by (simp add: metrics_handler_def metrics_responses_def)
qed

text \<open>The exception: a host outside the allowlist.\<close>

lemma refresh_token_undocumented_403:
  assumes "host_header hs = Inr host" and "\<not> is_allowed (dp_env D) host"
  shows "status_of (fst (refresh_token_handler D rreq hs w)) = Some 403" and "403 \<notin> set refresh_token_responses"
  using assms by (simp_all add: refresh_token_handler_def issuer_for_issuance_def refresh_token_responses_def)

section \<open>Verification\<close>

lemma verify_token_Ok:
  "verify_token D token issuer audience w = (Ok claims, w') \<longleftrightarrow>
     (\<exists>jwt. token_from_string D token issuer audience w = (Ok jwt, w') \<and> claims = jt_claims jwt)"
  by (auto simp: verify_token_def split: prod.splits outcome.splits)

lemma verify_handler_200:
  assumes "verify_token_handler D req hs w = (Ok resp, w')"
  obtains host jwt w1 where "host_header hs = Inr host" "is_allowed (dp_env D) host"
    "token_from_string D (tv_token req) host (tv_audience req) w = (Ok jwt, w1)"
    "resp = respond 200 (ClaimsBody (jt_claims jwt))" "w' = record_metric (TokenVerified True) w1"
proof -
  obtain host where h: "host_header hs = Inr host" "is_allowed (dp_env D) host"
    using assms by (auto simp: verify_token_handler_def split: sum.splits if_splits)
  obtain claims w1 where v: "verify_token D (tv_token req) host (tv_audience req) w = (Ok claims, w1)"
    "resp = respond 200 (ClaimsBody claims)" "w' = record_metric (TokenVerified True) w1"
    using assms h by (auto simp: verify_token_handler_def split: prod.splits outcome.splits)
  then show ?thesis using that [OF h] unfolding verify_token_Ok by blast
qed

section \<open>Revocation\<close>

text \<open>
  A revocation reports the truth: the answer is 204 exactly when the store confirmed the deletion,
  and otherwise the generic 500; a revocation is counted only when it took effect.
\<close>

theorem revoke_token_honest:
  assumes "revoke_token D jti w = (r, w')" and "js_delete_jti (dp_store D) jti (w_store w) = (d, s)"
  shows "into_response r =
     Ok (if \<exists>u. d = Inr u then respond 204 NoBody
         else respond 500 (ErrorBody (error_response_new ''Internal server error''))) \<and>
   w_store w' = s \<and>
   w_metrics w' = w_metrics w @ (if \<exists>u. d = Inr u then [TokenRevoked] else [])"
  using assms by (cases d) (auto simp: revoke_token_def into_response_def)

lemma record_revoked_metrics:
  "w_metrics (record_revoked n w) = w_metrics w @ replicate n TokenRevoked \<and> w_store (record_revoked n w) = w_store w"
  by (induction n arbitrary: w) simp_all

text \<open>
  So does a bulk revocation: the number answered is the store's, one revocation is counted for
  each, and a failure of the store is the generic 500 with nothing counted.
\<close>

theorem revoke_subject_honest:
  assumes "revoke_subject_tokens D sub w = (r, w')"
    and "js_revoke_group (dp_store D) (subject_group sub) (w_store w) = (d, s)"
  shows "into_response r =
     Ok (case d of Inr n \<Rightarrow> respond 200 (RevokedBody \<lparr>rg_revoked = n\<rparr>)
         | Inl _ \<Rightarrow> respond 500 (ErrorBody (error_response_new ''Internal server error''))) \<and>
   w_metrics w' = w_metrics w @ (case d of Inr n \<Rightarrow> replicate (unat n) TokenRevoked | Inl _ \<Rightarrow> [])"
  using assms
  by (cases d) (auto simp: revoke_subject_tokens_def into_response_def record_revoked_metrics)

text \<open>
  C2. The API keeps its promise of revocation: once \<open>DELETE /tokens/{jti}\<close> has answered 204, no
  \<open>POST /tokens/verify\<close> is answered with 200 for a token with that identifier, by any host and for
  any audience, after any other operations on the store, unless the identifier is stored again.
\<close>

theorem revoked_token_not_verified:
  assumes R: "redis_server R look" "dp_store D = redis_jti_store R" "mono (rc_time (w_store w))"
    and d: "revoke_token D jti w = (Ok gone, w1)"
    and x: "\<forall>x \<in> set xs. jti \<notin> op_writes x" "w_store w2 = run_ops (redis_jti_store R) xs (w_store w1)"
    and v: "verify_token_handler D req hs w2 = (Ok resp, w3)"
  shows "\<exists>claims. resp = respond 200 (ClaimsBody claims) \<and> tc_jti claims \<noteq> jti"
proof -
  have del: "js_delete_jti (dp_store D) jti (w_store w) = (Inr (), w_store w1)"
    using d by (auto simp: revoke_token_def split: prod.splits sum.splits)
  obtain host jwt w4 where t: "token_from_string D (tv_token req) host (tv_audience req) w2 = (Ok jwt, w4)"
    and r: "resp = respond 200 (ClaimsBody (jt_claims jwt))"
    using verify_handler_200 [OF v] by metis
  have "tc_jti (jt_claims jwt) \<noteq> jti"
    using jti_store.revoked_not_accepted [OF redis_server.refines_contract [OF R(1)] R(2) _ _ x t, of "w_store w"]
      R(2,3) del by (simp add: rs_wf_def)
  then show ?thesis using r by blast
qed

section \<open>Issuing\<close>

text \<open>What the steps of an issue draw from the supply of UUIDs, and that none of them counts anything.\<close>

lemma generate_token_draws:
  assumes "generate_token D host sub aud ttl extra w = (Ok token, w')"
  obtains kid k claims where
    "token_to_string (dp_crypto D) (dp_json D)
       \<lparr>jt_headers = headers_create_new (dp_env D) kid, jt_claims = claims, jt_key = k\<rparr> = Inr token"
    "tc_iss claims = host" "tc_sub claims = sub" "tc_aud claims = aud" "tc_extra claims = extra"
    "tc_jti claims = w_uuid w (w_uuid_tick w)"
    "w_uuid w' = w_uuid w" "w_uuid_tick w' = Suc (w_uuid_tick w)" "w_metrics w' = w_metrics w"
proof -
  obtain jwk :: jwk_data and k m claims where
    c: "claims_create_new D host sub aud ttl extra (w\<lparr>w_keys := m\<rparr>) = (Ok claims, w')" and
    t: "token_to_string (dp_crypto D) (dp_json D)
       \<lparr>jt_headers = headers_create_new (dp_env D) (jd_kid jwk), jt_claims = claims, jt_key = k\<rparr> = Inr token"
    by (rule generate_token_Ok [OF assms]) (rule that; assumption)
  show ?thesis
    by (rule that [OF t]) (use create_new_Ok [OF c] in \<open>auto simp: issued_with_def new_claims_def uuid_next_def\<close>)
qed

lemma register_draws:
  "register_access_in_family D access family w = (Ok u, w') \<Longrightarrow>
     w_uuid w' = w_uuid w \<and> w_uuid_tick w' = w_uuid_tick w \<and> w_metrics w' = w_metrics w"
  by (auto simp: register_access_in_family_def step_Ok store_call_Ok split: list.splits)

lemma issue_refresh_draws:
  "issue_refresh D subject audience family w = (Ok r, w') \<Longrightarrow>
     r = w_uuid w (w_uuid_tick w) \<and> w_uuid w' = w_uuid w \<and> w_uuid_tick w' = Suc (w_uuid_tick w) \<and> w_metrics w' = w_metrics w"
  by (auto simp: issue_refresh_def step_Ok store_call_Ok Let_def uuid_next_def uuid_tick_def utc_tick_def)


section \<open>Readiness\<close>

text \<open>
  The readiness probe tells what can be served: ready exactly when the store answers and keys can be
  had, from the key service or, when it does not answer, from a servable snapshot; the second case is
  reported as degraded and with status 200.
\<close>

theorem readyz_truth:
  assumes "js_ping (dp_store D) (w_store w) = (p, s)" and "check_jwks (dp_server D) (w_keys w) = (k, m)"
    and "has_servable_jwks_snapshot m = (snapshot, m')"
  shows "fst (readyz D w) =
     (let store_ok = (\<exists>u. p = Inr u); live = (\<exists>u. k = Inr u); stale = (\<not> live \<and> snapshot);
          ready = (store_ok \<and> (live \<or> snapshot)) in
      respond (if ready then 200 else 503)
       (ReadinessBody \<lparr>rd_status = (if \<not> ready then ''unavailable'' else if stale then ''degraded'' else ''ok''),
          rd_redis = store_ok, rd_jwks = (live \<or> snapshot), rd_jwks_stale = stale\<rparr>))"
  using assms
  by (cases p; cases k) (simp_all add: readyz_def readiness_status_def Let_def)
section \<open>Panics\<close>

lemma and_then_Panic:
  "and_then m f w = (Panic, w') \<longleftrightarrow>
     m w = (Panic, w') \<or> (\<exists>a w1. m w = (Ok a, w1) \<and> f a w1 = (Panic, w'))"
  by (auto simp: and_then_def split: prod.splits outcome.splits)

lemmas after_pure = and_then_Panic [where m = "pure_step x" for x]

lemma calls_not_Panic [simp]:
  "pure_step x w \<noteq> (Panic, w')" "store_call f w \<noteq> (Panic, w')" "key_call e g w \<noteq> (Panic, w')"
  "fail e w \<noteq> (Panic, w')"
  by (auto simp: pure_step_def store_call_def key_call_def fail_def split: sum.splits prod.splits)

lemma token_from_string_not_Panic: "token_from_string D token issuer audience w \<noteq> (Panic, w')"
  by (auto simp: token_from_string_def and_then_Panic split: list.splits prod.splits bool.splits if_splits)

text \<open>
  C34. Verification gives nothing away: for a request with a readable host the answer is 200 with the
  claims exactly when the host is allowed and the token passes the full check for that host and the
  audience the request names; in every other case (a foreign host, a broken, forged, expired, revoked or
  unknown token, an unreachable store or key service) it is one and the same 401.
\<close>

theorem verify_single_refusal:
  assumes "host_header hs = Inr host"
  shows "into_response (fst (verify_token_handler D req hs w)) =
     Ok (if is_allowed (dp_env D) host
         then (case fst (token_from_string D (tv_token req) host (tv_audience req) w) of
                 Ok jwt \<Rightarrow> respond 200 (ClaimsBody (jt_claims jwt))
               | _ \<Rightarrow> respond 401 (ErrorBody (error_response_new ''Invalid or expired token'')))
         else respond 401 (ErrorBody (error_response_new ''Invalid or expired token'')))"
proof (cases "is_allowed (dp_env D) host")
  case False
  then show ?thesis using assms by (simp add: verify_token_handler_def into_response_def invalid_token_def)
next
  case True
  obtain r w1 where t: "token_from_string D (tv_token req) host (tv_audience req) w = (r, w1)" by fastforce
  then have "r \<noteq> Panic" using token_from_string_not_Panic by fastforce
  then show ?thesis
    using assms True t
    by (cases r) (simp_all add: verify_token_handler_def verify_token_def into_response_def invalid_token_def)
qed

text \<open>The one place where a request can panic: the addition of the lifetime to the clock.\<close>

definition chrono_overflow :: "('b, 'g, 'p, 'k, 'v, 'n, 's) deps \<Rightarrow> u64 option \<Rightarrow> ('n, 's) world \<Rightarrow> bool" where
  "chrono_overflow D ttl w \<longleftrightarrow>
     (\<exists>secs. expiration_seconds (dp_env D) ttl = Inr secs \<and> dp_plus D (utc_now w) (as_i64 secs) = None)"

lemma create_new_Panic:
  assumes P: "claims_create_new D issuer subject audience ttl extra w = (Panic, w')"
  shows "chrono_overflow D ttl w"
proof (rule ccontr)
  assume n: "\<not> chrono_overflow D ttl w"
  obtain secs where s: "expiration_seconds (dp_env D) ttl = Inr secs"
    using P by (auto simp: claims_create_new_def and_then_Panic pure_step_Ok)
  then obtain expiry where e: "dp_plus D (utc_now w) (as_i64 secs) = Some expiry"
    using n by (auto simp: chrono_overflow_def)
  have tail: "(case claims_is_verify S c issuer a w3 of
      (True, w4) \<Rightarrow> (Ok c, w4) | (False, w4) \<Rightarrow> (Err StoreError, w4)) \<noteq> (Panic, v')" for S c a w3 v'
    by (auto split: prod.splits bool.splits)
  obtain first_audience rest where a: "audience = first_audience # rest"
    using P s by (cases audience) (auto simp: claims_create_new_def after_pure pure_step_Ok fail_def)
  show False
    using P s e unfolding a
    by (simp add: claims_create_new_def after_pure pure_step_Ok Let_def) (simp add: and_then_Panic tail)
qed

lemma generate_token_Panic:
  assumes "generate_token D issuer subject audience ttl extra w = (Panic, w')"
  shows "chrono_overflow D ttl w"
proof -
  obtain p w1 where k: "key_call KeyError (get_private_key (dp_crypto D) (dp_server D)) w = (Ok p, w1)"
    and c: "claims_create_new D issuer subject audience ttl extra w1 = (Panic, w')"
    using assms by (auto simp: generate_token_def and_then_Panic split: prod.splits)
  obtain m where "w1 = w\<lparr>w_keys := m\<rparr>"
    using k by (auto simp: key_call_Ok)
  then show ?thesis using create_new_Panic [OF c] by (simp add: chrono_overflow_def utc_now_def)
qed

lemma register_not_Panic: "register_access_in_family D access family w \<noteq> (Panic, w')"
  by (auto simp: register_access_in_family_def and_then_Panic split: list.splits)

lemma issue_refresh_not_Panic: "issue_refresh D subject audience family w \<noteq> (Panic, w')"
  by (auto simp: issue_refresh_def and_then_Panic Let_def)

lemma issue_for_Panic: "issue_for D host req w = (Panic, w') \<Longrightarrow> chrono_overflow D (tr_ttl req) w"
proof (cases "tr_refresh req")
  case True
  assume "issue_for D host req w = (Panic, w')"
  then have "generate_token D host (tr_sub req) (tr_aud req) (tr_ttl req) (tr_claims req) (uuid_tick w) = (Panic, w')"
    using True
    by (auto simp: issue_for_def and_then_Panic generate_token_pair_def Let_def register_not_Panic
        issue_refresh_not_Panic split: prod.splits)
  then show ?thesis
    using generate_token_Panic by (fastforce simp: chrono_overflow_def utc_now_def uuid_tick_def)
next
  case False
  assume "issue_for D host req w = (Panic, w')"
  then show ?thesis using False generate_token_Panic
    by (auto simp: issue_for_def and_then_Panic)
qed

lemma refresh_pair_Panic:
  assumes P: "refresh_token_pair D i issuer w = (Panic, w')"
  shows "chrono_overflow D None w"
proof -
  obtain found w1 where f: "store_call (js_get_refresh (dp_store D) i) w = (Ok found, w1)"
    using P by (auto simp: refresh_token_pair_def and_then_Panic)
  then obtain rec where r: "found = Some rec"
    using P by (cases found) (auto simp: refresh_token_pair_def and_then_Panic)
  obtain b w2 where m: "store_call (js_mark_refresh_used (dp_store D) i) w1 = (Ok b, w2)"
    using P f r by (auto simp: refresh_token_pair_def and_then_Panic)
  have "generate_token D issuer (rr_subject rec) (rr_audience rec) None [] w2 = (Panic, w')"
    using P f r m
    by (cases b) (auto simp: refresh_token_pair_def and_then_Panic register_not_Panic issue_refresh_not_Panic)
  moreover have "utc_now w2 = utc_now w" using f m by (auto simp: store_call_Ok utc_now_def)
  ultimately show ?thesis using generate_token_Panic by (fastforce simp: chrono_overflow_def)
qed

lemma verify_not_Panic: "fst (verify_token_handler D vreq hs w) \<noteq> Panic"
  by (auto simp: verify_token_handler_def verify_token_def token_from_string_not_Panic
      split: sum.splits prod.splits outcome.splits)

lemma revoke_not_Panic:
  "fst (revoke_token D jti w) \<noteq> Panic" "fst (revoke_subject_tokens D sub w) \<noteq> Panic"
  by (auto simp: revoke_token_def revoke_subject_tokens_def split: sum.splits prod.splits)

lemma create_not_Panic: "\<not> chrono_overflow D (tr_ttl req) w \<Longrightarrow> fst (create_token D req hs w) \<noteq> Panic"
  using issue_for_Panic by (fastforce simp: create_token_def split: sum.splits prod.splits outcome.splits)

lemma refresh_not_Panic: "\<not> chrono_overflow D None w \<Longrightarrow> fst (refresh_token_handler D rreq hs w) \<noteq> Panic"
  using refresh_pair_Panic
  by (fastforce simp: refresh_token_handler_def split: sum.splits prod.splits outcome.splits)

text \<open>
  Requests end: verification, revocation and the probes always produce an answer, whatever the
  input, the store and the key service do; issuing and exchange do too, except where the configured
  lifetime added to the clock is beyond what the calendar can represent.
\<close>

theorem requests_answered:
  "fst (verify_token_handler D vreq hs w) \<noteq> Panic \<and>
   fst (revoke_token D jti w) \<noteq> Panic \<and> fst (revoke_subject_tokens D sub w) \<noteq> Panic \<and>
   (\<not> chrono_overflow D (tr_ttl req) w \<longrightarrow> fst (create_token D req hs w) \<noteq> Panic) \<and>
   (\<not> chrono_overflow D None w \<longrightarrow> fst (refresh_token_handler D rreq hs w) \<noteq> Panic)"
  by (intro conjI impI verify_not_Panic revoke_not_Panic create_not_Panic refresh_not_Panic)

section \<open>Witnesses\<close>

definition demo_host :: headers where
  "demo_host = [(''host'', \<lparr>hv_bytes = ''iss'', hv_text = Some ''iss''\<rparr>)]"

lemma demo_host_header: "host_header demo_host = Inr ''iss''"
proof -
  have "to_ascii_lowercase ''Host'' = ''host''"
    by (simp add: to_ascii_lowercase_def ascii_lower_def byte_of_def char_of_def bit_iff_odd)
  then show ?thesis by (simp add: host_header_def header_get_def demo_host_def)
qed

text \<open>A token that is no token, in the world of an issued one.\<close>

lemma verify_single_refusal_witness:
  "into_response (fst (verify_token_handler demo_deps \<lparr>tv_token = ''junk'', tv_audience = ''app''\<rparr> demo_host demo_issued))
     = Ok (respond 401 (ErrorBody (error_response_new ''Invalid or expired token''))) \<and>
   into_response (fst (verify_token_handler demo_deps \<lparr>tv_token = demo_token, tv_audience = ''app''\<rparr> demo_host demo_issued))
     = Ok (respond 200 (ClaimsBody demo_claims))"
proof -
  have broken: "token_from_string demo_deps ''junk'' ''iss'' ''app'' demo_issued = (Err Broken, demo_issued)"
    by (simp add: token_from_string_def fail_def)
  obtain w' where good: "token_from_string demo_deps demo_token ''iss'' ''app'' demo_issued = (Ok demo_jwt, w')"
    using demo_verified by blast
  have host: "is_allowed (dp_env demo_deps) ''iss''"
    by (simp add: is_allowed_def demo_deps_def allowed_by_iff)
  show ?thesis
    using verify_single_refusal [OF demo_host_header, where D = demo_deps and w = demo_issued] broken good host
    by (simp add: demo_jwt_def)
qed

lemma demo_delete: "js_delete_jti (dp_store demo_deps) ''u0'' (w_store demo_issued) = (Inr (), w_store demo_deleted)"
  by (simp add: demo_deleted_def prod_eq_iff redis_delete_jti_def with_connection_def redis_jti_store_def
      redis_connection_def finish_def issue_def keyspace_redis_def ks_exec_def k_del_def demo_issued_fields
      demo_deps_def)

lemma revoke_token_honest_witness:
  "into_response (fst (revoke_token demo_deps ''u0'' demo_issued)) = Ok (respond 204 NoBody)"
  using revoke_token_honest [OF prod.collapse [symmetric] demo_delete] by simp

lemma revoke_subject_honest_witness:
  "\<exists>n. into_response (fst (revoke_subject_tokens demo_deps ''alice'' demo_issued))
     = Ok (respond 200 (RevokedBody \<lparr>rg_revoked = n\<rparr>))"
proof -
  have r: "js_revoke_group (dp_store demo_deps) (subject_group ''alice'') (w_store demo_issued) = (Inr 1, w_store demo_killed)"
    by (simp add: demo_killed_def prod_eq_iff redis_revoke_group_def with_connection_def redis_utc_now_def
        redis_connection_def finish_def issue_def keyspace_redis_def ks_exec_def demo_issued_fields
        k_zrem_def k_zrange_def k_del_def live_def alive_def rc_clock_def subject_group_def
        demo_deps_def redis_jti_store_def)
  show ?thesis using revoke_subject_honest [OF prod.collapse [symmetric] r] by auto
qed

lemma revoked_token_not_verified_witness:
  "fst (verify_token_handler demo_deps \<lparr>tv_token = demo_token, tv_audience = ''app''\<rparr> demo_host
      (snd (revoke_token demo_deps ''u0'' demo_issued :: (unit, nat, keyspace redis_client) handler_result)))
     \<noteq> Ok (respond 200 (ClaimsBody demo_claims))"
proof
  let ?w1 = "snd (revoke_token demo_deps ''u0'' demo_issued :: (unit, nat, keyspace redis_client) handler_result)"
  let ?q = "\<lparr>tv_token = demo_token, tv_audience = ''app''\<rparr>"
  assume "fst (verify_token_handler demo_deps ?q demo_host ?w1) = Ok (respond 200 (ClaimsBody demo_claims))"
  then obtain w3 where v: "verify_token_handler demo_deps ?q demo_host ?w1 = (Ok (respond 200 (ClaimsBody demo_claims)), w3)"
    by (metis prod.collapse)
  have d: "revoke_token demo_deps ''u0'' demo_issued =
      (Ok (respond 204 NoBody :: unit response), record_metric TokenRevoked (demo_issued\<lparr>w_store := w_store demo_deleted\<rparr>))"
    by (simp add: revoke_token_def demo_delete)
  have "\<exists>claims. respond 200 (ClaimsBody demo_claims) = respond 200 (ClaimsBody claims) \<and> tc_jti claims \<noteq> ''u0''"
    by (rule revoked_token_not_verified [OF ks.redis_server_axioms _ _ d _ _ v, where xs = "[]"])
      (simp add: demo_deps_def, simp add: demo_issued_fields mono_def, simp, simp add: d)
  then show False by (simp add: demo_claims_fields)
qed

definition demo_ask :: "unit token_request" where
  "demo_ask = \<lparr>tr_sub = ''alice'', tr_aud = [''app''], tr_ttl = None, tr_refresh = False, tr_claims = []\<rparr>"


lemma requests_answered_witness:
  "fst (create_token demo_deps demo_ask demo_host demo_issued) \<noteq> Panic \<and>
   fst (revoke_token demo_deps ''j'' demo_issued :: (app_error, unit response) outcome \<times> (nat, keyspace redis_client) world) \<noteq> Panic"
proof -
  have "\<not> chrono_overflow demo_deps (tr_ttl demo_ask) demo_issued"
    by (simp add: chrono_overflow_def demo_issued_fields demo_ask_def expiration_seconds_def demo_deps_def
        env_or_def parse_u64_def parse_unsigned_def parse_dec_def strip_plus_def is_digit_def digit_val_def
        byte_of_def as_i64_def)
  then show ?thesis
    using requests_answered [of demo_deps "\<lparr>tv_token = ''t'', tv_audience = ''app''\<rparr>" demo_host demo_issued "''j''" "''s''"
        demo_ask "\<lparr>rq_refresh_token = ''r''\<rparr>"] by blast
qed

lemma readyz_truth_witness:
  "rs_status (fst (readyz demo_deps demo_issued) :: unit response) \<in> {200, 503}"
proof -
  obtain p s k m b m' where "js_ping (dp_store demo_deps) (w_store demo_issued) = (p, s)"
    "check_jwks (dp_server demo_deps) (w_keys demo_issued) = (k, m)"
    "has_servable_jwks_snapshot m = (b, m')" by (metis prod.exhaust)
  from readyz_truth [OF this] show ?thesis by (simp add: Let_def)
qed

end
