(* ===== verification/Request_Log.thy ===== *)
theory Request_Log
  imports Http
begin

text \<open>
  The per-request logging middleware (\<open>src/logging.rs\<close>): the request identifier it takes over or
  creates, the metric of a completed request and the identifier echoed to the client. The span, its
  fields and the log lines are left out; \<open>pattern\<close> is actix's \<open>match_pattern\<close>, the template of the
  resource the path belongs to.
\<close>

definition REQUEST_ID_HEADER :: string where
  "REQUEST_ID_HEADER = ''x-request-id''"

definition REQUEST_ID_MAX_LEN :: nat where
  "REQUEST_ID_MAX_LEN = 128"

definition is_ascii_alphanumeric :: "char \<Rightarrow> bool" where
  "is_ascii_alphanumeric c \<longleftrightarrow>
     (let b = byte_of c in (48 \<le> b \<and> b \<le> 57) \<or> (65 \<le> b \<and> b \<le> 90) \<or> (97 \<le> b \<and> b \<le> 122))"

definition is_valid_request_id :: "string \<Rightarrow> bool" where
  "is_valid_request_id s \<longleftrightarrow>
     s \<noteq> [] \<and> length s \<le> REQUEST_ID_MAX_LEN \<and>
     list_all (\<lambda>b. is_ascii_alphanumeric b \<or> b = CHR ''-'' \<or> b = CHR ''_'') s"

text \<open>\<open>HeaderValue::from_str\<close> takes visible ASCII, the space, the tab and bytes from 128 on.\<close>

definition header_value_from_str :: "string \<Rightarrow> string option" where
  "header_value_from_str s =
     (if list_all (\<lambda>c. (32 \<le> byte_of c \<and> byte_of c \<noteq> 127) \<or> byte_of c = 9) s then Some s else None)"

definition insert_header :: "string \<Rightarrow> string \<Rightarrow> 'v response \<Rightarrow> 'v response" where
  "insert_header name value resp =
     resp\<lparr>rs_headers := filter (\<lambda>h. fst h \<noteq> name) (rs_headers resp) @ [(name, value)]\<rparr>"

definition incoming_request_id :: "headers \<Rightarrow> string option" where
  "incoming_request_id hs =
     (case header_get hs REQUEST_ID_HEADER of
        None \<Rightarrow> None
      | Some v \<Rightarrow>
          (case hv_text v of
             None \<Rightarrow> None
           | Some s \<Rightarrow> if is_valid_request_id s then Some s else None))"

definition echo_request_id :: "string \<Rightarrow> 'v response \<Rightarrow> 'v response" where
  "echo_request_id i resp =
     (case header_value_from_str i of Some value \<Rightarrow> insert_header REQUEST_ID_HEADER value resp | None \<Rightarrow> resp)"

definition request_log_call ::
  "(request \<Rightarrow> string option) \<Rightarrow> ('v, ('n, 's, 'g) app_world) service \<Rightarrow> ('v, ('n, 's, 'g) app_world) service" where
  "request_log_call pattern inner r a =
     (let (request_id, a1) =
          (case incoming_request_id (rq_headers r) of
             Some s \<Rightarrow> (s, a)
           | None \<Rightarrow> (uuid_next (aw_world a), a\<lparr>aw_world := uuid_tick (aw_world a)\<rparr>)) in
      case inner r a1 of
        (Ok res, a2) \<Rightarrow>
          (let endpoint = (case pattern r of Some p \<Rightarrow> p | None \<Rightarrow> ''unmatched'') in
           (Ok (echo_request_id request_id res),
            record_app_metric (HttpRequest (rq_method r) endpoint (rs_status res)) a2))
      | (x, a2) \<Rightarrow> (x, a2))"

section \<open>Correctness\<close>

text \<open>
  Nothing of the client's making reaches the log under its own identifier, and every answered
  request can be traced: the identifier of a request is one to 128 letters, digits, dashes or
  underscores whatever the client sent, as long as the generated ones are; a valid one is kept; and
  the answer carries exactly that identifier, once, with the status and body unchanged and one
  request counted under the template of its route.
\<close>

theorem request_id_echoed:
  assumes "request_log_call pattern inner r a = (Ok resp, a')"
    and "is_valid_request_id (uuid_next (aw_world a))"
  shows "\<exists>i res a1 a2. is_valid_request_id i \<and>
     (incoming_request_id (rq_headers r) = None \<longrightarrow> i = uuid_next (aw_world a)) \<and>
     (\<forall>s. incoming_request_id (rq_headers r) = Some s \<longrightarrow> i = s) \<and>
     inner r a1 = (Ok res, a2) \<and> rs_status resp = rs_status res \<and> rs_body resp = rs_body res \<and>
     filter (\<lambda>h. fst h = REQUEST_ID_HEADER) (rs_headers resp) = [(REQUEST_ID_HEADER, i)] \<and>
     w_metrics (aw_world a') =
       w_metrics (aw_world a2) @ [HttpRequest (rq_method r)
         (case pattern r of Some p \<Rightarrow> p | None \<Rightarrow> ''unmatched'') (rs_status res)]"
proof -
  define i where "i = (case incoming_request_id (rq_headers r) of Some s \<Rightarrow> s | None \<Rightarrow> uuid_next (aw_world a))"
  define a1 where "a1 = (case incoming_request_id (rq_headers r) of
      Some s \<Rightarrow> a | None \<Rightarrow> a\<lparr>aw_world := uuid_tick (aw_world a)\<rparr>)"
  have valid: "is_valid_request_id i"
    using assms(2) by (auto simp: i_def incoming_request_id_def split: option.splits)
  have plain: "list_all (\<lambda>c. (32 \<le> byte_of c \<and> byte_of c \<noteq> 127) \<or> byte_of c = 9) i"
  proof -
    have "32 \<le> byte_of c \<and> byte_of c \<noteq> 127"
      if "is_ascii_alphanumeric c \<or> c = CHR ''-'' \<or> c = CHR ''_''" for c
      using that by (auto simp: is_ascii_alphanumeric_def Let_def byte_of_def)
    then show ?thesis using valid by (simp add: is_valid_request_id_def list_all_iff)
  qed
  obtain res a2 where inner: "inner r a1 = (Ok res, a2)"
    and resp: "resp = echo_request_id i res"
    and a': "a' = record_app_metric (HttpRequest (rq_method r)
         (case pattern r of Some p \<Rightarrow> p | None \<Rightarrow> ''unmatched'') (rs_status res)) a2"
    using assms(1)
    by (cases "incoming_request_id (rq_headers r)")
      (auto simp: request_log_call_def i_def a1_def Let_def split: prod.splits outcome.splits)
  have e: "resp = insert_header REQUEST_ID_HEADER i res"
    using plain by (simp add: resp echo_request_id_def header_value_from_str_def)
  have "filter (\<lambda>h. fst h = REQUEST_ID_HEADER) (rs_headers resp) = [(REQUEST_ID_HEADER, i)]"
    by (simp add: e insert_header_def)
  moreover have "rs_status resp = rs_status res" "rs_body resp = rs_body res"
    by (simp_all add: e insert_header_def)
  moreover have "(incoming_request_id (rq_headers r) = None \<longrightarrow> i = uuid_next (aw_world a)) \<and>
     (\<forall>s. incoming_request_id (rq_headers r) = Some s \<longrightarrow> i = s)" by (simp add: i_def)
  ultimately show ?thesis using valid inner a'
    by (intro exI [of _ i] exI [of _ res] exI [of _ a1] exI [of _ a2]) simp
qed
section \<open>Witness\<close>

text \<open>A request that sends a line break as its identifier is answered under a generated one.\<close>

definition demo_logged :: "(unit, unit, unit) app_world" where
  "demo_logged = \<lparr>aw_world = \<lparr>w_store = (), w_keys = undefined, w_utc = \<lambda>_. 0, w_utc_tick = 0,
     w_uuid = \<lambda>_. ''u-1'', w_uuid_tick = 0, w_metrics = []\<rparr>, aw_limits = ()\<rparr>"

definition demo_injection :: request where
  "demo_injection = \<lparr>rq_method = ''GET'', rq_path = ''/livez'',
     rq_headers = [(''x-request-id'', \<lparr>hv_bytes = [char_of (10 :: nat)], hv_text = Some [char_of (10 :: nat)]\<rparr>)],
     rq_peer = None, rq_body = []\<rparr>"

lemma request_id_echoed_witness:
  "\<exists>resp a'. request_log_call (\<lambda>_. Some ''/livez'') (\<lambda>r a. (Ok (respond 200 NoBody), a)) demo_injection demo_logged
       = (Ok (resp :: unit response), a') \<and>
     filter (\<lambda>h. fst h = REQUEST_ID_HEADER) (rs_headers resp) = [(REQUEST_ID_HEADER, ''u-1'')]"
proof -
  have u: "uuid_next (aw_world demo_logged) = ''u-1''" by (simp add: uuid_next_def demo_logged_def)
  have v: "is_valid_request_id (uuid_next (aw_world demo_logged))"
    by (simp add: u is_valid_request_id_def REQUEST_ID_MAX_LEN_def is_ascii_alphanumeric_def byte_of_def)
  have i: "incoming_request_id (rq_headers demo_injection) = None"
    by (simp add: incoming_request_id_def demo_injection_def header_get_def REQUEST_ID_HEADER_def
        to_ascii_lowercase_def ascii_lower_def is_valid_request_id_def is_ascii_alphanumeric_def byte_of_def
        char_of_def bit_iff_odd)
  obtain resp a' where r: "request_log_call (\<lambda>_. Some ''/livez'') (\<lambda>r a. (Ok (respond 200 NoBody), a))
      demo_injection demo_logged = (Ok (resp :: unit response), a')"
    by (simp add: request_log_call_def i Let_def)
  from request_id_echoed [OF this v] i u r show ?thesis by auto
qed

end
