(* ===== verification/Server_Config.thy ===== *)
theory Server_Config
  imports Prelude
begin

text \<open>
  The parameters of the HTTP server (\<open>src/server.rs\<close>): the timeouts and the number of workers, from
  the environment and the CPU quota of the control group. Files are read by a parameter (\<open>None\<close> when
  unreadable). A quota in cores is an \<open>f64\<close> quotient in the source; it is kept here as the pair it is
  computed from, and its rounding up, \<open>(quota as f64 / period as f64).ceil() as usize\<close>, is the
  parameter \<open>f64_ceil\<close>.
\<close>

definition DEFAULT_MAX_WORKERS :: u64 where
  "DEFAULT_MAX_WORKERS = 4"

definition DEFAULT_CLIENT_REQUEST_TIMEOUT_MS :: u64 where
  "DEFAULT_CLIENT_REQUEST_TIMEOUT_MS = 5000"

definition DEFAULT_KEEP_ALIVE_SECONDS :: u64 where
  "DEFAULT_KEEP_ALIVE_SECONDS = 5"

definition DEFAULT_SHUTDOWN_TIMEOUT_SECONDS :: u64 where
  "DEFAULT_SHUTDOWN_TIMEOUT_SECONDS = 25"

datatype workers_source = Explicit | Quota | Fallback

record server_config =
  sc_workers :: u64
  sc_client_request_timeout_ms :: u64
  sc_keep_alive_secs :: u64
  sc_shutdown_timeout_secs :: u64
  sc_source :: workers_source

definition server_parse_u64 :: "string option \<Rightarrow> u64 \<Rightarrow> u64" where
  "server_parse_u64 value dflt =
     (case value of
        None \<Rightarrow> dflt
      | Some v \<Rightarrow>
          (let raw = trim v in
           if raw = [] then dflt else (case parse_u64 raw of Some n \<Rightarrow> n | None \<Rightarrow> dflt)))"

definition parse_workers :: "string option \<Rightarrow> u64 option" where
  "parse_workers value =
     (case value of
        None \<Rightarrow> None
      | Some v \<Rightarrow>
          (let raw = trim v in
           if raw = [] \<or> eq_ignore_ascii_case raw ''auto'' then None
           else (case parse_u64 raw of
                   Some n \<Rightarrow> if n = 0 then None else Some n
                 | None \<Rightarrow> None)))"

text \<open>A quota is positive where there is one (\<open>parse_cfs_quota\<close>), so \<open>cores > 0.0\<close> holds.\<close>

definition auto_workers :: "(int \<times> int \<Rightarrow> u64) \<Rightarrow> (int \<times> int) option \<Rightarrow> u64 \<Rightarrow> u64 \<times> workers_source" where
  "auto_workers f64_ceil quota parallelism =
     (let p = max parallelism 1 in
      case quota of
        Some cores \<Rightarrow> (min p (max 1 (f64_ceil cores)), Quota)
      | None \<Rightarrow> (min p DEFAULT_MAX_WORKERS, Fallback))"

definition parse_cfs_quota :: "string \<Rightarrow> string \<Rightarrow> (int \<times> int) option" where
  "parse_cfs_quota quota period =
     (case parse_i64 (trim quota) of
        None \<Rightarrow> None
      | Some q \<Rightarrow>
          (case parse_i64 (trim period) of
             None \<Rightarrow> None
           | Some p \<Rightarrow> if q \<le> 0 \<or> p \<le> 0 then None else Some (q, p)))"

text \<open>\<open>str::split_whitespace\<close>.\<close>

fun words_from :: "string list \<Rightarrow> string \<Rightarrow> string list" where
  "words_from [] acc = (if acc = [] then [] else [acc])"
| "words_from (ch # chs) acc =
     (if is_whitespace ch then (if acc = [] then words_from chs [] else acc # words_from chs [])
      else words_from chs (acc @ ch))"

definition split_whitespace :: "string \<Rightarrow> string list" where
  "split_whitespace s = words_from (split_chars s) []"

definition parse_cpu_max :: "string \<Rightarrow> (int \<times> int) option" where
  "parse_cpu_max content =
     (case split_whitespace content of
        [] \<Rightarrow> None
      | quota # rest \<Rightarrow>
          if quota = ''max'' then None
          else (case rest of [] \<Rightarrow> None | period # _ \<Rightarrow> parse_cfs_quota quota period))"

definition CGROUP_V2_CPU_MAX :: string where
  "CGROUP_V2_CPU_MAX = ''/sys/fs/cgroup/cpu.max''"

definition CGROUP_V1_CPU_QUOTA :: string where
  "CGROUP_V1_CPU_QUOTA = ''/sys/fs/cgroup/cpu/cpu.cfs_quota_us''"

definition CGROUP_V1_CPU_PERIOD :: string where
  "CGROUP_V1_CPU_PERIOD = ''/sys/fs/cgroup/cpu/cpu.cfs_period_us''"

definition cpu_quota :: "(string \<Rightarrow> string option) \<Rightarrow> (int \<times> int) option" where
  "cpu_quota files =
     (case (case files CGROUP_V2_CPU_MAX of None \<Rightarrow> None | Some s \<Rightarrow> parse_cpu_max s) of
        Some cores \<Rightarrow> Some cores
      | None \<Rightarrow>
          (case files CGROUP_V1_CPU_QUOTA of
             None \<Rightarrow> None
           | Some quota \<Rightarrow>
               (case files CGROUP_V1_CPU_PERIOD of
                  None \<Rightarrow> None
                | Some period \<Rightarrow> parse_cfs_quota quota period)))"

text \<open>\<open>std::thread::available_parallelism\<close>, with one where it fails.\<close>

definition available_parallelism :: "u64 option \<Rightarrow> u64" where
  "available_parallelism cores = (case cores of Some n \<Rightarrow> n | None \<Rightarrow> 1)"

definition server_config_from_env ::
  "(int \<times> int \<Rightarrow> u64) \<Rightarrow> (string \<Rightarrow> string option) \<Rightarrow> u64 option \<Rightarrow> env \<Rightarrow> server_config" where
  "server_config_from_env f64_ceil files cores e =
     (let (workers, source) =
          (case parse_workers (e ''SERVER_WORKERS'') of
             Some n \<Rightarrow> (n, Explicit)
           | None \<Rightarrow> auto_workers f64_ceil (cpu_quota files) (available_parallelism cores)) in
      \<lparr>sc_workers = workers,
       sc_client_request_timeout_ms =
         server_parse_u64 (e ''SERVER_CLIENT_REQUEST_TIMEOUT_MS'') DEFAULT_CLIENT_REQUEST_TIMEOUT_MS,
       sc_keep_alive_secs = server_parse_u64 (e ''SERVER_KEEP_ALIVE_SECONDS'') DEFAULT_KEEP_ALIVE_SECONDS,
       sc_shutdown_timeout_secs =
         server_parse_u64 (e ''SERVER_SHUTDOWN_TIMEOUT_SECONDS'') DEFAULT_SHUTDOWN_TIMEOUT_SECONDS,
       sc_source = source\<rparr>)"

text \<open>The words of \<open>log_summary\<close>.\<close>

definition source_text :: "workers_source \<Rightarrow> string" where
  "source_text s =
     (case s of
        Explicit \<Rightarrow> ''set by SERVER_WORKERS''
      | Quota \<Rightarrow> ''from the cgroup CPU quota''
      | Fallback \<Rightarrow> ''no CPU quota found, default ceiling'')"

section \<open>Correctness\<close>

lemma parse_cfs_quota_pos: "parse_cfs_quota q p = Some (a, b) \<Longrightarrow> 0 < a \<and> 0 < b"
  by (auto simp: parse_cfs_quota_def split: option.splits if_splits)

lemma cpu_quota_pos: "cpu_quota files = Some (a, b) \<Longrightarrow> 0 < a \<and> 0 < b"
  by (auto simp: cpu_quota_def parse_cpu_max_def parse_cfs_quota_pos
      split: option.splits list.splits if_splits)

text \<open>
  The server always has workers, and never more than it should: at least one whatever the
  environment and the control group say; and unless \<open>SERVER_WORKERS\<close> names a number, no more than the
  cores the process sees and, without a CPU quota, no more than four.
\<close>

theorem workers_bounded:
  "1 \<le> sc_workers (server_config_from_env f64_ceil files cores e) \<and>
   (case parse_workers (e ''SERVER_WORKERS'') of
      Some n \<Rightarrow> sc_workers (server_config_from_env f64_ceil files cores e) = n
    | None \<Rightarrow>
        sc_workers (server_config_from_env f64_ceil files cores e) \<le> max (available_parallelism cores) 1 \<and>
        (cpu_quota files = None \<longrightarrow> sc_workers (server_config_from_env f64_ceil files cores e) \<le> 4))"
proof -
  have one: "1 \<le> n" if "n \<noteq> 0" for n :: u64 using that by (simp add: word_le_nat_alt unat_gt_0 Suc_leI)
  show ?thesis
  proof (cases "parse_workers (e ''SERVER_WORKERS'')")
    case None
    then show ?thesis
      by (cases "cpu_quota files")
        (simp_all add: server_config_from_env_def auto_workers_def Let_def DEFAULT_MAX_WORKERS_def)
  next
    case (Some n)
    then have "n \<noteq> 0" by (auto simp: parse_workers_def Let_def split: option.splits if_splits)
    then show ?thesis using Some one by (simp add: server_config_from_env_def)
  qed
qed
text \<open>A node with 64 cores, no quota and nothing configured.\<close>

lemma workers_bounded_witness:
  "1 \<le> sc_workers (server_config_from_env (\<lambda>_. 1) (\<lambda>_. None) (Some 64) (\<lambda>_. None)) \<and>
   sc_workers (server_config_from_env (\<lambda>_. 1) (\<lambda>_. None) (Some 64) (\<lambda>_. None)) \<le> 4"
proof -
  have "parse_workers ((\<lambda>_. None) ''SERVER_WORKERS'') = None" "cpu_quota (\<lambda>_. None) = None"
    by (simp_all add: parse_workers_def cpu_quota_def)
  then show ?thesis
    using workers_bounded [of "\<lambda>_. 1" "\<lambda>_. None" "Some 64" "\<lambda>_. None"] by simp
qed

end
