(* ===== verification/Middleware.thy ===== *)
theory Middleware
  imports Auth_Correct Rate_Limit_Correct Request_Log
begin

text \<open>
  The contract of a layer, as actix states it for \<open>Transform\<close>: a layer answers a request itself, or
  calls the service it wraps once and may change what comes back. The locale holds the contract
  together with an invariant of the state that the layer keeps up to that call; layers compose, and
  the layers of the service (\<open>logging.rs\<close>, \<open>rate_limit.rs\<close>, \<open>auth.rs\<close>) are shown to be such layers.
\<close>

section \<open>The contract\<close>

definition passes_to ::
  "('w \<Rightarrow> bool) \<Rightarrow> ('v, 'w) service \<Rightarrow> request \<Rightarrow> (unit, 'v response) outcome \<times> 'w \<Rightarrow> bool" where
  "passes_to I inner r y \<longleftrightarrow>
     (\<exists>a f g. I a \<and> y = (case inner r a of (Ok resp, a') \<Rightarrow> (Ok (f resp), g resp a') | (x, a') \<Rightarrow> (x, a')))"

definition answers :: "('w \<Rightarrow> bool) \<Rightarrow> ('v, 'w) service \<Rightarrow> bool" where
  "answers I svc \<longleftrightarrow> (\<forall>r a. I a \<longrightarrow> (\<exists>resp a'. svc r a = (Ok resp, a')))"

locale middleware =
  fixes I :: "'w \<Rightarrow> bool" and layer :: "('v, 'w) service \<Rightarrow> ('v, 'w) service"
  assumes answers_or_passes:
    "I a \<Longrightarrow> (\<exists>resp a'. layer inner r a = (Ok resp, a')) \<or> passes_to I inner r (layer inner r a)"
begin

lemma layer_Ok_or:
  assumes "I a" and "layer inner r a = (x, a')" and "\<nexists>resp. x = Ok resp"
  shows "\<exists>b. I b \<and> inner r b = (x, a')"
proof -
  obtain b f g where b: "I b"
    and l: "layer inner r a = (case inner r b of (Ok resp, a') \<Rightarrow> (Ok (f resp), g resp a') | (x, a') \<Rightarrow> (x, a'))"
    using answers_or_passes [OF assms(1), of inner r] assms(2,3) by (auto simp: passes_to_def)
  have "inner r b = (x, a')"
    using l assms(2,3) by (auto split: prod.splits outcome.splits)
  then show ?thesis using b by blast
qed

text \<open>A layer does not fail by itself.\<close>

lemma answers_layer: "answers I inner \<Longrightarrow> answers I (layer inner)"
  unfolding answers_def
proof (intro allI impI)
  fix r a
  assume i: "\<forall>r a. I a \<longrightarrow> (\<exists>resp a'. inner r a = (Ok resp, a'))" and a: "I a"
  obtain x a' where l: "layer inner r a = (x, a')" by fastforce
  show "\<exists>resp a'. layer inner r a = (Ok resp, a')"
  proof (rule ccontr)
    assume "\<nexists>resp a'. layer inner r a = (Ok resp, a')"
    then have n: "\<nexists>resp. x = Ok resp" using l by simp
    obtain b where b: "I b" "inner r b = (x, a')"
      using layer_Ok_or [OF a l n] by blast
    then have "\<exists>resp a'. inner r b = (Ok resp, a')" using i by blast
    then show False using b(2) n by simp
  qed
qed

end

section \<open>Composition\<close>

locale two_layers = outer: middleware I outer + inner: middleware I inner
  for I :: "'w \<Rightarrow> bool" and outer inner :: "('v, 'w) service \<Rightarrow> ('v, 'w) service"

sublocale two_layers \<subseteq> both: middleware I "\<lambda>svc. outer (inner svc)"
proof
  fix a svc r
  assume a: "I a"
  show "(\<exists>resp a'. outer (inner svc) r a = (Ok resp, a')) \<or> passes_to I svc r (outer (inner svc) r a)"
  proof (cases "\<exists>resp a'. outer (inner svc) r a = (Ok resp, a')")
    case False
    obtain x a' where l: "outer (inner svc) r a = (x, a')" by fastforce
    have n: "\<nexists>resp. x = Ok resp" using False l by simp
    obtain b where b: "I b" "inner svc r b = (x, a')"
      using outer.layer_Ok_or [OF a l n] by blast
    obtain c where c: "I c" "svc r c = (x, a')"
      using inner.layer_Ok_or [OF b n] by blast
    have "passes_to I svc r (outer (inner svc) r a)"
      unfolding passes_to_def
      by (intro exI [of _ c] exI [of _ "\<lambda>x. x"] exI [of _ "\<lambda>_ a. a"]) (use c l n in \<open>auto split: outcome.splits\<close>)
    then show ?thesis by blast
  qed blast
qed

section \<open>The layers of the service\<close>

text \<open>What the layers leave alone is the clock; they only move on in it.\<close>

definition on_clock :: "(nat \<Rightarrow> int) \<Rightarrow> ('n, 's, 'g) app_world \<Rightarrow> bool" where
  "on_clock clk a \<longleftrightarrow> w_utc (aw_world a) = clk"

lemma passes_unchanged: "I a \<Longrightarrow> passes_to I inner r (inner r a)"
  unfolding passes_to_def
  by (intro exI [of _ a] exI [of _ "\<lambda>x. x"] exI [of _ "\<lambda>_ a. a"]) (auto split: prod.splits outcome.splits)

interpretation limiter: middleware "on_clock clk" "rate_limit_call G st" for clk G st
proof
  fix a :: "('a, 'b, 'c) app_world" and inner :: "('d, ('a, 'b, 'c) app_world) service" and r :: request
  assume "on_clock clk a"
  then show "(\<exists>resp a'. rate_limit_call G st inner r a = (Ok resp, a')) \<or>
      passes_to (on_clock clk) inner r (rate_limit_call G st inner r a)"
    by (cases "strategy_check G st r (aw_limits a)")
      (auto simp: rate_limit_call_def on_clock_def split: sum.splits intro!: passes_unchanged)
qed

interpretation log: middleware "on_clock clk" "request_log_call pattern" for clk pattern
proof
  fix a :: "('a, 'b, 'c) app_world" and inner :: "('d, ('a, 'b, 'c) app_world) service" and r :: request
  assume a: "on_clock clk a"
  obtain i a1 where i: "(case incoming_request_id (rq_headers r) of Some s \<Rightarrow> (s, a)
      | None \<Rightarrow> (uuid_next (aw_world a), a\<lparr>aw_world := uuid_tick (aw_world a)\<rparr>)) = (i, a1)" by fastforce
  then have "on_clock clk a1"
    using a by (auto simp: on_clock_def uuid_tick_def split: option.splits)
  moreover have "request_log_call pattern inner r a = (case inner r a1 of
      (Ok res, a2) \<Rightarrow> (Ok (echo_request_id i res), record_app_metric (HttpRequest (rq_method r)
         (case pattern r of Some p \<Rightarrow> p | None \<Rightarrow> ''unmatched'') (rs_status res)) a2)
    | (x, a2) \<Rightarrow> (x, a2))"
    unfolding request_log_call_def i by (simp add: Let_def split: prod.splits outcome.splits)
  ultimately show "(\<exists>resp a'. request_log_call pattern inner r a = (Ok resp, a')) \<or>
      passes_to (on_clock clk) inner r (request_log_call pattern inner r a)"
    unfolding passes_to_def
    by (intro disjI2 exI [of _ a1] exI [of _ "echo_request_id i"]
        exI [of _ "\<lambda>res. record_app_metric (HttpRequest (rq_method r)
          (case pattern r of Some p \<Rightarrow> p | None \<Rightarrow> ''unmatched'') (rs_status res))"] conjI)
qed

text \<open>The access levels are such a layer with a digest that yields tags and a step that is not zero.\<close>

lemma authorize_answers:
  assumes "tag_bytes H" and "tv_step (ac_totp c) \<noteq> 0"
  shows "\<exists>b w'. authorize H c level hs w = (Ok b, w') \<and> w_utc w' = w_utc w"
  using totp_validate_eq [OF assms]
  by (cases level) (auto simp: authorize_def utc_tick_def)

lemma auth_decide_answers:
  assumes "tag_bytes H" and "tv_step (ac_totp c) \<noteq> 0"
  shows "\<exists>b w'. auth_decide H store c level hs w = (Ok b, w') \<and> w_utc w' = w_utc w"
proof -
  obtain b w' where "authorize H c level hs w = (Ok b, w')" "w_utc w' = w_utc w"
    using authorize_answers [OF assms] by blast
  then show ?thesis
    by (auto simp: auth_decide_def replay_check_def split: prod.splits option.splits sum.splits bool.splits)
qed

lemma auth_middleware:
  assumes "tag_bytes H" and "tv_step (ac_totp c) \<noteq> 0"
  shows "middleware (on_clock clk) (auth_call H store c level)"
proof
  fix a :: "('a, 'b, 'c) app_world" and inner :: "('d, ('a, 'b, 'c) app_world) service" and r :: request
  assume a: "on_clock clk a"
  obtain b w' where d: "auth_decide H store c level (rq_headers r) (aw_world a) = (Ok b, w')"
    and w: "w_utc w' = w_utc (aw_world a)" using auth_decide_answers [OF assms] by blast
  show "(\<exists>resp a'. auth_call H store c level inner r a = (Ok resp, a')) \<or>
      passes_to (on_clock clk) inner r (auth_call H store c level inner r a)"
    using d w a by (cases b) (auto simp: auth_call_def on_clock_def intro!: passes_unchanged)
qed

interpretation logged_limiter: two_layers "on_clock clk" "request_log_call pattern" "rate_limit_call G st"
  for clk pattern G st
  by unfold_locales

end
