(* ===== verification/Telemetry.thy ===== *)
theory Telemetry
  imports Complex_Main Prelude
begin

text \<open>
  The switches of the telemetry (\<open>src/tracing_otel.rs\<close>, \<open>src/sentry_glitchtip.rs\<close> and
  \<open>init_subscriber\<close> of \<open>src/logging.rs\<close>): which signal is exported, where to, and what the outcome
  reports. The exporters, providers and clients are foreign crates': \<open>build\<close> gives the error text of a
  builder that fails, and the parser of \<open>f32\<close> is a parameter that gives a finite value or the fact that
  it is not finite. Nothing here can stop the service: every function is total and no outcome is a
  panic.
\<close>

definition telemetry_env_bool :: "env \<Rightarrow> string \<Rightarrow> bool \<Rightarrow> bool" where
  "telemetry_env_bool e key dflt =
     (case e key of
        Some v \<Rightarrow> to_ascii_lowercase (trim v) \<in> {''true'', ''1'', ''yes''}
      | None \<Rightarrow> dflt)"

text \<open>A set variable that is not blank, trimmed.\<close>

definition non_blank :: "string option \<Rightarrow> string option" where
  "non_blank v = (case v of None \<Rightarrow> None | Some s \<Rightarrow> if trim s = [] then None else Some (trim s))"

section \<open>OpenTelemetry\<close>

definition trim_end_slashes :: "string \<Rightarrow> string" where
  "trim_end_slashes s = rev (dropWhile (\<lambda>c. c = CHR ''/'') (rev s))"

definition signal_endpoint :: "string option \<Rightarrow> string option \<Rightarrow> string \<Rightarrow> string option" where
  "signal_endpoint signal base path =
     (case non_blank signal of
        Some s \<Rightarrow> Some s
      | None \<Rightarrow> (case non_blank base of None \<Rightarrow> None | Some b \<Rightarrow> Some (trim_end_slashes b @ path)))"

datatype otel_status =
    OtelDisabled
  | OtelEnabled string string \<comment> \<open>endpoint, service name\<close>
  | OtelFailed string string \<comment> \<open>endpoint, error\<close>

definition init_tracer_provider :: "(string \<Rightarrow> string option) \<Rightarrow> env \<Rightarrow> bool \<times> otel_status" where
  "init_tracer_provider build e =
     (case signal_endpoint (e ''OTEL_EXPORTER_OTLP_TRACES_ENDPOINT'') (e ''OTEL_EXPORTER_OTLP_ENDPOINT'') ''/v1/traces'' of
        None \<Rightarrow> (False, OtelDisabled)
      | Some endpoint \<Rightarrow>
          (case build endpoint of
             Some err \<Rightarrow> (False, OtelFailed endpoint err)
           | None \<Rightarrow> (True, OtelEnabled endpoint (env_or e ''OTEL_SERVICE_NAME'' ''jwt-service-app''))))"

datatype logs_status =
    LogsDisabled
  | LogsNoEndpoint
  | LogsEnabled string
  | LogsFailed string string

definition init_logger_provider :: "(string \<Rightarrow> string option) \<Rightarrow> env \<Rightarrow> bool \<times> logs_status" where
  "init_logger_provider build e =
     (if \<not> telemetry_env_bool e ''OTEL_LOGS_ENABLED'' False then (False, LogsDisabled)
      else (case signal_endpoint (e ''OTEL_EXPORTER_OTLP_LOGS_ENDPOINT'') (e ''OTEL_EXPORTER_OTLP_ENDPOINT'') ''/v1/logs'' of
              None \<Rightarrow> (False, LogsNoEndpoint)
            | Some endpoint \<Rightarrow>
                (case build endpoint of
                   Some err \<Rightarrow> (False, LogsFailed endpoint err)
                 | None \<Rightarrow> (True, LogsEnabled endpoint))))"

section \<open>GlitchTip\<close>

datatype f32 = Finite rat | NotFinite

definition env_f32 :: "(string \<Rightarrow> f32 option) \<Rightarrow> env \<Rightarrow> string \<Rightarrow> rat \<Rightarrow> rat" where
  "env_f32 parse e key dflt =
     (case e key of
        None \<Rightarrow> dflt
      | Some v \<Rightarrow> (case parse (trim v) of Some (Finite x) \<Rightarrow> min 1 (max 0 x) | _ \<Rightarrow> dflt))"

definition read_dsn :: "env \<Rightarrow> string option" where
  "read_dsn e =
     (case non_blank (e ''GLITCHTIP_DSN'') of Some d \<Rightarrow> Some d | None \<Rightarrow> non_blank (e ''SENTRY_DSN''))"

datatype sentry_status = SentryDisabled | SentryEnabled bool bool \<comment> \<open>performance, logs\<close>

definition logs_enabled :: "sentry_status \<Rightarrow> bool" where
  "logs_enabled s = (case s of SentryEnabled _ l \<Rightarrow> l | SentryDisabled \<Rightarrow> False)"

text \<open>The options the client is built with; the sampling strategy is set for a positive rate only.\<close>

record client_options =
  op_dsn :: string
  op_environment :: "string option"
  op_traces_sample_rate :: "rat option"

definition sentry_init :: "(string \<Rightarrow> f32 option) \<Rightarrow> env \<Rightarrow> client_options option \<times> sentry_status" where
  "sentry_init parse e =
     (case read_dsn e of
        None \<Rightarrow> (None, SentryDisabled)
      | Some dsn \<Rightarrow>
          (let rate = env_f32 parse e ''GLITCHTIP_TRACES_SAMPLE_RATE'' 0;
               enable_logs = telemetry_env_bool e ''GLITCHTIP_ENABLE_LOGS'' False in
           (Some \<lparr>op_dsn = dsn, op_environment = e ''GLITCHTIP_ENVIRONMENT'',
                  op_traces_sample_rate = (if 0 < rate then Some rate else None)\<rparr>,
            SentryEnabled (0 < rate) enable_logs)))"

datatype level = TraceLevel | DebugLevel | InfoLevel | WarnLevel | ErrorLevel

text \<open>The channels an event goes to: \<open>EventFilter\<close>'s flags.\<close>

datatype channel = EventChannel | LogChannel | BreadcrumbChannel

definition event_filter :: "bool \<Rightarrow> level \<Rightarrow> channel set" where
  "event_filter logs l =
     (case l of
        ErrorLevel \<Rightarrow> {EventChannel}
      | WarnLevel \<Rightarrow> (if logs then {LogChannel, BreadcrumbChannel} else {BreadcrumbChannel})
      | InfoLevel \<Rightarrow> (if logs then {LogChannel, BreadcrumbChannel} else {BreadcrumbChannel})
      | DebugLevel \<Rightarrow> (if logs then {LogChannel} else {})
      | TraceLevel \<Rightarrow> {})"

section \<open>The subscriber\<close>

text \<open>Which layers \<open>init_subscriber\<close> installs over the registry, and the level filter and format it picks.\<close>

record subscriber =
  su_filter :: string
  su_json :: bool
  su_otel :: bool
  su_otel_logs :: bool
  su_sentry :: "bool option" \<comment> \<open>the layer, with its log channel\<close>

text \<open>
  \<open>to_lowercase\<close> of the format is compared with an ASCII literal no other character folds to, so ASCII
  case suffices. \<open>filter_of\<close> is \<open>EnvFilter::try_from_default_env\<close> on the variable.
\<close>

definition init_subscriber ::
  "(string \<Rightarrow> bool) \<Rightarrow> (string \<Rightarrow> string option) \<Rightarrow> (string \<Rightarrow> string option) \<Rightarrow> (string \<Rightarrow> f32 option) \<Rightarrow> env \<Rightarrow> subscriber" where
  "init_subscriber valid_filter build_traces build_logs parse e =
     (case sentry_init parse e of
        (client, status) \<Rightarrow>
          \<lparr>su_filter = (case e ''RUST_LOG'' of
                         Some f \<Rightarrow> if valid_filter f then f else ''jwt_service_app=info''
                       | None \<Rightarrow> ''jwt_service_app=info''),
           su_json = (to_ascii_lowercase (env_or e ''LOG_FORMAT'' []) = ''json''),
           su_otel = fst (init_tracer_provider build_traces e),
           su_otel_logs = fst (init_logger_provider build_logs e),
           su_sentry = map_option (\<lambda>_. logs_enabled status) client\<rparr>)"

section \<open>Correctness\<close>

lemma trim_end_slashes_last: "trim_end_slashes s = [] \<or> last (trim_end_slashes s) \<noteq> CHR ''/''"
proof (cases "dropWhile (\<lambda>c. c = CHR ''/'') (rev s)")
  case (Cons c r)
  then have "c \<noteq> CHR ''/''" by (metis (mono_tags) dropWhile_eq_Cons_conv)
  then show ?thesis using Cons by (simp add: trim_end_slashes_def)
qed (simp add: trim_end_slashes_def)

text \<open>
  Signals go where the OpenTelemetry rules send them: a signal's own variable wins and is used as it
  is; otherwise the path is appended to the base address, after exactly one slash; and without either
  nothing is exported. Logs additionally need their flag.
\<close>

theorem signal_endpoint_rules:
  "(non_blank signal = Some s \<longrightarrow> signal_endpoint signal base path = Some s) \<and>
   (non_blank signal = None \<longrightarrow> non_blank base = Some b \<longrightarrow>
      (\<exists>h. signal_endpoint signal base (CHR ''/'' # rest) = Some (h @ CHR ''/'' # rest) \<and>
           (h = [] \<or> last h \<noteq> CHR ''/'') \<and> (\<exists>n. b = h @ replicate n (CHR ''/'')))) \<and>
   (non_blank signal = None \<longrightarrow> non_blank base = None \<longrightarrow> signal_endpoint signal base path = None) \<and>
   (fst (init_logger_provider build e) \<longrightarrow> telemetry_env_bool e ''OTEL_LOGS_ENABLED'' False)"
proof (intro conjI impI)
  assume "non_blank signal = None" "non_blank base = Some b"
  moreover have "\<exists>n. b = trim_end_slashes b @ replicate n (CHR ''/'')"
  proof -
    have "takeWhile (\<lambda>c. c = CHR ''/'') (rev b) = replicate (length (takeWhile (\<lambda>c. c = CHR ''/'') (rev b))) (CHR ''/'')"
      by (metis (full_types) replicate_eqI set_takeWhileD)
    then have "rev b = replicate (length (takeWhile (\<lambda>c. c = CHR ''/'') (rev b))) (CHR ''/'') @ dropWhile (\<lambda>c. c = CHR ''/'') (rev b)"
      by (metis takeWhile_dropWhile_id)
    then have "b = trim_end_slashes b @ rev (replicate (length (takeWhile (\<lambda>c. c = CHR ''/'') (rev b))) (CHR ''/''))"
      unfolding trim_end_slashes_def by (metis rev_append rev_rev_ident)
    then show ?thesis by (metis rev_replicate)
  qed
  ultimately show "\<exists>h. signal_endpoint signal base (CHR ''/'' # rest) = Some (h @ CHR ''/'' # rest) \<and>
           (h = [] \<or> last h \<noteq> CHR ''/'') \<and> (\<exists>n. b = h @ replicate n (CHR ''/''))"
    using trim_end_slashes_last [of b] by (intro exI [of _ "trim_end_slashes b"]) (simp add: signal_endpoint_def)
qed (auto simp: signal_endpoint_def init_logger_provider_def split: if_splits)

end
