(* ===== verification/App.thy ===== *)
theory App
  imports Handlers Auth Rate_Limit Request_Log Server_Config Telemetry
begin

text \<open>
  The application (\<open>src/main.rs\<close>): the routes with their layers as \<open>configure_api\<close> registers them, the
  service they make, and the start of the process.

  The framework's part is this: a request goes to the first resource whose pattern matches its path; a
  resource without a route for the method answers 405, inside its layers; the scope with the empty
  prefix takes every other path and answers 404 where none of its guarded routes matches; a layer wraps
  the layers registered before it. CORS, the extraction of JSON bodies and path parameters and the
  rendering of the metrics and of the OpenAPI document are foreign crates' and parameters.
\<close>

section \<open>Layers and routes\<close>

text \<open>The origins of a CORS policy: \<open>Cors::default()\<close> has none.\<close>

datatype origins = NoOrigin | AnyOrigin | OnlyOrigins "string list"

record cors_policy =
  co_origins :: origins
  co_methods :: "string list"
  co_any_header :: bool
  co_max_age :: "nat option"

definition deny_cors :: cors_policy where
  "deny_cors = \<lparr>co_origins = NoOrigin, co_methods = [], co_any_header = False, co_max_age = None\<rparr>"

definition verify_cors :: "string list \<Rightarrow> cors_policy" where
  "verify_cors cors_origins =
     \<lparr>co_origins = (if cors_origins = [] then AnyOrigin else OnlyOrigins cors_origins),
      co_methods = [''POST''], co_any_header = True, co_max_age = Some 3600\<rparr>"

datatype layer =
    RateLayer strategy
  | AuthLayer auth_level
  | CorsLayer cors_policy

datatype endpoint =
    CreateToken | VerifyToken | RefreshToken | RevokeToken | RevokeSubject
  | MetricsText | OpenApi | Livez | Readyz

text \<open>\<open>re_layers\<close> in the order of the calls of \<open>wrap\<close>: the last is the outermost.\<close>

record resource =
  re_path :: string
  re_layers :: "layer list"
  re_routes :: "(string \<times> endpoint) list"

record scope =
  so_layers :: "layer list"
  so_routes :: "(string \<times> string \<times> endpoint) list" \<comment> \<open>path, method, handler\<close>

record api =
  api_resources :: "resource list"
  api_scope :: scope

definition configure_api ::
  "auth_config \<Rightarrow> 'q per_ip_limiter option \<Rightarrow> ('q \<times> nat) option \<Rightarrow> string list \<Rightarrow> api" where
  "configure_api auth verify_limiter internal_limiter cors_origins =
     (let internal = [RateLayer (rate_limit_global internal_limiter), AuthLayer Totp, CorsLayer deny_cors] in
      \<lparr>api_resources =
         [\<lparr>re_path = ''/tokens'', re_layers = internal, re_routes = [(''POST'', CreateToken)]\<rparr>,
          \<lparr>re_path = ''/tokens/verify'',
            re_layers = [AuthLayer ProxySecret, RateLayer (rate_limit_per_ip verify_limiter),
                         CorsLayer (verify_cors cors_origins)],
            re_routes = [(''POST'', VerifyToken)]\<rparr>,
          \<lparr>re_path = ''/tokens/refresh'', re_layers = internal, re_routes = [(''POST'', RefreshToken)]\<rparr>,
          \<lparr>re_path = ''/tokens/{jti}'', re_layers = internal, re_routes = [(''DELETE'', RevokeToken)]\<rparr>,
          \<lparr>re_path = ''/subjects/{sub}/tokens'', re_layers = internal,
            re_routes = [(''DELETE'', RevokeSubject)]\<rparr>] @
         (if metrics_enabled auth
          then [\<lparr>re_path = ''/metrics'', re_layers = [AuthLayer MetricsToken, CorsLayer deny_cors],
                 re_routes = [(''GET'', MetricsText)]\<rparr>]
          else []),
       api_scope =
         \<lparr>so_layers = [AuthLayer Open, CorsLayer deny_cors],
          so_routes = [(''/api-docs/openapi.json'', ''GET'', OpenApi), (''/livez'', ''GET'', Livez),
                       (''/readyz'', ''GET'', Readyz)]\<rparr>\<rparr>)"

section \<open>Matching of paths\<close>

datatype segment = Lit string | Param

definition segments :: "string \<Rightarrow> segment list" where
  "segments template =
     map (\<lambda>s. case s of [] \<Rightarrow> Lit [] | c # _ \<Rightarrow> if c = CHR ''{'' then Param else Lit s) (split_on (CHR ''/'') template)"

text \<open>A parameter takes one segment that is not empty; the captured segments are returned.\<close>

fun match_segments :: "segment list \<Rightarrow> string list \<Rightarrow> string list option" where
  "match_segments [] [] = Some []"
| "match_segments (Lit l # ps) (s # ss) = (if l = s then match_segments ps ss else None)"
| "match_segments (Param # ps) (s # ss) = (if s = [] then None else map_option ((#) s) (match_segments ps ss))"
| "match_segments _ _ = None"

definition match_path :: "string \<Rightarrow> string \<Rightarrow> string list option" where
  "match_path template path = match_segments (segments template) (split_on (CHR ''/'') path)"

fun find_resource :: "resource list \<Rightarrow> string \<Rightarrow> (resource \<times> string list) option" where
  "find_resource [] path = None"
| "find_resource (re # rs) path =
     (case match_path (re_path re) path of Some caps \<Rightarrow> Some (re, caps) | None \<Rightarrow> find_resource rs path)"

fun find_route :: "(string \<times> string \<times> endpoint) list \<Rightarrow> string \<Rightarrow> string \<Rightarrow> endpoint option" where
  "find_route [] path meth = None"
| "find_route ((p, m, ep) # rs) path meth =
     (if match_path p path \<noteq> None \<and> m = meth then Some ep else find_route rs path meth)"

section \<open>The service\<close>

text \<open>The application data and the foreign parts of a request's way; \<open>Inl\<close> is the extractor's answer.\<close>

record ('b, 'g, 'p, 'k, 'v, 'n, 's, 'l) app_deps =
  ap_deps :: "('b, 'g, 'p, 'k, 'v, 'n, 's) deps"
  ap_auth :: auth_config
  ap_hmac :: hmac
  ap_governor :: "'l governor"
  ap_cors :: "cors_policy \<Rightarrow> ('v, ('n, 's, 'l) app_world) service \<Rightarrow> ('v, ('n, 's, 'l) app_world) service"
  ap_json_token :: "request \<Rightarrow> 'v response + 'v token_request"
  ap_json_verify :: "request \<Rightarrow> 'v response + token_verify_request"
  ap_json_refresh :: "request \<Rightarrow> 'v response + refresh_request"
  ap_path_param :: "string list \<Rightarrow> 'v response + string"
  ap_render :: "('n, 's) world \<Rightarrow> string"
  ap_openapi :: string

definition handle ::
  "(('n, 's) world \<Rightarrow> ('v, 'n, 's) handler_result) \<Rightarrow> ('n, 's, 'l) app_world
     \<Rightarrow> (unit, 'v response) outcome \<times> ('n, 's, 'l) app_world" where
  "handle h a = (case h (aw_world a) of (r, w) \<Rightarrow> (into_response r, a\<lparr>aw_world := w\<rparr>))"

definition respond_with ::
  "(('n, 's) world \<Rightarrow> 'v response \<times> ('n, 's) world) \<Rightarrow> ('n, 's, 'l) app_world
     \<Rightarrow> (unit, 'v response) outcome \<times> ('n, 's, 'l) app_world" where
  "respond_with h a = (case h (aw_world a) of (r, w) \<Rightarrow> (Ok r, a\<lparr>aw_world := w\<rparr>))"

definition extracted ::
  "('v response + 'x) \<Rightarrow> ('x \<Rightarrow> 'w \<Rightarrow> (unit, 'v response) outcome \<times> 'w) \<Rightarrow> 'w \<Rightarrow> (unit, 'v response) outcome \<times> 'w" where
  "extracted x f a = (case x of Inl resp \<Rightarrow> (Ok resp, a) | Inr v \<Rightarrow> f v a)"

definition openapi_spec :: "string \<Rightarrow> ('n, 's) world \<Rightarrow> 'v response \<times> ('n, 's) world" where
  "openapi_spec doc w = (respond 200 (TextBody ''application/json'' doc), w)"

fun run_endpoint ::
  "('b, 'g, 'p, 'k, 'v, 'n, 's, 'l) app_deps \<Rightarrow> endpoint \<Rightarrow> string list
     \<Rightarrow> ('v, ('n, 's, 'l) app_world) service" where
  "run_endpoint A CreateToken caps r =
     extracted (ap_json_token A r) (\<lambda>q. handle (create_token (ap_deps A) q (rq_headers r)))"
| "run_endpoint A VerifyToken caps r =
     extracted (ap_json_verify A r) (\<lambda>q. handle (verify_token_handler (ap_deps A) q (rq_headers r)))"
| "run_endpoint A RefreshToken caps r =
     extracted (ap_json_refresh A r) (\<lambda>q. handle (refresh_token_handler (ap_deps A) q (rq_headers r)))"
| "run_endpoint A RevokeToken caps r =
     extracted (ap_path_param A caps) (\<lambda>jti. handle (revoke_token (ap_deps A) jti))"
| "run_endpoint A RevokeSubject caps r =
     extracted (ap_path_param A caps) (\<lambda>sub. handle (revoke_subject_tokens (ap_deps A) sub))"
| "run_endpoint A MetricsText caps r = respond_with (metrics_handler (ap_render A))"
| "run_endpoint A OpenApi caps r = respond_with (openapi_spec (ap_openapi A))"
| "run_endpoint A Livez caps r = respond_with livez"
| "run_endpoint A Readyz caps r = respond_with (readyz (ap_deps A))"

fun apply_layer ::
  "('b, 'g, 'p, 'k, 'v, 'n, 's, 'l) app_deps \<Rightarrow> layer \<Rightarrow> ('v, ('n, 's, 'l) app_world) service
     \<Rightarrow> ('v, ('n, 's, 'l) app_world) service" where
  "apply_layer A (RateLayer st) inner = rate_limit_call (ap_governor A) st inner"
| "apply_layer A (AuthLayer level) inner =
     auth_call (ap_hmac A) (Some (dp_store (ap_deps A))) (ap_auth A) level inner"
| "apply_layer A (CorsLayer p) inner = ap_cors A p inner"

fun apply_layers ::
  "('b, 'g, 'p, 'k, 'v, 'n, 's, 'l) app_deps \<Rightarrow> layer list \<Rightarrow> ('v, ('n, 's, 'l) app_world) service
     \<Rightarrow> ('v, ('n, 's, 'l) app_world) service" where
  "apply_layers A [] inner = inner"
| "apply_layers A (l # ls) inner = apply_layers A ls (apply_layer A l inner)"

definition resource_routes ::
  "('b, 'g, 'p, 'k, 'v, 'n, 's, 'l) app_deps \<Rightarrow> resource \<Rightarrow> string list
     \<Rightarrow> ('v, ('n, 's, 'l) app_world) service" where
  "resource_routes A re caps r a =
     (case map_of (re_routes re) (rq_method r) of
        Some ep \<Rightarrow> run_endpoint A ep caps r a
      | None \<Rightarrow> (Ok (respond 405 NoBody), a))"

definition scope_routes ::
  "('b, 'g, 'p, 'k, 'v, 'n, 's, 'l) app_deps \<Rightarrow> scope \<Rightarrow> ('v, ('n, 's, 'l) app_world) service" where
  "scope_routes A so r a =
     (case find_route (so_routes so) (rq_path r) (rq_method r) of
        Some ep \<Rightarrow> run_endpoint A ep [] r a
      | None \<Rightarrow> (Ok (respond 404 NoBody), a))"

definition dispatch ::
  "('b, 'g, 'p, 'k, 'v, 'n, 's, 'l) app_deps \<Rightarrow> api \<Rightarrow> ('v, ('n, 's, 'l) app_world) service" where
  "dispatch A api r =
     (case find_resource (api_resources api) (rq_path r) of
        Some (re, caps) \<Rightarrow> apply_layers A (re_layers re) (resource_routes A re caps) r
      | None \<Rightarrow> apply_layers A (so_layers (api_scope api)) (scope_routes A (api_scope api)) r)"

definition app_service ::
  "(request \<Rightarrow> string option) \<Rightarrow> ('b, 'g, 'p, 'k, 'v, 'n, 's, 'l) app_deps \<Rightarrow> api
     \<Rightarrow> ('v, ('n, 's, 'l) app_world) service" where
  "app_service pattern A api = request_log_call pattern (dispatch A api)"

section \<open>The start of the process\<close>

definition cors_origins_from_env :: "env \<Rightarrow> string list" where
  "cors_origins_from_env e =
     filter (\<lambda>s. s \<noteq> []) (map trim (split_on (CHR '','') (env_or e ''CORS_ALLOWED_ORIGINS'' [])))"

record 'q started =
  st_algorithm :: string
  st_host :: string
  st_port :: nat
  st_redis :: redis_config
  st_auth :: auth_config
  st_verify_limiter :: "'q per_ip_limiter option"
  st_internal_limiter :: "('q \<times> nat) option"
  st_cors_origins :: "string list"
  st_server :: server_config

text \<open>
  What the foreign crates and the operating system decide at the start: whether \<open>sentry\<close> takes a DSN,
  whether the exporters that are asked for and the global subscriber can be installed, whether the
  recorder can, whether a thread can be spawned, and whether the address can be bound.
\<close>

record surroundings =
  so_dsn :: "string \<Rightarrow> bool"
  so_subscriber :: bool
  so_recorder :: bool
  so_thread :: bool
  so_bind :: "string \<Rightarrow> nat \<Rightarrow> bool"

text \<open>\<open>init_subscriber\<close> and \<open>init_recorder\<close>: what can panic in them. A DSN that is set and invalid does.\<close>

definition telemetry_installed :: "surroundings \<Rightarrow> env \<Rightarrow> bool" where
  "telemetry_installed W e \<longleftrightarrow>
     (case read_dsn e of Some dsn \<Rightarrow> so_dsn W dsn | None \<Rightarrow> True) \<and> so_subscriber W \<and> so_recorder W"

text \<open>
  \<open>main\<close> up to the point where the bound server runs. A panic ends the process; an address that cannot
  be bound makes \<open>main\<close> return the error.
\<close>

definition start ::
  "surroundings \<Rightarrow> (string \<Rightarrow> bool) \<Rightarrow> (nat \<Rightarrow> 'q option) \<Rightarrow> (int \<times> int \<Rightarrow> u64) \<Rightarrow> (string \<Rightarrow> string option)
     \<Rightarrow> u64 option \<Rightarrow> env \<Rightarrow> (unit, 'q started) outcome" where
  "start W valid_url with_period f64_ceil files cores e =
     (if \<not> telemetry_installed W e then Panic else
     (case parse_unsigned 16 (env_or e ''PORT'' ''8080'') of
        None \<Rightarrow> Panic
      | Some port \<Rightarrow>
     (case redis_client_new valid_url e of
        None \<Rightarrow> Panic
      | Some redis \<Rightarrow>
     (case auth_config_from_env e of
        Inl _ \<Rightarrow> Panic
      | Inr auth \<Rightarrow>
     (case build_verify with_period (rate_limit_from_env e) of
        Ok verify_limiter \<Rightarrow>
          (case build_internal with_period (rate_limit_from_env e) of
             Ok internal_limiter \<Rightarrow>
               (if (case verify_limiter of Some _ \<Rightarrow> \<not> so_thread W | None \<Rightarrow> False) then Panic
                else if \<not> so_bind W (env_or e ''HOST'' ''127.0.0.1'') port then Err ()
                else Ok \<lparr>st_algorithm = env_or e ''TOKEN_ALGORITHM'' ''RS256'',
                   st_host = env_or e ''HOST'' ''127.0.0.1'', st_port = port, st_redis = redis,
                   st_auth = auth, st_verify_limiter = verify_limiter,
                   st_internal_limiter = internal_limiter, st_cors_origins = cors_origins_from_env e,
                   st_server = server_config_from_env f64_ceil files cores e\<rparr>)
           | Err _ \<Rightarrow> Panic | Panic \<Rightarrow> Panic)
      | Err _ \<Rightarrow> Panic | Panic \<Rightarrow> Panic)))))"

definition started_api :: "'q started \<Rightarrow> api" where
  "started_api s = configure_api (st_auth s) (st_verify_limiter s) (st_internal_limiter s) (st_cors_origins s)"

end
