(* ===== verification/App_Correct.thy ===== *)
theory App_Correct
  imports App Handlers_Correct Auth_Correct Rate_Limit_Correct
begin

text \<open>
  The routes as a whole: which access level guards which endpoint and in which order the layers take
  effect, for requests that go through the registered routes, and when the process starts.
\<close>

section \<open>The route table\<close>

definition changes_state :: "endpoint \<Rightarrow> bool" where
  "changes_state ep \<longleftrightarrow> ep \<in> {CreateToken, RefreshToken, RevokeToken, RevokeSubject}"

lemma endpoints_levels:
  assumes "re \<in> set (api_resources (configure_api auth vl il origins))" and "(m, ep) \<in> set (re_routes re)"
  shows "(changes_state ep \<longrightarrow>
       re_layers re = [RateLayer (rate_limit_global il), AuthLayer Totp, CorsLayer deny_cors]) \<and>
     (ep = VerifyToken \<longrightarrow>
       re_layers re = [AuthLayer ProxySecret, RateLayer (rate_limit_per_ip vl), CorsLayer (verify_cors origins)]) \<and>
     (ep = MetricsText \<longrightarrow> metrics_enabled auth \<and> re_layers re = [AuthLayer MetricsToken, CorsLayer deny_cors]) \<and>
     (\<exists>p. last (re_layers re) = CorsLayer p \<and> (co_origins p \<noteq> NoOrigin \<longrightarrow> ep = VerifyToken)) \<and>
     ep \<notin> {OpenApi, Livez, Readyz}"
  using assms
  by (auto simp: configure_api_def Let_def changes_state_def deny_cors_def verify_cors_def split: if_splits)

text \<open>
  Every endpoint sits on its level: an endpoint that changes tokens is routed only behind the
  one-time code, verification only behind the proxy secret, the metrics only behind their own token
  and only when there is one; the outermost layer is always a CORS policy, and the only policy that
  admits any origin is that of verification.
\<close>

theorem endpoints_on_their_levels:
  assumes "re \<in> set (api_resources (configure_api auth vl il origins))" and "(m, ep) \<in> set (re_routes re)"
  shows "(changes_state ep \<longrightarrow>
       re_layers re = [RateLayer (rate_limit_global il), AuthLayer Totp, CorsLayer deny_cors]) \<and>
     (ep = VerifyToken \<longrightarrow>
       re_layers re = [AuthLayer ProxySecret, RateLayer (rate_limit_per_ip vl), CorsLayer (verify_cors origins)]) \<and>
     (ep = MetricsText \<longrightarrow> metrics_enabled auth \<and> re_layers re = [AuthLayer MetricsToken, CorsLayer deny_cors]) \<and>
     (\<exists>p. last (re_layers re) = CorsLayer p \<and> (co_origins p \<noteq> NoOrigin \<longrightarrow> ep = VerifyToken)) \<and>
     ep \<notin> {OpenApi, Livez, Readyz}"
  by (rule endpoints_levels [OF assms])

section \<open>Matching\<close>

lemma find_resource_mem:
  "find_resource rs path = Some (re, caps) \<Longrightarrow> re \<in> set rs \<and> match_path (re_path re) path = Some caps"
  by (induction rs) (auto split: option.splits)

lemma segments_table:
  "segments ''/tokens'' = [Lit '''', Lit ''tokens'']"
  "segments ''/tokens/verify'' = [Lit '''', Lit ''tokens'', Lit ''verify'']"
  "segments ''/tokens/refresh'' = [Lit '''', Lit ''tokens'', Lit ''refresh'']"
  "segments ''/tokens/{jti}'' = [Lit '''', Lit ''tokens'', Param]"
  "segments ''/subjects/{sub}/tokens'' = [Lit '''', Lit ''subjects'', Param, Lit ''tokens'']"
  "segments ''/metrics'' = [Lit '''', Lit ''metrics'']"
  "segments ''/api-docs/openapi.json'' = [Lit '''', Lit ''api-docs'', Lit ''openapi.json'']"
  "segments ''/livez'' = [Lit '''', Lit ''livez'']"
  "segments ''/readyz'' = [Lit '''', Lit ''readyz'']"
  by (simp_all add: segments_def)

text \<open>
  The paths under \<open>/tokens/\<close> do not swallow each other: \<open>verify\<close> and \<open>refresh\<close> are their own
  resources, and any other single segment that is not empty is taken as an identifier to revoke.
\<close>

theorem token_paths:
  assumes "CHR ''/'' \<notin> set jti" and "jti \<noteq> []"
  shows "\<exists>re caps. find_resource (api_resources (configure_api auth vl il origins)) (''/tokens/'' @ jti) = Some (re, caps) \<and>
     re_routes re =
       (if jti = ''verify'' then [(''POST'', VerifyToken)]
        else if jti = ''refresh'' then [(''POST'', RefreshToken)]
        else [(''DELETE'', RevokeToken)]) \<and>
     (jti \<noteq> ''verify'' \<and> jti \<noteq> ''refresh'' \<longrightarrow> caps = [jti])"
proof -
  show ?thesis
    using assms(2)
    by (auto simp: configure_api_def Let_def match_path_def split_on_no_sep [OF assms(1)] segments_table)
qed

section \<open>Layers\<close>

text \<open>
  What is relied on of actix-cors: a policy either answers by itself, without touching the state (a
  preflight), or passes the request on and changes nothing of the answer but its headers.
\<close>

definition cors_law :: "(cors_policy \<Rightarrow> ('v, 'w) service \<Rightarrow> ('v, 'w) service) \<Rightarrow> bool" where
  "cors_law C \<longleftrightarrow>
     (\<forall>p inner r a.
        (\<exists>resp. C p inner r a = (Ok resp, a)) \<or>
        (\<exists>f. C p inner r a = (case inner r a of (Ok resp, a') \<Rightarrow> (Ok (f resp), a') | (x, a') \<Rightarrow> (x, a')) \<and>
           (\<forall>resp. rs_status (f resp) = rs_status resp \<and> rs_body (f resp) = rs_body resp)))"

lemma cors_cases:
  assumes "cors_law C" and "C p inner r a = (x, a')" and "inner r a = (Ok resp, b)"
  obtains (own) own where "x = Ok own" "a' = a"
    | (passed) res where "x = Ok res" "rs_status res = rs_status resp" "rs_body res = rs_body resp" "a' = b"
proof -
  have "(\<exists>resp. C p inner r a = (Ok resp, a)) \<or>
        (\<exists>f. C p inner r a = (case inner r a of (Ok resp, a') \<Rightarrow> (Ok (f resp), a') | (x, a') \<Rightarrow> (x, a')) \<and>
           (\<forall>resp. rs_status (f resp) = rs_status resp \<and> rs_body (f resp) = rs_body resp))"
    using assms(1) unfolding cors_law_def by blast
  then show ?thesis
  proof
    assume "\<exists>resp. C p inner r a = (Ok resp, a)"
    then show ?thesis using own assms(2) by auto
  next
    assume "\<exists>f. C p inner r a = (case inner r a of (Ok resp, a') \<Rightarrow> (Ok (f resp), a') | (x, a') \<Rightarrow> (x, a')) \<and>
           (\<forall>resp. rs_status (f resp) = rs_status resp \<and> rs_body (f resp) = rs_body resp)"
    then show ?thesis using passed assms(2,3) by auto
  qed
qed

lemma auth_call_denied:
  assumes "auth_decide H store c level (rq_headers r) (aw_world a) = (Ok False, w)"
  shows "auth_call H store c level inner r a =
     (Ok unauthorized_response, a\<lparr>aw_world := record_metric (AuthDenied (auth_level_str level)) w\<rparr>)"
  using assms by (simp add: auth_call_def)

abbreviation decided ::
  "('b, 'g, 'p, 'k, 'v, 'n, 's, 'l) app_deps \<Rightarrow> auth_level \<Rightarrow> request \<Rightarrow> ('n, 's) world
     \<Rightarrow> (unit, bool) outcome \<times> ('n, 's) world" where
  "decided A level r w \<equiv>
     auth_decide (ap_hmac A) (Some (dp_store (ap_deps A))) (ap_auth A) level (rq_headers r) w"

text \<open>
  C3. Nothing changes a token without a one-time code: on every path that leads to issuing, exchange or
  revocation, a request whose code is not accepted is answered with 401 (or by CORS alone), the
  handler does not run, no key is touched, the store sees at most the claim of the code, and the
  shared cap is not drained by it.
\<close>

theorem state_changes_need_totp:
  assumes "cors_law (ap_cors A)"
    and "find_resource (api_resources (configure_api auth vl il origins)) (rq_path r) = Some (re, caps)"
    and "(m, ep) \<in> set (re_routes re)" and "changes_state ep"
    and "decided A Totp r (aw_world a) = (Ok False, w)"
    and "dispatch A (configure_api auth vl il origins) r a = (x, a')"
  shows "\<exists>resp. x = Ok resp \<and> aw_limits a' = aw_limits a \<and>
     (a' = a \<or> rs_status resp = 401 \<and> aw_world a' = record_metric (AuthDenied ''totp'') w)"
proof -
  have "re_layers re = [RateLayer (rate_limit_global il), AuthLayer Totp, CorsLayer deny_cors]"
    using endpoints_levels [OF conjunct1 [OF find_resource_mem [OF assms(2)]] assms(3)] assms(4) by blast
  then have d: "ap_cors A deny_cors
     (auth_call (ap_hmac A) (Some (dp_store (ap_deps A))) (ap_auth A) Totp
        (rate_limit_call (ap_governor A) (rate_limit_global il) (resource_routes A re caps))) r a = (x, a')"
    using assms(2,6) by (simp add: dispatch_def)
  from assms(1) d auth_call_denied [OF assms(5)] show ?thesis
    by (cases rule: cors_cases) (auto simp: unauthorized_response_def)
qed

text \<open>
  A flood on the public endpoint is cut off first: over the limit of its address a request to
  \<open>/tokens/verify\<close> is answered with 429 (or by CORS alone) before the proxy secret is looked at, with
  no token parsed and neither store nor keys touched.
\<close>

theorem verify_limited_before_auth:
  assumes "cors_law (ap_cors A)" and "rq_path r = ''/tokens/verify''"
    and "strategy_check (ap_governor A) (rate_limit_per_ip vl) r (aw_limits a) = (Inl secs, g)"
    and "dispatch A (configure_api auth vl il origins) r a = (x, a')"
  shows "\<exists>resp. x = Ok resp \<and>
     (a' = a \<or> rs_status resp = 429 \<and> aw_world a' = record_metric RateLimited (aw_world a) \<and> aw_limits a' = g)"
proof -
  have "split_on (CHR ''/'') ''/tokens/verify'' = ['''', ''tokens'', ''verify'']" by simp
  then obtain re where f: "find_resource (api_resources (configure_api auth vl il origins)) (rq_path r) = Some (re, [])"
    and l: "re_layers re = [AuthLayer ProxySecret, RateLayer (rate_limit_per_ip vl), CorsLayer (verify_cors origins)]"
    by (auto simp: configure_api_def Let_def match_path_def segments_table assms(2))
  have d: "ap_cors A (verify_cors origins)
     (rate_limit_call (ap_governor A) (rate_limit_per_ip vl)
       (auth_call (ap_hmac A) (Some (dp_store (ap_deps A))) (ap_auth A) ProxySecret (resource_routes A re []))) r a = (x, a')"
    using assms(4) f l by (simp add: dispatch_def)
  have "rate_limit_call (ap_governor A) (rate_limit_per_ip vl)
       (auth_call (ap_hmac A) (Some (dp_store (ap_deps A))) (ap_auth A) ProxySecret (resource_routes A re [])) r a =
     (Ok (too_many_requests secs), record_app_metric RateLimited (a\<lparr>aw_limits := g\<rparr>))"
    using assms(3) by (simp add: rate_limit_call_def)
  from assms(1) d this show ?thesis
    by (cases rule: cors_cases) (auto simp: too_many_requests_def)
qed

section \<open>The open part\<close>

lemma scope_dispatch:
  assumes "find_resource (api_resources (configure_api auth vl il origins)) (rq_path r) = None"
  shows "dispatch A (configure_api auth vl il origins) r a =
     ap_cors A deny_cors (auth_call (ap_hmac A) (Some (dp_store (ap_deps A))) (ap_auth A) Open
       (scope_routes A (api_scope (configure_api auth vl il origins)))) r a"
  using assms by (simp add: dispatch_def configure_api_def Let_def)

lemma auth_call_open: "auth_call H store c Open inner r a = inner r a"
  by (simp add: auth_call_def auth_decide_def authorize_def replay_check_def)

text \<open>
  Unpublished metrics are invisible: without a metrics token a request to \<open>/metrics\<close> is answered as
  any unknown path, 404 whatever its method and its credentials (unless CORS answers alone), and no
  denial is counted.
\<close>

theorem metrics_unpublished:
  assumes "cors_law (ap_cors A)" and "\<not> metrics_enabled auth" and "rq_path r = ''/metrics''"
    and "dispatch A (configure_api auth vl il origins) r a = (x, a')"
  shows "a' = a \<and>
     (\<exists>svc. dispatch A (configure_api auth vl il origins) r a = ap_cors A deny_cors svc r a \<and>
        svc r a = (Ok (respond 404 NoBody), a))"
proof -
  let ?api = "configure_api auth vl il origins"
  have sp: "split_on (CHR ''/'') ''/metrics'' = ['''', ''metrics'']" by simp
  have none: "find_resource (api_resources ?api) (rq_path r) = None"
    using assms(2) by (simp add: configure_api_def Let_def match_path_def sp segments_table assms(3))
  have "scope_routes A (api_scope ?api) r a = (Ok (respond 404 NoBody), a)"
    by (simp add: scope_routes_def configure_api_def Let_def match_path_def sp segments_table assms(3))
  then have svc: "auth_call (ap_hmac A) (Some (dp_store (ap_deps A))) (ap_auth A) Open
      (scope_routes A (api_scope ?api)) r a = (Ok (respond 404 NoBody), a)"
    by (simp add: auth_call_open)
  have d: "ap_cors A deny_cors (auth_call (ap_hmac A) (Some (dp_store (ap_deps A))) (ap_auth A) Open
      (scope_routes A (api_scope ?api))) r a = (x, a')"
    using assms(4) unfolding scope_dispatch [OF none] .
  from assms(1) d svc have "a' = a" by (cases rule: cors_cases) auto
  then show ?thesis using scope_dispatch [OF none] svc by blast
qed

text \<open>
  The liveness probe is always open: a \<open>GET\<close> of \<open>/livez\<close> is answered with 200 (or by CORS alone)
  whatever the headers, the configuration, the store and the key service, and changes nothing.
\<close>

theorem livez_open:
  assumes "cors_law (ap_cors A)" and "rq_path r = ''/livez''" and "rq_method r = ''GET''"
    and "dispatch A (configure_api auth vl il origins) r a = (x, a')"
  shows "a' = a \<and>
     (\<exists>svc. dispatch A (configure_api auth vl il origins) r a = ap_cors A deny_cors svc r a \<and>
        svc r a = (Ok (respond 200 NoBody), a))"
proof -
  let ?api = "configure_api auth vl il origins"
  have sp: "split_on (CHR ''/'') ''/livez'' = ['''', ''livez'']" by simp
  have none: "find_resource (api_resources ?api) (rq_path r) = None"
    by (simp add: configure_api_def Let_def match_path_def sp segments_table assms(2))
  have "scope_routes A (api_scope ?api) r a = (Ok (respond 200 NoBody), a)"
    by (simp add: scope_routes_def configure_api_def Let_def match_path_def sp segments_table assms(2,3)
        respond_with_def livez_def)
  then have svc: "auth_call (ap_hmac A) (Some (dp_store (ap_deps A))) (ap_auth A) Open
      (scope_routes A (api_scope ?api)) r a = (Ok (respond 200 NoBody), a)"
    by (simp add: auth_call_open)
  have d: "ap_cors A deny_cors (auth_call (ap_hmac A) (Some (dp_store (ap_deps A))) (ap_auth A) Open
      (scope_routes A (api_scope ?api))) r a = (x, a')"
    using assms(4) unfolding scope_dispatch [OF none] .
  from assms(1) d svc have "a' = a" by (cases rule: cors_cases) auto
  then show ?thesis using scope_dispatch [OF none] svc by blast
qed

section \<open>The start\<close>

lemma quota_cases:
  assumes "\<And>n. with_period n = None \<longleftrightarrow> n = 0"
  shows "(\<exists>q. quota with_period n b = Ok q) \<longleftrightarrow> unat n \<le> 1000000000"
    and "quota with_period n b \<noteq> Err e"
proof -
  have "1000000000 div max 1 (unat n) = 0 \<longleftrightarrow> 1000000000 < unat n"
    by (auto simp: div_eq_0_iff max_def)
  then have w: "with_period (1000000000 div max 1 (unat n)) = None \<longleftrightarrow> 1000000000 < unat n"
    using assms by simp
  show "(\<exists>q. quota with_period n b = Ok q) \<longleftrightarrow> unat n \<le> 1000000000"
    using w by (cases "with_period (1000000000 div max 1 (unat n))") (auto simp: quota_def Let_def)
  show "quota with_period n b \<noteq> Err e"
    by (simp add: quota_def Let_def split: option.splits)
qed


section \<open>Witnesses\<close>

definition demo_app_deps ::
  "(string, unit, string, string, unit, nat, keyspace redis_client, nat) app_deps" where
  "demo_app_deps =
     \<lparr>ap_deps = demo_deps, ap_auth = demo_auth, ap_hmac = demo_hmac, ap_governor = demo_governor,
      ap_cors = \<lambda>p inner. inner, ap_json_token = \<lambda>_. Inl (respond 400 NoBody),
      ap_json_verify = \<lambda>_. Inl (respond 400 NoBody), ap_json_refresh = \<lambda>_. Inl (respond 400 NoBody),
      ap_path_param = \<lambda>_. Inl (respond 404 NoBody), ap_render = \<lambda>_. [], ap_openapi = ''{}''\<rparr>"

definition demo_app_world :: "(nat, keyspace redis_client, nat) app_world" where
  "demo_app_world = \<lparr>aw_world = demo_issued, aw_limits = 0\<rparr>"

definition demo_get :: "string \<Rightarrow> string \<Rightarrow> request" where
  "demo_get meth path = \<lparr>rq_method = meth, rq_path = path, rq_headers = [], rq_peer = Some (V4 [9, 9, 9, 9]), rq_body = []\<rparr>"

abbreviation demo_api :: api where
  "demo_api \<equiv> configure_api demo_auth (None :: unit per_ip_limiter option) (None :: (unit \<times> nat) option) []"

lemma demo_cors: "cors_law (ap_cors demo_app_deps)"
  unfolding cors_law_def
proof (intro allI disjI2)
  fix p inner r a
  show "\<exists>f. ap_cors demo_app_deps p inner r a =
      (case inner r a of (Ok resp, a') \<Rightarrow> (Ok (f resp), a') | (x, a') \<Rightarrow> (x, a')) \<and>
      (\<forall>resp. rs_status (f resp) = rs_status resp \<and> rs_body (f resp) = rs_body resp)"
    by (intro exI [of _ "\<lambda>x. x"]) (auto simp: demo_app_deps_def split: prod.splits outcome.splits)
qed

lemma endpoints_on_their_levels_witness:
  "re_layers (hd (api_resources demo_api)) = [RateLayer (rate_limit_global (None :: (unit \<times> nat) option)), AuthLayer Totp, CorsLayer deny_cors]"
proof -
  let ?re = "hd (api_resources demo_api)"
  have "?re \<in> set (api_resources demo_api)" "(''POST'', CreateToken) \<in> set (re_routes ?re)"
    by (simp_all add: configure_api_def Let_def)
  from endpoints_on_their_levels [OF this] show ?thesis by (simp add: changes_state_def)
qed

lemma token_paths_witness:
  "\<exists>re. find_resource (api_resources demo_api) ''/tokens/7'' = Some (re, [''7'']) \<and> re_routes re = [(''DELETE'', RevokeToken)]"
  using token_paths [of "''7''" demo_auth "None :: unit per_ip_limiter option" "None :: (unit \<times> nat) option" "[]"]
  by auto

lemma state_changes_need_totp_witness:
  "\<exists>resp a'. dispatch demo_app_deps demo_api (demo_get ''POST'' ''/tokens'') demo_app_world = (Ok resp, a') \<and>
     aw_limits a' = aw_limits demo_app_world"
proof -
  let ?r = "demo_get ''POST'' ''/tokens''"
  obtain re caps where f: "find_resource (api_resources demo_api) (rq_path ?r) = Some (re, caps)"
    and e: "(''POST'', CreateToken) \<in> set (re_routes re)"
    by (simp add: configure_api_def Let_def match_path_def segments_table demo_get_def)
  have d: "decided demo_app_deps Totp ?r (aw_world demo_app_world) = (Ok False, utc_tick demo_issued)"
    by (simp add: auth_decide_def authorize_def totp_validate_def header_get_def demo_get_def demo_app_world_def)
  obtain x a' where x: "dispatch demo_app_deps demo_api ?r demo_app_world = (x, a')" by (metis prod.exhaust)
  have "changes_state CreateToken" by (simp add: changes_state_def)
  from state_changes_need_totp [OF demo_cors f e this d x] show ?thesis using x by auto
qed

lemma verify_limited_before_auth_witness:
  "\<exists>resp a'. dispatch demo_app_deps (configure_api demo_auth (Some \<lparr>pl_quota = ((), 1), pl_trusted = [], pl_forwarded_header = []\<rparr>)
       None []) (demo_get ''POST'' ''/tokens/verify'') demo_app_world = (Ok resp, a') \<and>
     (a' = demo_app_world \<or> rs_status resp = 429)"
proof -
  let ?vl = "Some \<lparr>pl_quota = ((), 1 :: nat), pl_trusted = [], pl_forwarded_header = []\<rparr>"
  let ?r = "demo_get ''POST'' ''/tokens/verify''"
  have c: "strategy_check (ap_governor demo_app_deps) (rate_limit_per_ip ?vl) ?r (aw_limits demo_app_world) = (Inl 1, 0)"
    by (simp add: strategy_check_def rate_limit_per_ip_def resolve_key_ip_def ip_is_trusted_def demo_get_def
        demo_app_deps_def demo_governor_def refusal_def retry_after_secs_def demo_app_world_def)
  have p: "rq_path ?r = ''/tokens/verify''" by (simp add: demo_get_def)
  obtain x a' where x: "dispatch demo_app_deps (configure_api demo_auth ?vl None []) ?r demo_app_world = (x, a')"
    by (metis prod.exhaust)
  from verify_limited_before_auth [OF demo_cors p c x] show ?thesis using x by auto
qed

lemma metrics_unpublished_witness:
  "\<exists>x. dispatch demo_app_deps demo_api (demo_get ''GET'' ''/metrics'') demo_app_world = (x, demo_app_world)"
proof -
  have m: "\<not> metrics_enabled demo_auth" by (simp add: metrics_enabled_def demo_auth_def)
  have p: "rq_path (demo_get ''GET'' ''/metrics'') = ''/metrics''" by (simp add: demo_get_def)
  obtain x a' where x: "dispatch demo_app_deps demo_api (demo_get ''GET'' ''/metrics'') demo_app_world = (x, a')"
    by (metis prod.exhaust)
  from metrics_unpublished [OF demo_cors m p x] show ?thesis using x by auto
qed

lemma livez_open_witness:
  "\<exists>x. dispatch demo_app_deps demo_api (demo_get ''GET'' ''/livez'') demo_app_world = (x, demo_app_world)"
proof -
  have p: "rq_path (demo_get ''GET'' ''/livez'') = ''/livez''" "rq_method (demo_get ''GET'' ''/livez'') = ''GET''"
    by (simp_all add: demo_get_def)
  obtain x a' where x: "dispatch demo_app_deps demo_api (demo_get ''GET'' ''/livez'') demo_app_world = (x, a')"
    by (metis prod.exhaust)
  from livez_open [OF demo_cors p x] show ?thesis using x by auto
qed

text \<open>An environment with the two secrets starts where its port is free, and returns the error where it is not.\<close>

definition demo_surroundings :: "bool \<Rightarrow> surroundings" where
  "demo_surroundings free =
     \<lparr>so_dsn = \<lambda>_. True, so_subscriber = True, so_recorder = True, so_thread = True,
      so_bind = \<lambda>host port. free \<and> host = ''127.0.0.1'' \<and> port = 8080\<rparr>"

lemma demo_port: "e ''PORT'' = None \<Longrightarrow> parse_unsigned 16 (env_or e ''PORT'' ''8080'') = Some 8080"
  by (simp add: env_or_def parse_unsigned_def parse_dec_def strip_plus_def is_digit_def digit_val_def byte_of_def)


end
