(* ===== verification/App_Answers.thy ===== *)
theory App_Answers
  imports App_Correct Middleware
begin

text \<open>
  Every request is answered: the layers of the application are middlewares, its handlers do not panic
  while the calendar can hold the lifetimes the configuration allows, and so the whole service, with
  whatever routes a path leads to, returns a response.
\<close>

section \<open>The handlers\<close>

text \<open>The lifetimes the configuration allows, added to any reading of the clock, are dates.\<close>

definition calendar_holds :: "('b, 'g, 'p, 'k, 'v, 'n, 's) deps \<Rightarrow> (nat \<Rightarrow> int) \<Rightarrow> bool" where
  "calendar_holds D clk \<longleftrightarrow>
     (\<forall>n ttl secs. expiration_seconds (dp_env D) ttl = Inr secs \<longrightarrow> dp_plus D (clk n) (as_i64 secs) \<noteq> None)"

lemma calendar_no_overflow: "calendar_holds D (w_utc w) \<Longrightarrow> \<not> chrono_overflow D ttl w"
  unfolding calendar_holds_def chrono_overflow_def utc_now_def by blast

lemma handle_answers:
  assumes "\<And>w. w_utc w = clk \<Longrightarrow> fst (h w) \<noteq> Panic" and "on_clock clk a"
  shows "\<exists>resp a'. handle h a = (Ok resp, a')"
proof -
  obtain x w where h: "h (aw_world a) = (x, w)" by fastforce
  then have "x \<noteq> Panic" using assms(1) [of "aw_world a"] assms(2) by (simp add: on_clock_def)
  then show ?thesis using h by (cases x) (simp_all add: handle_def into_response_def)
qed

lemma extracted_answers:
  "(\<And>v. \<exists>resp a'. f v a = (Ok resp, a')) \<Longrightarrow> \<exists>resp a'. extracted x f a = (Ok resp, a')"
  by (cases x) (simp_all add: extracted_def)

lemma respond_answers: "\<exists>resp a'. respond_with h a = (Ok resp, a')"
  by (simp add: respond_with_def split: prod.splits)

lemma endpoint_answers:
  assumes "calendar_holds (ap_deps A) clk"
  shows "answers (on_clock clk) (run_endpoint A ep caps)"
  unfolding answers_def
proof (intro allI impI)
  fix r and a :: "('f, 'g, 'h) app_world"
  assume a: "on_clock clk a"
  have n: "w_utc w = clk \<Longrightarrow> \<not> chrono_overflow (ap_deps A) ttl w" for ttl w
    using assms calendar_no_overflow by blast
  note quiet = verify_not_Panic revoke_not_Panic create_not_Panic [OF n] refresh_not_Panic [OF n]
  show "\<exists>resp a'. run_endpoint A ep caps r a = (Ok resp, a')"
    by (cases ep) (simp_all add: respond_answers extracted_answers handle_answers [OF _ a] quiet)
qed

section \<open>The layers\<close>

lemma cors_middleware:
  assumes "cors_law C"
  shows "middleware I (C p)"
proof
  fix a inner and r :: request
  assume "I a"
  then show "(\<exists>resp a'. C p inner r a = (Ok resp, a')) \<or> passes_to I inner r (C p inner r a)"
    using assms unfolding cors_law_def passes_to_def
    by (elim allE [of _ p] allE [of _ inner] allE [of _ r] allE [of _ a]) fastforce
qed

lemma layer_middleware:
  assumes "tag_bytes (ap_hmac A)" and "tv_step (ac_totp (ap_auth A)) \<noteq> 0" and "cors_law (ap_cors A)"
  shows "middleware (on_clock clk) (apply_layer A l)"
proof (cases l)
  case (RateLayer st)
  then have "apply_layer A l = rate_limit_call (ap_governor A) st" by (intro ext) simp
  then show ?thesis using limiter.middleware_axioms by simp
next
  case (AuthLayer level)
  then have "apply_layer A l = auth_call (ap_hmac A) (Some (dp_store (ap_deps A))) (ap_auth A) level"
    by (intro ext) simp
  then show ?thesis using auth_middleware [OF assms(1,2)] by simp
next
  case (CorsLayer p)
  then have "apply_layer A l = ap_cors A p" by (intro ext) simp
  then show ?thesis using cors_middleware [OF assms(3)] by simp
qed

lemma layers_answer:
  assumes "\<And>l. middleware I (apply_layer A l)"
  shows "answers I inner \<Longrightarrow> answers I (apply_layers A ls inner)"
  by (induction ls arbitrary: inner) (simp_all add: middleware.answers_layer [OF assms])

section \<open>The application\<close>

lemma routes_answer:
  assumes "\<And>ep caps. answers I (run_endpoint A ep caps)"
  shows "answers I (resource_routes A re caps)" and "answers I (scope_routes A so)"
  using assms by (auto simp: answers_def resource_routes_def scope_routes_def split: option.splits)

lemma dispatch_answers:
  assumes "\<And>l. middleware I (apply_layer A l)" and "\<And>ep caps. answers I (run_endpoint A ep caps)"
  shows "answers I (dispatch A api)"
  unfolding answers_def
proof (intro allI impI)
  fix r a
  assume "I a"
  then show "\<exists>resp a'. dispatch A api r a = (Ok resp, a')"
    using layers_answer [OF assms(1)] routes_answer [OF assms(2)]
    by (auto simp: dispatch_def answers_def split: option.splits)
qed

text \<open>
  C21. Every request is answered: the application with a configuration that was built from the
  environment returns a response to any request, whatever the path, the method, the headers and the
  body, and whatever the store, the key service and the limiters do, as long as the digests yield
  tags, the CORS layer keeps its contract and the configured lifetimes fit the calendar.
\<close>

theorem every_request_answered:
  assumes "auth_config_from_env e = Inr (ap_auth A)" and "tag_bytes (ap_hmac A)" and "cors_law (ap_cors A)"
    and "calendar_holds (ap_deps A) (w_utc (aw_world a))"
  shows "\<exists>resp a'. app_service pattern A (configure_api (ap_auth A) vl il origins) r a = (Ok resp, a')"
proof -
  let ?I = "on_clock (w_utc (aw_world a)) :: ('f, 'g, 'h) app_world \<Rightarrow> bool"
  have "tv_step (ac_totp (ap_auth A)) \<noteq> 0"
    using built_step_not_zero [OF assms(1)] .
  then have "answers ?I (dispatch A (configure_api (ap_auth A) vl il origins))"
    by (intro dispatch_answers layer_middleware endpoint_answers assms)
  then have "answers ?I (app_service pattern A (configure_api (ap_auth A) vl il origins))"
    unfolding app_service_def by (rule log.answers_layer)
  then show ?thesis by (simp add: answers_def on_clock_def)
qed

lemma demo_calendar: "calendar_holds demo_deps (w_utc demo_world)"
  unfolding calendar_holds_def
proof (intro allI impI)
  fix n ttl and secs :: u64
  assume "expiration_seconds (dp_env demo_deps) ttl = Inr secs"
  then have "secs \<le> 86400"
    by (auto simp: expiration_seconds_def demo_deps_def env_u64_def env_or_def parse_u64_def parse_unsigned_def
        parse_dec_def strip_plus_def is_digit_def digit_val_def byte_of_def split: option.splits if_splits)
  then have u: "unat secs \<le> 86400" by (simp add: word_le_nat_alt)
  then have "as_i64 secs = int (unat secs)" by (intro as_i64_small) simp
  then have "\<bar>as_i64 secs\<bar> \<le> 86400" using u by linarith
  then show "dp_plus demo_deps (w_utc demo_world n) (as_i64 secs) \<noteq> None"
    by (simp add: demo_deps_def demo_world_def)
qed

lemma every_request_answered_witness:
  "\<exists>c resp a'. app_service (\<lambda>_. None) (demo_app_deps\<lparr>ap_auth := c\<rparr>)
     (configure_api c (None :: unit per_ip_limiter option) (None :: (unit \<times> nat) option) [])
     (demo_get ''POST'' ''/tokens'') \<lparr>aw_world = demo_world, aw_limits = 0\<rparr> = (Ok resp, a')"
proof -
  obtain c where c: "auth_config_from_env demo_auth_env = Inr c" using demo_auth_built by blast
  let ?A = "demo_app_deps\<lparr>ap_auth := c\<rparr>"
  have "auth_config_from_env demo_auth_env = Inr (ap_auth ?A)" "tag_bytes (ap_hmac ?A)" "cors_law (ap_cors ?A)"
    using c demo_hmac_bytes demo_cors by (simp_all add: demo_app_deps_def)
  moreover have "calendar_holds (ap_deps ?A) (w_utc (aw_world \<lparr>aw_world = demo_world, aw_limits = 0\<rparr>))"
    by (simp add: demo_calendar demo_app_deps_def)
  ultimately show ?thesis
    using every_request_answered [of demo_auth_env ?A "\<lparr>aw_world = demo_world, aw_limits = 0\<rparr>" "\<lambda>_. None" None None "[]" "demo_get ''POST'' ''/tokens''"]
    by simp blast
qed

end
