(* ===== verification/Propagation.thy ===== *)
theory Propagation
  imports Request_Log
begin

text \<open>
  The trace context on its way between services (\<open>src/tracing_otel.rs\<close>): how the W3C propagator reads
  the headers of an incoming request and writes those of an outgoing one. The propagator is a foreign
  crate's: it reads through the extractor and writes one field at a time through the injector.
\<close>

record 'c propagator =
  pr_extract :: "(string \<Rightarrow> string option) \<Rightarrow> string list \<Rightarrow> 'c"
  pr_fields :: "'c \<Rightarrow> (string \<times> string) list"

section \<open>Reading\<close>

definition extractor_get :: "headers \<Rightarrow> string \<Rightarrow> string option" where
  "extractor_get hs key = (case header_get hs key of None \<Rightarrow> None | Some v \<Rightarrow> hv_text v)"

definition extractor_keys :: "headers \<Rightarrow> string list" where
  "extractor_keys hs = remdups (map fst hs)"

definition extract_parent_context :: "'c propagator \<Rightarrow> headers \<Rightarrow> 'c" where
  "extract_parent_context P hs = pr_extract P (extractor_get hs) (extractor_keys hs)"

section \<open>Writing\<close>

text \<open>\<open>HeaderName::from_bytes\<close>: the characters of a token, put in lower case, at most 65535 of them.\<close>

definition is_token_char :: "char \<Rightarrow> bool" where
  "is_token_char c \<longleftrightarrow> is_ascii_alphanumeric c \<or> c \<in> set ''!#$%&*+-.^_|~'' \<or> byte_of c = 39 \<or> byte_of c = 96"

definition header_name_from_bytes :: "string \<Rightarrow> string option" where
  "header_name_from_bytes s =
     (if s \<noteq> [] \<and> length s \<le> 65535 \<and> list_all is_token_char s then Some (to_ascii_lowercase s) else None)"

type_synonym outgoing = "(string \<times> string) list"

definition injector_set :: "string \<Rightarrow> string \<Rightarrow> outgoing \<Rightarrow> outgoing" where
  "injector_set key v hs =
     (case (header_name_from_bytes key, header_value_from_str v) of
        (Some name, Some val) \<Rightarrow> filter (\<lambda>h. fst h \<noteq> name) hs @ [(name, val)]
      | _ \<Rightarrow> hs)"

definition inject_context :: "'c propagator \<Rightarrow> 'c \<Rightarrow> outgoing" where
  "inject_context P context = foldl (\<lambda>hs (key, v). injector_set key v hs) [] (pr_fields P context)"

section \<open>The way through the wire\<close>

text \<open>A header as the next service receives it: \<open>to_str\<close> answers for visible ASCII, the space and the tab.\<close>

definition plain_header_char :: "char \<Rightarrow> bool" where
  "plain_header_char c \<longleftrightarrow> 32 \<le> byte_of c \<and> byte_of c < 127 \<or> byte_of c = 9"

definition received :: "outgoing \<Rightarrow> headers" where
  "received hs = map (\<lambda>(name, v). (name, \<lparr>hv_bytes = v, hv_text = (if list_all plain_header_char v then Some v else None)\<rparr>)) hs"

definition good_field :: "string \<times> string \<Rightarrow> bool" where
  "good_field kv \<longleftrightarrow> header_name_from_bytes (fst kv) \<noteq> None \<and> list_all plain_header_char (snd kv)"

lemma plain_value: "list_all plain_header_char v \<Longrightarrow> header_value_from_str v = Some v"
  by (auto simp: header_value_from_str_def list_all_iff plain_header_char_def)

lemma inject_good:
  "\<forall>kv \<in> set kvs. good_field kv \<Longrightarrow> distinct (map (\<lambda>kv. to_ascii_lowercase (fst kv)) kvs) \<Longrightarrow>
     \<forall>kv \<in> set kvs. to_ascii_lowercase (fst kv) \<notin> fst ` set hs \<Longrightarrow>
     foldl (\<lambda>hs (key, v). injector_set key v hs) hs kvs = hs @ map (\<lambda>(k, v). (to_ascii_lowercase k, v)) kvs"
proof (induction kvs arbitrary: hs)
  case Nil
  then show ?case by simp
next
  case (Cons kv kvs)
  obtain k v where kv: "kv = (k, v)" by fastforce
  have g: "header_name_from_bytes k = Some (to_ascii_lowercase k)" "header_value_from_str v = Some v"
    using Cons.prems(1) kv by (auto simp: good_field_def plain_value header_name_from_bytes_def split: if_splits)
  have "filter (\<lambda>h. fst h \<noteq> to_ascii_lowercase k) hs = hs"
    using Cons.prems(3) kv by (force simp: filter_id_conv)
  then have s: "injector_set k v hs = hs @ [(to_ascii_lowercase k, v)]" using g by (simp add: injector_set_def)
  have "foldl (\<lambda>hs (key, v). injector_set key v hs) (hs @ [(to_ascii_lowercase k, v)]) kvs =
      (hs @ [(to_ascii_lowercase k, v)]) @ map (\<lambda>(k, v). (to_ascii_lowercase k, v)) kvs"
  proof (rule Cons.IH)
    have new: "to_ascii_lowercase k \<notin> (\<lambda>kv. to_ascii_lowercase (fst kv)) ` set kvs" using Cons.prems(2) kv by simp
    show "\<forall>kv \<in> set kvs. to_ascii_lowercase (fst kv) \<notin> fst ` set (hs @ [(to_ascii_lowercase k, v)])"
    proof (intro ballI)
      fix x
      assume x: "x \<in> set kvs"
      have "to_ascii_lowercase (fst x) \<noteq> to_ascii_lowercase k"
        using imageI [OF x, of "\<lambda>kv. to_ascii_lowercase (fst kv)"] new by metis
      then show "to_ascii_lowercase (fst x) \<notin> fst ` set (hs @ [(to_ascii_lowercase k, v)])"
        using Cons.prems(3) x by simp
    qed
  qed (use Cons.prems in simp_all)
  then show ?case using s kv by simp
qed

text \<open>
  The trace context survives the way to the next service: every field the propagator writes for a
  context is read back unchanged from the headers of the request it was put into, by its name in any
  case, when the fields have names of header characters that differ not only in case and values of
  plain text; and a field that is no header is left out without spoiling the others.
\<close>

theorem trace_context_roundtrip:
  assumes "\<forall>kv \<in> set (pr_fields P context). good_field kv"
    and "distinct (map (\<lambda>kv. to_ascii_lowercase (fst kv)) (pr_fields P context))"
    and "(k, v) \<in> set (pr_fields P context)" and "eq_ignore_ascii_case k' k"
  shows "extractor_get (received (inject_context P context)) k' = Some v \<and>
     (header_name_from_bytes bad = None \<longrightarrow> injector_set bad v' (inject_context P context) = inject_context P context)"
proof -
  let ?kvs = "pr_fields P context"
  have e: "inject_context P context = map (\<lambda>(k, v). (to_ascii_lowercase k, v)) ?kvs"
    using inject_good [OF assms(1,2), of "[]"] by (simp add: inject_context_def)
  have r: "received (inject_context P context) =
      map (\<lambda>(k, v). (to_ascii_lowercase k, \<lparr>hv_bytes = v, hv_text = Some v\<rparr>)) ?kvs"
    using assms(1) unfolding e received_def by (auto simp: good_field_def)
  have "map_of (map (\<lambda>(k, v). (to_ascii_lowercase k, \<lparr>hv_bytes = v, hv_text = Some v\<rparr>)) ?kvs) (to_ascii_lowercase k)
      = Some \<lparr>hv_bytes = v, hv_text = Some v\<rparr>"
  proof (rule map_of_is_SomeI)
    show "distinct (map fst (map (\<lambda>(k, v). (to_ascii_lowercase k, \<lparr>hv_bytes = v, hv_text = Some v\<rparr>)) ?kvs))"
      using assms(2) by (simp add: comp_def split_def)
    show "(to_ascii_lowercase k, \<lparr>hv_bytes = v, hv_text = Some v\<rparr>)
        \<in> set (map (\<lambda>(k, v). (to_ascii_lowercase k, \<lparr>hv_bytes = v, hv_text = Some v\<rparr>)) ?kvs)"
      using assms(3) by force
  qed
  then have "extractor_get (received (inject_context P context)) k' = Some v"
    using assms(4) by (simp add: r extractor_get_def header_get_def eq_ignore_ascii_case_def)
  then show ?thesis by (simp add: injector_set_def)
qed

section \<open>Witness\<close>

definition demo_propagator :: "string propagator" where
  "demo_propagator = \<lparr>pr_extract = \<lambda>get keys. (case get ''traceparent'' of Some v \<Rightarrow> v | None \<Rightarrow> []),
     pr_fields = \<lambda>c. [(''Traceparent'', c)]\<rparr>"

lemma trace_context_roundtrip_witness:
  "extract_parent_context demo_propagator (received (inject_context demo_propagator ''00-1-2-01'')) = ''00-1-2-01''"
proof -
  have n: "header_name_from_bytes ''Traceparent'' \<noteq> None"
    by (simp add: header_name_from_bytes_def is_token_char_def is_ascii_alphanumeric_def byte_of_def)
  have p: "list_all plain_header_char ''00-1-2-01''" by (simp add: plain_header_char_def byte_of_def)
  have "eq_ignore_ascii_case ''traceparent'' ''Traceparent''"
    by (simp add: eq_ignore_ascii_case_def to_ascii_lowercase_def ascii_lower_def byte_of_def char_of_def bit_iff_odd)
  then have "extractor_get (received (inject_context demo_propagator ''00-1-2-01'')) ''traceparent'' = Some ''00-1-2-01''"
    using trace_context_roundtrip [of demo_propagator "''00-1-2-01''" "''Traceparent''" "''00-1-2-01''" "''traceparent''"] n p
    by (simp add: demo_propagator_def good_field_def)
  then show ?thesis by (simp add: extract_parent_context_def demo_propagator_def)
qed

end
