(* ===== verification/Openapi.thy ===== *)
theory Openapi
  imports App_Correct
begin

text \<open>
  The OpenAPI description of the service: the operations the attributes of the handlers in
  \<open>src/handlers.rs\<close> describe, the list \<open>ApiDoc\<close> of \<open>src/openapi.rs\<close> puts into the document and the
  security schemes its modifier adds; then how the document compares with the routes of
  \<open>configure_api\<close>. The generation of the JSON text is the utoipa crate's.
\<close>

section \<open>The document\<close>

text \<open>One operation: what a \<open>utoipa::path\<close> attribute says, and the handler it sits on.\<close>

record operation =
  op_handler :: endpoint
  op_method :: string
  op_path :: string
  op_request :: "string option"
  op_security :: "string list"
  op_responses :: "nat list"

definition create_token_operation :: operation where
  "create_token_operation =
     \<lparr>op_handler = CreateToken, op_method = ''POST'', op_path = ''/tokens'',
      op_request = Some ''TokenRequest'', op_security = [''totp''], op_responses = create_token_responses\<rparr>"

definition verify_token_operation :: operation where
  "verify_token_operation =
     \<lparr>op_handler = VerifyToken, op_method = ''POST'', op_path = ''/tokens/verify'',
      op_request = Some ''TokenVerifyRequest'', op_security = [''proxy_secret''],
      op_responses = verify_token_responses\<rparr>"

definition refresh_token_operation :: operation where
  "refresh_token_operation =
     \<lparr>op_handler = RefreshToken, op_method = ''POST'', op_path = ''/tokens/refresh'',
      op_request = Some ''RefreshRequest'', op_security = [''totp''], op_responses = refresh_token_responses\<rparr>"

definition revoke_token_operation :: operation where
  "revoke_token_operation =
     \<lparr>op_handler = RevokeToken, op_method = ''DELETE'', op_path = ''/tokens/{jti}'',
      op_request = None, op_security = [''totp''], op_responses = revoke_token_responses\<rparr>"

definition revoke_subject_operation :: operation where
  "revoke_subject_operation =
     \<lparr>op_handler = RevokeSubject, op_method = ''DELETE'', op_path = ''/subjects/{sub}/tokens'',
      op_request = None, op_security = [''totp''], op_responses = revoke_subject_tokens_responses\<rparr>"

definition metrics_operation :: operation where
  "metrics_operation =
     \<lparr>op_handler = MetricsText, op_method = ''GET'', op_path = ''/metrics'',
      op_request = None, op_security = [], op_responses = metrics_responses\<rparr>"

definition livez_operation :: operation where
  "livez_operation =
     \<lparr>op_handler = Livez, op_method = ''GET'', op_path = ''/livez'',
      op_request = None, op_security = [], op_responses = livez_responses\<rparr>"

definition readyz_operation :: operation where
  "readyz_operation =
     \<lparr>op_handler = Readyz, op_method = ''GET'', op_path = ''/readyz'',
      op_request = None, op_security = [], op_responses = readyz_responses\<rparr>"

text \<open>A security scheme: an API key in a header, or HTTP bearer authentication.\<close>

datatype scheme_kind = ApiKeyHeader string | HttpBearer

record security_scheme =
  ss_kind :: scheme_kind
  ss_description :: string

record document =
  do_paths :: "operation list"
  do_schemas :: "string list"
  do_schemes :: "(string \<times> security_scheme) list"

text \<open>\<open>SecurityAddon::modify\<close>: it adds to the components, which exist once a schema is listed.\<close>

definition security_addon :: "document \<Rightarrow> document" where
  "security_addon d =
     (if do_schemas d = [] then d
      else d\<lparr>do_schemes := do_schemes d @
        [(''proxy_secret'', \<lparr>ss_kind = ApiKeyHeader ''X-Proxy-Secret'',
            ss_description = ''Level 2: a static secret injected by the reverse proxy. '' @
              ''The proxy MUST strip the client-supplied version of the header.''\<rparr>),
         (''totp'', \<lparr>ss_kind = ApiKeyHeader ''X-TOTP-Code'',
            ss_description = ''Level 3: the current TOTP code (RFC 6238) over the shared secret.''\<rparr>),
         (''metrics_token'', \<lparr>ss_kind = HttpBearer,
            ss_description = ''Level 4: a static bearer token for scraping /metrics (AUTH_METRICS_TOKEN).''\<rparr>)]\<rparr>)"

definition api_doc :: document where
  "api_doc = security_addon
     \<lparr>do_paths = [create_token_operation, verify_token_operation, refresh_token_operation,
        revoke_token_operation, revoke_subject_operation, livez_operation, readyz_operation,
        metrics_operation],
      do_schemas = [''TokenRequest'', ''TokenResponse'', ''ErrorResponse'', ''ReadinessResponse'',
        ''RefreshRequest'', ''RevokeGroupResponse''],
      do_schemes = []\<rparr>"

lemmas operation_defs = create_token_operation_def verify_token_operation_def refresh_token_operation_def
  revoke_token_operation_def revoke_subject_operation_def metrics_operation_def livez_operation_def
  readyz_operation_def

lemma api_doc_paths:
  "do_paths api_doc = [create_token_operation, verify_token_operation, refresh_token_operation,
     revoke_token_operation, revoke_subject_operation, livez_operation, readyz_operation, metrics_operation]"
  by (simp add: api_doc_def security_addon_def)

section \<open>The routes of the application\<close>

text \<open>Every route with the layers around it: of a resource, or of the scope.\<close>

definition api_routes :: "api \<Rightarrow> (string \<times> string \<times> endpoint \<times> layer list) list" where
  "api_routes api =
     concat (map (\<lambda>re. map (\<lambda>(m, ep). (re_path re, m, ep, re_layers re)) (re_routes re)) (api_resources api)) @
     map (\<lambda>(p, m, ep). (p, m, ep, so_layers (api_scope api))) (so_routes (api_scope api))"

definition triple_of :: "operation \<Rightarrow> string \<times> string \<times> endpoint" where
  "triple_of o' = (op_path o', op_method o', op_handler o')"

definition routed :: "api \<Rightarrow> (string \<times> string \<times> endpoint) set" where
  "routed api = (\<lambda>(p, m, ep, ls). (p, m, ep)) ` set (api_routes api)"

lemma api_routes_table:
  "set (api_routes (configure_api auth vl il origins)) =
     (let internal = [RateLayer (rate_limit_global il), AuthLayer Totp, CorsLayer deny_cors];
          open_scope = [AuthLayer Open, CorsLayer deny_cors] in
      {(''/tokens'', ''POST'', CreateToken, internal),
       (''/tokens/verify'', ''POST'', VerifyToken, [AuthLayer ProxySecret, RateLayer (rate_limit_per_ip vl),
          CorsLayer (verify_cors origins)]),
       (''/tokens/refresh'', ''POST'', RefreshToken, internal),
       (''/tokens/{jti}'', ''DELETE'', RevokeToken, internal),
       (''/subjects/{sub}/tokens'', ''DELETE'', RevokeSubject, internal),
       (''/api-docs/openapi.json'', ''GET'', OpenApi, open_scope),
       (''/livez'', ''GET'', Livez, open_scope), (''/readyz'', ''GET'', Readyz, open_scope)} \<union>
      (if metrics_enabled auth
       then {(''/metrics'', ''GET'', MetricsText, [AuthLayer MetricsToken, CorsLayer deny_cors])} else {}))"
  by (auto simp: api_routes_def configure_api_def Let_def)

text \<open>
  The document lists the application and nothing else: every operation it describes is routed,
  with that method, on that path and to the handler whose attribute describes it, and every route is
  described but the one that serves the document. The metrics are described also where the
  configuration does not publish them.
\<close>

theorem document_lists_routes:
  "triple_of ` set (do_paths api_doc) \<union> {(''/api-docs/openapi.json'', ''GET'', OpenApi)} =
     routed (configure_api auth vl il origins) \<union> {(''/metrics'', ''GET'', MetricsText)}"
proof -
  have "triple_of ` set (do_paths api_doc) = {(''/tokens'', ''POST'', CreateToken),
      (''/tokens/verify'', ''POST'', VerifyToken), (''/tokens/refresh'', ''POST'', RefreshToken),
      (''/tokens/{jti}'', ''DELETE'', RevokeToken), (''/subjects/{sub}/tokens'', ''DELETE'', RevokeSubject),
      (''/livez'', ''GET'', Livez), (''/readyz'', ''GET'', Readyz), (''/metrics'', ''GET'', MetricsText)}"
    by (simp add: api_doc_paths triple_of_def operation_defs)
  moreover have "routed (configure_api auth vl il origins) \<union> {(''/metrics'', ''GET'', MetricsText)} =
      {(''/tokens'', ''POST'', CreateToken),
      (''/tokens/verify'', ''POST'', VerifyToken), (''/tokens/refresh'', ''POST'', RefreshToken),
      (''/tokens/{jti}'', ''DELETE'', RevokeToken), (''/subjects/{sub}/tokens'', ''DELETE'', RevokeSubject),
      (''/livez'', ''GET'', Livez), (''/readyz'', ''GET'', Readyz), (''/metrics'', ''GET'', MetricsText),
      (''/api-docs/openapi.json'', ''GET'', OpenApi)}"
    unfolding routed_def api_routes_table by (auto simp: Let_def)
  ultimately show ?thesis by auto
qed

section \<open>Levels and schemes\<close>

text \<open>The scheme that describes a level, and what the layers of a route say of it.\<close>

fun scheme_of :: "auth_level \<Rightarrow> string list" where
  "scheme_of Open = []"
| "scheme_of ProxySecret = [''proxy_secret'']"
| "scheme_of Totp = [''totp'']"
| "scheme_of MetricsToken = [''metrics_token'']"

fun layer_scheme :: "layer \<Rightarrow> string list" where
  "layer_scheme (AuthLayer level) = scheme_of level"
| "layer_scheme _ = []"

fun is_rate_layer :: "layer \<Rightarrow> bool" where
  "is_rate_layer (RateLayer _) = True"
| "is_rate_layer _ = False"

fun layers_of :: "'q per_ip_limiter option \<Rightarrow> ('q \<times> nat) option \<Rightarrow> string list \<Rightarrow> endpoint \<Rightarrow> layer list" where
  "layers_of vl il origins VerifyToken =
     [AuthLayer ProxySecret, RateLayer (rate_limit_per_ip vl), CorsLayer (verify_cors origins)]"
| "layers_of vl il origins MetricsText = [AuthLayer MetricsToken, CorsLayer deny_cors]"
| "layers_of vl il origins ep =
     (if ep \<in> {OpenApi, Livez, Readyz} then [AuthLayer Open, CorsLayer deny_cors]
      else [RateLayer (rate_limit_global il), AuthLayer Totp, CorsLayer deny_cors])"

lemma route_layers:
  "(p, m, ep, ls) \<in> set (api_routes (configure_api auth vl il origins)) \<Longrightarrow> ls = layers_of vl il origins ep"
  unfolding api_routes_table Let_def by (simp split: if_splits) (elim disjE conjE; simp)+

lemmas response_defs = create_token_responses_def verify_token_responses_def refresh_token_responses_def
  revoke_token_responses_def revoke_subject_tokens_responses_def livez_responses_def readyz_responses_def
  metrics_responses_def

text \<open>
  C36. The document tells the truth about access: of every operation but the metrics, the security
  scheme it names is that of the level the route sits behind, 401 is described exactly where a level
  can deny, and 429 exactly where a rate limit stands. The two key schemes name the headers the
  service reads when nothing else is configured. The metrics are the exception: the scheme of their
  level is declared, but the operation neither requires it nor describes its 401.
\<close>

theorem document_tells_access:
  assumes "o' \<in> set (do_paths api_doc)"
    and "(op_path o', op_method o', op_handler o', ls) \<in> set (api_routes (configure_api auth vl il origins))"
    and "auth_config_from_env e = Inr cfg" and "e ''AUTH_PROXY_SECRET_HEADER'' = None" and "e ''AUTH_TOTP_HEADER'' = None"
  shows "(op_handler o' \<noteq> MetricsText \<longrightarrow>
       op_security o' = concat (map layer_scheme ls) \<and>
       (401 \<in> set (op_responses o') \<longleftrightarrow> concat (map layer_scheme ls) \<noteq> []) \<and>
       (429 \<in> set (op_responses o') \<longleftrightarrow> list_ex is_rate_layer ls)) \<and>
     (op_handler o' = MetricsText \<longrightarrow>
       concat (map layer_scheme ls) = [''metrics_token''] \<and> op_security o' = [] \<and> 401 \<notin> set (op_responses o')) \<and>
     set (concat (map layer_scheme ls)) \<subseteq> fst ` set (do_schemes api_doc) \<and>
     map_option ss_kind (map_of (do_schemes api_doc) ''proxy_secret'') = Some (ApiKeyHeader (pv_header (ac_proxy cfg))) \<and>
     map_option ss_kind (map_of (do_schemes api_doc) ''totp'') = Some (ApiKeyHeader (tv_header (ac_totp cfg)))"
proof -
  have s: "do_schemes api_doc = do_schemes (security_addon \<lparr>do_paths = [], do_schemas = [''x''], do_schemes = []\<rparr>)"
    by (simp add: api_doc_def security_addon_def)
  have h: "pv_header (ac_proxy cfg) = ''X-Proxy-Secret''" "tv_header (ac_totp cfg) = ''X-TOTP-Code''"
    using assms(3-5) by (auto simp: auth_config_from_env_def env_or_def split: if_splits)
  have names: "fst ` set (do_schemes api_doc) = {''proxy_secret'', ''totp'', ''metrics_token''}"
    and kinds: "map_option ss_kind (map_of (do_schemes api_doc) ''proxy_secret'') = Some (ApiKeyHeader ''X-Proxy-Secret'')"
      "map_option ss_kind (map_of (do_schemes api_doc) ''totp'') = Some (ApiKeyHeader ''X-TOTP-Code'')"
    unfolding s by (simp_all add: security_addon_def)
  have ops: "o' \<in> {create_token_operation, verify_token_operation, refresh_token_operation,
     revoke_token_operation, revoke_subject_operation, livez_operation, readyz_operation, metrics_operation}"
    using assms(1) by (simp add: api_doc_paths)
  note l = route_layers [OF assms(2)]
  show ?thesis
    unfolding h names kinds
    using ops by (elim insertE emptyE; simp add: l operation_defs response_defs)
qed

lemma document_tells_access_witness:
  "\<exists>cfg ls. auth_config_from_env demo_auth_env = Inr cfg \<and>
     (''/tokens'', ''POST'', CreateToken, ls) \<in> set (api_routes demo_api) \<and>
     op_security create_token_operation = concat (map layer_scheme ls) \<and>
     map_option ss_kind (map_of (do_schemes api_doc) ''totp'') = Some (ApiKeyHeader (tv_header (ac_totp cfg)))"
proof -
  obtain cfg where c: "auth_config_from_env demo_auth_env = Inr cfg" using demo_auth_built by blast
  let ?ls = "[RateLayer (rate_limit_global (None :: (unit \<times> nat) option)), AuthLayer Totp, CorsLayer deny_cors]"
  have o: "create_token_operation \<in> set (do_paths api_doc)" by (simp add: api_doc_paths)
  have r: "(''/tokens'', ''POST'', CreateToken, ?ls) \<in> set (api_routes demo_api)"
    unfolding api_routes_table Let_def by simp
  have r': "(op_path create_token_operation, op_method create_token_operation, op_handler create_token_operation, ?ls)
      \<in> set (api_routes demo_api)"
    using r by (simp add: create_token_operation_def)
  have h: "demo_auth_env ''AUTH_PROXY_SECRET_HEADER'' = None" "demo_auth_env ''AUTH_TOTP_HEADER'' = None"
    by (simp_all add: demo_auth_env_def)
  from document_tells_access [OF o r' c h] c r show ?thesis
    by (intro exI [of _ cfg] exI [of _ ?ls] conjI) (simp_all add: create_token_operation_def)
qed

end
