(* ===== verification/Metrics.thy ===== *)
theory Metrics
  imports Complex_Main App_Correct
begin

text \<open>
  The metrics (\<open>src/metrics.rs\<close>): what each recording function tells the recorder, with the names and
  labels of the series, and how many series the requests of clients can create. The recorder itself
  and the text exposition are foreign crates'. An event of type \<open>metric\<close>, which the other theories
  leave in the world, is one call of a recording function here; latencies are in seconds.
\<close>

definition LATENCY_BUCKETS :: "rat list" where
  "LATENCY_BUCKETS = [1/1000, 5/1000, 1/100, 25/1000, 5/100, 1/10, 25/100, 1/2, 1, 5/2, 5, 10]"

text \<open>A series is a name with labels; a counter goes up by one, a histogram takes one value.\<close>

type_synonym labels = "(string \<times> string) list"

datatype sample =
    Increment (sa_name: string) (sa_labels: labels)
  | Observe (sa_name: string) (sa_labels: labels) rat

text \<open>\<open>to_string\<close> of a flag.\<close>

definition bool_str :: "bool \<Rightarrow> string" where
  "bool_str b = (if b then ''true'' else ''false'')"

definition record_http_request :: "string \<Rightarrow> string \<Rightarrow> nat \<Rightarrow> rat \<Rightarrow> sample list" where
  "record_http_request meth endpoint status latency =
     (let labels = [(''method'', meth), (''endpoint'', endpoint)] in
      [Increment ''http_requests_total''
         [(''method'', meth), (''endpoint'', endpoint), (''status'', show_dec status)],
       Observe ''http_request_duration_seconds'' labels latency])"

definition record_token_issued :: "sample list" where
  "record_token_issued = [Increment ''jwt_tokens_issued_total'' []]"

definition record_token_revoked :: "sample list" where
  "record_token_revoked = [Increment ''jwt_tokens_revoked_total'' []]"

definition record_token_verified :: "bool \<Rightarrow> sample list" where
  "record_token_verified success =
     [Increment ''jwt_tokens_verified_total'' [(''result'', if success then ''success'' else ''failure'')]]"

definition record_auth_denied :: "string \<Rightarrow> sample list" where
  "record_auth_denied level = [Increment ''jwt_auth_denied_total'' [(''level'', level)]]"

definition record_rate_limited :: "sample list" where
  "record_rate_limited = [Increment ''jwt_rate_limit_exceeded_total'' []]"

definition record_jwks_request :: "string \<Rightarrow> bool \<Rightarrow> rat \<Rightarrow> sample list" where
  "record_jwks_request operation success latency =
     [Observe ''jwks_request_duration_seconds'' [(''operation'', operation), (''success'', bool_str success)] latency]"

definition record_jwks_cache :: "string \<Rightarrow> sample list" where
  "record_jwks_cache result = [Increment ''jwks_cache_total'' [(''result'', result)]]"

definition record_redis :: "string \<Rightarrow> bool \<Rightarrow> rat \<Rightarrow> sample list" where
  "record_redis cmd success latency =
     [Observe ''redis_command_duration_seconds'' [(''command'', cmd), (''success'', bool_str success)] latency]"

text \<open>The samples of an event, with the latency that was measured.\<close>

fun samples_of :: "metric \<Rightarrow> rat \<Rightarrow> sample list" where
  "samples_of (HttpRequest meth endpoint status) latency = record_http_request meth endpoint status latency"
| "samples_of TokenIssued _ = record_token_issued"
| "samples_of TokenRevoked _ = record_token_revoked"
| "samples_of (TokenVerified success) _ = record_token_verified success"
| "samples_of (AuthDenied level) _ = record_auth_denied level"
| "samples_of RateLimited _ = record_rate_limited"
| "samples_of (JwksRequest operation success) latency = record_jwks_request operation success latency"
| "samples_of (JwksCache result) _ = record_jwks_cache result"
| "samples_of (RedisCommand cmd success) latency = record_redis cmd success latency"

lemmas record_defs = record_http_request_def record_token_issued_def record_token_revoked_def
  record_token_verified_def record_auth_denied_def record_rate_limited_def record_jwks_request_def
  record_jwks_cache_def record_redis_def

text \<open>The naming convention: exactly the counters carry \<open>_total\<close>, exactly the latencies \<open>_seconds\<close>.\<close>

definition ends_with :: "string \<Rightarrow> string \<Rightarrow> bool" where
  "ends_with suffix s \<longleftrightarrow> drop (length s - length suffix) s = suffix"

lemma naming_convention:
  "s \<in> set (samples_of m latency) \<Longrightarrow>
     (case s of Increment n _ \<Rightarrow> ends_with ''_total'' n | Observe n _ _ \<Rightarrow> ends_with ''_seconds'' n)"
  by (cases m) (auto simp: record_defs Let_def ends_with_def)

lemma buckets_sorted: "sorted_wrt (<) LATENCY_BUCKETS \<and> LATENCY_BUCKETS \<noteq> []"
  by (simp add: LATENCY_BUCKETS_def)

section \<open>The series of the requests\<close>

text \<open>actix's \<open>match_pattern\<close> on the routes of the application: the template of the first match.\<close>

fun match_template :: "string list \<Rightarrow> string \<Rightarrow> string option" where
  "match_template [] path = None"
| "match_template (t # ts) path = (if match_path t path \<noteq> None then Some t else match_template ts path)"

definition templates :: "api \<Rightarrow> string list" where
  "templates api = map re_path (api_resources api) @ map fst (so_routes (api_scope api))"

definition route_pattern :: "api \<Rightarrow> request \<Rightarrow> string option" where
  "route_pattern api r = match_template (templates api) (rq_path r)"

definition endpoint_labels :: "string list" where
  "endpoint_labels = [''/tokens'', ''/tokens/verify'', ''/tokens/refresh'', ''/tokens/{jti}'',
     ''/subjects/{sub}/tokens'', ''/metrics'', ''/api-docs/openapi.json'', ''/livez'', ''/readyz'', ''unmatched'']"

definition endpoint_label :: "api \<Rightarrow> request \<Rightarrow> string" where
  "endpoint_label api r = (case route_pattern api r of Some p \<Rightarrow> p | None \<Rightarrow> ''unmatched'')"

lemma match_template_mem: "match_template ts path = Some t \<Longrightarrow> t \<in> set ts"
  by (induction ts) (auto split: if_splits)

lemma endpoint_label_fixed: "endpoint_label (configure_api auth vl il origins) r \<in> set endpoint_labels"
proof -
  have t: "set (templates (configure_api auth vl il origins)) \<subseteq> set endpoint_labels"
    by (auto simp: templates_def configure_api_def endpoint_labels_def Let_def)
  show ?thesis
  proof (cases "route_pattern (configure_api auth vl il origins) r")
    case None
    then show ?thesis by (simp add: endpoint_label_def endpoint_labels_def)
  next
    case (Some p)
    then show ?thesis using t match_template_mem by (fastforce simp: endpoint_label_def route_pattern_def)
  qed
qed

text \<open>The series a stream of requests creates, each request with the status of its answer.\<close>

definition request_series :: "api \<Rightarrow> (request \<times> nat) list \<Rightarrow> (string \<times> labels) set" where
  "request_series api xs =
     (\<Union>(r, status) \<in> set xs. (\<lambda>s. (sa_name s, sa_labels s)) `
        set (record_http_request (rq_method r) (endpoint_label api r) status 0))"

lemma request_series_Un:
  "request_series api xs =
     (\<lambda>(r, st). (''http_requests_total'', [(''method'', rq_method r), (''endpoint'', endpoint_label api r),
        (''status'', show_dec st)])) ` set xs \<union>
     (\<lambda>(r, st). (''http_request_duration_seconds'', [(''method'', rq_method r), (''endpoint'', endpoint_label api r)])) ` set xs"
  by (auto simp: request_series_def record_http_request_def Let_def)

text \<open>Requests for the liveness probe that differ in their methods only, tokens of letters the client makes up.\<close>

definition odd_method :: "nat \<Rightarrow> request" where
  "odd_method k = \<lparr>rq_method = replicate (Suc k) (CHR ''A''), rq_path = ''/livez'', rq_headers = [],
     rq_peer = None, rq_body = []\<rparr>"

lemma odd_series:
  "n \<le> card (request_series api (map (\<lambda>k. (odd_method k, 404)) [0..<n]))"
proof -
  let ?xs = "map (\<lambda>k. (odd_method k, 404)) [0..<n]"
  let ?f = "\<lambda>k. (''http_request_duration_seconds'', [(''method'', rq_method (odd_method k)), (''endpoint'', endpoint_label api (odd_method k))])"
  have "inj_on ?f {0..<n}" by (auto simp: inj_on_def odd_method_def dest: arg_cong [where f = length])
  then have n: "card (?f ` {0..<n}) = n" by (simp add: card_image)
  have sub: "?f ` {0..<n} \<subseteq> request_series api ?xs" unfolding request_series_Un by auto
  have fin: "finite (request_series api ?xs)" unfolding request_series_Un by simp
  show ?thesis using card_mono [OF fin sub] unfolding n .
qed

lemma request_series_bound:
  "card (request_series (configure_api auth vl il origins) xs) \<le>
     card (rq_method ` fst ` set xs) * 10 * (card (snd ` set xs) + 1)"
proof -
  let ?api = "configure_api auth vl il origins" and ?M = "rq_method ` fst ` set xs" and ?S = "snd ` set xs"
  let ?E = "set endpoint_labels"
  let ?c = "\<lambda>(m, e, st). (''http_requests_total'', [(''method'', m), (''endpoint'', e), (''status'', show_dec st)])"
  let ?h = "\<lambda>(m, e). (''http_request_duration_seconds'', [(''method'', m), (''endpoint'', e)])"
  have E: "card ?E \<le> 10" using card_length [of endpoint_labels] by (simp add: endpoint_labels_def)
  have p: "rq_method (fst x) \<in> ?M" "endpoint_label ?api (fst x) \<in> ?E" "snd x \<in> ?S" if "x \<in> set xs" for x
    using that endpoint_label_fixed by auto
  have c: "(case x of (r, st) \<Rightarrow> (''http_requests_total'', [(''method'', rq_method r), (''endpoint'', endpoint_label ?api r),
        (''status'', show_dec st)])) \<in> ?c ` (?M \<times> ?E \<times> ?S)" if "x \<in> set xs" for x
    by (rule image_eqI [where x = "(rq_method (fst x), endpoint_label ?api (fst x), snd x)"])
      (use p [OF that] in \<open>simp_all add: split_def\<close>)
  have h: "(case x of (r, st) \<Rightarrow> (''http_request_duration_seconds'', [(''method'', rq_method r),
        (''endpoint'', endpoint_label ?api r)])) \<in> ?h ` (?M \<times> ?E)" if "x \<in> set xs" for x
    by (rule image_eqI [where x = "(rq_method (fst x), endpoint_label ?api (fst x))"])
      (use p [OF that] in \<open>simp_all add: split_def\<close>)
  have "request_series ?api xs \<subseteq> ?c ` (?M \<times> ?E \<times> ?S) \<union> ?h ` (?M \<times> ?E)"
    unfolding request_series_Un using c h by (intro Un_mono image_subsetI)
  then have "card (request_series ?api xs) \<le> card (?c ` (?M \<times> ?E \<times> ?S)) + card (?h ` (?M \<times> ?E))"
    by (intro order_trans [OF card_mono card_Un_le]) auto
  also have "\<dots> \<le> card ?M * (card ?E * card ?S) + card ?M * card ?E"
    by (intro add_mono order_trans [OF card_image_le]) (simp_all add: card_cartesian_product)
  also have "\<dots> = card ?M * (card ?E * (card ?S + 1))" by (simp add: algebra_simps)
  also have "\<dots> \<le> card ?M * (10 * (card ?S + 1))" using E by (intro mult_le_mono) simp_all
  finally show ?thesis by (simp add: algebra_simps)
qed

text \<open>
  C37. How many series clients can create: paths create none, whatever the client asks for, since the
  endpoint is one of ten fixed labels, so the series are at most ten per method and status, and ten
  more per method. The method itself is the client's text: \<open>n\<close> requests with made-up methods, which
  need no credential, create \<open>n\<close> series.
\<close>

theorem request_series_follow_methods:
  "card (request_series (configure_api auth vl il origins) xs) \<le>
     card (rq_method ` fst ` set xs) * 10 * (card (snd ` set xs) + 1) \<and>
   n \<le> card (request_series (configure_api auth vl il origins) (map (\<lambda>k. (odd_method k, 404)) [0..<n]))"
  using request_series_bound odd_series by blast

end
