(* ===== verification/Startup_Log.thy ===== *)
theory Startup_Log
  imports Telemetry App_Correct
begin

text \<open>
  What the process writes to its log while it starts: the outcome of each telemetry signal
  (\<open>Status::log\<close> and \<open>LogsStatus::log\<close> of \<open>src/tracing_otel.rs\<close>, \<open>Status::log\<close> of
  \<open>src/sentry_glitchtip.rs\<close>), then the summaries \<open>main\<close> asks for, in that order. A line is its level and
  an event: the constructor stands for the wording, its arguments are the values the line shows. The
  warnings the readers of single variables write about values they cannot use are left out.
\<close>

section \<open>The lines\<close>

datatype log_event =
    TracingDisabled
  | TracingEnabled string string \<comment> \<open>endpoint, service name\<close>
  | TracingFailed string string \<comment> \<open>endpoint, error\<close>
  | OtlpLogsDisabled
  | OtlpLogsWithoutAddress
  | OtlpLogsEnabled string
  | OtlpLogsFailed string string
  | GlitchtipDisabled
  | GlitchtipEnabled bool bool \<comment> \<open>performance, logs\<close>
  | MetricsUnpublished
  | VerifyLimit u64 u32 nat \<comment> \<open>rate, burst, trusted proxies\<close>
  | NoTrustedProxies
  | VerifyLimitOff
  | InternalLimit u64 u32
  | AnyIssuer
  | AllowedIssuers "string list"
  | HttpServer u64 string u64 u64 u64 \<comment> \<open>workers, their source, the three timeouts\<close>
  | StartingServer string nat

type_synonym log_line = "level \<times> log_event"

fun otel_status_log :: "otel_status \<Rightarrow> log_line" where
  "otel_status_log OtelDisabled = (DebugLevel, TracingDisabled)"
| "otel_status_log (OtelEnabled endpoint name) = (InfoLevel, TracingEnabled endpoint name)"
| "otel_status_log (OtelFailed endpoint error) = (WarnLevel, TracingFailed endpoint error)"

fun logs_status_log :: "logs_status \<Rightarrow> log_line" where
  "logs_status_log LogsDisabled = (DebugLevel, OtlpLogsDisabled)"
| "logs_status_log LogsNoEndpoint = (WarnLevel, OtlpLogsWithoutAddress)"
| "logs_status_log (LogsEnabled endpoint) = (InfoLevel, OtlpLogsEnabled endpoint)"
| "logs_status_log (LogsFailed endpoint error) = (WarnLevel, OtlpLogsFailed endpoint error)"

fun sentry_status_log :: "sentry_status \<Rightarrow> log_line" where
  "sentry_status_log SentryDisabled = (DebugLevel, GlitchtipDisabled)"
| "sentry_status_log (SentryEnabled performance logs) = (InfoLevel, GlitchtipEnabled performance logs)"

definition rate_limit_log_summary :: "rate_limit_config \<Rightarrow> log_line list" where
  "rate_limit_log_summary c =
     (if rl_verify_enabled c
      then (InfoLevel, VerifyLimit (rl_verify_per_second c) (rl_verify_burst c) (length (rl_trusted c))) #
        (if rl_trusted c = [] then [(WarnLevel, NoTrustedProxies)] else [])
      else [(WarnLevel, VerifyLimitOff)]) @
     (if rl_internal_enabled c
      then [(InfoLevel, InternalLimit (rl_internal_per_second c) (rl_internal_burst c))] else [])"

definition issuer_log_line :: "env \<Rightarrow> log_line" where
  "issuer_log_line e =
     (case issuer_log_summary e of
        (True, _) \<Rightarrow> (WarnLevel, AnyIssuer)
      | (False, allowed) \<Rightarrow> (InfoLevel, AllowedIssuers allowed))"

definition server_log_summary :: "server_config \<Rightarrow> log_line" where
  "server_log_summary c =
     (InfoLevel, HttpServer (sc_workers c) (source_text (sc_source c)) (sc_client_request_timeout_ms c)
        (sc_keep_alive_secs c) (sc_shutdown_timeout_secs c))"

text \<open>The lines of \<open>main\<close> about metrics, from the access configuration.\<close>

definition metrics_log_lines :: "auth_config \<Rightarrow> log_line list" where
  "metrics_log_lines auth = (if \<not> metrics_enabled auth then [(WarnLevel, MetricsUnpublished)] else [])"

text \<open>The lines of a start that succeeds, in order.\<close>

definition telemetry_log ::
  "(string \<Rightarrow> string option) \<Rightarrow> (string \<Rightarrow> string option) \<Rightarrow> (string \<Rightarrow> f32 option) \<Rightarrow> env \<Rightarrow> log_line list" where
  "telemetry_log build_traces build_logs parse e =
     [otel_status_log (snd (init_tracer_provider build_traces e)),
      logs_status_log (snd (init_logger_provider build_logs e)),
      sentry_status_log (snd (sentry_init parse e))]"

definition startup_log ::
  "(string \<Rightarrow> string option) \<Rightarrow> (string \<Rightarrow> string option) \<Rightarrow> (string \<Rightarrow> f32 option) \<Rightarrow> env \<Rightarrow> 'q started \<Rightarrow> log_line list" where
  "startup_log build_traces build_logs parse e s =
     telemetry_log build_traces build_logs parse e @ metrics_log_lines (st_auth s) @
     rate_limit_log_summary (rate_limit_from_env e) @ [issuer_log_line e, server_log_summary (st_server s),
      (InfoLevel, StartingServer (st_host s) (st_port s))]"

section \<open>After the server has stopped\<close>

text \<open>
  The providers that were installed are shut down, traces first; \<open>shutdown\<close> gives the error of a
  provider, which is a warning and nothing more.
\<close>

datatype signal = Traces | Logs

datatype shutdown_event = ShutDown signal | ShutdownWarning signal string

definition shutdown_signal :: "(signal \<Rightarrow> string option) \<Rightarrow> signal \<Rightarrow> shutdown_event list" where
  "shutdown_signal shutdown g =
     ShutDown g # (case shutdown g of Some err \<Rightarrow> [ShutdownWarning g err] | None \<Rightarrow> [])"

definition flush_telemetry :: "(signal \<Rightarrow> string option) \<Rightarrow> subscriber \<Rightarrow> shutdown_event list" where
  "flush_telemetry shutdown su =
     (if su_otel su then shutdown_signal shutdown Traces else []) @
     (if su_otel_logs su then shutdown_signal shutdown Logs else [])"

section \<open>Correctness\<close>

text \<open>The variables that hold secrets.\<close>

definition secret_vars :: "string set" where
  "secret_vars = {''AUTH_PROXY_SECRET'', ''AUTH_TOTP_SECRET'', ''AUTH_TOTP_SECRET_NEXT'', ''AUTH_METRICS_TOKEN'',
     ''REDIS_URL'', ''GLITCHTIP_DSN'', ''SENTRY_DSN''}"

definition same_but_secrets :: "env \<Rightarrow> env \<Rightarrow> bool" where
  "same_but_secrets e e' \<longleftrightarrow>
     (\<forall>v. v \<notin> secret_vars \<longrightarrow> e v = e' v) \<and> (read_dsn e = None \<longleftrightarrow> read_dsn e' = None)"

lemma same_vars:
  assumes "same_but_secrets e e'"
  shows "e ''RATE_LIMIT_VERIFY_ENABLED'' = e' ''RATE_LIMIT_VERIFY_ENABLED''"
    "e ''RATE_LIMIT_VERIFY_PER_SECOND'' = e' ''RATE_LIMIT_VERIFY_PER_SECOND''"
    "e ''RATE_LIMIT_VERIFY_BURST'' = e' ''RATE_LIMIT_VERIFY_BURST''"
    "e ''RATE_LIMIT_INTERNAL_ENABLED'' = e' ''RATE_LIMIT_INTERNAL_ENABLED''"
    "e ''RATE_LIMIT_INTERNAL_PER_SECOND'' = e' ''RATE_LIMIT_INTERNAL_PER_SECOND''"
    "e ''RATE_LIMIT_INTERNAL_BURST'' = e' ''RATE_LIMIT_INTERNAL_BURST''"
    "e ''RATE_LIMIT_TRUSTED_PROXIES'' = e' ''RATE_LIMIT_TRUSTED_PROXIES''"
    "e ''RATE_LIMIT_FORWARDED_HEADER'' = e' ''RATE_LIMIT_FORWARDED_HEADER''"
    "e ''TOKEN_ISSUER_ALLOWLIST'' = e' ''TOKEN_ISSUER_ALLOWLIST''"
    "e ''OTEL_EXPORTER_OTLP_TRACES_ENDPOINT'' = e' ''OTEL_EXPORTER_OTLP_TRACES_ENDPOINT''"
    "e ''OTEL_EXPORTER_OTLP_ENDPOINT'' = e' ''OTEL_EXPORTER_OTLP_ENDPOINT''"
    "e ''OTEL_EXPORTER_OTLP_LOGS_ENDPOINT'' = e' ''OTEL_EXPORTER_OTLP_LOGS_ENDPOINT''"
    "e ''OTEL_LOGS_ENABLED'' = e' ''OTEL_LOGS_ENABLED''"
    "e ''OTEL_SERVICE_NAME'' = e' ''OTEL_SERVICE_NAME''"
    "e ''GLITCHTIP_TRACES_SAMPLE_RATE'' = e' ''GLITCHTIP_TRACES_SAMPLE_RATE''"
    "e ''GLITCHTIP_ENABLE_LOGS'' = e' ''GLITCHTIP_ENABLE_LOGS''"
    "e ''SERVER_WORKERS'' = e' ''SERVER_WORKERS''"
    "e ''SERVER_CLIENT_REQUEST_TIMEOUT_MS'' = e' ''SERVER_CLIENT_REQUEST_TIMEOUT_MS''"
    "e ''SERVER_KEEP_ALIVE_SECONDS'' = e' ''SERVER_KEEP_ALIVE_SECONDS''"
    "e ''SERVER_SHUTDOWN_TIMEOUT_SECONDS'' = e' ''SERVER_SHUTDOWN_TIMEOUT_SECONDS''"
    "e ''HOST'' = e' ''HOST''" "e ''PORT'' = e' ''PORT''"
  using assms by (simp_all add: same_but_secrets_def secret_vars_def)

lemma env_or_cong: "e v = e' v \<Longrightarrow> env_or e v d = env_or e' v d"
  by (simp add: env_or_def)

lemma rate_limit_env_cong: "same_but_secrets e e' \<Longrightarrow> rate_limit_from_env e = rate_limit_from_env e'"
  by (simp add: rate_limit_from_env_def rl_env_bool_def rl_env_u64_def rl_env_u32_def env_or_def same_vars)

lemma telemetry_log_cong:
  assumes "same_but_secrets e e'"
  shows "telemetry_log bt bl parse e = telemetry_log bt bl parse e'"
proof -
  have "init_tracer_provider bt e = init_tracer_provider bt e'"
    by (simp add: init_tracer_provider_def env_or_cong [where v = "''OTEL_SERVICE_NAME''" and e = e and e' = e', OF same_vars(14) [OF assms]] same_vars [OF assms] cong: option.case_cong)
  moreover have "init_logger_provider bl e = init_logger_provider bl e'"
    by (simp add: init_logger_provider_def telemetry_env_bool_def same_vars [OF assms])
  moreover have "snd (sentry_init parse e) = snd (sentry_init parse e')"
  proof -
    have "read_dsn e = None \<longleftrightarrow> read_dsn e' = None" using assms by (simp add: same_but_secrets_def)
    then show ?thesis
      by (cases "read_dsn e"; cases "read_dsn e'")
        (simp_all add: sentry_init_def env_f32_def telemetry_env_bool_def same_vars [OF assms] Let_def)
  qed
  ultimately show ?thesis by (simp add: telemetry_log_def)
qed

lemma redis_url_of:
  "redis_client_new v e = Some r \<Longrightarrow> rf_url r = env_or e ''REDIS_URL'' ''redis://redis:6379''"
  by (auto simp: redis_client_new_def Let_def split: if_splits)

lemma start_fields:
  assumes "start W valid_url wp f64_ceil files cores e = Ok s"
  shows "st_host s = env_or e ''HOST'' ''127.0.0.1''" "parse_unsigned 16 (env_or e ''PORT'' ''8080'') = Some (st_port s)"
    "st_server s = server_config_from_env f64_ceil files cores e" "auth_config_from_env e = Inr (st_auth s)"
    "redis_client_new valid_url e = Some (st_redis s)"
  using assms by (auto simp: start_def split: option.splits sum.splits outcome.splits if_splits)

text \<open>
  The log of a start shows no secret: two starts whose environments differ only in the variables
  that hold secrets (the proxy secret, both one-time-code secrets, the metrics token, the address of
  Redis and the two for GlitchTip) write the same lines, as long as the same of the optional secrets
  are set at all.
\<close>

theorem startup_log_hides_secrets:
  assumes "same_but_secrets e e'"
    and "start W valid_url wp f64_ceil files cores e = Ok s" and "start W' valid_url' wp' f64_ceil files cores e' = Ok s'"
    and "metrics_enabled (st_auth s) = metrics_enabled (st_auth s')"
  shows "startup_log build_traces build_logs parse e s = startup_log build_traces build_logs parse e' s'"
proof -
  note v = same_vars [OF assms(1)]
  have "st_host s = st_host s'"
    using start_fields(1) [OF assms(2)] start_fields(1) [OF assms(3)] v by (simp add: env_or_def)
  moreover have "st_port s = st_port s'"
    using start_fields(2) [OF assms(2)] start_fields(2) [OF assms(3)] env_or_cong [of e "''PORT''" e'] v by simp
  moreover have "st_server s = st_server s'"
    using start_fields(3) [OF assms(2)] start_fields(3) [OF assms(3)] v by (simp add: server_config_from_env_def)
  moreover have "issuer_log_line e = issuer_log_line e'"
    using v by (simp add: issuer_log_line_def issuer_log_summary_def allowlist_def env_or_def)
  ultimately show ?thesis
    using telemetry_log_cong [OF assms(1)] rate_limit_env_cong [OF assms(1)] assms(4)
    by (simp add: startup_log_def metrics_log_lines_def)
qed

section \<open>Witness\<close>

text \<open>A password in the address of Redis.\<close>

definition demo_redis_env :: env where
  "demo_redis_env = demo_auth_env(''REDIS_URL'' \<mapsto> ''redis://:pw@redis:6379'')"

lemma demo_redis_auth: "auth_config_from_env demo_redis_env = auth_config_from_env demo_auth_env"
  by (simp add: demo_redis_env_def auth_config_from_env_def auth_errors_def proxy_secret_from_def
      totp_secret_from_def env_or_def auth_env_u64_def)

lemma demo_start:
  assumes "auth_config_from_env e = Inr c" and "e ''PORT'' = None" and "e ''RATE_LIMIT_INTERNAL_ENABLED'' = None"
    and "e ''HOST'' = None"
  shows "\<exists>s. start (demo_surroundings True) (\<lambda>_. True) Some (\<lambda>_. 1) (\<lambda>_. None) None e = Ok s"
proof -
  have p: "parse_unsigned 16 (env_or e ''PORT'' ''8080'') = Some 8080" by (rule demo_port [where e = e, OF assms(2)])
  have t: "telemetry_installed (demo_surroundings True) e"
    by (simp add: telemetry_installed_def demo_surroundings_def split: option.splits)
  have h: "env_or e ''HOST'' ''127.0.0.1'' = ''127.0.0.1''" using assms(4) by (simp add: env_or_def)
  have r: "\<exists>x. redis_client_new (\<lambda>_. True) e = Some x" by (simp add: redis_client_new_def Let_def)
  have v: "\<exists>x. build_verify Some (rate_limit_from_env e) = Ok x"
    by (simp add: build_verify_def quota_def Let_def)
  have i: "build_internal Some (rate_limit_from_env e) = Ok None"
    using assms(3) by (simp add: build_internal_def rate_limit_from_env_def rl_env_bool_def)
  show ?thesis using p r v i t h assms(1) by (auto simp: start_def demo_surroundings_def split: option.splits)
qed

lemma startup_log_hides_secrets_witness:
  "\<exists>s s'. start (demo_surroundings True) (\<lambda>_. True) Some (\<lambda>_. 1) (\<lambda>_. None) None demo_auth_env = Ok s \<and>
     start (demo_surroundings True) (\<lambda>_. True) Some (\<lambda>_. 1) (\<lambda>_. None) None demo_redis_env = Ok s' \<and> st_redis s \<noteq> st_redis s' \<and>
     startup_log (\<lambda>_. None) (\<lambda>_. None) (\<lambda>_. None) demo_auth_env s =
       startup_log (\<lambda>_. None) (\<lambda>_. None) (\<lambda>_. None) demo_redis_env s'"
proof -
  obtain c where c: "auth_config_from_env demo_auth_env = Inr c" using demo_auth_built by blast
  obtain s where s: "start (demo_surroundings True) (\<lambda>_. True) Some (\<lambda>_. 1) (\<lambda>_. None) None demo_auth_env = Ok s"
    using demo_start [OF c] by (auto simp: demo_auth_env_def)
  obtain s' where s': "start (demo_surroundings True) (\<lambda>_. True) Some (\<lambda>_. 1) (\<lambda>_. None) None demo_redis_env = Ok s'"
    using demo_start [OF trans [OF demo_redis_auth c]] by (auto simp: demo_redis_env_def demo_auth_env_def)
  have same: "same_but_secrets demo_auth_env demo_redis_env"
    by (simp add: same_but_secrets_def demo_redis_env_def secret_vars_def read_dsn_def cong: option.case_cong)
  have "st_auth s = st_auth s'"
    using start_fields(4) [OF s] start_fields(4) [OF s'] by (simp add: demo_redis_auth)
  then have m: "metrics_enabled (st_auth s) = metrics_enabled (st_auth s')" by simp
  have "rf_url (st_redis s) = ''redis://redis:6379''" "rf_url (st_redis s') = ''redis://:pw@redis:6379''"
    using redis_url_of [OF start_fields(5) [OF s]] redis_url_of [OF start_fields(5) [OF s']]
    by (simp_all add: env_or_def demo_auth_env_def demo_redis_env_def)
  then have "st_redis s \<noteq> st_redis s'" by auto
  then show ?thesis using s s' startup_log_hides_secrets [OF same s s' m] by blast
qed

end
