(* ===== verification/Concurrent.thy ===== *)
theory Concurrent
  imports Redis_Tasks Jwt_Manager
begin

text \<open>
  The functions of \<open>src/jwt.rs\<close> and \<open>src/models/jwt.rs\<close> as tasks: the same code as in theories
  \<open>Token\<close> and \<open>Jwt_Manager\<close>, over the trait of tasks of \<open>Store_Tasks\<close>, so cut at every call the store
  makes (for the client of \<open>src/redis.rs\<close>, every command), every call of the key manager and every
  reading of the clock or of the random generator. Between two calls any other request may
  run. The requests of the API that reach the store are data, and \<open>serve\<close> gives the task of each.
\<close>

type_synonym ('n, 's, 'a) jwt_task = "(('n, 's) world, (jwt_error, 'a) outcome) task"

section \<open>The calls\<close>

primrec on_store :: "('s, 'a) task \<Rightarrow> (('n, 's) world, 'a) task" where
  "on_store (Finished x) = Finished x"
| "on_store (Pending f) =
     Pending (\<lambda>w. case map_prod on_store (\<lambda>s. s) (f (w_store w)) of (t, s) \<Rightarrow> (t, w\<lparr>w_store := s\<rparr>))"

definition of_store :: "jti_error + 'a \<Rightarrow> (jwt_error, 'a) outcome" where
  "of_store x = (case x of Inl _ \<Rightarrow> Err StoreError | Inr a \<Rightarrow> Ok a)"

definition store_task :: "('s, jti_error + 'a) task \<Rightarrow> ('n, 's, 'a) jwt_task" where
  "store_task t = map_result of_store (on_store t)"

definition key_task ::
  "jwt_error \<Rightarrow> ('n key_manager \<Rightarrow> (key_error + 'a) \<times> 'n key_manager) \<Rightarrow> ('n, 's, 'a) jwt_task" where
  "key_task e f = call (key_call e f)"

definition now_task :: "('n, 's, int) jwt_task" where
  "now_task = call (\<lambda>w. (Ok (utc_now w), utc_tick w))"

definition uuid_task :: "('n, 's, string) jwt_task" where
  "uuid_task = call (\<lambda>w. (Ok (uuid_next w), uuid_tick w))"

section \<open>The token layer\<close>

definition is_verify_task ::
  "'s store_tasks \<Rightarrow> 'v token_claims \<Rightarrow> string \<Rightarrow> string \<Rightarrow> ('n, 's, bool) jwt_task" where
  "is_verify_task T c issuer audience =
     and_task now_task (\<lambda>now.
       if \<not> claims_valid_at c issuer audience (as_usize now) then Finished (Ok False)
       else map_result (\<lambda>r. Ok (r = Ok True)) (store_task (st_check_jti T (tc_jti c))))"

definition create_new_task ::
  "('b, 'g, 'p, 'k, 'v, 'n, 's) deps \<Rightarrow> 's store_tasks \<Rightarrow> string \<Rightarrow> string \<Rightarrow> string list \<Rightarrow> u64 option
     \<Rightarrow> 'v json_object \<Rightarrow> ('n, 's, 'v token_claims) jwt_task" where
  "create_new_task D T issuer subject audience ttl extra =
     and_task (result_task (validate_custom_claims (dp_env D) (dp_json D) extra)) (\<lambda>_.
     and_task (result_task (expiration_seconds (dp_env D) ttl)) (\<lambda>secs.
     case audience of
       [] \<Rightarrow> Finished (Err UnprocessableEntity)
     | first_audience # _ \<Rightarrow>
         and_task now_task (\<lambda>now.
           case dp_plus D now (as_i64 secs) of
             None \<Rightarrow> Finished Panic
           | Some expiry \<Rightarrow>
               and_task uuid_task (\<lambda>jti.
               and_task (store_task (st_store_jti T jti secs)) (\<lambda>_.
               and_task (store_task (st_add_to_group T (subject_group subject) jti expiry)) (\<lambda>_.
                 let c = new_claims issuer subject audience now expiry jti extra in
                 and_task (is_verify_task T c issuer first_audience) (\<lambda>ok.
                   Finished (if ok then Ok c else Err StoreError))))))))"

definition from_string_task ::
  "('b, 'g, 'p, 'k, 'v, 'n, 's) deps \<Rightarrow> 's store_tasks \<Rightarrow> string \<Rightarrow> string \<Rightarrow> string
     \<Rightarrow> ('n, 's, ('v, 'p) json_web_token) jwt_task" where
  "from_string_task D T token issuer audience =
     (case split_on (CHR ''.'') token of
        h # c # s # _ \<Rightarrow>
          and_task (result_task (headers_from_base64 (dp_crypto D) (dp_json D) h)) (\<lambda>headers.
          and_task (key_task BadSignature (get_public_key (dp_crypto D) (dp_server D) (th_kid headers))) (\<lambda>key.
          and_task (result_task (check_signature (dp_crypto D) headers key h c s)) (\<lambda>_.
          and_task (result_task (claims_from_base64 (dp_crypto D) (dp_json D) c)) (\<lambda>claims.
            if \<not> headers_is_verify (dp_env D) headers then Finished (Err NotValid)
            else and_task (is_verify_task T claims issuer audience) (\<lambda>ok.
              Finished (if \<not> ok then Err NotValid
                else Ok \<lparr>jt_headers = headers, jt_claims = claims, jt_key = key\<rparr>))))))
      | _ \<Rightarrow> Finished (Err Broken))"

section \<open>The facade\<close>

definition generate_task ::
  "('b, 'g, 'p, 'k, 'v, 'n, 's) deps \<Rightarrow> 's store_tasks \<Rightarrow> string \<Rightarrow> string \<Rightarrow> string list \<Rightarrow> u64 option
     \<Rightarrow> 'v json_object \<Rightarrow> ('n, 's, string) jwt_task" where
  "generate_task D T issuer subject audience ttl extra =
     and_task (key_task KeyError (get_private_key (dp_crypto D) (dp_server D))) (\<lambda>(jwk, private_key).
     and_task (create_new_task D T issuer subject audience ttl extra) (\<lambda>claims.
       result_task (token_to_string (dp_crypto D) (dp_json D)
         \<lparr>jt_headers = headers_create_new (dp_env D) (jd_kid jwk), jt_claims = claims,
          jt_key = private_key\<rparr>)))"

definition register_task ::
  "('b, 'g, 'p, 'k, 'v, 'n, 's) deps \<Rightarrow> 's store_tasks \<Rightarrow> string \<Rightarrow> string \<Rightarrow> ('n, 's, unit) jwt_task" where
  "register_task D T access family =
     (case split_on (CHR ''.'') access of
        _ # segment # _ \<Rightarrow>
          and_task (result_task (claims_from_base64 (dp_crypto D) (dp_json D) segment)) (\<lambda>claims.
            store_task (st_add_to_group T (family_group family) (tc_jti claims)
              (as_i64 (tc_exp claims))))
      | _ \<Rightarrow> Finished (Err Broken))"

definition issue_refresh_task ::
  "('b, 'g, 'p, 'k, 'v, 'n, 's) deps \<Rightarrow> 's store_tasks \<Rightarrow> string \<Rightarrow> string list \<Rightarrow> string \<Rightarrow> ('n, 's, string) jwt_task" where
  "issue_refresh_task D T subject audience family =
     (let ttl = env_u64 (dp_env D) ''REFRESH_TOKEN_TTL_SECONDS'' DEFAULT_REFRESH_TTL_SECONDS in
      and_task uuid_task (\<lambda>i.
        let rec = \<lparr>rr_subject = subject, rr_audience = audience, rr_family = family\<rparr> in
      and_task (store_task (st_store_refresh T i rec ttl)) (\<lambda>_.
      and_task now_task (\<lambda>now.
        let expires_at = i64_add now (as_i64 ttl) in
      and_task (store_task (st_add_to_group T (family_group family) (refresh_key i) expires_at)) (\<lambda>_.
        Finished (Ok i))))))"

definition generate_pair_task ::
  "('b, 'g, 'p, 'k, 'v, 'n, 's) deps \<Rightarrow> 's store_tasks \<Rightarrow> string \<Rightarrow> string \<Rightarrow> string list \<Rightarrow> u64 option
     \<Rightarrow> 'v json_object \<Rightarrow> ('n, 's, string \<times> string) jwt_task" where
  "generate_pair_task D T issuer subject audience ttl extra =
     and_task uuid_task (\<lambda>family.
     and_task (generate_task D T issuer subject audience ttl extra) (\<lambda>access.
     and_task (register_task D T access family) (\<lambda>_.
     and_task (issue_refresh_task D T subject audience family) (\<lambda>refresh.
       Finished (Ok (access, refresh))))))"

definition renew_task ::
  "('b, 'g, 'p, 'k, 'v, 'n, 's) deps \<Rightarrow> 's store_tasks \<Rightarrow> refresh_record \<Rightarrow> string \<Rightarrow> ('n, 's, string \<times> string) jwt_task" where
  "renew_task D T rec issuer =
     and_task (generate_task D T issuer (rr_subject rec) (rr_audience rec) None []) (\<lambda>access.
     and_task (register_task D T access (rr_family rec)) (\<lambda>_.
     and_task (issue_refresh_task D T (rr_subject rec) (rr_audience rec) (rr_family rec)) (\<lambda>refresh.
       Finished (Ok (access, refresh)))))"

definition mark_task ::
  "('b, 'g, 'p, 'k, 'v, 'n, 's) deps \<Rightarrow> 's store_tasks \<Rightarrow> string \<Rightarrow> refresh_record \<Rightarrow> string \<Rightarrow> ('n, 's, string \<times> string) jwt_task" where
  "mark_task D T refresh_token rec issuer =
     and_task (store_task (st_mark_refresh_used T refresh_token)) (\<lambda>marked.
       if \<not> marked then
         and_task (store_task (st_revoke_group T (family_group (rr_family rec))))
           (\<lambda>_. Finished (Err NotValid))
       else renew_task D T rec issuer)"

definition refresh_pair_task ::
  "('b, 'g, 'p, 'k, 'v, 'n, 's) deps \<Rightarrow> 's store_tasks \<Rightarrow> string \<Rightarrow> string \<Rightarrow> ('n, 's, string \<times> string) jwt_task" where
  "refresh_pair_task D T refresh_token issuer =
     and_task (store_task (st_get_refresh T refresh_token)) (\<lambda>found.
       case found of
         None \<Rightarrow> Finished (Err NotValid)
       | Some rec \<Rightarrow> mark_task D T refresh_token rec issuer)"

definition verify_task ::
  "('b, 'g, 'p, 'k, 'v, 'n, 's) deps \<Rightarrow> 's store_tasks \<Rightarrow> string \<Rightarrow> string \<Rightarrow> string \<Rightarrow> ('n, 's, 'v token_claims) jwt_task" where
  "verify_task D T token issuer audience =
     map_result (map_outcome (\<lambda>e. e) jt_claims) (from_string_task D T token issuer audience)"

section \<open>Requests\<close>

text \<open>
  What a request of the API asks of the token layer, and what it answers. Revocation goes to the
  store directly (\<open>revoke_token\<close> and \<open>revoke_subject_tokens\<close> of \<open>src/handlers.rs\<close>).
\<close>

datatype 'v req =
    IssueToken string string "string list" "u64 option" "'v json_object"
  | IssuePair string string "string list" "u64 option" "'v json_object"
  | Exchange string string
  | VerifyToken string string string
  | RevokeToken string
  | RevokeSubject string

datatype 'v reply =
    AccessToken string
  | TokenPair string string
  | ValidClaims "'v token_claims"
  | TokenRevoked
  | SubjectRevoked u64

abbreviation answer :: "('a \<Rightarrow> 'b) \<Rightarrow> (jwt_error, 'a) outcome \<Rightarrow> (jwt_error, 'b) outcome" where
  "answer \<equiv> map_outcome (\<lambda>e. e)"

fun serve :: "('b, 'g, 'p, 'k, 'v, 'n, 's) deps \<Rightarrow> 's store_tasks \<Rightarrow> 'v req \<Rightarrow> ('n, 's, 'v reply) jwt_task" where
  "serve D T (IssueToken issuer subject audience ttl extra) =
     map_result (answer AccessToken) (generate_task D T issuer subject audience ttl extra)"
| "serve D T (IssuePair issuer subject audience ttl extra) =
     map_result (answer (\<lambda>(a, r). TokenPair a r)) (generate_pair_task D T issuer subject audience ttl extra)"
| "serve D T (Exchange i issuer) =
     map_result (answer (\<lambda>(a, r). TokenPair a r)) (refresh_pair_task D T i issuer)"
| "serve D T (VerifyToken token issuer audience) =
     map_result (answer ValidClaims) (verify_task D T token issuer audience)"
| "serve D T (RevokeToken jti) =
     map_result (answer (\<lambda>_. TokenRevoked)) (store_task (st_delete_jti T jti))"
| "serve D T (RevokeSubject subject) =
     map_result (answer SubjectRevoked) (store_task (st_revoke_group T (subject_group subject)))"

fun serve_alone :: "('b, 'g, 'p, 'k, 'v, 'n, 's) deps \<Rightarrow> 'v req \<Rightarrow> ('n, 's) world
     \<Rightarrow> (jwt_error, 'v reply) outcome \<times> ('n, 's) world" where
  "serve_alone D (IssueToken issuer subject audience ttl extra) w =
     apfst (answer AccessToken) (generate_token D issuer subject audience ttl extra w)"
| "serve_alone D (IssuePair issuer subject audience ttl extra) w =
     apfst (answer (\<lambda>(a, r). TokenPair a r)) (generate_token_pair D issuer subject audience ttl extra w)"
| "serve_alone D (Exchange i issuer) w =
     apfst (answer (\<lambda>(a, r). TokenPair a r)) (refresh_token_pair D i issuer w)"
| "serve_alone D (VerifyToken token issuer audience) w =
     apfst (answer ValidClaims) (verify_token D token issuer audience w)"
| "serve_alone D (RevokeToken jti) w =
     apfst (answer (\<lambda>_. TokenRevoked)) (store_call (js_delete_jti (dp_store D) jti) w)"
| "serve_alone D (RevokeSubject subject) w =
     apfst (answer SubjectRevoked)
       (store_call (js_revoke_group (dp_store D) (subject_group subject)) w)"

section \<open>A task run alone is the function\<close>

lemma run_on_store [simp]: "run (on_store t) w = (case run t (w_store w) of (x, s) \<Rightarrow> (x, w\<lparr>w_store := s\<rparr>))"
proof (induction t arbitrary: w)
  case (Pending f)
  obtain t' s where f: "f (w_store w) = (t', s)" by fastforce
  have m: "(t', s) \<in> range f" using f by (metis rangeI)
  then have "run (on_store t') (w\<lparr>w_store := s\<rparr>) =
      (case run t' s of (x, s') \<Rightarrow> (x, w\<lparr>w_store := s, w_store := s'\<rparr>))"
    using Pending [OF m, of t' "w\<lparr>w_store := s\<rparr>"] by simp
  then show ?case by (simp add: f split: prod.splits)
qed simp

lemma run_calls [simp]:
  "run (store_task t) = store_call (run t)"
  "run (key_task e g) = key_call e g"
  "run now_task w = (Ok (utc_now w), utc_tick w)"
  "run uuid_task w = (Ok (uuid_next w), uuid_tick w)"
  by (simp_all add: store_task_def key_task_def now_task_def uuid_task_def fun_eq_iff store_call_def of_store_def
      split: prod.splits sum.splits)

abbreviation over :: "('b, 'g, 'p, 'k, 'v, 'n, 's) deps \<Rightarrow> 's store_tasks \<Rightarrow> ('b, 'g, 'p, 'k, 'v, 'n, 's) deps" where
  "over D T \<equiv> D\<lparr>dp_store := store_of T\<rparr>"

lemma run_is_verify [simp]:
  "run (is_verify_task T c issuer audience) w = apfst Ok (claims_is_verify (store_of T) c issuer audience w)"
  by (auto simp: is_verify_task_def claims_is_verify_def and_then_def store_call_def Let_def
      split: prod.splits sum.splits)

lemma and_then_cong: "(\<And>a w. k a w = k' a w) \<Longrightarrow> and_then f k w = and_then f k' w"
  by (simp add: and_then_def split: prod.splits outcome.splits)

lemma run_create_new [simp]:
  "run (create_new_task D T issuer subject audience ttl extra) =
     claims_create_new (over D T) issuer subject audience ttl extra"
  unfolding fun_eq_iff create_new_task_def claims_create_new_def
  by (intro allI, cases audience)
    (auto intro!: and_then_cong simp: and_then_def fail_def Let_def
      split: prod.splits outcome.splits option.splits)

lemma run_from_string [simp]:
  "run (from_string_task D T token issuer audience) =
     token_from_string (over D T) token issuer audience"
  unfolding fun_eq_iff from_string_task_def token_from_string_def
  by (intro allI, auto intro!: and_then_cong simp: fail_def split: list.splits prod.splits bool.splits)
    (auto simp: and_then_def split: prod.splits bool.splits)

lemma run_generate [simp]:
  "run (generate_task D T issuer subject audience ttl extra) =
     generate_token (over D T) issuer subject audience ttl extra"
  unfolding fun_eq_iff generate_task_def generate_token_def
  by (intro allI) (auto intro!: and_then_cong split: prod.splits)

lemma run_register [simp]:
  "run (register_task D T access family) =
     register_access_in_family (over D T) access family"
  unfolding fun_eq_iff register_task_def register_access_in_family_def
  by (intro allI) (auto intro!: and_then_cong simp: fail_def split: list.splits)

lemma run_issue_refresh [simp]:
  "run (issue_refresh_task D T subject audience family) =
     issue_refresh (over D T) subject audience family"
  unfolding fun_eq_iff issue_refresh_task_def issue_refresh_def
  by (simp add: Let_def and_then_def split: prod.splits outcome.splits)

lemma run_generate_pair [simp]:
  "run (generate_pair_task D T issuer subject audience ttl extra) =
     generate_token_pair (over D T) issuer subject audience ttl extra"
  unfolding fun_eq_iff generate_pair_task_def generate_token_pair_def
  by (simp add: Let_def and_then_def split: prod.splits outcome.splits)

lemma run_refresh_pair [simp]:
  "run (refresh_pair_task D T i issuer) =
     refresh_token_pair (over D T) i issuer"
  unfolding fun_eq_iff refresh_pair_task_def refresh_token_pair_def mark_task_def renew_task_def
  by (intro allI) (auto intro!: and_then_cong simp: fail_def split: option.splits)

lemma run_verify [simp]:
  "run (verify_task D T token issuer audience) =
     verify_token (over D T) token issuer audience"
  by (simp add: fun_eq_iff verify_task_def verify_token_def split: prod.splits outcome.splits)

text \<open>
  The tasks are the functions. A request that runs with no other request in between does to the
  world exactly what the sequential functions do over the store whose methods are run in one piece,
  and gives the same answer; and for the tasks of the Redis client that store is the sequential
  client. So every property of the sequential functions is one of the requests, and the pools of
  requests add only the interleavings.
\<close>

theorem requests_run_as_functions:
  "run (serve D T q) w = serve_alone (D\<lparr>dp_store := store_of T\<rparr>) q w \<and>
   store_of (redis_tasks R) = redis_jti_store R"
  by (cases q) (simp_all add: apfst_def map_prod_def split: prod.splits)

end
