(* ===== verification/Concurrent_Correct.thy ===== *)
theory Concurrent_Correct
  imports Concurrent
begin

text \<open>
  What holds of requests that interleave: the calls each task makes, the race of two exchanges of one
  refresh token, and revocation, of a single token and of all tokens of a subject, against
  verifications that run beside it.
\<close>

section \<open>The calls of the tasks\<close>

text \<open>
  A call moves the store by a step of one operation that satisfies \<open>P\<close>, or leaves it; the supply of
  identifiers is one function.
\<close>

definition moves ::
  "(store_op \<Rightarrow> 's \<Rightarrow> 's \<Rightarrow> bool) \<Rightarrow> (store_op \<Rightarrow> bool) \<Rightarrow> ('n, 's) world \<Rightarrow> ('n, 's) world \<Rightarrow> bool" where
  "moves act P w w' \<longleftrightarrow> w_uuid w' = w_uuid w \<and>
     (w_store w' = w_store w \<or> (\<exists>x. P x \<and> act x (w_store w) (w_store w')))"

definition ids :: "(string \<Rightarrow> bool) \<Rightarrow> ('n, 's) world \<Rightarrow> bool" where
  "ids U w \<longleftrightarrow> (\<forall>n. U (w_uuid w n))"

lemma moves_refl [simp]: "w_uuid w' = w_uuid w \<Longrightarrow> w_store w' = w_store w \<Longrightarrow> moves act P w w'"
  by (simp add: moves_def)

lemma moves_op: "P x \<Longrightarrow> w_uuid w' = w_uuid w \<Longrightarrow> act x (w_store w) (w_store w') \<Longrightarrow> moves act P w w'"
  by (auto simp: moves_def)

lemma moves_mono: "moves act P w w' \<Longrightarrow> (\<And>x. P x \<Longrightarrow> P' x) \<Longrightarrow> moves act P' w w'"
  by (auto simp: moves_def)

lemma moves_ids: "moves act P w w' \<Longrightarrow> ids U w' = ids U w"
  by (simp add: moves_def ids_def)

text \<open>Tasks over the store, seen as tasks over the world.\<close>

lemma within_on_store:
  fixes t :: "('s, 'a) task" and I :: "('n, 's) world \<Rightarrow> bool"
  assumes "within J (act x) Q t" and "P x" and "\<And>w. I w \<Longrightarrow> J (w_store w)"
  shows "within I (moves act P) Q (on_store t)"
  using assms(1)
proof (induction t)
  case (Pending f)
  show ?case
    unfolding on_store.simps
  proof (rule within_pending)
    fix w w' :: "('n, 's) world" and t :: "(('n, 's) world, 'a) task"
    assume w: "I w"
      and s: "(case map_prod on_store (\<lambda>s. s) (f (w_store w)) of (t, s) \<Rightarrow> (t, w\<lparr>w_store := s\<rparr>)) = (t, w')"
    obtain u s where f: "f (w_store w) = (u, s)" by fastforce
    have m: "(u, s) \<in> range f" using f by (metis rangeI)
    have e: "t = on_store u" "w' = w\<lparr>w_store := s\<rparr>" using s f by simp_all
    have "within J (act x) Q u \<and> act x (w_store w) s"
      using within_step [OF Pending.prems assms(3) [OF w] f] .
    then show "within I (moves act P) Q t \<and> moves act P w w'"
      using Pending.IH [OF m, of u] e assms(2) by (auto intro: moves_op)
  qed
qed simp

lemma on_ok_of_store: "on_ok P (of_store x) = (\<forall>a. x = Inr a \<longrightarrow> P a)"
  by (cases x) (simp_all add: of_store_def)

lemma within_store:
  "only (act x) t \<Longrightarrow> P x \<Longrightarrow> within I (moves act P) (on_ok (\<lambda>_. True)) (store_task t)"
  unfolding store_task_def
  by (rule within_map_result [OF within_on_store [where J = "\<lambda>_. True" and Q = "\<lambda>_. True"]]) auto

lemma within_known:
  "within (\<lambda>_. True) (act x) (\<lambda>y. y = r) t \<Longrightarrow> P x \<Longrightarrow>
     within I (moves act P) (on_ok (\<lambda>a. r = Inr a)) (store_task t)"
  unfolding store_task_def
  by (rule within_map_result [OF within_on_store [where J = "\<lambda>_. True" and Q = "\<lambda>y. y = r"]])
    (auto simp: on_ok_of_store)

lemma within_key: "within I (moves act P) (on_ok (\<lambda>_. True)) (key_task e f)"
  unfolding key_task_def
  by (rule within_call) (auto simp: key_call_def split: prod.splits sum.splits)

lemma within_now: "within I (moves act P) (on_ok (\<lambda>_. True)) now_task"
  unfolding now_task_def by (rule within_call) (auto simp: utc_tick_def)

lemma within_uuid: "within (ids U) (moves act P) (on_ok U) uuid_task"
  unfolding uuid_task_def by (rule within_call) (auto simp: ids_def uuid_next_def uuid_tick_def)

lemma within_ok [simp]: "within I G (on_ok P) (Finished x) = on_ok P x"
  by simp

lemma within_result: "within I G (on_ok (\<lambda>_. True)) (result_task x)"
  by (rule within_result_task) simp

text \<open>The next step of a task that waits for the store.\<close>

lemma await_Pending:
  "map_result g (and_task (store_task (Pending f)) k) =
     Pending (\<lambda>w. case f (w_store w) of (t, s) \<Rightarrow> (map_result g (and_task (store_task t) k), w\<lparr>w_store := s\<rparr>))"
  "map_result h (store_task (Pending f)) =
     Pending (\<lambda>w. case f (w_store w) of (t, s) \<Rightarrow> (map_result h (store_task t), w\<lparr>w_store := s\<rparr>))"
  by (simp_all add: store_task_def fun_eq_iff split: prod.splits)

lemma await_Finished:
  "map_result g (and_task (store_task (Finished x)) k) =
     (case x of Inl _ \<Rightarrow> Finished (g (Err StoreError)) | Inr a \<Rightarrow> map_result g (k a))"
  "map_result h (store_task (Finished x)) = Finished (h (of_store x))"
  by (simp_all add: store_task_def of_store_def split: sum.splits)

text \<open>
  What issuing and verifying do: they store identifiers in \<open>U\<close> only, and add to groups in \<open>V\<close> only.
\<close>

fun issuing :: "(string \<Rightarrow> bool) \<Rightarrow> (string \<Rightarrow> bool) \<Rightarrow> store_op \<Rightarrow> bool" where
  "issuing U V (OpStore j _) = U j"
| "issuing U V (OpAdd g _ _) = V g"
| "issuing U V (OpStoreRefresh i _ _) = U i"
| "issuing U V (OpCheck _) = True"
| "issuing U V (OpGetRefresh _) = True"
| "issuing U V _ = False"

lemma issuing_mono: "issuing U V x \<Longrightarrow> (\<And>g. V g \<Longrightarrow> V' g) \<Longrightarrow> issuing U V' x"
  by (cases x) auto

definition any_group :: "string \<Rightarrow> bool" where
  "any_group g \<longleftrightarrow> (\<exists>s. g = subject_group s) \<or> (\<exists>f. g = family_group f)"

definition groups_of :: "string \<Rightarrow> string \<Rightarrow> bool" where
  "groups_of subject g \<longleftrightarrow> g = subject_group subject \<or> (\<exists>f. g = family_group f)"

text \<open>The calls a request may make.\<close>

fun calls_of :: "(string \<Rightarrow> bool) \<Rightarrow> 'v req \<Rightarrow> store_op \<Rightarrow> bool" where
  "calls_of U (IssueToken _ subject _ _ _) x = issuing U (groups_of subject) x"
| "calls_of U (IssuePair _ subject _ _ _) x = issuing U (groups_of subject) x"
| "calls_of U (Exchange i _) x = (issuing U any_group x \<or> x = OpMark i \<or> (\<exists>f. x = OpRevoke (family_group f)))"
| "calls_of U (VerifyToken _ _ _) x = issuing U (\<lambda>_. False) x"
| "calls_of U (RevokeToken j) x = (x = OpDelete j)"
| "calls_of U (RevokeSubject s) x = (x = OpRevoke (subject_group s))"

context jti_tasks
begin

abbreviation issues :: "(string \<Rightarrow> bool) \<Rightarrow> (string \<Rightarrow> bool) \<Rightarrow> ('n, 's, 'a) jwt_task \<Rightarrow> bool" where
  "issues U V \<equiv> within (ids U) (moves act (issuing U V)) (on_ok (\<lambda>_. True))"

lemma issues_check: "issues U V (store_task (st_check_jti T j))"
  by (rule within_store [of _ "OpCheck j"]) (use acts [of "OpCheck j"] in simp_all)

lemma issues_get: "issues U V (store_task (st_get_refresh T i))"
  by (rule within_store [of _ "OpGetRefresh i"]) (use acts [of "OpGetRefresh i"] in simp_all)

lemma issues_store: "U j \<Longrightarrow> issues U V (store_task (st_store_jti T j ttl))"
  by (rule within_store [of _ "OpStore j ttl"]) (use acts [of "OpStore j ttl"] in simp_all)

lemma issues_add: "V g \<Longrightarrow> issues U V (store_task (st_add_to_group T g j e))"
  by (rule within_store [of _ "OpAdd g j e"]) (use acts [of "OpAdd g j e"] in simp_all)

lemma issues_store_refresh: "U i \<Longrightarrow> issues U V (store_task (st_store_refresh T i rec ttl))"
  by (rule within_store [of _ "OpStoreRefresh i rec ttl"]) (use acts [of "OpStoreRefresh i rec ttl"] in simp_all)

lemmas issues_calls = issues_check issues_get issues_add within_key within_now within_result

lemma issues_is_verify: "issues U V (is_verify_task T c issuer audience)"
  unfolding is_verify_task_def
  by (auto intro!: within_any issues_calls
      within_map_result [where Q = "on_ok (\<lambda>_. True)", OF issues_check])

lemma issues_create_new:
  "V (subject_group subject) \<Longrightarrow> issues U V (create_new_task D T issuer subject audience ttl extra)"
  unfolding create_new_task_def
  by (cases audience)
    (auto intro!: within_any within_and_task [OF within_uuid] issues_store issues_is_verify issues_calls
      simp: Let_def split: option.splits)

lemma issues_generate:
  "V (subject_group subject) \<Longrightarrow> issues U V (generate_task D T issuer subject audience ttl extra)"
  unfolding generate_task_def
  by (auto intro!: within_any issues_create_new issues_calls)

lemma issues_from_string: "issues U V (from_string_task D T token issuer audience)"
  unfolding from_string_task_def
  by (auto intro!: within_any issues_is_verify issues_calls split: list.splits)

lemma issues_register: "V (family_group family) \<Longrightarrow> issues U V (register_task D T access family)"
  unfolding register_task_def by (auto intro!: within_any issues_calls split: list.splits)

lemma issues_issue_refresh:
  "V (family_group family) \<Longrightarrow> issues U V (issue_refresh_task D T subject audience family)"
  unfolding issue_refresh_task_def
  by (auto intro!: within_any within_and_task [OF within_uuid] issues_store_refresh issues_calls simp: Let_def)

lemma issues_generate_pair:
  "issues U (groups_of subject) (generate_pair_task D T issuer subject audience ttl extra)"
  unfolding generate_pair_task_def
  by (auto intro!: within_any within_and_task [OF within_uuid] issues_generate issues_register
      issues_issue_refresh simp: groups_of_def)

lemma issues_renew: "issues U any_group (renew_task D T rec issuer)"
  unfolding renew_task_def
  by (auto intro!: within_any issues_generate issues_register issues_issue_refresh simp: any_group_def)

lemma within_issues:
  "issues U V t \<Longrightarrow> (\<And>x. issuing U V x \<Longrightarrow> P x) \<Longrightarrow> within (ids U) (moves act P) (on_ok (\<lambda>_. True)) t"
  by (erule within_mono) (auto intro: moves_mono)

text \<open>What an exchange does once its mark has been answered.\<close>

definition marked_task :: "('b, 'g, 'p, 'k, 'v, 'n, 's) deps \<Rightarrow> refresh_record \<Rightarrow> string \<Rightarrow> bool
     \<Rightarrow> ('n, 's, string \<times> string) jwt_task" where
  "marked_task D rec issuer marked =
     (if \<not> marked then
        and_task (store_task (st_revoke_group T (family_group (rr_family rec)))) (\<lambda>_. Finished (Err NotValid))
      else renew_task D T rec issuer)"

lemma mark_task_marked:
  "mark_task D T i rec issuer = and_task (store_task (st_mark_refresh_used T i)) (marked_task D rec issuer)"
  by (simp add: mark_task_def marked_task_def [abs_def])

lemma within_revoke:
  "P (OpRevoke g) \<Longrightarrow> within I (moves act P) (on_ok (\<lambda>_. True)) (store_task (st_revoke_group T g))"
  by (rule within_store [of _ "OpRevoke g"]) (use acts [of "OpRevoke g"] in simp_all)

lemma within_marked:
  "within (ids U) (moves act (calls_of U (Exchange i issuer))) (on_ok (\<lambda>_. True)) (marked_task D rec issuer' b)"
  unfolding marked_task_def
  by (auto intro!: within_any within_revoke within_issues [OF issues_renew])

lemma within_mark:
  "within (ids U) (moves act (calls_of U (Exchange i issuer))) (on_ok (\<lambda>_. True)) (mark_task D T i rec issuer')"
  unfolding mark_task_marked
  by (intro within_any within_marked within_store [of _ "OpMark i"]) (use acts [of "OpMark i"] in simp_all)

lemma within_refresh_pair:
  "within (ids U) (moves act (calls_of U (Exchange i issuer))) (on_ok (\<lambda>_. True)) (refresh_pair_task D T i issuer')"
  unfolding refresh_pair_task_def
  by (auto intro!: within_any within_mark within_issues [OF issues_get] split: option.splits)

lemma within_answer:
  "within I G (on_ok (\<lambda>_. True)) t \<Longrightarrow> within I G (on_ok (\<lambda>_. True)) (map_result (answer h) t)"
  by (erule within_map_result) simp

lemma within_serve: "within (ids U) (moves act (calls_of U q)) (on_ok (\<lambda>_. True)) (serve D T q)"
proof (cases q)
  case (RevokeToken j)
  then show ?thesis
    using acts [of "OpDelete j"] by (auto intro!: within_answer within_store [of _ "OpDelete j"])
next
  case (RevokeSubject s)
  then show ?thesis by (auto intro!: within_answer within_revoke)
next
  case (VerifyToken token issuer audience)
  then show ?thesis
    by (auto simp: verify_task_def intro!: within_answer within_issues [OF issues_from_string])
next
  case (IssueToken issuer subject audience ttl extra)
  have "issues U (groups_of subject) (generate_task D T issuer subject audience ttl extra)"
    by (rule issues_generate) (simp add: groups_of_def)
  then have "within (ids U) (moves act (calls_of U q)) (on_ok (\<lambda>_. True))
      (generate_task D T issuer subject audience ttl extra)"
    by (rule within_issues) (simp add: IssueToken)
  then show ?thesis unfolding IssueToken serve.simps by (rule within_answer)
next
  case (IssuePair issuer subject audience ttl extra)
  have "within (ids U) (moves act (calls_of U q)) (on_ok (\<lambda>_. True))
      (generate_pair_task D T issuer subject audience ttl extra)"
    by (rule within_issues [OF issues_generate_pair]) (simp add: IssuePair)
  then show ?thesis unfolding IssuePair serve.simps by (rule within_answer)
next
  case (Exchange i issuer)
  then show ?thesis by (auto intro!: within_answer within_refresh_pair)
qed

end

section \<open>Two exchanges of one refresh token\<close>

text \<open>A request that leaves the record of the refresh token \<open>i\<close> alone, but for marking it.\<close>

definition gentle :: "string \<Rightarrow> store_op \<Rightarrow> bool" where
  "gentle i x \<longleftrightarrow> (refresh_key i \<notin> op_writes x \<or> x = OpMark i) \<and> refresh_key i \<notin> op_removes x"

definition other_id :: "string \<Rightarrow> string \<Rightarrow> bool" where
  "other_id i u \<longleftrightarrow> bare_key u \<and> u \<noteq> i"

fun bystander :: "string \<Rightarrow> 'v req \<Rightarrow> bool" where
  "bystander i (Exchange _ _) = False"
| "bystander i (RevokeSubject _) = False"
| "bystander i (RevokeToken j) = (j \<noteq> refresh_key i)"
| "bystander i _ = True"

lemma prefixed_not_bare [simp]:
  "\<not> bare_key (refresh_key i)" "\<not> bare_key (subject_group s)" "\<not> bare_key (family_group f)"
  by (simp_all add: bare_key_def refresh_key_def subject_group_def family_group_def)

lemma groups_of_any: "groups_of subject g \<Longrightarrow> any_group g"
  by (auto simp: groups_of_def any_group_def)

lemma refresh_key_no_group [simp]: "\<not> any_group (refresh_key i)" "\<not> groups_of s (refresh_key i)"
  by (simp_all add: any_group_def groups_of_def)

lemma gentle_issuing: "issuing (other_id i) any_group x \<Longrightarrow> gentle i x"
  by (cases x) (auto simp: gentle_def other_id_def)

lemma gentle_issues: "issuing (other_id i) V x \<Longrightarrow> (\<And>g. V g \<Longrightarrow> any_group g) \<Longrightarrow> gentle i x"
  by (rule gentle_issuing, erule issuing_mono)

lemma gentle_bystander: "bystander i q \<Longrightarrow> calls_of (other_id i) q x \<Longrightarrow> gentle i x"
  by (cases q) (auto elim!: gentle_issues dest: groups_of_any simp: gentle_def [of i "OpDelete _"])

abbreviation pair_reply :: "(jwt_error, string \<times> string) outcome \<Rightarrow> (jwt_error, 'v reply) outcome" where
  "pair_reply \<equiv> answer (\<lambda>(a, r). TokenPair a r)"

context jti_tasks
begin

abbreviation gently :: "string \<Rightarrow> ('n, 's, 'a) jwt_task \<Rightarrow> bool" where
  "gently i \<equiv> within (ids (other_id i)) (moves act (gentle i)) (on_ok (\<lambda>_. True))"

lemma gently_serve: "bystander i q \<Longrightarrow> gently i (serve D T q)"
  by (rule within_mono [OF within_serve]) (auto intro: moves_mono gentle_bystander)

text \<open>The effect of the mark, as the contract gives it.\<close>

definition marks :: "string \<Rightarrow> 's \<Rightarrow> jti_error + bool \<Rightarrow> 's \<Rightarrow> bool" where
  "marks i s x s' \<longleftrightarrow> (wf s \<longrightarrow> (\<forall>b. x = Inr b \<longrightarrow> b = (\<not> used s (clock s) i) \<and>
     (\<forall>t. clock s' \<le> t \<longrightarrow> present s' t (refresh_key i) \<longrightarrow> used s' t i)))"

lemma mark_one_call: "one_call (act (OpMark i)) (marks i) failed (st_mark_refresh_used T i)"
  using mark_decides [of i] by (simp add: marks_def [abs_def])

text \<open>An exchange that has not yet made its mark, and one that can no longer succeed.\<close>

definition reading :: "('b, 'g, 'p, 'k, 'v, 'n, 's) deps \<Rightarrow> string \<Rightarrow> string
     \<Rightarrow> ('s, jti_error + refresh_record option) task \<Rightarrow> ('n, 's, 'v reply) jwt_task" where
  "reading D i issuer g = map_result pair_reply (and_task (store_task g) (\<lambda>found.
     case found of None \<Rightarrow> Finished (Err NotValid) | Some rec \<Rightarrow> mark_task D T i rec issuer))"

definition marking :: "('b, 'g, 'p, 'k, 'v, 'n, 's) deps \<Rightarrow> refresh_record \<Rightarrow> string
     \<Rightarrow> ('s, jti_error + bool) task \<Rightarrow> ('n, 's, 'v reply) jwt_task" where
  "marking D rec issuer m = map_result pair_reply (and_task (store_task m) (marked_task D rec issuer))"

definition early :: "('b, 'g, 'p, 'k, 'v, 'n, 's) deps \<Rightarrow> string \<Rightarrow> ('n, 's, 'v reply) jwt_task \<Rightarrow> bool" where
  "early D i t \<longleftrightarrow>
     (\<exists>g issuer. only (act (OpGetRefresh i)) g \<and> t = reading D i issuer g) \<or>
     (\<exists>m rec issuer. one_call (act (OpMark i)) (marks i) failed m \<and> t = marking D rec issuer m)"

definition lost :: "(string \<Rightarrow> bool) \<Rightarrow> ('n, 's, 'a) jwt_task \<Rightarrow> bool" where
  "lost U = within (ids U) (moves act (\<lambda>_. True)) (on_ok (\<lambda>_. False))"

lemma exchange_early: "early D i (serve D T (Exchange i issuer))"
proof -
  have "serve D T (Exchange i issuer) = reading D i issuer (st_get_refresh T i)"
    by (simp add: reading_def refresh_pair_task_def)
  moreover have "only (act (OpGetRefresh i)) (st_get_refresh T i)" using acts [of "OpGetRefresh i"] by simp
  ultimately show ?thesis unfolding early_def by blast
qed

lemma early_not_Ok: "early D i t \<Longrightarrow> t \<noteq> Finished (Ok x)"
proof -
  have m: "marking D rec issuer m \<noteq> Finished (Ok x)"
    if "one_call (act (OpMark i)) (marks i) failed m" for rec issuer m
    using that by (cases m) (auto simp: marking_def await_Pending await_Finished one_call_Finished failed_def)
  moreover have "reading D i issuer g \<noteq> Finished (Ok x)" for issuer g
    using m [OF mark_one_call]
    by (cases g) (auto simp: reading_def await_Pending await_Finished mark_task_marked marking_def
        split: sum.split option.split)
  ultimately show "early D i t \<Longrightarrow> t \<noteq> Finished (Ok x)" unfolding early_def by metis
qed

lemma early_cases:
  assumes "early D i (Pending F)"
  obtains (get) g issuer where "only (act (OpGetRefresh i)) (Pending g)" "Pending F = reading D i issuer (Pending g)"
  | (mark) m rec issuer where "one_call (act (OpMark i)) (marks i) failed (Pending m)"
      "Pending F = marking D rec issuer (Pending m)"
proof -
  have mk: thesis if o: "one_call (act (OpMark i)) (marks i) failed m" and F: "Pending F = marking D rec issuer m"
    for m rec issuer
    using o F mark by (cases m) (auto simp: one_call_Finished failed_def marking_def await_Finished)
  show ?thesis
    using assms unfolding early_def
  proof (elim disjE exE conjE)
    fix g issuer
    assume g: "only (act (OpGetRefresh i)) g" and F: "Pending F = reading D i issuer g"
    show ?thesis
    proof (cases g)
      case (Finished x)
      then obtain rec where "Pending F = marking D rec issuer (st_mark_refresh_used T i)"
        using F by (auto simp: reading_def marking_def await_Finished mark_task_marked split: sum.splits option.splits)
      then show ?thesis by (rule mk [OF mark_one_call])
    next
      case (Pending f)
      then show ?thesis using get g F by simp
    qed
  qed (rule mk)
qed

lemma early_step:
  assumes t: "early D i (Pending F)" and f: "F w = (t', w')"
  shows "w_uuid w' = w_uuid w \<and> (\<exists>x \<in> {OpGetRefresh i, OpMark i}. act x (w_store w) (w_store w')) \<and>
     (early D i t' \<or>
      (\<exists>x. marks i (w_store w) x (w_store w') \<and> (if x = Inr True then gently i t' else lost U t')))"
  using t
proof (cases rule: early_cases)
  case (get g issuer)
  obtain g' s where g: "g (w_store w) = (g', s)" by fastforce
  have "only (act (OpGetRefresh i)) g' \<and> act (OpGetRefresh i) (w_store w) s"
    using within_step [OF get(1) _ g] by simp
  moreover have "t' = reading D i issuer g'" "w' = w\<lparr>w_store := s\<rparr>"
    using get(2) f g by (simp_all add: reading_def await_Pending)
  ultimately show ?thesis unfolding early_def by auto
next
  case (mark m rec issuer)
  obtain m' s where m: "m (w_store w) = (m', s)" by fastforce
  have o: "act (OpMark i) (w_store w) s \<and> (one_call (act (OpMark i)) (marks i) failed m' \<or>
      (\<exists>x. marks i (w_store w) x s \<and> within (\<lambda>_. True) (act (OpMark i)) (\<lambda>y. y = x) m'))"
    using one_call_step [OF mark(1) m] .
  have e: "t' = marking D rec issuer m'" "w' = w\<lparr>w_store := s\<rparr>"
    using mark(2) f m by (simp_all add: marking_def await_Pending)
  have "if x = Inr True then gently i t' else lost U t'"
    if x: "within (\<lambda>_. True) (act (OpMark i)) (\<lambda>y. y = x) m'" for x
  proof (cases "x = Inr True")
    case True
    have "within (ids (other_id i)) (moves act (gentle i)) (on_ok (\<lambda>a. x = Inr a)) (store_task m')"
      by (rule within_known [where x = "OpMark i"]) (use x in \<open>simp_all add: gentle_def\<close>)
    then have "gently i (and_task (store_task m') (marked_task D rec issuer))"
      by (rule within_and_task)
        (use True in \<open>auto simp: marked_task_def intro!: within_issues [OF issues_renew] gentle_issuing\<close>)
    then have "gently i t'" unfolding e marking_def by (rule within_answer)
    then show ?thesis using True by simp
  next
    case False
    have "within (ids U) (moves act (\<lambda>_. True)) (on_ok (\<lambda>a. x = Inr a)) (store_task m')"
      by (rule within_known [where x = "OpMark i"]) (use x in simp_all)
    then have "within (ids U) (moves act (\<lambda>_. True)) (on_ok (\<lambda>_. False))
        (and_task (store_task m') (marked_task D rec issuer))"
      by (rule within_and_task)
        (use False in \<open>auto simp: marked_task_def intro!: within_any [OF within_revoke]\<close>)
    then have "lost U t'"
      unfolding e marking_def lost_def by (rule within_map_result) simp
    then show ?thesis using False by simp
  qed
  then have "early D i t' \<or> (\<exists>x. marks i (w_store w) x (w_store w') \<and> (if x = Inr True then gently i t' else lost U t'))"
    using o e unfolding early_def by fastforce
  then show ?thesis using o e(2) by simp
qed

text \<open>The record of \<open>i\<close> lives until \<open>t0\<close>; wherever it lives, it carries the mark.\<close>

definition kept :: "int \<Rightarrow> string \<Rightarrow> 's \<Rightarrow> bool" where
  "kept t0 i s \<longleftrightarrow> (clock s \<le> t0 \<longrightarrow> present s t0 (refresh_key i))"

definition spent :: "string \<Rightarrow> 's \<Rightarrow> bool" where
  "spent i s \<longleftrightarrow> (\<forall>t. clock s \<le> t \<longrightarrow> present s t (refresh_key i) \<longrightarrow> used s t i)"

lemma kept_act: "wf s \<Longrightarrow> act x s s' \<Longrightarrow> refresh_key i \<notin> op_removes x \<Longrightarrow> kept t0 i s \<Longrightarrow> kept t0 i s'"
  using act_clock [of s x s'] act_present [of s x s' "refresh_key i" t0] unfolding kept_def by auto

lemma spent_act:
  assumes "wf s" and "act x s s'" and "refresh_key i \<notin> op_writes x \<or> x = OpMark i" and "spent i s"
  shows "spent i s'"
  unfolding spent_def
proof (intro allI impI)
  fix t
  assume t: "clock s' \<le> t" and p: "present s' t (refresh_key i)"
  have "clock s \<le> t" using act_clock [OF assms(1,2)] t by simp
  then show "used s' t i"
    using act_spent [OF assms(1-3) t _ p] assms(4) unfolding spent_def by blast
qed

lemma wf_moves: "wf (w_store w) \<Longrightarrow> moves act P w w' \<Longrightarrow> wf (w_store w')"
  unfolding moves_def using act_wf by metis

lemma clock_moves: "wf (w_store w) \<Longrightarrow> moves act P w w' \<Longrightarrow> clock (w_store w) \<le> clock (w_store w')"
  unfolding moves_def using act_clock by (metis order.refl)

lemma kept_moves: "wf (w_store w) \<Longrightarrow> moves act (gentle i) w w' \<Longrightarrow> kept t0 i (w_store w) \<Longrightarrow> kept t0 i (w_store w')"
  unfolding moves_def gentle_def using kept_act by metis

lemma spent_moves: "wf (w_store w) \<Longrightarrow> moves act (gentle i) w w' \<Longrightarrow> spent i (w_store w) \<Longrightarrow> spent i (w_store w')"
  unfolding moves_def gentle_def using spent_act by metis

text \<open>
  The states of a race of two. While neither is lost, the record lives; once one has won, it is
  spent, so the other, which has not made its mark, will lose.
\<close>

definition race :: "('b, 'g, 'p, 'k, 'v, 'n, 's) deps \<Rightarrow> int \<Rightarrow> string \<Rightarrow> ('n, 's, 'v reply) jwt_task
     \<Rightarrow> ('n, 's, 'v reply) jwt_task \<Rightarrow> ('n, 's) world \<Rightarrow> bool" where
  "race D t0 i a b w \<longleftrightarrow> lost (other_id i) a \<or> lost (other_id i) b \<or>
     kept t0 i (w_store w) \<and>
       (early D i a \<and> early D i b \<or>
        early D i a \<and> gently i b \<and> spent i (w_store w) \<or>
        gently i a \<and> early D i b \<and> spent i (w_store w))"

lemma race_commute: "race D t0 i a b w \<Longrightarrow> race D t0 i b a w"
  by (auto simp: race_def)

lemma race_bystander:
  "race D t0 i a b w \<Longrightarrow> wf (w_store w) \<Longrightarrow> moves act (gentle i) w w' \<Longrightarrow> race D t0 i a b w'"
  unfolding race_def by (auto intro: kept_moves spent_moves)

text \<open>A mark that wins was the first.\<close>

lemma marks_first:
  assumes "wf s" and "marks i s (Inr True) s'" and "kept t0 i s" and "clock s \<le> t0"
  shows "\<not> spent i s" and "spent i s'"
proof -
  have "present s t0 (refresh_key i)" using assms(3,4) by (simp add: kept_def)
  then have "present s (clock s) (refresh_key i)" using present_decays [OF assms(1,4)] by simp
  moreover have u: "\<not> used s (clock s) i \<and> (\<forall>t. clock s' \<le> t \<longrightarrow> present s' t (refresh_key i) \<longrightarrow> used s' t i)"
    using assms(1,2) unfolding marks_def by blast
  ultimately show "\<not> spent i s" by (auto simp: spent_def)
  show "spent i s'" using u by (simp add: spent_def)
qed

lemma race_step:
  assumes R: "race D t0 i (Pending f) b w" and f: "f w = (a', w')"
    and wf: "wf (w_store w)" and U: "ids (other_id i) w" and t0: "clock (w_store w') \<le> t0"
  shows "race D t0 i a' b w'"
proof -
  consider (lostA) "lost (other_id i) (Pending f)" | (lostB) "lost (other_id i) b"
    | (early) "early D i (Pending f)" "kept t0 i (w_store w)" "early D i b \<or> gently i b \<and> spent i (w_store w)"
    | (won) "gently i (Pending f)" "kept t0 i (w_store w)" "early D i b" "spent i (w_store w)"
    using R by (auto simp: race_def)
  then show ?thesis
  proof cases
    case lostA
    then have "lost (other_id i) a' \<and> moves act (\<lambda>_. True) w w'"
      using U f unfolding lost_def by (intro within_step)
    then show ?thesis by (simp add: race_def)
  next
    case lostB
    then show ?thesis by (simp add: race_def)
  next
    case won
    then have "gently i a' \<and> moves act (gentle i) w w'" using U f by (intro within_step)
    then show ?thesis
      using won kept_moves [OF wf] spent_moves [OF wf] unfolding race_def by blast
  next
    case early
    obtain x where x: "x = OpGetRefresh i \<or> x = OpMark i" "act x (w_store w) (w_store w')"
      and n: "early D i a' \<or> (\<exists>r. marks i (w_store w) r (w_store w') \<and>
        (if r = Inr True then gently i a' else lost (other_id i) a'))"
      using early_step [OF early(1) f, of "other_id i"] by blast
    have k: "kept t0 i (w_store w')" using kept_act [OF wf x(2) _ early(2)] x(1) by auto
    have s: "spent i (w_store w')" if "spent i (w_store w)" using spent_act [OF wf x(2) _ that] x(1) by auto
    from n show ?thesis
    proof
      assume "early D i a'"
      then show ?thesis using k s early(3) unfolding race_def by blast
    next
      assume "\<exists>r. marks i (w_store w) r (w_store w') \<and> (if r = Inr True then gently i a' else lost (other_id i) a')"
      then obtain r where r: "marks i (w_store w) r (w_store w')"
        "if r = Inr True then gently i a' else lost (other_id i) a'" by blast
      show ?thesis
      proof (cases "r = Inr True")
        case True
        have "clock (w_store w) \<le> t0" using act_clock [OF wf x(2)] t0 by simp
        then show ?thesis
          using marks_first [OF wf r(1) [unfolded True] early(2)] k r(2) True early(3)
          unfolding race_def by auto
      qed (use r(2) in \<open>simp add: race_def\<close>)
    qed
  qed
qed

text \<open>One step of the pool: one of the two moves, or a bystander does.\<close>

lemma race_pool_step:
  assumes st: "pool_step p p'" and mn: "m \<noteq> n" "m < length (po_tasks p)" "n < length (po_tasks p)"
    and U: "ids (other_id i) (po_world p)" and wf: "wf (w_store (po_world p))"
    and any: "\<forall>t \<in> set (po_tasks p). within (ids (other_id i)) (moves act (\<lambda>_. True)) (on_ok (\<lambda>_. True)) t"
    and others: "\<forall>k < length (po_tasks p). k \<noteq> m \<longrightarrow> k \<noteq> n \<longrightarrow> gently i (po_tasks p ! k)"
    and R: "clock (w_store (po_world p)) \<le> t0 \<longrightarrow> race D t0 i (po_tasks p ! m) (po_tasks p ! n) (po_world p)"
    and t0: "clock (w_store (po_world p')) \<le> t0"
  shows "race D t0 i (po_tasks p' ! m) (po_tasks p' ! n) (po_world p')"
proof -
  obtain k f t where k: "k < length (po_tasks p)" and f: "po_tasks p ! k = Pending f"
    and s: "f (po_world p) = (t, po_world p')" "po_tasks p' = (po_tasks p)[k := t]"
    using pool_step_cases [OF st] by metis
  have "within (ids (other_id i)) (moves act (\<lambda>_. True)) (on_ok (\<lambda>_. True)) (Pending f)"
    using any k f by (metis nth_mem)
  then have "within (ids (other_id i)) (moves act (\<lambda>_. True)) (on_ok (\<lambda>_. True)) t \<and>
      moves act (\<lambda>_. True) (po_world p) (po_world p')"
    using U s(1) by (intro within_step)
  then have "clock (w_store (po_world p)) \<le> clock (w_store (po_world p'))"
    using clock_moves [OF wf] by blast
  then have r: "race D t0 i (po_tasks p ! m) (po_tasks p ! n) (po_world p)" using R t0 by simp
  consider "k = m" | "k = n" | "k \<noteq> m" "k \<noteq> n" by blast
  then show ?thesis
  proof cases
    case 1
    then show ?thesis
      using race_step [OF r [folded 1, unfolded f] s(1) wf U t0] mn s(2) by simp
  next
    case 2
    then show ?thesis
      using race_commute [OF race_step [OF race_commute [OF r [folded 2, unfolded f]] s(1) wf U t0]] mn s(2)
      by simp
  next
    case 3
    then have "gently i (Pending f)" using others k f by metis
    then have "gently i t \<and> moves act (gentle i) (po_world p) (po_world p')"
      using U s(1) by (intro within_step)
    then show ?thesis using race_bystander [OF r wf] 3 s(2) by simp
  qed
qed

end

text \<open>The pool in which every request is about to start.\<close>

definition requests ::
  "('b, 'g, 'p, 'k, 'v, 'n, 's) deps \<Rightarrow> 's store_tasks \<Rightarrow> 'v req list \<Rightarrow> ('n, 's) world
     \<Rightarrow> (('n, 's) world, (jwt_error, 'v reply) outcome) pool" where
  "requests D T qs w = \<lparr>po_tasks = map (serve D T) qs, po_world = w\<rparr>"

lemma requests_simps [simp]:
  "po_tasks (requests D T qs w) = map (serve D T) qs" "po_world (requests D T qs w) = w"
  by (simp_all add: requests_def)

lemma pool_within_ids:
  assumes "pool_reaches p p'" and "ids U (po_world p)"
    and "\<forall>t \<in> set (po_tasks p). within (ids U) (moves act P) (on_ok (\<lambda>_. True)) t"
  shows "ids U (po_world p') \<and> (\<forall>t \<in> set (po_tasks p'). within (ids U) (moves act P) (on_ok (\<lambda>_. True)) t)"
  using pool_within [where I = "ids U" and G = "moves act P", OF assms(1,2) _ assms(3)]
  by (simp add: moves_ids)

context jti_tasks
begin

text \<open>Every call of a request is one of those \<open>P\<close> allows, when \<open>P\<close> allows all that some request may make.\<close>

lemma requests_within:
  assumes "\<forall>q \<in> set qs. \<forall>x. calls_of U q x \<longrightarrow> P x"
  shows "\<forall>t \<in> set (po_tasks (requests D T qs w)). within (ids U) (moves act P) (on_ok (\<lambda>_. True)) t"
  using assms by (auto intro!: within_mono [OF within_serve] intro: moves_mono)

lemma race_pool:
  assumes wf: "wf (w_store w)" and U: "ids (other_id i) w"
    and m: "m < length qs" "qs ! m = Exchange i issuer" and n: "n < length qs" "qs ! n = Exchange i issuer'"
    and mn: "m \<noteq> n" and others: "\<forall>k < length qs. k \<noteq> m \<longrightarrow> k \<noteq> n \<longrightarrow> bystander i (qs ! k)"
    and t0: "present (w_store w) t0 (refresh_key i)"
    and r: "pool_reaches (requests D T qs w) p"
  shows "wf (w_store (po_world p)) \<and>
     (\<forall>k < length qs. k \<noteq> m \<longrightarrow> k \<noteq> n \<longrightarrow> gently i (po_tasks p ! k)) \<and>
     (clock (w_store (po_world p)) \<le> t0 \<longrightarrow> race D t0 i (po_tasks p ! m) (po_tasks p ! n) (po_world p))"
  using r
proof (induction rule: rtranclp_induct)
  case base
  have "early D i (serve D T (qs ! m))" "early D i (serve D T (qs ! n))"
    unfolding m(2) n(2) by (rule exchange_early)+
  then show ?case using wf t0 m(1) n(1) others
    by (auto simp: race_def kept_def gently_serve)
next
  case (step p1 p2)
  have "ids (other_id i) (po_world p1) \<and>
      (\<forall>t \<in> set (po_tasks p1). within (ids (other_id i)) (moves act (\<lambda>_. True)) (on_ok (\<lambda>_. True)) t)"
    using requests_within [of qs "other_id i" "\<lambda>_. True" D w] U by (intro pool_within_ids [OF step(1)]) simp_all
  then have u: "ids (other_id i) (po_world p1)"
    "\<forall>t \<in> set (po_tasks p1). within (ids (other_id i)) (moves act (\<lambda>_. True)) (on_ok (\<lambda>_. True)) t"
    by simp_all
  have len: "length (po_tasks p1) = length qs" using pool_length [OF step(1)] by simp
  obtain k f t where k: "k < length (po_tasks p1)" and f: "po_tasks p1 ! k = Pending f"
    and s: "f (po_world p1) = (t, po_world p2)" "po_tasks p2 = (po_tasks p1)[k := t]"
    using pool_step_cases [OF step(2)] by metis
  have "within (ids (other_id i)) (moves act (\<lambda>_. True)) (on_ok (\<lambda>_. True)) (Pending f)"
    using u k f by (metis nth_mem)
  then have "within (ids (other_id i)) (moves act (\<lambda>_. True)) (on_ok (\<lambda>_. True)) t \<and>
      moves act (\<lambda>_. True) (po_world p1) (po_world p2)"
    using u(1) s(1) by (intro within_step)
  then have w2: "wf (w_store (po_world p2))" using wf_moves step.IH by blast
  have o: "gently i (po_tasks p2 ! j)" if j: "j < length qs" "j \<noteq> m" "j \<noteq> n" for j
  proof (cases "j = k")
    case True
    then have "gently i (Pending f)" using step.IH j f by metis
    then have "gently i t \<and> moves act (gentle i) (po_world p1) (po_world p2)"
      using u(1) s(1) by (intro within_step)
    then show ?thesis using True k s(2) by simp
  next
    case False
    then show ?thesis using step.IH j s(2) by simp
  qed
  have "race D t0 i (po_tasks p2 ! m) (po_tasks p2 ! n) (po_world p2)"
    if "clock (w_store (po_world p2)) \<le> t0"
    using step.IH u m(1) n(1) mn len that
    by (intro race_pool_step [OF step(2)]) simp_all
  then show ?case using w2 o by blast
qed

lemma race_one_winner:
  assumes "race D t0 i a b w" shows "\<not> (a = Finished (Ok x) \<and> b = Finished (Ok y))"
  using assms early_not_Ok by (fastforce simp: race_def lost_def)

end

text \<open>
  C7. The exchange of a refresh token survives a race of two: of two exchanges of one token at most
  one succeeds, however their commands interleave with each other and with those of any other
  requests that issue and verify tokens or revoke single ones, as long as the record of the token
  does not expire meanwhile. The mark is one atomic command, so it does not matter that both read the
  record first.
\<close>

theorem two_exchanges_one_winner:
  assumes "redis_server R look" and "mono (rc_time (w_store w))" and "ids (other_id i) w"
    and "m < length qs" and "qs ! m = Exchange i issuer" and "n < length qs" and "qs ! n = Exchange i issuer'"
    and "m \<noteq> n" and "\<forall>k < length qs. k \<noteq> m \<longrightarrow> k \<noteq> n \<longrightarrow> bystander i (qs ! k)"
    and "rs_present look (w_store w) t0 (refresh_key i)"
    and "pool_reaches (requests D (redis_tasks R) qs w) p" and "rc_clock (w_store (po_world p)) \<le> t0"
  shows "\<not> (po_tasks p ! m = Finished (Ok x) \<and> po_tasks p ! n = Finished (Ok y))"
proof -
  note J = redis_server.async_contract [OF assms(1)]
  have "jti_tasks.race rs_wf rc_clock (rs_present look) (rs_used look) (redis_tasks R) (redis_act look) D t0 i
      (po_tasks p ! m) (po_tasks p ! n) (po_world p)"
    using jti_tasks.race_pool [OF J _ assms(3-11)] assms(2,12) by (simp add: rs_wf_def)
  then show ?thesis by (rule jti_tasks.race_one_winner [OF J])
qed

section \<open>Revocation beside verifications\<close>

definition not_for :: "string \<Rightarrow> 'v reply \<Rightarrow> bool" where
  "not_for j r \<longleftrightarrow> (\<forall>c. r = ValidClaims c \<longrightarrow> tc_jti c \<noteq> j)"

lemma spares_jti:
  assumes "bare_key j" and "calls_of U q x" and "\<not> U j" shows "j \<notin> op_writes x"
proof -
  have "\<not> any_group j" "\<not> groups_of s j" for s using assms(1) by (auto simp: any_group_def groups_of_def)
  then show ?thesis using assms by (cases x; cases q) auto
qed

text \<open>A request that leaves the group \<open>g\<close> of a subject as it is.\<close>

fun leaves_group :: "string \<Rightarrow> 'v req \<Rightarrow> bool" where
  "leaves_group s (IssueToken _ subject _ _ _) = (subject \<noteq> s)"
| "leaves_group s (IssuePair _ subject _ _ _) = (subject \<noteq> s)"
| "leaves_group s (Exchange _ _) = False"
| "leaves_group s (VerifyToken _ _ _) = True"
| "leaves_group s (RevokeToken j) = (j \<noteq> subject_group s)"
| "leaves_group s (RevokeSubject _) = False"

definition beside :: "string \<Rightarrow> store_op \<Rightarrow> bool" where
  "beside g x \<longleftrightarrow> g \<notin> op_writes x \<and> g \<notin> op_removes x"

lemma beside_issuing:
  "issuing U V x \<Longrightarrow> \<not> U (subject_group s) \<Longrightarrow> \<not> V (subject_group s) \<Longrightarrow> beside (subject_group s) x"
  by (cases x) (auto simp: beside_def)

lemma leaves_group_beside:
  assumes "leaves_group s q" and "calls_of (other_id j) q x"
  shows "beside (subject_group s) x"
  using assms
  by (cases q) (auto elim!: beside_issuing simp: groups_of_def other_id_def beside_def [of _ "OpDelete _"])

context jti_tasks
begin

text \<open>A world in which the token identifier \<open>j\<close> is gone, and what keeps it so.\<close>

definition gone :: "string \<Rightarrow> 's \<Rightarrow> bool" where
  "gone j s \<longleftrightarrow> (\<forall>t. clock s \<le> t \<longrightarrow> \<not> present s t j)"

lemma gone_act:
  assumes "wf s" and "act x s s'" and "j \<notin> op_writes x" and "gone j s"
  shows "gone j s'"
  unfolding gone_def
proof (intro allI impI)
  fix t
  assume t: "clock s' \<le> t"
  then have "clock s \<le> t" using act_clock [OF assms(1,2)] by simp
  then show "\<not> present s' t j"
    using act_absent [OF assms(1-3) t] assms(4) unfolding gone_def by blast
qed

abbreviation spares :: "string \<Rightarrow> ('n, 's) world \<Rightarrow> ('n, 's) world \<Rightarrow> bool" where
  "spares j \<equiv> moves act (\<lambda>x. j \<notin> op_writes x)"

definition dead :: "(string \<Rightarrow> bool) \<Rightarrow> string \<Rightarrow> ('n, 's) world \<Rightarrow> bool" where
  "dead U j w \<longleftrightarrow> wf (w_store w) \<and> ids U w \<and> gone j (w_store w)"

lemma gone_moves: "wf (w_store w) \<Longrightarrow> spares j w w' \<Longrightarrow> gone j (w_store w) \<Longrightarrow> gone j (w_store w')"
  unfolding moves_def using gone_act by metis

lemma dead_moves: "dead U j w \<Longrightarrow> spares j w w' \<Longrightarrow> dead U j w'"
  unfolding dead_def using gone_moves wf_moves moves_ids by metis

abbreviation refuses :: "(string \<Rightarrow> bool) \<Rightarrow> string \<Rightarrow> ('a \<Rightarrow> bool) \<Rightarrow> ('n, 's, 'a) jwt_task \<Rightarrow> bool" where
  "refuses U j P \<equiv> within (dead U j) (spares j) (on_ok P)"

lemma refuses_check: "refuses U j (\<lambda>b. b \<longrightarrow> k \<noteq> j) (store_task (st_check_jti T k))"
proof -
  have "within (\<lambda>s. wf s \<and> gone j s) (act (OpCheck k)) (\<lambda>r. r = Inr True \<longrightarrow> k \<noteq> j) (st_check_jti T k)"
    by (rule one_call_within [OF check_decides]) (auto simp: gone_def failed_def)
  then have "within (dead U j) (spares j) (\<lambda>r. r = Inr True \<longrightarrow> k \<noteq> j) (on_store (st_check_jti T k))"
    by (rule within_on_store) (simp_all add: dead_def)
  then show ?thesis
    unfolding store_task_def by (rule within_map_result) (simp add: on_ok_of_store)
qed

lemma refuses_is_verify: "refuses U j (\<lambda>ok. ok \<longrightarrow> tc_jti c \<noteq> j) (is_verify_task T c issuer audience)"
  unfolding is_verify_task_def
  by (auto intro!: within_any [OF within_now]
      within_map_result [where Q = "on_ok (\<lambda>b. b \<longrightarrow> tc_jti c \<noteq> j)", OF refuses_check])

lemma refuses_from_string:
  "refuses U j (\<lambda>t. tc_jti (jt_claims t) \<noteq> j) (from_string_task D T token issuer audience)"
  unfolding from_string_task_def
  by (auto intro!: within_any [OF within_result] within_any [OF within_key]
      within_and_task [OF refuses_is_verify] split: list.splits)

lemma refuses_verify: "refuses U j (not_for j) (serve D T (VerifyToken token issuer audience))"
  unfolding serve.simps verify_task_def
  by (rule within_map_result, rule within_map_result [OF refuses_from_string])
    (auto simp: not_for_def)

text \<open>
  A revocation on its way: it will reach \<open>Z\<close>, from a state in \<open>K\<close> or from any, or \<open>Z\<close> has been reached.
\<close>

definition revoking :: "('s \<Rightarrow> bool) \<Rightarrow> ('s \<Rightarrow> bool) \<Rightarrow> ('n, 's, 'v reply) jwt_task \<Rightarrow> 's \<Rightarrow> bool" where
  "revoking Z K t s \<longleftrightarrow> Z s \<or>
     (\<exists>(d :: ('s, jti_error + unit) task) h x. secures wf (act x) Z failed (\<lambda>_. True) d \<and> t = map_result (answer h) (store_task d)) \<or>
     (\<exists>(d :: ('s, jti_error + u64) task) h x. t = map_result (answer h) (store_task d) \<and>
        (secures wf (act x) Z failed (\<lambda>_. True) d \<or> secures wf (act x) Z failed K d \<and> K s))"

lemma await_secures:
  assumes "secures wf (act x) Z failed K d" and "map_result (answer h) (store_task d) = Pending f" and "f w = (t', w')"
    and "wf (w_store w)" and "K (w_store w)"
  shows "Z (w_store w') \<or> (\<exists>d'. t' = map_result (answer h) (store_task d') \<and>
    (secures wf (act x) Z failed (\<lambda>_. True) d' \<or> secures wf (act x) Z failed K d' \<and> K (w_store w')))"
proof (cases d)
  case (Finished y)
  then show ?thesis using assms(2) by (simp add: await_Finished)
next
  case (Pending g)
  obtain d' s where g: "g (w_store w) = (d', s)" by fastforce
  have "t' = map_result (answer h) (store_task d')" "w' = w\<lparr>w_store := s\<rparr>"
    using assms(2,3) g unfolding Pending await_Pending by auto
  then show ?thesis using secures_step [OF assms(1) [unfolded Pending] assms(4,5) g] by auto
qed

lemma revoking_step:
  assumes "revoking Z K (Pending f) (w_store w)" and "f w = (t', w')" and "wf (w_store w)"
    and "Z (w_store w) \<Longrightarrow> Z (w_store w')"
  shows "revoking Z K t' (w_store w')"
  using assms(1) unfolding revoking_def [of _ _ "Pending f"]
proof (elim disjE exE conjE)
  assume "Z (w_store w)"
  then show ?thesis using assms(4) by (simp add: revoking_def)
next
  fix d :: "('s, jti_error + unit) task" and h x
  assume "secures wf (act x) Z failed (\<lambda>_. True) d" and "Pending f = map_result (answer h) (store_task d)"
  then show ?thesis
    using await_secures [of x Z "\<lambda>_. True" d h f w t' w'] assms(2,3) unfolding revoking_def by metis
next
  fix d :: "('s, jti_error + u64) task" and h x
  assume "secures wf (act x) Z failed (\<lambda>_. True) d" and "Pending f = map_result (answer h) (store_task d)"
  then show ?thesis
    using await_secures [of x Z "\<lambda>_. True" d h f w t' w'] assms(2,3) unfolding revoking_def by metis
next
  fix d :: "('s, jti_error + u64) task" and h x
  assume "secures wf (act x) Z failed K d" and "K (w_store w)" and "Pending f = map_result (answer h) (store_task d)"
  then show ?thesis
    using await_secures [of x Z K d h f w t' w'] assms(2,3) unfolding revoking_def by metis
qed

lemma revoking_other:
  "revoking Z K t s \<Longrightarrow> (Z s \<Longrightarrow> Z s') \<Longrightarrow> (K s \<Longrightarrow> K s') \<Longrightarrow> revoking Z K t s'"
  unfolding revoking_def by blast

lemma await_not_Ok:
  "secures wf (act x) Z failed K d \<Longrightarrow> t = map_result (answer h) (store_task d) \<Longrightarrow> t = Finished (Ok r) \<Longrightarrow> False"
  by (cases d) (auto simp: await_Pending await_Finished secures_Finished failed_def of_store_def)

lemma revoking_done: "revoking Z K t s \<Longrightarrow> t = Finished (Ok r) \<Longrightarrow> Z s"
  unfolding revoking_def by (elim disjE exE conjE) (assumption, (drule (2) await_not_Ok, simp)+)

text \<open>
  In a pool the revocation gets there, if every call keeps \<open>Z\<close> and those of the other requests keep
  \<open>K\<close>.
\<close>

lemma revoking_pool:
  fixes w :: "('n, 's) world"
  assumes wf: "wf (w_store w)" and U: "ids U w" and n: "n < length qs"
    and start: "revoking Z K (serve D T (qs ! n)) (w_store w)"
    and all: "\<forall>q \<in> set qs. \<forall>x. calls_of U q x \<longrightarrow> P x"
    and others: "\<forall>k < length qs. k \<noteq> n \<longrightarrow> (\<forall>x. calls_of U (qs ! k) x \<longrightarrow> P' x)"
    and Z: "\<And>(w :: ('n, 's) world) w'. wf (w_store w) \<Longrightarrow> moves act P w w' \<Longrightarrow> Z (w_store w) \<Longrightarrow> Z (w_store w')"
    and K: "\<And>(w :: ('n, 's) world) w'. wf (w_store w) \<Longrightarrow> moves act P' w w' \<Longrightarrow> K (w_store w) \<Longrightarrow> K (w_store w')"
    and r: "pool_reaches (requests D T qs w) p"
  shows "wf (w_store (po_world p)) \<and> revoking Z K (po_tasks p ! n) (w_store (po_world p)) \<and>
     (\<forall>k < length qs. k \<noteq> n \<longrightarrow> within (ids U) (moves act P') (on_ok (\<lambda>_. True)) (po_tasks p ! k))"
  using r
proof (induction rule: rtranclp_induct)
  case base
  have "within (ids U) (moves act P') (on_ok (\<lambda>_. True)) (serve D T (qs ! k))" if "k < length qs" "k \<noteq> n" for k
    by (rule within_mono [OF within_serve]) (use others that in \<open>auto intro: moves_mono\<close>)
  then show ?case using n wf start by simp
next
  case (step p1 p2)
  have "ids U (po_world p1) \<and> (\<forall>t \<in> set (po_tasks p1). within (ids U) (moves act P) (on_ok (\<lambda>_. True)) t)"
    using requests_within [OF all, of D w] U by (intro pool_within_ids [OF step(1)]) simp_all
  then have u: "ids U (po_world p1)"
    "\<forall>t \<in> set (po_tasks p1). within (ids U) (moves act P) (on_ok (\<lambda>_. True)) t" by simp_all
  have len: "length (po_tasks p1) = length qs" using pool_length [OF step(1)] by simp
  obtain k f t where k: "k < length (po_tasks p1)" and f: "po_tasks p1 ! k = Pending f"
    and s: "f (po_world p1) = (t, po_world p2)" "po_tasks p2 = (po_tasks p1)[k := t]"
    using pool_step_cases [OF step(2)] by metis
  have "within (ids U) (moves act P) (on_ok (\<lambda>_. True)) (Pending f)" using u(2) k f by (metis nth_mem)
  then have "within (ids U) (moves act P) (on_ok (\<lambda>_. True)) t \<and> moves act P (po_world p1) (po_world p2)"
    using u(1) s(1) by (intro within_step)
  then have mv: "moves act P (po_world p1) (po_world p2)" by simp
  have w1: "wf (w_store (po_world p1))" using step.IH by simp
  have w2: "wf (w_store (po_world p2))" by (rule wf_moves [OF w1 mv])
  note z = Z [OF w1 mv]
  have o: "within (ids U) (moves act P') (on_ok (\<lambda>_. True)) (po_tasks p2 ! j)"
    if j: "j < length qs" "j \<noteq> n" for j
  proof (cases "j = k")
    case True
    then have "within (ids U) (moves act P') (on_ok (\<lambda>_. True)) (Pending f)" using step.IH j f by metis
    then have "within (ids U) (moves act P') (on_ok (\<lambda>_. True)) t \<and> moves act P' (po_world p1) (po_world p2)"
      using u(1) s(1) by (intro within_step)
    then show ?thesis using True k s(2) by simp
  next
    case False
    then show ?thesis using step.IH j s(2) by simp
  qed
  have "revoking Z K (po_tasks p2 ! n) (w_store (po_world p2))"
  proof (cases "k = n")
    case True
    then have "revoking Z K (Pending f) (w_store (po_world p1))" using step.IH f by simp
    then have "revoking Z K t (w_store (po_world p2))" using s(1) w1 z by (rule revoking_step)
    then show ?thesis using True k s(2) by simp
  next
    case False
    then have "within (ids U) (moves act P') (on_ok (\<lambda>_. True)) (Pending f)" using step.IH k len f by metis
    then have "within (ids U) (moves act P') (on_ok (\<lambda>_. True)) t \<and> moves act P' (po_world p1) (po_world p2)"
      using u(1) s(1) by (intro within_step)
    then have "K (w_store (po_world p1)) \<Longrightarrow> K (w_store (po_world p2))" using K [OF w1] by blast
    moreover have "revoking Z K (po_tasks p1 ! n) (w_store (po_world p1))" using step.IH by simp
    ultimately show ?thesis using False s(2) z by (auto intro: revoking_other)
  qed
  then show ?case using w2 o by blast
qed

text \<open>From a state in which the token is gone, every verification that starts refuses it.\<close>

lemma gone_pool:
  assumes wf: "wf (w_store (po_world p))" and g: "gone j (w_store (po_world p))"
    and b: "bare_key j" and U: "ids U w" "\<not> U j" and r: "pool_reaches (requests D T qs w) p"
    and v: "v < length qs" "po_tasks p ! v = serve D T (VerifyToken token issuer audience)"
    and r': "pool_reaches p p'"
  shows "within (dead U j) (spares j) (on_ok (not_for j)) (po_tasks p' ! v)"
proof -
  let ?P = "\<lambda>x. j \<notin> op_writes x"
  have t: "\<forall>t \<in> set (po_tasks (requests D T qs w)). within (ids U) (moves act ?P) (on_ok (\<lambda>_. True)) t"
    by (rule requests_within) (use spares_jti [where U = U] b U(2) in blast)
  have u: "ids U (po_world p) \<and> (\<forall>t \<in> set (po_tasks p). within (ids U) (moves act ?P) (on_ok (\<lambda>_. True)) t)"
    using U(1) by (intro pool_within_ids [OF r _ t]) simp
  then have "dead U j (po_world p)" using wf g unfolding dead_def by blast
  moreover have "\<forall>t \<in> set (po_tasks p). within (dead U j) (spares j) (on_ok (\<lambda>_. True)) t"
    using u by (auto intro: within_mono simp: dead_def)
  moreover have "within (dead U j) (spares j) (on_ok (not_for j)) (po_tasks p ! v)"
    using refuses_verify v(2) by simp
  moreover have "v < length (po_tasks p)" using v(1) pool_length [OF r] by simp
  ultimately show ?thesis
    by (intro pool_result [where Q = "on_ok (\<lambda>_. True)", OF r']) (auto intro: dead_moves)
qed

lemma not_for_not_valid:
  "within I G (on_ok (not_for (tc_jti c))) t \<Longrightarrow> t \<noteq> Finished (Ok (ValidClaims c))"
  by (auto simp: not_for_def)

text \<open>The two revocations: of one token, and of all tokens of a subject.\<close>

lemma token_revoked:
  assumes "wf (w_store w)" and "bare_key j" and "ids U w" and "\<not> U j"
    and n: "n < length qs" "qs ! n = RevokeToken j" and r: "pool_reaches (requests D T qs w) p"
    and fin: "po_tasks p ! n = Finished (Ok x)"
  shows "wf (w_store (po_world p)) \<and> gone j (w_store (po_world p))"
proof -
  have s: "revoking (gone j) (\<lambda>_. True) (serve D T (qs ! n)) (w_store w)"
    unfolding n(2) serve.simps revoking_def using delete_secures [of j] by (auto simp: gone_def [abs_def])
  have "wf (w_store (po_world p)) \<and> revoking (gone j) (\<lambda>_. True) (po_tasks p ! n) (w_store (po_world p)) \<and>
      (\<forall>k < length qs. k \<noteq> n \<longrightarrow> within (ids U) (moves act (\<lambda>_. True)) (on_ok (\<lambda>_. True)) (po_tasks p ! k))"
    by (rule revoking_pool [OF assms(1,3) n(1) s _ _ _ _ r, where P = "\<lambda>x. j \<notin> op_writes x"])
      (use spares_jti [where U = U] assms(2,4) gone_moves in blast)+
  then show ?thesis using revoking_done fin by metis
qed

lemma subject_revoked:
  assumes wf: "wf (w_store w)" and b: "bare_key j" and U: "ids (other_id j) w"
    and n: "n < length qs" "qs ! n = RevokeSubject s"
    and others: "\<forall>k < length qs. k \<noteq> n \<longrightarrow> leaves_group s (qs ! k)"
    and grp: "grp (w_store w) t0 (subject_group s) j = Some e" and late: "late e (w_store w)"
    and r: "pool_reaches (requests D T qs w) p" and fin: "po_tasks p ! n = Finished (Ok x)"
    and t0: "clock (w_store (po_world p)) \<le> t0"
  shows "wf (w_store (po_world p)) \<and> gone j (w_store (po_world p))"
proof -
  let ?Z = "\<lambda>s. clock s \<le> t0 \<longrightarrow> gone j s" and ?g = "subject_group s"
  let ?K = "\<lambda>s. late e s \<and> (clock s \<le> t0 \<longrightarrow> grp s t0 ?g j = Some e)"
  have "secures wf (act (OpRevoke ?g)) ?Z failed ?K (st_revoke_group T ?g)"
    using revoke_secures [of ?g t0 j e] by (simp add: gone_def [abs_def])
  then have s: "revoking ?Z ?K (serve D T (qs ! n)) (w_store w)"
    unfolding n(2) serve.simps revoking_def using grp late by blast
  have "wf (w_store (po_world p)) \<and> revoking ?Z ?K (po_tasks p ! n) (w_store (po_world p)) \<and>
      (\<forall>k < length qs. k \<noteq> n \<longrightarrow> within (ids (other_id j)) (moves act (beside ?g)) (on_ok (\<lambda>_. True)) (po_tasks p ! k))"
  proof (rule revoking_pool [OF wf U n(1) s _ _ _ _ r])
    show "\<forall>q \<in> set qs. \<forall>x. calls_of (other_id j) q x \<longrightarrow> j \<notin> op_writes x"
    proof -
      have "\<not> other_id j j" by (simp add: other_id_def)
      then show ?thesis using spares_jti [where U = "other_id j"] b by blast
    qed
    show "\<forall>k < length qs. k \<noteq> n \<longrightarrow> (\<forall>x. calls_of (other_id j) (qs ! k) x \<longrightarrow> beside ?g x)"
      using others leaves_group_beside by blast
    show "?Z (w_store w2)" if "wf (w_store w1)" "spares j w1 w2" "?Z (w_store w1)" for w1 w2 :: "('n, 's) world"
      using gone_moves [OF that(1,2)] clock_moves [OF that(1,2)] that(3) by auto
    show "?K (w_store w2)" if w: "wf (w_store w1)" and m: "moves act (beside ?g) w1 w2" and k: "?K (w_store w1)"
      for w1 w2 :: "('n, 's) world"
    proof -
      have "w_store w2 = w_store w1 \<or> (\<exists>x. beside ?g x \<and> act x (w_store w1) (w_store w2))"
        using m by (simp add: moves_def)
      then show ?thesis
      proof (elim disjE exE conjE)
        fix x
        assume x: "beside ?g x" and a: "act x (w_store w1) (w_store w2)"
        have "grp (w_store w2) t0 ?g j = Some e" if "clock (w_store w2) \<le> t0"
          using act_group [OF w a, of ?g t0] act_clock [OF w a] that x k by (simp add: beside_def)
        then show ?thesis using act_late [OF a] k by blast
      qed (use k in simp)
    qed
  qed
  then have w: "wf (w_store (po_world p)) \<and> revoking ?Z ?K (po_tasks p ! n) (w_store (po_world p))" by blast
  show ?thesis using w revoking_done [OF conjunct2 [OF w] fin] t0 by blast
qed

end

text \<open>
  C8. Revocation is final for requests that run beside it: once a revocation has answered, no
  verification that starts afterwards returns claims with that \<open>jti\<close>, whatever other requests of
  any kind are under way, whichever of their commands come in between, and whether those commands
  succeed, fail or take effect without an answer. The identifier has the form of a UUID, and the
  random generator does not produce it again.
\<close>

theorem revoked_token_dead_in_every_interleaving:
  assumes "redis_server R look" and "mono (rc_time (w_store w))" and "bare_key j" and "ids (\<lambda>u. u \<noteq> j) w"
    and "n < length qs" and "qs ! n = RevokeToken j" and "pool_reaches (requests D (redis_tasks R) qs w) p"
    and "po_tasks p ! n = Finished (Ok x)"
    and "v < length qs" and "po_tasks p ! v = serve D (redis_tasks R) (VerifyToken token issuer audience)"
    and "pool_reaches p p'" and "tc_jti c = j"
  shows "po_tasks p' ! v \<noteq> Finished (Ok (ValidClaims c))"
proof -
  note J = redis_server.async_contract [OF assms(1)]
  have g: "rs_wf (w_store (po_world p)) \<and> jti_tasks.gone rc_clock (rs_present look) j (w_store (po_world p))"
    using jti_tasks.token_revoked [OF J _ assms(3,4) _ assms(5-8)] assms(2) by (simp add: rs_wf_def)
  show ?thesis
    using jti_tasks.gone_pool [OF J conjunct1 [OF g] conjunct2 [OF g] assms(3,4) _ assms(7,9-11)]
      jti_tasks.not_for_not_valid [OF J] assms(12) by blast
qed

text \<open>
  C9. The same for all tokens of a subject at once, although their revocation takes four commands
  between which other requests run: when the index held the token with an expiry the process's
  clock has not reached, then once the revocation has answered no verification that starts
  afterwards returns claims with that \<open>jti\<close>. The other requests may issue tokens for other subjects,
  verify, and revoke single tokens; of requests that write the same index meanwhile nothing is said
  (\<open>Races.bulk_revocation_loses_the_index\<close> shows what can happen).
\<close>

theorem subject_revocation_dead_in_every_interleaving:
  assumes "redis_server R look" and "mono (rc_time (w_store w))" and "bare_key j" and "ids (other_id j) w"
    and "n < length qs" and "qs ! n = RevokeSubject s"
    and "\<forall>k < length qs. k \<noteq> n \<longrightarrow> leaves_group s (qs ! k)"
    and "rs_grp look (w_store w) t0 (subject_group s) j = Some e" and "rs_late e (w_store w)"
    and "pool_reaches (requests D (redis_tasks R) qs w) p" and "po_tasks p ! n = Finished (Ok x)"
    and "rc_clock (w_store (po_world p)) \<le> t0"
    and "v < length qs" and "po_tasks p ! v = serve D (redis_tasks R) (VerifyToken token issuer audience)"
    and "pool_reaches p p'" and "tc_jti c = j"
  shows "po_tasks p' ! v \<noteq> Finished (Ok (ValidClaims c))"
proof -
  note J = redis_server.async_contract [OF assms(1)]
  have g: "rs_wf (w_store (po_world p)) \<and> jti_tasks.gone rc_clock (rs_present look) j (w_store (po_world p))"
    using jti_tasks.subject_revoked [OF J _ assms(3-12)] assms(2) by (simp add: rs_wf_def)
  have "\<not> other_id j j" by (simp add: other_id_def)
  then show ?thesis
    using jti_tasks.gone_pool [OF J conjunct1 [OF g] conjunct2 [OF g] assms(3,4) _ assms(10,13-15)]
      jti_tasks.not_for_not_valid [OF J] assms(16) by blast
qed

end
