(* ===== verification/Races.thy ===== *)
theory Races
  imports Concurrent_Correct
begin

text \<open>
  Concrete interleavings on the keyspace of theory \<open>Redis_Keyspace\<close>: what the properties of theory
  \<open>Concurrent_Correct\<close> look like on a run, and two races in which the exchange of refresh tokens
  does not keep what its documentation promises.
\<close>

abbreviation KT :: "keyspace redis_client store_tasks" where
  "KT \<equiv> redis_tasks keyspace_redis"

section \<open>Running the issue of a token on any tidy keyspace\<close>

lemma keyspace_commands:
  "rd_set_ex keyspace_redis k v ttl = ks_exec (k_set_ex k v ttl)"
  "rd_exists keyspace_redis k = ks_exec (k_exists k)"
  "rd_del keyspace_redis ks = ks_exec (k_del ks)"
  "rd_zadd keyspace_redis k e sc = ks_exec (k_zadd k e sc)"
  "rd_expire_at keyspace_redis k t = ks_exec (k_expire_at k t)"
  "rd_expire keyspace_redis k t = ks_exec (k_expire k t)"
  "rd_zrembyscore keyspace_redis k t = ks_exec (k_zrem k t)"
  "rd_zrange keyspace_redis k = ks_exec (k_zrange k)"
  "rd_hset_multiple keyspace_redis k kvs = ks_exec (k_hset k kvs)"
  "rd_hgetall keyspace_redis k = ks_exec (k_hgetall k)"
  "rd_hset_nx keyspace_redis k f v = ks_exec (k_hset_nx k f v)"
  "rd_json_of_strings keyspace_redis = json_of_strings"
  by (simp_all add: keyspace_redis_def)

text \<open>The client of \<open>still_client\<close> after \<open>v\<close> readings of its own clock.\<close>

definition calm_client :: "nat \<Rightarrow> nat \<Rightarrow> keymap \<Rightarrow> metric list \<Rightarrow> keyspace redis_client" where
  "calm_client v n M ms = (still_client n M ms)\<lparr>rc_utc_tick := v\<rparr>"

lemma calm_issue:
  "issue (ks_exec f) (calm_client v n m ms) =
     (case f 1000 m of (x, m') \<Rightarrow> (x, calm_client v (Suc n) m' ms))"
  by (auto simp: issue_def calm_client_def still_client_def ks_exec_def rc_clock_def split: prod.splits)

lemma calm_finish:
  "finish name (Inr x, calm_client v n m ms) = (Inr x, calm_client v n m (ms @ [RedisCommand name True]))"
  by (simp add: finish_def calm_client_def still_client_def record_redis_command_def)

lemma calm_connection: "redis_connection R (calm_client v n m ms) = (Inr (), calm_client v n m ms)"
  by (simp add: redis_connection_def calm_client_def still_client_def)

lemma calm_now: "redis_utc_now (calm_client v n m ms) = (1000, calm_client (Suc v) n m ms)"
  by (simp add: redis_utc_now_def calm_client_def still_client_def)

lemmas calm_simps = with_connection_def calm_connection calm_issue calm_finish calm_now keyspace_commands

text \<open>A keyspace whose keys of interest hold values of the type the client expects.\<close>

definition zset_key :: "keymap \<Rightarrow> string \<Rightarrow> bool" where
  "zset_key M g \<longleftrightarrow> M g = None \<or> (\<exists>z d. M g = Some (KZset z, d))"

definition tidy :: "keymap \<Rightarrow> bool" where
  "tidy M \<longleftrightarrow> zset_key M ''group:sub:alice'' \<and> zset_key M ''group:family:f'' \<and>
     (M ''refresh:u0'' = None \<or> (\<exists>h. M ''refresh:u0'' = Some (KHash h, Some 1030) \<and> record_of_fields keyspace_redis (map_of h) = Some demo_rec))"

definition unused :: "keymap \<Rightarrow> bool" where
  "unused M \<longleftrightarrow> (\<forall>h d. M ''refresh:u0'' = Some (KHash h, d) \<longrightarrow> map_of h ''used'' = None)"

lemma unused_upd:
  "g \<noteq> ''refresh:u0'' \<Longrightarrow> unused (M(g \<mapsto> v)) = unused M"
  "map_of h ''used'' = None \<Longrightarrow> unused (M(''refresh:u0'' \<mapsto> (KHash h, d)))"
  by (simp_all add: unused_def)

lemma record_of_used:
  "record_of_fields R (f(''used'' \<mapsto> v)) = record_of_fields R f"
  by (simp add: record_of_fields_def)

lemma calm_add:
  assumes "zset_key M g" and "1000 < e"
  shows "\<exists>n' ms' z. redis_add_to_group keyspace_redis g j e (calm_client v n M ms) =
     (Inr (), calm_client v n' (M(g \<mapsto> (KZset z, Some e))) ms')"
proof -
  obtain z d where zd: "k_zadd g j e 1000 M = (Inr (), M(g \<mapsto> (KZset z, d)))" and "d = None \<or> alive 1000 d"
  proof (cases "live 1000 M g")
    case None
    then show ?thesis by (intro that [of "[(j, e)]" None]) (simp_all add: k_zadd_def)
  next
    case (Some p)
    then obtain z d where "live 1000 M g = Some (KZset z, d)" "alive 1000 d"
      using assms(1) by (auto simp: zset_key_def live_def split: option.splits if_splits)
    then show ?thesis by (intro that [of "AList.update j e z" d]) (simp_all add: k_zadd_def)
  qed
  then have "k_expire_at g e 1000 (M(g \<mapsto> (KZset z, d))) = (Inr (), M(g \<mapsto> (KZset z, Some e)))"
    by (auto simp: k_expire_at_def live_def alive_def)
  then show ?thesis
    using zd
    by (simp add: redis_add_to_group_def calm_simps) blast
qed

lemma calm_store:
  "redis_store_jti keyspace_redis j 60 (calm_client v n M ms) =
     (Inr (), calm_client v (Suc n) (M(j \<mapsto> (KStr ''1'', Some 1060))) (ms @ [RedisCommand ''store_jti'' True]))"
  by (simp add: redis_store_jti_def calm_simps k_set_ex_def)

lemma calm_check:
  "M j = Some (KStr ''1'', Some 1060) \<Longrightarrow> redis_check_jti keyspace_redis j (calm_client v n M ms) =
     (Inr True, calm_client v (Suc n) M (ms @ [RedisCommand ''check_jti'' True]))"
  by (simp add: redis_check_jti_def calm_simps k_exists_def live_def alive_def)

lemma calm_store_refresh:
  assumes "tidy M"
  shows "\<exists>n' ms' h. redis_store_refresh keyspace_redis ''u0'' demo_rec 30 (calm_client v n M ms) =
     (Inr (), calm_client v n' (M(''refresh:u0'' \<mapsto> (KHash h, Some 1030))) ms') \<and>
     record_of_fields keyspace_redis (map_of h) = Some demo_rec \<and> (unused M \<longrightarrow> map_of h ''used'' = None)"
proof -
  obtain aud where aud: "json_of_strings [''app''] = Some aud" "strings_of_json aud = Some [''app'']"
    using demo_aud by (metis option.sel)
  let ?kvs = "[(''sub'', ''alice''), (''aud'', aud), (''family'', ''f'')]"
  obtain h where h: "k_hset ''refresh:u0'' ?kvs 1000 M = (Inr (), M(''refresh:u0'' \<mapsto> (KHash (rev ?kvs @ h), if M ''refresh:u0'' = None then None else Some 1030)))"
      and used: "unused M \<longrightarrow> map_of h ''used'' = None"
    using assms by (auto simp: tidy_def unused_def k_hset_def live_def alive_def)
  have t: "as_i64 30 = 30" by (simp add: as_i64_def)
  have e: "k_expire ''refresh:u0'' 30 1000 (M(''refresh:u0'' \<mapsto> (KHash (rev ?kvs @ h), if M ''refresh:u0'' = None then None else Some 1030))) =
      (Inr (), M(''refresh:u0'' \<mapsto> (KHash (rev ?kvs @ h), Some 1030)))"
    by (simp add: k_expire_def k_expire_at_def live_def alive_def)
  have r: "record_of_fields keyspace_redis (map_of (rev ?kvs @ h)) = Some demo_rec"
    using aud(2) by (simp add: record_of_fields_def keyspace_redis_def demo_rec_def)
  have fields: "rr_subject demo_rec = ''alice''" "rr_audience demo_rec = [''app'']" "rr_family demo_rec = ''f''"
    by (simp_all add: demo_rec_def)
  show ?thesis
    by (intro exI [of _ "Suc (Suc n)"] exI [of _ "ms @ [RedisCommand ''store_refresh'' True]"]
        exI [of _ "rev ?kvs @ h"])
      (use h e r aud used in \<open>simp add: redis_store_refresh_def calm_simps refresh_key_def t fields\<close>)
qed

text \<open>The world of a run: only the store, the key manager and the ticks move.\<close>

definition run_world :: "nat \<Rightarrow> nat \<Rightarrow> keymap \<Rightarrow> metric list \<Rightarrow> nat key_manager \<Rightarrow> nat \<Rightarrow> nat
     \<Rightarrow> (nat, keyspace redis_client) world" where
  "run_world v n M ms k u i = demo_world\<lparr>w_store := calm_client v n M ms, w_keys := k, w_utc_tick := u,
     w_uuid_tick := i\<rparr>"

lemma run_world_simps [simp]:
  "w_store (run_world v n M ms k u i) = calm_client v n M ms" "w_keys (run_world v n M ms k u i) = k"
  "utc_now (run_world v n M ms k u i) = 1000" "uuid_next (run_world v n M ms k u i) = ''u0''"
  "utc_tick (run_world v n M ms k u i) = run_world v n M ms k (Suc u) i"
  "uuid_tick (run_world v n M ms k u i) = run_world v n M ms k u (Suc i)"
  "(run_world v n M ms k u i)\<lparr>w_store := calm_client v' n' M' ms'\<rparr> = run_world v' n' M' ms' k u i"
  "(run_world v n M ms k u i)\<lparr>w_keys := k'\<rparr> = run_world v n M ms k' u i"
  by (simp_all add: run_world_def utc_now_def uuid_next_def utc_tick_def uuid_tick_def demo_world_def)

lemma tidy_upd:
  "tidy M \<Longrightarrow> tidy (M(''u0'' \<mapsto> v))"
  "tidy M \<Longrightarrow> tidy (M(''group:sub:alice'' \<mapsto> (KZset z, d)))"
  "tidy M \<Longrightarrow> tidy (M(''group:family:f'' \<mapsto> (KZset z, d)))"
  "tidy M \<Longrightarrow> record_of_fields keyspace_redis (map_of h) = Some demo_rec \<Longrightarrow>
     tidy (M(''refresh:u0'' \<mapsto> (KHash h, Some 1030)))"
  by (auto simp: tidy_def zset_key_def)

lemma demo_store_calls:
  "js_store_jti (dp_store demo_deps_r) = redis_store_jti keyspace_redis"
  "js_add_to_group (dp_store demo_deps_r) = redis_add_to_group keyspace_redis"
  "js_check_jti (dp_store demo_deps_r) = redis_check_jti keyspace_redis"
  "js_store_refresh (dp_store demo_deps_r) = redis_store_refresh keyspace_redis"
  by (simp_all add: demo_deps_r_fields redis_jti_store_def)

lemma demo_over [simp]: "demo_deps_r\<lparr>dp_store := redis_jti_store keyspace_redis\<rparr> = demo_deps_r"
  by (simp add: demo_deps_r_def demo_deps_def)

lemma demo_run_calls [simp]:
  "js_get_refresh (dp_store demo_deps_r) = redis_get_refresh keyspace_redis"
  "js_mark_refresh_used (dp_store demo_deps_r) = redis_mark_refresh_used keyspace_redis"
  "js_revoke_group (dp_store demo_deps_r) = redis_revoke_group keyspace_redis"
  by (simp_all add: demo_deps_r_fields redis_jti_store_def)

lemma run_world_create:
  assumes "tidy M"
  shows "\<exists>n' M' ms' u' i'. claims_create_new demo_deps_r ''iss'' ''alice'' [''app''] None [] (run_world v n M ms k u i) =
     (Ok demo_claims, run_world v n' M' ms' k u' i') \<and> tidy M' \<and> M' ''u0'' = Some (KStr ''1'', Some 1060) \<and>
     (unused M \<longrightarrow> unused M')"
proof -
  let ?M1 = "M(''u0'' \<mapsto> (KStr ''1'', Some 1060))"
  let ?ms1 = "ms @ [RedisCommand ''store_jti'' True]"
  have "zset_key ?M1 ''group:sub:alice''" using assms by (simp add: tidy_def zset_key_def)
  then obtain n2 ms2 z where add: "redis_add_to_group keyspace_redis ''group:sub:alice'' ''u0'' 1060
      (calm_client v (Suc n) ?M1 ?ms1) = (Inr (), calm_client v n2 (?M1(''group:sub:alice'' \<mapsto> (KZset z, Some 1060))) ms2)"
    using calm_add [where e = 1060] by fastforce
  let ?M2 = "?M1(''group:sub:alice'' \<mapsto> (KZset z, Some 1060))"
  have M2: "?M2 ''u0'' = Some (KStr ''1'', Some 1060)" by simp
  have s60: "as_i64 60 = 60" by (simp add: as_i64_def)
  have p: "dp_plus demo_deps_r 1000 60 = Some 1060" by (simp add: demo_deps_r_def demo_deps_def)
  have "claims_create_new demo_deps_r ''iss'' ''alice'' [''app''] None [] (run_world v n M ms k u i) =
      (Ok demo_claims, run_world v (Suc n2) ?M2 (ms2 @ [RedisCommand ''check_jti'' True]) k (Suc (Suc u)) (Suc i))"
    using calm_check [where M = ?M2 and j = "''u0''" and n = n2 and ms = ms2] M2 demo_valid
    by (simp add: claims_create_new_def and_then_def pure_step_def validate_custom_claims_def demo_env_values
        demo_deps_r_fields(4) s60 p Let_def store_call_def demo_store_calls calm_store subject_group_def add
        claims_is_verify_def demo_uint demo_claims_fields flip: demo_claims_def)
  moreover have "tidy ?M2" by (intro tidy_upd assms)
  moreover have "unused M \<longrightarrow> unused ?M2" by (simp add: unused_upd)
  ultimately show ?thesis using M2 by blast
qed

lemma run_world_generate:
  assumes "tidy M" and k1: "get_private_key demo_b64 demo_service k = (Inr (demo_key_data, ''1''), k1)"
  shows "\<exists>n' M' ms' u' i'. generate_token demo_deps_r ''iss'' ''alice'' [''app''] None [] (run_world v n M ms k u i) =
     (Ok demo_token, run_world v n' M' ms' k1 u' i') \<and> tidy M' \<and> M' ''u0'' = Some (KStr ''1'', Some 1060) \<and>
     (unused M \<longrightarrow> unused M')"
proof -
  obtain n2 M2 ms2 u2 i2 where c: "claims_create_new demo_deps_r ''iss'' ''alice'' [''app''] None [] (run_world v n M ms k1 u i) =
     (Ok demo_claims, run_world v n2 M2 ms2 k1 u2 i2)" and M2: "tidy M2" "M2 ''u0'' = Some (KStr ''1'', Some 1060)"
      "unused M \<longrightarrow> unused M2"
    using run_world_create [OF assms(1)] by blast
  have h: "headers_create_new (dp_env demo_deps_r) (jd_kid demo_key_data) = demo_headers"
    by (simp add: demo_deps_r_def demo_key_data_def demo_env_values)
  have "generate_token demo_deps_r ''iss'' ''alice'' [''app''] None [] (run_world v n M ms k u i) =
      (Ok demo_token, run_world v n2 M2 ms2 k1 u2 i2)"
    using k1 c h demo_to_string
    by (simp add: generate_token_def and_then_def key_call_def pure_step_def demo_deps_r_def demo_deps_def demo_jwt_def)
  then show ?thesis using M2 by blast
qed

lemma run_world_renew:
  assumes "tidy M"
  shows "\<exists>n' M' ms' k' u' i'. run (renew_task demo_deps_r KT demo_rec ''iss'') (run_world v n M ms k u i) =
     (Ok (demo_token, ''u0''), run_world v n' M' ms' k' u' i') \<and> tidy M' \<and>
     M' ''u0'' = Some (KStr ''1'', Some 1060) \<and> M' ''refresh:u0'' \<noteq> None \<and> (unused M \<longrightarrow> unused M')"
proof -
  obtain k1 where k1: "get_private_key demo_b64 demo_service k = (Inr (demo_key_data, ''1''), k1)"
    using demo_key_call by blast
  obtain n2 M2 ms2 u2 i2 where g: "generate_token demo_deps_r ''iss'' ''alice'' [''app''] None [] (run_world v n M ms k u i) =
      (Ok demo_token, run_world v n2 M2 ms2 k1 u2 i2)" and M2: "tidy M2" "M2 ''u0'' = Some (KStr ''1'', Some 1060)"
      "unused M \<longrightarrow> unused M2"
    using run_world_generate [OF assms k1] by blast
  have "zset_key M2 ''group:family:f''" using M2 by (simp add: tidy_def)
  then obtain n3 ms3 z3 where a3: "redis_add_to_group keyspace_redis ''group:family:f'' ''u0'' 1060 (calm_client v n2 M2 ms2) =
      (Inr (), calm_client v n3 (M2(''group:family:f'' \<mapsto> (KZset z3, Some 1060))) ms3)"
    using calm_add [where e = 1060] by fastforce
  define M3 where "M3 = M2(''group:family:f'' \<mapsto> (KZset z3, Some 1060))"
  have M3: "tidy M3" "M3 ''u0'' = Some (KStr ''1'', Some 1060)" "unused M \<longrightarrow> unused M3"
    unfolding M3_def using M2 by (simp_all add: tidy_upd unused_upd)
  have seg: "split_on (CHR ''.'') demo_token = [''aH'', ''aC'', ''a1aaaHbxaaaC'']"
    by (simp add: demo_token_def)
  have cl: "claims_from_base64 demo_b64 demo_json ''aC'' = Inr demo_claims"
    by (simp add: claims_from_base64_def segment_text_def demo_json_def utf8_valid.simps byte_of_def
        demo_b64_def)
  have r: "register_access_in_family demo_deps_r demo_token ''f'' (run_world v n2 M2 ms2 k1 u2 i2) =
      (Ok (), run_world v n3 M3 ms3 k1 u2 i2)"
    using a3 cl
    by (simp add: register_access_in_family_def seg and_then_def pure_step_def demo_deps_r_fields store_call_def
        demo_store_calls [unfolded demo_deps_r_fields] family_group_def demo_claims_fields as_i64_def M3_def)
  obtain n4 ms4 h4 where s4: "redis_store_refresh keyspace_redis ''u0'' demo_rec 30 (calm_client v n3 M3 ms3) =
      (Inr (), calm_client v n4 (M3(''refresh:u0'' \<mapsto> (KHash h4, Some 1030))) ms4)"
    and h4: "record_of_fields keyspace_redis (map_of h4) = Some demo_rec" "unused M3 \<longrightarrow> map_of h4 ''used'' = None"
    using calm_store_refresh [OF M3(1)] by blast
  define M4 where "M4 = M3(''refresh:u0'' \<mapsto> (KHash h4, Some 1030))"
  have M4: "tidy M4" "M4 ''u0'' = Some (KStr ''1'', Some 1060)" "M4 ''refresh:u0'' \<noteq> None"
    "unused M \<longrightarrow> unused M4"
    unfolding M4_def using M3 h4 by (simp_all add: tidy_upd unused_upd)
  have "zset_key M4 ''group:family:f''" using M4 by (simp add: tidy_def)
  then obtain n5 ms5 z5 where a5: "redis_add_to_group keyspace_redis ''group:family:f'' ''refresh:u0'' 1030 (calm_client v n4 M4 ms4) =
      (Inr (), calm_client v n5 (M4(''group:family:f'' \<mapsto> (KZset z5, Some 1030))) ms5)"
    using calm_add [where e = 1030] by fastforce
  define M5 where "M5 = M4(''group:family:f'' \<mapsto> (KZset z5, Some 1030))"
  have M5: "tidy M5" "M5 ''u0'' = Some (KStr ''1'', Some 1060)" "M5 ''refresh:u0'' \<noteq> None"
    "unused M \<longrightarrow> unused M5"
    unfolding M5_def using M4 by (simp_all add: tidy_upd unused_upd del: not_None_eq)
  have t: "as_i64 30 = 30" "i64_add 1000 30 = 1030" by (simp_all add: as_i64_def i64_add_def as_usize_def)
  have fields: "rr_subject demo_rec = ''alice''" "rr_audience demo_rec = [''app'']" "rr_family demo_rec = ''f''"
    "\<lparr>rr_subject = ''alice'', rr_audience = [''app''], rr_family = ''f''\<rparr> = demo_rec"
    by (simp_all add: demo_rec_def)
  have "issue_refresh demo_deps_r ''alice'' [''app''] ''f'' (run_world v n3 M3 ms3 k1 u2 i2) =
      (Ok ''u0'', run_world v n5 M5 ms5 k1 (Suc u2) (Suc i2))"
    using s4 a5
    by (simp add: issue_refresh_def and_then_def store_call_def demo_store_calls demo_deps_r_fields(4) demo_env_values
        fields(4) t Let_def family_group_def refresh_key_def flip: M4_def M5_def)
  then have "run (renew_task demo_deps_r KT demo_rec ''iss'') (run_world v n M ms k u i) =
      (Ok (demo_token, ''u0''), run_world v n5 M5 ms5 k1 (Suc u2) (Suc i2))"
    using g r by (simp add: renew_task_def fields and_then_def)
  then show ?thesis using M5 by blast
qed

section \<open>The calls of an exchange\<close>

definition race_hash :: "(string \<times> string) list" where
  "race_hash = [(''sub'', ''alice''), (''aud'', the (json_of_strings [''app''])), (''family'', ''f'')]"

text \<open>The family \<open>f\<close> with one refresh token \<open>r0\<close>, unused; used; and what \<open>HSETNX\<close> leaves when the record is gone.\<close>

definition race_map :: keymap where
  "race_map = [''refresh:r0'' \<mapsto> (KHash race_hash, Some 1030),
     ''group:family:f'' \<mapsto> (KZset [(''refresh:r0'', 1030)], Some 1030)]"

definition used_map :: keymap where
  "used_map = race_map(''refresh:r0'' \<mapsto> (KHash ((''used'', ''1'') # race_hash), Some 1030))"

definition race_start :: "(nat, keyspace redis_client) world" where
  "race_start = run_world 0 0 race_map [] demo_manager 0 0"

lemma race_record:
  "record_of_fields keyspace_redis (map_of race_hash) = Some demo_rec"
  "record_of_fields keyspace_redis (map_of ((''used'', ''1'') # race_hash)) = Some demo_rec"
  "map_of race_hash ''used'' = None" "race_hash \<noteq> []"
  using demo_aud(2) by (simp_all add: race_hash_def record_of_fields_def keyspace_redis_def demo_rec_def)

lemma run_get:
  assumes "M (refresh_key i) = Some (KHash h, Some 1030)" and "h \<noteq> []"
    and "record_of_fields keyspace_redis (map_of h) = Some demo_rec"
  shows "\<exists>n' ms'. store_call (js_get_refresh (dp_store demo_deps_r) i) (run_world v n M ms k u j) =
     (Ok (Some demo_rec), run_world v n' M ms' k u j)"
  using assms
  by (simp add: store_call_def demo_deps_r_fields demo_jti_store redis_get_refresh_def calm_simps k_hgetall_def
      live_def alive_def) blast

lemma run_mark:
  assumes "M (refresh_key i) = Some (KHash h, Some 1030)"
  shows "\<exists>n' ms'. store_call (js_mark_refresh_used (dp_store demo_deps_r) i) (run_world v n M ms k u j) =
     (Ok (map_of h ''used'' = None), run_world v n'
        (if map_of h ''used'' = None then M(refresh_key i \<mapsto> (KHash ((''used'', ''1'') # h), Some 1030)) else M) ms' k u j)"
  using assms
  by (simp add: store_call_def demo_deps_r_fields demo_jti_store redis_mark_refresh_used_def calm_simps
      k_hset_nx_def live_def alive_def) blast

lemma run_mark_absent:
  assumes "M (refresh_key i) = None"
  shows "\<exists>n' ms'. store_call (js_mark_refresh_used (dp_store demo_deps_r) i) (run_world v n M ms k u j) =
     (Ok True, run_world v n' (M(refresh_key i \<mapsto> (KHash [(''used'', ''1'')], None))) ms' k u j)"
  using assms
  by (simp add: store_call_def demo_deps_r_fields demo_jti_store redis_mark_refresh_used_def calm_simps
      k_hset_nx_def live_def alive_def) blast

lemma revoke_used:
  "\<exists>n' ms'. store_call (js_revoke_group (dp_store demo_deps_r) (family_group ''f'')) (run_world v n used_map ms k u j) =
     (Ok 1, run_world (Suc v) n' Map.empty ms' k u j)"
proof -
  have g: "used_map ''group:family:f'' = Some (KZset [(''refresh:r0'', 1030)], Some 1030)"
    by (simp add: used_map_def race_map_def)
  have e: "(\<lambda>k. if k = ''group:family:f'' then None else if k = ''refresh:r0'' then None else used_map k) = Map.empty"
    by (auto simp: used_map_def race_map_def)
  have up: "used_map(''group:family:f'' \<mapsto> (KZset [(''refresh:r0'', 1030)], Some 1030)) = used_map"
    using g by auto
  show ?thesis
    using g e up
    by (simp add: store_call_def demo_deps_r_fields demo_jti_store redis_revoke_group_def calm_simps
      family_group_def k_zrem_def k_zrange_def k_del_def live_def alive_def) blast
qed

section \<open>Exchanges step by step\<close>

lemma reach_get:
  assumes "pool_reaches p \<lparr>po_tasks = ts, po_world = w\<rparr>" and "n < length ts"
    and "ts ! n = serve D T (Exchange i issuer)"
    and "store_call (run (st_get_refresh T i)) w = (Ok (Some rec), w')"
  shows "pool_reaches p \<lparr>po_tasks = ts[n := map_result pair_reply (mark_task D T i rec issuer)], po_world = w'\<rparr>"
proof -
  let ?h = "\<lambda>t. map_result pair_reply (and_task t (\<lambda>found.
     case found of None \<Rightarrow> Finished (Err NotValid) | Some rec \<Rightarrow> mark_task D T i rec issuer))"
  have "pool_reaches p \<lparr>po_tasks = ts[n := ?h (Finished (Ok (Some rec)))], po_world = w'\<rparr>"
    by (rule reach_part [where h = ?h and t = "store_task (st_get_refresh T i)", OF assms(1,2)])
      (use assms(3,4) in \<open>simp_all add: refresh_pair_task_def map_prod_def split_def\<close>)
  then show ?thesis by simp
qed

lemma reach_mark:
  assumes "pool_reaches p \<lparr>po_tasks = ts, po_world = w\<rparr>" and "n < length ts"
    and "ts ! n = map_result pair_reply (mark_task D T i rec issuer)"
    and "store_call (run (st_mark_refresh_used T i)) w = (Ok True, w')"
  shows "pool_reaches p \<lparr>po_tasks = ts[n := map_result pair_reply (renew_task D T rec issuer)], po_world = w'\<rparr>"
proof -
  let ?h = "\<lambda>t. map_result pair_reply (and_task t (\<lambda>marked.
       if \<not> marked then
         and_task (store_task (st_revoke_group T (family_group (rr_family rec)))) (\<lambda>_. Finished (Err NotValid))
       else renew_task D T rec issuer))"
  have "pool_reaches p \<lparr>po_tasks = ts[n := ?h (Finished (Ok True))], po_world = w'\<rparr>"
    by (rule reach_part [where h = ?h and t = "store_task (st_mark_refresh_used T i)", OF assms(1,2)])
      (use assms(3,4) in \<open>simp_all add: mark_task_def map_prod_def split_def\<close>)
  then show ?thesis by simp
qed

text \<open>A loser makes its failed mark and revokes the family; here with nothing in between.\<close>

lemma exchange_lose:
  assumes "store_call (run (st_mark_refresh_used T i)) w = (Ok False, w')"
    and "store_call (run (st_revoke_group T (family_group (rr_family rec)))) w' = (Ok c, w'')"
  shows "run (map_result pair_reply (mark_task D T i rec issuer)) w = (Err NotValid, w'')"
  using assms by (simp add: mark_task_def and_then_def)

text \<open>Two exchanges of \<open>r0\<close>: both read the record, the first marks it, the second loses and revokes.\<close>

lemma race_to_revoke:
  assumes p0: "pool_reaches p \<lparr>po_tasks = serve demo_deps_r KT (Exchange ''r0'' ''iss'') #
     serve demo_deps_r KT (Exchange ''r0'' ''iss'') # ts, po_world = run_world 0 n0 race_map ms0 k0 u0 j0\<rparr>"
  shows "\<exists>n ms k u j. pool_reaches p
     \<lparr>po_tasks = map_result pair_reply (renew_task demo_deps_r KT demo_rec ''iss'') # Finished (Err NotValid) # ts,
      po_world = run_world 1 n Map.empty ms k u j\<rparr>"
proof -
  let ?D = "demo_deps_r"
  let ?ts = "serve ?D KT (Exchange ''r0'' ''iss'') # serve ?D KT (Exchange ''r0'' ''iss'') # ts"
  have r: "rr_family demo_rec = ''f''" by (simp add: demo_rec_def)
  have l: "0 < length ?ts" "1 < length ?ts" "?ts ! 0 = serve ?D KT (Exchange ''r0'' ''iss'')"
    "?ts ! 1 = serve ?D KT (Exchange ''r0'' ''iss'')" by (simp_all del: serve.simps)
  have m: "race_map (refresh_key ''r0'') = Some (KHash race_hash, Some 1030)"
    "used_map (refresh_key ''r0'') = Some (KHash ((''used'', ''1'') # race_hash), Some 1030)"
    "race_map(refresh_key ''r0'' \<mapsto> (KHash ((''used'', ''1'') # race_hash), Some 1030)) = used_map"
    by (simp_all add: race_map_def used_map_def refresh_key_def)
  obtain n1 ms1 where g1: "store_call (js_get_refresh (dp_store ?D) ''r0'') (run_world 0 n0 race_map ms0 k0 u0 j0) =
      (Ok (Some demo_rec), run_world 0 n1 race_map ms1 k0 u0 j0)"
    using run_get [where M = race_map and i = "''r0''", OF m(1)] race_record by blast
  obtain n2 ms2 where g2: "store_call (js_get_refresh (dp_store ?D) ''r0'') (run_world 0 n1 race_map ms1 k0 u0 j0) =
      (Ok (Some demo_rec), run_world 0 n2 race_map ms2 k0 u0 j0)"
    using run_get [where M = race_map and i = "''r0''", OF m(1)] race_record by blast
  obtain n3 ms3 where m1: "store_call (js_mark_refresh_used (dp_store ?D) ''r0'') (run_world 0 n2 race_map ms2 k0 u0 j0) =
      (Ok True, run_world 0 n3 used_map ms3 k0 u0 j0)"
    using run_mark [where M = race_map and i = "''r0''", OF m(1)] race_record(3) m(3) by fastforce
  obtain n4 ms4 where m2: "store_call (js_mark_refresh_used (dp_store ?D) ''r0'') (run_world 0 n3 used_map ms3 k0 u0 j0) =
      (Ok False, run_world 0 n4 used_map ms4 k0 u0 j0)"
    using run_mark [where M = used_map and i = "''r0''", OF m(2)] by fastforce
  obtain n5 ms5 where rv: "store_call (js_revoke_group (dp_store ?D) (family_group ''f'')) (run_world 0 n4 used_map ms4 k0 u0 j0) =
      (Ok 1, run_world 1 n5 Map.empty ms5 k0 u0 j0)"
    using revoke_used [where v = 0] by fastforce
  let ?marking = "map_result pair_reply (mark_task ?D KT ''r0'' demo_rec ''iss'')
    :: (nat, keyspace redis_client, unit reply) jwt_task"
  let ?renew = "map_result pair_reply (renew_task ?D KT demo_rec ''iss'')
    :: (nat, keyspace redis_client, unit reply) jwt_task"
  have p1: "pool_reaches p \<lparr>po_tasks = ?ts[0 := ?marking], po_world = run_world 0 n1 race_map ms1 k0 u0 j0\<rparr>"
    by (rule reach_get [where n = 0, OF p0 l(1,3)]) (use g1 in simp)
  have p2: "pool_reaches p \<lparr>po_tasks = ?ts[0 := ?marking, 1 := ?marking], po_world = run_world 0 n2 race_map ms2 k0 u0 j0\<rparr>"
    by (rule reach_get [where n = 1, OF p1]) (use g2 l in \<open>simp_all del: serve.simps\<close>)
  have p3: "pool_reaches p \<lparr>po_tasks = ?ts[0 := ?marking, 1 := ?marking, 0 := ?renew], po_world = run_world 0 n3 used_map ms3 k0 u0 j0\<rparr>"
    by (rule reach_mark [where n = 0, OF p2]) (use m1 l in \<open>simp_all del: serve.simps\<close>)
  have e: "run (?ts[0 := ?marking, 1 := ?marking, 0 := ?renew] ! 1) (run_world 0 n3 used_map ms3 k0 u0 j0) =
      (Err NotValid, run_world 1 n5 Map.empty ms5 k0 u0 j0)"
    using l(1,2) exchange_lose [where T = KT and rec = demo_rec and i = "''r0''"] m2 rv r
    by (simp add: list_update_swap del: run_map_result)
  have "pool_reaches p \<lparr>po_tasks = ?ts[0 := ?marking, 1 := ?marking, 0 := ?renew, 1 := Finished (Err NotValid)],
      po_world = run_world 1 n5 Map.empty ms5 k0 u0 j0\<rparr>"
    by (rule reach_run [where n = 1, OF p3 _ e]) (use l(2) in simp)
  moreover have "?ts[0 := ?marking, 1 := ?marking, 0 := ?renew, 1 := Finished (Err NotValid)] =
      ?renew # Finished (Err NotValid) # ts" by simp
  ultimately show ?thesis by (simp only:) blast
qed

section \<open>Two races\<close>

abbreviation demo_pair :: "(jwt_error, unit reply) outcome" where
  "demo_pair \<equiv> Ok (TokenPair demo_token ''u0'')"

lemma race_of_two:
  "\<exists>n M ms k u j. pool_reaches (requests demo_deps_r KT (Exchange ''r0'' ''iss'' # Exchange ''r0'' ''iss'' # rest) race_start)
     \<lparr>po_tasks = Finished demo_pair # Finished (Err NotValid) # map (serve demo_deps_r KT) rest,
      po_world = run_world 1 n M ms k u j\<rparr> \<and> tidy M \<and>
     M ''u0'' = Some (KStr ''1'', Some 1060) \<and> M ''refresh:u0'' \<noteq> None \<and> unused M"
proof -
  let ?p = "requests demo_deps_r KT (Exchange ''r0'' ''iss'' # Exchange ''r0'' ''iss'' # rest) race_start"
  obtain n ms k u j where p: "pool_reaches ?p
     \<lparr>po_tasks = map_result pair_reply (renew_task demo_deps_r KT demo_rec ''iss'') # Finished (Err NotValid)
        # map (serve demo_deps_r KT) rest, po_world = run_world 1 n Map.empty ms k u j\<rparr>"
    using race_to_revoke [where p = ?p] by (simp add: requests_def race_start_def) blast
  have "tidy Map.empty" "unused Map.empty" by (simp_all add: tidy_def zset_key_def unused_def)
  then obtain n' M' ms' k' u' i' where
    r: "run (renew_task demo_deps_r KT demo_rec ''iss'') (run_world 1 n Map.empty ms k u j) =
      (Ok (demo_token, ''u0''), run_world 1 n' M' ms' k' u' i')"
    and M: "tidy M' \<and> M' ''u0'' = Some (KStr ''1'', Some 1060) \<and> M' ''refresh:u0'' \<noteq> None \<and> unused M'"
    using run_world_renew by blast
  have "pool_reaches ?p (\<lparr>po_tasks = (map_result pair_reply (renew_task demo_deps_r KT demo_rec ''iss'') # Finished (Err NotValid)
        # map (serve demo_deps_r KT) rest)[0 := Finished demo_pair], po_world = run_world 1 n' M' ms' k' u' i'\<rparr>)"
    by (rule reach_run [where n = 0, OF p]) (simp_all add: r [unfolded One_nat_def])
  then have "pool_reaches ?p (\<lparr>po_tasks = Finished demo_pair # Finished (Err NotValid) # map (serve demo_deps_r KT) rest,
      po_world = run_world 1 n' M' ms' k' u' i'\<rparr>)" by simp
  then show ?thesis using M by blast
qed

text \<open>The refresh token a renewal left behind is exchanged like any other.\<close>

lemma exchange_renewed:
  assumes "tidy M" and "M ''refresh:u0'' \<noteq> None" and "unused M"
  shows "\<exists>w'. run (serve demo_deps_r KT (Exchange ''u0'' ''iss'')) (run_world v n M ms k u j) = (demo_pair, w')"
proof -
  obtain h where h: "M ''refresh:u0'' = Some (KHash h, Some 1030)"
      "record_of_fields keyspace_redis (map_of h) = Some demo_rec" "map_of h ''used'' = None"
    using assms by (auto simp: tidy_def unused_def)
  then have ne: "h \<noteq> []" by (auto simp: record_of_fields_def)
  have k: "refresh_key ''u0'' = ''refresh:u0''" by (simp add: refresh_key_def)
  obtain n1 ms1 where g: "store_call (js_get_refresh (dp_store demo_deps_r) ''u0'') (run_world v n M ms k u j) =
      (Ok (Some demo_rec), run_world v n1 M ms1 k u j)"
    using run_get [where M = M and i = "''u0''", unfolded k, OF h(1) ne h(2)] by blast
  let ?M2 = "M(''refresh:u0'' \<mapsto> (KHash ((''used'', ''1'') # h), Some 1030))"
  obtain n2 ms2 where m: "store_call (js_mark_refresh_used (dp_store demo_deps_r) ''u0'') (run_world v n1 M ms1 k u j) =
      (Ok True, run_world v n2 ?M2 ms2 k u j)"
    using run_mark [where M = M and i = "''u0''", unfolded k, OF h(1)] h(3) by fastforce
  have "record_of_fields keyspace_redis (map_of ((''used'', ''1'') # h)) = Some demo_rec"
    using h(2) by (simp add: record_of_used)
  then have "tidy ?M2" by (intro tidy_upd assms)
  then obtain w' where "run (renew_task demo_deps_r KT demo_rec ''iss'') (run_world v n2 ?M2 ms2 k u j) =
      (Ok (demo_token, ''u0''), w')"
    using run_world_renew by blast
  then show ?thesis using g m
    by (simp add: refresh_pair_task_def mark_task_def and_then_def del: run_refresh_pair)
qed

text \<open>
  C19. The family survives the race: of two exchanges of one refresh token that overlap, the loser
  is told that the token was reused and revokes the family, but the winner, which has its mark
  already, goes on to issue. In the state reached both have answered, and the new refresh token of
  the revoked family is exchanged again by a request that starts only then.
\<close>

theorem family_survives_the_race:
  "\<exists>p p'. pool_reaches (requests demo_deps_r KT
       [Exchange ''r0'' ''iss'', Exchange ''r0'' ''iss'', Exchange ''u0'' ''iss''] race_start) p \<and>
     po_tasks p = [Finished demo_pair, Finished (Err NotValid), serve demo_deps_r KT (Exchange ''u0'' ''iss'')] \<and>
     pool_reaches p p' \<and>
     po_tasks p' = [Finished demo_pair, Finished (Err NotValid), Finished demo_pair]"
proof -
  obtain n M ms k u j where p: "pool_reaches (requests demo_deps_r KT
      [Exchange ''r0'' ''iss'', Exchange ''r0'' ''iss'', Exchange ''u0'' ''iss''] race_start)
      \<lparr>po_tasks = [Finished demo_pair, Finished (Err NotValid), serve demo_deps_r KT (Exchange ''u0'' ''iss'')],
       po_world = run_world 1 n M ms k u j\<rparr>"
    and M: "tidy M" "M ''refresh:u0'' \<noteq> None" "unused M"
    using race_of_two [of "[Exchange ''u0'' ''iss'']"] by (auto simp del: serve.simps)
  obtain w' where r: "run (serve demo_deps_r KT (Exchange ''u0'' ''iss'')) (run_world 1 n M ms k u j) = (demo_pair, w')"
    using exchange_renewed [OF M] by blast
  let ?ts = "[Finished demo_pair, Finished (Err NotValid), serve demo_deps_r KT (Exchange ''u0'' ''iss'')]"
  have "pool_reaches \<lparr>po_tasks = ?ts, po_world = run_world 1 n M ms k u j\<rparr>
      \<lparr>po_tasks = ?ts[2 := Finished demo_pair], po_world = w'\<rparr>"
    by (rule reach_run [where n = 2, OF rtranclp.rtrancl_refl]) (use r in \<open>simp_all del: serve.simps\<close>)
  then show ?thesis
    by (intro exI [of _ "\<lparr>po_tasks = ?ts, po_world = run_world 1 n M ms k u j\<rparr>"]
        exI [of _ "\<lparr>po_tasks = ?ts[2 := Finished demo_pair], po_world = w'\<rparr>"])
      (use p in \<open>simp del: serve.simps\<close>)
qed

text \<open>
  C18. Three exchanges of one refresh token can have two winners. All three read the record; the
  first marks it and wins; the second finds the mark, loses, and the revocation of the family
  deletes the record; the third then sets its mark on a key that no longer exists, which \<open>HSETNX\<close>
  creates, so it is told that the token was unused, and it succeeds too.
\<close>

theorem three_exchanges_two_winners:
  "\<exists>p. pool_reaches (requests demo_deps_r KT
       [Exchange ''r0'' ''iss'', Exchange ''r0'' ''iss'', Exchange ''r0'' ''iss''] race_start) p \<and>
     po_tasks p = [Finished demo_pair, Finished (Err NotValid), Finished demo_pair]"
proof -
  let ?D = "demo_deps_r" and ?E = "serve demo_deps_r KT (Exchange ''r0'' ''iss'')"
  let ?p = "requests ?D KT [Exchange ''r0'' ''iss'', Exchange ''r0'' ''iss'', Exchange ''r0'' ''iss''] race_start"
  let ?marking = "map_result pair_reply (mark_task ?D KT ''r0'' demo_rec ''iss'')
    :: (nat, keyspace redis_client, unit reply) jwt_task"
  let ?renew = "map_result pair_reply (renew_task ?D KT demo_rec ''iss'')
    :: (nat, keyspace redis_client, unit reply) jwt_task"
  have m: "race_map (refresh_key ''r0'') = Some (KHash race_hash, Some 1030)"
    by (simp add: race_map_def refresh_key_def)
  obtain n1 ms1 where g: "store_call (js_get_refresh (dp_store ?D) ''r0'') (run_world 0 0 race_map [] demo_manager 0 0) =
      (Ok (Some demo_rec), run_world 0 n1 race_map ms1 demo_manager 0 0)"
    using run_get [where M = race_map and i = "''r0''", OF m] race_record by blast
  have "pool_reaches ?p \<lparr>po_tasks = [?E, ?E, ?E], po_world = run_world 0 0 race_map [] demo_manager 0 0\<rparr>"
    by (simp add: requests_def race_start_def)
  then have "pool_reaches ?p \<lparr>po_tasks = [?E, ?E, ?E][2 := ?marking], po_world = run_world 0 n1 race_map ms1 demo_manager 0 0\<rparr>"
    by (rule reach_get [where n = 2]) (use g in \<open>simp_all del: serve.simps\<close>)
  then have "pool_reaches ?p \<lparr>po_tasks = ?E # ?E # [?marking], po_world = run_world 0 n1 race_map ms1 demo_manager 0 0\<rparr>"
    by (simp del: serve.simps)
  from race_to_revoke [OF this] obtain n2 ms2 k u j where
    p2: "pool_reaches ?p \<lparr>po_tasks = [?renew, Finished (Err NotValid), ?marking], po_world = run_world 1 n2 Map.empty ms2 k u j\<rparr>"
    by blast
  let ?M = "[''refresh:r0'' \<mapsto> (KHash [(''used'', ''1'')], None)]"
  obtain n3 ms3 where m3: "store_call (js_mark_refresh_used (dp_store ?D) ''r0'') (run_world 1 n2 Map.empty ms2 k u j) =
      (Ok True, run_world 1 n3 ?M ms3 k u j)"
    using run_mark_absent [where M = Map.empty and i = "''r0''" and v = 1] by (simp add: refresh_key_def) blast
  have "pool_reaches ?p \<lparr>po_tasks = [?renew, Finished (Err NotValid), ?marking][2 := ?renew], po_world = run_world 1 n3 ?M ms3 k u j\<rparr>"
    by (rule reach_mark [where n = 2, OF p2]) (use m3 in simp_all)
  then have p3: "pool_reaches ?p \<lparr>po_tasks = [?renew, Finished (Err NotValid), ?renew], po_world = run_world 1 n3 ?M ms3 k u j\<rparr>"
    by simp
  have "tidy ?M" by (simp add: tidy_def zset_key_def)
  then obtain n4 M4 ms4 k4 u4 j4 where r4: "run (renew_task ?D KT demo_rec ''iss'') (run_world 1 n3 ?M ms3 k u j) =
      (Ok (demo_token, ''u0''), run_world 1 n4 M4 ms4 k4 u4 j4)" and "tidy M4"
    using run_world_renew by blast
  then obtain w5 where r5: "run (renew_task ?D KT demo_rec ''iss'') (run_world 1 n4 M4 ms4 k4 u4 j4) =
      (Ok (demo_token, ''u0''), w5)" using run_world_renew by blast
  have "pool_reaches ?p \<lparr>po_tasks = [?renew, Finished (Err NotValid), ?renew][0 := Finished demo_pair],
      po_world = run_world 1 n4 M4 ms4 k4 u4 j4\<rparr>"
    by (rule reach_run [where n = 0, OF p3]) (simp_all add: r4 [unfolded One_nat_def])
  then have "pool_reaches ?p \<lparr>po_tasks = [Finished demo_pair, Finished (Err NotValid), ?renew],
      po_world = run_world 1 n4 M4 ms4 k4 u4 j4\<rparr>" by simp
  then have "pool_reaches ?p \<lparr>po_tasks = [Finished demo_pair, Finished (Err NotValid), ?renew][2 := Finished demo_pair],
      po_world = w5\<rparr>"
    by (rule reach_run [where n = 2]) (simp_all add: r5 [unfolded One_nat_def])
  then show ?thesis by (intro exI conjI) (assumption, simp)
qed

section \<open>A bulk revocation beside an issue\<close>

text \<open>A part of what a request waits for at the store, with nothing in between.\<close>

lemma reach_store:
  assumes "pool_reaches p \<lparr>po_tasks = ts, po_world = w\<rparr>" and "n < length ts"
    and "ts ! n = map_result g (store_task (c t))" and "run t (w_store w) = (x, s')"
    and c: "\<And>f. c (Pending f) = Pending (\<lambda>s. map_prod c (\<lambda>s'. s') (f s))"
  shows "pool_reaches p \<lparr>po_tasks = ts[n := map_result g (store_task (c (Finished x)))], po_world = w\<lparr>w_store := s'\<rparr>\<rparr>"
  using assms(1-4)
proof (induction t arbitrary: ts w)
  case (Finished y)
  then have "y = x" "s' = w_store w" by simp_all
  then show ?case using Finished.prems(1,3) list_update_id [of ts n] by simp
next
  case (Pending f)
  obtain t s1 where f: "f (w_store w) = (t, s1)" by fastforce
  have m: "(t, s1) \<in> range f" using f by (metis rangeI)
  have "pool_reaches p \<lparr>po_tasks = ts[n := map_result g (store_task (c t))], po_world = w\<lparr>w_store := s1\<rparr>\<rparr>"
    by (rule reach_call [OF Pending.prems(1,2), where f = "\<lambda>w. case map_prod c (\<lambda>s'. s') (f (w_store w)) of
        (t, s) \<Rightarrow> (map_result g (store_task t), w\<lparr>w_store := s\<rparr>)"])
      (use Pending.prems(3) in \<open>simp_all add: c await_Pending f\<close>)
  moreover have "run t (w_store (w\<lparr>w_store := s1\<rparr>)) = (x, s')" using Pending.prems(4) f by simp
  ultimately have "pool_reaches p \<lparr>po_tasks = (ts[n := map_result g (store_task (c t))])[n := map_result g (store_task (c (Finished x)))],
      po_world = (w\<lparr>w_store := s1\<rparr>)\<lparr>w_store := s'\<rparr>\<rparr>"
    using Pending.prems(2) by (intro Pending.IH [OF m, of t]) (simp_all add: prod_set_simps)
  then show ?case by simp
qed

text \<open>A bulk revocation of an empty group up to its last command.\<close>

definition last_command :: "string \<Rightarrow> (keyspace redis_client, jti_error + u64) task" where
  "last_command g = finish_task ''revoke_group''
     (try_task (command (rd_del keyspace_redis [g])) (\<lambda>_. Finished (Inr 0)))"

lemma finish_context:
  "finish_task name (try_task (Pending f) k) =
     Pending (\<lambda>s. map_prod (\<lambda>t. finish_task name (try_task t k)) (\<lambda>s'. s') (f s))"
  by (simp add: finish_task_def try_task_def map_prod_def split_def)

lemma reach_last_command:
  assumes p: "pool_reaches p \<lparr>po_tasks = ts, po_world = run_world v m M ms k u i\<rparr>" and n: "n < length ts"
    and t: "ts ! n = map_result h (store_task (revoke_group_task keyspace_redis g))" and M: "M g = None"
  shows "\<exists>m'. pool_reaches p \<lparr>po_tasks = ts[n := map_result h (store_task (last_command g))],
     po_world = run_world (Suc v) m' M ms k u i\<rparr>"
proof -
  let ?k = "\<lambda>jtis. try_task (if jtis \<noteq> [] then command (rd_del keyspace_redis jtis) else Finished (Inr ())) (\<lambda>_.
      try_task (command (rd_del keyspace_redis [g])) (\<lambda>_. Finished (Inr (of_nat (length jtis) :: u64))))"
  let ?k2 = "\<lambda>_. try_task (command (rd_zrange keyspace_redis g)) ?k"
  let ?n = "''revoke_group''"
  let ?k1 = "\<lambda>now. finish_task ?n (try_task (command (rd_zrembyscore keyspace_redis g now)) ?k2)"
  let ?ts = "\<lambda>d. ts[n := map_result h (store_task d)]"
  have l: "n < length (?ts d)" for d using n by simp
  have at: "?ts d ! n = map_result h (store_task d)" for d using n by simp
  have c1: "ts ! n = map_result h (store_task (try_task (call (redis_connection keyspace_redis)) (\<lambda>_. then_task (call redis_utc_now) ?k1)))"
    using t by (simp only: revoke_group_task_def connected_def)
  have "pool_reaches p \<lparr>po_tasks = ?ts (try_task (Finished (Inr ())) (\<lambda>_. then_task (call redis_utc_now) ?k1)),
      po_world = run_world v m M ms k u i\<lparr>w_store := calm_client v m M ms\<rparr>\<rparr>"
    by (rule reach_store [where c = "\<lambda>t. try_task t (\<lambda>_. then_task (call redis_utc_now) ?k1)", OF p n c1])
      (simp_all add: calm_connection try_task_def)
  then have p1: "pool_reaches p \<lparr>po_tasks = ?ts (then_task (call redis_utc_now) ?k1), po_world = run_world v m M ms k u i\<rparr>"
    by (simp add: try_task_def [of "Finished _"])
  have "pool_reaches p \<lparr>po_tasks = (?ts (then_task (call redis_utc_now) ?k1))[n := map_result h (store_task (then_task (Finished 1000) ?k1))],
      po_world = run_world v m M ms k u i\<lparr>w_store := calm_client (Suc v) m M ms\<rparr>\<rparr>"
    by (rule reach_store [where c = "\<lambda>t. then_task t ?k1", OF p1 l at]) (simp_all add: calm_now)
  then have p2: "pool_reaches p \<lparr>po_tasks = ?ts (?k1 1000), po_world = run_world (Suc v) m M ms k u i\<rparr>"
    by simp
  have z: "issue (rd_zrembyscore keyspace_redis g 1000) (calm_client (Suc v) m M ms) = (Inr (), calm_client (Suc v) (Suc m) M ms)"
    using M by (simp add: calm_simps k_zrem_def live_def)
  have "pool_reaches p \<lparr>po_tasks = (?ts (?k1 1000))[n := map_result h (store_task (finish_task ?n (try_task (Finished (Inr ())) ?k2)))],
      po_world = run_world (Suc v) m M ms k u i\<lparr>w_store := calm_client (Suc v) (Suc m) M ms\<rparr>\<rparr>"
    by (rule reach_store [where c = "\<lambda>t. finish_task ?n (try_task t ?k2)", OF p2 l at])
      (simp_all add: z finish_context)
  then have p3: "pool_reaches p \<lparr>po_tasks = ?ts (finish_task ?n (?k2 ())), po_world = run_world (Suc v) (Suc m) M ms k u i\<rparr>"
    by (simp add: try_task_def [of "Finished _"])
  have r: "issue (rd_zrange keyspace_redis g) (calm_client (Suc v) (Suc m) M ms) = (Inr [], calm_client (Suc v) (Suc (Suc m)) M ms)"
    using M by (simp add: calm_simps k_zrange_def live_def)
  have "pool_reaches p \<lparr>po_tasks = (?ts (finish_task ?n (?k2 ())))[n := map_result h (store_task (finish_task ?n (try_task (Finished (Inr [])) ?k)))],
      po_world = run_world (Suc v) (Suc m) M ms k u i\<lparr>w_store := calm_client (Suc v) (Suc (Suc m)) M ms\<rparr>\<rparr>"
    by (rule reach_store [where c = "\<lambda>t. finish_task ?n (try_task t ?k)", OF p3 l at])
      (simp_all add: r finish_context)
  then have "pool_reaches p \<lparr>po_tasks = ?ts (last_command g), po_world = run_world (Suc v) (Suc (Suc m)) M ms k u i\<rparr>"
    by (simp add: try_task_def [of "Finished _"] last_command_def)
  then show ?thesis by blast
qed

lemma run_last_command:
  "\<exists>n' ms'. store_call (run (last_command g)) (run_world v n M ms k u i) =
     (Ok 0, run_world v n' (M(g := None)) ms' k u i)"
proof -
  have e: "(\<lambda>k. if k = g then None else M k) = M(g := None)" by auto
  show ?thesis
    by (simp add: last_command_def store_call_def calm_simps k_del_def e) blast
qed

lemma run_revoke_empty:
  assumes "M g = None"
  shows "\<exists>n' ms'. store_call (redis_revoke_group keyspace_redis g) (run_world v n M ms k u i) =
     (Ok 0, run_world (Suc v) n' M ms' k u i)"
proof -
  have e: "(\<lambda>k. if k = g then None else M k) = M" using assms by auto
  show ?thesis
    using assms by (simp add: redis_revoke_group_def store_call_def calm_simps k_zrem_def k_zrange_def live_def k_del_def e) blast
qed

lemma run_world_verify:
  assumes M: "M ''u0'' = Some (KStr ''1'', Some 1060)"
    and m: "get_public_key demo_b64 demo_service ''k1'' k = (Inr ''1'', k2)"
  shows "\<exists>w'. verify_token demo_deps_r demo_token ''iss'' ''app'' (run_world v n M ms k u i) = (Ok demo_claims, w')"
proof -
  have c: "redis_check_jti keyspace_redis ''u0'' (calm_client v n M ms) =
      (Inr True, calm_client v (Suc n) M (ms @ [RedisCommand ''check_jti'' True]))" using calm_check [where M = M and j = "''u0''"] M by blast
  have v: "claims_is_verify (redis_jti_store keyspace_redis) demo_claims ''iss'' ''app''
      (run_world v n M ms k2 u i) = (True, run_world v (Suc n) M (ms @ [RedisCommand ''check_jti'' True]) k2 (Suc u) i)"
    using demo_valid c
    by (simp add: claims_is_verify_True demo_claims_fields demo_uint redis_jti_store_def)
  have seg: "split_on (CHR ''.'') demo_token = [''aH'', ''aC'', ''a1aaaHbxaaaC'']"
    by (simp add: demo_token_def)
  have h: "headers_is_verify demo_env demo_headers"
    by (simp add: headers_is_verify_def demo_headers_def SUPPORTED_ALGORITHMS_def demo_env_def)
  have "token_from_string demo_deps_r demo_token ''iss'' ''app'' (run_world v n M ms k u i)
      = (Ok demo_jwt, run_world v (Suc n) M (ms @ [RedisCommand ''check_jti'' True]) k2 (Suc u) i)"
    unfolding token_from_string_Ok seg using v m h
    by (simp add: demo_deps_r_fields demo_deps_r_def demo_deps_def headers_from_base64_def claims_from_base64_def segment_text_def
        demo_json_def utf8_valid.simps byte_of_def check_signature_def demo_jwt_def
        demo_headers_def demo_b64_def demo_crypto_def)
  then show ?thesis by (simp add: verify_token_def demo_jwt_def)
qed

lemma demo_pub_after:
  assumes "get_private_key demo_b64 demo_service demo_manager = (Inr (demo_key_data, ''1''), k)"
  shows "\<exists>k2. get_public_key demo_b64 demo_service ''k1'' k = (Inr ''1'', k2)"
proof -
  have k: "k = snd (get_private_key demo_b64 demo_service demo_manager)" using assms by simp
  have "fst (get_public_key demo_b64 demo_service ''k1'' k) = Inr ''1''"
    unfolding k
    by (simp add: get_private_key_def get_jwk_data_def private_key_def create_key_def get_key_def Let_def
        get_public_key_def get_jwk_def public_key_unfold demo_key_defs demo_b64_def
        public_key_of_jwk_def get_public_key_from_es_def curve_of_alg_def get_big_num_from_option_string_def)
  then show ?thesis by (metis prod.collapse)
qed

definition calm_start :: "(nat, keyspace redis_client) world" where
  "calm_start = run_world 0 0 Map.empty [] demo_manager 0 0"

text \<open>
  First the requests one and two: the revocation stands before its last command while the token is
  issued, and that command takes the index away.
\<close>

lemma revocation_drops_new_entry:
  obtains n M ms k u j where
    "pool_reaches (requests demo_deps_r KT
       [RevokeSubject ''alice'', IssueToken ''iss'' ''alice'' [''app''] None [], RevokeSubject ''alice'',
        VerifyToken demo_token ''iss'' ''app''] calm_start)
      \<lparr>po_tasks = [Finished (Ok (SubjectRevoked 0)), Finished (Ok (AccessToken demo_token)),
         serve demo_deps_r KT (RevokeSubject ''alice''), serve demo_deps_r KT (VerifyToken demo_token ''iss'' ''app'')],
       po_world = run_world 1 n M ms k u j\<rparr>"
    "M ''u0'' = Some (KStr ''1'', Some 1060)" "M (subject_group ''alice'') = None"
    "get_private_key demo_b64 demo_service demo_manager = (Inr (demo_key_data, ''1''), k)"
proof -
  let ?R = "serve demo_deps_r KT (RevokeSubject ''alice'') :: (nat, keyspace redis_client, unit reply) jwt_task"
    and ?I = "serve demo_deps_r KT (IssueToken ''iss'' ''alice'' [''app''] None [])
      :: (nat, keyspace redis_client, unit reply) jwt_task"
    and ?V = "serve demo_deps_r KT (VerifyToken demo_token ''iss'' ''app'')
      :: (nat, keyspace redis_client, unit reply) jwt_task"
  let ?g = "subject_group ''alice''" and ?h = "answer SubjectRevoked :: (jwt_error, u64) outcome \<Rightarrow> (jwt_error, unit reply) outcome"
  let ?p = "requests demo_deps_r KT [RevokeSubject ''alice'', IssueToken ''iss'' ''alice'' [''app''] None [],
      RevokeSubject ''alice'', VerifyToken demo_token ''iss'' ''app''] calm_start"
  let ?L = "map_result ?h (store_task (last_command ?g)) :: (nat, keyspace redis_client, unit reply) jwt_task"
  have R: "?R = map_result ?h (store_task (revoke_group_task keyspace_redis ?g))" by simp
  have "pool_reaches ?p \<lparr>po_tasks = [?R, ?I, ?R, ?V], po_world = run_world 0 0 Map.empty [] demo_manager 0 0\<rparr>"
    by (simp add: requests_def calm_start_def del: serve.simps)
  then have "\<exists>m1. pool_reaches ?p \<lparr>po_tasks = [?R, ?I, ?R, ?V][0 := ?L], po_world = run_world (Suc 0) m1 Map.empty [] demo_manager 0 0\<rparr>"
    by (rule reach_last_command [where n = 0]) (simp_all add: R del: serve.simps)
  then obtain m1 where "pool_reaches ?p \<lparr>po_tasks = [?R, ?I, ?R, ?V][0 := ?L], po_world = run_world 1 m1 Map.empty [] demo_manager 0 0\<rparr>"
    unfolding One_nat_def by blast
  then have p1: "pool_reaches ?p \<lparr>po_tasks = [?L, ?I, ?R, ?V], po_world = run_world 1 m1 Map.empty [] demo_manager 0 0\<rparr>"
    by (simp del: serve.simps)
  obtain k1 where k1: "get_private_key demo_b64 demo_service demo_manager = (Inr (demo_key_data, ''1''), k1)"
    using demo_key_call by blast
  have "tidy Map.empty" by (simp add: tidy_def zset_key_def)
  then obtain n2 M2 ms2 u2 i2 where g2: "generate_token demo_deps_r ''iss'' ''alice'' [''app''] None []
      (run_world 1 m1 Map.empty [] demo_manager 0 0) = (Ok demo_token, run_world 1 n2 M2 ms2 k1 u2 i2)"
    and M2: "M2 ''u0'' = Some (KStr ''1'', Some 1060)"
    using run_world_generate [OF _ k1] by blast
  have r2: "run ?I (run_world 1 m1 Map.empty [] demo_manager 0 0) = (Ok (AccessToken demo_token), run_world 1 n2 M2 ms2 k1 u2 i2)"
    by (simp add: g2 del: One_nat_def)
  have "pool_reaches ?p \<lparr>po_tasks = [?L, ?I, ?R, ?V][1 := Finished (Ok (AccessToken demo_token))],
      po_world = run_world 1 n2 M2 ms2 k1 u2 i2\<rparr>"
    by (rule reach_run [where n = 1, OF p1]) (simp_all add: r2 del: serve.simps One_nat_def)
  then have p2: "pool_reaches ?p \<lparr>po_tasks = [?L, Finished (Ok (AccessToken demo_token)), ?R, ?V],
      po_world = run_world 1 n2 M2 ms2 k1 u2 i2\<rparr>"
    by (simp del: serve.simps)
  obtain n3 ms3 where l3: "store_call (run (last_command ?g)) (run_world 1 n2 M2 ms2 k1 u2 i2) =
      (Ok 0, run_world 1 n3 (M2(?g := None)) ms3 k1 u2 i2)"
    using run_last_command by blast
  have "pool_reaches ?p \<lparr>po_tasks = [?L, Finished (Ok (AccessToken demo_token)), ?R, ?V][0 := Finished (Ok (SubjectRevoked 0))],
      po_world = run_world 1 n3 (M2(?g := None)) ms3 k1 u2 i2\<rparr>"
    by (rule reach_run [where n = 0, OF p2]) (use l3 in \<open>simp_all del: serve.simps\<close>)
  then have p3: "pool_reaches ?p \<lparr>po_tasks = [Finished (Ok (SubjectRevoked 0)), Finished (Ok (AccessToken demo_token)), ?R, ?V],
      po_world = run_world 1 n3 (M2(?g := None)) ms3 k1 u2 i2\<rparr>"
    by (simp del: serve.simps)
  have "(M2(?g := None)) ''u0'' = Some (KStr ''1'', Some 1060)" using M2 by (simp add: subject_group_def)
  then show ?thesis using that [OF p3 _ _ k1] by simp
qed

text \<open>
  Then the requests three and four, which start when the first two have answered: with the index
  gone, the revocation answers 0, and the token is verified.
\<close>

lemma token_without_index_lives:
  assumes "M ''u0'' = Some (KStr ''1'', Some 1060)" and "M (subject_group ''alice'') = None"
    and k: "get_private_key demo_b64 demo_service demo_manager = (Inr (demo_key_data, ''1''), k)"
  obtains w where
    "pool_reaches
      \<lparr>po_tasks = [x, y, serve demo_deps_r KT (RevokeSubject ''alice''),
         serve demo_deps_r KT (VerifyToken demo_token ''iss'' ''app'')], po_world = run_world 1 n M ms k u j\<rparr>
      \<lparr>po_tasks = [x, y, Finished (Ok (SubjectRevoked 0)), Finished (Ok (ValidClaims demo_claims))], po_world = w\<rparr>"
proof -
  let ?R = "serve demo_deps_r KT (RevokeSubject ''alice'') :: (nat, keyspace redis_client, unit reply) jwt_task"
    and ?V = "serve demo_deps_r KT (VerifyToken demo_token ''iss'' ''app'')
      :: (nat, keyspace redis_client, unit reply) jwt_task"
  let ?p = "\<lparr>po_tasks = [x, y, ?R, ?V], po_world = run_world 1 n M ms k u j\<rparr>" and ?g = "subject_group ''alice''"
  obtain n4 ms4 where l4: "store_call (redis_revoke_group keyspace_redis ?g) (run_world 1 n M ms k u j) =
      (Ok 0, run_world 2 n4 M ms4 k u j)"
    using run_revoke_empty [where v = 1 and M = M and g = ?g] assms(2) unfolding numeral_2_eq_2 One_nat_def by blast
  have "pool_reaches ?p \<lparr>po_tasks = [x, y, ?R, ?V][2 := Finished (Ok (SubjectRevoked 0))], po_world = run_world 2 n4 M ms4 k u j\<rparr>"
    by (rule reach_run [where n = 2, OF rtranclp.rtrancl_refl]) (use l4 in simp_all)
  then have p4: "pool_reaches ?p \<lparr>po_tasks = [x, y, Finished (Ok (SubjectRevoked 0)), ?V], po_world = run_world 2 n4 M ms4 k u j\<rparr>"
    by (simp del: serve.simps)
  obtain k2 where k2: "get_public_key demo_b64 demo_service ''k1'' k = (Inr ''1'', k2)"
    using demo_pub_after [OF k] by blast
  obtain w5 where v5: "verify_token demo_deps_r demo_token ''iss'' ''app'' (run_world 2 n4 M ms4 k u j) = (Ok demo_claims, w5)"
    using run_world_verify [where M = M, OF _ k2] assms(1) by blast
  have "pool_reaches ?p \<lparr>po_tasks = [x, y, Finished (Ok (SubjectRevoked 0)), ?V][3 := Finished (Ok (ValidClaims demo_claims))],
      po_world = w5\<rparr>"
    by (rule reach_run [where n = 3, OF p4]) (use v5 in simp_all)
  then show ?thesis by (intro that) simp
qed

text \<open>
  C20. A bulk revocation loses what is added to the index while it runs. The revocation reads the
  index of the subject; a token of the subject is issued and indexed, and the issue has answered;
  then the revocation deletes the index with the new entry in it. The token does not only survive
  this revocation, as the comment of \<open>revoke_group\<close> allows: a second bulk revocation of the same
  subject, which starts when both requests have long answered, finds nothing and answers 0, and the
  token still passes verification.
\<close>

theorem bulk_revocation_loses_the_index:
  "\<exists>p p'. pool_reaches (requests demo_deps_r KT
       [RevokeSubject ''alice'', IssueToken ''iss'' ''alice'' [''app''] None [], RevokeSubject ''alice'',
        VerifyToken demo_token ''iss'' ''app''] calm_start) p \<and>
     po_tasks p = [Finished (Ok (SubjectRevoked 0)), Finished (Ok (AccessToken demo_token)),
        serve demo_deps_r KT (RevokeSubject ''alice''),
        serve demo_deps_r KT (VerifyToken demo_token ''iss'' ''app'')] \<and>
     pool_reaches p p' \<and>
     po_tasks p' = [Finished (Ok (SubjectRevoked 0)), Finished (Ok (AccessToken demo_token)),
        Finished (Ok (SubjectRevoked 0)), Finished (Ok (ValidClaims demo_claims))]"
proof -
  obtain n M ms k u j where p: "pool_reaches (requests demo_deps_r KT
       [RevokeSubject ''alice'', IssueToken ''iss'' ''alice'' [''app''] None [], RevokeSubject ''alice'',
        VerifyToken demo_token ''iss'' ''app''] calm_start)
      \<lparr>po_tasks = [Finished (Ok (SubjectRevoked 0)), Finished (Ok (AccessToken demo_token)),
         serve demo_deps_r KT (RevokeSubject ''alice''), serve demo_deps_r KT (VerifyToken demo_token ''iss'' ''app'')],
       po_world = run_world 1 n M ms k u j\<rparr>"
    and w: "M ''u0'' = Some (KStr ''1'', Some 1060)" "M (subject_group ''alice'') = None"
      "get_private_key demo_b64 demo_service demo_manager = (Inr (demo_key_data, ''1''), k)"
    by (rule revocation_drops_new_entry)
  obtain w' where p': "pool_reaches
      \<lparr>po_tasks = [Finished (Ok (SubjectRevoked 0)), Finished (Ok (AccessToken demo_token)),
         serve demo_deps_r KT (RevokeSubject ''alice''), serve demo_deps_r KT (VerifyToken demo_token ''iss'' ''app'')],
       po_world = run_world 1 n M ms k u j\<rparr>
      \<lparr>po_tasks = [Finished (Ok (SubjectRevoked 0)), Finished (Ok (AccessToken demo_token)),
         Finished (Ok (SubjectRevoked 0)), Finished (Ok (ValidClaims demo_claims))], po_world = w'\<rparr>"
    by (rule token_without_index_lives [OF w])
  show ?thesis by (intro exI conjI, rule p, simp del: serve.simps, rule p', simp)
qed

section \<open>Witnesses\<close>

lemma two_exchanges_one_winner_witness:
  "\<exists>p. pool_reaches (requests demo_deps_r KT [Exchange ''r0'' ''iss'', Exchange ''r0'' ''iss''] race_start) p \<and>
     po_tasks p = [Finished demo_pair, Finished (Err NotValid)] \<and>
     \<not> (po_tasks p ! 0 = Finished demo_pair \<and> po_tasks p ! 1 = Finished demo_pair)"
proof -
  obtain n M ms k u j where p: "pool_reaches (requests demo_deps_r KT [Exchange ''r0'' ''iss'', Exchange ''r0'' ''iss''] race_start)
     \<lparr>po_tasks = [Finished demo_pair, Finished (Err NotValid)], po_world = run_world 1 n M ms k u j\<rparr>"
    using race_of_two [of "[]"] by (auto simp del: serve.simps)
  have m: "mono (rc_time (w_store race_start))"
    by (simp add: race_start_def calm_client_def still_client_def mono_def)
  have i: "ids (other_id ''r0'') race_start"
    by (simp add: ids_def other_id_def race_start_def run_world_def demo_world_def bare_key_def)
  have t: "rs_present ks_look (w_store race_start) 1029 (refresh_key ''r0'')"
    by (simp add: race_start_def calm_client_def still_client_def rs_present_def ks_look_def map_look_def live_def
        alive_def race_map_def refresh_key_def)
  have c: "rc_clock (w_store (run_world 1 n M ms k u j)) \<le> 1029"
    by (simp add: calm_client_def still_client_def rc_clock_def)
  have "\<not> (po_tasks \<lparr>po_tasks = [Finished demo_pair, Finished (Err NotValid)], po_world = run_world 1 n M ms k u j\<rparr> ! 0 = Finished demo_pair \<and>
      po_tasks \<lparr>po_tasks = [Finished demo_pair, Finished (Err NotValid)], po_world = run_world 1 n M ms k u j\<rparr> ! 1 = Finished demo_pair)"
    by (rule two_exchanges_one_winner [where n = 1, OF ks.redis_server_axioms m i _ _ _ _ _ _ t p])
      (use c in \<open>auto simp: less_Suc_eq\<close>)
  then show ?thesis using p
    by (intro exI [of _ "\<lparr>po_tasks = [Finished demo_pair, Finished (Err NotValid)], po_world = run_world 1 n M ms k u j\<rparr>"])
      simp
qed

lemma revoked_token_dead_in_every_interleaving_witness:
  "\<exists>w p' x. pool_reaches (requests demo_deps KT [RevokeToken ''u0'', VerifyToken demo_token ''iss'' ''app''] w) p' \<and>
     po_tasks p' = [Finished (Ok TokenRevoked), Finished x] \<and> x \<noteq> Ok (ValidClaims demo_claims)"
proof -
  let ?w = "demo_issued\<lparr>w_uuid := \<lambda>_. ''u9''\<rparr>" and ?V = "VerifyToken demo_token ''iss'' ''app''"
  let ?qs = "[RevokeToken ''u0'', ?V]"
  have "\<exists>w1. store_call (redis_delete_jti keyspace_redis ''u0'') ?w = (Ok (), w1)"
    by (simp add: store_call_def redis_delete_jti_def with_connection_def redis_connection_def
        issue_def finish_def demo_issued_fields keyspace_commands ks_exec_def k_del_def)
  then obtain w1 where w1: "run (serve demo_deps KT (RevokeToken ''u0'')) ?w = (Ok TokenRevoked, w1)" by auto
  obtain x w2 where w2: "run (serve demo_deps KT ?V) w1 = (x, w2)" by fastforce
  let ?ts = "[serve demo_deps KT (RevokeToken ''u0''), serve demo_deps KT ?V]"
  have "pool_reaches (requests demo_deps KT ?qs ?w) \<lparr>po_tasks = ?ts, po_world = ?w\<rparr>" by (simp add: requests_def)
  then have p: "pool_reaches (requests demo_deps KT ?qs ?w) \<lparr>po_tasks = ?ts[0 := Finished (Ok TokenRevoked)], po_world = w1\<rparr>"
    by (rule reach_run [where n = 0]) (use w1 in \<open>simp_all del: serve.simps\<close>)
  have p': "pool_reaches \<lparr>po_tasks = ?ts[0 := Finished (Ok TokenRevoked)], po_world = w1\<rparr>
      \<lparr>po_tasks = ?ts[0 := Finished (Ok TokenRevoked), 1 := Finished x], po_world = w2\<rparr>"
    by (rule reach_run [where n = 1, OF rtranclp.rtrancl_refl]) (use w2 in \<open>simp_all del: serve.simps\<close>)
  have m: "mono (rc_time (w_store ?w))" by (simp add: demo_issued_fields mono_def)
  have "po_tasks \<lparr>po_tasks = ?ts[0 := Finished (Ok TokenRevoked), 1 := Finished x], po_world = w2\<rparr> ! 1 \<noteq>
      Finished (Ok (ValidClaims demo_claims))"
    by (rule revoked_token_dead_in_every_interleaving [where n = 0 and v = 1 and j = "''u0''",
          OF ks.redis_server_axioms m _ _ _ _ p _ _ _ p'])
      (simp_all add: bare_key_def ids_def demo_claims_fields del: serve.simps)
  then show ?thesis using rtranclp_trans [OF p p'] by (intro exI conjI) (assumption, simp_all)
qed

lemma subject_revocation_dead_in_every_interleaving_witness:
  "\<exists>w p' x. pool_reaches (requests demo_deps KT [RevokeSubject ''alice'', VerifyToken demo_token ''iss'' ''app''] w) p' \<and>
     po_tasks p' = [Finished (Ok (SubjectRevoked 1)), Finished x] \<and> x \<noteq> Ok (ValidClaims demo_claims)"
proof -
  let ?w = "demo_issued\<lparr>w_uuid := \<lambda>_. ''u9''\<rparr>" and ?V = "VerifyToken demo_token ''iss'' ''app''"
  let ?g = "subject_group ''alice''"
  let ?qs = "[RevokeSubject ''alice'', ?V]"
  define s1 where "s1 = snd (redis_revoke_group keyspace_redis ?g (w_store demo_issued))"
  have r: "redis_revoke_group keyspace_redis ?g (w_store demo_issued) = (Inr 1, s1)"
    by (simp add: s1_def prod_eq_iff redis_revoke_group_def with_connection_def redis_utc_now_def
        redis_connection_def finish_def issue_def keyspace_redis_def ks_exec_def demo_issued_fields
        k_zrem_def k_zrange_def k_del_def live_def alive_def rc_clock_def subject_group_def)
  have "rc_time s1 = (\<lambda>_. 1000)"
    by (simp add: s1_def redis_revoke_group_def with_connection_def redis_utc_now_def
        redis_connection_def finish_def issue_def keyspace_redis_def ks_exec_def demo_issued_fields
        k_zrem_def k_zrange_def k_del_def live_def alive_def rc_clock_def subject_group_def
        record_redis_command_def)
  then have c1: "rc_clock s1 \<le> 1059" by (simp add: rc_clock_def)
  let ?w1 = "?w\<lparr>w_store := s1\<rparr>"
  have w1: "run (serve demo_deps KT (RevokeSubject ''alice'')) ?w = (Ok (SubjectRevoked 1), ?w1)"
    using r by (simp add: store_call_def)
  obtain x w2 where w2: "run (serve demo_deps KT ?V) ?w1 = (x, w2)" by fastforce
  let ?ts = "[serve demo_deps KT (RevokeSubject ''alice''), serve demo_deps KT ?V]"
  have "pool_reaches (requests demo_deps KT ?qs ?w) \<lparr>po_tasks = ?ts, po_world = ?w\<rparr>" by (simp add: requests_def)
  then have p: "pool_reaches (requests demo_deps KT ?qs ?w) \<lparr>po_tasks = ?ts[0 := Finished (Ok (SubjectRevoked 1))], po_world = ?w1\<rparr>"
    by (rule reach_run [where n = 0]) (use w1 in \<open>simp_all del: serve.simps\<close>)
  have p': "pool_reaches \<lparr>po_tasks = ?ts[0 := Finished (Ok (SubjectRevoked 1))], po_world = ?w1\<rparr>
      \<lparr>po_tasks = ?ts[0 := Finished (Ok (SubjectRevoked 1)), 1 := Finished x], po_world = w2\<rparr>"
    by (rule reach_run [where n = 1, OF rtranclp.rtrancl_refl]) (use w2 in \<open>simp_all del: serve.simps\<close>)
  have m: "mono (rc_time (w_store ?w))" by (simp add: demo_issued_fields mono_def)
  have g: "rs_grp ks_look (w_store ?w) 1059 ?g ''u0'' = Some 1060"
    by (simp add: rs_grp_def ks_look_def map_look_def live_def alive_def demo_issued_fields subject_group_def)
  have l: "rs_late 1060 (w_store ?w)" by (simp add: rs_late_def demo_issued_fields)
  have "po_tasks \<lparr>po_tasks = ?ts[0 := Finished (Ok (SubjectRevoked 1)), 1 := Finished x], po_world = w2\<rparr> ! 1 \<noteq>
      Finished (Ok (ValidClaims demo_claims))"
    by (rule subject_revocation_dead_in_every_interleaving [where n = 0 and v = 1 and j = "''u0''",
          OF ks.redis_server_axioms m _ _ _ _ _ g l p _ _ _ _ p'])
      (use c1 in \<open>auto simp: bare_key_def ids_def other_id_def demo_claims_fields less_Suc_eq simp del: serve.simps\<close>)
  then show ?thesis using rtranclp_trans [OF p p'] by (intro exI conjI) (assumption, simp_all)
qed

end
