(* ===== verification/Client.thy ===== *)
theory Client
  imports Auth
begin

text \<open>
  The client of the level 3 endpoints that the repository ships (\<open>docs/clients/rust.rs\<close>): issue, refresh,
  revoke, and the scenario of its \<open>main\<close>. Its crates are parameters: \<open>totp-rs\<close> (the decoding of the
  secret, the construction of a generator, its code for the time of the system), \<open>reqwest\<close> (a request is
  sent or it is not) and \<open>serde_json\<close> (a body read into a reply). The state \<open>'w\<close> is whatever the network
  and the clocks are; \<open>'b\<close> is the body of an answer.
\<close>

section \<open>The data\<close>

definition ISSUER_HOST :: string where
  "ISSUER_HOST = ''example.com''"

record client_token_response =
  ct_token :: string
  ct_refresh_token :: "string option"

record client_revoke_response =
  ct_revoked :: u64

record 'v issue_request =
  iq_sub :: string
  iq_aud :: "string list"
  iq_refresh :: bool
  iq_claims :: "'v json_object"

text \<open>The JSON values of the bodies; a member of the client's own claims is a \<open>'v\<close>.\<close>

datatype 'v json = JString string | JStrings "string list" | JBool bool | JMap "'v json_object"

text \<open>\<open>skip_serializing_if\<close>: without claims there is no member for them.\<close>

definition issue_json :: "'v issue_request \<Rightarrow> 'v json json_object" where
  "issue_json q =
     [(''sub'', JString (iq_sub q)), (''aud'', JStrings (iq_aud q)), (''refresh'', JBool (iq_refresh q))] @
     (if iq_claims q = [] then [] else [(''claims'', JMap (iq_claims q))])"

definition refresh_json :: "string \<Rightarrow> 'v json json_object" where
  "refresh_json refresh_token = [(''refresh_token'', JString refresh_token)]"

record client =
  cl_base_url :: string
  cl_secret :: string

text \<open>The errors behind \<open>Box<dyn Error>\<close>; \<open>Refused\<close> is the formatted one, with the text and the status.\<close>

datatype client_error = BadSecret | BadTotp | NoTime | NotSent | Refused string nat | BadReply

record 'b reply =
  rp_status :: nat
  rp_body :: 'b

record ('t, 'v, 'b, 'w) client_deps =
  cd_to_bytes :: "string \<Rightarrow> u8 list option"
  cd_totp_new :: "mac_digest \<Rightarrow> nat \<Rightarrow> nat \<Rightarrow> u64 \<Rightarrow> u8 list \<Rightarrow> 't option"
  cd_generate :: "'t \<Rightarrow> 'w \<Rightarrow> string option \<times> 'w"
  cd_send :: "string \<Rightarrow> string \<Rightarrow> (string \<times> string) list \<Rightarrow> 'v json json_object option \<Rightarrow> 'w \<Rightarrow> 'b reply option \<times> 'w"
  cd_json_token :: "'b \<Rightarrow> client_token_response option"
  cd_json_revoked :: "'b \<Rightarrow> client_revoke_response option"

type_synonym ('w, 'a) client_result = "(client_error, 'a) outcome \<times> 'w"

section \<open>Requests\<close>

definition client_from_env :: "env \<Rightarrow> (client_error, client) outcome" where
  "client_from_env e =
     (case e ''AUTH_TOTP_SECRET'' of
        None \<Rightarrow> Panic
      | Some secret \<Rightarrow>
          Ok \<lparr>cl_base_url = env_or e ''JWT_SERVICE_URL'' ''http://localhost:8080'', cl_secret = secret\<rparr>)"

definition client_totp_code :: "('t, 'v, 'b, 'w) client_deps \<Rightarrow> client \<Rightarrow> 'w \<Rightarrow> ('w, string) client_result" where
  "client_totp_code C c w =
     (case cd_to_bytes C (cl_secret c) of
        None \<Rightarrow> (Err BadSecret, w)
      | Some bytes \<Rightarrow>
          (case cd_totp_new C MacSha1 6 1 30 bytes of
             None \<Rightarrow> (Err BadTotp, w)
           | Some totp \<Rightarrow>
               (case cd_generate C totp w of
                  (None, w1) \<Rightarrow> (Err NoTime, w1)
                | (Some code, w1) \<Rightarrow> (Ok code, w1))))"

definition client_request ::
  "('t, 'v, 'b, 'w) client_deps \<Rightarrow> client \<Rightarrow> string \<Rightarrow> string \<Rightarrow> 'v json json_object option \<Rightarrow> 'w
     \<Rightarrow> ('w, 'b reply) client_result" where
  "client_request C c meth path body =
     and_then (client_totp_code C c) (\<lambda>code w.
       case cd_send C meth (cl_base_url c @ path) [(''X-TOTP-Code'', code), (''Host'', ISSUER_HOST)] body w of
         (None, w1) \<Rightarrow> (Err NotSent, w1)
       | (Some r, w1) \<Rightarrow> (Ok r, w1))"

definition is_success :: "nat \<Rightarrow> bool" where
  "is_success status \<longleftrightarrow> 200 \<le> status \<and> status < 300"

text \<open>A status that is no success is an error of the client; a body is read only after that test.\<close>

definition successful :: "string \<Rightarrow> 'b reply \<Rightarrow> client_error + 'b" where
  "successful what r =
     (if \<not> is_success (rp_status r) then Inl (Refused what (rp_status r)) else Inr (rp_body r))"

definition read_json :: "('b \<Rightarrow> 'a option) \<Rightarrow> 'b \<Rightarrow> client_error + 'a" where
  "read_json parse b = (case parse b of None \<Rightarrow> Inl BadReply | Some x \<Rightarrow> Inr x)"

section \<open>The operations\<close>

definition client_issue_token ::
  "('t, 'v, 'b, 'w) client_deps \<Rightarrow> client \<Rightarrow> string \<Rightarrow> string list \<Rightarrow> bool \<Rightarrow> 'v json_object \<Rightarrow> 'w
     \<Rightarrow> ('w, client_token_response) client_result" where
  "client_issue_token C c sub aud with_refresh claims =
     and_then (client_request C c ''POST'' ''/tokens''
         (Some (issue_json \<lparr>iq_sub = sub, iq_aud = aud, iq_refresh = with_refresh, iq_claims = claims\<rparr>))) (\<lambda>r.
     and_then (pure_step (successful ''issue failed'' r)) (\<lambda>b.
       pure_step (read_json (cd_json_token C) b)))"

definition client_refresh_tokens ::
  "('t, 'v, 'b, 'w) client_deps \<Rightarrow> client \<Rightarrow> string \<Rightarrow> 'w \<Rightarrow> ('w, client_token_response) client_result" where
  "client_refresh_tokens C c refresh_token =
     and_then (client_request C c ''POST'' ''/tokens/refresh'' (Some (refresh_json refresh_token))) (\<lambda>r.
     and_then (pure_step (successful ''refresh failed'' r)) (\<lambda>b.
       pure_step (read_json (cd_json_token C) b)))"

definition client_revoke_token ::
  "('t, 'v, 'b, 'w) client_deps \<Rightarrow> client \<Rightarrow> string \<Rightarrow> 'w \<Rightarrow> ('w, unit) client_result" where
  "client_revoke_token C c jti =
     and_then (client_request C c ''DELETE'' (''/tokens/'' @ jti) None) (\<lambda>r.
     and_then (pure_step (successful ''revoke failed'' r)) (\<lambda>_ w. (Ok (), w)))"

definition client_revoke_subject ::
  "('t, 'v, 'b, 'w) client_deps \<Rightarrow> client \<Rightarrow> string \<Rightarrow> 'w \<Rightarrow> ('w, u64) client_result" where
  "client_revoke_subject C c sub =
     and_then (client_request C c ''DELETE'' (''/subjects/'' @ sub @ ''/tokens'') None) (\<lambda>r.
     and_then (pure_step (successful ''bulk revoke failed'' r)) (\<lambda>b.
     and_then (pure_step (read_json (cd_json_revoked C) b)) (\<lambda>body w. (Ok (ct_revoked body), w))))"

section \<open>The scenario\<close>

text \<open>\<open>&s[..n]\<close>: panics past the end and inside a character.\<close>

definition slice_to :: "nat \<Rightarrow> string \<Rightarrow> 'w \<Rightarrow> ('e, string) outcome \<times> 'w" where
  "slice_to n s w = (if n \<le> length s \<and> (n < length s \<longrightarrow> \<not> is_cont (s ! n)) then (Ok (take n s), w) else (Panic, w))"

definition expect :: "'a option \<Rightarrow> 'w \<Rightarrow> ('e, 'a) outcome \<times> 'w" where
  "expect x w = (case x of None \<Rightarrow> (Panic, w) | Some a \<Rightarrow> (Ok a, w))"

text \<open>\<open>admin\<close> is \<open>json!("admin")\<close>; the result holds the texts of the three printed lines.\<close>

definition client_main ::
  "('t, 'v, 'b, 'w) client_deps \<Rightarrow> 'v \<Rightarrow> env \<Rightarrow> 'w \<Rightarrow> ('w, string list) client_result" where
  "client_main C admin e =
     and_then (\<lambda>w. (client_from_env e, w)) (\<lambda>c.
     and_then (client_issue_token C c ''svc-a'' [''svc-b''] True [(''role'', admin)]) (\<lambda>issued.
     and_then (slice_to 32 (ct_token issued)) (\<lambda>first.
     and_then (expect (ct_refresh_token issued)) (\<lambda>refresh.
     and_then (client_refresh_tokens C c refresh) (\<lambda>refreshed.
     and_then (slice_to 32 (ct_token refreshed)) (\<lambda>second.
     and_then (client_revoke_subject C c ''svc-a'') (\<lambda>n w.
       (Ok [''issued: '' @ first @ ''...'', ''refreshed: '' @ second @ ''...'', ''revoked: '' @ show_dec (unat n)], w))))))))"

section \<open>What an answered operation got\<close>

lemma successful_Inr: "successful what r = Inr b \<longleftrightarrow> is_success (rp_status r) \<and> b = rp_body r"
  by (auto simp: successful_def)

lemma read_json_Inr: "read_json parse b = Inr x \<longleftrightarrow> parse b = Some x"
  by (simp add: read_json_def split: option.split)

text \<open>Each request carries a code made for it, from the reading of the clock at that moment.\<close>

lemma client_request_Ok:
  assumes "client_request C c meth path body w = (Ok r, w')"
  obtains bytes totp code w1 where "cd_to_bytes C (cl_secret c) = Some bytes"
    "cd_totp_new C MacSha1 6 1 30 bytes = Some totp" "cd_generate C totp w = (Some code, w1)"
    "cd_send C meth (cl_base_url c @ path) [(''X-TOTP-Code'', code), (''Host'', ISSUER_HOST)] body w1 = (Some r, w')"
  using assms
  by (auto simp: client_request_def and_then_Ok client_totp_code_def split: option.splits prod.splits)

lemmas client_ops_defs = client_issue_token_def client_refresh_tokens_def client_revoke_token_def
  client_revoke_subject_def

text \<open>An operation that returned a value had one request answered with a success.\<close>

lemma client_issue_token_Ok:
  assumes "client_issue_token C c sub aud rf claims w = (Ok t, w')"
  obtains r where "client_request C c ''POST'' ''/tokens''
      (Some (issue_json \<lparr>iq_sub = sub, iq_aud = aud, iq_refresh = rf, iq_claims = claims\<rparr>)) w = (Ok r, w')"
    "is_success (rp_status r)" "cd_json_token C (rp_body r) = Some t"
  using assms by (auto simp: client_issue_token_def step_Ok successful_Inr read_json_Inr)

lemma client_refresh_tokens_Ok:
  assumes "client_refresh_tokens C c i w = (Ok t, w')"
  obtains r where "client_request C c ''POST'' ''/tokens/refresh'' (Some (refresh_json i)) w = (Ok r, w')"
    "is_success (rp_status r)" "cd_json_token C (rp_body r) = Some t"
  using assms by (auto simp: client_refresh_tokens_def step_Ok successful_Inr read_json_Inr)

lemma client_revoke_token_Ok:
  assumes "client_revoke_token C c jti w = (Ok u, w')"
  obtains r where "client_request C c ''DELETE'' (''/tokens/'' @ jti) None w = (Ok r, w')" "is_success (rp_status r)"
  using assms by (auto simp: client_revoke_token_def step_Ok successful_Inr)

lemma client_revoke_subject_Ok:
  assumes "client_revoke_subject C c sub w = (Ok n, w')"
  obtains r x where "client_request C c ''DELETE'' (''/subjects/'' @ sub @ ''/tokens'') None w = (Ok r, w')"
    "is_success (rp_status r)" "cd_json_revoked C (rp_body r) = Some x" "ct_revoked x = n"
  using assms by (auto simp: client_revoke_subject_def step_Ok successful_Inr read_json_Inr)

end
