(* ===== verification/Client_Service.thy ===== *)
theory Client_Service
  imports Client Rfc4226 App_Answers Redis_Tasks
begin

text \<open>
  The shipped client against the service. The locale \<open>client_link\<close> states what lies between them: the
  network hands a request to the service or loses it, and may lose the answer; the two JSON libraries
  read what the other wrote; \<open>totp-rs\<close> computes the codes of RFC 6238; a request without an origin
  passes the CORS layer. Inside it a successful answer of the client is traced back to the handler that
  gave it.
\<close>

section \<open>What lies between\<close>

text \<open>
  Paths that URL parsing and path extraction leave alone: their segments hold the characters that RFC 3986
  lets a path have as they are, and none is a dot segment. A percent sign is not one of them: URL parsing
  keeps an escape that is in the name already, and path extraction decodes it. An empty segment is kept.
\<close>

definition path_char :: "char \<Rightarrow> bool" where
  "path_char c \<longleftrightarrow> is_ascii_alphanumeric c \<or> c \<in> set ''-._~!$&()*+,;=:@'' \<or> c = CHR 0x27"

definition path_segment :: "string \<Rightarrow> bool" where
  "path_segment s \<longleftrightarrow> s \<noteq> ''.'' \<and> s \<noteq> ''..'' \<and> list_all path_char s"

definition plain_segment :: "string \<Rightarrow> bool" where
  "plain_segment s \<longleftrightarrow> s \<noteq> [] \<and> path_segment s"

fun plain_path :: "string list \<Rightarrow> string" where
  "plain_path [] = []"
| "plain_path (s # ss) = ''/'' @ s @ plain_path ss"

definition plain_value :: "string \<Rightarrow> header_value" where
  "plain_value v = \<lparr>hv_bytes = v, hv_text = Some v\<rparr>"

text \<open>The request that arrives is the one that was sent, with no origin and no request identifier.\<close>

definition carries :: "string \<Rightarrow> string \<Rightarrow> (string \<times> string) list \<Rightarrow> string \<Rightarrow> request \<Rightarrow> bool" where
  "carries meth path hs body r \<longleftrightarrow>
     rq_method r = meth \<and> rq_path r = path \<and> rq_body r = body \<and>
     (\<forall>(n, v) \<in> set hs. header_get (rq_headers r) n = Some (plain_value v)) \<and>
     header_get (rq_headers r) ''Origin'' = None"

definition reply_of :: "'v response \<Rightarrow> 'v body reply" where
  "reply_of resp = \<lparr>rp_status = rs_status resp, rp_body = rs_body resp\<rparr>"

definition exchanged :: "('v, 'w) service \<Rightarrow> request \<Rightarrow> 'w \<Rightarrow> 'v body reply option \<times> 'w \<Rightarrow> bool" where
  "exchanged svc r a y \<longleftrightarrow>
     y = (None, a) \<or> y = (None, snd (svc r a)) \<or>
     (\<exists>resp a'. svc r a = (Ok resp, a') \<and> y = (Some (reply_of resp), a'))"

definition cors_passes :: "(cors_policy \<Rightarrow> ('v, 'w) service \<Rightarrow> ('v, 'w) service) \<Rightarrow> request \<Rightarrow> bool" where
  "cors_passes P r \<longleftrightarrow>
     (\<forall>p inner a. \<exists>f. P p inner r a = (case inner r a of (Ok resp, a') \<Rightarrow> (Ok (f resp), a') | (x, a') \<Rightarrow> (x, a')) \<and>
        (\<forall>resp. rs_status (f resp) = rs_status resp \<and> rs_body (f resp) = rs_body resp))"

locale client_link =
  fixes C :: "('t, 'v, 'v body, ('n, 's, 'l) app_world) client_deps"
    and A :: "('b, 'g, 'p, 'k, 'v, 'n, 's, 'l) app_deps"
    and svc :: "('v, ('n, 's, 'l) app_world) service"
    and base :: string
    and wire :: "'v json json_object option \<Rightarrow> string"
    and clk :: "('n, 's, 'l) app_world \<Rightarrow> u64"
  assumes network: "list_all path_segment ss \<Longrightarrow> hs = [(''X-TOTP-Code'', code), (''Host'', ISSUER_HOST)] \<Longrightarrow> \<exists>r. carries meth (plain_path ss) hs (wire body) r \<and>
          exchanged svc r a (cd_send C meth (base @ plain_path ss) hs body a)"
    and json_token: "rq_body r = wire (Some (issue_json q)) \<Longrightarrow> ap_json_token A r =
          Inr \<lparr>tr_sub = iq_sub q, tr_aud = iq_aud q, tr_ttl = None, tr_refresh = iq_refresh q, tr_claims = iq_claims q\<rparr>"
    and json_refresh: "rq_body r = wire (Some (refresh_json i)) \<Longrightarrow> ap_json_refresh A r = Inr \<lparr>rq_refresh_token = i\<rparr>"
    and path_param: "plain_segment s \<Longrightarrow> ap_path_param A [s] = Inr s"
    and reply_token: "cd_json_token C (TokenBody b) =
          Some \<lparr>ct_token = tk_token b, ct_refresh_token = tk_refresh_token b\<rparr>"
    and reply_revoked: "cd_json_revoked C (RevokedBody x) = Some \<lparr>ct_revoked = rg_revoked x\<rparr>"
    and cors: "header_get (rq_headers r) ''Origin'' = None \<Longrightarrow> cors_passes (ap_cors A) r"
    and codes: "cd_totp_new C d n k step secret = Some t \<Longrightarrow> cd_generate C t a =
          (rfc_totp (ap_hmac A) secret (unat (clk a)) (unat step) n d, a)"

section \<open>A success of an internal endpoint\<close>

lemma cors_passes_Ok:
  assumes "cors_passes P r" and "P p inner r a = (Ok resp, a')"
  obtains res where "inner r a = (Ok res, a')" "rs_status res = rs_status resp" "rs_body res = rs_body resp"
proof -
  obtain f where "P p inner r a = (case inner r a of (Ok resp, a') \<Rightarrow> (Ok (f resp), a') | (x, a') \<Rightarrow> (x, a'))"
    and f: "\<forall>resp. rs_status (f resp) = rs_status resp \<and> rs_body (f resp) = rs_body resp"
    using assms(1) [unfolded cors_passes_def, THEN spec, of p, THEN spec, of inner, THEN spec, of a] by blast
  then obtain res where "inner r a = (Ok res, a')" "resp = f res"
    using assms(2) by (auto split: prod.splits outcome.splits)
  then show ?thesis using f that by simp
qed

lemma auth_success:
  assumes "auth_call H store c Totp inner r a = (Ok resp, a')" and "is_success (rs_status resp)"
  obtains w where "auth_decide H store c Totp (rq_headers r) (aw_world a) = (Ok True, w)"
    "inner r (a\<lparr>aw_world := w\<rparr>) = (Ok resp, a')"
  using assms
  by (auto simp: auth_call_def unauthorized_response_def is_success_def split: prod.splits outcome.splits bool.splits)

lemma limit_success:
  assumes "rate_limit_call G st inner r a = (Ok resp, a')" and "is_success (rs_status resp)"
  obtains g where "inner r (a\<lparr>aw_limits := g\<rparr>) = (Ok resp, a')"
  using assms
  by (auto simp: rate_limit_call_def too_many_requests_def is_success_def split: prod.splits sum.splits)

lemma app_error_not_success: "\<not> is_success (rs_status (app_error_response e :: 'v response))"
  by (cases e) (simp_all add: is_success_def)

text \<open>The world the layers below the request log see, and the one it leaves behind.\<close>

definition same_world :: "('n, 's) world \<Rightarrow> ('n, 's) world \<Rightarrow> bool" where
  "same_world w w' \<longleftrightarrow> w_store w' = w_store w \<and> w_uuid w' = w_uuid w \<and> w_utc w' = w_utc w \<and>
     w_utc_tick w' = w_utc_tick w \<and> w_keys w' = w_keys w"

lemma log_success:
  assumes "request_log_call pattern inner r a = (Ok resp, a')"
  obtains a1 a2 res where "same_world (aw_world a) (aw_world a1)" "inner r a1 = (Ok res, a2)"
    "rs_status res = rs_status resp" "rs_body res = rs_body resp" "same_world (aw_world a2) (aw_world a')"
proof -
  let ?a1 = "case incoming_request_id (rq_headers r) of Some s \<Rightarrow> a | None \<Rightarrow> a\<lparr>aw_world := uuid_tick (aw_world a)\<rparr>"
  have "same_world (aw_world a) (aw_world ?a1)"
    by (simp add: same_world_def uuid_tick_def split: option.splits)
  moreover obtain i res a2 where "inner r ?a1 = (Ok res, a2)" "resp = echo_request_id i res"
    "same_world (aw_world a2) (aw_world a')"
    using assms
    by (cases "incoming_request_id (rq_headers r)")
      (auto simp: request_log_call_def Let_def same_world_def record_metric_def split: prod.splits outcome.splits)
  moreover from this have "rs_status res = rs_status resp" "rs_body res = rs_body resp"
    by (simp_all add: echo_request_id_def insert_header_def split: option.splits)
  ultimately show ?thesis using that by blast
qed

lemma internal_success:
  assumes "app_service pattern A api r a = (Ok resp, a')" and "is_success (rs_status resp)"
    and "find_resource (api_resources api) (rq_path r) = Some (re, caps)"
    and "re_layers re = [RateLayer st, AuthLayer Totp, CorsLayer p]" and "cors_passes (ap_cors A) r"
  obtains w0 w1 g a2 res where "same_world (aw_world a) w0" "decided A Totp r w0 = (Ok True, w1)"
    "resource_routes A re caps r \<lparr>aw_world = w1, aw_limits = g\<rparr> = (Ok res, a2)"
    "rs_status res = rs_status resp" "rs_body res = rs_body resp" "same_world (aw_world a2) (aw_world a')"
proof -
  let ?limited = "rate_limit_call (ap_governor A) st (resource_routes A re caps)"
  let ?authorised = "auth_call (ap_hmac A) (Some (dp_store (ap_deps A))) (ap_auth A) Totp ?limited"
  obtain a1 a2 res where a1: "same_world (aw_world a) (aw_world a1)" "dispatch A api r a1 = (Ok res, a2)"
    and res: "rs_status res = rs_status resp" "rs_body res = rs_body resp" "same_world (aw_world a2) (aw_world a')"
    using log_success [OF assms(1) [unfolded app_service_def]] by metis
  have "ap_cors A p ?authorised r a1 = (Ok res, a2)"
    using a1(2) assms(3,4) by (simp add: dispatch_def)
  then obtain res1 where r1: "?authorised r a1 = (Ok res1, a2)" "rs_status res1 = rs_status res" "rs_body res1 = rs_body res"
    by (rule cors_passes_Ok [OF assms(5)])
  have s: "is_success (rs_status res1)" using assms(2) res r1 by simp
  obtain w where w: "decided A Totp r (aw_world a1) = (Ok True, w)" "?limited r (a1\<lparr>aw_world := w\<rparr>) = (Ok res1, a2)"
    by (rule auth_success [OF r1(1) s])
  obtain g where "resource_routes A re caps r (a1\<lparr>aw_world := w, aw_limits := g\<rparr>) = (Ok res1, a2)"
    by (rule limit_success [OF w(2) s])
  then have "resource_routes A re caps r \<lparr>aw_world = w, aw_limits = g\<rparr> = (Ok res1, a2)" by (cases a1) simp
  then show ?thesis using that [OF a1(1) w(1)] res r1 by simp
qed

section \<open>The client's paths\<close>

lemma path_segment_slash: "path_segment s \<Longrightarrow> CHR ''/'' \<notin> set s"
  by (auto simp: path_segment_def path_char_def list_all_iff is_ascii_alphanumeric_def byte_of_def)

lemma plain_path_segment [simp]: "plain_segment s \<Longrightarrow> path_segment s"
  by (simp add: plain_segment_def)

lemma plain_segment_not_Nil: "plain_segment s \<Longrightarrow> s \<noteq> []"
  by (simp add: plain_segment_def)

lemma split_plain_path: "list_all path_segment ss \<Longrightarrow> split_on (CHR ''/'') (plain_path ss) = [] # ss"
proof (induction ss)
  case (Cons s ss)
  have "split_on (CHR ''/'') (s @ plain_path ss) = s # ss"
  proof (cases ss)
    case Nil
    then show ?thesis using Cons.prems path_segment_slash by (simp add: split_on_no_sep)
  next
    case (Cons s' ss')
    then have p: "plain_path ss = CHR ''/'' # s' @ plain_path ss'" by simp
    have "split_on (CHR ''/'') (plain_path ss) = [] # ss" using Cons.IH Cons.prems by simp
    then have "split_on (CHR ''/'') (s' @ plain_path ss') = ss" unfolding p by simp
    then show ?thesis using Cons.prems path_segment_slash unfolding p by (simp add: split_on_append)
  qed
  then show ?case by simp
qed simp

text \<open>The resource a path of the client leads to: one with this route behind the one-time code.\<close>

definition leads_to :: "api \<Rightarrow> string list \<Rightarrow> string \<Rightarrow> endpoint \<Rightarrow> string list \<Rightarrow> bool" where
  "leads_to api ss meth ep caps \<longleftrightarrow>
     (\<exists>re st p. find_resource (api_resources api) (plain_path ss) = Some (re, caps) \<and>
        re_routes re = [(meth, ep)] \<and> re_layers re = [RateLayer st, AuthLayer Totp, CorsLayer p])"

lemma tokens_segments [simp]: "plain_segment ''tokens''" "plain_segment ''refresh''" "plain_segment ''subjects''"
  by (simp_all add: plain_segment_def path_segment_def path_char_def is_ascii_alphanumeric_def byte_of_def)

lemmas client_route = leads_to_def configure_api_def Let_def match_path_def segments_table split_plain_path

declare plain_path.simps [simp del]

lemma route_create: "leads_to (configure_api auth vl il origins) [''tokens''] ''POST'' CreateToken []"
  by (auto simp: client_route)

lemma route_refresh: "leads_to (configure_api auth vl il origins) [''tokens'', ''refresh''] ''POST'' RefreshToken []"
  by (auto simp: client_route)

lemma route_revoke:
  "plain_segment jti \<Longrightarrow> jti \<notin> {''verify'', ''refresh''} \<Longrightarrow>
     leads_to (configure_api auth vl il origins) [''tokens'', jti] ''DELETE'' RevokeToken [jti]"
  by (auto simp: client_route plain_segment_not_Nil)

lemma route_subject:
  "plain_segment sub \<Longrightarrow>
     leads_to (configure_api auth vl il origins) [''subjects'', sub, ''tokens''] ''DELETE'' RevokeSubject [sub]"
  by (auto simp: client_route plain_segment_not_Nil)

section \<open>What a success of the client was\<close>

text \<open>
  The service let the client's request \<open>rq\<close> in, with the code the client made for it, and went on in
  the world \<open>w1\<close>.
\<close>

definition admitted ::
  "('t, 'v, 'v body, ('n, 's, 'l) app_world) client_deps \<Rightarrow> ('b, 'g, 'p, 'k, 'v, 'n, 's, 'l) app_deps
     \<Rightarrow> (('n, 's, 'l) app_world \<Rightarrow> u64) \<Rightarrow> client \<Rightarrow> ('n, 's, 'l) app_world \<Rightarrow> request \<Rightarrow> ('n, 's) world \<Rightarrow> bool" where
  "admitted C A clk c a rq w1 \<longleftrightarrow>
     (\<exists>bytes code w0. cd_to_bytes C (cl_secret c) = Some bytes \<and>
        rfc_totp (ap_hmac A) bytes (unat (clk a)) 30 6 MacSha1 = Some code \<and>
        header_get (rq_headers rq) ''X-TOTP-Code'' = Some (plain_value code) \<and>
        same_world (aw_world a) w0 \<and> decided A Totp rq w0 = (Ok True, w1))"

context client_link
begin

lemma request_answered:
  assumes "client_request C c meth (plain_path ss) body a = (Ok r, a1)" and "cl_base_url c = base"
    and "list_all path_segment ss"
  obtains rq bytes code resp where "cd_to_bytes C (cl_secret c) = Some bytes"
    "rfc_totp (ap_hmac A) bytes (unat (clk a)) 30 6 MacSha1 = Some code"
    "carries meth (plain_path ss) [(''X-TOTP-Code'', code), (''Host'', ISSUER_HOST)] (wire body) rq"
    "svc rq a = (Ok resp, a1)" "r = reply_of resp"
proof -
  obtain bytes totp code w1 where b: "cd_to_bytes C (cl_secret c) = Some bytes"
    and t: "cd_totp_new C MacSha1 6 1 30 bytes = Some totp" and g: "cd_generate C totp a = (Some code, w1)"
    and s: "cd_send C meth (base @ plain_path ss) [(''X-TOTP-Code'', code), (''Host'', ISSUER_HOST)] body w1 = (Some r, a1)"
    using client_request_Ok [OF assms(1)] assms(2) by metis
  have h: "rfc_totp (ap_hmac A) bytes (unat (clk a)) 30 6 MacSha1 = Some code" "w1 = a"
    using codes [OF t, of a] g by auto
  obtain rq where "carries meth (plain_path ss) [(''X-TOTP-Code'', code), (''Host'', ISSUER_HOST)] (wire body) rq"
    "exchanged svc rq a (Some r, a1)"
    using network [OF assms(3) refl] s h(2) by metis
  then show ?thesis using that [OF b h(1)] by (auto simp: exchanged_def)
qed

lemma request_error:
  assumes "client_request C c meth (plain_path ss) body a = (y, a1)" and "cl_base_url c = base"
    and "list_all path_segment ss"
  shows "(\<exists>r. y = Ok r) \<or>
     (y = Err BadSecret \<or> y = Err BadTotp \<or> y = Err NoTime \<or> y = Err NotSent) \<and>
     (a1 = a \<or> (\<exists>rq hs. carries meth (plain_path ss) hs (wire body) rq \<and> a1 = snd (svc rq a)))"
proof -
  have g: "cd_generate C totp a = (x, a2) \<Longrightarrow> a2 = a" if "cd_totp_new C d m k n bytes = Some totp" for d m k n bytes totp x a2
    using codes [OF that, of a] by simp
  have n: "a2 = a \<or> (\<exists>rq. carries meth (plain_path ss) hs (wire body) rq \<and> a2 = snd (svc rq a))"
    if "hs = [(''X-TOTP-Code'', code), (''Host'', ISSUER_HOST)]"
      "cd_send C meth (base @ plain_path ss) hs body a = (None, a2)" for hs a2 code
    using network [OF assms(3) that(1), of meth body a] that(2) by (auto simp: exchanged_def)
  show ?thesis
    using assms(1) unfolding client_request_def client_totp_code_def and_then_def assms(2)
    by (auto split: option.splits prod.splits dest!: g n [OF refl]) blast?
qed

lemma endpoint_answered:
  assumes "client_request C c meth (plain_path ss) body a = (Ok r, a1)" and "cl_base_url c = base"
    and "list_all path_segment ss" and "is_success (rp_status r)"
    and "svc = app_service pattern A api" and "leads_to api ss meth ep caps"
  obtains rq w1 g a2 res where "admitted C A clk c a rq w1" "rq_body rq = wire body"
    "header_get (rq_headers rq) ''Host'' = Some (plain_value ISSUER_HOST)"
    "run_endpoint A ep caps rq \<lparr>aw_world = w1, aw_limits = g\<rparr> = (Ok res, a2)"
    "rs_status res = rp_status r" "rs_body res = rp_body r" "same_world (aw_world a2) (aw_world a1)"
proof -
  obtain rq bytes code resp where b: "cd_to_bytes C (cl_secret c) = Some bytes"
    "rfc_totp (ap_hmac A) bytes (unat (clk a)) 30 6 MacSha1 = Some code"
    and ca: "carries meth (plain_path ss) [(''X-TOTP-Code'', code), (''Host'', ISSUER_HOST)] (wire body) rq"
    and sv: "svc rq a = (Ok resp, a1)" and r: "r = reply_of resp"
    by (rule request_answered [OF assms(1-3)])
  obtain re st p where re: "find_resource (api_resources api) (plain_path ss) = Some (re, caps)"
    "re_routes re = [(meth, ep)]" "re_layers re = [RateLayer st, AuthLayer Totp, CorsLayer p]"
    using assms(6) unfolding leads_to_def by blast
  have rq: "rq_method rq = meth" "rq_path rq = plain_path ss" "rq_body rq = wire body"
    "header_get (rq_headers rq) ''X-TOTP-Code'' = Some (plain_value code)"
    "header_get (rq_headers rq) ''Host'' = Some (plain_value ISSUER_HOST)"
    using ca by (simp_all add: carries_def)
  have "cors_passes (ap_cors A) rq" using ca cors by (simp add: carries_def)
  moreover have "app_service pattern A api rq a = (Ok resp, a1)" using sv assms(5) by simp
  moreover have "is_success (rs_status resp)" using assms(4) r by (simp add: reply_of_def)
  moreover have "find_resource (api_resources api) (rq_path rq) = Some (re, caps)" using re(1) rq(2) by simp
  ultimately obtain w0 w1 g a2 res where w: "same_world (aw_world a) w0" "decided A Totp rq w0 = (Ok True, w1)"
    "resource_routes A re caps rq \<lparr>aw_world = w1, aw_limits = g\<rparr> = (Ok res, a2)"
    "rs_status res = rs_status resp" "rs_body res = rs_body resp" "same_world (aw_world a2) (aw_world a1)"
    using internal_success re(3) by (elim internal_success [OF _ _ _ re(3)])
  have "admitted C A clk c a rq w1" unfolding admitted_def using b rq(4) w(1,2) by blast
  moreover have "run_endpoint A ep caps rq \<lparr>aw_world = w1, aw_limits = g\<rparr> = (Ok res, a2)"
    using w(3) re(2) rq(1) by (simp add: resource_routes_def)
  ultimately show ?thesis using that rq(3,5) w r by (simp add: reply_of_def)
qed

lemma revoke_answered:
  assumes "client_revoke_token C c jti a = (Ok u, a1)" and "cl_base_url c = base"
    and "svc = app_service pattern A (configure_api auth vl il origins)"
    and "plain_segment jti" and "jti \<notin> {''verify'', ''refresh''}"
  obtains rq w1 where "admitted C A clk c a rq w1"
    "js_delete_jti (dp_store (ap_deps A)) jti (w_store w1) = (Inr (), w_store (aw_world a1))"
proof -
  obtain r where "client_request C c ''DELETE'' (''/tokens/'' @ jti) None a = (Ok r, a1)"
    and ok: "is_success (rp_status r)" by (rule client_revoke_token_Ok [OF assms(1)])
  then have rq: "client_request C c ''DELETE'' (plain_path [''tokens'', jti]) None a = (Ok r, a1)"
    by (simp add: plain_path.simps)
  have "list_all path_segment [''tokens'', jti]" using assms(4) by simp
  then obtain rq w1 g a2 res where ad: "admitted C A clk c a rq w1"
    and h: "run_endpoint A RevokeToken [jti] rq \<lparr>aw_world = w1, aw_limits = g\<rparr> = (Ok res, a2)"
    and st: "rs_status res = rp_status r" and same: "same_world (aw_world a2) (aw_world a1)"
    by (rule endpoint_answered [OF rq assms(2) _ ok assms(3) route_revoke [OF assms(4,5)]])
  have "js_delete_jti (dp_store (ap_deps A)) jti (w_store w1) = (Inr (), w_store (aw_world a2))"
    using h ok [folded st] path_param [OF assms(4)]
    by (auto simp: extracted_def handle_def revoke_token_def into_response_def is_success_def
        split: prod.splits sum.splits)
  then show ?thesis using that [OF ad] same by (simp add: same_world_def)
qed


lemma subject_answered:
  assumes "client_revoke_subject C c sub a = (Ok n, a1)" and "cl_base_url c = base"
    and "svc = app_service pattern A (configure_api auth vl il origins)" and "plain_segment sub"
  obtains rq w1 where "admitted C A clk c a rq w1"
    "js_revoke_group (dp_store (ap_deps A)) (subject_group sub) (w_store w1) = (Inr n, w_store (aw_world a1))"
proof -
  obtain r x where r: "client_request C c ''DELETE'' (''/subjects/'' @ sub @ ''/tokens'') None a = (Ok r, a1)"
    and ok: "is_success (rp_status r)" and x: "cd_json_revoked C (rp_body r) = Some x" "ct_revoked x = n"
    by (rule client_revoke_subject_Ok [OF assms(1)])
  then have rq: "client_request C c ''DELETE'' (plain_path [''subjects'', sub, ''tokens'']) None a = (Ok r, a1)"
    by (simp add: plain_path.simps)
  have "list_all path_segment [''subjects'', sub, ''tokens'']" using assms(4) by simp
  then obtain rq w1 g a2 res where ad: "admitted C A clk c a rq w1"
    and h: "run_endpoint A RevokeSubject [sub] rq \<lparr>aw_world = w1, aw_limits = g\<rparr> = (Ok res, a2)"
    and st: "rs_status res = rp_status r" "rs_body res = rp_body r"
    and same: "same_world (aw_world a2) (aw_world a1)"
    by (rule endpoint_answered [OF rq assms(2) _ ok assms(3) route_subject [OF assms(4)]])
  have w: "w_store (record_revoked k w) = w_store w" for k and w :: "('n, 's) world"
    by (induction k arbitrary: w) simp_all
  obtain m where m: "js_revoke_group (dp_store (ap_deps A)) (subject_group sub) (w_store w1) = (Inr m, w_store (aw_world a2))"
    "res = respond 200 (RevokedBody \<lparr>rg_revoked = m\<rparr>)"
    using h ok [folded st(1)] path_param [OF assms(4)]
    by (auto simp: extracted_def handle_def revoke_subject_tokens_def into_response_def is_success_def w
        split: prod.splits sum.splits)
  then have "m = n" using x st(2) [symmetric] reply_revoked by auto
  then show ?thesis using that [OF ad] m(1) same by (simp add: same_world_def)
qed

lemma issue_answered:
  assumes "client_issue_token C c sub aud rf claims a = (Ok t, a1)" and "cl_base_url c = base"
    and "svc = app_service pattern A (configure_api auth vl il origins)"
  obtains rq w1 w2 where "admitted C A clk c a rq w1" "host_header (rq_headers rq) = Inr ISSUER_HOST"
    "create_token (ap_deps A) \<lparr>tr_sub = sub, tr_aud = aud, tr_ttl = None, tr_refresh = rf, tr_claims = claims\<rparr>
       (rq_headers rq) w1 = (Ok (token_ok (ct_token t) (ct_refresh_token t)), w2)"
    "same_world w2 (aw_world a1)"
proof -
  let ?q = "\<lparr>iq_sub = sub, iq_aud = aud, iq_refresh = rf, iq_claims = claims\<rparr>"
  obtain r where "client_request C c ''POST'' ''/tokens'' (Some (issue_json ?q)) a = (Ok r, a1)"
    and ok: "is_success (rp_status r)" and t: "cd_json_token C (rp_body r) = Some t"
    by (rule client_issue_token_Ok [OF assms(1)])
  then have rq: "client_request C c ''POST'' (plain_path [''tokens'']) (Some (issue_json ?q)) a = (Ok r, a1)"
    by (simp add: plain_path.simps)
  have "list_all path_segment [''tokens'']" by simp
  then obtain rq w1 g a2 res where ad: "admitted C A clk c a rq w1"
    and b: "rq_body rq = wire (Some (issue_json ?q))"
    and ho: "header_get (rq_headers rq) ''Host'' = Some (plain_value ISSUER_HOST)"
    and h: "run_endpoint A CreateToken [] rq \<lparr>aw_world = w1, aw_limits = g\<rparr> = (Ok res, a2)"
    and st: "rs_status res = rp_status r" "rs_body res = rp_body r"
    and same: "same_world (aw_world a2) (aw_world a1)"
    by (rule endpoint_answered [OF rq assms(2) _ ok assms(3) route_create])
  let ?req = "\<lparr>tr_sub = sub, tr_aud = aud, tr_ttl = None, tr_refresh = rf, tr_claims = claims\<rparr>"
  have "handle (create_token (ap_deps A) ?req (rq_headers rq)) \<lparr>aw_world = w1, aw_limits = g\<rparr> = (Ok res, a2)"
    using h json_token [OF b] by (simp add: extracted_def)
  then have c: "create_token (ap_deps A) ?req (rq_headers rq) w1 = (Ok res, aw_world a2)"
    using ok [folded st(1)]
    by (auto simp: handle_def into_response_def app_error_not_success split: prod.splits outcome.splits)
  obtain token refresh where "res = token_ok token refresh"
    using c by (auto simp: create_token_def split: sum.splits prod.splits outcome.splits)
  moreover from this have "t = \<lparr>ct_token = token, ct_refresh_token = refresh\<rparr>"
    using t st(2) [symmetric] by (simp add: token_ok_def reply_token)
  moreover have "host_header (rq_headers rq) = Inr ISSUER_HOST"
    using ho by (simp add: host_header_def plain_value_def)
  ultimately show ?thesis using that [OF ad] c same by simp
qed

end

section \<open>The client's codes\<close>

lemma configured_totp:
  assumes "auth_config_from_env e = Inr auth"
    and "\<forall>v \<in> {''AUTH_TOTP_HEADER'', ''AUTH_TOTP_STEP_SECONDS'', ''AUTH_TOTP_DIGITS'', ''AUTH_TOTP_SKEW_STEPS'',
       ''AUTH_TOTP_ALGORITHM'', ''AUTH_TOTP_REPLAY_PROTECTION''}. e v = None"
    and "e ''AUTH_TOTP_SECRET'' = Some secret" and "trim secret \<noteq> []" and "base32_decode secret = Some bytes"
  shows "bytes \<in> set (tv_secrets (ac_totp auth)) \<and> tv_header (ac_totp auth) = ''X-TOTP-Code'' \<and>
     tv_step (ac_totp auth) = 30 \<and> tv_digits (ac_totp auth) = 6 \<and> tv_skew (ac_totp auth) = 1 \<and>
     tv_digest (ac_totp auth) = MacSha1 \<and> \<not> ac_replay auth"
proof -
  have none: "auth_errors e = []" using assms(1) by (simp add: auth_config_from_env_def split: if_splits)
  then have "bytes \<noteq> []"
    using assms(3-5) by (auto simp: auth_errors_def totp_secret_from_def Let_def split: prod.splits if_splits)
  then have "fst (totp_secret_from e ''AUTH_TOTP_SECRET'') = [bytes]"
    using assms(3-5) by (simp add: totp_secret_from_def)
  moreover have "digest_by_name ''SHA1'' = MacSha1"
    by (simp add: digest_by_name_def trim_def is_whitespace_def whitespace_code_def to_ascii_uppercase_def
        ascii_upper_def byte_of_def is_cont_def)
  ultimately show ?thesis
    using assms(1,2) none by (auto simp: auth_config_from_env_def env_or_def auth_env_u64_def)
qed

text \<open>
  C23. The client and the service agree on the codes: with the service's variables for codes unset, the
  secret of both the same and their clocks in the same step of 30 seconds or in neighbouring ones, the
  code the client computes passes the level of the internal endpoints.
\<close>

theorem client_code_accepted:
  assumes L: "client_link C A svc base wire clk" and H: "tag_bytes (ap_hmac A)"
    and e: "auth_config_from_env e = Inr (ap_auth A)"
      "\<forall>v \<in> {''AUTH_TOTP_HEADER'', ''AUTH_TOTP_STEP_SECONDS'', ''AUTH_TOTP_DIGITS'', ''AUTH_TOTP_SKEW_STEPS'',
         ''AUTH_TOTP_ALGORITHM'', ''AUTH_TOTP_REPLAY_PROTECTION''}. e v = None"
      "e ''AUTH_TOTP_SECRET'' = Some (cl_secret c)" "trim (cl_secret c) \<noteq> []"
    and secret: "base32_decode (cl_secret c) = Some bytes" "cd_to_bytes C (cl_secret c) = Some bytes"
    and code: "client_totp_code C c a = (Ok code, a1)"
    and sent: "header_get (rq_headers rq) ''X-TOTP-Code'' = Some (plain_value code)"
    and now: "now = (of_int (max 0 (utc_now w)) :: u64)" "\<bar>int (unat (clk a)) div 30 - int (unat now) div 30\<bar> \<le> 1"
  shows "decided A Totp rq w = (Ok True, utc_tick w)"
proof -
  note v = configured_totp [OF e(1,2,3,4) secret(1)]
  obtain totp where t: "cd_totp_new C MacSha1 6 1 30 bytes = Some totp" "cd_generate C totp a = (Some code, a1)"
    using code secret(2) by (auto simp: client_totp_code_def split: option.splits prod.splits)
  have "rfc_totp (ap_hmac A) bytes (unat (clk a)) 30 6 MacSha1 = Some code"
    using client_link.codes [OF L t(1), of a] t(2) by simp
  then have h: "hotp (ap_hmac A) bytes (clk a div 30) 6 MacSha1 = Ok code"
    by (simp add: hotp_rfc [OF H] rfc_totp_def unat_div)
  have "unat (clk a div 30) \<in> window (ac_totp (ap_auth A)) now"
  proof -
    have d: "unat (x div 30) = unat x div 30" for x :: u64 by (simp add: unat_div)
    have k: "\<bar>int (unat (clk a) div 30) - int (unat now div 30)\<bar> \<le> 1"
      using now(2) by (simp only: zdiv_int of_nat_numeral)
    have "unat now div 30 - Suc 0 \<le> unat (clk a) div 30" "unat (clk a) div 30 \<le> Suc (unat now div 30)"
      using k by linarith+
    then show ?thesis using v by (simp add: window_def d)
  qed
  then have "totp_validate (ap_hmac A) (ac_totp (ap_auth A)) (rq_headers rq) now = Ok True"
    using totp_validate_eq [OF H, of "ac_totp (ap_auth A)" "rq_headers rq" now] v h sent by (auto simp: plain_value_def)
  then show ?thesis
    using v now(1) by (simp add: auth_decide_def authorize_def replay_check_def)
qed

section \<open>Revocation through the client\<close>

text \<open>Getting in costs the store at most the claim of the code.\<close>

lemma auth_decide_path:
  assumes "auth_decide H (Some S) c level hs w = (Ok True, w1)"
  shows "\<exists>xs. w_store w1 = run_ops S xs (w_store w) \<and> (\<forall>x \<in> set xs. \<exists>h ttl. x = OpClaim h ttl) \<and> w_uuid w1 = w_uuid w"
proof -
  obtain v where v: "authorize H c level hs w = (Ok True, v)" "replay_check H (Some S) c level hs v = (True, w1)"
    using assms unfolding auth_decide_Ok_True by blast
  have s: "w_store v = w_store w" "w_uuid v = w_uuid w"
    using v(1) by (cases level; auto simp: authorize_def utc_tick_def)+
  show ?thesis
  proof (cases "w_store w1 = w_store v \<and> w_uuid w1 = w_uuid v")
    case True
    then show ?thesis using s by (intro exI [of _ "[]"]) simp
  next
    case False
    then obtain h ttl where "w_store w1 = run_op S (OpClaim h ttl) (w_store v)" "w_uuid w1 = w_uuid v"
      using v(2) by (auto simp: replay_check_def split: if_splits option.splits prod.splits sum.splits)
        (metis snd_conv)+
    then show ?thesis using s by (intro exI [of _ "[OpClaim h ttl]"]) simp
  qed
qed

lemma admitted_path:
  assumes "admitted C A clk c a rq w1" and "dp_store (ap_deps A) = S"
  obtains xs where "w_store w1 = run_ops S xs (w_store (aw_world a))" "\<forall>x \<in> set xs. \<exists>h ttl. x = OpClaim h ttl"
    "w_uuid w1 = w_uuid (aw_world a)"
  using assms auth_decide_path unfolding admitted_def same_world_def by metis

text \<open>Claims leave the groups as they are.\<close>

context jti_tasks
begin

lemma claims_keep_groups:
  assumes "wf s" and "late e s" and "\<forall>x \<in> set xs. \<exists>h ttl. x = OpClaim h ttl"
  shows "wf (run_ops S xs s) \<and> late e (run_ops S xs s) \<and>
     (\<forall>t g. clock (run_ops S xs s) \<le> t \<and> (\<forall>h. g \<noteq> totp_code_key h) \<longrightarrow> grp (run_ops S xs s) t g = grp s t g)"
proof -
  define J where "J s' \<longleftrightarrow> wf s' \<and> late e s' \<and>
     (\<forall>t g. clock s' \<le> t \<and> (\<forall>h. g \<noteq> totp_code_key h) \<longrightarrow> grp s' t g = grp s t g)" for s'
  have step: "J s2" if "J s1" "act (OpClaim h ttl) s1 s2" for s1 s2 h ttl
  proof -
    have w: "wf s1" using that(1) by (simp add: J_def)
    have "grp s2 t g = grp s1 t g" if "clock s2 \<le> t" "\<forall>h. g \<noteq> totp_code_key h" for t g
      using act_group [OF w \<open>act (OpClaim h ttl) s1 s2\<close>, of g t] that by simp
    then show ?thesis
      using that act_wf [OF w that(2)] act_late [OF that(2)] act_clock [OF w that(2)] by (auto simp: J_def)
  qed
  have "J s'' \<Longrightarrow> J (run_ops S xs s'')" for s''
    using assms(3)
  proof (induction xs arbitrary: s'')
    case (Cons x xs)
    obtain h ttl where x: "x = OpClaim h ttl" using Cons.prems(2) by auto
    have "only (act x) (st_claim_totp_code T h ttl)" using acts [of x] x by simp
    then have "J (snd (run (st_claim_totp_code T h ttl) s''))"
      by (rule within_run [rotated]) (use step x Cons.prems(1) in blast)+
    moreover have "run_op S x s'' = snd (run (st_claim_totp_code T h ttl) s'')"
      using x by (simp flip: sequential)
    ultimately show ?case using Cons by simp
  qed simp
  moreover have "J s" using assms(1,2) by (simp add: J_def)
  ultimately show ?thesis by (simp add: J_def)
qed

end

lemma rs_late_wall: "rs_late e c \<Longrightarrow> rs_wall c < e"
  by (simp add: rs_late_def rs_wall_def)

text \<open>
  C10. A revocation the client was told of is final: when the client's \<open>revoke_token\<close> returns, over any
  network that may lose requests and answers, no verification by the service is answered with 200 for
  a token of that identifier any more, whatever else happens to the store short of storing it again.
\<close>

theorem client_revocation_final:
  assumes L: "client_link C A (app_service pattern A (configure_api auth vl il origins)) base wire clk"
    and R: "redis_server R look" "dp_store (ap_deps A) = redis_jti_store R" "mono (rc_time (w_store (aw_world a)))"
    and c: "cl_base_url c = base" "plain_segment jti" "jti \<notin> {''verify'', ''refresh''}"
    and revoked: "client_revoke_token C c jti a = (Ok (), a1)"
    and x: "\<forall>x \<in> set xs. jti \<notin> op_writes x" "w_store w2 = run_ops (redis_jti_store R) xs (w_store (aw_world a1))"
    and v: "verify_token_handler (ap_deps A) req hs w2 = (Ok resp, w3)"
  shows "\<exists>claims. resp = respond 200 (ClaimsBody claims) \<and> tc_jti claims \<noteq> jti"
proof -
  note con = redis_server.refines_contract [OF R(1)]
  obtain rq w1 where ad: "admitted C A clk c a rq w1"
    and d: "js_delete_jti (dp_store (ap_deps A)) jti (w_store w1) = (Inr (), w_store (aw_world a1))"
    by (rule client_link.revoke_answered [OF L revoked c(1) refl c(2,3)])
  obtain ys where "w_store w1 = run_ops (redis_jti_store R) ys (w_store (aw_world a))"
    by (rule admitted_path [OF ad R(2)])
  then have wf: "rs_wf (w_store w1)"
    using jti_store.wf_run [OF con, of "w_store (aw_world a)" ys] R(3) by (simp add: rs_wf_def)
  obtain host jwt w4 where t: "token_from_string (ap_deps A) (tv_token req) host (tv_audience req) w2 = (Ok jwt, w4)"
    and r: "resp = respond 200 (ClaimsBody (jt_claims jwt))"
    using verify_handler_200 [OF v] by metis
  have "tc_jti (jt_claims jwt) \<noteq> jti"
    by (rule jti_store.revoked_not_accepted [OF con R(2) wf _ x t]) (use d R(2) in simp)
  then show ?thesis using r by blast
qed

text \<open>
  C11. So is a revocation of a subject whose name goes into a path as it is (one segment of the characters
  a path may have, no dot segment, no percent sign: an escape in the name would be decoded on the way, and
  the answer would be about another subject): when the client's \<open>revoke_subject\<close> returns, no verification
  is answered with 200 for a token that was in the subject's index when the call began, with an expiry the
  service's clocks have not reached by then, and is in it still by the clock of the end of the call,
  whatever else happens to the store short of storing its identifier again.
\<close>

theorem client_subject_revocation_final:
  assumes L: "client_link C A (app_service pattern A (configure_api auth vl il origins)) base wire clk"
    and R: "redis_server R look" "dp_store (ap_deps A) = redis_jti_store R" "mono (rc_time (w_store (aw_world a)))"
    and c: "cl_base_url c = base" "plain_segment sub"
    and revoked: "client_revoke_subject C c sub a = (Ok n, a1)"
    and g: "rs_grp look (w_store (aw_world a)) (rc_clock (w_store (aw_world a1))) (subject_group sub) j = Some e"
      "rs_late e (w_store (aw_world a))"
    and x: "\<forall>x \<in> set xs. j \<notin> op_writes x" "w_store w2 = run_ops (redis_jti_store R) xs (w_store (aw_world a1))"
    and v: "verify_token_handler (ap_deps A) req hs w2 = (Ok resp, w3)"
  shows "\<exists>claims. resp = respond 200 (ClaimsBody claims) \<and> tc_jti claims \<noteq> j"
proof -
  note con = redis_server.refines_contract [OF R(1)]
  obtain rq w1 where ad: "admitted C A clk c a rq w1"
    and d: "js_revoke_group (dp_store (ap_deps A)) (subject_group sub) (w_store w1) = (Inr n, w_store (aw_world a1))"
    by (rule client_link.subject_answered [OF L revoked c(1) refl c(2)])
  obtain ys where ys: "w_store w1 = run_ops (redis_jti_store R) ys (w_store (aw_world a))"
    "\<forall>x \<in> set ys. \<exists>h ttl. x = OpClaim h ttl" by (rule admitted_path [OF ad R(2)])
  have kept: "rs_wf (w_store w1) \<and> rs_late e (w_store w1) \<and>
     (\<forall>t g. rc_clock (w_store w1) \<le> t \<and> (\<forall>h. g \<noteq> totp_code_key h) \<longrightarrow>
        rs_grp look (w_store w1) t g = rs_grp look (w_store (aw_world a)) t g)"
    unfolding ys(1) using R(3) ys(2) g(2)
    by (intro jti_tasks.claims_keep_groups [OF redis_server.async_contract [OF R(1)]]) (simp_all add: rs_wf_def)
  have "rc_clock (w_store w1) \<le> rc_clock (w_store (aw_world a1))"
    using jti_store.clock_step [OF con, of "w_store w1" "OpRevoke (subject_group sub)"] kept d R(2) by simp
  then have "rs_grp look (w_store w1) (rc_clock (w_store (aw_world a1))) (subject_group sub) j = Some e"
    using kept g(1) by simp
  note gone = d [unfolded R(2)] this rs_late_wall [OF conjunct1 [OF conjunct2 [OF kept]]]
  obtain host jwt w4 where t: "token_from_string (ap_deps A) (tv_token req) host (tv_audience req) w2 = (Ok jwt, w4)"
    and r: "resp = respond 200 (ClaimsBody (jt_claims jwt))"
    using verify_handler_200 [OF v] by metis
  have "tc_jti (jt_claims jwt) \<noteq> j"
    by (rule jti_store.group_revoked_not_accepted [OF con R(2) conjunct1 [OF kept] gone x t])
  then show ?thesis using r by blast
qed

section \<open>Two requests in one step\<close>

text \<open>The claim the service makes for a code in the client's header.\<close>

definition code_claim :: "hmac \<Rightarrow> auth_config \<Rightarrow> string \<Rightarrow> (string \<times> u64) option" where
  "code_claim H auth code = totp_replay_claim H auth [(to_ascii_lowercase ''X-TOTP-Code'', plain_value code)]"

lemma code_claim_eq:
  "tv_header (ac_totp auth) = ''X-TOTP-Code'' \<Longrightarrow> header_get hs ''X-TOTP-Code'' = Some (plain_value code) \<Longrightarrow>
     totp_replay_claim H auth hs = code_claim H auth code"
  by (simp add: totp_replay_claim_def code_fingerprint_def code_claim_def header_get_def)

lemma replay_decided:
  assumes "auth_decide H (Some S) c Totp hs w = (Ok True, w1)" and "ac_replay c"
    and "totp_replay_claim H c hs = Some (fp, ttl)" and "js_claim_totp_code S fp ttl (w_store w) = (Inr b, s1)"
  shows "b \<and> w_store w1 = s1"
proof -
  obtain v where v: "authorize H c Totp hs w = (Ok True, v)" "replay_check H (Some S) c Totp hs v = (True, w1)"
    using assms(1) unfolding auth_decide_Ok_True by blast
  have "js_claim_totp_code S fp ttl (w_store v) = (Inr b, s1)"
    using assms(4) authorize_store [OF v(1)] by simp
  from replay_check_claimed [OF assms(3,2) this] v(2) show ?thesis by auto
qed

lemma create_token_path:
  assumes "create_token D req hs w = (Ok resp, w')"
  shows "store_path (dp_store D) (issue_ops (w_uuid w)) w w'"
proof -
  obtain host token refresh ws where t: "issue_for D host req w = (Ok (token, refresh), ws)"
    and w': "w' = record_metric TokenIssued ws"
    using assms by (auto simp: create_token_def split: sum.splits prod.splits outcome.splits)
  have "store_path (dp_store D) (issue_ops (w_uuid w)) w ws"
  proof (cases "tr_refresh req")
    case True
    then obtain p where "generate_token_pair D host (tr_sub req) (tr_aud req) (tr_ttl req) (tr_claims req) w = (Ok p, ws)"
      using t by (auto simp: issue_for_def step_Ok split: prod.splits)
    then show ?thesis by (rule generate_pair_path)
  next
    case False
    then obtain u where "generate_token D host (tr_sub req) (tr_aud req) (tr_ttl req) (tr_claims req) w = (Ok u, ws)"
      using t by (auto simp: issue_for_def step_Ok)
    then show ?thesis by (rule generate_token_path)
  qed
  then show ?thesis using w' by (simp add: store_path_def)
qed

lemma refused_401:
  assumes "app_service pattern A api rq a = (Ok resp, a')" and "cors_passes (ap_cors A) rq"
    and "find_resource (api_resources api) (rq_path rq) = Some (re, caps)"
    and "re_layers re = [RateLayer st, AuthLayer Totp, CorsLayer p]"
    and n: "\<And>w0 w1. same_world (aw_world a) w0 \<Longrightarrow> decided A Totp rq w0 \<noteq> (Ok True, w1)"
  shows "rs_status resp = 401"
proof -
  let ?limited = "rate_limit_call (ap_governor A) st (resource_routes A re caps)"
  let ?authorised = "auth_call (ap_hmac A) (Some (dp_store (ap_deps A))) (ap_auth A) Totp ?limited"
  obtain a1 a2 res where a1: "same_world (aw_world a) (aw_world a1)" "dispatch A api rq a1 = (Ok res, a2)"
    and res: "rs_status res = rs_status resp"
    using log_success [OF assms(1) [unfolded app_service_def]] by metis
  have "ap_cors A p ?authorised rq a1 = (Ok res, a2)" using a1(2) assms(3,4) by (simp add: dispatch_def)
  then obtain res1 where r1: "?authorised rq a1 = (Ok res1, a2)" "rs_status res1 = rs_status res"
    by (rule cors_passes_Ok [OF assms(2)])
  have "rs_status res1 = 401"
    using r1(1) n [OF a1(1)]
    by (auto simp: auth_call_def unauthorized_response_def split: prod.splits outcome.splits bool.splits)
  then show ?thesis using r1(2) res by simp
qed

context client_link
begin

text \<open>The next request with the same code: not sent, or answered with 401.\<close>

lemma blocked_request:
  assumes "svc = app_service pattern A api" and "cl_base_url c = base" and "list_all path_segment ss"
    and "leads_to api ss meth ep caps"
    and "cd_to_bytes C (cl_secret c) = Some bytes" and "cd_totp_new C MacSha1 6 1 30 bytes = Some totp"
    and "rfc_totp (ap_hmac A) bytes (unat (clk a)) 30 6 MacSha1 = Some code"
    and n: "\<And>rq w1. \<not> admitted C A clk c a rq w1"
  shows "fst (client_request C c meth (plain_path ss) body a) = Err NotSent \<or>
     (\<exists>r a1. client_request C c meth (plain_path ss) body a = (Ok r, a1) \<and> rp_status r = 401)"
proof -
  obtain x a1 where x: "client_request C c meth (plain_path ss) body a = (x, a1)" by fastforce
  have g: "cd_generate C totp a = (Some code, a)" using codes [OF assms(6)] assms(7) by simp
  show ?thesis
  proof (cases "\<exists>r. x = Ok r")
    case False
    then have "x = Err NotSent"
      using x assms(5,6) g
      by (auto simp: client_request_def and_then_def client_totp_code_def split: option.splits prod.splits)
    then show ?thesis using x by simp
  next
    case True
    then obtain r where r: "client_request C c meth (plain_path ss) body a = (Ok r, a1)" using x by auto
    obtain rq bytes' code' resp where b: "cd_to_bytes C (cl_secret c) = Some bytes'"
      "rfc_totp (ap_hmac A) bytes' (unat (clk a)) 30 6 MacSha1 = Some code'"
      and ca: "carries meth (plain_path ss) [(''X-TOTP-Code'', code'), (''Host'', ISSUER_HOST)] (wire body) rq"
      and sv: "svc rq a = (Ok resp, a1)" "r = reply_of resp"
      by (rule request_answered [OF r assms(2,3)])
    obtain re st p where re: "find_resource (api_resources api) (plain_path ss) = Some (re, caps)"
      "re_layers re = [RateLayer st, AuthLayer Totp, CorsLayer p]"
      using assms(4) unfolding leads_to_def by blast
    have "rs_status resp = 401"
    proof (rule refused_401 [OF _ _ _ re(2)])
      show "app_service pattern A api rq a = (Ok resp, a1)" using sv(1) assms(1) by simp
      show "cors_passes (ap_cors A) rq" using ca cors by (simp add: carries_def)
      show "find_resource (api_resources api) (rq_path rq) = Some (re, caps)" using re(1) ca by (simp add: carries_def)
      show "decided A Totp rq w0 \<noteq> (Ok True, w1)" if "same_world (aw_world a) w0" for w0 w1
        using n that b ca unfolding admitted_def carries_def by fastforce
    qed
    then show ?thesis using r sv(2) by (simp add: reply_of_def)
  qed
qed

lemma blocked_operations:
  assumes "svc = app_service pattern A (configure_api auth vl il origins)" and "cl_base_url c = base"
    and "cd_to_bytes C (cl_secret c) = Some bytes" and "cd_totp_new C MacSha1 6 1 30 bytes = Some totp"
    and "rfc_totp (ap_hmac A) bytes (unat (clk a)) 30 6 MacSha1 = Some code"
    and n: "\<And>rq w1. \<not> admitted C A clk c a rq w1"
  shows "fst (client_issue_token C c sub aud rf claims a) \<in> {Err NotSent, Err (Refused ''issue failed'' 401)}"
    and "fst (client_refresh_tokens C c i a) \<in> {Err NotSent, Err (Refused ''refresh failed'' 401)}"
    and "plain_segment jti' \<Longrightarrow> jti' \<notin> {''verify'', ''refresh''} \<Longrightarrow>
       fst (client_revoke_token C c jti' a) \<in> {Err NotSent, Err (Refused ''revoke failed'' 401)}"
    and "plain_segment sub' \<Longrightarrow>
       fst (client_revoke_subject C c sub' a) \<in> {Err NotSent, Err (Refused ''bulk revoke failed'' 401)}"
proof -
  note no = is_success_def successful_def
  note b = blocked_request [OF assms(1,2) _ _ assms(3-5) n]
  have l: "list_all path_segment [''tokens'']" "list_all path_segment [''tokens'', ''refresh'']" by simp_all
  have p: "''/tokens'' = plain_path [''tokens'']" "''/tokens/refresh'' = plain_path [''tokens'', ''refresh'']"
    by (simp_all add: plain_path.simps)
  show "fst (client_issue_token C c sub aud rf claims a) \<in> {Err NotSent, Err (Refused ''issue failed'' 401)}"
    using b [OF l(1) route_create, of "Some (issue_json \<lparr>iq_sub = sub, iq_aud = aud, iq_refresh = rf, iq_claims = claims\<rparr>)"]
    by (auto simp: client_issue_token_def and_then_def pure_step_def p(1) no split: prod.splits)
  show "fst (client_refresh_tokens C c i a) \<in> {Err NotSent, Err (Refused ''refresh failed'' 401)}"
    using b [OF l(2) route_refresh, of "Some (refresh_json i)"]
    by (auto simp: client_refresh_tokens_def and_then_def pure_step_def p(2) no split: prod.splits)
  show "fst (client_revoke_token C c jti' a) \<in> {Err NotSent, Err (Refused ''revoke failed'' 401)}"
    if j: "plain_segment jti'" "jti' \<notin> {''verify'', ''refresh''}"
  proof -
    have "''/tokens/'' @ jti' = plain_path [''tokens'', jti']" by (simp add: plain_path.simps)
    moreover have "list_all path_segment [''tokens'', jti']" using j(1) by simp
    ultimately show ?thesis
      using b [OF _ route_revoke [OF j], of None]
      by (auto simp: client_revoke_token_def and_then_def pure_step_def no split: prod.splits)
  qed
  assume s: "plain_segment sub'"
  have "''/subjects/'' @ sub' @ ''/tokens'' = plain_path [''subjects'', sub', ''tokens'']"
    by (simp add: plain_path.simps)
  moreover have "list_all path_segment [''subjects'', sub', ''tokens'']" using s by simp
  ultimately show "fst (client_revoke_subject C c sub' a) \<in> {Err NotSent, Err (Refused ''bulk revoke failed'' 401)}"
    using b [OF _ route_subject [OF s], of None]
    by (auto simp: client_revoke_subject_def and_then_def pure_step_def no split: prod.splits)
qed

end

lemma step_number: "unat x div 30 = unat (x div 30)" for x :: u64
  by (simp add: unat_div)

text \<open>Between the claim of its code and its answer, the first request keeps the claim.\<close>

lemma first_request_path:
  assumes L: "client_link C A (app_service pattern A (configure_api auth vl il origins)) base wire clk"
    and S: "dp_store (ap_deps A) = S" and c: "cl_base_url c = base" and ids: "\<forall>n. bare_key (w_uuid (aw_world a) n)"
    and first: "(\<exists>t. client_issue_token C c sub aud rf claims a = (Ok t, a1)) \<or>
       plain_segment jti \<and> bare_key jti \<and> jti \<notin> {''verify'', ''refresh''} \<and> client_revoke_token C c jti a = (Ok (), a1)"
  obtains rq w1 xs where "admitted C A clk c a rq w1" "w_store (aw_world a1) = run_ops S xs (w_store w1)"
    "\<forall>x \<in> set xs. totp_code_key h \<notin> op_removes x"
  using first
proof (elim disjE exE conjE)
  fix t
  assume "client_issue_token C c sub aud rf claims a = (Ok t, a1)"
  then obtain rq w1 w2 where ad: "admitted C A clk c a rq w1"
    and ct: "create_token (ap_deps A) \<lparr>tr_sub = sub, tr_aud = aud, tr_ttl = None, tr_refresh = rf, tr_claims = claims\<rparr>
       (rq_headers rq) w1 = (Ok (token_ok (ct_token t) (ct_refresh_token t)), w2)"
    and same: "same_world w2 (aw_world a1)"
    by (rule client_link.issue_answered [OF L _ c refl])
  have "w_uuid w1 = w_uuid (aw_world a)" using admitted_path [OF ad S] by metis
  then obtain xs where "w_store w2 = run_ops S xs (w_store w1)" "list_all (issue_ops (w_uuid (aw_world a))) xs"
    using create_token_path [OF ct] S by (auto simp: store_path_def)
  then show ?thesis
    using that [OF ad, of xs] same issue_ops_keep_codes [OF ids] by (simp add: same_world_def list_all_iff)
next
  assume j: "plain_segment jti" "jti \<notin> {''verify'', ''refresh''}" and "bare_key jti" and r: "client_revoke_token C c jti a = (Ok (), a1)"
  obtain rq w1 where ad: "admitted C A clk c a rq w1"
    and d: "js_delete_jti (dp_store (ap_deps A)) jti (w_store w1) = (Inr (), w_store (aw_world a1))"
    by (rule client_link.revoke_answered [OF L r c refl j])
  then show ?thesis
    using \<open>bare_key jti\<close> that [OF ad, of "[OpDelete jti]"] d S bare_not_prefixed(2) by simp
qed

lemma second_request_refused:
  assumes L: "client_link C A (app_service pattern A (configure_api auth vl il origins)) base wire clk"
    and R: "redis_server R look" "dp_store (ap_deps A) = redis_jti_store R" "mono (rc_time (w_store (aw_world a)))"
    and c: "cl_base_url c = base" "\<forall>n. bare_key (w_uuid (aw_world a) n)"
    and on: "ac_replay (ap_auth A)" "tv_header (ac_totp (ap_auth A)) = ''X-TOTP-Code''"
    and first: "(\<exists>t. client_issue_token C c sub aud rf claims a = (Ok t, a1)) \<or>
       plain_segment jti \<and> bare_key jti \<and> jti \<notin> {''verify'', ''refresh''} \<and> client_revoke_token C c jti a = (Ok (), a1)"
    and step: "clk a1 div 30 = clk a div 30"
    and code: "cd_to_bytes C (cl_secret c) = Some bytes" "cd_totp_new C MacSha1 6 1 30 bytes = Some totp"
      "rfc_totp (ap_hmac A) bytes (unat (clk a)) 30 6 MacSha1 = Some code" "code_claim (ap_hmac A) (ap_auth A) code = Some (fp, ttl)"
    and claimed: "redis_claim_totp_code R fp ttl (w_store (aw_world a)) = (Inr b, s1)"
      "redis_claim_totp_code R fp ttl (w_store (aw_world a1)) = (Inr b', s2)"
      "rc_clock (w_store (aw_world a1)) < rc_clock (w_store (aw_world a)) + uint ttl"
  shows "fst (client_refresh_tokens C c i a1) \<in> {Err NotSent, Err (Refused ''refresh failed'' 401)} \<and>
     fst (client_issue_token C c sub' aud' rf' claims' a1) \<in> {Err NotSent, Err (Refused ''issue failed'' 401)} \<and>
     (plain_segment jti' \<and> jti' \<notin> {''verify'', ''refresh''} \<longrightarrow>
        fst (client_revoke_token C c jti' a1) \<in> {Err NotSent, Err (Refused ''revoke failed'' 401)}) \<and>
     (plain_segment sub' \<longrightarrow>
        fst (client_revoke_subject C c sub' a1) \<in> {Err NotSent, Err (Refused ''bulk revoke failed'' 401)})"
proof -
  note con = redis_server.refines_contract [OF R(1)]
  have js: "js_claim_totp_code (redis_jti_store R) = redis_claim_totp_code R" by (simp add: redis_jti_store_def)
  have claims: "b0 \<and> w_store w1 = s0"
    if t: "admitted C A clk c x rq w1" "rfc_totp (ap_hmac A) bytes (unat (clk x)) 30 6 MacSha1 = Some code"
      "redis_claim_totp_code R fp ttl (w_store (aw_world x)) = (Inr b0, s0)" for x rq w1 b0 s0
  proof -
    obtain w0 where h: "header_get (rq_headers rq) ''X-TOTP-Code'' = Some (plain_value code)"
      and w0: "same_world (aw_world x) w0" "decided A Totp rq w0 = (Ok True, w1)"
      using t(1,2) code(1) unfolding admitted_def by auto
    have cl: "totp_replay_claim (ap_hmac A) (ap_auth A) (rq_headers rq) = Some (fp, ttl)"
      using code_claim_eq [OF on(2) h] code(4) by simp
    have "js_claim_totp_code (redis_jti_store R) fp ttl (w_store w0) = (Inr b0, s0)"
      using t(3) w0(1) js by (simp add: same_world_def)
    then show ?thesis by (rule replay_decided [OF w0(2) [unfolded R(2)] on(1) cl])
  qed
  obtain rq w1 xs where ad: "admitted C A clk c a rq w1"
    and xs: "w_store (aw_world a1) = run_ops (redis_jti_store R) xs (w_store w1)"
      "\<forall>x \<in> set xs. totp_code_key fp \<notin> op_removes x"
    by (rule first_request_path [OF L R(2) c first, of fp])
  have b: "b" "w_store w1 = s1" using claims [OF ad code(3) claimed(1)] by simp_all
  have "\<not> b'"
    by (rule jti_store.claim_blocks_later [OF con _ _ xs(2) _ claimed(3)])
      (use R(3) claimed(1,2) b xs(1) js in \<open>simp_all add: rs_wf_def\<close>)
  moreover have same: "rfc_totp (ap_hmac A) bytes (unat (clk a1)) 30 6 MacSha1 = Some code"
    using code(3) step unfolding rfc_totp_def by (metis step_number)
  ultimately have n: "\<not> admitted C A clk c a1 rq' w'" for rq' w'
    using claims [OF _ same claimed(2)] by blast
  show ?thesis
    using client_link.blocked_operations [OF L refl c(1) code(1,2) same n] by blast
qed


corollary client_scenario_refused:
  assumes L: "client_link C A (app_service pattern A (configure_api auth vl il origins)) base wire clk"
    and R: "redis_server R look" "dp_store (ap_deps A) = redis_jti_store R" "mono (rc_time (w_store (aw_world a)))"
    and e: "client_from_env e = Ok c" "cl_base_url c = base" "\<forall>n. bare_key (w_uuid (aw_world a) n)"
    and on: "ac_replay (ap_auth A)" "tv_header (ac_totp (ap_auth A)) = ''X-TOTP-Code''"
    and code: "cd_to_bytes C (cl_secret c) = Some bytes" "cd_totp_new C MacSha1 6 1 30 bytes = Some totp"
      "rfc_totp (ap_hmac A) bytes (unat (clk a)) 30 6 MacSha1 = Some code" "code_claim (ap_hmac A) (ap_auth A) code = Some (fp, ttl)"
    and claimed: "redis_claim_totp_code R fp ttl (w_store (aw_world a)) = (Inr b, s1)"
    and quick: "\<And>t a1. client_issue_token C c ''svc-a'' [''svc-b''] True [(''role'', admin)] a = (Ok t, a1) \<Longrightarrow>
       clk a1 div 30 = clk a div 30 \<and> rc_clock (w_store (aw_world a1)) < rc_clock (w_store (aw_world a)) + uint ttl \<and>
       (\<exists>b' s2. redis_claim_totp_code R fp ttl (w_store (aw_world a1)) = (Inr b', s2))"
  shows "fst (client_main C admin e a) \<noteq> Ok lines"
proof
  assume "fst (client_main C admin e a) = Ok lines"
  then obtain a' where "client_main C admin e a = (Ok lines, a')" by (metis prod.collapse)
  then obtain t a1 refresh t2 a2 where
    i: "client_issue_token C c ''svc-a'' [''svc-b''] True [(''role'', admin)] a = (Ok t, a1)"
    and r: "client_refresh_tokens C c refresh a1 = (Ok t2, a2)"
    using e(1)
    by (auto simp: client_main_def and_then_Ok slice_to_def expect_def split: if_splits option.splits)
  obtain b' s2 where q: "clk a1 div 30 = clk a div 30"
    "redis_claim_totp_code R fp ttl (w_store (aw_world a1)) = (Inr b', s2)"
    "rc_clock (w_store (aw_world a1)) < rc_clock (w_store (aw_world a)) + uint ttl"
    using quick [OF i] by blast
  have ex: "\<exists>t. client_issue_token C c ''svc-a'' [''svc-b''] True [(''role'', admin)] a = (Ok t, a1)"
    using i by blast
  have "fst (client_refresh_tokens C c refresh a1) \<noteq> Ok t2"
    using conjunct1 [OF second_request_refused [OF L R e(2,3) on disjI1 [OF ex] q(1) code claimed q(2,3), of refresh]] by auto
  then show False using r by simp
qed

section \<open>A subject with a slash\<close>

lemma unknown_path_404:
  assumes "find_resource (api_resources (configure_api auth vl il origins)) (rq_path rq) = None"
    and "find_route (so_routes (api_scope (configure_api auth vl il origins))) (rq_path rq) (rq_method rq) = None"
    and "cors_passes (ap_cors A) rq"
  shows "\<exists>resp a'. app_service pattern A (configure_api auth vl il origins) rq a = (Ok resp, a') \<and>
     rs_status resp = 404 \<and> same_world (aw_world a) (aw_world a')"
proof -
  let ?api = "configure_api auth vl il origins"
  let ?open = "auth_call (ap_hmac A) (Some (dp_store (ap_deps A))) (ap_auth A) Open (scope_routes A (api_scope ?api))"
  have d: "\<exists>resp. dispatch A ?api rq x = (Ok resp, x) \<and> rs_status resp = 404" for x
  proof -
    obtain f where f: "ap_cors A deny_cors ?open rq x =
        (case ?open rq x of (Ok resp, a') \<Rightarrow> (Ok (f resp), a') | (y, a') \<Rightarrow> (y, a'))"
      "\<forall>resp. rs_status (f resp) = rs_status resp \<and> rs_body (f resp) = rs_body resp"
      using assms(3) [unfolded cors_passes_def, THEN spec, of deny_cors, THEN spec, of ?open, THEN spec, of x] by blast
    have "?open rq x = (Ok (respond 404 NoBody), x)"
      using assms(2) by (simp add: auth_call_open scope_routes_def)
    then show ?thesis using scope_dispatch [OF assms(1), of A x] f by simp
  qed
  let ?a1 = "case incoming_request_id (rq_headers rq) of Some s \<Rightarrow> a | None \<Rightarrow> a\<lparr>aw_world := uuid_tick (aw_world a)\<rparr>"
  obtain resp where "dispatch A ?api rq ?a1 = (Ok resp, ?a1)" "rs_status resp = 404" using d by blast
  then show ?thesis
    by (cases "incoming_request_id (rq_headers rq)")
      (auto simp: app_service_def request_log_call_def Let_def same_world_def uuid_tick_def record_metric_def
        echo_request_id_def insert_header_def split: option.splits)
qed

lemma match_segments_length: "match_segments ps ss = Some caps \<Longrightarrow> length ps = length ss"
  by (induction ps ss arbitrary: caps rule: match_segments.induct) (auto split: if_splits)

lemma long_path_unknown:
  assumes "list_all path_segment ss" and "4 \<le> length ss"
  shows "find_resource (api_resources (configure_api auth vl il origins)) (plain_path ss) = None"
    and "find_route (so_routes (api_scope (configure_api auth vl il origins))) (plain_path ss) m = None"
proof -
  have n: "match_path t (plain_path ss) = None" if "length (segments t) \<le> 4" for t
    using that assms(2) match_segments_length [of "segments t" "[] # ss"]
    by (cases "match_path t (plain_path ss)") (auto simp: match_path_def split_plain_path [OF assms(1)])
  have none: "find_resource rs path = None" if "\<forall>re \<in> set rs. match_path (re_path re) path = None" for rs path
    using that by (induction rs) auto
  have l: "length (segments (re_path re)) \<le> 4" if "re \<in> set (api_resources (configure_api auth vl il origins))" for re
    using that by (auto simp: configure_api_def Let_def segments_table split: if_splits)
  show "find_resource (api_resources (configure_api auth vl il origins)) (plain_path ss) = None"
    using n l none by blast
  have "\<forall>(t, m, ep) \<in> set rs. match_path t path = None \<Longrightarrow> find_route rs path m = None" for rs path
    by (induction rs) auto
  moreover have "\<forall>(t, m, ep) \<in> set (so_routes (api_scope (configure_api auth vl il origins))). length (segments t) \<le> 4"
    by (simp add: configure_api_def Let_def segments_table)
  ultimately show "find_route (so_routes (api_scope (configure_api auth vl il origins))) (plain_path ss) m = None"
    using n by fastforce
qed

lemma plain_path_split: "plain_path (split_on (CHR ''/'') s) = ''/'' @ s"
  by (induction s) (auto simp: plain_path.simps split: list.splits)

lemma plain_path_append: "plain_path (ss @ ts) = plain_path ss @ plain_path ts"
  by (induction ss) (simp_all add: plain_path.simps)

lemma split_on_sep: "d \<in> set s \<Longrightarrow> 2 \<le> length (split_on d s)"
  by (induction s) (auto simp: Suc_le_eq split: list.splits)

text \<open>
  C22. The client's bulk revocation cannot reach a subject whose name has a slash: it puts the name into
  the path as it is, the service has no such path, and the call ends in 404 (or is not sent) with the
  store untouched, so every token of the subject stays valid. The name is any number of parts between
  slashes, empty ones too, of the characters a path may have as they are, none of them a dot segment
  (URL parsing takes those out of the path) and none with a percent sign (an escape would be decoded).
\<close>

theorem client_slash_subject_not_revoked:
  assumes L: "client_link C A (app_service pattern A (configure_api auth vl il origins)) base wire clk"
    and c: "cl_base_url c = base" and s: "CHR ''/'' \<in> set sub" "list_all path_segment (split_on (CHR ''/'') sub)"
    and x: "client_revoke_subject C c sub a = (x, a1)"
  shows "(\<forall>n. x \<noteq> Ok n) \<and> (\<forall>what status. x = Err (Refused what status) \<longrightarrow> status = 404) \<and>
     w_store (aw_world a1) = w_store (aw_world a)"
proof -
  let ?svc = "app_service pattern A (configure_api auth vl il origins)"
  let ?ss = "[''subjects''] @ split_on (CHR ''/'') sub @ [''tokens'']"
  have ss: "list_all path_segment ?ss" "4 \<le> length ?ss" using s(2) split_on_sep [OF s(1)] by simp_all
  have path: "''/subjects/'' @ sub @ ''/tokens'' = plain_path ?ss"
    unfolding plain_path_append plain_path_split by (simp add: plain_path.simps)
  have lost: "\<exists>resp a'. ?svc rq a = (Ok resp, a') \<and> rs_status resp = 404 \<and> same_world (aw_world a) (aw_world a')"
    if "carries ''DELETE'' (plain_path ?ss) hs (wire None) rq" for rq hs
  proof -
    have "cors_passes (ap_cors A) rq" "rq_path rq = plain_path ?ss"
      using that client_link.cors [OF L] by (simp_all add: carries_def)
    then show ?thesis using unknown_path_404 long_path_unknown [OF ss] by metis
  qed
  obtain y where y: "client_request C c ''DELETE'' (plain_path ?ss) None a = (y, a1)"
    and xy: "x = (case y of Ok r \<Rightarrow> (case successful ''bulk revoke failed'' r of Inl e \<Rightarrow> Err e
        | Inr b \<Rightarrow> (case read_json (cd_json_revoked C) b of Inl e \<Rightarrow> Err e | Inr z \<Rightarrow> Ok (ct_revoked z)))
      | Err e \<Rightarrow> Err e | Panic \<Rightarrow> Panic)"
    using x unfolding client_revoke_subject_def path
    by (auto simp: and_then_def pure_step_def split: prod.splits outcome.splits sum.splits)
  show ?thesis
  proof (cases "\<exists>r. y = Ok r")
    case True
    then obtain r where r: "y = Ok r" by blast
    obtain rq code resp where ca: "carries ''DELETE'' (plain_path ?ss) [(''X-TOTP-Code'', code), (''Host'', ISSUER_HOST)] (wire None) rq"
      and sv: "?svc rq a = (Ok resp, a1)" "r = reply_of resp"
      by (rule client_link.request_answered [OF L y [unfolded r] c ss(1)])
    have "rs_status resp = 404 \<and> same_world (aw_world a) (aw_world a1)" using lost [OF ca] sv(1) by auto
    then show ?thesis using xy r sv(2) by (simp add: reply_of_def successful_def is_success_def same_world_def)
  next
    case False
    have e: "y = Err BadSecret \<or> y = Err BadTotp \<or> y = Err NoTime \<or> y = Err NotSent"
      and st: "a1 = a \<or> (\<exists>rq hs. carries ''DELETE'' (plain_path ?ss) hs (wire None) rq \<and> a1 = snd (?svc rq a))"
      using client_link.request_error [OF L y c ss(1)] False by auto
    have "w_store (aw_world a1) = w_store (aw_world a)"
      using st lost by (fastforce simp: same_world_def)
    then show ?thesis using xy e by auto
  qed
qed

end
