(* ===== verification/Client_Direct.thy ===== *)
theory Client_Direct
  imports Client_Service "HOL-Library.Countable"
begin

text \<open>
  The client wired to the service: a network that hands every request over, JSON texts that are numbers
  of bodies, and a generator that computes the codes of RFC 6238. For any service and any
  application data it is a \<open>client_link\<close>. The witnesses of \<open>Client_Service\<close> run on it.
\<close>

section \<open>A link\<close>

instance json :: (countable) countable
  by countable_datatype

definition wire_text :: "'v :: countable json json_object option \<Rightarrow> string" where
  "wire_text body = replicate (to_nat body) (CHR ''x'')"

definition unwire :: "string \<Rightarrow> 'v :: countable json json_object option" where
  "unwire s = from_nat (length s)"

lemma unwire_wire [simp]: "unwire (wire_text body) = body"
  by (simp add: unwire_def wire_text_def)

fun read_issue :: "'v json json_object option \<Rightarrow> 'v response + 'v token_request" where
  "read_issue (Some [(_, JString sub), (_, JStrings aud), (_, JBool rf)]) =
     Inr \<lparr>tr_sub = sub, tr_aud = aud, tr_ttl = None, tr_refresh = rf, tr_claims = []\<rparr>"
| "read_issue (Some [(_, JString sub), (_, JStrings aud), (_, JBool rf), (_, JMap claims)]) =
     Inr \<lparr>tr_sub = sub, tr_aud = aud, tr_ttl = None, tr_refresh = rf, tr_claims = claims\<rparr>"
| "read_issue _ = Inl (respond 400 NoBody)"

fun read_refresh :: "'v json json_object option \<Rightarrow> 'v response + refresh_request" where
  "read_refresh (Some [(_, JString i)]) = Inr \<lparr>rq_refresh_token = i\<rparr>"
| "read_refresh _ = Inl (respond 400 NoBody)"

definition over_wire ::
  "('b, 'g, 'p, 'k, 'v :: countable, 'n, 's, 'l) app_deps \<Rightarrow> ('b, 'g, 'p, 'k, 'v, 'n, 's, 'l) app_deps" where
  "over_wire A = A\<lparr>ap_cors := \<lambda>p inner. inner, ap_json_token := \<lambda>r. read_issue (unwire (rq_body r)),
     ap_json_refresh := \<lambda>r. read_refresh (unwire (rq_body r)),
     ap_path_param := \<lambda>caps. case caps of [s] \<Rightarrow> Inr s | _ \<Rightarrow> Inl (respond 404 NoBody)\<rparr>"

definition direct_request :: "string \<Rightarrow> string \<Rightarrow> (string \<times> string) list \<Rightarrow> string \<Rightarrow> request" where
  "direct_request meth path hs body =
     \<lparr>rq_method = meth, rq_path = path, rq_headers = map (\<lambda>(n, v). (to_ascii_lowercase n, plain_value v)) hs,
      rq_peer = None, rq_body = body\<rparr>"

fun token_body :: "'v body \<Rightarrow> client_token_response option" where
  "token_body (TokenBody t) = Some \<lparr>ct_token = tk_token t, ct_refresh_token = tk_refresh_token t\<rparr>"
| "token_body _ = None"

fun revoked_body :: "'v body \<Rightarrow> client_revoke_response option" where
  "revoked_body (RevokedBody x) = Some \<lparr>ct_revoked = rg_revoked x\<rparr>"
| "revoked_body _ = None"

definition direct_client ::
  "(string \<Rightarrow> u8 list option) \<Rightarrow> hmac \<Rightarrow> ('v :: countable, 'w) service \<Rightarrow> string \<Rightarrow> ('w \<Rightarrow> u64)
     \<Rightarrow> (mac_digest \<times> nat \<times> u64 \<times> u8 list, 'v, 'v body, 'w) client_deps" where
  "direct_client dec H svc base clk =
     \<lparr>cd_to_bytes = dec,
      cd_totp_new = \<lambda>d n k step bytes. Some (d, n, step, bytes),
      cd_generate = \<lambda>(d, n, step, bytes) a.
        (rfc_totp H bytes (unat (clk a)) (unat step) n d, a),
      cd_send = \<lambda>meth url hs body a.
        (case svc (direct_request meth (drop (length base) url) hs (wire_text body)) a of
           (Ok resp, a') \<Rightarrow> (Some (reply_of resp), a') | (_, a') \<Rightarrow> (None, a')),
      cd_json_token = token_body, cd_json_revoked = revoked_body\<rparr>"

lemma direct_headers:
  "header_get (rq_headers (direct_request meth path [(''X-TOTP-Code'', code), (''Host'', host)] body)) ''X-TOTP-Code''
     = Some (plain_value code)"
  "header_get (rq_headers (direct_request meth path [(''X-TOTP-Code'', code), (''Host'', host)] body)) ''Host''
     = Some (plain_value host)"
  "header_get (rq_headers (direct_request meth path [(''X-TOTP-Code'', code), (''Host'', host)] body)) ''Origin'' = None"
  by (simp_all add: header_get_def direct_request_def to_ascii_lowercase_def ascii_lower_def byte_of_def
      char_of_def bit_iff_odd)

lemma direct_link:
  fixes A :: "('b, 'g, 'p, 'k, 'v :: countable, 'n, 's, 'l) app_deps"
  shows "client_link (direct_client dec (ap_hmac A) svc base clk) (over_wire A) svc base wire_text clk"
proof
  fix ss hs code meth and body :: "'v json json_object option" and a
  assume "list_all path_segment ss" and hs: "hs = [(''X-TOTP-Code'', code), (''Host'', ISSUER_HOST)]"
  let ?r = "direct_request meth (plain_path ss) hs (wire_text body)"
  have "carries meth (plain_path ss) hs (wire_text body) ?r"
    unfolding hs carries_def using direct_headers by (simp add: direct_request_def)
  moreover have "exchanged svc ?r a (cd_send (direct_client dec (ap_hmac A) svc base clk) meth (base @ plain_path ss) hs body a)"
    by (auto simp: exchanged_def direct_client_def split: prod.splits outcome.splits)
  ultimately show "\<exists>r. carries meth (plain_path ss) hs (wire_text body) r \<and>
      exchanged svc r a (cd_send (direct_client dec (ap_hmac A) svc base clk) meth (base @ plain_path ss) hs body a)"
    by blast
qed (auto simp: over_wire_def issue_json_def refresh_json_def direct_client_def cors_passes_def
    intro!: exI [of _ "\<lambda>x. x"] split: prod.splits outcome.splits)

interpretation direct: client_link "direct_client dec (ap_hmac A) svc base clk" "over_wire A" svc base wire_text clk
  for dec and A :: "('b, 'g, 'p, 'k, 'v :: countable, 'n, 's, 'l) app_deps" and svc base clk
  by (rule direct_link)

section \<open>Forward\<close>

lemma direct_request_run:
  assumes "cl_base_url c = base" and "dec (cl_secret c) = Some bytes"
    and "rfc_totp H bytes (unat (clk a)) 30 6 MacSha1 = Some code"
    and "svc (direct_request meth path [(''X-TOTP-Code'', code), (''Host'', ISSUER_HOST)] (wire_text body)) a = (Ok resp, a')"
  shows "client_request (direct_client dec H svc base clk) c meth path body a = (Ok (reply_of resp), a')"
  using assms by (simp add: client_request_def client_totp_code_def and_then_def direct_client_def)

lemma service_run:
  assumes "find_resource (api_resources api) (rq_path rq) = Some (re, caps)"
    and "re_layers re = [RateLayer LimitDisabled, AuthLayer Totp, CorsLayer p]" and "re_routes re = [(rq_method rq, ep)]"
    and "ap_cors A = (\<lambda>p inner. inner)" and "incoming_request_id (rq_headers rq) = None"
    and "decided A Totp rq (uuid_tick (aw_world a)) = (Ok True, w1)"
    and "run_endpoint A ep caps rq (a\<lparr>aw_world := w1\<rparr>) = (Ok res, a2)"
  obtains resp a' where "app_service pattern A api rq a = (Ok resp, a')" "rs_status resp = rs_status res"
    "rs_body resp = rs_body res" "same_world (aw_world a2) (aw_world a')"
proof -
  let ?a = "a\<lparr>aw_world := uuid_tick (aw_world a)\<rparr>"
  have "dispatch A api rq ?a = (Ok res, a2)"
    using assms by (simp add: dispatch_def auth_call_def rate_limit_call_def strategy_check_def resource_routes_def)
  then show ?thesis
    using assms(5) that
    by (simp add: app_service_def request_log_call_def Let_def same_world_def record_metric_def
        echo_request_id_def insert_header_def split: option.splits)
qed

section \<open>Witnesses\<close>

definition demo_keys :: keymap where
  "demo_keys = [''u0'' \<mapsto> (KStr ''1'', Some 1060), ''group:sub:alice'' \<mapsto> (KZset [(''u0'', 1060)], Some 1060)]"

definition client_auth :: auth_config where
  "client_auth = demo_auth\<lparr>ac_totp := demo_totp\<lparr>tv_header := ''X-TOTP-Code''\<rparr>\<rparr>"

definition client_app :: "(string, unit, string, string, unit, nat, keyspace redis_client, nat) app_deps" where
  "client_app = over_wire (demo_app_deps\<lparr>ap_auth := client_auth\<rparr>)"

definition client_api :: api where
  "client_api = configure_api client_auth (None :: unit per_ip_limiter option) (None :: (unit \<times> nat) option) []"

definition client_svc :: "(unit, (nat, keyspace redis_client, nat) app_world) service" where
  "client_svc = app_service (\<lambda>_. None) client_app client_api"

definition client_demo :: client where
  "client_demo = \<lparr>cl_base_url = ''http://s'', cl_secret = ''AE''\<rparr>"

definition client_links ::
  "(mac_digest \<times> nat \<times> u64 \<times> u8 list, unit, unit body, (nat, keyspace redis_client, nat) app_world) client_deps" where
  "client_links = direct_client (\<lambda>_. Some [1]) demo_hmac client_svc ''http://s'' (\<lambda>_. 119)"

definition client_start :: "(nat, keyspace redis_client, nat) app_world" where
  "client_start = \<lparr>aw_world = demo_world\<lparr>w_store := still_client 0 demo_keys [], w_utc := \<lambda>_. 119\<rparr>, aw_limits = 0\<rparr>"

lemma client_app_fields [simp]:
  "ap_hmac client_app = demo_hmac" "ap_auth client_app = client_auth" "ap_deps client_app = demo_deps"
  "ap_cors client_app = (\<lambda>p inner. inner)"
  by (simp_all add: client_app_def over_wire_def demo_app_deps_def)

lemma client_auth_fields [simp]:
  "ac_replay client_auth" "tv_header (ac_totp client_auth) = ''X-TOTP-Code''" "tv_step (ac_totp client_auth) = 30"
  "tv_secrets (ac_totp client_auth) = [[1]]" "tv_digits (ac_totp client_auth) = 6"
  "tv_digest (ac_totp client_auth) = MacSha1" "tv_skew (ac_totp client_auth) = 1"
  by (simp_all add: client_auth_def demo_auth_def demo_totp_def)

lemma demo_link:
  "client_link client_links client_app (app_service (\<lambda>_. None) client_app
     (configure_api (ap_auth client_app) (None :: unit per_ip_limiter option) (None :: (unit \<times> nat) option) []))
     ''http://s'' wire_text (\<lambda>_. 119)"
  using direct_link [of "\<lambda>_. Some [1]" "demo_app_deps\<lparr>ap_auth := client_auth\<rparr>" client_svc "''http://s''" "\<lambda>_. 119"]
  by (simp add: client_links_def client_svc_def client_api_def client_app_def over_wire_def demo_app_deps_def)

lemma demo_totp_code: "rfc_totp demo_hmac k 119 30 6 MacSha1 = Some ''000003''"
  using hotp_rfc [OF demo_hmac_bytes, of 6 k 3 MacSha1] demo_hotp [of k MacSha1]
  by (simp add: rfc_totp_def split: option.splits)

text \<open>The claim of the code and the revocations, on a client with the clock standing still.\<close>

lemma still_claim:
  assumes "m (totp_code_key fp) = None" and "ttl \<noteq> 0"
  shows "redis_claim_totp_code keyspace_redis fp ttl (still_client n m ms) =
     (Inr True, still_client (Suc n) (m(totp_code_key fp \<mapsto> (KStr ''1'', Some (1000 + uint ttl))))
        (ms @ [RedisCommand ''claim_totp_code'' True]))"
  using assms by (simp add: redis_claim_totp_code_def with_connection_def still_connection still_issue still_finish
      keyspace_redis_def k_set_nx_ex_def live_def)

lemma still_claim_answers: "\<exists>b s. redis_claim_totp_code keyspace_redis fp 90 (still_client n m ms) = (Inr b, s)"
  by (simp add: redis_claim_totp_code_def with_connection_def still_connection still_issue still_finish
      keyspace_redis_def k_set_nx_ex_def) blast

lemma still_delete:
  "redis_delete_jti keyspace_redis j (still_client n m ms) =
     (Inr (), still_client (Suc n) (\<lambda>k. if k = j then None else m k) (ms @ [RedisCommand ''delete_jti'' True]))"
  by (simp add: redis_delete_jti_def with_connection_def still_connection still_issue still_finish
      keyspace_redis_def k_del_def)

lemma demo_code_claim: "\<exists>fp. code_claim demo_hmac client_auth ''000003'' = Some (fp, 90)"
  by (simp add: code_claim_def totp_replay_claim_def code_fingerprint_def header_get_def demo_hmac_def
      replay_window_seconds_def)

lemma client_decides:
  assumes "header_get hs ''X-TOTP-Code'' = Some (plain_value ''000003'')" and "utc_now w = 119"
    and "code_claim demo_hmac client_auth ''000003'' = Some (fp, ttl)"
    and "redis_claim_totp_code keyspace_redis fp ttl (w_store w) = (Inr True, s)"
  shows "auth_decide demo_hmac (Some (redis_jti_store keyspace_redis)) client_auth Totp hs w = (Ok True, (utc_tick w)\<lparr>w_store := s\<rparr>)"
proof -
  have "\<exists>c. unat c \<in> window (ac_totp client_auth) 119 \<and> hotp demo_hmac [1] c 6 MacSha1 = Ok ''000003''"
    by (intro exI [of _ "3 :: u64"] conjI demo_hotp) (simp add: window_def)
  then have "totp_validate demo_hmac (ac_totp client_auth) hs 119 = Ok True"
    using totp_validate_eq [OF demo_hmac_bytes, of "ac_totp client_auth" hs 119] assms(1)
    by (simp add: plain_value_def)
  then have "authorize demo_hmac client_auth Totp hs w = (Ok True, utc_tick w)"
    using assms(2) by (simp add: authorize_def)
  moreover have "replay_check demo_hmac (Some (redis_jti_store keyspace_redis)) client_auth Totp hs (utc_tick w) =
      (True, (utc_tick w)\<lparr>w_store := s\<rparr>)"
    by (rule replay_check_claimed)
      (use code_claim_eq [OF _ assms(1)] assms(3,4) in \<open>simp_all add: redis_jti_store_def utc_tick_def\<close>)
  ultimately show ?thesis unfolding auth_decide_Ok_True by blast
qed

lemma client_demo_code:
  "(\<lambda>_. Some [1]) (cl_secret client_demo) = Some ([1] :: u8 list)" "rfc_totp demo_hmac [1] 119 30 6 MacSha1 = Some ''000003''"
  using demo_totp_code by simp_all

text \<open>One request of the demo client to an endpoint behind the one-time code.\<close>

lemma client_demo_request:
  assumes "find_resource (api_resources client_api) path = Some (re, caps)"
    and "re_layers re = [RateLayer LimitDisabled, AuthLayer Totp, CorsLayer p]" and "re_routes re = [(meth, ep)]"
    and "code_claim demo_hmac client_auth ''000003'' = Some (fp, ttl)" and "w_utc (aw_world a) = (\<lambda>_. 119)"
    and "redis_claim_totp_code keyspace_redis fp ttl (w_store (aw_world a)) = (Inr True, s)"
    and "\<And>rq w. w_store w = s \<Longrightarrow> \<exists>a2. run_endpoint client_app ep caps rq (a\<lparr>aw_world := w\<rparr>) = (Ok res, a2) \<and> w_store (aw_world a2) = s'"
  obtains r a' where "client_request client_links client_demo meth path body a = (Ok r, a')"
    "rp_status r = rs_status res" "rp_body r = rs_body res" "w_store (aw_world a') = s'"
proof -
  let ?rq = "direct_request meth path [(''X-TOTP-Code'', ''000003''), (''Host'', ISSUER_HOST)] (wire_text body)"
  let ?w = "uuid_tick (aw_world a)"
  have d: "decided client_app Totp ?rq ?w = (Ok True, (utc_tick ?w)\<lparr>w_store := s\<rparr>)"
    using client_decides [OF direct_headers(1) _ assms(4), of ?w s] assms(5,6)
    by (simp add: demo_deps_def utc_now_def uuid_tick_def)
  have i: "incoming_request_id (rq_headers ?rq) = None"
    by (simp add: incoming_request_id_def header_get_def REQUEST_ID_HEADER_def direct_request_def
        to_ascii_lowercase_def ascii_lower_def byte_of_def char_of_def bit_iff_odd)
  obtain a2 where e: "run_endpoint client_app ep caps ?rq (a\<lparr>aw_world := (utc_tick ?w)\<lparr>w_store := s\<rparr>\<rparr>) = (Ok res, a2)"
    "w_store (aw_world a2) = s'" using assms(7) [of "(utc_tick ?w)\<lparr>w_store := s\<rparr>" ?rq] by auto
  have rq: "rq_path ?rq = path" "rq_method ?rq = meth" by (simp_all add: direct_request_def)
  have f: "find_resource (api_resources client_api) (rq_path ?rq) = Some (re, caps)" "re_routes re = [(rq_method ?rq, ep)]"
    using assms(1,3) rq by simp_all
  obtain resp a' where "client_svc ?rq a = (Ok resp, a')" "rs_status resp = rs_status res" "rs_body resp = rs_body res"
    "same_world (aw_world a2) (aw_world a')"
    using service_run [OF f(1) assms(2) f(2) client_app_fields(4) i d e(1), of "\<lambda>_. None"]
    unfolding client_svc_def by blast
  moreover from this have "client_request client_links client_demo meth path body a = (Ok (reply_of resp), a')"
    unfolding client_links_def
    by (intro direct_request_run) (simp_all add: client_demo_def demo_totp_code)
  ultimately show ?thesis using that [of "reply_of resp" a'] e(2) by (simp add: reply_of_def same_world_def)
qed

lemma client_demo_revoke:
  assumes "code_claim demo_hmac client_auth ''000003'' = Some (fp, 90)"
  obtains a' where "client_revoke_token client_links client_demo ''u0'' client_start = (Ok (), a')"
    "w_store (aw_world a') = still_client 2 (\<lambda>k. if k = ''u0'' then None else (demo_keys(totp_code_key fp \<mapsto> (KStr ''1'', Some 1090))) k)
       [RedisCommand ''claim_totp_code'' True, RedisCommand ''delete_jti'' True]"
proof -
  let ?m = "demo_keys(totp_code_key fp \<mapsto> (KStr ''1'', Some 1090))"
  have c: "redis_claim_totp_code keyspace_redis fp 90 (w_store (aw_world client_start)) =
      (Inr True, still_client 1 ?m [RedisCommand ''claim_totp_code'' True])"
    by (simp add: client_start_def still_claim demo_keys_def totp_code_key_def)
  obtain re where f: "find_resource (api_resources client_api) ''/tokens/u0'' = Some (re, [''u0''])"
    "re_layers re = [RateLayer LimitDisabled, AuthLayer Totp, CorsLayer deny_cors]" "re_routes re = [(''DELETE'', RevokeToken)]"
    by (simp add: client_api_def configure_api_def Let_def match_path_def segments_table rate_limit_global_def)
  let ?s = "still_client 2 (\<lambda>k. if k = ''u0'' then None else ?m k) [RedisCommand ''claim_totp_code'' True, RedisCommand ''delete_jti'' True]"
  have p: "ap_path_param client_app [s] = Inr s" for s by (simp add: client_app_def over_wire_def)
  have e: "\<exists>a2. run_endpoint client_app RevokeToken [''u0''] rq (client_start\<lparr>aw_world := w\<rparr>) = (Ok (respond 204 NoBody), a2) \<and>
      w_store (aw_world a2) = ?s"
    if "w_store w = still_client 1 ?m [RedisCommand ''claim_totp_code'' True]" for rq w
    using that by (simp add: p extracted_def handle_def revoke_token_def demo_deps_def redis_jti_store_def
        still_delete into_response_def numeral_2_eq_2)
  obtain r a' where "client_request client_links client_demo ''DELETE'' ''/tokens/u0'' None client_start = (Ok r, a')"
    "rp_status r = rs_status (respond 204 NoBody :: unit response)" "w_store (aw_world a') = ?s"
    by (rule client_demo_request [OF f assms _ c e]) (simp_all add: client_start_def)
  then show ?thesis
    using that by (simp add: client_revoke_token_def and_then_def pure_step_def successful_def is_success_def)
qed

lemma demo_segments: "plain_segment ''u0''" "plain_segment ''alice''" "plain_segment ''team''"
  by (simp_all add: plain_segment_def path_segment_def path_char_def is_ascii_alphanumeric_def byte_of_def)

lemma client_start_fields:
  "mono (rc_time (w_store (aw_world client_start)))" "bare_key (w_uuid (aw_world client_start) n)"
  "dp_store (ap_deps client_app) = redis_jti_store keyspace_redis" "rc_clock (still_client k m ms) = 1000"
  "w_store (aw_world client_start) = still_client 0 demo_keys []" "cl_base_url client_demo = ''http://s''"
  by (simp_all add: client_start_def still_client_def mono_def demo_world_def bare_key_def demo_deps_def rc_clock_def
      client_demo_def)

lemma client_revocation_final_witness:
  "\<exists>a'. client_revoke_token client_links client_demo ''u0'' client_start = (Ok (), a') \<and>
     fst (verify_token_handler demo_deps \<lparr>tv_token = demo_token, tv_audience = ''app''\<rparr> demo_host (aw_world a'))
       \<noteq> Ok (respond 200 (ClaimsBody demo_claims))"
proof -
  let ?q = "\<lparr>tv_token = demo_token, tv_audience = ''app''\<rparr>"
  obtain fp a' where r: "client_revoke_token client_links client_demo ''u0'' client_start = (Ok (), a')"
    by (rule exE [OF demo_code_claim], erule client_demo_revoke) (rule that; assumption)
  have "fst (verify_token_handler demo_deps ?q demo_host (aw_world a')) \<noteq> Ok (respond 200 (ClaimsBody demo_claims))"
  proof
    assume "fst (verify_token_handler demo_deps ?q demo_host (aw_world a')) = Ok (respond 200 (ClaimsBody demo_claims))"
    then obtain w3 where v: "verify_token_handler (ap_deps client_app) ?q demo_host (aw_world a') =
        (Ok (respond 200 (ClaimsBody demo_claims)), w3)" by (metis prod.collapse client_app_fields(3))
    have "\<exists>claims. respond 200 (ClaimsBody demo_claims) = respond 200 (ClaimsBody claims) \<and> tc_jti claims \<noteq> ''u0''"
      by (rule client_revocation_final [OF demo_link ks.redis_server_axioms client_start_fields(3,1,6) demo_segments(1)
            _ r _ _ v, where xs = "[]"]) simp_all
    then show False by (simp add: demo_claims_fields)
  qed
  then show ?thesis using r by blast
qed


lemma client_slash_subject_not_revoked_witness:
  "\<exists>x a'. client_revoke_subject client_links client_demo ''team/alice'' client_start = (x, a') \<and>
     (\<forall>n. x \<noteq> Ok n) \<and> w_store (aw_world a') = still_client 0 demo_keys []"
proof -
  have s: "CHR ''/'' \<in> set ''team/alice''" "list_all path_segment (split_on (CHR ''/'') ''team/alice'')"
    using demo_segments(2,3) by simp_all
  obtain x a' where x: "client_revoke_subject client_links client_demo ''team/alice'' client_start = (x, a')"
    by fastforce
  from client_slash_subject_not_revoked [OF demo_link client_start_fields(6) s x]
  show ?thesis using x client_start_fields(5) by auto
qed

text \<open>The bulk revocation of the demo subject.\<close>

lemma still_revoke:
  assumes "m (subject_group ''alice'') = Some (KZset [(''u0'', 1060)], Some 1060)"
  shows "\<exists>s. redis_revoke_group keyspace_redis (subject_group ''alice'') (still_client n m ms) = (Inr 1, s) \<and> rc_clock s = 1000"
  using assms
  by (simp add: redis_revoke_group_def with_connection_def still_connection redis_utc_now_def keyspace_redis_def)
    (simp add: still_client_def issue_def ks_exec_def k_zrem_def k_zrange_def k_del_def live_def alive_def finish_def
      rc_clock_def record_redis_command_def)

lemma client_subject_revocation_final_witness:
  "\<exists>a'. client_revoke_subject client_links client_demo ''alice'' client_start = (Ok 1, a') \<and>
     fst (verify_token_handler demo_deps \<lparr>tv_token = demo_token, tv_audience = ''app''\<rparr> demo_host (aw_world a'))
       \<noteq> Ok (respond 200 (ClaimsBody demo_claims))"
proof -
  let ?q = "\<lparr>tv_token = demo_token, tv_audience = ''app''\<rparr>"
  obtain fp where fp: "code_claim demo_hmac client_auth ''000003'' = Some (fp, 90)" using demo_code_claim by blast
  let ?m = "demo_keys(totp_code_key fp \<mapsto> (KStr ''1'', Some 1090))"
  have c: "redis_claim_totp_code keyspace_redis fp 90 (w_store (aw_world client_start)) =
      (Inr True, still_client 1 ?m [RedisCommand ''claim_totp_code'' True])"
    by (simp add: client_start_def still_claim demo_keys_def totp_code_key_def)
  obtain s where s: "redis_revoke_group keyspace_redis (subject_group ''alice'') (still_client 1 ?m
      [RedisCommand ''claim_totp_code'' True]) = (Inr 1, s)" "rc_clock s = 1000"
    using still_revoke [of ?m] by (auto simp: demo_keys_def subject_group_def totp_code_key_def)
  obtain re where f: "find_resource (api_resources client_api) ''/subjects/alice/tokens'' = Some (re, [''alice''])"
    "re_layers re = [RateLayer LimitDisabled, AuthLayer Totp, CorsLayer deny_cors]" "re_routes re = [(''DELETE'', RevokeSubject)]"
    by (simp add: client_api_def configure_api_def Let_def match_path_def segments_table rate_limit_global_def)
  have p: "ap_path_param client_app [x] = Inr x" for x by (simp add: client_app_def over_wire_def)
  have e: "\<exists>a2. run_endpoint client_app RevokeSubject [''alice''] rq (client_start\<lparr>aw_world := w\<rparr>) =
      (Ok (respond 200 (RevokedBody \<lparr>rg_revoked = 1\<rparr>)), a2) \<and> w_store (aw_world a2) = s"
    if "w_store w = still_client 1 ?m [RedisCommand ''claim_totp_code'' True]" for rq w
    using that s(1) by (simp add: p extracted_def handle_def revoke_subject_tokens_def demo_deps_def redis_jti_store_def
        into_response_def)
  obtain r a' where "client_request client_links client_demo ''DELETE'' ''/subjects/alice/tokens'' None client_start = (Ok r, a')"
    "rp_status r = rs_status (respond 200 (RevokedBody \<lparr>rg_revoked = 1\<rparr>) :: unit response)"
    "rp_body r = rs_body (respond 200 (RevokedBody \<lparr>rg_revoked = 1\<rparr>) :: unit response)" and s': "w_store (aw_world a') = s"
    by (rule client_demo_request [OF f fp _ c e]) (simp_all add: client_start_def)
  then have rv: "client_revoke_subject client_links client_demo ''alice'' client_start = (Ok 1, a')"
    by (simp add: client_revoke_subject_def and_then_def pure_step_def successful_def is_success_def read_json_def
        client_links_def direct_client_def)
  have g: "rs_grp ks_look (w_store (aw_world client_start)) (rc_clock (w_store (aw_world a'))) (subject_group ''alice'') ''u0'' = Some 1060"
    "rs_late 1060 (w_store (aw_world client_start))"
    by (simp_all add: s' s(2) client_start_fields(5))
      (simp_all add: still_client_def rs_late_def rs_grp_def ks_look_def map_look_def live_def alive_def
        demo_keys_def subject_group_def)
  have "fst (verify_token_handler demo_deps ?q demo_host (aw_world a')) \<noteq> Ok (respond 200 (ClaimsBody demo_claims))"
  proof
    assume "fst (verify_token_handler demo_deps ?q demo_host (aw_world a')) = Ok (respond 200 (ClaimsBody demo_claims))"
    then obtain w3 where v: "verify_token_handler (ap_deps client_app) ?q demo_host (aw_world a') =
        (Ok (respond 200 (ClaimsBody demo_claims)), w3)" by (metis prod.collapse client_app_fields(3))
    have "\<exists>claims. respond 200 (ClaimsBody demo_claims) = respond 200 (ClaimsBody claims) \<and> tc_jti claims \<noteq> ''u0''"
      by (rule client_subject_revocation_final [OF demo_link ks.redis_server_axioms client_start_fields(3,1,6)
            demo_segments(2) rv g _ _ v, where xs = "[]"]) simp_all
    then show False by (simp add: demo_claims_fields)
  qed
  then show ?thesis using rv by blast
qed

text \<open>The code of second 119, for a service configured with its defaults.\<close>

definition plain_env :: env where
  "plain_env = [''AUTH_PROXY_SECRET'' \<mapsto> ''s'', ''AUTH_TOTP_SECRET'' \<mapsto> ''AAAA'']"

lemma plain_chars: "\<not> is_cont CHR ''A''" "\<not> is_whitespace ''A''"
  by (simp_all add: is_cont_def is_whitespace_def whitespace_code_def byte_of_def)

lemma plain_secret: "base32_decode ''AAAA'' = Some [0, 0]" "trim ''AAAA'' \<noteq> []"
proof -
  have "base32_value ''A'' = Some 0"
    by (simp add: base32_value_def BASE32_ALPHABET_def to_ascii_uppercase_def ascii_upper_def byte_of_def)
  then show "base32_decode ''AAAA'' = Some [0, 0]"
    by (simp add: base32_decode_def plain_chars base32_push_def Let_def)
  show "trim ''AAAA'' \<noteq> []" by (simp add: trim_def plain_chars)
qed

lemma plain_auth_built: "\<exists>auth. auth_config_from_env plain_env = Inr auth"
  using plain_secret
  by (simp add: auth_config_from_env_def auth_errors_def plain_env_def proxy_secret_from_def totp_secret_from_def)

lemma client_code_accepted_witness:
  "\<exists>auth. decided (client_app\<lparr>ap_auth := auth\<rparr>) Totp
      (direct_request ''DELETE'' ''/tokens/u0'' [(''X-TOTP-Code'', ''000003''), (''Host'', ISSUER_HOST)] [])
      (aw_world client_start) = (Ok True, utc_tick (aw_world client_start))"
proof -
  obtain auth where auth: "auth_config_from_env plain_env = Inr auth" using plain_auth_built by blast
  let ?c = "\<lparr>cl_base_url = ''http://s'', cl_secret = ''AAAA''\<rparr>"
  let ?A = "over_wire (demo_app_deps\<lparr>ap_auth := auth\<rparr>)"
  let ?C = "direct_client base32_decode (ap_hmac (demo_app_deps\<lparr>ap_auth := auth\<rparr>)) client_svc ''http://s'' (\<lambda>_. 119)"
  have A: "?A = client_app\<lparr>ap_auth := auth\<rparr>" by (simp add: client_app_def over_wire_def demo_app_deps_def)
  have code: "client_totp_code ?C ?c client_start = (Ok ''000003'', client_start)"
    using demo_totp_code [of "[0, 0]"]
    by (simp add: client_totp_code_def direct_client_def plain_secret demo_app_deps_def)
  have "decided ?A Totp (direct_request ''DELETE'' ''/tokens/u0'' [(''X-TOTP-Code'', ''000003''), (''Host'', ISSUER_HOST)] [])
      (aw_world client_start) = (Ok True, utc_tick (aw_world client_start))"
    by (rule client_code_accepted [OF direct_link _ _ _ _ _ _ _ code direct_headers(1) refl, of plain_env "[0, 0]"])
      (use auth demo_hmac_bytes in \<open>simp_all add: over_wire_def demo_app_deps_def plain_env_def plain_secret
        direct_client_def client_start_def utc_now_def demo_world_def\<close>)
  then show ?thesis unfolding A by blast
qed

end
