(* ===== verification/Test_Support.thy ===== *)
theory Test_Support
  imports Rate_Limit Auth Server_Config
begin

text \<open>
  What the theories of the repository's own tests share: the parts of the test libraries they call, and
  facts that let the simplifier evaluate the string operations on literals: the bytes of the printable
  ASCII characters, and forms of \<open>trim\<close> and of the splitting into characters that need no search for
  character boundaries. They are collected in \<open>runs\<close>.
\<close>

named_theorems runs \<open>evaluation of string operations on literals\<close>

lemma byte_of_ascii [runs]:
  "byte_of CHR '' '' = 32" "byte_of CHR ''!'' = 33" "byte_of CHR ''#'' = 35" "byte_of CHR ''$'' = 36"
  "byte_of CHR ''%'' = 37" "byte_of CHR ''&'' = 38" "byte_of CHR ''('' = 40" "byte_of CHR '')'' = 41"
  "byte_of CHR ''*'' = 42" "byte_of CHR ''+'' = 43" "byte_of CHR '','' = 44" "byte_of CHR ''-'' = 45"
  "byte_of CHR ''.'' = 46" "byte_of CHR ''/'' = 47" "byte_of CHR ''0'' = 48" "byte_of CHR ''1'' = 49"
  "byte_of CHR ''2'' = 50" "byte_of CHR ''3'' = 51" "byte_of CHR ''4'' = 52" "byte_of CHR ''5'' = 53"
  "byte_of CHR ''6'' = 54" "byte_of CHR ''7'' = 55" "byte_of CHR ''8'' = 56" "byte_of CHR ''9'' = 57"
  "byte_of CHR '':'' = 58" "byte_of CHR '';'' = 59" "byte_of CHR ''<'' = 60" "byte_of CHR ''='' = 61"
  "byte_of CHR ''>'' = 62" "byte_of CHR ''?'' = 63" "byte_of CHR ''@'' = 64" "byte_of CHR ''A'' = 65"
  "byte_of CHR ''B'' = 66" "byte_of CHR ''C'' = 67" "byte_of CHR ''D'' = 68" "byte_of CHR ''E'' = 69"
  "byte_of CHR ''F'' = 70" "byte_of CHR ''G'' = 71" "byte_of CHR ''H'' = 72" "byte_of CHR ''I'' = 73"
  "byte_of CHR ''J'' = 74" "byte_of CHR ''K'' = 75" "byte_of CHR ''L'' = 76" "byte_of CHR ''M'' = 77"
  "byte_of CHR ''N'' = 78" "byte_of CHR ''O'' = 79" "byte_of CHR ''P'' = 80" "byte_of CHR ''Q'' = 81"
  "byte_of CHR ''R'' = 82" "byte_of CHR ''S'' = 83" "byte_of CHR ''T'' = 84" "byte_of CHR ''U'' = 85"
  "byte_of CHR ''V'' = 86" "byte_of CHR ''W'' = 87" "byte_of CHR ''X'' = 88" "byte_of CHR ''Y'' = 89"
  "byte_of CHR ''Z'' = 90" "byte_of CHR ''['' = 91" "byte_of CHR '']'' = 93" "byte_of CHR ''^'' = 94"
  "byte_of CHR ''_'' = 95" "byte_of CHR ''a'' = 97" "byte_of CHR ''b'' = 98" "byte_of CHR ''c'' = 99"
  "byte_of CHR ''d'' = 100" "byte_of CHR ''e'' = 101" "byte_of CHR ''f'' = 102" "byte_of CHR ''g'' = 103"
  "byte_of CHR ''h'' = 104" "byte_of CHR ''i'' = 105" "byte_of CHR ''j'' = 106" "byte_of CHR ''k'' = 107"
  "byte_of CHR ''l'' = 108" "byte_of CHR ''m'' = 109" "byte_of CHR ''n'' = 110" "byte_of CHR ''o'' = 111"
  "byte_of CHR ''p'' = 112" "byte_of CHR ''q'' = 113" "byte_of CHR ''r'' = 114" "byte_of CHR ''s'' = 115"
  "byte_of CHR ''t'' = 116" "byte_of CHR ''u'' = 117" "byte_of CHR ''v'' = 118" "byte_of CHR ''w'' = 119"
  "byte_of CHR ''x'' = 120" "byte_of CHR ''y'' = 121" "byte_of CHR ''z'' = 122" "byte_of CHR ''{'' = 123"
  "byte_of CHR ''|'' = 124" "byte_of CHR ''}'' = 125" "byte_of CHR ''~'' = 126"
  "byte_of (CHR 0x09) = 9" "byte_of (CHR 0x0A) = 10" "byte_of (CHR 0x0D) = 13" "byte_of (CHR 0x22) = 34" "byte_of (CHR 0x27) = 39" "byte_of (CHR 0x80) = 128"
  "byte_of (CHR 0x94) = 148" "byte_of (CHR 0xE2) = 226"
  by (simp_all add: byte_of_def)

lemma char_of_ascii [runs]:
  "char_of (32 :: nat) = CHR '' ''" "char_of (33 :: nat) = CHR ''!''" "char_of (35 :: nat) = CHR ''#''"
  "char_of (36 :: nat) = CHR ''$''" "char_of (37 :: nat) = CHR ''%''" "char_of (38 :: nat) = CHR ''&''"
  "char_of (40 :: nat) = CHR ''(''" "char_of (41 :: nat) = CHR '')''" "char_of (42 :: nat) = CHR ''*''"
  "char_of (43 :: nat) = CHR ''+''" "char_of (44 :: nat) = CHR '',''" "char_of (45 :: nat) = CHR ''-''"
  "char_of (46 :: nat) = CHR ''.''" "char_of (47 :: nat) = CHR ''/''" "char_of (48 :: nat) = CHR ''0''"
  "char_of (49 :: nat) = CHR ''1''" "char_of (50 :: nat) = CHR ''2''" "char_of (51 :: nat) = CHR ''3''"
  "char_of (52 :: nat) = CHR ''4''" "char_of (53 :: nat) = CHR ''5''" "char_of (54 :: nat) = CHR ''6''"
  "char_of (55 :: nat) = CHR ''7''" "char_of (56 :: nat) = CHR ''8''" "char_of (57 :: nat) = CHR ''9''"
  "char_of (58 :: nat) = CHR '':''" "char_of (59 :: nat) = CHR '';''" "char_of (60 :: nat) = CHR ''<''"
  "char_of (61 :: nat) = CHR ''=''" "char_of (62 :: nat) = CHR ''>''" "char_of (63 :: nat) = CHR ''?''"
  "char_of (64 :: nat) = CHR ''@''" "char_of (65 :: nat) = CHR ''A''" "char_of (66 :: nat) = CHR ''B''"
  "char_of (67 :: nat) = CHR ''C''" "char_of (68 :: nat) = CHR ''D''" "char_of (69 :: nat) = CHR ''E''"
  "char_of (70 :: nat) = CHR ''F''" "char_of (71 :: nat) = CHR ''G''" "char_of (72 :: nat) = CHR ''H''"
  "char_of (73 :: nat) = CHR ''I''" "char_of (74 :: nat) = CHR ''J''" "char_of (75 :: nat) = CHR ''K''"
  "char_of (76 :: nat) = CHR ''L''" "char_of (77 :: nat) = CHR ''M''" "char_of (78 :: nat) = CHR ''N''"
  "char_of (79 :: nat) = CHR ''O''" "char_of (80 :: nat) = CHR ''P''" "char_of (81 :: nat) = CHR ''Q''"
  "char_of (82 :: nat) = CHR ''R''" "char_of (83 :: nat) = CHR ''S''" "char_of (84 :: nat) = CHR ''T''"
  "char_of (85 :: nat) = CHR ''U''" "char_of (86 :: nat) = CHR ''V''" "char_of (87 :: nat) = CHR ''W''"
  "char_of (88 :: nat) = CHR ''X''" "char_of (89 :: nat) = CHR ''Y''" "char_of (90 :: nat) = CHR ''Z''"
  "char_of (91 :: nat) = CHR ''[''" "char_of (93 :: nat) = CHR '']''" "char_of (94 :: nat) = CHR ''^''"
  "char_of (95 :: nat) = CHR ''_''" "char_of (97 :: nat) = CHR ''a''" "char_of (98 :: nat) = CHR ''b''"
  "char_of (99 :: nat) = CHR ''c''" "char_of (100 :: nat) = CHR ''d''" "char_of (101 :: nat) = CHR ''e''"
  "char_of (102 :: nat) = CHR ''f''" "char_of (103 :: nat) = CHR ''g''" "char_of (104 :: nat) = CHR ''h''"
  "char_of (105 :: nat) = CHR ''i''" "char_of (106 :: nat) = CHR ''j''" "char_of (107 :: nat) = CHR ''k''"
  "char_of (108 :: nat) = CHR ''l''" "char_of (109 :: nat) = CHR ''m''" "char_of (110 :: nat) = CHR ''n''"
  "char_of (111 :: nat) = CHR ''o''" "char_of (112 :: nat) = CHR ''p''" "char_of (113 :: nat) = CHR ''q''"
  "char_of (114 :: nat) = CHR ''r''" "char_of (115 :: nat) = CHR ''s''" "char_of (116 :: nat) = CHR ''t''"
  "char_of (117 :: nat) = CHR ''u''" "char_of (118 :: nat) = CHR ''v''" "char_of (119 :: nat) = CHR ''w''"
  "char_of (120 :: nat) = CHR ''x''" "char_of (121 :: nat) = CHR ''y''" "char_of (122 :: nat) = CHR ''z''"
  "char_of (123 :: nat) = CHR ''{''" "char_of (124 :: nat) = CHR ''|''" "char_of (125 :: nat) = CHR ''}''"
  "char_of (126 :: nat) = CHR ''~''"
  "char_of (9 :: nat) = CHR 0x09" "char_of (10 :: nat) = CHR 0x0A" "char_of (13 :: nat) = CHR 0x0D" "char_of (34 :: nat) = CHR 0x22" "char_of (39 :: nat) = CHR 0x27" "char_of (128 :: nat) = CHR 0x80"
  "char_of (148 :: nat) = CHR 0x94" "char_of (226 :: nat) = CHR 0xE2"
  by (simp_all add: char_of_def bit_iff_odd)

text \<open>\<open>trim\<close> on ASCII works byte by byte.\<close>

definition space :: "char \<Rightarrow> bool" where
  "space c \<longleftrightarrow> whitespace_code (byte_of c)"

lemma space_run [runs]: "space c = (let b = byte_of c in (9 \<le> b \<and> b \<le> 13) \<or> b = 32 \<or> b = 133 \<or> b = 160)"
  unfolding space_def whitespace_code_def Let_def using byte_of_less [of c] by presburger

lemma is_whitespace_run [runs]: "is_whitespace [c] = space c"
  by (simp add: is_whitespace_def space_def)

lemma trim_run [runs]:
  assumes "list_all is_ascii s"
  shows "trim s = rev (dropWhile space (rev (dropWhile space s)))"
proof -
  have d: "dropWhile is_whitespace (map (\<lambda>c. [c]) t) = map (\<lambda>c. [c]) (dropWhile space t)" for t
    by (simp add: dropWhile_map comp_def is_whitespace_run)
  show ?thesis by (simp only: trim_def split_chars_ascii [OF assms] d rev_map concat_map_singleton map_ident)
qed

lemmas [runs] = is_ascii_def is_cont_def split_chars_ascii ascii_lower_def ascii_upper_def to_ascii_lowercase_def
  to_ascii_uppercase_def eq_ignore_ascii_case_def parse_unsigned_def parse_dec_def strip_plus_def is_digit_def
  digit_val_def parse_u64_def parse_u32_def parse_i64_def

section \<open>The test libraries\<close>

text \<open>\<open>str::contains\<close>.\<close>

fun contains :: "string \<Rightarrow> string \<Rightarrow> bool" where
  "contains [] pat = (pat = [])"
| "contains (c # cs) pat = (take (length pat) (c # cs) = pat \<or> contains cs pat)"

text \<open>A header value of visible ASCII, and \<open>HeaderMap::insert\<close> into an empty map.\<close>

definition text_value :: "string \<Rightarrow> header_value" where
  "text_value s = \<lparr>hv_bytes = s, hv_text = Some s\<rparr>"

definition headers_with :: "string \<Rightarrow> string \<Rightarrow> headers" where
  "headers_with name v = [(to_ascii_lowercase name, text_value v)]"

lemma header_get_with: "header_get (headers_with name v) name' =
    (if to_ascii_lowercase name = to_ascii_lowercase name' then Some (text_value v) else None)"
  by (simp add: header_get_def headers_with_def)

lemma text_value_simps [simp]: "hv_bytes (text_value v) = v" "hv_text (text_value v) = Some v"
  by (simp_all add: text_value_def)

text \<open>\<open>test::call_service\<close> on one request after the other, with the status and headers of each answer.\<close>

fun call_all ::
  "('v, 'w) service \<Rightarrow> request list \<Rightarrow> 'w \<Rightarrow> (nat \<times> (string \<times> string) list) option list" where
  "call_all app [] a = []"
| "call_all app (r # rs) a =
     (case app r a of
        (Ok resp, a') \<Rightarrow> Some (rs_status resp, rs_headers resp) # call_all app rs a'
      | (_, a') \<Rightarrow> None # call_all app rs a')"

definition statuses :: "('v, 'w) service \<Rightarrow> request list \<Rightarrow> 'w \<Rightarrow> nat option list" where
  "statuses app rs a = map (map_option fst) (call_all app rs a)"

definition body_ok :: "(unit, 'w) service" where
  "body_ok r a = (Ok (respond 200 (TextBody ''text/plain; charset=utf-8'' ''ok'')), a)"

end
