(* ===== verification/Test_Stores.thy ===== *)
theory Test_Stores
  imports Jti_Store
begin

text \<open>
  The stores the repository's tests put in the place of Redis, each an implementation of the trait
  \<open>JtiStore\<close>: a \<open>HashSet\<close> is a set, a \<open>HashMap\<close> a map, what is behind a mutex is the state. None of
  them knows time, so nothing expires.
\<close>

section \<open>The stores in memory\<close>

record mock_state =
  ms_jtis :: "string set"
  ms_groups :: "string \<Rightarrow> string set option"
  ms_refreshes :: "string \<Rightarrow> (refresh_record \<times> bool) option"
  ms_codes :: "string set"

definition mock_new :: mock_state where
  "mock_new = \<lparr>ms_jtis = {}, ms_groups = \<lambda>_. None, ms_refreshes = \<lambda>_. None, ms_codes = {}\<rparr>"

text \<open>\<open>get(key).unwrap_or_default()\<close> on a map of sets.\<close>

definition members_of :: "mock_state \<Rightarrow> string \<Rightarrow> string set" where
  "members_of m g = (case ms_groups m g of None \<Rightarrow> {} | Some s \<Rightarrow> s)"

definition mock_mark :: "string \<Rightarrow> mock_state \<Rightarrow> (jti_error + bool) \<times> mock_state" where
  "mock_mark i m =
     (case ms_refreshes m i of
        Some (_, True) \<Rightarrow> (Inr False, m)
      | Some (rec, False) \<Rightarrow> (Inr True, m\<lparr>ms_refreshes := (ms_refreshes m)(i \<mapsto> (rec, True))\<rparr>)
      | None \<Rightarrow> (Inr False, m))"

text \<open>\<open>MockStore\<close> of the tests of \<open>models/jwt.rs\<close>: it counts the identifiers it removed.\<close>

definition mock_store :: "mock_state jti_store" where
  "mock_store =
     \<lparr>js_ping = \<lambda>m. (Inr (), m),
      js_store_jti = \<lambda>jti ttl m. (Inr (), m\<lparr>ms_jtis := insert jti (ms_jtis m)\<rparr>),
      js_check_jti = \<lambda>jti m. (Inr (jti \<in> ms_jtis m), m),
      js_delete_jti = \<lambda>jti m. (Inr (), m\<lparr>ms_jtis := ms_jtis m - {jti}\<rparr>),
      js_add_to_group = \<lambda>g jti expires_at m.
        (Inr (), m\<lparr>ms_groups := (ms_groups m)(g \<mapsto> insert jti (members_of m g))\<rparr>),
      js_revoke_group = \<lambda>g m.
        (Inr (of_nat (card (members_of m g \<inter> ms_jtis m))),
         m\<lparr>ms_groups := (ms_groups m)(g := None), ms_jtis := ms_jtis m - members_of m g\<rparr>),
      js_store_refresh = \<lambda>i rec ttl m. (Inr (), m\<lparr>ms_refreshes := (ms_refreshes m)(i \<mapsto> (rec, False))\<rparr>),
      js_get_refresh = \<lambda>i m. (Inr (map_option fst (ms_refreshes m i)), m),
      js_mark_refresh_used = mock_mark,
      js_claim_totp_code = \<lambda>hash ttl m. (Inr True, m)\<rparr>"

text \<open>
  \<open>MockStore\<close> of the tests of \<open>handlers.rs\<close>: a bulk revocation also removes the refresh records that the
  group names by their key, and the codes that were presented are remembered.
\<close>

definition http_mock_revoke :: "string \<Rightarrow> mock_state \<Rightarrow> (jti_error + u64) \<times> mock_state" where
  "http_mock_revoke g m =
     (let members = members_of m g;
          gone = {i. refresh_key i \<in> members} in
      (Inr (of_nat (card {x \<in> members. x \<in> ms_jtis m \<or> (\<exists>i. x = refresh_key i \<and> ms_refreshes m i \<noteq> None)})),
       m\<lparr>ms_groups := (ms_groups m)(g := None), ms_jtis := ms_jtis m - members,
         ms_refreshes := (\<lambda>i. if i \<in> gone then None else ms_refreshes m i)\<rparr>))"

definition http_mock_store :: "mock_state jti_store" where
  "http_mock_store = mock_store
     \<lparr>js_revoke_group := http_mock_revoke,
      js_claim_totp_code := \<lambda>hash ttl m. (Inr (hash \<notin> ms_codes m), m\<lparr>ms_codes := insert hash (ms_codes m)\<rparr>)\<rparr>"

text \<open>\<open>StubStore\<close> of the tests of \<open>main.rs\<close>: a bulk revocation drops the index and keeps the identifiers.\<close>

definition stub_store :: "mock_state jti_store" where
  "stub_store = mock_store
     \<lparr>js_revoke_group := \<lambda>g m.
        (Inr (of_nat (card (members_of m g))), m\<lparr>ms_groups := (ms_groups m)(g := None)\<rparr>),
      js_store_refresh := \<lambda>i rec ttl m. (Inr (), m),
      js_get_refresh := \<lambda>i m. (Inr None, m),
      js_mark_refresh_used := \<lambda>i m. (Inr False, m)\<rparr>"

text \<open>\<open>NoopStore\<close> of the tests of \<open>auth.rs\<close>: only the claim of a code does something.\<close>

definition noop_store :: "bool \<Rightarrow> string set jti_store" where
  "noop_store unavailable =
     \<lparr>js_ping = \<lambda>u. (Inr (), u),
      js_store_jti = \<lambda>jti ttl u. (Inr (), u),
      js_check_jti = \<lambda>jti u. (Inr True, u),
      js_delete_jti = \<lambda>jti u. (Inr (), u),
      js_add_to_group = \<lambda>g jti expires_at u. (Inr (), u),
      js_revoke_group = \<lambda>g u. (Inr 0, u),
      js_store_refresh = \<lambda>i rec ttl u. (Inr (), u),
      js_get_refresh = \<lambda>i u. (Inr None, u),
      js_mark_refresh_used = \<lambda>i u. (Inr True, u),
      js_claim_totp_code = \<lambda>hash ttl u.
        (if unavailable then (Inl JtiBadConnection, u) else (Inr (hash \<notin> u), insert hash u))\<rparr>"

text \<open>\<open>StoreWithRefresh\<close> of the tests of \<open>jwt.rs\<close>: one record, and the identifiers that were marked.\<close>

record refresh_state =
  fs_records :: "string \<Rightarrow> refresh_record option"
  fs_used :: "string list"

definition store_with_refresh_new :: "string \<Rightarrow> refresh_state" where
  "store_with_refresh_new i =
     \<lparr>fs_records = [i \<mapsto> \<lparr>rr_subject = ''user1'', rr_audience = [''api1''], rr_family = ''family-1''\<rparr>], fs_used = []\<rparr>"

definition store_with_refresh :: "bool \<Rightarrow> refresh_state jti_store" where
  "store_with_refresh fail_mark =
     \<lparr>js_ping = \<lambda>s. (Inr (), s),
      js_store_jti = \<lambda>jti ttl s. (Inr (), s),
      js_check_jti = \<lambda>jti s. (Inr True, s),
      js_delete_jti = \<lambda>jti s. (Inr (), s),
      js_add_to_group = \<lambda>g jti expires_at s. (Inr (), s),
      js_revoke_group = \<lambda>g s. (Inr 0, s),
      js_store_refresh = \<lambda>i rec ttl s. (Inr (), s),
      js_get_refresh = \<lambda>i s. (Inr (fs_records s i), s),
      js_mark_refresh_used = \<lambda>i s.
        (if fail_mark then (Inl JtiBadConnection, s)
         else if list_ex (\<lambda>u. u = i) (fs_used s) then (Inr False, s)
         else (Inr True, s\<lparr>fs_used := fs_used s @ [i]\<rparr>)),
      js_claim_totp_code = \<lambda>hash ttl s. (Inr True, s)\<rparr>"

section \<open>The stores that fail\<close>

text \<open>\<open>FailingStore\<close> (\<open>models/jwt.rs\<close>) and \<open>UnavailableStore\<close> (\<open>handlers.rs\<close>).\<close>

definition failing_with :: "jti_error \<Rightarrow> 's jti_store" where
  "failing_with err =
     \<lparr>js_ping = \<lambda>s. (Inl err, s),
      js_store_jti = \<lambda>jti ttl s. (Inl err, s),
      js_check_jti = \<lambda>jti s. (Inl err, s),
      js_delete_jti = \<lambda>jti s. (Inl err, s),
      js_add_to_group = \<lambda>g jti expires_at s. (Inl err, s),
      js_revoke_group = \<lambda>g s. (Inl err, s),
      js_store_refresh = \<lambda>i rec ttl s. (Inl err, s),
      js_get_refresh = \<lambda>i s. (Inl err, s),
      js_mark_refresh_used = \<lambda>i s. (Inl err, s),
      js_claim_totp_code = \<lambda>hash ttl s. (Inl err, s)\<rparr>"

definition failing_store :: "unit jti_store" where
  "failing_store = failing_with JtiBadConnection"

definition unavailable_store :: "unit jti_store" where
  "unavailable_store = failing_with JtiBadConnection"

text \<open>\<open>FailingGroupStore\<close>: the identifier can be written, the index cannot.\<close>

definition failing_group_store :: "string set jti_store" where
  "failing_group_store = (failing_with JtiWrongOperation)
     \<lparr>js_ping := \<lambda>s. (Inr (), s),
      js_store_jti := \<lambda>jti ttl s. (Inr (), insert jti s),
      js_check_jti := \<lambda>jti s. (Inr (jti \<in> s), s),
      js_delete_jti := \<lambda>jti s. (Inr (), s - {jti})\<rparr>"

section \<open>What they do\<close>

lemma mock_store_simps [simp]:
  "js_ping mock_store = (\<lambda>m. (Inr (), m))"
  "js_store_jti mock_store jti ttl m = (Inr (), m\<lparr>ms_jtis := insert jti (ms_jtis m)\<rparr>)"
  "js_check_jti mock_store jti m = (Inr (jti \<in> ms_jtis m), m)"
  "js_delete_jti mock_store jti m = (Inr (), m\<lparr>ms_jtis := ms_jtis m - {jti}\<rparr>)"
  "js_add_to_group mock_store g jti e m = (Inr (), m\<lparr>ms_groups := (ms_groups m)(g \<mapsto> insert jti (members_of m g))\<rparr>)"
  "js_store_refresh mock_store i rec ttl m = (Inr (), m\<lparr>ms_refreshes := (ms_refreshes m)(i \<mapsto> (rec, False))\<rparr>)"
  "js_get_refresh mock_store i m = (Inr (map_option fst (ms_refreshes m i)), m)"
  "js_mark_refresh_used mock_store = mock_mark"
  by (simp_all add: mock_store_def)

lemma http_mock_store_simps [simp]:
  "js_ping http_mock_store = (\<lambda>m. (Inr (), m))"
  "js_store_jti http_mock_store jti ttl m = (Inr (), m\<lparr>ms_jtis := insert jti (ms_jtis m)\<rparr>)"
  "js_check_jti http_mock_store jti m = (Inr (jti \<in> ms_jtis m), m)"
  "js_delete_jti http_mock_store jti m = (Inr (), m\<lparr>ms_jtis := ms_jtis m - {jti}\<rparr>)"
  "js_add_to_group http_mock_store g jti e m = (Inr (), m\<lparr>ms_groups := (ms_groups m)(g \<mapsto> insert jti (members_of m g))\<rparr>)"
  "js_revoke_group http_mock_store = http_mock_revoke"
  "js_store_refresh http_mock_store i rec ttl m = (Inr (), m\<lparr>ms_refreshes := (ms_refreshes m)(i \<mapsto> (rec, False))\<rparr>)"
  "js_get_refresh http_mock_store i m = (Inr (map_option fst (ms_refreshes m i)), m)"
  "js_mark_refresh_used http_mock_store = mock_mark"
  "js_claim_totp_code http_mock_store h ttl m = (Inr (h \<notin> ms_codes m), m\<lparr>ms_codes := insert h (ms_codes m)\<rparr>)"
  by (simp_all add: http_mock_store_def)

lemma noop_store_simps [simp]:
  "js_claim_totp_code (noop_store un) h ttl u =
     (if un then (Inl JtiBadConnection, u) else (Inr (h \<notin> u), insert h u))"
  by (simp add: noop_store_def)

lemma failing_group_store_simps [simp]:
  "js_store_jti failing_group_store jti ttl s = (Inr (), insert jti s)"
  "js_add_to_group failing_group_store g jti e s = (Inl JtiWrongOperation, s)"
  by (simp_all add: failing_group_store_def failing_with_def)

lemma failing_store_simps [simp]:
  "js_ping (failing_with err) s = (Inl err, s)"
  "js_store_jti (failing_with err) jti ttl s = (Inl err, s)"
  "js_delete_jti (failing_with err) jti s = (Inl err, s)"
  "js_revoke_group (failing_with err) g s = (Inl err, s)"
  by (simp_all add: failing_with_def)

end
