(* ===== verification/Unit_Tests.thy ===== *)
theory Unit_Tests
  imports Complex_Main Test_Support Models Issuer Server_Config Request_Log Telemetry Metrics
begin

text \<open>
  The unit tests of the repository on the model, a definition per test with its assertions as they are
  written, and a proof that it passes: the model answers what the authors of the code expect of it.
  Here those of \<open>error.rs\<close>, \<open>issuer.rs\<close>, \<open>server.rs\<close>, \<open>logging.rs\<close>, \<open>metrics.rs\<close>, \<open>tracing_otel.rs\<close>
  and \<open>sentry_glitchtip.rs\<close>. The environment a test sets up is an argument of what reads it, so the
  locks that keep tests apart have no counterpart.
\<close>

section \<open>Errors\<close>

text \<open>\<open>render\<close> parses the body back; only an error body parses.\<close>

definition render :: "app_error \<Rightarrow> nat \<times> error_response option" where
  "render err =
     (let resp = app_error_response err :: unit response in
      (rs_status resp, case rs_body resp of ErrorBody b \<Rightarrow> Some b | _ \<Rightarrow> None))"

definition answers :: "app_error \<Rightarrow> nat \<Rightarrow> string \<Rightarrow> bool" where
  "answers err status text =
     (case render err of (st, Some body) \<Rightarrow> st = status \<and> er_error body = text | _ \<Rightarrow> False)"

definition validation_maps_to_400_with_message :: bool where
  "validation_maps_to_400_with_message \<longleftrightarrow>
     answers (Validation ''Missing Host header'') 400 ''Missing Host header'' \<and>
     map_option er_details (snd (render (Validation ''Missing Host header''))) = Some None"

definition unprocessable_maps_to_422_with_message :: bool where
  "unprocessable_maps_to_422_with_message \<longleftrightarrow>
     answers (Unprocessable ''Invalid token request parameters'') 422 ''Invalid token request parameters''"

definition unauthorized_maps_to_401_with_message :: bool where
  "unauthorized_maps_to_401_with_message \<longleftrightarrow>
     answers (Unauthorized ''Invalid or expired token'') 401 ''Invalid or expired token''"

definition forbidden_maps_to_403_with_message :: bool where
  "forbidden_maps_to_403_with_message \<longleftrightarrow> answers (Forbidden ''Issuer not allowed'') 403 ''Issuer not allowed''"

definition not_found_maps_to_404_with_message :: bool where
  "not_found_maps_to_404_with_message \<longleftrightarrow> answers (NotFound ''Token not found'') 404 ''Token not found''"

definition internal_maps_to_500_without_leaking_details :: bool where
  "internal_maps_to_500_without_leaking_details \<longleftrightarrow>
     answers (Internal ''redis://secret-dsn'') 500 ''Internal server error'' \<and>
     map_option (\<lambda>b. contains (er_error b) ''secret'') (snd (render (Internal ''redis://secret-dsn''))) = Some False"

definition store_error_maps_to_500_generic :: bool where
  "store_error_maps_to_500_generic \<longleftrightarrow> answers (AppStore JtiBadConnection) 500 ''Internal server error''"

definition jwt_error_maps_to_500_generic :: bool where
  "jwt_error_maps_to_500_generic \<longleftrightarrow> answers (AppJwt BadSignature) 500 ''Internal server error''"

lemma error_tests:
  validation_maps_to_400_with_message
  unprocessable_maps_to_422_with_message
  unauthorized_maps_to_401_with_message
  forbidden_maps_to_403_with_message
  not_found_maps_to_404_with_message
  internal_maps_to_500_without_leaking_details
  store_error_maps_to_500_generic
  jwt_error_maps_to_500_generic
  by (simp_all add: runs
      validation_maps_to_400_with_message_def unprocessable_maps_to_422_with_message_def
      unauthorized_maps_to_401_with_message_def forbidden_maps_to_403_with_message_def
      not_found_maps_to_404_with_message_def internal_maps_to_500_without_leaking_details_def
      store_error_maps_to_500_generic_def jwt_error_maps_to_500_generic_def answers_def render_def
      error_response_new_def)

section \<open>The allowlist of issuers\<close>

definition empty_allowlist_allows_any_host :: bool where
  "empty_allowlist_allows_any_host \<longleftrightarrow>
     allowed_by (issuer_parse '''') ''example.com'' \<and>
     allowed_by (issuer_parse '''') ''evil.example.net'' \<and>
     allowed_by (issuer_parse '' , ,'') ''example.com''"

definition allowlist_accepts_listed_and_rejects_others :: bool where
  "allowlist_accepts_listed_and_rejects_others \<longleftrightarrow>
     (let allowed = issuer_parse ''a.example.com, b.example.com'' in
      allowed_by allowed ''a.example.com'' \<and> allowed_by allowed ''b.example.com'' \<and>
      \<not> allowed_by allowed ''c.example.com'')"

definition matching_is_case_insensitive_but_port_sensitive :: bool where
  "matching_is_case_insensitive_but_port_sensitive \<longleftrightarrow>
     (let allowed = issuer_parse ''A.Example.COM, b.example.com:8443'' in
      allowed_by allowed ''a.example.com'' \<and> allowed_by allowed ''A.EXAMPLE.COM'' \<and>
      allowed_by allowed ''b.example.com:8443'' \<and> \<not> allowed_by allowed ''a.example.com:8443'' \<and>
      \<not> allowed_by allowed ''b.example.com'')"

lemma issuer_tests:
  empty_allowlist_allows_any_host
  allowlist_accepts_listed_and_rejects_others
  matching_is_case_insensitive_but_port_sensitive
  by (simp_all add: runs
      empty_allowlist_allows_any_host_def allowlist_accepts_listed_and_rejects_others_def
      matching_is_case_insensitive_but_port_sensitive_def allowed_by_def issuer_parse_def 
      )

section \<open>Server parameters\<close>

definition parse_workers_takes_explicit_value :: bool where
  "parse_workers_takes_explicit_value \<longleftrightarrow>
     parse_workers (Some ''2'') = Some 2 \<and> parse_workers (Some '' 16 '') = Some 16"

definition parse_workers_falls_back_to_auto :: bool where
  "parse_workers_falls_back_to_auto \<longleftrightarrow>
     parse_workers None = None \<and> parse_workers (Some '''') = None \<and> parse_workers (Some ''auto'') = None \<and>
     parse_workers (Some ''AUTO'') = None \<and> parse_workers (Some ''0'') = None \<and>
     parse_workers (Some ''two of them'') = None"

text \<open>On these small numbers the rounding up of the \<open>f64\<close> quotient is exact.\<close>

definition exact_ceil :: "int \<times> int \<Rightarrow> u64" where
  "exact_ceil cores = (case cores of (q, p) \<Rightarrow> of_int ((q + p - 1) div p))"

definition auto_workers_uses_quota :: bool where
  "auto_workers_uses_quota \<longleftrightarrow>
     auto_workers exact_ceil (Some (20, 10)) 64 = (2, Quota) \<and>
     auto_workers exact_ceil (Some (5, 10)) 64 = (1, Quota) \<and>
     auto_workers exact_ceil (Some (15, 10)) 64 = (2, Quota)"

definition auto_workers_caps_quota_by_parallelism :: bool where
  "auto_workers_caps_quota_by_parallelism \<longleftrightarrow> auto_workers exact_ceil (Some (320, 10)) 4 = (4, Quota)"

definition auto_workers_without_quota_ignores_host_cores :: bool where
  "auto_workers_without_quota_ignores_host_cores \<longleftrightarrow>
     auto_workers exact_ceil None 64 = (DEFAULT_MAX_WORKERS, Fallback) \<and>
     auto_workers exact_ceil None 2 = (2, Fallback) \<and>
     auto_workers exact_ceil None 0 = (1, Fallback)"

definition parse_u64_takes_explicit_value :: bool where
  "parse_u64_takes_explicit_value \<longleftrightarrow>
     server_parse_u64 (Some ''10'') 25 = 10 \<and> server_parse_u64 (Some '' 0 '') 25 = 0"

definition parse_u64_falls_back_to_default :: bool where
  "parse_u64_falls_back_to_default \<longleftrightarrow>
     server_parse_u64 None 25 = 25 \<and> server_parse_u64 (Some '''') 25 = 25 \<and>
     server_parse_u64 (Some ''   '') 25 = 25 \<and> server_parse_u64 (Some ''half a minute'') 25 = 25 \<and>
     server_parse_u64 (Some ''-1'') 25 = 25"

text \<open>The quotient of a quota, which the source compares as a double.\<close>

definition cores_of :: "(int \<times> int) option \<Rightarrow> rat option" where
  "cores_of = map_option (\<lambda>(q, p). of_int q / of_int p)"

definition newline :: string where
  "newline = [CHR 0x0A]"

definition parse_cpu_max_reads_quota :: bool where
  "parse_cpu_max_reads_quota \<longleftrightarrow>
     cores_of (parse_cpu_max (''150000 100000'' @ newline)) = Some (3/2) \<and>
     cores_of (parse_cpu_max ''200000 100000'') = Some 2"

definition parse_cpu_max_without_quota :: bool where
  "parse_cpu_max_without_quota \<longleftrightarrow>
     parse_cpu_max (''max 100000'' @ newline) = None \<and> parse_cpu_max '''' = None \<and>
     parse_cpu_max ''100000'' = None \<and> parse_cpu_max ''garbage 100000'' = None"

definition parse_cfs_quota_v1 :: bool where
  "parse_cfs_quota_v1 \<longleftrightarrow>
     cores_of (parse_cfs_quota (''100000'' @ newline) (''100000'' @ newline)) = Some 1 \<and>
     parse_cfs_quota ''-1'' ''100000'' = None \<and> parse_cfs_quota ''100000'' ''0'' = None"

lemma server_tests:
  parse_workers_takes_explicit_value
  parse_workers_falls_back_to_auto
  auto_workers_uses_quota
  auto_workers_caps_quota_by_parallelism
  auto_workers_without_quota_ignores_host_cores
  parse_u64_takes_explicit_value
  parse_u64_falls_back_to_default
  parse_cpu_max_reads_quota
  parse_cpu_max_without_quota
  parse_cfs_quota_v1
  by (simp_all add: runs
      parse_workers_takes_explicit_value_def parse_workers_falls_back_to_auto_def auto_workers_uses_quota_def
      auto_workers_caps_quota_by_parallelism_def auto_workers_without_quota_ignores_host_cores_def
      parse_u64_takes_explicit_value_def parse_u64_falls_back_to_default_def parse_cpu_max_reads_quota_def
      parse_cpu_max_without_quota_def parse_cfs_quota_v1_def parse_workers_def 
      
      auto_workers_def exact_ceil_def DEFAULT_MAX_WORKERS_def server_parse_u64_def
      parse_cpu_max_def parse_cfs_quota_def split_whitespace_def cores_of_def newline_def)

section \<open>The grace periods of the deployment\<close>

definition strip_prefix :: "string \<Rightarrow> string \<Rightarrow> string option" where
  "strip_prefix pat s = (if take (length pat) s = pat then Some (drop (length pat) s) else None)"

definition trim_matches :: "char \<Rightarrow> string \<Rightarrow> string" where
  "trim_matches c s = rev (dropWhile (\<lambda>x. x = c) (rev (dropWhile (\<lambda>x. x = c) s)))"

definition trim_end_matches :: "char \<Rightarrow> string \<Rightarrow> string" where
  "trim_end_matches c s = rev (dropWhile (\<lambda>x. x = c) (rev s))"

definition quote :: char where
  "quote = CHR 0x22"

text \<open>The trimmed lines that are no comments.\<close>

definition manifest_lines :: "string \<Rightarrow> string list" where
  "manifest_lines manifest =
     filter (\<lambda>line. take 1 line \<noteq> ''#'') (map trim (split_on (CHR 0x0A) manifest))"

definition manifest_value :: "string \<Rightarrow> string \<Rightarrow> string option" where
  "manifest_value manifest key =
     (case List.map_filter (\<lambda>line. Option.bind (strip_prefix key line) (strip_prefix '':'')) (manifest_lines manifest) of
        [] \<Rightarrow> None
      | v # _ \<Rightarrow> Some (trim_matches quote (trim v)))"

definition env_value :: "string \<Rightarrow> string \<Rightarrow> string option" where
  "env_value manifest key =
     (case dropWhile (\<lambda>line. line \<noteq> ''- name: '' @ key) (manifest_lines manifest) of
        _ # line # _ \<Rightarrow> map_option (\<lambda>v. trim_matches quote (trim v)) (strip_prefix ''value:'' line)
      | _ \<Rightarrow> None)"

text \<open>The manifests are the test's \<open>include_str!\<close>; a missing key or number is a panic, so a failure.\<close>

definition shutdown_timeout_fits_into_grace_periods :: "string \<Rightarrow> string \<Rightarrow> bool" where
  "shutdown_timeout_fits_into_grace_periods k8s compose \<longleftrightarrow>
     (case (Option.bind (manifest_value k8s ''terminationGracePeriodSeconds'') parse_u64,
            Option.bind (manifest_value compose ''stop_grace_period'') (\<lambda>v. parse_u64 (trim_end_matches (CHR ''s'') v)),
            Option.bind (env_value k8s ''SERVER_SHUTDOWN_TIMEOUT_SECONDS'') parse_u64) of
        (Some grace, Some stop_grace, Some in_k8s) \<Rightarrow>
          DEFAULT_SHUTDOWN_TIMEOUT_SECONDS < grace \<and> DEFAULT_SHUTDOWN_TIMEOUT_SECONDS < stop_grace \<and>
          in_k8s = DEFAULT_SHUTDOWN_TIMEOUT_SECONDS
      | _ \<Rightarrow> False)"

text \<open>
  The lines of the manifests the test is about: 111 to 113, 242 and 243 of
  \<open>deployments/prod/k8s/deployment.yaml\<close> and 86 of \<open>deployments/prod/docker-compose.yml\<close>.
\<close>

definition k8s_lines :: string where
  "k8s_lines =
     ''            # one and recompute the other.'' @ newline @
     ''            - name: SERVER_SHUTDOWN_TIMEOUT_SECONDS'' @ newline @
     ''              value: '' @ [quote] @ ''25'' @ [quote] @ newline @
     ''      # after the server stops; change it here and change the variable too.'' @ newline @
     ''      terminationGracePeriodSeconds: 30'' @ newline"

definition compose_lines :: string where
  "compose_lines = ''    stop_grace_period: 30s'' @ newline"

lemma manifest_lines_split:
  "manifest_lines k8s_lines = [''- name: SERVER_SHUTDOWN_TIMEOUT_SECONDS'', ''value: '' @ [quote] @ ''25'' @ [quote],
     ''terminationGracePeriodSeconds: 30'', []]"
  "manifest_lines compose_lines = [''stop_grace_period: 30s'', []]"
  by (simp_all add: runs manifest_lines_def k8s_lines_def compose_lines_def newline_def quote_def)

lemma grace_period_tests: "shutdown_timeout_fits_into_grace_periods k8s_lines compose_lines"
  by (simp add: runs shutdown_timeout_fits_into_grace_periods_def manifest_value_def env_value_def
      manifest_lines_split newline_def quote_def
      strip_prefix_def trim_matches_def trim_end_matches_def DEFAULT_SHUTDOWN_TIMEOUT_SECONDS_def map_filter_simps)

section \<open>The request log\<close>

definition validates_request_id :: bool where
  "validates_request_id \<longleftrightarrow>
     is_valid_request_id ''abc-123_DEF'' \<and> \<not> is_valid_request_id '''' \<and> \<not> is_valid_request_id ''has space'' \<and>
     \<not> is_valid_request_id (''inject'' @ newline @ ''line'') \<and>
     \<not> is_valid_request_id (replicate (REQUEST_ID_MAX_LEN + 1) (CHR ''x''))"

text \<open>
  The test application: one route at the root, wrapped in the log, and a request with at most the one
  header. \<open>is_uuid\<close> is \<open>Uuid::parse_str(..).is_ok()\<close>.
\<close>

definition log_app :: "(unit, ('n, 's, 'g) app_world) service" where
  "log_app = request_log_call (\<lambda>_. Some ''/'') (\<lambda>_ a. (Ok (respond 200 NoBody), a))"

definition get_root :: "headers \<Rightarrow> request" where
  "get_root hs = \<lparr>rq_method = ''GET'', rq_path = ''/'', rq_headers = hs, rq_peer = None, rq_body = []\<rparr>"

definition answered_id :: "headers \<Rightarrow> ('n, 's, 'g) app_world \<Rightarrow> string option" where
  "answered_id hs a =
     (case log_app (get_root hs) a of (Ok res, _) \<Rightarrow> map_of (rs_headers res) REQUEST_ID_HEADER | _ \<Rightarrow> None)"

definition generates_request_id_when_absent :: "(string \<Rightarrow> bool) \<Rightarrow> ('n, 's, 'g) app_world \<Rightarrow> bool" where
  "generates_request_id_when_absent is_uuid a \<longleftrightarrow>
     (case answered_id [] a of Some rid \<Rightarrow> is_uuid rid | None \<Rightarrow> False)"

definition propagates_valid_incoming_request_id :: "('n, 's, 'g) app_world \<Rightarrow> bool" where
  "propagates_valid_incoming_request_id a \<longleftrightarrow>
     answered_id [(REQUEST_ID_HEADER, text_value ''trace-42'')] a = Some ''trace-42''"

definition replaces_invalid_incoming_request_id :: "(string \<Rightarrow> bool) \<Rightarrow> ('n, 's, 'g) app_world \<Rightarrow> bool" where
  "replaces_invalid_incoming_request_id is_uuid a \<longleftrightarrow>
     (case answered_id [(REQUEST_ID_HEADER, text_value ''bad value!'')] a of
        Some rid \<Rightarrow> rid \<noteq> ''bad value!'' \<and> is_uuid rid | None \<Rightarrow> False)"

lemma validates_request_id_passes: validates_request_id
  by (simp add: runs validates_request_id_def is_valid_request_id_def REQUEST_ID_MAX_LEN_def newline_def
      is_ascii_alphanumeric_def)

text \<open>A UUID's text has only hexadecimal digits and dashes, so it is a header value and no text with a space.\<close>

lemma request_log_tests:
  assumes "\<And>s. is_uuid s \<Longrightarrow> list_all (\<lambda>c. hex_val c \<noteq> None \<or> c = CHR ''-'') s" "\<And>n. is_uuid (w_uuid (aw_world a) n)"
  shows "generates_request_id_when_absent is_uuid a"
    and "propagates_valid_incoming_request_id a"
    and "replaces_invalid_incoming_request_id is_uuid a"
proof -
  let ?u = "uuid_next (aw_world a)"
  have u: "is_uuid ?u" using assms(2) by (simp add: uuid_next_def)
  have "32 \<le> byte_of c \<and> byte_of c \<noteq> 127" if "hex_val c \<noteq> None \<or> c = CHR ''-''" for c
    using that by (auto simp: hex_val_def Let_def runs split: if_splits)
  then have h: "header_value_from_str ?u = Some ?u"
    using assms(1) [OF u] by (auto simp: header_value_from_str_def list_all_iff)
  have b: "?u \<noteq> ''bad value!''" using assms(1) [OF u] by (auto simp: hex_val_def runs)
  note d = answered_id_def log_app_def request_log_call_def get_root_def incoming_request_id_def header_get_def
    echo_request_id_def insert_header_def text_value_def REQUEST_ID_HEADER_def
  show "generates_request_id_when_absent is_uuid a"
    using u h by (simp add: generates_request_id_when_absent_def d)
  show "propagates_valid_incoming_request_id a"
    by (simp add: propagates_valid_incoming_request_id_def d runs is_valid_request_id_def REQUEST_ID_MAX_LEN_def
        is_ascii_alphanumeric_def header_value_from_str_def)
  show "replaces_invalid_incoming_request_id is_uuid a"
    using u h b by (simp add: replaces_invalid_incoming_request_id_def d runs is_valid_request_id_def
        REQUEST_ID_MAX_LEN_def is_ascii_alphanumeric_def)
qed

section \<open>Metrics\<close>

text \<open>
  The recorded samples are rendered by the exporter, a parameter: its text contains the name of every
  series and its labels in the form \<open>name="value"\<close>.
\<close>

definition label_text :: "string \<times> string \<Rightarrow> string" where
  "label_text l = (case l of (name, v) \<Rightarrow> name @ ''='' @ [quote] @ v @ [quote])"

definition renders_recorded_metrics :: "(sample list \<Rightarrow> string) \<Rightarrow> bool" where
  "renders_recorded_metrics expo \<longleftrightarrow>
     (let rendered = expo
          (record_http_request ''GET'' ''/livez'' 200 (5/1000) @ record_token_issued @ record_token_verified False @
           record_auth_denied ''totp'' @ record_rate_limited) in
      contains rendered ''http_requests_total'' \<and>
      contains rendered (''endpoint='' @ [quote] @ ''/livez'' @ [quote]) \<and>
      contains rendered (''status='' @ [quote] @ ''200'' @ [quote]) \<and>
      contains rendered ''http_request_duration_seconds'' \<and>
      contains rendered ''jwt_tokens_issued_total'' \<and>
      contains rendered (''result='' @ [quote] @ ''failure'' @ [quote]) \<and>
      contains rendered (''level='' @ [quote] @ ''totp'' @ [quote]) \<and>
      contains rendered ''jwt_rate_limit_exceeded_total'')"

definition latency_buckets_are_sorted_and_positive :: bool where
  "latency_buckets_are_sorted_and_positive \<longleftrightarrow>
     list_all (\<lambda>(a, b). a < b) (zip LATENCY_BUCKETS (tl LATENCY_BUCKETS)) \<and> list_all (\<lambda>b. 0 < b) LATENCY_BUCKETS"

lemma metrics_tests:
  assumes "\<And>xs s. s \<in> set xs \<Longrightarrow> contains (expo xs) (sa_name s) \<and> list_all (\<lambda>l. contains (expo xs) (label_text l)) (sa_labels s)"
  shows "renders_recorded_metrics expo" and latency_buckets_are_sorted_and_positive
proof -
  have d: "show_dec 200 = ''200''" by (simp add: show_dec.simps runs)
  let ?xs = "record_http_request ''GET'' ''/livez'' 200 (5/1000) @ record_token_issued @ record_token_verified False @
           record_auth_denied ''totp'' @ record_rate_limited"
  have "\<forall>s \<in> set ?xs. contains (expo ?xs) (sa_name s) \<and> list_all (\<lambda>l. contains (expo ?xs) (label_text l)) (sa_labels s)"
    using assms by blast
  then show "renders_recorded_metrics expo"
    by (simp add: renders_recorded_metrics_def record_defs label_text_def d)
  show latency_buckets_are_sorted_and_positive
    by (simp add: latency_buckets_are_sorted_and_positive_def LATENCY_BUCKETS_def)
qed

section \<open>OpenTelemetry\<close>

definition appends_signal_path_to_base_endpoint :: bool where
  "appends_signal_path_to_base_endpoint \<longleftrightarrow>
     signal_endpoint None (Some ''http://collector:4318'') ''/v1/traces'' = Some ''http://collector:4318/v1/traces'' \<and>
     signal_endpoint None (Some ''http://collector:4318/'') ''/v1/traces'' = Some ''http://collector:4318/v1/traces''"

definition appends_logs_path_for_logs_signal :: bool where
  "appends_logs_path_for_logs_signal \<longleftrightarrow>
     signal_endpoint None (Some ''http://collector:4318'') ''/v1/logs'' = Some ''http://collector:4318/v1/logs''"

definition signal_endpoint_is_used_as_is :: bool where
  "signal_endpoint_is_used_as_is \<longleftrightarrow>
     signal_endpoint (Some ''http://collector:4318/custom/traces'') (Some ''http://ignored:4318'') ''/v1/traces''
       = Some ''http://collector:4318/custom/traces''"

definition no_endpoint_means_disabled :: bool where
  "no_endpoint_means_disabled \<longleftrightarrow>
     signal_endpoint None None ''/v1/traces'' = None \<and>
     signal_endpoint (Some ''  '') (Some ''  '') ''/v1/traces'' = None"

text \<open>\<open>build\<close> is the builder of the exporter; none of these tests gets as far as calling it.\<close>

definition logs_disabled_without_flag :: "(string \<Rightarrow> string option) \<Rightarrow> env \<Rightarrow> bool" where
  "logs_disabled_without_flag build e \<longleftrightarrow>
     init_logger_provider build
       (e(''OTEL_LOGS_ENABLED'' := None, ''OTEL_EXPORTER_OTLP_ENDPOINT'' \<mapsto> ''http://collector:4318''))
       = (False, LogsDisabled)"

definition logs_enabled_without_endpoint_warns :: "(string \<Rightarrow> string option) \<Rightarrow> env \<Rightarrow> bool" where
  "logs_enabled_without_endpoint_warns build e \<longleftrightarrow>
     init_logger_provider build
       (e(''OTEL_EXPORTER_OTLP_ENDPOINT'' := None, ''OTEL_EXPORTER_OTLP_LOGS_ENDPOINT'' := None,
          ''OTEL_LOGS_ENABLED'' \<mapsto> ''true'')) = (False, LogsNoEndpoint)"

definition disabled_without_endpoint :: "(string \<Rightarrow> string option) \<Rightarrow> env \<Rightarrow> bool" where
  "disabled_without_endpoint build e \<longleftrightarrow>
     init_tracer_provider build
       (e(''OTEL_EXPORTER_OTLP_ENDPOINT'' := None, ''OTEL_EXPORTER_OTLP_TRACES_ENDPOINT'' := None))
       = (False, OtelDisabled)"

definition disabled_on_blank_endpoint :: "(string \<Rightarrow> string option) \<Rightarrow> env \<Rightarrow> bool" where
  "disabled_on_blank_endpoint build e \<longleftrightarrow>
     init_tracer_provider build
       (e(''OTEL_EXPORTER_OTLP_TRACES_ENDPOINT'' := None, ''OTEL_EXPORTER_OTLP_ENDPOINT'' \<mapsto> ''   ''))
       = (False, OtelDisabled)"

lemma otel_tests:
  appends_signal_path_to_base_endpoint
  appends_logs_path_for_logs_signal
  signal_endpoint_is_used_as_is
  no_endpoint_means_disabled
  "logs_disabled_without_flag build e"
  "logs_enabled_without_endpoint_warns build e"
  "disabled_without_endpoint build e"
  "disabled_on_blank_endpoint build e"
  by (simp_all add: runs appends_signal_path_to_base_endpoint_def appends_logs_path_for_logs_signal_def
      signal_endpoint_is_used_as_is_def no_endpoint_means_disabled_def logs_disabled_without_flag_def
      logs_enabled_without_endpoint_warns_def disabled_without_endpoint_def disabled_on_blank_endpoint_def
      signal_endpoint_def non_blank_def trim_end_slashes_def init_logger_provider_def init_tracer_provider_def
      telemetry_env_bool_def)

section \<open>GlitchTip\<close>

text \<open>\<open>clear\<close> of the test module.\<close>

definition glitchtip_clear :: "env \<Rightarrow> env" where
  "glitchtip_clear e =
     e(''GLITCHTIP_DSN'' := None, ''SENTRY_DSN'' := None, ''GLITCHTIP_TRACES_SAMPLE_RATE'' := None,
       ''GLITCHTIP_ENABLE_LOGS'' := None)"

definition disabled_without_dsn :: "(string \<Rightarrow> f32 option) \<Rightarrow> env \<Rightarrow> bool" where
  "disabled_without_dsn parse e \<longleftrightarrow> sentry_init parse (glitchtip_clear e) = (None, SentryDisabled)"

definition reads_alternative_dsn_var :: "env \<Rightarrow> bool" where
  "reads_alternative_dsn_var e \<longleftrightarrow>
     read_dsn ((glitchtip_clear e)(''SENTRY_DSN'' \<mapsto> ''https://key@example.test/1'')) = Some ''https://key@example.test/1''"

definition primary_dsn_var_wins :: "env \<Rightarrow> bool" where
  "primary_dsn_var_wins e \<longleftrightarrow>
     read_dsn ((glitchtip_clear e)(''GLITCHTIP_DSN'' \<mapsto> ''https://primary@example.test/1'',
       ''SENTRY_DSN'' \<mapsto> ''https://alt@example.test/2'')) = Some ''https://primary@example.test/1''"

definition blank_dsn_means_disabled :: "env \<Rightarrow> bool" where
  "blank_dsn_means_disabled e \<longleftrightarrow> read_dsn ((glitchtip_clear e)(''GLITCHTIP_DSN'' \<mapsto> ''   '')) = None"

definition sample_rate_is_clamped :: "(string \<Rightarrow> f32 option) \<Rightarrow> env \<Rightarrow> bool" where
  "sample_rate_is_clamped parse e \<longleftrightarrow>
     (let rate = \<lambda>v. env_f32 parse ((glitchtip_clear e)(''GLITCHTIP_TRACES_SAMPLE_RATE'' \<mapsto> v))
            ''GLITCHTIP_TRACES_SAMPLE_RATE'' 0 in
      rate ''2.5'' = 1 \<and> rate ''-1'' = 0 \<and> rate ''not a number'' = 0 \<and> rate ''0.25'' = 1/4)"

definition status_reports_logs_flag :: bool where
  "status_reports_logs_flag \<longleftrightarrow>
     logs_enabled (SentryEnabled False True) \<and> \<not> logs_enabled (SentryEnabled True False) \<and> \<not> logs_enabled SentryDisabled"

definition logs_flag_parsing :: "env \<Rightarrow> bool" where
  "logs_flag_parsing e \<longleftrightarrow>
     (let flag = \<lambda>e. telemetry_env_bool e ''GLITCHTIP_ENABLE_LOGS'' False in
      \<not> flag (glitchtip_clear e) \<and>
      list_all (\<lambda>truthy. flag ((glitchtip_clear e)(''GLITCHTIP_ENABLE_LOGS'' \<mapsto> truthy)))
        [''true'', ''1'', ''yes'', ''TRUE''] \<and>
      \<not> flag ((glitchtip_clear e)(''GLITCHTIP_ENABLE_LOGS'' \<mapsto> ''false'')))"

text \<open>What \<open>str::parse::<f32>\<close> makes of the texts of the test.\<close>

lemma glitchtip_tests:
  assumes "parse ''2.5'' = Some (Finite (5/2))" "parse ''-1'' = Some (Finite (- 1))" "parse ''not a number'' = None"
    "parse ''0.25'' = Some (Finite (1/4))"
  shows "disabled_without_dsn parse e" and "reads_alternative_dsn_var e" and "primary_dsn_var_wins e"
    and "blank_dsn_means_disabled e" and "sample_rate_is_clamped parse e" and status_reports_logs_flag
    and "logs_flag_parsing e"
  using assms
  by (simp_all add: runs disabled_without_dsn_def reads_alternative_dsn_var_def primary_dsn_var_wins_def
      blank_dsn_means_disabled_def sample_rate_is_clamped_def status_reports_logs_flag_def logs_flag_parsing_def
      glitchtip_clear_def sentry_init_def read_dsn_def non_blank_def env_f32_def logs_enabled_def telemetry_env_bool_def
      Let_def)

end
