(* ===== verification/Rate_Tests.thy ===== *)
theory Rate_Tests
  imports Test_Support Rate_Limit_Correct
begin

text \<open>
  The unit tests of \<open>rate_limit.rs\<close> on the model. Those of the middleware run over the buckets of the
  \<open>governor\<close> crate, a parameter: the locale \<open>limiter\<close> says what a fresh limiter does within one instant,
  that is before any of its cells is replenished.
\<close>

section \<open>Ranges\<close>

definition cidrs :: "string list \<Rightarrow> cidr list" where
  "cidrs entries = map (\<lambda>e. the (cidr_parse e)) entries"

definition ip :: "string \<Rightarrow> ip_addr" where
  "ip s = the (parse_ip s)"

definition cidr_parses_single_ip_and_range :: bool where
  "cidr_parses_single_ip_and_range \<longleftrightarrow>
     cidr_parse ''10.0.0.1'' = Some \<lparr>ci_addr = ip ''10.0.0.1'', ci_prefix = 32\<rparr> \<and>
     cidr_parse ''10.0.0.0/8'' = Some \<lparr>ci_addr = ip ''10.0.0.0'', ci_prefix = 8\<rparr> \<and>
     cidr_parse ''::1'' = Some \<lparr>ci_addr = ip ''::1'', ci_prefix = 128\<rparr> \<and>
     map_option ci_prefix (cidr_parse ''2001:db8::/32'') = Some 32"

definition cidr_rejects_garbage_and_overlong_prefix :: bool where
  "cidr_rejects_garbage_and_overlong_prefix \<longleftrightarrow>
     cidr_parse ''not-an-ip'' = None \<and> cidr_parse ''10.0.0.0/33'' = None \<and> cidr_parse ''::/129'' = None"

definition cidr_contains_respects_prefix :: bool where
  "cidr_contains_respects_prefix \<longleftrightarrow>
     (let net = the (cidr_parse ''10.0.0.0/8'') in
      cidr_contains net (ip ''10.255.1.2'') \<and> \<not> cidr_contains net (ip ''11.0.0.1'') \<and>
      \<not> cidr_contains net (ip ''::1'')) \<and>
     (let net = the (cidr_parse ''192.168.1.0/24'') in
      cidr_contains net (ip ''192.168.1.200'') \<and> \<not> cidr_contains net (ip ''192.168.2.1'')) \<and>
     (let v6 = the (cidr_parse ''2001:db8::/32'') in
      cidr_contains v6 (ip ''2001:db8:abcd::1'') \<and> \<not> cidr_contains v6 (ip ''2001:db9::1''))"


lemma zeros [runs]:
  "replicate 8 (0 :: u8) = [0, 0, 0, 0, 0, 0, 0, 0]" "replicate 9 (0 :: u8) = [0, 0, 0, 0, 0, 0, 0, 0, 0]"
  "replicate 10 (0 :: u8) = [0, 0, 0, 0, 0, 0, 0, 0, 0, 0]"
  "replicate 12 (0 :: u8) = [0, 0, 0, 0, 0, 0, 0, 0, 0, 0, 0, 0]"
  by (simp_all add: numeral_eq_Suc)

lemmas ip_runs = ip_def parse_ip_def read_ipv4_def read_octets_4 read_ipv6_def read_groups.simps
  read_separator_def read_number_def radix_val_def read_char_def group_octets_def canonical_def hex_val_def to_ipv4_mapped_def

lemma range_tests:
  cidr_parses_single_ip_and_range
  cidr_rejects_garbage_and_overlong_prefix
  cidr_contains_respects_prefix
  by (simp_all add: runs ip_runs cidr_parses_single_ip_and_range_def cidr_rejects_garbage_and_overlong_prefix_def
      cidr_contains_respects_prefix_def cidr_parse_def split_once_def max_prefix_def is_ipv4_def cidr_contains_def
      prefix_match_def)

section \<open>The key of a request\<close>

definition xff :: "string list \<Rightarrow> headers" where
  "xff values = map (\<lambda>v. (''x-forwarded-for'', \<lparr>hv_bytes = v, hv_text = Some v\<rparr>)) values"

definition key_uses_peer_when_no_trusted_proxies :: bool where
  "key_uses_peer_when_no_trusted_proxies \<longleftrightarrow>
     resolve_key_ip (Some (ip ''203.0.113.9'')) (xff [''1.2.3.4'']) ''X-Forwarded-For'' [] = Some (ip ''203.0.113.9'')"

definition key_ignores_forwarded_from_untrusted_peer :: bool where
  "key_ignores_forwarded_from_untrusted_peer \<longleftrightarrow>
     resolve_key_ip (Some (ip ''203.0.113.9'')) (xff [''1.2.3.4'']) ''X-Forwarded-For'' (cidrs [''10.0.0.0/8''])
       = Some (ip ''203.0.113.9'')"

definition key_takes_client_from_forwarded_behind_trusted_proxy :: bool where
  "key_takes_client_from_forwarded_behind_trusted_proxy \<longleftrightarrow>
     resolve_key_ip (Some (ip ''10.0.0.5'')) (xff [''198.51.100.7'']) ''X-Forwarded-For'' (cidrs [''10.0.0.0/8''])
       = Some (ip ''198.51.100.7'')"

definition key_skips_trusted_hops_in_forwarded_chain :: bool where
  "key_skips_trusted_hops_in_forwarded_chain \<longleftrightarrow>
     resolve_key_ip (Some (ip ''10.0.0.5'')) (xff [''198.51.100.7, 10.0.0.9, 10.0.0.5'']) ''X-Forwarded-For''
       (cidrs [''10.0.0.0/8'']) = Some (ip ''198.51.100.7'')"

definition key_groups_ipv6_to_56 :: bool where
  "key_groups_ipv6_to_56 \<longleftrightarrow>
     (let a = resolve_key_ip (Some (ip ''2001:db8:1:2:3:4:5:6'')) [] ''X-Forwarded-For'' [];
          b = resolve_key_ip (Some (ip ''2001:db8:1:2:ffff:ffff:ffff:ffff'')) [] ''X-Forwarded-For'' [] in
      a = b \<and> a = Some (V6 (concat (map group_octets [0x2001, 0xdb8, 1, 0, 0, 0, 0, 0]))))"

definition parse_forwarded_ip_handles_bare_and_port :: bool where
  "parse_forwarded_ip_handles_bare_and_port \<longleftrightarrow>
     parse_forwarded_ip ''1.2.3.4'' = Some (ip ''1.2.3.4'') \<and>
     parse_forwarded_ip '' 1.2.3.4:5678 '' = Some (ip ''1.2.3.4'') \<and>
     parse_forwarded_ip ''::1'' = Some (ip ''::1'') \<and> parse_forwarded_ip ''garbage'' = None"

text \<open>\<open>to_ipv6_mapped\<close>: ten zero octets, two of \<open>0xff\<close>, the address.\<close>

definition canonical_unmaps_v4_mapped_v6 :: bool where
  "canonical_unmaps_v4_mapped_v6 \<longleftrightarrow>
     canonical (V6 (replicate 10 0 @ [0xff, 0xff] @ [1, 2, 3, 4])) = ip ''1.2.3.4''"

lemma ips [runs]:
  "parse_ip ''203.0.113.9'' = Some (V4 [203, 0, 113, 9])" "parse_ip ''203.0.113.1'' = Some (V4 [203, 0, 113, 1])"
  "parse_ip ''203.0.113.2'' = Some (V4 [203, 0, 113, 2])" "parse_ip ''203.0.113.3'' = Some (V4 [203, 0, 113, 3])"
  "parse_ip ''1.2.3.4'' = Some (V4 [1, 2, 3, 4])" "parse_ip ''1.1.1.1'' = Some (V4 [1, 1, 1, 1])"
  "parse_ip ''2.2.2.2'' = Some (V4 [2, 2, 2, 2])" "parse_ip ''10.0.0.5'' = Some (V4 [10, 0, 0, 5])"
  "parse_ip ''10.0.0.9'' = Some (V4 [10, 0, 0, 9])" "parse_ip ''198.51.100.7'' = Some (V4 [198, 51, 100, 7])"
  "parse_ip ''198.51.100.1'' = Some (V4 [198, 51, 100, 1])" "parse_ip ''198.51.100.2'' = Some (V4 [198, 51, 100, 2])"
  by (simp_all add: runs ip_runs)

lemma proxies [runs]:
  "cidrs [''10.0.0.0/8''] = [\<lparr>ci_addr = V4 [10, 0, 0, 0], ci_prefix = 8\<rparr>]" "cidrs [] = []"
  by (simp_all add: cidrs_def runs ip_runs cidr_parse_def split_once_def max_prefix_def is_ipv4_def)

lemma xff_run [runs]: "header_get_all (xff vs) ''X-Forwarded-For'' = map (\<lambda>v. \<lparr>hv_bytes = v, hv_text = Some v\<rparr>) vs"
  by (simp add: header_get_all_def xff_def runs comp_def)

lemmas key_runs = resolve_key_ip_def client_from_forwarded_def forwarded_ips_def parse_forwarded_ip_def
  ip_is_trusted_def cidr_contains_def prefix_match_def group_v6_def ip_def map_filter_simps rsplit_once_def split_once_def

lemma key_tests:
  key_uses_peer_when_no_trusted_proxies
  key_ignores_forwarded_from_untrusted_peer
  key_takes_client_from_forwarded_behind_trusted_proxy
  key_skips_trusted_hops_in_forwarded_chain
  parse_forwarded_ip_handles_bare_and_port
  canonical_unmaps_v4_mapped_v6
  key_groups_ipv6_to_56
  by (simp_all add: runs key_runs canonical_def to_ipv4_mapped_def key_uses_peer_when_no_trusted_proxies_def
      key_ignores_forwarded_from_untrusted_peer_def key_takes_client_from_forwarded_behind_trusted_proxy_def
      key_skips_trusted_hops_in_forwarded_chain_def)
    (simp_all add: runs key_runs ip_runs parse_forwarded_ip_handles_bare_and_port_def canonical_unmaps_v4_mapped_v6_def
      key_groups_ipv6_to_56_def)

section \<open>The middleware\<close>

definition get_x :: "string \<Rightarrow> headers \<Rightarrow> request" where
  "get_x peer hs = \<lparr>rq_method = ''GET'', rq_path = ''/x'', rq_headers = hs, rq_peer = Some (ip peer), rq_body = []\<rparr>"

text \<open>
  \<open>new_limiter\<close> is \<open>RateLimiter::keyed\<close> and \<open>RateLimiter::direct\<close> on a quota: the operations of the
  limiter and its fresh state. \<open>per_ip_app\<close> puts that state into the world it is given.
\<close>

definition per_ip ::
  "(nat \<Rightarrow> 'q option) \<Rightarrow> u64 \<Rightarrow> u32 \<Rightarrow> string list \<Rightarrow> (unit, 'q per_ip_limiter) outcome" where
  "per_ip with_period per_second burst trusted =
     (case quota with_period per_second burst of
        Ok q \<Rightarrow> Ok \<lparr>pl_quota = q, pl_trusted = cidrs trusted, pl_forwarded_header = ''X-Forwarded-For''\<rparr>
      | Err e \<Rightarrow> Err e
      | Panic \<Rightarrow> Panic)"

definition per_ip_statuses ::
  "('q \<times> nat \<Rightarrow> 'g governor \<times> 'g) \<Rightarrow> (unit, 'q per_ip_limiter) outcome \<Rightarrow> request list \<Rightarrow> ('n, 's, 'g) app_world
     \<Rightarrow> (nat \<times> (string \<times> string) list) option list" where
  "per_ip_statuses new_limiter l rs a =
     (case l of
        Ok p \<Rightarrow>
          (case new_limiter (pl_quota p) of
             (G, g) \<Rightarrow> call_all (rate_limit_call G (rate_limit_per_ip (Some p)) body_ok) rs (a\<lparr>aw_limits := g\<rparr>))
      | _ \<Rightarrow> [])"

definition returns_429_after_burst_exhausted ::
  "(nat \<Rightarrow> 'q option) \<Rightarrow> ('q \<times> nat \<Rightarrow> 'g governor \<times> 'g) \<Rightarrow> ('n, 's, 'g) app_world \<Rightarrow> bool" where
  "returns_429_after_burst_exhausted with_period new_limiter a \<longleftrightarrow>
     (let req = get_x ''203.0.113.1'' [];
          answers = per_ip_statuses new_limiter (per_ip with_period 1 2 []) [req, req, req] a in
      map (map_option fst) answers = [Some 200, Some 200, Some 429] \<and>
      (case last answers of Some (_, hs) \<Rightarrow> map_of hs ''retry-after'' \<noteq> None | None \<Rightarrow> False))"

definition buckets_are_independent_per_ip ::
  "(nat \<Rightarrow> 'q option) \<Rightarrow> ('q \<times> nat \<Rightarrow> 'g governor \<times> 'g) \<Rightarrow> ('n, 's, 'g) app_world \<Rightarrow> bool" where
  "buckets_are_independent_per_ip with_period new_limiter a \<longleftrightarrow>
     map (map_option fst) (per_ip_statuses new_limiter (per_ip with_period 1 1 [])
       [get_x ''203.0.113.1'' [], get_x ''203.0.113.1'' [], get_x ''203.0.113.2'' []] a)
       = [Some 200, Some 429, Some 200]"

definition forwarded_client_gets_own_bucket_behind_trusted_proxy ::
  "(nat \<Rightarrow> 'q option) \<Rightarrow> ('q \<times> nat \<Rightarrow> 'g governor \<times> 'g) \<Rightarrow> ('n, 's, 'g) app_world \<Rightarrow> bool" where
  "forwarded_client_gets_own_bucket_behind_trusted_proxy with_period new_limiter a \<longleftrightarrow>
     map (map_option fst) (per_ip_statuses new_limiter (per_ip with_period 1 1 [''10.0.0.0/8''])
       [get_x ''10.0.0.5'' (xff [''198.51.100.1'']), get_x ''10.0.0.5'' (xff [''198.51.100.1'']),
        get_x ''10.0.0.5'' (xff [''198.51.100.2''])] a) = [Some 200, Some 429, Some 200]"

definition spoofed_forwarded_from_untrusted_peer_is_ignored ::
  "(nat \<Rightarrow> 'q option) \<Rightarrow> ('q \<times> nat \<Rightarrow> 'g governor \<times> 'g) \<Rightarrow> ('n, 's, 'g) app_world \<Rightarrow> bool" where
  "spoofed_forwarded_from_untrusted_peer_is_ignored with_period new_limiter a \<longleftrightarrow>
     map (map_option fst) (per_ip_statuses new_limiter (per_ip with_period 1 1 [''10.0.0.0/8''])
       [get_x ''203.0.113.9'' (xff [''1.1.1.1'']), get_x ''203.0.113.9'' (xff [''2.2.2.2''])] a)
       = [Some 200, Some 429]"

definition disabled_limiter_passes_through :: "'g governor \<Rightarrow> ('n, 's, 'g) app_world \<Rightarrow> bool" where
  "disabled_limiter_passes_through G a \<longleftrightarrow>
     statuses (rate_limit_call G (rate_limit_per_ip (None :: unit per_ip_limiter option)) body_ok) (replicate 5 (get_x ''203.0.113.1'' [])) a
       = replicate 5 (Some 200)"

definition global_cap_limits_regardless_of_ip ::
  "(nat \<Rightarrow> 'q option) \<Rightarrow> ('q \<times> nat \<Rightarrow> 'g governor \<times> 'g) \<Rightarrow> ('n, 's, 'g) app_world \<Rightarrow> bool" where
  "global_cap_limits_regardless_of_ip with_period new_limiter a \<longleftrightarrow>
     (case quota with_period 1 2 of
        Ok q \<Rightarrow>
          (case new_limiter q of
             (G, g) \<Rightarrow>
               statuses (rate_limit_call G (rate_limit_global (Some q)) body_ok)
                 [get_x ''203.0.113.1'' [], get_x ''203.0.113.2'' [], get_x ''203.0.113.3'' []] (a\<lparr>aw_limits := g\<rparr>)
                 = [Some 200, Some 200, Some 429])
      | _ \<Rightarrow> False)"

lemma call_all_ok: "app r a = body_ok r a' \<Longrightarrow> call_all app (r # rs) a = Some (200, []) # call_all app rs a'"
  by (simp add: body_ok_def)

lemma call_all_stop:
  "app r a = (Ok (too_many_requests n), a') \<Longrightarrow>
     call_all app (r # rs) a = Some (429, [(''retry-after'', show_dec n)]) # call_all app rs a'"
  by (simp add: too_many_requests_def)

text \<open>The statuses that buckets of \<open>burst\<close> cells make of requests counted under these addresses.\<close>

fun admissions :: "nat \<Rightarrow> ('i \<Rightarrow> nat) \<Rightarrow> 'i list \<Rightarrow> nat list" where
  "admissions burst used [] = []"
| "admissions burst used (i # is) =
     (if used i < burst then 200 # admissions burst (used(i := Suc (used i))) is
      else 429 # admissions burst used is)"

text \<open>
  What a limiter promises before a cell is replenished: as many cells as the burst, per address or
  altogether; a refusal takes none.
\<close>

locale limiter =
  fixes with_period :: "nat \<Rightarrow> 'q option"
    and new_limiter :: "'q \<times> nat \<Rightarrow> 'g governor \<times> 'g"
    and used :: "'g \<Rightarrow> ip_addr \<Rightarrow> nat"
    and total :: "'g \<Rightarrow> nat"
  assumes period: "0 < n \<Longrightarrow> with_period n \<noteq> None"
    and fresh: "new_limiter (q, burst) = (G, g) \<Longrightarrow> used g i = 0 \<and> total g = 0"
    and key: "new_limiter (q, burst) = (G, g0) \<Longrightarrow> \<exists>wait g'. gv_check_key G i g =
          (if used g i < burst then Inr () else Inl wait, g') \<and>
          used g' = (if used g i < burst then (used g)(i := Suc (used g i)) else used g)"
    and all: "new_limiter (q, burst) = (G, g0) \<Longrightarrow> \<exists>wait g'. gv_check G g =
          (if total g < burst then Inr () else Inl wait, g') \<and> total g' = (if total g < burst then Suc (total g) else total g)"
begin

lemma quota_ok: "\<exists>q. quota with_period 1 burst = Ok (q, max 1 (unat burst))"
  using period [of 1000000000] by (auto simp: quota_def)

text \<open>One request under its address.\<close>

lemma per_ip_call:
  assumes "new_limiter (q, burst) = (G, g0)" "resolve_key_ip (rq_peer r) (rq_headers r) header trusted = Some i"
  shows "\<exists>wait g'. used g' = (if used g i < burst then (used g)(i := Suc (used g i)) else used g) \<and>
     rate_limit_call G (PerIp trusted header) body_ok r (a\<lparr>aw_limits := g\<rparr>) =
       (if used g i < burst then body_ok r (a\<lparr>aw_limits := g'\<rparr>)
        else (Ok (too_many_requests wait), record_app_metric RateLimited (a\<lparr>aw_limits := g'\<rparr>)))"
proof -
  obtain wait g' where k: "gv_check_key G i g = (if used g i < burst then Inr () else Inl wait, g')"
    and u: "used g' = (if used g i < burst then (used g)(i := Suc (used g i)) else used g)"
    using key [OF assms(1), of i g] by blast
  show ?thesis
    by (rule exI [of _ "retry_after_secs wait"], rule exI [of _ g'])
      (use k u assms(2) in \<open>simp add: rate_limit_call_def strategy_check_def refusal_def\<close>)
qed

lemma global_call:
  assumes "new_limiter (q, burst) = (G, g0)"
  shows "\<exists>wait g'. total g' = (if total g < burst then Suc (total g) else total g) \<and>
     rate_limit_call G LimitGlobal body_ok r (a\<lparr>aw_limits := g\<rparr>) =
       (if total g < burst then body_ok r (a\<lparr>aw_limits := g'\<rparr>)
        else (Ok (too_many_requests wait), record_app_metric RateLimited (a\<lparr>aw_limits := g'\<rparr>)))"
proof -
  obtain wait g' where k: "gv_check G g = (if total g < burst then Inr () else Inl wait, g')"
    and u: "total g' = (if total g < burst then Suc (total g) else total g)"
    using all [OF assms, of g] by blast
  show ?thesis
    by (rule exI [of _ "retry_after_secs wait"], rule exI [of _ g'])
      (use k u in \<open>simp add: rate_limit_call_def strategy_check_def refusal_def\<close>)
qed

text \<open>The statuses of a run of requests, by the cells their addresses have left.\<close>

lemma per_ip_run:
  assumes new: "new_limiter (q, burst) = (G, g0)"
    and keys: "list_all2 (\<lambda>r i. resolve_key_ip (rq_peer r) (rq_headers r) header trusted = Some i) rs is"
  shows "map (map_option fst) (call_all (rate_limit_call G (PerIp trusted header) body_ok) rs (a\<lparr>aw_limits := g\<rparr>)) =
     map Some (admissions burst (used g) is)"
  using keys
proof (induction rs "is" arbitrary: g a rule: list_all2_induct)
  case Nil
  then show ?case by simp
next
  case (Cons r rs i "is")
  obtain wait g' where u: "used g' = (if used g i < burst then (used g)(i := Suc (used g i)) else used g)"
    and c: "rate_limit_call G (PerIp trusted header) body_ok r (a\<lparr>aw_limits := g\<rparr>) =
       (if used g i < burst then body_ok r (a\<lparr>aw_limits := g'\<rparr>)
        else (Ok (too_many_requests wait), record_app_metric RateLimited (a\<lparr>aw_limits := g'\<rparr>)))"
    using per_ip_call [OF new Cons(1), of g a] by blast
  have m: "record_app_metric RateLimited (a\<lparr>aw_limits := g'\<rparr>) = (record_app_metric RateLimited a)\<lparr>aw_limits := g'\<rparr>"
    by (simp add: record_app_metric_def)
  show ?case
  proof (cases "used g i < burst")
    case True
    then show ?thesis
      using c u call_all_ok [of _ r "a\<lparr>aw_limits := g\<rparr>" "a\<lparr>aw_limits := g'\<rparr>" rs] Cons.IH [of g' a]
      by (simp add: fun_upd_def del: call_all.simps)
  next
    case False
    then have "rate_limit_call G (PerIp trusted header) body_ok r (a\<lparr>aw_limits := g\<rparr>) =
        (Ok (too_many_requests wait), (record_app_metric RateLimited a)\<lparr>aw_limits := g'\<rparr>)" using c m by simp
    from call_all_stop [where app = "rate_limit_call G (PerIp trusted header) body_ok", OF this, of rs] False show ?thesis
      using u Cons.IH [of g' "record_app_metric RateLimited a"] by (simp del: call_all.simps)
  qed
qed

lemma global_run:
  assumes new: "new_limiter (q, burst) = (G, g0)"
  shows "statuses (rate_limit_call G LimitGlobal body_ok) rs (a\<lparr>aw_limits := g\<rparr>) =
     map Some (admissions burst (\<lambda>_. total g) (replicate (length rs) ()))"
proof (induction rs arbitrary: g a)
  case Nil
  then show ?case by (simp add: statuses_def)
next
  case (Cons r rs)
  obtain wait g' where u: "total g' = (if total g < burst then Suc (total g) else total g)"
    and c: "rate_limit_call G LimitGlobal body_ok r (a\<lparr>aw_limits := g\<rparr>) =
       (if total g < burst then body_ok r (a\<lparr>aw_limits := g'\<rparr>)
        else (Ok (too_many_requests wait), record_app_metric RateLimited (a\<lparr>aw_limits := g'\<rparr>)))"
    using global_call [OF new, of g r a] by blast
  have m: "record_app_metric RateLimited (a\<lparr>aw_limits := g'\<rparr>) = (record_app_metric RateLimited a)\<lparr>aw_limits := g'\<rparr>"
    by (simp add: record_app_metric_def)
  have f: "(\<lambda>_ :: unit. n)(() := k) = (\<lambda>_. k)" for n k :: nat by (rule ext) simp
  show ?case
  proof (cases "total g < burst")
    case True
    then show ?thesis
      using c u call_all_ok [of _ r "a\<lparr>aw_limits := g\<rparr>" "a\<lparr>aw_limits := g'\<rparr>" rs] Cons.IH [of g' a]
      by (simp add: statuses_def f del: call_all.simps)
  next
    case False
    then have "rate_limit_call G LimitGlobal body_ok r (a\<lparr>aw_limits := g\<rparr>) =
        (Ok (too_many_requests wait), (record_app_metric RateLimited a)\<lparr>aw_limits := g'\<rparr>)" using c m by simp
    from call_all_stop [where app = "rate_limit_call G LimitGlobal body_ok", OF this, of rs] False show ?thesis
      using u Cons.IH [of g' "record_app_metric RateLimited a"] by (simp add: statuses_def del: call_all.simps)
  qed
qed

text \<open>A refusal names the time to wait.\<close>

lemma refused_header:
  assumes "call_all (rate_limit_call G st body_ok) rs a = xs @ [Some (429, hs)]"
  shows "map_of hs ''retry-after'' \<noteq> None"
proof -
  have h: "\<forall>x \<in> set (call_all (rate_limit_call G st body_ok) rs a). \<forall>hs. x = Some (429, hs) \<longrightarrow> map_of hs ''retry-after'' \<noteq> None"
    for rs a
    by (induction rs arbitrary: a)
      (auto simp: rate_limit_call_def body_ok_def too_many_requests_def split: prod.splits sum.splits)
  show ?thesis using h [of rs a] assms by simp
qed

lemma per_ip_tests:
  "returns_429_after_burst_exhausted with_period new_limiter a"
  "buckets_are_independent_per_ip with_period new_limiter a"
  "forwarded_client_gets_own_bucket_behind_trusted_proxy with_period new_limiter a"
  "spoofed_forwarded_from_untrusted_peer_is_ignored with_period new_limiter a"
proof -
  obtain q where q1: "quota with_period 1 1 = Ok (q, 1)" and q2: "quota with_period 1 2 = Ok (q, 2)"
    using period [of 1000000000] by (auto simp: quota_def)
  have run: "map (map_option fst) (per_ip_statuses new_limiter (Ok p) rs a) = map Some (admissions burst (\<lambda>_. 0) ks)"
    if "pl_quota p = (q, burst)"
      "list_all2 (\<lambda>r i. resolve_key_ip (rq_peer r) (rq_headers r) (pl_forwarded_header p) (pl_trusted p) = Some i) rs ks"
    for p rs ks burst
  proof -
    obtain G g where n: "new_limiter (q, burst) = (G, g)" by fastforce
    have "used g = (\<lambda>_. 0)" using fresh [OF n] by auto
    then show ?thesis using that per_ip_run [OF n that(2), where a = a and g = g] n
      by (simp add: per_ip_statuses_def rate_limit_per_ip_def)
  qed
  note d = per_ip_def q1 q2 get_x_def
  note keys = runs key_runs canonical_def get_x_def
  show "buckets_are_independent_per_ip with_period new_limiter a"
    unfolding buckets_are_independent_per_ip_def per_ip_def q1 outcome.case
    by (subst run [where ks = "[V4 [203, 0, 113, 1], V4 [203, 0, 113, 1], V4 [203, 0, 113, 2]]" and burst = 1]) (simp_all add: d keys)
  show "forwarded_client_gets_own_bucket_behind_trusted_proxy with_period new_limiter a"
    unfolding forwarded_client_gets_own_bucket_behind_trusted_proxy_def per_ip_def q1 outcome.case
    by (subst run [where ks = "[V4 [198, 51, 100, 1], V4 [198, 51, 100, 1], V4 [198, 51, 100, 2]]" and burst = 1]) (simp_all add: d keys)
  show "spoofed_forwarded_from_untrusted_peer_is_ignored with_period new_limiter a"
    unfolding spoofed_forwarded_from_untrusted_peer_is_ignored_def per_ip_def q1 outcome.case
    by (subst run [where ks = "[V4 [203, 0, 113, 9], V4 [203, 0, 113, 9]]" and burst = 1]) (simp_all add: d keys)
  let ?p = "\<lparr>pl_quota = (q, 2), pl_trusted = cidrs [], pl_forwarded_header = ''X-Forwarded-For''\<rparr> :: 'q per_ip_limiter"
  let ?r = "get_x ''203.0.113.1'' []"
  let ?answers = "per_ip_statuses new_limiter (Ok ?p) [?r, ?r, ?r] a"
  have s: "map (map_option fst) ?answers = [Some 200, Some 200, Some 429]"
    by (subst run [where ks = "replicate 3 (V4 [203, 0, 113, 1])" and burst = 2])
      (simp_all add: d keys numeral_eq_Suc)
  obtain hs xs where x: "?answers = xs @ [Some (429, hs)]"
  proof -
    obtain x y z where xyz: "?answers = [x, y, z]" "map_option fst z = Some 429"
      using s by (auto simp: map_eq_Cons_conv)
    then show thesis using that [of "[x, y]"] by (cases z) auto
  qed
  then have "map_of hs ''retry-after'' \<noteq> None"
    unfolding per_ip_statuses_def by (auto split: prod.splits dest!: refused_header simp del: call_all.simps)
  then show "returns_429_after_burst_exhausted with_period new_limiter a"
    using s x by (simp add: returns_429_after_burst_exhausted_def per_ip_def q2 Let_def)
qed

lemma global_test: "global_cap_limits_regardless_of_ip with_period new_limiter a"
proof -
  obtain q where q: "quota with_period 1 2 = Ok (q, 2)" using quota_ok [of 2] by auto
  obtain G g where n: "new_limiter (q, 2) = (G, g)" by fastforce
  show ?thesis
    using global_run [OF n, of "[get_x ''203.0.113.1'' [], get_x ''203.0.113.2'' [], get_x ''203.0.113.3'' []]" g a] fresh [OF n]
    by (simp add: global_cap_limits_regardless_of_ip_def q n rate_limit_global_def)
qed

end

lemma disabled_test: "disabled_limiter_passes_through G a"
  by (simp add: disabled_limiter_passes_through_def statuses_def rate_limit_per_ip_def rate_limit_call_def
      strategy_check_def body_ok_def numeral_eq_Suc)

section \<open>A limiter that counts\<close>

definition cells :: "unit \<times> nat \<Rightarrow> ((ip_addr \<Rightarrow> nat) \<times> nat) governor \<times> ((ip_addr \<Rightarrow> nat) \<times> nat)" where
  "cells q =
     (\<lparr>gv_check_key = \<lambda>i (u, n). if u i < snd q then (Inr (), u(i := Suc (u i)), n) else (Inl 1000000000, u, n),
       gv_check = \<lambda>(u, n). if n < snd q then (Inr (), u, Suc n) else (Inl 1000000000, u, n)\<rparr>,
      \<lambda>_. 0, 0)"

interpretation cells: limiter "\<lambda>n. Some ()" cells fst snd
  by unfold_locales (auto simp: cells_def split: prod.splits if_splits)

lemma rate_limit_tests:
  "returns_429_after_burst_exhausted (\<lambda>n. Some ()) cells a"
  "buckets_are_independent_per_ip (\<lambda>n. Some ()) cells a"
  "forwarded_client_gets_own_bucket_behind_trusted_proxy (\<lambda>n. Some ()) cells a"
  "spoofed_forwarded_from_untrusted_peer_is_ignored (\<lambda>n. Some ()) cells a"
  "global_cap_limits_regardless_of_ip (\<lambda>n. Some ()) cells a"
  by (rule cells.per_ip_tests cells.global_test)+

end
