(* ===== verification/Auth_Tests.thy ===== *)
theory Auth_Tests
  imports Test_Support Test_Stores Auth_Correct
begin

text \<open>
  The unit tests of \<open>auth.rs\<close> on the model, those of the validators, the one-time codes and the
  configuration here, those of the middleware below. HMAC-SHA-1 is OpenSSL's, a parameter: the tests
  with fixed codes rest on its values for the secret of RFC 4226, the ten of the RFC's appendix D and
  four for the counters around the fixed moment of the tests.
\<close>

section \<open>The bearer token of the metrics\<close>

definition test_metrics_validator :: metrics_validator where
  "test_metrics_validator = \<lparr>mv_token = Some ''scrape-token''\<rparr>"

definition metrics_accepts_valid_bearer_token :: bool where
  "metrics_accepts_valid_bearer_token \<longleftrightarrow>
     metrics_validate test_metrics_validator (headers_with ''Authorization'' ''Bearer scrape-token'')"

definition metrics_scheme_is_case_insensitive :: bool where
  "metrics_scheme_is_case_insensitive \<longleftrightarrow>
     metrics_validate test_metrics_validator (headers_with ''Authorization'' ''bearer scrape-token'') \<and>
     metrics_validate test_metrics_validator (headers_with ''Authorization'' ''BEARER scrape-token'')"

definition metrics_rejects_wrong_or_missing_token :: bool where
  "metrics_rejects_wrong_or_missing_token \<longleftrightarrow>
     \<not> metrics_validate test_metrics_validator [] \<and>
     \<not> metrics_validate test_metrics_validator (headers_with ''Authorization'' ''Bearer wrong-token'') \<and>
     \<not> metrics_validate test_metrics_validator (headers_with ''Authorization'' ''Bearer scrape'') \<and>
     \<not> metrics_validate test_metrics_validator (headers_with ''Authorization'' ''Bearer '')"

definition metrics_rejects_other_schemes_and_raw_token :: bool where
  "metrics_rejects_other_schemes_and_raw_token \<longleftrightarrow>
     \<not> metrics_validate test_metrics_validator (headers_with ''Authorization'' ''Basic scrape-token'') \<and>
     \<not> metrics_validate test_metrics_validator (headers_with ''Authorization'' ''scrape-token'')"

definition metrics_validator_rejects_everything_without_token :: bool where
  "metrics_validator_rejects_everything_without_token \<longleftrightarrow>
     (let v = \<lparr>mv_token = None\<rparr> in
      \<not> metrics_validate v [] \<and> \<not> metrics_validate v (headers_with ''Authorization'' ''Bearer whatever'') \<and>
      \<not> metrics_validate v (headers_with ''Authorization'' ''Bearer ''))"

lemma header_get_Nil [simp]: "header_get [] name = None"
  by (simp add: header_get_def)

lemma metrics_token_tests:
  metrics_accepts_valid_bearer_token
  metrics_scheme_is_case_insensitive
  metrics_rejects_wrong_or_missing_token
  metrics_rejects_other_schemes_and_raw_token
  metrics_validator_rejects_everything_without_token
  by (simp_all add: runs metrics_accepts_valid_bearer_token_def metrics_scheme_is_case_insensitive_def
      metrics_rejects_wrong_or_missing_token_def metrics_rejects_other_schemes_and_raw_token_def
      metrics_validator_rejects_everything_without_token_def test_metrics_validator_def metrics_validate_def
      header_get_with split_once_def)

section \<open>The proxy secret\<close>

definition proxy :: "string \<Rightarrow> proxy_validator" where
  "proxy secret = \<lparr>pv_header = ''X-Proxy-Secret'', pv_secret = secret\<rparr>"

definition proxy_accepts_correct_secret :: bool where
  "proxy_accepts_correct_secret \<longleftrightarrow> proxy_validate (proxy ''s3cr3t'') (headers_with ''X-Proxy-Secret'' ''s3cr3t'')"

definition proxy_rejects_wrong_and_missing_secret :: bool where
  "proxy_rejects_wrong_and_missing_secret \<longleftrightarrow>
     (let v = proxy ''s3cr3t'' in
      \<not> proxy_validate v (headers_with ''X-Proxy-Secret'' ''nope'') \<and> \<not> proxy_validate v [] \<and>
      \<not> proxy_validate v (headers_with ''X-Proxy-Secret'' ''short''))"

lemma proxy_tests: proxy_accepts_correct_secret proxy_rejects_wrong_and_missing_secret
  by (simp_all add: proxy_accepts_correct_secret_def proxy_rejects_wrong_and_missing_secret_def proxy_def
      proxy_validate_def header_get_with)

section \<open>Base32\<close>

definition base32_decodes_rfc4648_vector :: bool where
  "base32_decodes_rfc4648_vector \<longleftrightarrow>
     base32_decode ''MZXW6'' = Some (bytes_of ''foo'') \<and> base32_decode ''mzxw6==='' = Some (bytes_of ''foo'') \<and>
     base32_decode ''MZ XW6'' = Some (bytes_of ''foo'')"

definition base32_rejects_invalid_alphabet :: bool where
  "base32_rejects_invalid_alphabet \<longleftrightarrow> base32_decode ''1808'' = None"

lemmas base32_runs = base32_decode_def base32_value_def base32_push_def BASE32_ALPHABET_def bytes_of_def

lemma base32_tests: base32_decodes_rfc4648_vector base32_rejects_invalid_alphabet
  by (simp_all add: runs base32_decodes_rfc4648_vector_def base32_rejects_invalid_alphabet_def base32_runs)

section \<open>One-time codes\<close>

definition RFC_SECRET :: "u8 list" where
  "RFC_SECRET = bytes_of ''12345678901234567890''"

definition sha1_rows :: "(u64 \<times> u8 list) list" where
  "sha1_rows = [
      (0, [204, 147, 207, 24, 80, 141, 148, 147, 76, 100, 182, 93, 139, 167, 102, 127, 183, 205, 228, 176]),
      (1, [117, 164, 138, 25, 212, 203, 225, 0, 100, 78, 138, 193, 57, 126, 234, 116, 122, 45, 51, 171]),
      (2, [11, 172, 183, 250, 8, 47, 239, 48, 120, 34, 17, 147, 139, 193, 197, 231, 4, 22, 255, 68]),
      (3, [102, 194, 130, 39, 208, 58, 45, 85, 41, 38, 47, 240, 22, 161, 230, 239, 118, 85, 126, 206]),
      (4, [169, 4, 201, 0, 166, 75, 53, 144, 152, 116, 179, 62, 97, 197, 147, 138, 142, 21, 237, 28]),
      (5, [163, 126, 120, 61, 123, 114, 51, 192, 131, 212, 246, 41, 38, 199, 162, 95, 35, 141, 3, 22]),
      (6, [188, 156, 210, 133, 97, 4, 44, 131, 242, 25, 50, 77, 60, 96, 114, 86, 192, 50, 114, 174]),
      (7, [164, 251, 150, 12, 11, 192, 110, 30, 171, 184, 4, 229, 179, 151, 205, 196, 180, 85, 150, 250]),
      (8, [27, 60, 137, 246, 94, 108, 158, 136, 48, 18, 5, 40, 35, 68, 63, 4, 139, 67, 50, 219]),
      (9, [22, 55, 64, 152, 9, 166, 121, 220, 105, 130, 7, 49, 12, 140, 127, 192, 114, 144, 217, 229]),
      (56666665, [169, 150, 231, 153, 121, 254, 69, 102, 244, 179, 109, 196, 171, 126, 93, 90, 57, 184, 243, 97]),
      (56666666, [56, 69, 74, 69, 21, 205, 232, 166, 252, 81, 190, 112, 228, 64, 21, 20, 31, 1, 202, 108]),
      (56666667, [88, 137, 146, 138, 227, 103, 147, 79, 12, 88, 139, 156, 81, 224, 4, 89, 96, 16, 6, 244]),
      (56666668, [14, 154, 33, 145, 29, 89, 87, 46, 133, 244, 11, 107, 254, 142, 68, 252, 36, 93, 63, 195])]"

definition hmac_sha1 :: "hmac \<Rightarrow> bool" where
  "hmac_sha1 H \<longleftrightarrow>
     tag_bytes H \<and> (\<forall>s m. H MacSha1 s m \<noteq> None) \<and>
     list_all (\<lambda>(c, tag). H MacSha1 RFC_SECRET (u64_to_be_bytes c) = Some tag) sha1_rows"

definition hotp_matches_rfc4226_vectors :: "hmac \<Rightarrow> bool" where
  "hotp_matches_rfc4226_vectors H \<longleftrightarrow>
     list_all (\<lambda>(counter, want). hotp H RFC_SECRET counter 6 MacSha1 = Ok want)
       (zip (map of_nat [0..<10])
          [''755224'', ''287082'', ''359152'', ''969429'', ''338314'', ''254676'', ''287922'', ''162583'',
           ''399871'', ''520489''])"

lemma hotp_row:
  "H d s (u64_to_be_bytes c) = Some tag \<Longrightarrow> tag \<noteq> [] \<Longrightarrow> unat (last tag AND 0x0f) + 3 < length tag \<Longrightarrow>
     hotp H s c digits d = Ok (zero_pad digits (show_dec (unat (hotp_truncate tag (unat (last tag AND 0x0f)) mod 10 ^ digits))))"
  by (simp add: hotp_def Let_def)

lemma rfc_codes:
  assumes "hmac_sha1 H"
  shows "hotp H RFC_SECRET 0 6 MacSha1 = Ok ''755224''" "hotp H RFC_SECRET 1 6 MacSha1 = Ok ''287082''"
    "hotp H RFC_SECRET 2 6 MacSha1 = Ok ''359152''" "hotp H RFC_SECRET 3 6 MacSha1 = Ok ''969429''"
    "hotp H RFC_SECRET 4 6 MacSha1 = Ok ''338314''" "hotp H RFC_SECRET 5 6 MacSha1 = Ok ''254676''"
    "hotp H RFC_SECRET 6 6 MacSha1 = Ok ''287922''" "hotp H RFC_SECRET 7 6 MacSha1 = Ok ''162583''"
    "hotp H RFC_SECRET 8 6 MacSha1 = Ok ''399871''" "hotp H RFC_SECRET 9 6 MacSha1 = Ok ''520489''"
    "hotp H RFC_SECRET 56666665 6 MacSha1 = Ok ''276857''" "hotp H RFC_SECRET 56666666 6 MacSha1 = Ok ''921300''"
    "hotp H RFC_SECRET 56666667 6 MacSha1 = Ok ''732303''" "hotp H RFC_SECRET 56666668 6 MacSha1 = Ok ''136087''"
  using assms
  by (simp_all add: hmac_sha1_def sha1_rows_def hotp_row hotp_truncate_def zero_pad_def show_dec.simps runs)

lemma hotp_test: "hmac_sha1 H \<Longrightarrow> hotp_matches_rfc4226_vectors H"
  by (simp add: hotp_matches_rfc4226_vectors_def upt_rec rfc_codes)

definition totp :: "u8 list list \<Rightarrow> u64 \<Rightarrow> totp_validator" where
  "totp secrets skew =
     \<lparr>tv_header = ''X-TOTP-Code'', tv_secrets = secrets, tv_step = 30, tv_digits = 6, tv_skew = skew,
      tv_digest = MacSha1\<rparr>"

definition code_at :: "hmac \<Rightarrow> u8 list \<Rightarrow> u64 \<Rightarrow> u64 \<Rightarrow> (unit, string) outcome" where
  "code_at H secret now step = hotp H secret (now div step) 6 MacSha1"

definition moment :: u64 where
  "moment = 1700000000"

text \<open>The answer of a validator to a code, which a failing \<open>unwrap\<close> would not get to.\<close>

definition validates :: "hmac \<Rightarrow> totp_validator \<Rightarrow> (unit, string) outcome \<Rightarrow> bool option" where
  "validates H v code =
     (case code of
        Ok c \<Rightarrow> (case totp_validate H v (headers_with ''X-TOTP-Code'' c) moment of Ok b \<Rightarrow> Some b | _ \<Rightarrow> None)
      | _ \<Rightarrow> None)"

definition totp_accepts_current_code :: "hmac \<Rightarrow> bool" where
  "totp_accepts_current_code H \<longleftrightarrow>
     validates H (totp [RFC_SECRET] 1) (code_at H RFC_SECRET moment 30) = Some True"

definition totp_rejects_wrong_and_missing_code :: "hmac \<Rightarrow> bool" where
  "totp_rejects_wrong_and_missing_code H \<longleftrightarrow>
     validates H (totp [RFC_SECRET] 1) (Ok ''000000'') = Some False \<and>
     totp_validate H (totp [RFC_SECRET] 1) [] moment = Ok False"

definition totp_accepts_within_skew_and_rejects_outside :: "hmac \<Rightarrow> bool" where
  "totp_accepts_within_skew_and_rejects_outside H \<longleftrightarrow>
     validates H (totp [RFC_SECRET] 1) (code_at H RFC_SECRET (moment - 30) 30) = Some True \<and>
     validates H (totp [RFC_SECRET] 1) (code_at H RFC_SECRET (moment + 60) 30) = Some False"

definition totp_supports_secret_rotation :: "hmac \<Rightarrow> bool" where
  "totp_supports_secret_rotation H \<longleftrightarrow>
     (let old = bytes_of ''old-secret-000000000''; new = bytes_of ''new-secret-111111111'';
          v = totp [old, new] 1 in
      validates H v (code_at H old moment 30) = Some True \<and> validates H v (code_at H new moment 30) = Some True)"

lemma header_get_totp [simp]: "header_get (headers_with ''X-TOTP-Code'' c) ''X-TOTP-Code'' = Some (text_value c)"
  by (simp add: header_get_with)

lemma totp_scan_runs:
  "totp_validate H (totp [RFC_SECRET] 1) (headers_with ''X-TOTP-Code'' c) moment =
     totp_scan H (totp [RFC_SECRET] 1) c [(RFC_SECRET, 56666665), (RFC_SECRET, 56666666), (RFC_SECRET, 56666667)] False"
  by (simp add: totp_validate_def counters_around_def totp_def moment_def Let_def u64_saturating_sub_def
      u64_saturating_add_def upt_rec)

lemma code_of:
  assumes "hmac_sha1 H"
  shows "\<exists>code. hotp H s c 6 MacSha1 = Ok code"
proof -
  obtain tag where "H MacSha1 s (u64_to_be_bytes c) = Some tag" using assms by (auto simp: hmac_sha1_def)
  then have "hotp H s c 6 MacSha1 \<noteq> Err ()" by (simp add: hotp_def Let_def)
  then show ?thesis using hotp_not_Panic [of H s c 6 MacSha1] assms
    by (cases "hotp H s c 6 MacSha1") (auto simp: hmac_sha1_def)
qed

text \<open>A code of the validator's own step is accepted.\<close>

lemma own_step_accepted:
  assumes "hmac_sha1 H" "s \<in> set secrets" "hotp H s (now div 30) 6 MacSha1 = Ok c"
    and "header_get hs ''X-TOTP-Code'' = Some (text_value c)"
  shows "totp_validate H (totp secrets skew) hs now = Ok True"
proof -
  have "unat (now div 30) \<in> window (totp secrets skew) now" by (simp add: window_def totp_def unat_div)
  then show ?thesis using assms totp_accepts_iff [of H "totp secrets skew" hs now]
    by (auto simp: totp_def hmac_sha1_def)
qed

lemma totp_tests:
  assumes "hmac_sha1 H"
  shows "totp_accepts_current_code H" "totp_rejects_wrong_and_missing_code H"
    "totp_accepts_within_skew_and_rejects_outside H" "totp_supports_secret_rotation H"
proof -
  note codes = rfc_codes [OF assms]
  have v: "tv_digits (totp s k) = 6" "tv_digest (totp s k) = MacSha1" for s k by (simp_all add: totp_def)
  show "totp_accepts_current_code H"
    by (simp add: totp_accepts_current_code_def code_at_def validates_def totp_scan_runs v codes)
      (simp add: moment_def codes totp_scan_runs [unfolded moment_def] v)
  show "totp_rejects_wrong_and_missing_code H"
    by (simp add: totp_rejects_wrong_and_missing_code_def validates_def totp_scan_runs v codes)
      (simp add: totp_validate_def)
  show "totp_accepts_within_skew_and_rejects_outside H"
    by (simp add: totp_accepts_within_skew_and_rejects_outside_def code_at_def validates_def)
      (simp add: moment_def codes totp_scan_runs [unfolded moment_def] v)
  obtain c d where c: "hotp H (bytes_of ''old-secret-000000000'') (moment div 30) 6 MacSha1 = Ok c"
    and d: "hotp H (bytes_of ''new-secret-111111111'') (moment div 30) 6 MacSha1 = Ok d"
    using code_of [OF assms] by metis
  show "totp_supports_secret_rotation H"
    using own_step_accepted [OF assms _ c] own_step_accepted [OF assms _ d]
    by (simp add: totp_supports_secret_rotation_def Let_def code_at_def validates_def c d)
qed

section \<open>The configuration\<close>

definition AUTH_VARS :: "string list" where
  "AUTH_VARS = [''AUTH_PROXY_SECRET'', ''AUTH_PROXY_SECRET_HEADER'', ''AUTH_TOTP_SECRET'', ''AUTH_TOTP_SECRET_NEXT'',
     ''AUTH_TOTP_HEADER'', ''AUTH_TOTP_DIGITS'', ''AUTH_TOTP_STEP_SECONDS'', ''AUTH_TOTP_ALGORITHM'',
     ''AUTH_TOTP_SKEW_STEPS'', ''AUTH_METRICS_TOKEN'']"

definition with_clean_auth_env :: "(env \<Rightarrow> 'a) \<Rightarrow> env \<Rightarrow> 'a" where
  "with_clean_auth_env f e = f (\<lambda>v. if v \<in> set AUTH_VARS then None else e v)"

definition from_env_errors_when_both_secrets_missing :: "env \<Rightarrow> bool" where
  "from_env_errors_when_both_secrets_missing = with_clean_auth_env (\<lambda>e.
     case auth_config_from_env e of
       Inl err \<Rightarrow> contains err ''AUTH_PROXY_SECRET'' \<and> contains err ''AUTH_TOTP_SECRET'' | Inr _ \<Rightarrow> False)"

definition from_env_errors_when_only_totp_missing :: "env \<Rightarrow> bool" where
  "from_env_errors_when_only_totp_missing = with_clean_auth_env (\<lambda>e.
     case auth_config_from_env (e(''AUTH_PROXY_SECRET'' \<mapsto> ''s3cr3t'')) of
       Inl err \<Rightarrow> contains err ''AUTH_TOTP_SECRET'' \<and> \<not> contains err ''AUTH_PROXY_SECRET'' | Inr _ \<Rightarrow> False)"

definition from_env_ok_without_metrics_token :: "env \<Rightarrow> bool" where
  "from_env_ok_without_metrics_token = with_clean_auth_env (\<lambda>e.
     case auth_config_from_env (e(''AUTH_PROXY_SECRET'' \<mapsto> ''s3cr3t'', ''AUTH_TOTP_SECRET'' \<mapsto> ''MZXW6'')) of
       Inl _ \<Rightarrow> False | Inr cfg \<Rightarrow> \<not> metrics_enabled cfg)"

definition from_env_ok_with_both_secrets :: "env \<Rightarrow> bool" where
  "from_env_ok_with_both_secrets = with_clean_auth_env (\<lambda>e.
     case auth_config_from_env (e(''AUTH_PROXY_SECRET'' \<mapsto> ''s3cr3t'', ''AUTH_TOTP_SECRET'' \<mapsto> ''MZXW6'',
         ''AUTH_METRICS_TOKEN'' \<mapsto> ''m3trics'')) of
       Inl _ \<Rightarrow> False
     | Inr cfg \<Rightarrow> pv_secret (ac_proxy cfg) = ''s3cr3t'' \<and> tv_secrets (ac_totp cfg) = [bytes_of ''foo''] \<and>
         mv_token (ac_metrics cfg) = Some ''m3trics'')"

definition from_env_errors_on_invalid_base32 :: "env \<Rightarrow> bool" where
  "from_env_errors_on_invalid_base32 = with_clean_auth_env (\<lambda>e.
     case auth_config_from_env (e(''AUTH_PROXY_SECRET'' \<mapsto> ''s3cr3t'', ''AUTH_TOTP_SECRET'' \<mapsto> ''10108'')) of
       Inl err \<Rightarrow> contains err ''base32'' | Inr _ \<Rightarrow> False)"

definition from_env_supports_two_secrets_for_rotation :: "env \<Rightarrow> bool" where
  "from_env_supports_two_secrets_for_rotation = with_clean_auth_env (\<lambda>e.
     case auth_config_from_env (e(''AUTH_PROXY_SECRET'' \<mapsto> ''s3cr3t'', ''AUTH_TOTP_SECRET'' \<mapsto> ''MZXW6'',
         ''AUTH_TOTP_SECRET_NEXT'' \<mapsto> ''MZXW6'', ''AUTH_METRICS_TOKEN'' \<mapsto> ''m3trics'')) of
       Inl _ \<Rightarrow> False | Inr cfg \<Rightarrow> length (tv_secrets (ac_totp cfg)) = 2)"

lemma test_secrets [runs]:
  "base32_decode ''MZXW6'' = Some (bytes_of ''foo'')" "base32_decode ''10108'' = None" "bytes_of ''foo'' \<noteq> []"
  by (simp_all add: runs base32_runs)

lemma auth_env_tests:
  "from_env_errors_when_both_secrets_missing e"
  "from_env_errors_when_only_totp_missing e"
  "from_env_ok_without_metrics_token e"
  "from_env_ok_with_both_secrets e"
  "from_env_errors_on_invalid_base32 e"
  "from_env_supports_two_secrets_for_rotation e"
  by (simp_all add: runs from_env_errors_when_both_secrets_missing_def from_env_errors_when_only_totp_missing_def
      from_env_ok_without_metrics_token_def from_env_ok_with_both_secrets_def from_env_errors_on_invalid_base32_def
      from_env_supports_two_secrets_for_rotation_def with_clean_auth_env_def AUTH_VARS_def auth_config_from_env_def
      auth_errors_def proxy_secret_from_def totp_secret_from_def proxy_secret_missing_def totp_secret_missing_def
      em_dash_def metrics_enabled_def)

section \<open>The middleware\<close>

text \<open>
  A trivial handler behind a level. The second configuration is the first with replay protection;
  \<open>store\<close> is what \<open>app_data\<close> holds. The tests read the clock for the code and the middleware reads it
  again, so \<open>steady\<close> says that these readings lie in one step of the code or in neighbouring ones.
\<close>

definition config :: "string \<Rightarrow> u8 list list \<Rightarrow> auth_config" where
  "config proxy_secret totp_secrets =
     \<lparr>ac_proxy = \<lparr>pv_header = ''X-Proxy-Secret'', pv_secret = proxy_secret\<rparr>, ac_totp = totp totp_secrets 1,
      ac_metrics = \<lparr>mv_token = Some ''metrics-token''\<rparr>, ac_replay = False\<rparr>"

definition config_with_replay_protection :: "string \<Rightarrow> u8 list list \<Rightarrow> auth_config" where
  "config_with_replay_protection proxy_secret totp_secrets = (config proxy_secret totp_secrets)\<lparr>ac_replay := True\<rparr>"

definition guarded_app ::
  "hmac \<Rightarrow> 's jti_store option \<Rightarrow> auth_level \<Rightarrow> auth_config \<Rightarrow> (unit, ('n, 's, 'g) app_world) service" where
  "guarded_app H store level cfg = auth_call H store cfg level body_ok"

definition get_guarded :: "headers \<Rightarrow> request" where
  "get_guarded hs = \<lparr>rq_method = ''GET'', rq_path = ''/x'', rq_headers = hs, rq_peer = None, rq_body = []\<rparr>"

definition current_code :: "hmac \<Rightarrow> u8 list \<Rightarrow> ('n, 's) world \<Rightarrow> (unit, string) outcome" where
  "current_code H secret w = hotp H secret (of_int (max 0 (utc_now w)) div 30) 6 MacSha1"

text \<open>The statuses of requests that carry the code of the moment.\<close>

definition with_current_code ::
  "hmac \<Rightarrow> (unit, ('n, 's, 'g) app_world) service \<Rightarrow> (headers \<Rightarrow> request list) \<Rightarrow> ('n, 's, 'g) app_world
     \<Rightarrow> nat option list option" where
  "with_current_code H app reqs a =
     (case current_code H RFC_SECRET (aw_world a) of
        Ok code \<Rightarrow>
          Some (statuses app (reqs (headers_with ''X-TOTP-Code'' code)) (a\<lparr>aw_world := utc_tick (aw_world a)\<rparr>))
      | _ \<Rightarrow> None)"

definition open_level_passes_without_credentials :: "hmac \<Rightarrow> ('n, string set, 'g) app_world \<Rightarrow> bool" where
  "open_level_passes_without_credentials H a \<longleftrightarrow>
     statuses (guarded_app H None Open (config ''s3cr3t'' [RFC_SECRET])) [get_guarded []] a = [Some 200]"

definition proxy_level_accepts_valid_secret :: "hmac \<Rightarrow> ('n, string set, 'g) app_world \<Rightarrow> bool" where
  "proxy_level_accepts_valid_secret H a \<longleftrightarrow>
     statuses (guarded_app H None ProxySecret (config ''s3cr3t'' [RFC_SECRET]))
       [get_guarded (headers_with ''X-Proxy-Secret'' ''s3cr3t'')] a = [Some 200]"

definition proxy_level_rejects_missing_and_wrong_secret :: "hmac \<Rightarrow> ('n, string set, 'g) app_world \<Rightarrow> bool" where
  "proxy_level_rejects_missing_and_wrong_secret H a \<longleftrightarrow>
     statuses (guarded_app H None ProxySecret (config ''s3cr3t'' [RFC_SECRET]))
       [get_guarded [], get_guarded (headers_with ''X-Proxy-Secret'' ''wrong'')] a = [Some 401, Some 401]"

definition totp_level_accepts_valid_code :: "hmac \<Rightarrow> ('n, string set, 'g) app_world \<Rightarrow> bool" where
  "totp_level_accepts_valid_code H a \<longleftrightarrow>
     with_current_code H (guarded_app H None Totp (config ''s3cr3t'' [RFC_SECRET])) (\<lambda>hs. [get_guarded hs]) a
       = Some [Some 200]"

definition totp_level_rejects_missing_and_wrong_code :: "hmac \<Rightarrow> ('n, string set, 'g) app_world \<Rightarrow> bool" where
  "totp_level_rejects_missing_and_wrong_code H a \<longleftrightarrow>
     statuses (guarded_app H None Totp (config ''s3cr3t'' [RFC_SECRET]))
       [get_guarded [], get_guarded (headers_with ''X-TOTP-Code'' ''000000'')] a = [Some 401, Some 401]"

definition totp_code_is_rejected_on_second_use :: "hmac \<Rightarrow> ('n, string set, 'g) app_world \<Rightarrow> bool" where
  "totp_code_is_rejected_on_second_use H a \<longleftrightarrow>
     with_current_code H
       (guarded_app H (Some (noop_store False)) Totp (config_with_replay_protection ''s3cr3t'' [RFC_SECRET]))
       (\<lambda>hs. [get_guarded hs, get_guarded hs]) (a\<lparr>aw_world := (aw_world a)\<lparr>w_store := {}\<rparr>\<rparr>) = Some [Some 200, Some 401]"

definition totp_replay_protection_is_off_by_default :: "hmac \<Rightarrow> ('n, string set, 'g) app_world \<Rightarrow> bool" where
  "totp_replay_protection_is_off_by_default H a \<longleftrightarrow>
     with_current_code H (guarded_app H (Some (noop_store False)) Totp (config ''s3cr3t'' [RFC_SECRET]))
       (\<lambda>hs. [get_guarded hs, get_guarded hs]) (a\<lparr>aw_world := (aw_world a)\<lparr>w_store := {}\<rparr>\<rparr>) = Some [Some 200, Some 200]"

definition totp_replay_check_fails_open_when_store_unavailable ::
  "hmac \<Rightarrow> ('n, string set, 'g) app_world \<Rightarrow> bool" where
  "totp_replay_check_fails_open_when_store_unavailable H a \<longleftrightarrow>
     with_current_code H
       (guarded_app H (Some (noop_store True)) Totp (config_with_replay_protection ''s3cr3t'' [RFC_SECRET]))
       (\<lambda>hs. [get_guarded hs, get_guarded hs]) (a\<lparr>aw_world := (aw_world a)\<lparr>w_store := {}\<rparr>\<rparr>) = Some [Some 200, Some 200]"

definition totp_fingerprint_differs_per_code :: "hmac \<Rightarrow> bool" where
  "totp_fingerprint_differs_per_code H \<longleftrightarrow>
     (let cfg = config_with_replay_protection ''s3cr3t'' [RFC_SECRET] in
      case (totp_replay_claim H cfg (headers_with ''x-totp-code'' ''111111''),
            totp_replay_claim H cfg (headers_with ''x-totp-code'' ''222222'')) of
        (Some (a, ttl), Some (b, _)) \<Rightarrow> a \<noteq> b \<and> a \<noteq> ''111111'' \<and> ttl = 90
      | _ \<Rightarrow> False)"

definition totp_replay_claim_is_none_without_header :: "hmac \<Rightarrow> bool" where
  "totp_replay_claim_is_none_without_header H \<longleftrightarrow>
     totp_replay_claim H (config_with_replay_protection ''s3cr3t'' [RFC_SECRET]) [] = None"

definition steady :: "('n, 's) world \<Rightarrow> bool" where
  "steady w \<longleftrightarrow>
     (\<forall>k \<le> 2. 0 \<le> utc_now w \<and> utc_now w div 30 \<le> w_utc w (w_utc_tick w + k) div 30 \<and>
        w_utc w (w_utc_tick w + k) div 30 \<le> utc_now w div 30 + 1 \<and> w_utc w (w_utc_tick w + k) < 2 ^ 63)"

lemma simple_level_tests:
  "open_level_passes_without_credentials H a"
  "proxy_level_accepts_valid_secret H a"
  "proxy_level_rejects_missing_and_wrong_secret H a"
  "totp_replay_claim_is_none_without_header H"
  by (simp_all add: open_level_passes_without_credentials_def proxy_level_accepts_valid_secret_def
      proxy_level_rejects_missing_and_wrong_secret_def totp_replay_claim_is_none_without_header_def guarded_app_def
      statuses_def auth_call_def auth_decide_def authorize_def replay_check_def get_guarded_def config_def
      config_with_replay_protection_def proxy_validate_def header_get_with body_ok_def unauthorized_response_def
      totp_replay_claim_def code_fingerprint_def)

text \<open>One request through the level of the code, by what the validator and the store answer.\<close>

lemma guarded_totp:
  assumes "totp_validate H (ac_totp cfg) hs (of_int (max 0 (utc_now (aw_world a)))) = Ok b"
  shows "guarded_app H store Totp cfg (get_guarded hs) a =
     (if b then (case replay_check H store cfg Totp hs (utc_tick (aw_world a)) of
        (True, w) \<Rightarrow> body_ok (get_guarded hs) (a\<lparr>aw_world := w\<rparr>)
      | (False, w) \<Rightarrow> (Ok unauthorized_response, a\<lparr>aw_world := record_metric (AuthDenied ''totp'') w\<rparr>))
      else (Ok unauthorized_response, a\<lparr>aw_world := record_metric (AuthDenied ''totp'') (utc_tick (aw_world a))\<rparr>))"
  using assms
  by (auto simp: guarded_app_def auth_call_def auth_decide_def authorize_def get_guarded_def split: prod.splits bool.splits)

text \<open>The code of a reading is accepted at the next readings.\<close>

lemma steady_code:
  assumes H: "hmac_sha1 H" and w: "steady w" and c: "current_code H RFC_SECRET w = Ok code"
    and k: "w_utc w' = w_utc w" "w_utc_tick w' = w_utc_tick w + k" "k \<le> 2"
  shows "totp_validate H (totp [RFC_SECRET] 1) (headers_with ''X-TOTP-Code'' code) (of_int (max 0 (utc_now w'))) = Ok True"
proof -
  let ?n = "nat (utc_now w)" and ?m = "nat (w_utc w (w_utc_tick w + k))"
  have b: "0 \<le> utc_now w" "utc_now w div 30 \<le> w_utc w (w_utc_tick w + k) div 30"
    "w_utc w (w_utc_tick w + k) div 30 \<le> utc_now w div 30 + 1" "w_utc w (w_utc_tick w + k) < 2 ^ 63"
    "utc_now w < 2 ^ 63"
    using w k(3) unfolding steady_def by (auto simp: utc_now_def dest: spec [of _ k] spec [of _ 0])
  have u: "unat (of_int x :: u64) = nat x" if "0 \<le> x" "x < 2 ^ 63" for x
    using unat_as_usize [OF that] by (simp add: as_usize_def)
  have p: "0 \<le> w_utc w (w_utc_tick w + k)" using b(1,2) by presburger
  have d: "?n div 30 = nat (utc_now w div 30)" "?m div 30 = nat (w_utc w (w_utc_tick w + k) div 30)"
    using b(1) p by (simp_all add: nat_div_distrib)
  have now: "utc_now w' = w_utc w (w_utc_tick w + k)" unfolding utc_now_def k(1,2) ..
  have "?m div 30 - 1 \<le> ?n div 30" "?n div 30 \<le> ?m div 30 + 1" using b(2,3) unfolding d by linarith+
  then have "?n div 30 \<in> window (totp [RFC_SECRET] 1) (of_int (max 0 (utc_now w')))"
    unfolding now window_def totp_def using p u [OF p b(4)] by simp
  moreover have "unat (of_int (max 0 (utc_now w)) div 30 :: u64) = ?n div 30"
    using u [OF b(1,5)] b(1) by (simp add: unat_div)
  ultimately have "\<exists>c. unat c \<in> window (totp [RFC_SECRET] 1) (of_int (max 0 (utc_now w'))) \<and>
      hotp H RFC_SECRET c 6 MacSha1 = Ok code"
    using c unfolding current_code_def by metis
  then show ?thesis
    using totp_accepts_iff [of H "totp [RFC_SECRET] 1"] H by (simp add: totp_def hmac_sha1_def)
qed

text \<open>A request with the code of the moment, at the next reading of the clock or the one after it.\<close>

lemma steady_request:
  assumes H: "hmac_sha1 H" and w: "steady (aw_world a)" and c: "current_code H RFC_SECRET (aw_world a) = Ok code"
    and k: "w_utc (aw_world b) = w_utc (aw_world a)"
      "w_utc_tick (aw_world b) = Suc (w_utc_tick (aw_world a)) \<or> w_utc_tick (aw_world b) = Suc (Suc (w_utc_tick (aw_world a)))"
    and cfg: "ac_totp cfg = totp [RFC_SECRET] 1"
  shows "guarded_app H store Totp cfg (get_guarded (headers_with ''X-TOTP-Code'' code)) b =
     (case replay_check H store cfg Totp (headers_with ''X-TOTP-Code'' code) (utc_tick (aw_world b)) of
        (True, w) \<Rightarrow> body_ok (get_guarded (headers_with ''X-TOTP-Code'' code)) (b\<lparr>aw_world := w\<rparr>)
      | (False, w) \<Rightarrow> (Ok unauthorized_response, b\<lparr>aw_world := record_metric (AuthDenied ''totp'') w\<rparr>))"
proof -
  obtain j where "w_utc_tick (aw_world b) = w_utc_tick (aw_world a) + j" "j \<le> 2"
    using k(2) by (elim disjE) (rule that [of 1], simp, simp, rule that [of 2], simp_all)
  from steady_code [OF H w c k(1) this] show ?thesis
    using guarded_totp [of H cfg "headers_with ''X-TOTP-Code'' code" b True store] by (simp add: cfg)
qed

lemma totp_level_tests:
  assumes H: "hmac_sha1 H" and w: "steady (aw_world a)" and fp: "\<And>m. H MacSha256 RFC_SECRET m \<noteq> None"
  shows "totp_level_accepts_valid_code H a"
    "totp_replay_protection_is_off_by_default H a"
    "totp_replay_check_fails_open_when_store_unavailable H a"
    "totp_code_is_rejected_on_second_use H a"
proof -
  obtain code where c: "current_code H RFC_SECRET (aw_world a) = Ok code"
    using code_of [OF H] by (auto simp: current_code_def)
  let ?b = "a\<lparr>aw_world := (aw_world a)\<lparr>w_store := {}\<rparr>\<rparr>"
  have cb: "current_code H RFC_SECRET (aw_world ?b) = Ok code" using c by (simp add: current_code_def utc_now_def)
  have wb: "steady (aw_world ?b)" using w by (simp add: steady_def utc_now_def)
  have cfg: "ac_totp (config s k) = totp k 1" "ac_totp (config_with_replay_protection s k) = totp k 1"
    "\<not> ac_replay (config s k)" "ac_replay (config_with_replay_protection s k)" for s k
    by (simp_all add: config_def config_with_replay_protection_def)
  obtain f ttl where f: "totp_replay_claim H (config_with_replay_protection ''s3cr3t'' [RFC_SECRET])
      (headers_with ''X-TOTP-Code'' code) = Some (f, ttl)"
    using fp [of "bytes_of code"]
    by (auto simp: totp_replay_claim_def code_fingerprint_def cfg totp_def header_get_with split: option.splits)
  note r = with_current_code_def statuses_def cfg replay_check_def utc_tick_def body_ok_def unauthorized_response_def
    record_metric_def
  show "totp_level_accepts_valid_code H a"
    by (simp add: totp_level_accepts_valid_code_def r c steady_request [OF H w c])
  show "totp_replay_protection_is_off_by_default H a"
    by (simp add: totp_replay_protection_is_off_by_default_def r cb [simplified] steady_request [OF H wb cb, simplified])
  show "totp_replay_check_fails_open_when_store_unavailable H a"
    by (simp add: totp_replay_check_fails_open_when_store_unavailable_def r f cb [simplified]
        steady_request [OF H wb cb, simplified])
  show "totp_code_is_rejected_on_second_use H a"
    by (simp add: totp_code_is_rejected_on_second_use_def r f cb [simplified] steady_request [OF H wb cb, simplified])
qed

text \<open>A wrong code is denied as long as no counter of the moment's windows happens to give it.\<close>

lemma wrong_code_test:
  assumes H: "hmac_sha1 H"
    and c: "\<And>n k. k \<le> 1 \<Longrightarrow> unat n \<in> window (totp [RFC_SECRET] 1)
        (of_int (max 0 (w_utc (aw_world a) (w_utc_tick (aw_world a) + k)))) \<Longrightarrow> hotp H RFC_SECRET n 6 MacSha1 \<noteq> Ok ''000000''"
  shows "totp_level_rejects_missing_and_wrong_code H a"
proof -
  have cfg: "ac_totp (config s k) = totp k 1" for s k by (simp add: config_def)
  have none: "totp_validate H (totp [RFC_SECRET] 1) [] now = Ok False" for now by (simp add: totp_validate_def)
  have wrong: "totp_validate H (totp [RFC_SECRET] 1) (headers_with ''X-TOTP-Code'' ''000000'')
      (of_int (max 0 (w_utc (aw_world a) (w_utc_tick (aw_world a) + 1)))) = Ok False"
    using totp_accepts_iff [of H "totp [RFC_SECRET] 1"] H c [of 1] by (auto simp: totp_def hmac_sha1_def)
  show ?thesis
    using guarded_totp [of H "config ''s3cr3t'' [RFC_SECRET]" "[]" a False None, simplified cfg, OF none]
      guarded_totp [of H "config ''s3cr3t'' [RFC_SECRET]" "headers_with ''X-TOTP-Code'' ''000000''"
        "a\<lparr>aw_world := record_metric (AuthDenied ''totp'') (utc_tick (aw_world a))\<rparr>" False None, simplified cfg] wrong
    by (simp add: totp_level_rejects_missing_and_wrong_code_def statuses_def unauthorized_response_def utc_tick_def
        utc_now_def record_metric_def)
qed

text \<open>Different tags have different fingerprints, of twice as many characters.\<close>

lemma hex_digit_inject: "hex_digit n = hex_digit m \<Longrightarrow> n < 16 \<Longrightarrow> m < 16 \<Longrightarrow> n = m"
proof -
  assume h: "hex_digit n = hex_digit m" and n: "n < 16" and m: "m < 16"
  have b: "byte_of (hex_digit k) = (if k < 10 then 48 + k else 87 + k)" if "k < 16" for k
    using that by (simp add: hex_digit_def)
  show "n = m" using arg_cong [OF h, of byte_of] b [OF n] b [OF m] n m by (simp split: if_splits)
qed

lemma hex_of_bytes_inject: "hex_of_bytes xs = hex_of_bytes ys \<longleftrightarrow> xs = ys"
proof (induction xs arbitrary: ys)
  case Nil
  then show ?case by (cases ys) (simp_all add: hex_of_bytes_def)
next
  case (Cons x xs)
  have inj: "y = x" if "hex_digit (unat x div 16) = hex_digit (unat y div 16)"
    "hex_digit (unat x mod 16) = hex_digit (unat y mod 16)" for y :: u8
  proof -
    have "unat x < 256" "unat y < 256" using unsigned_less [of x] unsigned_less [of y] by simp_all
    then have "unat x div 16 = unat y div 16" "unat x mod 16 = unat y mod 16"
      using hex_digit_inject [OF that(1)] hex_digit_inject [OF that(2)] by auto
    then show ?thesis by (metis div_mult_mod_eq word_unat_eq_iff)
  qed
  show ?case using Cons.IH inj by (cases ys) (auto simp: hex_of_bytes_def)
qed

lemma length_hex_of_bytes: "length (hex_of_bytes bs) = 2 * length bs"
  by (induction bs) (simp_all add: hex_of_bytes_def)

lemma fingerprint_test:
  assumes "H MacSha256 RFC_SECRET (bytes_of ''111111'') = Some s" "H MacSha256 RFC_SECRET (bytes_of ''222222'') = Some t"
    and "s \<noteq> t" "length s = 32"
  shows "totp_fingerprint_differs_per_code H"
proof -
  have "hex_of_bytes s \<noteq> ''111111''" using assms(4) length_hex_of_bytes [of s] by auto
  then show ?thesis using assms(1-3)
    by (simp add: totp_fingerprint_differs_per_code_def totp_replay_claim_def config_with_replay_protection_def config_def
        totp_def code_fingerprint_def header_get_with runs hex_of_bytes_inject replay_window_seconds_def)
qed

end
