(* ===== verification/Token_Tests.thy ===== *)
theory Token_Tests
  imports Test_Support Test_Stores Jwt_Manager
begin

text \<open>
  The unit tests of \<open>models/jwt.rs\<close>, \<open>jwt.rs\<close> and \<open>key.rs\<close> on the model, over the stores of
  \<open>Test_Stores\<close>. OpenSSL, base64 and serde_json are parameters; what a test relies on of them is a
  hypothesis of the lemma that it passes.
\<close>

section \<open>Fixtures\<close>

text \<open>\<open>now + 3600\<close> is an addition of \<open>usize\<close>.\<close>

definition sample_claims :: "u64 \<Rightarrow> 'v token_claims" where
  "sample_claims now =
     \<lparr>tc_iss = ''issuer'', tc_sub = ''subject'', tc_aud = [''api1'', ''api2''], tc_exp = now + 3600, tc_iat = now,
      tc_nbf = now, tc_jti = ''jti-1'', tc_extra = []\<rparr>"

definition headers_with_alg :: "string \<Rightarrow> token_headers" where
  "headers_with_alg alg = \<lparr>th_alg = alg, th_kid = ''kid-1'', th_typ = ''JWT'', th_jku = None\<rparr>"

text \<open>One reading of the clock by a test, and a world whose store is the given one.\<close>

definition test_now :: "('n, 's) world \<Rightarrow> u64" where
  "test_now w = as_usize (utc_now w)"

definition over :: "'s \<Rightarrow> ('n, 's) world \<Rightarrow> ('n, 's) world" where
  "over s w = w\<lparr>w_store := s\<rparr>"

definition mock_insert :: "string \<Rightarrow> mock_state \<Rightarrow> mock_state" where
  "mock_insert jti m = m\<lparr>ms_jtis := insert jti (ms_jtis m)\<rparr>"

text \<open>The readings a test and the code make never go back and stay within a minute.\<close>

definition within_a_minute :: "('n, 's) world \<Rightarrow> bool" where
  "within_a_minute w \<longleftrightarrow>
     7200 \<le> utc_now w \<and>
     (\<forall>i j. i \<le> j \<and> j \<le> 3 \<longrightarrow> (let t = \<lambda>k. w_utc w (w_utc_tick w + k) in
        t i \<le> t j \<and> t j < t i + 60 \<and> t j < 2 ^ 52))"

section \<open>Segments\<close>

definition claims_base64_roundtrip ::
  "('b, 'g, 'p, 'k) crypto \<Rightarrow> 'v json_codec \<Rightarrow> u64 \<Rightarrow> bool" where
  "claims_base64_roundtrip C J now \<longleftrightarrow>
     (let claims = sample_claims now in
      case claims_to_base64 C J claims of
        Inl _ \<Rightarrow> False
      | Inr seg \<Rightarrow>
          (case claims_from_base64 C J seg of
             Inl _ \<Rightarrow> False
           | Inr decoded \<Rightarrow>
               tc_iss decoded = tc_iss claims \<and> tc_sub decoded = tc_sub claims \<and> tc_aud decoded = tc_aud claims \<and>
               tc_exp decoded = tc_exp claims \<and> tc_iat decoded = tc_iat claims \<and> tc_nbf decoded = tc_nbf claims \<and>
               tc_jti decoded = tc_jti claims))"

definition claims_from_base64_rejects_invalid_base64 ::
  "('b, 'g, 'p, 'k) crypto \<Rightarrow> 'v json_codec \<Rightarrow> bool" where
  "claims_from_base64_rejects_invalid_base64 C J \<longleftrightarrow> claims_from_base64 C J ''!!!not-base64!!!'' = Inl Broken"

definition claims_from_base64_rejects_non_json :: "('b, 'g, 'p, 'k) crypto \<Rightarrow> 'v json_codec \<Rightarrow> bool" where
  "claims_from_base64_rejects_non_json C J \<longleftrightarrow>
     claims_from_base64 C J (cr_b64_encode C ''just a string'') = Inl Broken"

definition header_from_base64_rejects_invalid :: "('b, 'g, 'p, 'k) crypto \<Rightarrow> 'v json_codec \<Rightarrow> bool" where
  "header_from_base64_rejects_invalid C J \<longleftrightarrow> headers_from_base64 C J ''!!!not-base64!!!'' = Inl Broken"

definition from_string_rejects_malformed_token ::
  "('b, 'g, 'p, 'k, 'v, 'n, mock_state) deps \<Rightarrow> ('n, mock_state) world \<Rightarrow> bool" where
  "from_string_rejects_malformed_token D w \<longleftrightarrow>
     fst (token_from_string (D\<lparr>dp_store := mock_store\<rparr>) ''not-a-jwt'' ''issuer'' ''api1''
       ((over mock_new w)\<lparr>w_keys := key_manager_new (km_service (w_keys w)) ''RS256''\<rparr>)) = Err Broken"

definition header_roundtrip_and_verify ::
  "env \<Rightarrow> ('b, 'g, 'p, 'k) crypto \<Rightarrow> 'v json_codec \<Rightarrow> bool" where
  "header_roundtrip_and_verify e C J \<longleftrightarrow>
     (case headers_to_base64 C J (headers_create_new e ''kid-1'') of
        Inl _ \<Rightarrow> False
      | Inr seg \<Rightarrow>
          (case headers_from_base64 C J seg of
             Inl _ \<Rightarrow> False
           | Inr decoded \<Rightarrow> th_kid decoded = ''kid-1'' \<and> th_typ decoded = ''JWT'' \<and> headers_is_verify e decoded))"

text \<open>Encoding succeeds; an exclamation mark is not in the alphabet; a bare text is no object of claims.\<close>

lemma segment_tests:
  assumes l: "lawful_crypto C pair" "lawful_json J" and t: "\<And>c. sj_claims_to J c \<noteq> None" "\<And>h. sj_headers_to J h \<noteq> None"
    and b: "cr_b64_decode C ''!!!not-base64!!!'' = None" and j: "sj_claims_from J ''just a string'' = None"
    and e: "env_or e ''TOKEN_ALGORITHM'' ''RS256'' \<in> set SUPPORTED_ALGORITHMS"
  shows "claims_base64_roundtrip C J now"
    and "claims_from_base64_rejects_invalid_base64 C J"
    and "claims_from_base64_rejects_non_json C J"
    and "header_from_base64_rejects_invalid C J"
    and "header_roundtrip_and_verify e C J"
    and "from_string_rejects_malformed_token D w"
proof -
  have p: "plain_claims (sample_claims now)" by (simp add: plain_claims_def sample_claims_def)
  obtain s where s: "claims_to_base64 C J (sample_claims now) = Inr s"
    using t(1) [of "sample_claims now"] by (cases "sj_claims_to J (sample_claims now)") (simp_all add: claims_to_base64_def)
  show "claims_base64_roundtrip C J now"
    using claims_roundtrip [OF l p s] s by (simp add: claims_base64_roundtrip_def)
  obtain h where h: "headers_to_base64 C J (headers_create_new e ''kid-1'') = Inr h"
    using t(2) [of "headers_create_new e ''kid-1''"]
    by (cases "sj_headers_to J (headers_create_new e ''kid-1'')") (simp_all add: headers_to_base64_def)
  show "header_roundtrip_and_verify e C J"
    using headers_roundtrip [OF l h] h e by (simp add: header_roundtrip_and_verify_def headers_is_verify_def headers_create_new_def)
  show "claims_from_base64_rejects_invalid_base64 C J" "header_from_base64_rejects_invalid C J"
    using b by (simp_all add: claims_from_base64_rejects_invalid_base64_def header_from_base64_rejects_invalid_def
        claims_from_base64_def headers_from_base64_def segment_text_def)
  have "cr_b64_decode C (cr_b64_encode C ''just a string'') = Some ''just a string''" using l(1) by (simp add: lawful_crypto_def)
  then show "claims_from_base64_rejects_non_json C J"
    using j by (simp add: claims_from_base64_rejects_non_json_def claims_from_base64_def segment_text_def)
  show "from_string_rejects_malformed_token D w"
    by (simp add: from_string_rejects_malformed_token_def token_from_string_def fail_def)
qed

section \<open>The check of claims\<close>

text \<open>
  A store with the identifier or without, and claims made from a reading of the clock, checked at the
  next.
\<close>

definition checked ::
  "mock_state \<Rightarrow> (u64 \<Rightarrow> 'v token_claims) \<Rightarrow> string \<Rightarrow> string \<Rightarrow> ('n, mock_state) world \<Rightarrow> bool" where
  "checked m claims issuer audience w =
     fst (claims_is_verify mock_store (claims (test_now w)) issuer audience (over m (utc_tick w)))"

definition is_verify_accepts_valid_claims :: "('n, mock_state) world \<Rightarrow> bool" where
  "is_verify_accepts_valid_claims w \<longleftrightarrow>
     checked (mock_insert ''jti-1'' mock_new) (sample_claims :: u64 \<Rightarrow> unit token_claims) ''issuer'' ''api2'' w"

definition is_verify_rejects_wrong_issuer :: "('n, mock_state) world \<Rightarrow> bool" where
  "is_verify_rejects_wrong_issuer w \<longleftrightarrow>
     \<not> checked (mock_insert ''jti-1'' mock_new) (sample_claims :: u64 \<Rightarrow> unit token_claims) ''other-issuer'' ''api1'' w"

definition is_verify_rejects_wrong_audience :: "('n, mock_state) world \<Rightarrow> bool" where
  "is_verify_rejects_wrong_audience w \<longleftrightarrow>
     \<not> checked (mock_insert ''jti-1'' mock_new) (sample_claims :: u64 \<Rightarrow> unit token_claims) ''issuer'' ''unknown-aud'' w"

definition is_verify_rejects_expired_token :: "('n, mock_state) world \<Rightarrow> bool" where
  "is_verify_rejects_expired_token w \<longleftrightarrow>
     (let now = test_now w in
      \<not> checked (mock_insert ''jti-1'' mock_new)
        (\<lambda>t. (sample_claims t :: unit token_claims)\<lparr>tc_iat := now - 7200, tc_nbf := now - 7200, tc_exp := now - 3600\<rparr>)
        ''issuer'' ''api1'' (utc_tick w))"

definition is_verify_rejects_not_yet_valid_token :: "('n, mock_state) world \<Rightarrow> bool" where
  "is_verify_rejects_not_yet_valid_token w \<longleftrightarrow>
     (let now = test_now w in
      \<not> checked (mock_insert ''jti-1'' mock_new) (\<lambda>t. (sample_claims t :: unit token_claims)\<lparr>tc_nbf := now + 3600\<rparr>)
        ''issuer'' ''api1'' (utc_tick w))"

definition is_verify_rejects_missing_jti :: "('n, mock_state) world \<Rightarrow> bool" where
  "is_verify_rejects_missing_jti w \<longleftrightarrow>
     \<not> checked mock_new (sample_claims :: u64 \<Rightarrow> unit token_claims) ''issuer'' ''api1'' w"

lemma minute_readings:
  assumes "within_a_minute w" "i \<le> j" "j \<le> 3"
  shows "w_utc w (w_utc_tick w + i) \<le> w_utc w (w_utc_tick w + j)"
    "w_utc w (w_utc_tick w + j) < w_utc w (w_utc_tick w + i) + 60"
    "7200 \<le> w_utc w (w_utc_tick w + j)" "w_utc w (w_utc_tick w + j) < 2 ^ 52"
proof -
  have a: "w_utc w (w_utc_tick w + i) \<le> w_utc w (w_utc_tick w + j) \<and>
      w_utc w (w_utc_tick w + j) < w_utc w (w_utc_tick w + i) + 60 \<and> w_utc w (w_utc_tick w + j) < 2 ^ 52"
    if "i \<le> j" "j \<le> 3" for i j using assms(1) that unfolding within_a_minute_def Let_def by blast
  have z: "7200 \<le> w_utc w (w_utc_tick w + 0)" using assms(1) by (simp add: within_a_minute_def utc_now_def)
  show "w_utc w (w_utc_tick w + i) \<le> w_utc w (w_utc_tick w + j)"
    "w_utc w (w_utc_tick w + j) < w_utc w (w_utc_tick w + i) + 60" "w_utc w (w_utc_tick w + j) < 2 ^ 52"
    using a [OF assms(2,3)] by blast+
  show "7200 \<le> w_utc w (w_utc_tick w + j)" using a [of 0 j] assms(3) z by simp
qed

lemma as_usize_arith: "as_usize t + 3600 = as_usize (t + 3600)" "as_usize t - 3600 = as_usize (t - 3600)"
  "as_usize t - 7200 = as_usize (t - 7200)"
  by (simp_all add: as_usize_def)

lemma claim_check_tests:
  assumes "within_a_minute w"
  shows "is_verify_accepts_valid_claims w"
    and "is_verify_rejects_wrong_issuer w"
    and "is_verify_rejects_wrong_audience w"
    and "is_verify_rejects_expired_token w"
    and "is_verify_rejects_not_yet_valid_token w"
    and "is_verify_rejects_missing_jti w"
proof -
  note h = minute_readings [OF assms]
  let ?t = "\<lambda>k. w_utc w (w_utc_tick w + k)"
  have b: "7200 \<le> ?t 0" "?t 0 \<le> ?t 1" "?t 1 < ?t 0 + 60" "?t 1 \<le> ?t 2" "?t 0 \<le> ?t 2" "?t 2 < ?t 0 + 60" "?t 2 < 2 ^ 52"
    "?t 1 < 2 ^ 52" "?t 0 < 2 ^ 52"
    using h(1) [of 0 1] h(2) [of 0 1] h(1) [of 1 2] h(1,2,3,4) [of 0 2] h(4) [of 0 1] h(3,4) [of 0 0] by simp_all
  note d = checked_def claims_is_verify_def claims_valid_at_def over_def test_now_def utc_tick_def utc_now_def
    sample_claims_def mock_insert_def mock_new_def Let_def as_usize_arith as_usize_less as_usize_le
  show "is_verify_accepts_valid_claims w" using b by (simp add: is_verify_accepts_valid_claims_def d)
  show "is_verify_rejects_wrong_issuer w" by (simp add: is_verify_rejects_wrong_issuer_def d)
  show "is_verify_rejects_wrong_audience w" by (simp add: is_verify_rejects_wrong_audience_def d)
  show "is_verify_rejects_expired_token w" using b by (simp add: is_verify_rejects_expired_token_def d numeral_2_eq_2)
  show "is_verify_rejects_not_yet_valid_token w" using b by (simp add: is_verify_rejects_not_yet_valid_token_def d numeral_2_eq_2)
  show "is_verify_rejects_missing_jti w" using b by (simp add: is_verify_rejects_missing_jti_def d)
qed

section \<open>Issuing claims\<close>

text \<open>The call of the tests over a fresh store, and the deps with that store.\<close>

definition mocked :: "('b, 'g, 'p, 'k, 'v, 'n, mock_state) deps \<Rightarrow> ('b, 'g, 'p, 'k, 'v, 'n, mock_state) deps" where
  "mocked D = D\<lparr>dp_store := mock_store\<rparr>"

definition created ::
  "('b, 'g, 'p, 'k, 'v, 'n, 's) deps \<Rightarrow> 's \<Rightarrow> string list \<Rightarrow> u64 option \<Rightarrow> 'v json_object \<Rightarrow> ('n, 's) world
     \<Rightarrow> (jwt_error, 'v token_claims) outcome \<times> ('n, 's) world" where
  "created D s audience ttl extra w = claims_create_new D ''issuer'' ''subject'' audience ttl extra (over s w)"

definition create_new_builds_valid_claims_and_stores_jti ::
  "(string \<Rightarrow> bool) \<Rightarrow> ('b, 'g, 'p, 'k, 'v, 'n, mock_state) deps \<Rightarrow> ('n, mock_state) world \<Rightarrow> bool" where
  "create_new_builds_valid_claims_and_stores_jti is_uuid D w \<longleftrightarrow>
     (case created (mocked D) mock_new [''api1''] None [] w of
        (Ok claims, w') \<Rightarrow>
          tc_iss claims = ''issuer'' \<and> tc_sub claims = ''subject'' \<and> tc_aud claims = [''api1''] \<and>
          tc_iat claims = tc_nbf claims \<and> tc_iat claims < tc_exp claims \<and> is_uuid (tc_jti claims) \<and>
          fst (js_check_jti mock_store (tc_jti claims) (w_store w')) = Inr True
      | _ \<Rightarrow> False)"

definition create_new_rejects_empty_audience ::
  "('b, 'g, 'p, 'k, 'v, 'n, mock_state) deps \<Rightarrow> ('n, mock_state) world \<Rightarrow> bool" where
  "create_new_rejects_empty_audience D w \<longleftrightarrow>
     fst (created (mocked D) mock_new [] None [] w) = Err UnprocessableEntity"

text \<open>The test reads the clock before and after.\<close>

definition create_new_honors_custom_ttl ::
  "('b, 'g, 'p, 'k, 'v, 'n, mock_state) deps \<Rightarrow> ('n, mock_state) world \<Rightarrow> bool" where
  "create_new_honors_custom_ttl D w \<longleftrightarrow>
     (let before = test_now w in
      case created (mocked D) mock_new [''api1''] (Some 120) [] (utc_tick w) of
        (Ok claims, w') \<Rightarrow>
          (let after = test_now w' in
           before + 120 \<le> tc_exp claims \<and> tc_exp claims \<le> after + 120 \<and> tc_exp claims = tc_iat claims + 120)
      | _ \<Rightarrow> False)"

definition create_new_rejects_ttl_below_min ::
  "('b, 'g, 'p, 'k, 'v, 'n, mock_state) deps \<Rightarrow> ('n, mock_state) world \<Rightarrow> bool" where
  "create_new_rejects_ttl_below_min D w \<longleftrightarrow>
     fst (created (mocked D) mock_new [''api1''] (Some 0) [] w) = Err UnprocessableEntity"

definition create_new_rejects_ttl_above_max ::
  "('b, 'g, 'p, 'k, 'v, 'n, mock_state) deps \<Rightarrow> ('n, mock_state) world \<Rightarrow> bool" where
  "create_new_rejects_ttl_above_max D w \<longleftrightarrow>
     fst (created (mocked D) mock_new [''api1''] (Some 86401) [] w) = Err UnprocessableEntity"

definition create_new_fails_when_store_unavailable ::
  "('b, 'g, 'p, 'k, 'v, 'n, unit) deps \<Rightarrow> ('n, unit) world \<Rightarrow> bool" where
  "create_new_fails_when_store_unavailable D w \<longleftrightarrow>
     fst (created (D\<lparr>dp_store := failing_store\<rparr>) () [''api1''] None [] w) = Err StoreError"

definition create_new_fails_when_group_index_unavailable ::
  "('b, 'g, 'p, 'k, 'v, 'n, string set) deps \<Rightarrow> ('n, string set) world \<Rightarrow> bool" where
  "create_new_fails_when_group_index_unavailable D w \<longleftrightarrow>
     fst (created (D\<lparr>dp_store := failing_group_store\<rparr>) {} [''api1''] None [] w) = Err StoreError"

definition subject_group_is_namespaced :: bool where
  "subject_group_is_namespaced \<longleftrightarrow> subject_group ''user1'' = ''group:sub:user1''"

definition create_new_rejects_reserved_custom_claim ::
  "'v \<Rightarrow> ('b, 'g, 'p, 'k, 'v, 'n, mock_state) deps \<Rightarrow> ('n, mock_state) world \<Rightarrow> bool" where
  "create_new_rejects_reserved_custom_claim v D w \<longleftrightarrow>
     fst (created (mocked D) mock_new [''api1''] None [(''exp'', v)] w) = Err UnprocessableEntity"

text \<open>
  The environment of the tests sets none of the limits, and \<open>chrono\<close> adds small numbers without
  overflow.
\<close>

definition plain_deps :: "('b, 'g, 'p, 'k, 'v, 'n, 's) deps \<Rightarrow> bool" where
  "plain_deps D \<longleftrightarrow>
     (\<forall>v \<in> {''TOKEN_EXPIRATION_SECONDS'', ''TOKEN_TTL_MIN_SECONDS'', ''TOKEN_TTL_MAX_SECONDS'', ''TOKEN_CLAIMS_MAX_COUNT'',
        ''TOKEN_CLAIMS_MAX_BYTES'', ''REFRESH_TOKEN_TTL_SECONDS''}. dp_env D v = None) \<and>
     (\<forall>a b. \<bar>a\<bar> < 2 ^ 52 \<longrightarrow> \<bar>b\<bar> \<le> 2592000 \<longrightarrow> dp_plus D a b = Some (a + b))"

lemma plain_env:
  assumes "plain_deps D"
  shows "expiration_seconds (dp_env D) None = Inr 3600" "expiration_seconds (dp_env D) (Some 120) = Inr 120"
    "expiration_seconds (dp_env D) (Some 0) = Inl UnprocessableEntity"
    "expiration_seconds (dp_env D) (Some 86401) = Inl UnprocessableEntity"
  using assms by (simp_all add: plain_deps_def expiration_seconds_def env_or_def env_u64_def runs)

lemma no_custom_claims [simp]: "validate_custom_claims e J [] = Inr ()"
  by (simp add: validate_custom_claims_def)

text \<open>What \<open>create_new\<close> makes over a store in memory.\<close>

lemma mock_create:
  assumes D: "plain_deps D" and w: "within_a_minute w" and k: "k \<le> 1" and secs: "expiration_seconds (dp_env D) ttl = Inr secs"
    "secs \<in> {120, 3600}"
    and v: "w_utc v = w_utc w" "w_utc_tick v = w_utc_tick w + k"
  shows "\<exists>v'. created (mocked D) mock_new [''api1''] ttl [] v =
      (Ok (new_claims ''issuer'' ''subject'' [''api1''] (utc_now v) (utc_now v + int (unat secs)) (uuid_next v) []), v') \<and>
     uuid_next v \<in> ms_jtis (w_store v') \<and> w_utc v' = w_utc w \<and> w_utc_tick v' = w_utc_tick w + k + 2"
proof -
  note h = minute_readings [OF w]
  let ?t = "\<lambda>k. w_utc w (w_utc_tick w + k)"
  have now: "utc_now v = ?t k" "7200 \<le> ?t k" "?t k < 2 ^ 52" using h(3,4) [of k k] v k by (simp_all add: utc_now_def)
  have nxt: "?t k \<le> ?t (k + 1)" "?t (k + 1) < ?t k + 60" "?t (k + 1) < 2 ^ 52" using h(1,2,4) [of k "k + 1"] k by simp_all
  have s: "as_i64 secs = int (unat secs)" "int (unat secs) = 120 \<or> int (unat secs) = 3600"
    using secs(2) by (auto simp: as_i64_small)
  have plus: "dp_plus D (?t k) (int (unat secs)) = Some (?t k + int (unat secs))"
    using D now(2,3) s(2) by (auto simp: plain_deps_def)
  have ok: "as_usize (?t k) \<le> as_usize (?t (k + 1))" "as_usize (?t (k + 1)) < as_usize (?t k + int (unat secs))"
    using now nxt s(2) by (auto simp: as_usize_le as_usize_less)
  show ?thesis
    using secs(1) plus ok s(1) unfolding created_def mocked_def over_def
    by (simp add: claims_create_new_def and_then_def pure_step_def Let_def store_call_def claims_is_verify_def
        claims_valid_at_def new_claims_def now v utc_now_def utc_tick_def uuid_tick_def uuid_next_def mock_new_def)
qed

lemma create_new_tests:
  assumes D: "plain_deps D" and w: "within_a_minute w" and u: "\<And>n. is_uuid (w_uuid w n)"
  shows "create_new_builds_valid_claims_and_stores_jti is_uuid D w"
    and "create_new_rejects_empty_audience D w"
    and "create_new_honors_custom_ttl D w"
    and "create_new_rejects_ttl_below_min D w"
    and "create_new_rejects_ttl_above_max D w"
    and "create_new_rejects_reserved_custom_claim v D w"
proof -
  note h = minute_readings [OF w]
  let ?t = "\<lambda>k. w_utc w (w_utc_tick w + k)"
  note e = plain_env [OF D]
  have b: "7200 \<le> ?t 0" "?t 0 < 2 ^ 52" using h(3,4) [of 0 0] by simp_all
  then show "create_new_builds_valid_claims_and_stores_jti is_uuid D w"
    using mock_create [OF D w _ e(1), of 0 w] u
    by (auto simp: create_new_builds_valid_claims_and_stores_jti_def new_claims_def utc_now_def uuid_next_def as_usize_less)
  have c: "?t 0 \<le> ?t 1" "?t 1 \<le> ?t 3" "?t 3 < 2 ^ 52" "7200 \<le> ?t 1" "?t 1 < 2 ^ 52"
    using h(1) [of 0 1] h(1,4) [of 1 3] h(3,4) [of 1 1] by simp_all
  have r: "as_usize t + 120 = as_usize (t + 120)" for t by (simp add: as_usize_def)
  show "create_new_honors_custom_ttl D w"
    using mock_create [OF D w _ e(2), of 1 "utc_tick w"] b c
    by (auto simp: create_new_honors_custom_ttl_def new_claims_def utc_now_def uuid_next_def as_usize_le r utc_tick_def
        test_now_def numeral_3_eq_3)
  show "create_new_rejects_empty_audience D w" "create_new_rejects_ttl_below_min D w" "create_new_rejects_ttl_above_max D w"
    by (simp_all add: create_new_rejects_empty_audience_def create_new_rejects_ttl_below_min_def
        create_new_rejects_ttl_above_max_def created_def mocked_def claims_create_new_def and_then_def pure_step_def e fail_def)
  have "validate_custom_claims (dp_env D) (dp_json D) [(''exp'', v)] = Inl UnprocessableEntity"
    using D by (simp add: validate_custom_claims_def plain_deps_def env_u64_def RESERVED_CLAIMS_def)
  then show "create_new_rejects_reserved_custom_claim v D w"
    by (simp add: create_new_rejects_reserved_custom_claim_def created_def mocked_def claims_create_new_def and_then_def
        pure_step_def)
qed

lemma failing_store_tests:
  assumes "plain_deps D" "plain_deps D'" "within_a_minute w" "within_a_minute w'"
  shows "create_new_fails_when_store_unavailable D w" "create_new_fails_when_group_index_unavailable D' w'"
    subject_group_is_namespaced
proof -
  have p: "dp_plus D (utc_now w) 3600 = Some (utc_now w + 3600)" "dp_plus D' (utc_now w') 3600 = Some (utc_now w' + 3600)"
    using assms minute_readings(3,4) [OF assms(3), of 0 0] minute_readings(3,4) [OF assms(4), of 0 0]
    by (simp_all add: plain_deps_def utc_now_def)
  have i: "as_i64 3600 = 3600" by (simp add: as_i64_small)
  note d = created_def over_def claims_create_new_def and_then_def pure_step_def plain_env assms Let_def store_call_def
    utc_now_def utc_tick_def uuid_tick_def
  show "create_new_fails_when_store_unavailable D w"
    using p(1) by (simp add: create_new_fails_when_store_unavailable_def failing_store_def d i)
  show "create_new_fails_when_group_index_unavailable D' w'"
    using p(2) by (simp add: create_new_fails_when_group_index_unavailable_def d i)
  show subject_group_is_namespaced by (simp add: subject_group_is_namespaced_def subject_group_def)
qed

section \<open>Signing\<close>

text \<open>
  \<open>keypair_for\<close> generates a key pair for an algorithm, a parameter. \<open>verify_signature\<close> checks a token the
  way \<open>from_string\<close> does; \<open>None\<close> is a failing \<open>unwrap\<close>.
\<close>

definition signed_sample ::
  "('b, 'g, 'p, 'k) crypto \<Rightarrow> 'v json_codec \<Rightarrow> (string \<Rightarrow> 'k \<times> 'p) \<Rightarrow> string \<Rightarrow> u64 \<Rightarrow> jwt_error + string" where
  "signed_sample C J keypair_for alg now =
     token_to_string C J
       \<lparr>jt_headers = headers_with_alg alg, jt_claims = sample_claims now, jt_key = fst (keypair_for alg)\<rparr>"

definition verify_signature :: "('b, 'g, 'p, 'k) crypto \<Rightarrow> string \<Rightarrow> string \<Rightarrow> 'p \<Rightarrow> bool option" where
  "verify_signature C token alg public =
     (case split_on (CHR ''.'') token of
        [h, c, s] \<Rightarrow>
          (case cr_b64_decode C s of
             None \<Rightarrow> None
           | Some signature \<Rightarrow> cr_verify C (digest_of_alg alg) public signature (h @ ''.'' @ c))
      | _ \<Rightarrow> None)"

definition to_string_produces_verifiable_signature ::
  "('b, 'g, 'p, 'k) crypto \<Rightarrow> 'v json_codec \<Rightarrow> (string \<Rightarrow> 'k \<times> 'p) \<Rightarrow> u64 \<Rightarrow> bool" where
  "to_string_produces_verifiable_signature C J keypair_for now \<longleftrightarrow>
     (case signed_sample C J keypair_for ''EdDSA'' now of
        Inl _ \<Rightarrow> False
      | Inr token \<Rightarrow>
          verify_signature C token ''EdDSA'' (snd (keypair_for ''EdDSA'')) = Some True \<and>
          (case split_on (CHR ''.'') token of
             [_, c, _] \<Rightarrow>
               (case claims_from_base64 C J c of
                  Inr decoded \<Rightarrow> tc_jti decoded = ''jti-1'' \<and> tc_iss decoded = ''issuer''
                | Inl _ \<Rightarrow> False)
           | _ \<Rightarrow> False))"

definition sign_verify_roundtrip ::
  "('b, 'g, 'p, 'k) crypto \<Rightarrow> 'v json_codec \<Rightarrow> (string \<Rightarrow> 'k \<times> 'p) \<Rightarrow> u64 \<Rightarrow> string \<Rightarrow> bool" where
  "sign_verify_roundtrip C J keypair_for now alg \<longleftrightarrow>
     (case signed_sample C J keypair_for alg now of
        Inl _ \<Rightarrow> False
      | Inr token \<Rightarrow> verify_signature C token alg (snd (keypair_for alg)) = Some True)"

definition sign_verify_roundtrip_rs256 ::
  "('b, 'g, 'p, 'k) crypto \<Rightarrow> 'v json_codec \<Rightarrow> (string \<Rightarrow> 'k \<times> 'p) \<Rightarrow> u64 \<Rightarrow> bool" where
  "sign_verify_roundtrip_rs256 C J keypair_for now \<longleftrightarrow> sign_verify_roundtrip C J keypair_for now ''RS256''"

definition sign_verify_roundtrip_es256 ::
  "('b, 'g, 'p, 'k) crypto \<Rightarrow> 'v json_codec \<Rightarrow> (string \<Rightarrow> 'k \<times> 'p) \<Rightarrow> u64 \<Rightarrow> bool" where
  "sign_verify_roundtrip_es256 C J keypair_for now \<longleftrightarrow> sign_verify_roundtrip C J keypair_for now ''ES256''"

definition sign_verify_roundtrip_all_supported_algorithms ::
  "('b, 'g, 'p, 'k) crypto \<Rightarrow> 'v json_codec \<Rightarrow> (string \<Rightarrow> 'k \<times> 'p) \<Rightarrow> u64 \<Rightarrow> bool" where
  "sign_verify_roundtrip_all_supported_algorithms C J keypair_for now \<longleftrightarrow>
     list_all (sign_verify_roundtrip C J keypair_for now) SUPPORTED_ALGORITHMS"

lemma signing_tests:
  assumes l: "lawful_crypto C pair" "lawful_json J" and t: "\<And>c. sj_claims_to J c \<noteq> None" "\<And>h. sj_headers_to J h \<noteq> None"
    and k: "\<And>alg. alg \<in> set SUPPORTED_ALGORITHMS \<Longrightarrow> pair (fst (kp alg)) (snd (kp alg)) \<and>
        (\<forall>m. cr_sign C (digest_of_alg alg) (fst (kp alg)) m \<noteq> None)"
  shows "to_string_produces_verifiable_signature C J kp now" "sign_verify_roundtrip_rs256 C J kp now"
    "sign_verify_roundtrip_es256 C J kp now" "sign_verify_roundtrip_all_supported_algorithms C J kp now"
proof -
  have p: "plain_claims (sample_claims now)" by (simp add: plain_claims_def sample_claims_def)
  have signed: "\<exists>token h c s. signed_sample C J kp alg now = Inr token \<and> split_on (CHR ''.'') token = [h, c, s] \<and>
      claims_from_base64 C J c = Inr (sample_claims now) \<and> verify_signature C token alg (snd (kp alg)) = Some True"
    if a: "alg \<in> set SUPPORTED_ALGORITHMS" for alg
  proof -
    let ?t = "\<lparr>jt_headers = headers_with_alg alg, jt_claims = sample_claims now, jt_key = fst (kp alg)\<rparr>"
    obtain hj cj where j: "sj_headers_to J (headers_with_alg alg) = Some hj" "sj_claims_to J (sample_claims now) = Some cj"
      using t(1) [of "sample_claims now"] t(2) [of "headers_with_alg alg"] by blast
    let ?m = "cr_b64_encode C hj @ ''.'' @ cr_b64_encode C cj"
    obtain sig where sig: "cr_sign C (digest_of_alg alg) (fst (kp alg)) ?m = Some sig" using k [OF a] by blast
    obtain token where token: "token_to_string C J ?t = Inr token"
      using j sig by (simp add: token_to_string_def headers_to_base64_def claims_to_base64_def)
        (simp add: headers_with_alg_def)
    obtain h c s where h: "split_on (CHR ''.'') token = [h, c, s]" "claims_from_base64 C J c = Inr (sample_claims now)"
      "check_signature C (headers_with_alg alg) (snd (kp alg)) h c s = Inr ()"
      using token_segments [OF l _ token, simplified, OF p conjunct1 [OF k [OF a]]] by auto
    then show ?thesis using token
      by (auto simp: check_signature_def verify_signature_def signed_sample_def headers_with_alg_def
          split: option.splits if_splits)
  qed
  have sup: "''EdDSA'' \<in> set SUPPORTED_ALGORITHMS" "''RS256'' \<in> set SUPPORTED_ALGORITHMS"
    "''ES256'' \<in> set SUPPORTED_ALGORITHMS" by (simp_all add: SUPPORTED_ALGORITHMS_def)
  have r: "sign_verify_roundtrip C J kp now alg" if "alg \<in> set SUPPORTED_ALGORITHMS" for alg
    using signed [OF that] by (auto simp: sign_verify_roundtrip_def)
  show "to_string_produces_verifiable_signature C J kp now"
    using signed [OF sup(1)] by (auto simp: to_string_produces_verifiable_signature_def sample_claims_def)
  show "sign_verify_roundtrip_rs256 C J kp now" "sign_verify_roundtrip_es256 C J kp now"
    "sign_verify_roundtrip_all_supported_algorithms C J kp now"
    using r sup by (simp_all add: sign_verify_roundtrip_rs256_def sign_verify_roundtrip_es256_def
        sign_verify_roundtrip_all_supported_algorithms_def list_all_iff)
qed

section \<open>Custom claims\<close>

definition custom_claims_reject_reserved_names :: "env \<Rightarrow> 'v json_codec \<Rightarrow> 'v \<Rightarrow> bool" where
  "custom_claims_reject_reserved_names e J v \<longleftrightarrow>
     list_all (\<lambda>name. validate_custom_claims e J [(name, v)] = Inl UnprocessableEntity) RESERVED_CLAIMS"

definition custom_claims_accept_ordinary_names :: "env \<Rightarrow> 'v json_codec \<Rightarrow> 'v \<Rightarrow> 'v \<Rightarrow> 'v \<Rightarrow> bool" where
  "custom_claims_accept_ordinary_names e J admin scopes n \<longleftrightarrow>
     validate_custom_claims e J [(''role'', admin), (''scope'', scopes), (''tenant_id'', n)] = Inr ()"

definition empty_custom_claims_are_allowed :: "env \<Rightarrow> 'v json_codec \<Rightarrow> bool" where
  "empty_custom_claims_are_allowed e J \<longleftrightarrow> validate_custom_claims e J [] = Inr ()"

definition custom_claims_respect_count_limit :: "env \<Rightarrow> 'v json_codec \<Rightarrow> (nat \<Rightarrow> 'v) \<Rightarrow> bool" where
  "custom_claims_respect_count_limit e J v \<longleftrightarrow>
     validate_custom_claims (e(''TOKEN_CLAIMS_MAX_COUNT'' \<mapsto> ''3'')) J
       (map (\<lambda>i. (''claim_'' @ show_dec i, v i)) [0..<4]) = Inl UnprocessableEntity"

text \<open>\<open>blob\<close> is the JSON string of 128 characters.\<close>

definition custom_claims_respect_size_limit :: "env \<Rightarrow> 'v json_codec \<Rightarrow> 'v \<Rightarrow> bool" where
  "custom_claims_respect_size_limit e J blob \<longleftrightarrow>
     validate_custom_claims (e(''TOKEN_CLAIMS_MAX_BYTES'' \<mapsto> ''64'')) J [(''blob'', blob)] = Inl UnprocessableEntity"

lemma custom_claim_tests:
  assumes e: "e ''TOKEN_CLAIMS_MAX_COUNT'' = None" "e ''TOKEN_CLAIMS_MAX_BYTES'' = None"
    and small: "sj_map_to J [(''role'', admin), (''scope'', scopes), (''tenant_id'', n)] = Some small" "length small \<le> 4096"
    and big: "sj_map_to J [(''blob'', blob)] = Some big" "128 \<le> length big"
  shows "custom_claims_reject_reserved_names e J v"
    and "custom_claims_accept_ordinary_names e J admin scopes n"
    and "empty_custom_claims_are_allowed e J"
    and "custom_claims_respect_count_limit e J vs"
    and "custom_claims_respect_size_limit e J blob"
proof -
  show "custom_claims_reject_reserved_names e J v"
    by (simp add: custom_claims_reject_reserved_names_def validate_custom_claims_def list_all_iff)
  show "custom_claims_accept_ordinary_names e J admin scopes n"
    using e small by (simp add: custom_claims_accept_ordinary_names_def validate_custom_claims_def env_u64_def
        RESERVED_CLAIMS_def)
  show "empty_custom_claims_are_allowed e J" by (simp add: empty_custom_claims_are_allowed_def)
  show "custom_claims_respect_count_limit e J vs"
    by (simp add: custom_claims_respect_count_limit_def validate_custom_claims_def env_u64_def runs)
  show "custom_claims_respect_size_limit e J blob"
    using e big by (simp add: custom_claims_respect_size_limit_def validate_custom_claims_def env_u64_def runs
        RESERVED_CLAIMS_def)
qed

section \<open>The facade\<close>

definition refresh_rejects_unknown_token ::
  "('b, 'g, 'p, 'k, 'v, 'n, refresh_state) deps \<Rightarrow> ('n, refresh_state) world \<Rightarrow> bool" where
  "refresh_rejects_unknown_token D w \<longleftrightarrow>
     fst (refresh_token_pair (D\<lparr>dp_store := store_with_refresh False\<rparr>) ''unknown'' ''issuer''
       (over (store_with_refresh_new ''known'') w)) = Err NotValid"

definition refresh_reports_store_failure_separately ::
  "('b, 'g, 'p, 'k, 'v, 'n, refresh_state) deps \<Rightarrow> ('n, refresh_state) world \<Rightarrow> bool" where
  "refresh_reports_store_failure_separately D w \<longleftrightarrow>
     fst (refresh_token_pair (D\<lparr>dp_store := store_with_refresh True\<rparr>) ''known'' ''issuer''
       (over (store_with_refresh_new ''known'') w)) = Err StoreError"

definition refresh_ttl_falls_back_to_default :: "env \<Rightarrow> bool" where
  "refresh_ttl_falls_back_to_default e \<longleftrightarrow>
     env_u64 (e(''JWT_TEST_TTL'' := None)) ''JWT_TEST_TTL'' 42 = 42 \<and>
     env_u64 (e(''JWT_TEST_TTL'' \<mapsto> ''not-a-number'')) ''JWT_TEST_TTL'' 42 = 42 \<and>
     env_u64 (e(''JWT_TEST_TTL'' \<mapsto> ''100'')) ''JWT_TEST_TTL'' 42 = 100"

lemma facade_tests:
  "refresh_rejects_unknown_token D w" "refresh_reports_store_failure_separately D w" "refresh_ttl_falls_back_to_default e"
  by (simp_all add: refresh_rejects_unknown_token_def refresh_reports_store_failure_separately_def
      refresh_ttl_falls_back_to_default_def refresh_token_pair_def and_then_def store_call_def fail_def over_def
      store_with_refresh_def store_with_refresh_new_def env_u64_def runs)

section \<open>Public keys\<close>

definition test_jwk :: "string \<Rightarrow> jwk" where
  "test_jwk alg = \<lparr>jwk_kty = [], jwk_alg = alg, jwk_kid = ''test-kid'', jwk_crv = None, jwk_x = None, jwk_y = None,
     jwk_n = None, jwk_e = None\<rparr>"

text \<open>\<open>n\<close> and \<open>e\<close>, \<open>x\<close> and \<open>y\<close>, \<open>raw\<close> are the bytes OpenSSL decomposes the \<open>original\<close> key into.\<close>

definition reconstructs_rsa_public_key ::
  "('b, 'g, 'p, 'k) crypto \<Rightarrow> ('p \<Rightarrow> 'p \<Rightarrow> bool) \<Rightarrow> string \<Rightarrow> string \<Rightarrow> 'p \<Rightarrow> bool" where
  "reconstructs_rsa_public_key C public_eq n e original \<longleftrightarrow>
     (case get_public_key_from_rs C ((test_jwk ''RS256'')\<lparr>jwk_kty := ''RSA'', jwk_n := Some (cr_b64_encode C n),
         jwk_e := Some (cr_b64_encode C e)\<rparr>) of Inr k \<Rightarrow> public_eq k original | Inl _ \<Rightarrow> False)"

definition reconstructs_ec_public_key_es256 ::
  "('b, 'g, 'p, 'k) crypto \<Rightarrow> ('p \<Rightarrow> 'p \<Rightarrow> bool) \<Rightarrow> string \<Rightarrow> string \<Rightarrow> 'p \<Rightarrow> bool" where
  "reconstructs_ec_public_key_es256 C public_eq x y original \<longleftrightarrow>
     (case get_public_key_from_es C ((test_jwk ''ES256'')\<lparr>jwk_kty := ''EC'', jwk_crv := Some ''P-256'',
         jwk_x := Some (cr_b64_encode C x), jwk_y := Some (cr_b64_encode C y)\<rparr>) of
        Inr k \<Rightarrow> public_eq k original | Inl _ \<Rightarrow> False)"

definition reconstructs_eddsa_public_key_ed25519 ::
  "('b, 'g, 'p, 'k) crypto \<Rightarrow> ('p \<Rightarrow> 'p \<Rightarrow> bool) \<Rightarrow> string \<Rightarrow> 'p \<Rightarrow> bool" where
  "reconstructs_eddsa_public_key_ed25519 C public_eq raw original \<longleftrightarrow>
     (case get_public_key_from_dsa C ((test_jwk ''EdDSA'')\<lparr>jwk_kty := ''OKP'', jwk_crv := Some ''Ed25519'',
         jwk_x := Some (cr_b64_encode C raw)\<rparr>) of Inr k \<Rightarrow> public_eq k original | Inl _ \<Rightarrow> False)"

definition ed448_id_is_recognised ::
  "('b, 'g, 'p, 'k) crypto \<Rightarrow> ('p \<Rightarrow> 'p \<Rightarrow> bool) \<Rightarrow> string \<Rightarrow> 'p \<Rightarrow> bool" where
  "ed448_id_is_recognised C public_eq raw original \<longleftrightarrow>
     (case get_public_key_from_dsa C ((test_jwk ''EdDSA'')\<lparr>jwk_crv := Some ''Ed448'',
         jwk_x := Some (cr_b64_encode C raw)\<rparr>) of Inr k \<Rightarrow> public_eq k original | Inl _ \<Rightarrow> False)"

definition es_rejects_unsupported_curve :: "('b, 'g, 'p, 'k) crypto \<Rightarrow> bool" where
  "es_rejects_unsupported_curve C \<longleftrightarrow> get_public_key_from_es C (test_jwk ''ES999'') = Inl KeyUnsupported"

definition es_rejects_missing_coordinates :: "('b, 'g, 'p, 'k) crypto \<Rightarrow> bool" where
  "es_rejects_missing_coordinates C \<longleftrightarrow> get_public_key_from_es C (test_jwk ''ES256'') = Inl KeyInvalidKey"

definition es_rejects_invalid_base64_coordinate :: "('b, 'g, 'p, 'k) crypto \<Rightarrow> bool" where
  "es_rejects_invalid_base64_coordinate C \<longleftrightarrow>
     get_public_key_from_es C ((test_jwk ''ES256'')\<lparr>jwk_x := Some ''!!!not-base64!!!'',
       jwk_y := Some (cr_b64_encode C (map char_of [1 :: nat, 2, 3]))\<rparr>) = Inl KeyInvalidKey"

definition dsa_rejects_missing_x :: "('b, 'g, 'p, 'k) crypto \<Rightarrow> bool" where
  "dsa_rejects_missing_x C \<longleftrightarrow>
     get_public_key_from_dsa C ((test_jwk ''EdDSA'')\<lparr>jwk_crv := Some ''Ed25519'', jwk_x := None\<rparr>) = Inl KeyInvalidKey"

definition dsa_rejects_missing_crv :: "('b, 'g, 'p, 'k) crypto \<Rightarrow> string \<Rightarrow> bool" where
  "dsa_rejects_missing_crv C raw \<longleftrightarrow>
     get_public_key_from_dsa C ((test_jwk ''EdDSA'')\<lparr>jwk_x := Some (cr_b64_encode C raw), jwk_crv := None\<rparr>)
       = Inl KeyInvalidKey"

definition dsa_rejects_unsupported_crv :: "('b, 'g, 'p, 'k) crypto \<Rightarrow> string \<Rightarrow> bool" where
  "dsa_rejects_unsupported_crv C raw \<longleftrightarrow>
     get_public_key_from_dsa C ((test_jwk ''EdDSA'')\<lparr>jwk_x := Some (cr_b64_encode C raw), jwk_crv := Some ''Ed99999''\<rparr>)
       = Inl KeyUnsupported"

text \<open>The rejections rest on base64 alone.\<close>

lemma key_rejection_tests:
  assumes "lawful_crypto C pair" "cr_b64_decode C ''!!!not-base64!!!'' = None"
  shows "es_rejects_unsupported_curve C" "es_rejects_missing_coordinates C" "es_rejects_invalid_base64_coordinate C"
    "dsa_rejects_missing_x C" "dsa_rejects_missing_crv C raw" "dsa_rejects_unsupported_crv C raw"
  using assms
  by (simp_all add: lawful_crypto_def es_rejects_unsupported_curve_def es_rejects_missing_coordinates_def
      es_rejects_invalid_base64_coordinate_def dsa_rejects_missing_x_def dsa_rejects_missing_crv_def
      dsa_rejects_unsupported_crv_def get_public_key_from_es_def get_public_key_from_dsa_def test_jwk_def curve_of_alg_def
      eddsa_of_crv_def get_big_num_from_option_string_def split: option.splits)

text \<open>The reconstructions rest on OpenSSL rebuilding a key from the parts it was taken apart into.\<close>

lemma key_reconstruction_tests:
  assumes "lawful_crypto C pair"
    and "cr_bignum C n = Some bn" "cr_bignum C e = Some be" "cr_rsa_public C bn be = Some rsa" "public_eq rsa rsa_original"
    and "cr_ec_group C Prime256v1 = Some g" "cr_bignum C x = Some bx" "cr_bignum C y = Some by'"
      "cr_ec_public C g bx by' = Some ec" "public_eq ec ec_original"
    and "cr_raw_public C raw Ed25519 = Some ed" "public_eq ed ed_original"
    and "cr_raw_public C raw4 Ed448 = Some ed4" "public_eq ed4 ed4_original"
  shows "reconstructs_rsa_public_key C public_eq n e rsa_original"
    "reconstructs_ec_public_key_es256 C public_eq x y ec_original"
    "reconstructs_eddsa_public_key_ed25519 C public_eq raw ed_original"
    "ed448_id_is_recognised C public_eq raw4 ed4_original"
  using assms
  by (simp_all add: lawful_crypto_def reconstructs_rsa_public_key_def reconstructs_ec_public_key_es256_def
      reconstructs_eddsa_public_key_ed25519_def ed448_id_is_recognised_def get_public_key_from_rs_def
      get_public_key_from_es_def get_public_key_from_dsa_def test_jwk_def curve_of_alg_def eddsa_of_crv_def
      get_big_num_from_option_string_def)

end
