(* ===== verification/Jwk_Tests.thy ===== *)
theory Jwk_Tests
  imports Jwk_Cache
begin

text \<open>
  The tests of \<open>jwk.rs\<close>. The key service of a test is an HTTP mock: its state is the list of the
  requests it received, and it answers by the first matcher that fits. The JSON texts are serde's. A
  test runs within a second of the monotonic clock (\<open>brisk\<close>). Two tests are left out: the one of the
  client's timeout, which is the HTTP client's, and the one of twenty simultaneous lookups, which
  \<open>Jwk_Flight\<close> proves for any number.
\<close>

section \<open>The mocks\<close>

type_synonym received = "(string \<times> string) list"

record serde_jwk =
  se_jwks :: "jwks \<Rightarrow> string"
  se_key :: "jwk_data \<Rightarrow> string"
  se_jwks_of :: "string \<Rightarrow> jwks option"
  se_key_of :: "string \<Rightarrow> jwk_data option"

definition lawful_serde :: "serde_jwk \<Rightarrow> bool" where
  "lawful_serde S \<longleftrightarrow> (\<forall>ks. se_jwks_of S (se_jwks S ks) = Some ks) \<and> (\<forall>k. se_key_of S (se_key S k) = Some k) \<and>
     se_jwks_of S [] = None"

text \<open>\<open>wiremock\<close>: what no matcher fits is answered with 404.\<close>

definition response_template :: "nat \<Rightarrow> string \<Rightarrow> http_response option" where
  "response_template status body = Some \<lparr>hr_status = status, hr_body = body\<rparr>"

definition mock_server ::
  "serde_jwk \<Rightarrow> (string \<Rightarrow> string \<Rightarrow> received \<Rightarrow> http_response option) \<Rightarrow> received key_server" where
  "mock_server S matching =
     \<lparr>kn_get = \<lambda>url n. (case matching ''GET'' url n of None \<Rightarrow> response_template 404 [] | Some r \<Rightarrow> Some r, n @ [(''GET'', url)]),
      kn_post_alg = \<lambda>url alg n.
        (case matching ''POST'' url n of None \<Rightarrow> response_template 404 [] | Some r \<Rightarrow> Some r, n @ [(''POST'', url)]),
      kn_jwks_of = se_jwks_of S, kn_key_of = se_key_of S\<rparr>"

definition mock_jwks :: jwks where
  "mock_jwks = \<lparr>jwks_keys = [\<lparr>jwk_kty = ''OKP'', jwk_alg = ''EdDSA'', jwk_kid = ''kid-1'', jwk_crv = Some ''Ed25519'',
     jwk_x = Some ''AAAA'', jwk_y = None, jwk_n = None, jwk_e = None\<rparr>]\<rparr>"

definition mock_jwk_data :: "string \<Rightarrow> jwk_data" where
  "mock_jwk_data i = \<lparr>jd_id = i, jd_kty = ''OKP'', jd_alg = ''EdDSA'', jd_kid = i, jd_crv = Some ''Ed25519'',
     jd_x = Some ''AAAA'', jd_y = None, jd_n = None, jd_e = None, jd_private_key = ''AAAA''\<rparr>"

definition start_jwks_mock :: "serde_jwk \<Rightarrow> string \<Rightarrow> received key_server" where
  "start_jwks_mock S uri = mock_server S (\<lambda>verb url n.
     if verb = ''GET'' \<and> url = uri @ ''/.well-known/jwks.json'' then response_template 200 (se_jwks S mock_jwks) else None)"

text \<open>It answers once, then fails.\<close>

definition start_dying_jwks_mock :: "serde_jwk \<Rightarrow> string \<Rightarrow> received key_server" where
  "start_dying_jwks_mock S uri = mock_server S (\<lambda>verb url n.
     if verb = ''GET'' \<and> url = uri @ ''/.well-known/jwks.json''
     then (if filter (\<lambda>r. r = (verb, url)) n = [] then response_template 200 (se_jwks S mock_jwks) else response_template 500 [])
     else None)"

definition start_key_mock :: "serde_jwk \<Rightarrow> string \<Rightarrow> nat \<Rightarrow> received key_server" where
  "start_key_mock S uri get_status = mock_server S (\<lambda>verb url n.
     if verb = ''GET'' \<and> url = uri @ ''/jwks/kid-1'' then response_template get_status []
     else if verb = ''POST'' \<and> url = uri @ ''/jwks'' then response_template 200 (se_key S (mock_jwk_data ''kid-new''))
     else None)"

definition requests_to :: "received jwk_service \<Rightarrow> nat" where
  "requests_to s = length (sv_net s)"

definition post_requests :: "received jwk_service \<Rightarrow> nat" where
  "post_requests s = length (filter (\<lambda>r. fst r = ''POST'') (sv_net s))"

section \<open>The service under test\<close>

definition for_test_with_client ::
  "http_timeouts \<Rightarrow> string \<Rightarrow> nat \<Rightarrow> nat \<Rightarrow> (nat \<Rightarrow> nat) \<Rightarrow> received jwk_service" where
  "for_test_with_client client url cache_ttl miss_refresh_interval clk =
     \<lparr>sv_client = client, sv_url = url,
      sv_cache = \<lparr>cs_entry = None, cs_last_attempt = None, cs_last_failure = None\<rparr>,
      sv_cache_ttl = cache_ttl, sv_miss_refresh_interval = miss_refresh_interval,
      sv_stale_grace = duration_from_secs 10,
      sv_net = [], sv_clk = clk, sv_tick = 0, sv_metrics = []\<rparr>"

definition with_stale_grace :: "nat \<Rightarrow> 'n jwk_service \<Rightarrow> 'n jwk_service" where
  "with_stale_grace g s = s\<lparr>sv_stale_grace := g\<rparr>"

text \<open>\<open>Instant::checked_sub\<close>; the shift of the snapshot is expected to succeed, \<open>None\<close> is the panic.\<close>

definition checked_sub :: "nat \<Rightarrow> nat \<Rightarrow> nat option" where
  "checked_sub at age = (if age \<le> at then Some (at - age) else None)"

definition backdate_cache :: "nat \<Rightarrow> 'n jwk_service \<Rightarrow> 'n jwk_service option" where
  "backdate_cache age s =
     (let c = sv_cache s;
          marks = (\<lambda>e. s\<lparr>sv_cache := \<lparr>cs_entry = e, cs_last_attempt = Option.bind (cs_last_attempt c) (\<lambda>at. checked_sub at age),
            cs_last_failure = Option.bind (cs_last_failure c) (\<lambda>at. checked_sub at age)\<rparr>\<rparr>) in
      case cs_entry c of
        None \<Rightarrow> Some (marks None)
      | Some (ks, fetched_at) \<Rightarrow> map_option (\<lambda>at. marks (Some (ks, at))) (checked_sub fetched_at age))"

definition ok :: "'e + 'a \<Rightarrow> bool" where
  "ok r \<longleftrightarrow> (case r of Inr _ \<Rightarrow> True | Inl _ \<Rightarrow> False)"

text \<open>A lookup of a key that succeeds, then the rest of the test.\<close>

definition found ::
  "received key_server \<Rightarrow> received jwk_service \<Rightarrow> (received jwk_service \<Rightarrow> bool) \<Rightarrow> bool" where
  "found K s rest \<longleftrightarrow> (case public_key K ''kid-1'' s of (r, s1) \<Rightarrow> ok r \<and> rest s1)"

definition refused ::
  "received key_server \<Rightarrow> string \<Rightarrow> jwk_error \<Rightarrow> received jwk_service \<Rightarrow> (received jwk_service \<Rightarrow> bool) \<Rightarrow> bool" where
  "refused K kid e s rest \<longleftrightarrow> (case public_key K kid s of (r, s1) \<Rightarrow> r = Inl e \<and> rest s1)"

definition backdated :: "u64 \<Rightarrow> received jwk_service \<Rightarrow> (received jwk_service \<Rightarrow> bool) \<Rightarrow> bool" where
  "backdated secs s rest \<longleftrightarrow> (case backdate_cache (duration_from_secs secs) s of None \<Rightarrow> False | Some s1 \<Rightarrow> rest s1)"

definition servable :: "received jwk_service \<Rightarrow> (bool \<Rightarrow> received jwk_service \<Rightarrow> bool) \<Rightarrow> bool" where
  "servable s rest \<longleftrightarrow> (case has_servable_snapshot s of (b, s1) \<Rightarrow> rest b s1)"

section \<open>The cache\<close>

definition repeated_lookups_hit_cache_and_do_not_refetch ::
  "serde_jwk \<Rightarrow> http_timeouts \<Rightarrow> string \<Rightarrow> (nat \<Rightarrow> nat) \<Rightarrow> bool" where
  "repeated_lookups_hit_cache_and_do_not_refetch S client uri clk \<longleftrightarrow>
     (case public_key_run (start_jwks_mock S uri) (replicate 10 ''kid-1'')
        (for_test_with_client client uri (duration_from_secs 300) (duration_from_secs 10) clk) of
      (rs, s) \<Rightarrow> list_all ok rs \<and> requests_to s = 1)"

definition unknown_kid_refreshes_when_interval_passed ::
  "serde_jwk \<Rightarrow> http_timeouts \<Rightarrow> string \<Rightarrow> (nat \<Rightarrow> nat) \<Rightarrow> bool" where
  "unknown_kid_refreshes_when_interval_passed S client uri clk \<longleftrightarrow>
     (let K = start_jwks_mock S uri in
      found K (for_test_with_client client uri (duration_from_secs 300) 0 clk) (\<lambda>s.
        requests_to s = 1 \<and> refused K ''kid-unknown'' JwkNotFound s (\<lambda>s. requests_to s = 2)))"

definition unknown_kid_is_throttled_right_after_refresh ::
  "serde_jwk \<Rightarrow> http_timeouts \<Rightarrow> string \<Rightarrow> (nat \<Rightarrow> nat) \<Rightarrow> bool" where
  "unknown_kid_is_throttled_right_after_refresh S client uri clk \<longleftrightarrow>
     (let K = start_jwks_mock S uri in
      found K (for_test_with_client client uri (duration_from_secs 300) (duration_from_secs 300) clk) (\<lambda>s.
        requests_to s = 1 \<and>
        (case public_key_run K (replicate 5 ''kid-unknown'') s of
           (rs, s) \<Rightarrow> list_all (\<lambda>r. r = Inl JwkNotFound) rs \<and> requests_to s = 1)))"

definition expired_cache_is_refreshed :: "serde_jwk \<Rightarrow> http_timeouts \<Rightarrow> string \<Rightarrow> (nat \<Rightarrow> nat) \<Rightarrow> bool" where
  "expired_cache_is_refreshed S client uri clk \<longleftrightarrow>
     (case public_key_run (start_jwks_mock S uri) (replicate 3 ''kid-1'')
        (for_test_with_client client uri 0 (duration_from_secs 300) clk) of
      (rs, s) \<Rightarrow> list_all ok rs \<and> requests_to s = 3)"

definition stale_snapshot_is_served_when_jwks_is_down ::
  "serde_jwk \<Rightarrow> http_timeouts \<Rightarrow> string \<Rightarrow> (nat \<Rightarrow> nat) \<Rightarrow> bool" where
  "stale_snapshot_is_served_when_jwks_is_down S client uri clk \<longleftrightarrow>
     (let K = start_dying_jwks_mock S uri in
      found K (for_test_with_client client uri (duration_from_secs 300) (duration_from_secs 10) clk) (\<lambda>s.
        backdated 305 s (\<lambda>s. found K s (\<lambda>s. requests_to s = 2))))"

definition too_old_snapshot_is_refused :: "serde_jwk \<Rightarrow> http_timeouts \<Rightarrow> string \<Rightarrow> (nat \<Rightarrow> nat) \<Rightarrow> bool" where
  "too_old_snapshot_is_refused S client uri clk \<longleftrightarrow>
     (let K = start_dying_jwks_mock S uri in
      found K (with_stale_grace (duration_from_secs 10)
          (for_test_with_client client uri (duration_from_secs 300) (duration_from_secs 10) clk)) (\<lambda>s.
        backdated 320 s (\<lambda>s. refused K ''kid-1'' JwkBadResponse s (\<lambda>_. True))))"

definition stale_serving_can_be_disabled :: "serde_jwk \<Rightarrow> http_timeouts \<Rightarrow> string \<Rightarrow> (nat \<Rightarrow> nat) \<Rightarrow> bool" where
  "stale_serving_can_be_disabled S client uri clk \<longleftrightarrow>
     (let K = start_dying_jwks_mock S uri in
      found K (with_stale_grace 0
          (for_test_with_client client uri (duration_from_secs 300) (duration_from_secs 10) clk)) (\<lambda>s.
        backdated 305 s (\<lambda>s. refused K ''kid-1'' JwkBadResponse s (\<lambda>_. True))))"

definition down_jwks_is_not_hammered_while_stale_snapshot_serves ::
  "serde_jwk \<Rightarrow> http_timeouts \<Rightarrow> string \<Rightarrow> (nat \<Rightarrow> nat) \<Rightarrow> bool" where
  "down_jwks_is_not_hammered_while_stale_snapshot_serves S client uri clk \<longleftrightarrow>
     (let K = start_dying_jwks_mock S uri in
      found K (for_test_with_client client uri (duration_from_secs 300) (duration_from_secs 10) clk) (\<lambda>s.
        backdated 305 s (\<lambda>s.
          (case public_key_run K (replicate 5 ''kid-1'') s of (rs, s) \<Rightarrow> list_all ok rs \<and> requests_to s = 2))))"

definition live_jwks_is_refreshed_even_when_refresh_is_throttled ::
  "serde_jwk \<Rightarrow> http_timeouts \<Rightarrow> string \<Rightarrow> (nat \<Rightarrow> nat) \<Rightarrow> bool" where
  "live_jwks_is_refreshed_even_when_refresh_is_throttled S client uri clk \<longleftrightarrow>
     (let K = start_jwks_mock S uri in
      found K (for_test_with_client client uri (duration_from_secs 1) (duration_from_secs 300) clk) (\<lambda>s.
        backdated 2 s (\<lambda>s. found K s (\<lambda>s. requests_to s = 2))))"

definition snapshot_stays_servable_until_grace_runs_out ::
  "serde_jwk \<Rightarrow> http_timeouts \<Rightarrow> string \<Rightarrow> (nat \<Rightarrow> nat) \<Rightarrow> bool" where
  "snapshot_stays_servable_until_grace_runs_out S client uri clk \<longleftrightarrow>
     (let K = start_jwks_mock S uri in
      servable (with_stale_grace (duration_from_secs 10)
          (for_test_with_client client uri (duration_from_secs 300) (duration_from_secs 10) clk)) (\<lambda>b s.
        \<not> b \<and> found K s (\<lambda>s. servable s (\<lambda>b s. b \<and>
          backdated 305 s (\<lambda>s. servable s (\<lambda>b s. b \<and>
            backdated 10 s (\<lambda>s. servable s (\<lambda>b s. \<not> b))))))))"

definition disabled_cache_has_no_servable_snapshot ::
  "serde_jwk \<Rightarrow> http_timeouts \<Rightarrow> string \<Rightarrow> (nat \<Rightarrow> nat) \<Rightarrow> bool" where
  "disabled_cache_has_no_servable_snapshot S client uri clk \<longleftrightarrow>
     found (start_jwks_mock S uri) (for_test_with_client client uri 0 (duration_from_secs 10) clk) (\<lambda>s.
       servable s (\<lambda>b s. \<not> b))"

text \<open>The monotonic clock of a test: at least a thousand seconds old, and the test runs within a second.\<close>

definition brisk :: "(nat \<Rightarrow> nat) \<Rightarrow> bool" where
  "brisk clk \<longleftrightarrow> (\<forall>i j. i \<le> j \<longrightarrow> clk i \<le> clk j) \<and> (\<forall>i. clk i < clk 0 + nanos_per_sec) \<and> 1000 * nanos_per_sec \<le> clk 0"

lemma brisk_age:
  assumes "brisk clk"
  shows "1000000000 \<le> c \<Longrightarrow> clk i - clk j < c" "1000000000 \<le> c \<Longrightarrow> \<not> c \<le> clk i - clk j"
    and "j \<le> i \<Longrightarrow> c \<le> a \<Longrightarrow> c \<le> clk i + a - clk j" "j \<le> i \<Longrightarrow> c \<le> a \<Longrightarrow> \<not> clk i + a - clk j < c"
    and "a + 1000000000 \<le> c \<Longrightarrow> clk i + a - clk j < c" "a + 1000000000 \<le> c \<Longrightarrow> \<not> c \<le> clk i + a - clk j"
    and "a \<le> 1000000000000 \<Longrightarrow> a \<le> clk j" "a + c \<le> 1000000000000 \<Longrightarrow> c \<le> clk j - a"
proof -
  have h: "clk j \<le> clk i" if "j \<le> i" for i j using assms that by (simp add: brisk_def)
  have u: "clk i < clk 0 + 1000000000" "1000000000000 \<le> clk 0" "clk 0 \<le> clk i" for i
    using assms by (simp_all add: brisk_def nanos_per_sec_def)
  show "1000000000 \<le> c \<Longrightarrow> clk i - clk j < c" "1000000000 \<le> c \<Longrightarrow> \<not> c \<le> clk i - clk j"
    "a + 1000000000 \<le> c \<Longrightarrow> clk i + a - clk j < c" "a + 1000000000 \<le> c \<Longrightarrow> \<not> c \<le> clk i + a - clk j"
    using u(1) [of i] u(3) [of j] by linarith+
  show "a \<le> 1000000000000 \<Longrightarrow> a \<le> clk j" "a + c \<le> 1000000000000 \<Longrightarrow> c \<le> clk j - a" using u(2) u(3) [of j] by linarith+
  show "j \<le> i \<Longrightarrow> c \<le> a \<Longrightarrow> c \<le> clk i + a - clk j" "j \<le> i \<Longrightarrow> c \<le> a \<Longrightarrow> \<not> clk i + a - clk j < c"
    using h [of j i] by linarith+
qed

lemmas lookup_run = public_key_def public_key_locked_def public_key_fetch_def public_key_throttled_def
  fetch_and_store_def public_keys_def serve_stale_def lookup_fresh_def allow_refresh_on_miss_def recently_def
  refresh_recently_failed_def cache_is_fresh_def cache_is_fresh_at_def lookup_fresh_at_def lookup_stale_at_def
  instant_now_def record_jwks_def servable_max_age_def saturating_add_def duration_max_def duration_from_secs_def
  nanos_per_sec_def for_test_with_client_def start_jwks_mock_def start_dying_jwks_mock_def mock_server_def
  response_template_def mock_jwks_def find_kid_def found_def refused_def backdated_def servable_def
  backdate_cache_def checked_sub_def with_stale_grace_def requests_to_def ok_def has_servable_snapshot_def
  has_servable_snapshot_at_def

lemma cache_tests:
  assumes "brisk clk" "lawful_serde S"
  shows "unknown_kid_refreshes_when_interval_passed S client uri clk"
    "expired_cache_is_refreshed S client uri clk"
    "stale_snapshot_is_served_when_jwks_is_down S client uri clk"
    "too_old_snapshot_is_refused S client uri clk"
    "stale_serving_can_be_disabled S client uri clk"
    "live_jwks_is_refreshed_even_when_refresh_is_throttled S client uri clk"
    "snapshot_stays_servable_until_grace_runs_out S client uri clk"
    "disabled_cache_has_no_servable_snapshot S client uri clk"
proof -
  have s: "se_jwks_of S (se_jwks S ks) = Some ks" "se_jwks_of S [] = None" for ks
    using assms(2) by (simp_all add: lawful_serde_def)
  note run = lookup_run brisk_age [OF assms(1)] s Let_def
  show "unknown_kid_refreshes_when_interval_passed S client uri clk"
    by (simp add: unknown_kid_refreshes_when_interval_passed_def run)
  show "expired_cache_is_refreshed S client uri clk"
    by (simp add: expired_cache_is_refreshed_def run numeral_3_eq_3)
  show "stale_snapshot_is_served_when_jwks_is_down S client uri clk"
    by (simp add: stale_snapshot_is_served_when_jwks_is_down_def run)
  show "too_old_snapshot_is_refused S client uri clk"
    by (simp add: too_old_snapshot_is_refused_def run)
  show "stale_serving_can_be_disabled S client uri clk"
    by (simp add: stale_serving_can_be_disabled_def run)
  show "live_jwks_is_refreshed_even_when_refresh_is_throttled S client uri clk"
    by (simp add: live_jwks_is_refreshed_even_when_refresh_is_throttled_def run)
  show "snapshot_stays_servable_until_grace_runs_out S client uri clk"
    by (simp add: snapshot_stays_servable_until_grace_runs_out_def run)
  show "disabled_cache_has_no_servable_snapshot S client uri clk"
    by (simp add: disabled_cache_has_no_servable_snapshot_def run)
qed

text \<open>Runs of lookups. The first reaches the network; the others find the service quiet, or serving stale.\<close>

lemma warmed:
  assumes "brisk clk" "lawful_serde S" "1000000000 \<le> interval"
  shows "\<exists>s j. public_key (start_jwks_mock S uri) ''kid-1''
      (for_test_with_client client uri (duration_from_secs 300) interval clk) = (Inr j, s) \<and>
    quiet_with mock_jwks s \<and> requests_to s = 1"
proof -
  have s: "se_jwks_of S (se_jwks S ks) = Some ks" "se_jwks_of S [] = None" for ks
    using assms(2) by (simp_all add: lawful_serde_def)
  have q: "clk i - clk j < 300000000000" "clk i - clk j < interval" for i j
    using brisk_age(1) [OF assms(1)] assms(3) by simp_all
  show ?thesis using q by (simp add: lookup_run brisk_age [OF assms(1)] s Let_def quiet_with_def)
qed

lemma cache_run_tests:
  assumes "brisk clk" "lawful_serde S"
  shows "repeated_lookups_hit_cache_and_do_not_refetch S client uri clk"
    "unknown_kid_is_throttled_right_after_refresh S client uri clk"
proof -
  have i: "1000000000 \<le> duration_from_secs 10" "1000000000 \<le> duration_from_secs 300"
    by (simp_all add: duration_from_secs_def nanos_per_sec_def)
  have kid: "find_kid ''kid-1'' mock_jwks \<noteq> None" "find_kid ''kid-unknown'' mock_jwks = None"
    by (simp_all add: find_kid_def mock_jwks_def)
  obtain s j where w: "public_key (start_jwks_mock S uri) ''kid-1''
      (for_test_with_client client uri (duration_from_secs 300) (duration_from_secs 10) clk) = (Inr j, s)"
    and q: "quiet_with mock_jwks s" "requests_to s = 1" using warmed [OF assms i(1)] by blast
  obtain rs s' where r: "public_key_run (start_jwks_mock S uri) (replicate 9 ''kid-1'') s = (rs, s')" by fastforce
  have "public_key_run (start_jwks_mock S uri) (replicate (Suc 9) ''kid-1'')
      (for_test_with_client client uri (duration_from_secs 300) (duration_from_secs 10) clk) = (Inr j # rs, s')"
    using w r by (simp only: replicate_Suc public_key_run.simps split_conv prod.case)
  then show "repeated_lookups_hit_cache_and_do_not_refetch S client uri clk"
    using quiet_run [OF q(1) r] q(2) kid(1)
    by (auto simp: repeated_lookups_hit_cache_and_do_not_refetch_def requests_to_def ok_def list_all_iff)
  obtain s1 j1 where w1: "public_key (start_jwks_mock S uri) ''kid-1''
      (for_test_with_client client uri (duration_from_secs 300) (duration_from_secs 300) clk) = (Inr j1, s1)"
    and q1: "quiet_with mock_jwks s1" "requests_to s1 = 1" using warmed [OF assms i(2)] by blast
  obtain rs1 s2 where r1: "public_key_run (start_jwks_mock S uri) (replicate 5 ''kid-unknown'') s1 = (rs1, s2)" by fastforce
  show "unknown_kid_is_throttled_right_after_refresh S client uri clk"
    using quiet_run [OF q1(1) r1] q1(2) kid(2) w1 r1
    by (auto simp: unknown_kid_is_throttled_right_after_refresh_def found_def requests_to_def ok_def list_all_iff)
qed

lemma hammering_test:
  assumes "brisk clk" "lawful_serde S"
  shows "down_jwks_is_not_hammered_while_stale_snapshot_serves S client uri clk"
proof -
  have s: "se_jwks_of S (se_jwks S ks) = Some ks" "se_jwks_of S [] = None" for ks
    using assms(2) by (simp_all add: lawful_serde_def)
  have five: "replicate 5 k = [k, k, k, k, k :: string]" for k by (simp add: eval_nat_numeral)
  show ?thesis
    by (simp add: down_jwks_is_not_hammered_while_stale_snapshot_serves_def five lookup_run brisk_age [OF assms(1)] s Let_def)
qed

section \<open>Keys for signing\<close>

definition missing_key_is_created :: "serde_jwk \<Rightarrow> http_timeouts \<Rightarrow> string \<Rightarrow> (nat \<Rightarrow> nat) \<Rightarrow> bool" where
  "missing_key_is_created S client uri clk \<longleftrightarrow>
     (case private_key (start_key_mock S uri 404) ''kid-1'' ''EdDSA''
        (for_test_with_client client uri (duration_from_secs 300) (duration_from_secs 10) clk) of
      (key, s) \<Rightarrow> ok key \<and> post_requests s = 1)"

definition server_error_does_not_create_a_key :: "serde_jwk \<Rightarrow> http_timeouts \<Rightarrow> string \<Rightarrow> (nat \<Rightarrow> nat) \<Rightarrow> bool" where
  "server_error_does_not_create_a_key S client uri clk \<longleftrightarrow>
     (case private_key (start_key_mock S uri 500) ''kid-1'' ''EdDSA''
        (for_test_with_client client uri (duration_from_secs 300) (duration_from_secs 10) clk) of
      (key, s) \<Rightarrow> key = Inl JwkBadResponse \<and> post_requests s = 0)"

text \<open>Nothing listens on port 1: no request is answered.\<close>

definition unreachable_service_does_not_create_a_key :: "serde_jwk \<Rightarrow> http_timeouts \<Rightarrow> (nat \<Rightarrow> nat) \<Rightarrow> bool" where
  "unreachable_service_does_not_create_a_key S client clk \<longleftrightarrow>
     fst (private_key
       \<lparr>kn_get = \<lambda>url n. (None, n), kn_post_alg = \<lambda>url alg n. (None, n), kn_jwks_of = se_jwks_of S, kn_key_of = se_key_of S\<rparr>
       ''kid-1'' ''EdDSA''
       (for_test_with_client client ''http://127.0.0.1:1'' (duration_from_secs 300) (duration_from_secs 10) clk))
     = Inl JwkBadConnection"

definition existing_key_is_reused :: "serde_jwk \<Rightarrow> http_timeouts \<Rightarrow> string \<Rightarrow> (nat \<Rightarrow> nat) \<Rightarrow> bool" where
  "existing_key_is_reused S client uri clk \<longleftrightarrow>
     (case private_key
        (mock_server S (\<lambda>verb url n.
           if verb = ''GET'' \<and> url = uri @ ''/jwks/kid-1'' then response_template 200 (se_key S (mock_jwk_data ''kid-1'')) else None))
        ''kid-1'' ''EdDSA''
        (for_test_with_client client uri (duration_from_secs 300) (duration_from_secs 10) clk) of
      (key, s) \<Rightarrow> ok key \<and> post_requests s = 0)"

lemma signing_key_tests:
  assumes "lawful_serde S"
  shows "missing_key_is_created S client uri clk" "server_error_does_not_create_a_key S client uri clk"
    "unreachable_service_does_not_create_a_key S client clk" "existing_key_is_reused S client uri clk"
  using assms
  by (simp_all add: missing_key_is_created_def server_error_does_not_create_a_key_def lawful_serde_def
      unreachable_service_does_not_create_a_key_def existing_key_is_reused_def private_key_def get_key_def create_key_def
      start_key_mock_def mock_server_def response_template_def for_test_with_client_def record_jwks_def ok_def
      post_requests_def)

end
