(* ===== verification/Handler_Bench.thy ===== *)
theory Handler_Bench
  imports Test_Support Test_Stores Jwk_Tests Handlers
begin

text \<open>
  The bench of the tests of \<open>handlers.rs\<close>: the key and the mock of the key service, the environment,
  the application over the store in memory, and what one call of a handler does on it. The mock
  hands out the one key it was started with, and a test's readings of the clock lie within a minute.
\<close>

section \<open>Fixtures\<close>

record 'k test_key =
  te_pkey :: 'k
  te_kid :: string
  te_private_b64 :: string
  te_x_b64 :: string

text \<open>What OpenSSL generates: the key, its PKCS#8 form and the raw public key.\<close>

definition make_key ::
  "('b, 'g, 'p, 'k) crypto \<Rightarrow> 'k \<times> string \<times> string \<Rightarrow> string \<Rightarrow> 'k test_key" where
  "make_key C generated kid =
     (case generated of (pkey, pkcs8, raw_public) \<Rightarrow>
        \<lparr>te_pkey = pkey, te_kid = kid, te_private_b64 = cr_b64_encode C pkcs8, te_x_b64 = cr_b64_encode C raw_public\<rparr>)"

definition test_jwk_data :: "'k test_key \<Rightarrow> jwk_data" where
  "test_jwk_data key = \<lparr>jd_id = te_kid key, jd_kty = ''OKP'', jd_alg = ''EdDSA'', jd_kid = te_kid key,
     jd_crv = Some ''Ed25519'', jd_x = Some (te_x_b64 key), jd_y = None, jd_n = None, jd_e = None,
     jd_private_key = te_private_b64 key\<rparr>"

definition test_jwks :: "'k test_key \<Rightarrow> jwks" where
  "test_jwks key = \<lparr>jwks_keys = [\<lparr>jwk_kty = ''OKP'', jwk_alg = ''EdDSA'', jwk_kid = te_kid key,
     jwk_crv = Some ''Ed25519'', jwk_x = Some (te_x_b64 key), jwk_y = None, jwk_n = None, jwk_e = None\<rparr>]\<rparr>"

definition http_jwks_mock :: "serde_jwk \<Rightarrow> 'k test_key \<Rightarrow> string \<Rightarrow> received key_server" where
  "http_jwks_mock S key uri = mock_server S (\<lambda>verb url n.
     if verb = ''POST'' \<and> url = uri @ ''/jwks'' then response_template 200 (se_key S (test_jwk_data key))
     else if verb = ''GET'' \<and> url = uri @ ''/.well-known/jwks.json'' then response_template 200 (se_jwks S (test_jwks key))
     else None)"

definition set_jwks_env :: "string \<Rightarrow> env \<Rightarrow> env" where
  "set_jwks_env uri e = e(''JWKS_SERVICE_URL'' \<mapsto> uri, ''TOKEN_ALGORITHM'' \<mapsto> ''EdDSA'', ''TOKEN_JKU'' := None,
     ''TOKEN_EXPIRATION_SECONDS'' := None, ''TOKEN_TTL_MIN_SECONDS'' := None, ''TOKEN_TTL_MAX_SECONDS'' := None,
     ''TOKEN_ISSUER_ALLOWLIST'' := None)"

lemma set_jwks_env_apply:
  "set_jwks_env uri e v =
     (if v = ''JWKS_SERVICE_URL'' then Some uri
      else if v = ''TOKEN_ALGORITHM'' then Some ''EdDSA''
      else if v \<in> {''TOKEN_JKU'', ''TOKEN_EXPIRATION_SECONDS'', ''TOKEN_TTL_MIN_SECONDS'', ''TOKEN_TTL_MAX_SECONDS'',
        ''TOKEN_ISSUER_ALLOWLIST''} then None else e v)"
  by (simp add: set_jwks_env_def fun_upd_def)

text \<open>\<open>token_app!\<close>: the handlers over the store in memory, and the world they start in.\<close>

definition token_deps ::
  "serde_jwk \<Rightarrow> 'k test_key \<Rightarrow> string \<Rightarrow> ('b, 'g, 'p, 'k, 'v, received, mock_state) deps
     \<Rightarrow> ('b, 'g, 'p, 'k, 'v, received, mock_state) deps" where
  "token_deps S key uri D = D\<lparr>dp_store := http_mock_store, dp_server := http_jwks_mock S key uri,
     dp_env := set_jwks_env uri (dp_env D)\<rparr>"

definition token_world :: "env \<Rightarrow> (nat \<Rightarrow> nat) \<Rightarrow> (received, mock_state) world \<Rightarrow> (received, mock_state) world" where
  "token_world e clk w =
     w\<lparr>w_store := mock_new, w_keys := key_manager_new (jwk_service_new e [] clk) ''EdDSA''\<rparr>"

definition example_host :: headers where
  "example_host = headers_with ''Host'' ''example.com''"

text \<open>The body \<open>{"sub": .., "aud": ..}\<close>, decoded.\<close>

definition token_body :: "string \<Rightarrow> string list \<Rightarrow> 'v token_request" where
  "token_body sub aud = \<lparr>tr_sub = sub, tr_aud = aud, tr_ttl = None, tr_refresh = False, tr_claims = []\<rparr>"

text \<open>\<open>test::call_service\<close> on a handler, then the rest of the test on its response.\<close>

definition answered ::
  "(('n, 's) world \<Rightarrow> ('v, 'n, 's) handler_result) \<Rightarrow> ('n, 's) world \<Rightarrow> ('v response \<Rightarrow> ('n, 's) world \<Rightarrow> bool) \<Rightarrow> bool" where
  "answered h w rest = (case h w of (r, w1) \<Rightarrow> (case into_response r of Ok resp \<Rightarrow> rest resp w1 | _ \<Rightarrow> False))"

definition issued :: "'v response \<Rightarrow> token_response option" where
  "issued resp = (case rs_body resp of TokenBody t \<Rightarrow> if rs_status resp = 200 then Some t else None | _ \<Rightarrow> None)"

text \<open>\<open>issue_token!\<close>\<close>

definition issue_token ::
  "('b, 'g, 'p, 'k, 'v, 'n, 's) deps \<Rightarrow> string \<Rightarrow> ('n, 's) world \<Rightarrow> (string \<Rightarrow> ('n, 's) world \<Rightarrow> bool) \<Rightarrow> bool" where
  "issue_token A sub w rest =
     answered (create_token A (token_body sub [''api1'']) example_host) w (\<lambda>resp w.
       case issued resp of Some t \<Rightarrow> rest (tk_token t) w | None \<Rightarrow> False)"

definition jti_of :: "('b, 'g, 'p, 'k) crypto \<Rightarrow> 'v json_codec \<Rightarrow> string \<Rightarrow> string option" where
  "jti_of C J token =
     (case split_on (CHR ''.'') token of
        _ # segment # _ \<Rightarrow>
          (case claims_from_base64 C J segment of Inr c \<Rightarrow> Some (tc_jti c) | Inl _ \<Rightarrow> None)
      | _ \<Rightarrow> None)"

section \<open>The bench\<close>

text \<open>
  What the tests rely on of the foreign code: the key OpenSSL generates is read back from its forms,
  signs and verifies; serde_json and base64 round trip; \<open>chrono\<close> adds small numbers.
\<close>

definition generates ::
  "('b, 'g, 'p, 'k) crypto \<Rightarrow> ('k \<Rightarrow> 'p \<Rightarrow> bool) \<Rightarrow> 'k \<times> string \<times> string \<Rightarrow> 'p \<Rightarrow> bool" where
  "generates C pair generated pub \<longleftrightarrow>
     (case generated of (pkey, pkcs8, raw_public) \<Rightarrow>
        cr_pkcs8 C pkcs8 = Some pkey \<and> cr_raw_public C raw_public Ed25519 = Some pub \<and> pair pkey pub \<and>
        (\<forall>m. cr_sign C NoDigest pkey m \<noteq> None))"

definition bench_laws ::
  "serde_jwk \<Rightarrow> ('k \<Rightarrow> 'p \<Rightarrow> bool) \<Rightarrow> ('b, 'g, 'p, 'k, 'v, received, 's) deps \<Rightarrow> bool" where
  "bench_laws S pair D \<longleftrightarrow>
     lawful_serde S \<and> lawful_crypto (dp_crypto D) pair \<and> lawful_json (dp_json D) \<and>
     (\<forall>c. sj_claims_to (dp_json D) c \<noteq> None) \<and> (\<forall>h. sj_headers_to (dp_json D) h \<noteq> None) \<and>
     (\<forall>v \<in> {''TOKEN_CLAIMS_MAX_COUNT'', ''TOKEN_CLAIMS_MAX_BYTES'', ''REFRESH_TOKEN_TTL_SECONDS''}. dp_env D v = None) \<and>
     (\<forall>a b. \<bar>a\<bar> < 2 ^ 52 \<longrightarrow> \<bar>b\<bar> \<le> 2592000 \<longrightarrow> dp_plus D a b = Some (a + b))"

text \<open>The readings of the clock, and the identifiers: different, without a colon.\<close>

definition minute :: "(nat \<Rightarrow> int) \<Rightarrow> bool" where
  "minute u \<longleftrightarrow> mono u \<and> 7200 \<le> u 0 \<and> (\<forall>n. u n < u 0 + 60 \<and> u n < 2 ^ 52)"

definition uuids :: "(nat \<Rightarrow> string) \<Rightarrow> bool" where
  "uuids i \<longleftrightarrow> inj i \<and> (\<forall>n. bare_key (i n))"

text \<open>The key manager in a test: any cache of it holds the mock's key.\<close>

definition keys_served :: "'k test_key \<Rightarrow> string \<Rightarrow> received key_manager \<Rightarrow> bool" where
  "keys_served key uri m \<longleftrightarrow> km_algorithm m = ''EdDSA'' \<and> sv_url (km_service m) = uri \<and>
     mono_clock (km_service m) \<and>
     (\<forall>ks at. cs_entry (sv_cache (km_service m)) = Some (ks, at) \<longrightarrow> ks = test_jwks key)"

lemma new_keys_served:
  "e ''JWKS_SERVICE_URL'' = Some uri \<Longrightarrow> mono clk \<Longrightarrow> keys_served key uri (key_manager_new (jwk_service_new e [] clk) ''EdDSA'')"
  by (simp add: keys_served_def key_manager_new_def jwk_service_new_def env_or_def mono_clock_def mono_def)

lemma mock_private_key:
  assumes S: "lawful_serde S" and l: "lawful_crypto C pair" and g: "generates C pair gen pub"
    and m: "keys_served (make_key C gen kid) uri m"
  shows "\<exists>m'. get_private_key C (http_jwks_mock S (make_key C gen kid) uri) m =
      (Inr (test_jwk_data (make_key C gen kid), fst gen), m') \<and> keys_served (make_key C gen kid) uri m'"
proof -
  obtain pkey pkcs8 raw where gen: "gen = (pkey, pkcs8, raw)" by (cases gen)
  have s: "se_key_of S (se_key S k) = Some k" for k using S by (simp add: lawful_serde_def)
  have d: "cr_b64_decode C (cr_b64_encode C x) = Some x" for x using l by (simp add: lawful_crypto_def)
  show ?thesis using g m
    by (simp add: gen generates_def keys_served_def get_private_key_def get_jwk_data_def private_key_def create_key_def
        get_key_def http_jwks_mock_def mock_server_def response_template_def s d make_key_def test_jwk_data_def
        record_jwks_def mono_clock_def)
qed

text \<open>A lookup of the one key: whether cached, stale or fetched, it is found.\<close>

lemma stays_stale:
  assumes "mono_clock s" "lookup_fresh kid s = (None, s1)"
    and "\<And>ks at. cs_entry (sv_cache s) = Some (ks, at) \<Longrightarrow> find_kid kid ks \<noteq> None" "sv_tick s \<le> i"
  shows "\<not> cache_is_fresh_at s (sv_clk s i)"
proof
  assume "cache_is_fresh_at s (sv_clk s i)"
  then obtain ks at where e: "cs_entry (sv_cache s) = Some (ks, at)" "sv_clk s i - at < sv_cache_ttl s"
    by (auto simp: cache_is_fresh_at_def split: option.splits)
  have "sv_clk s (sv_tick s) \<le> sv_clk s i" using assms(1,4) by (simp add: mono_clock_def)
  then have "sv_clk s (sv_tick s) - at < sv_cache_ttl s" using e(2) by linarith
  then show False
    using assms(2) assms(3) [OF e(1)] e(1) by (auto simp: lookup_fresh_def step_simps lookup_fresh_at_def)
qed

lemma throttled_found:
  assumes n: "\<And>i. sv_tick s \<le> i \<Longrightarrow> \<not> cache_is_fresh_at s (sv_clk s i)"
    and e: "\<And>ks at. cs_entry (sv_cache s) = Some (ks, at) \<Longrightarrow> find_kid kid ks = Some j"
    and t: "public_key_throttled kid s = (y, s')"
  shows "y = None \<or> y = Some (Inr j)"
proof -
  obtain b s1 where r: "refresh_recently_failed s = (b, s1)" by fastforce
  obtain z s2 where z: "(if b then serve_stale kid s1 else (None, s1)) = (z, s2)" by fastforce
  obtain c s3 where c: "cache_is_fresh s2 = (c, s3)" by fastforce
  note st = recently_failed_state [OF r]
  have z': "z = None \<or> z = Some j"
    using z st e by (auto simp: serve_stale_def step_simps lookup_stale_at_def Let_def split: if_splits option.splits)
  have st2: "same_service s s2" "sv_cache s2 = sv_cache s"
    using z st by (auto split: if_splits dest!: serve_stale_state intro: same_service_trans)
  have "c = cache_is_fresh_at s (sv_clk s (sv_tick s2))"
    using c st2 by (auto simp: cache_is_fresh_def step_simps cache_is_fresh_at_def same_service_def split: option.splits)
  then have "\<not> c" using n [of "sv_tick s2"] st2(1) by (simp add: same_service_def)
  then show ?thesis using t r z z' c by (auto simp: public_key_throttled_def split: option.splits)
qed

definition serves :: "'n key_server \<Rightarrow> string \<Rightarrow> jwks \<Rightarrow> bool" where
  "serves K uri ks \<longleftrightarrow> (\<forall>n. \<exists>r n'. kn_get K (uri @ ''/.well-known/jwks.json'') n = (Some r, n') \<and>
     kn_jwks_of K (hr_body r) = Some ks)"

lemma fetch_found:
  assumes "serves K (sv_url s) ks" "find_kid kid ks = Some j"
  shows "\<exists>s' at. public_key_fetch K kid s = (Inr j, s') \<and> same_service s s' \<and> cs_entry (sv_cache s') = Some (ks, at)"
proof -
  obtain r n' where "kn_get K (sv_url s @ ''/.well-known/jwks.json'') (sv_net s) = (Some r, n')"
    "kn_jwks_of K (hr_body r) = Some ks" using assms(1) unfolding serves_def by blast
  then show ?thesis using assms(2)
    by (simp add: public_key_fetch_def fetch_and_store_def public_keys_def step_simps record_jwks_def same_service_def)
qed

definition holds_only :: "jwks \<Rightarrow> 'n jwk_service \<Rightarrow> bool" where
  "holds_only ks s \<longleftrightarrow> (\<forall>ks' at. cs_entry (sv_cache s) = Some (ks', at) \<longrightarrow> ks' = ks)"

lemma key_found:
  assumes "serves K (sv_url s) ks" "find_kid kid ks = Some j" "mono_clock s" "holds_only ks s"
  shows "\<exists>s'. public_key K kid s = (Inr j, s') \<and> same_service s s' \<and> holds_only ks s'"
proof -
  obtain x s1 where l: "lookup_fresh kid s = (x, s1)" by fastforce
  obtain x2 s2 where l2: "lookup_fresh kid s1 = (x2, s2)" by fastforce
  obtain b s3 where a: "allow_refresh_on_miss s2 = (b, s3)" by fastforce
  obtain y s4 where t: "public_key_throttled kid s3 = (y, s4)" by fastforce
  note st = lookup_fresh_state [OF l] lookup_fresh_state [OF l2] allow_refresh_state [OF a] public_key_throttled_state [OF t]
  have ss: "same_service s s1" "same_service s s2" "same_service s s3" "same_service s s4"
    using st by (auto intro: same_service_trans)
  have hold: "holds_only ks s1" "holds_only ks s2" "holds_only ks s3" "holds_only ks s4"
    using st assms(4) by (auto simp: holds_only_def)
  have e: "find_kid kid ks' = Some j" if "cs_entry (sv_cache s) = Some (ks', at)" for ks' at
    using assms(2,4) that unfolding holds_only_def by blast
  have hit: "x' = None \<or> x' = Some j" if "lookup_fresh kid s' = (x', s'')" "cs_entry (sv_cache s') = cs_entry (sv_cache s)"
    for x' s' s'' using lookup_fresh_Some [of kid s' _ s''] that e by (cases x') fastforce+
  have fetch: "\<exists>s'. public_key_fetch K kid v = (Inr j, s') \<and> same_service s s' \<and> holds_only ks s'" if "same_service s v" for v
  proof -
    have "serves K (sv_url v) ks" using assms(1) that by (simp add: same_service_def)
    from fetch_found [OF this assms(2)] show ?thesis using that by (auto simp: holds_only_def intro: same_service_trans)
  qed
  have n: "\<not> cache_is_fresh_at s3 (sv_clk s3 i)" if "x = None" "\<not> b" "sv_tick s3 \<le> i" for i
  proof -
    have "sv_tick s \<le> i" using that(3) ss(3) by (simp add: same_service_def)
    then have "\<not> cache_is_fresh_at s (sv_clk s i)"
      using stays_stale [OF assms(3), of kid s1 i] l that(1) e by fastforce
    then show ?thesis using ss(3) st that(2) by (auto simp: cache_is_fresh_at_def same_service_def split: option.splits)
  qed
  have y: "y = None \<or> y = Some (Inr j)" if "x = None" "\<not> b"
    by (rule throttled_found [OF n [OF that] _ t]) (use e st that in auto)
  show ?thesis
    using l l2 a t hit [OF l] hit [OF l2] st ss hold y fetch [OF ss(3)] fetch [OF ss(4)]
    by (cases b) (auto simp: public_key_def public_key_locked_def record_jwks_def same_service_def holds_only_def)
qed

lemma mock_public_key:
  assumes S: "lawful_serde S" and l: "lawful_crypto C pair" and g: "generates C pair gen pub"
    and m: "keys_served (make_key C gen kid) uri m"
  shows "\<exists>m'. get_public_key C (http_jwks_mock S (make_key C gen kid) uri) kid m = (Inr pub, m') \<and>
     keys_served (make_key C gen kid) uri m'"
proof -
  let ?k = "make_key C gen kid"
  obtain pkey pkcs8 raw where gen: "gen = (pkey, pkcs8, raw)" by (cases gen)
  have d: "cr_b64_decode C (cr_b64_encode C x) = Some x" for x using l by (simp add: lawful_crypto_def)
  have k: "te_kid ?k = kid" by (simp add: make_key_def gen)
  have "serves (http_jwks_mock S ?k uri) uri (test_jwks ?k)"
    using S by (simp add: serves_def http_jwks_mock_def mock_server_def response_template_def lawful_serde_def)
  moreover have "find_kid kid (test_jwks ?k) = Some (hd (jwks_keys (test_jwks ?k)))"
    by (simp add: find_kid_def test_jwks_def k)
  ultimately obtain s' where s': "public_key (http_jwks_mock S ?k uri) kid (km_service m) = (Inr (hd (jwks_keys (test_jwks ?k))), s')"
    "same_service (km_service m) s'" "holds_only (test_jwks ?k) s'"
    using key_found [of "http_jwks_mock S ?k uri" "km_service m" "test_jwks ?k" kid] m
    by (auto simp: keys_served_def holds_only_def)
  have "public_key_of_jwk C (hd (jwks_keys (test_jwks ?k))) = Inr pub"
    using g by (simp add: gen generates_def make_key_def test_jwks_def public_key_of_jwk_def get_public_key_from_dsa_def
        eddsa_of_crv_def d)
  then show ?thesis using s' m
    by (auto simp: get_public_key_def get_jwk_def keys_served_def same_service_def mono_clock_def holds_only_def)
qed

section \<open>Issuing and verifying on the bench\<close>

definition bench ::
  "serde_jwk \<Rightarrow> ('k \<Rightarrow> 'p \<Rightarrow> bool) \<Rightarrow> 'k \<times> string \<times> string \<Rightarrow> 'p \<Rightarrow> string \<Rightarrow> string
     \<Rightarrow> ('b, 'g, 'p, 'k, 'v, received, mock_state) deps \<Rightarrow> bool" where
  "bench S pair gen pub kid uri A \<longleftrightarrow>
     bench_laws S pair A \<and> generates (dp_crypto A) pair gen pub \<and> dp_store A = http_mock_store \<and>
     dp_server A = http_jwks_mock S (make_key (dp_crypto A) gen kid) uri \<and>
     dp_env A ''TOKEN_ALGORITHM'' = Some ''EdDSA'' \<and>
     (\<forall>v \<in> {''TOKEN_JKU'', ''TOKEN_EXPIRATION_SECONDS'', ''TOKEN_TTL_MIN_SECONDS'', ''TOKEN_TTL_MAX_SECONDS''}. dp_env A v = None)"

lemma token_deps_bench:
  assumes "bench_laws S pair D" "generates (dp_crypto D) pair gen pub"
  shows "bench S pair gen pub kid uri (token_deps S (make_key (dp_crypto D) gen kid) uri D)"
    and "bench S pair gen pub kid uri ((token_deps S (make_key (dp_crypto D) gen kid) uri D)
      \<lparr>dp_env := (set_jwks_env uri (dp_env D))(''TOKEN_ISSUER_ALLOWLIST'' \<mapsto> list)\<rparr>)"
  using assms by (simp_all add: bench_def bench_laws_def token_deps_def set_jwks_env_apply)

definition on_bench ::
  "'k test_key \<Rightarrow> string \<Rightarrow> (nat \<Rightarrow> int) \<Rightarrow> (nat \<Rightarrow> string) \<Rightarrow> (received, 's) world \<Rightarrow> bool" where
  "on_bench key uri u i w \<longleftrightarrow> keys_served key uri (w_keys w) \<and> w_utc w = u \<and> w_uuid w = i"

definition bench_headers :: "string \<Rightarrow> token_headers" where
  "bench_headers kid = \<lparr>th_alg = ''EdDSA'', th_kid = kid, th_typ = ''JWT'', th_jku = None\<rparr>"

text \<open>A token of the key, with its claims.\<close>

definition reads_as ::
  "('b, 'g, 'p, 'k, 'v, 'n, 's) deps \<Rightarrow> string \<Rightarrow> 'p \<Rightarrow> string \<Rightarrow> 'v token_claims \<Rightarrow> bool" where
  "reads_as A kid pub token c \<longleftrightarrow>
     (\<exists>h cs s. split_on (CHR ''.'') token = [h, cs, s] \<and>
        headers_from_base64 (dp_crypto A) (dp_json A) h = Inr (bench_headers kid) \<and>
        claims_from_base64 (dp_crypto A) (dp_json A) cs = Inr c \<and>
        check_signature (dp_crypto A) (bench_headers kid) pub h cs s = Inr ())"

lemma reads_as_jti: "reads_as A kid pub token c \<Longrightarrow> jti_of (dp_crypto A) (dp_json A) token = Some (tc_jti c)"
  by (auto simp: reads_as_def jti_of_def)

lemma bench_encode:
  assumes b: "bench S pair gen pub kid uri A" and p: "plain_claims c"
  shows "\<exists>token. token_to_string (dp_crypto A) (dp_json A)
      \<lparr>jt_headers = headers_create_new (dp_env A) kid, jt_claims = c, jt_key = fst gen\<rparr> = Inr token \<and>
    reads_as A kid pub token c"
proof -
  have l: "lawful_crypto (dp_crypto A) pair" "lawful_json (dp_json A)" and k: "pair (fst gen) pub"
    and sign: "\<forall>m. cr_sign (dp_crypto A) NoDigest (fst gen) m \<noteq> None"
    using b by (auto simp: bench_def bench_laws_def generates_def)
  have h: "headers_create_new (dp_env A) kid = bench_headers kid"
    using b by (simp add: bench_def headers_create_new_def env_or_def bench_headers_def)
  obtain hj cj where j: "sj_headers_to (dp_json A) (bench_headers kid) = Some hj" "sj_claims_to (dp_json A) c = Some cj"
    using b unfolding bench_def bench_laws_def by blast
  obtain sig where "cr_sign (dp_crypto A) NoDigest (fst gen)
      (cr_b64_encode (dp_crypto A) hj @ ''.'' @ cr_b64_encode (dp_crypto A) cj) = Some sig" using sign by blast
  then obtain token where token: "token_to_string (dp_crypto A) (dp_json A)
      \<lparr>jt_headers = bench_headers kid, jt_claims = c, jt_key = fst gen\<rparr> = Inr token"
    using j by (simp add: token_to_string_def headers_to_base64_def claims_to_base64_def digest_of_alg_def)
      (simp add: bench_headers_def)
  from token_segments [OF l _ this, simplified, OF p k] show ?thesis
    using token unfolding h reads_as_def by auto
qed

text \<open>One clock reading makes the claims, the next checks them.\<close>

lemma minute_valid:
  assumes "minute u" "n \<le> m"
  shows "claims_valid_at (new_claims iss sub aud (u n) (u n + 3600) j x) iss a (as_usize (u m)) \<longleftrightarrow> a \<in> set aud"
proof -
  have b: "u n \<le> u m" "7200 \<le> u 0" "u 0 \<le> u n" "u m < u 0 + 60" "u n < 2 ^ 52" "u m < 2 ^ 52"
    using assms by (auto simp: minute_def mono_def)
  show ?thesis using b by (auto simp: claims_valid_at_def new_claims_def as_usize_le as_usize_less)
qed

lemma bench_generate:
  assumes b: "bench S pair gen pub kid uri A" and w: "on_bench (make_key (dp_crypto A) gen kid) uri u i w" "minute u"
    and x: "validate_custom_claims (dp_env A) (dp_json A) x = Inr ()" "plain_claims (new_claims iss sub aud 0 0 [] x)"
    and aud: "aud = a # as"
  shows "\<exists>token w'. generate_token A iss sub aud None x w = (Ok token, w') \<and>
     reads_as A kid pub token (new_claims iss sub aud (utc_now w) (utc_now w + 3600) (uuid_next w) x) \<and>
     on_bench (make_key (dp_crypto A) gen kid) uri u i w' \<and>
     w_store w' = (w_store w)\<lparr>ms_jtis := insert (uuid_next w) (ms_jtis (w_store w)),
       ms_groups := (ms_groups (w_store w))(subject_group sub \<mapsto> insert (uuid_next w) (members_of (w_store w) (subject_group sub)))\<rparr> \<and>
     w_utc_tick w' = w_utc_tick w + 2 \<and> w_uuid_tick w' = w_uuid_tick w + 1"
proof -
  let ?key = "make_key (dp_crypto A) gen kid" and ?n = "w_utc_tick w"
  let ?c = "new_claims iss sub aud (u ?n) (u ?n + 3600) (i (w_uuid_tick w)) x"
  have laws: "lawful_serde S" "lawful_crypto (dp_crypto A) pair" "generates (dp_crypto A) pair gen pub"
    "dp_store A = http_mock_store" "dp_server A = http_jwks_mock S ?key uri"
    using b by (simp_all add: bench_def bench_laws_def)
  obtain m' where m': "get_private_key (dp_crypto A) (dp_server A) (w_keys w) = (Inr (test_jwk_data ?key, fst gen), m')"
    "keys_served ?key uri m'"
    using mock_private_key [OF laws(1-3), of kid uri "w_keys w"] w(1) laws(5) by (auto simp: on_bench_def)
  have kid: "jd_kid (test_jwk_data ?key) = kid" by (simp add: test_jwk_data_def make_key_def split: prod.splits)
  have "plain_claims ?c" using x(2) by (simp add: plain_claims_def new_claims_def)
  from bench_encode [OF b this] obtain token where token: "token_to_string (dp_crypto A) (dp_json A)
      \<lparr>jt_headers = headers_create_new (dp_env A) kid, jt_claims = ?c, jt_key = fst gen\<rparr> = Inr token"
    "reads_as A kid pub token ?c" by blast
  have e: "expiration_seconds (dp_env A) None = Inr 3600"
    using b by (simp add: bench_def expiration_seconds_def env_or_def runs)
  have bnd: "\<bar>u ?n\<bar> < 2 ^ 52" using w(2) monoD [of u 0 ?n] by (auto simp: minute_def abs_less_iff)
  have plus: "dp_plus A (u ?n) 3600 = Some (u ?n + 3600)" using b bnd by (simp add: bench_def bench_laws_def)
  have i: "as_i64 3600 = 3600" by (simp add: as_i64_small)
  have v: "claims_valid_at ?c iss a (as_usize (u (Suc ?n)))" by (simp add: aud minute_valid [OF w(2)])
  have f: "w_utc w = u" "w_uuid w = i" using w(1) by (simp_all add: on_bench_def)
  show ?thesis
    using m' token e plus v x(1) w(1)
    by (simp add: generate_token_def and_then_def key_call_def claims_create_new_def pure_step_def store_call_def Let_def
        claims_is_verify_def laws(4) kid utc_now_def utc_tick_def uuid_next_def uuid_tick_def aud i on_bench_def f
        new_claims_def members_of_def)
qed

lemma bench_verify:
  assumes b: "bench S pair gen pub kid uri A" and w: "on_bench (make_key (dp_crypto A) gen kid) uri u i w"
    and t: "reads_as A kid pub token c"
  shows "\<exists>w'. verify_token A token iss a w =
      (if claims_valid_at c iss a (as_usize (utc_now w)) \<and> tc_jti c \<in> ms_jtis (w_store w) then Ok c else Err NotValid, w') \<and>
     on_bench (make_key (dp_crypto A) gen kid) uri u i w' \<and> w_store w' = w_store w \<and>
     w_utc_tick w' = w_utc_tick w + 1 \<and> w_uuid_tick w' = w_uuid_tick w"
proof -
  let ?key = "make_key (dp_crypto A) gen kid"
  have laws: "lawful_serde S" "lawful_crypto (dp_crypto A) pair" "generates (dp_crypto A) pair gen pub"
    "dp_store A = http_mock_store" "dp_server A = http_jwks_mock S ?key uri"
    using b by (simp_all add: bench_def bench_laws_def)
  obtain m' where m': "get_public_key (dp_crypto A) (dp_server A) kid (w_keys w) = (Inr pub, m')" "keys_served ?key uri m'"
    using mock_public_key [OF laws(1-3), of kid uri "w_keys w"] w(1) laws(5) by (auto simp: on_bench_def)
  have h: "headers_is_verify (dp_env A) (bench_headers kid)" "th_kid (bench_headers kid) = kid"
    using b by (simp_all add: bench_def headers_is_verify_def bench_headers_def SUPPORTED_ALGORITHMS_def)
  obtain h cs s where seg: "split_on (CHR ''.'') token = [h, cs, s]"
    "headers_from_base64 (dp_crypto A) (dp_json A) h = Inr (bench_headers kid)"
    "claims_from_base64 (dp_crypto A) (dp_json A) cs = Inr c"
    "check_signature (dp_crypto A) (bench_headers kid) pub h cs s = Inr ()"
    using t unfolding reads_as_def by blast
  show ?thesis
    using m' h w(1)
    by (auto simp: verify_token_def token_from_string_def seg and_then_def pure_step_def key_call_def claims_is_verify_def
        laws(4) Let_def utc_now_def utc_tick_def on_bench_def)
qed

end
