(* ===== verification/Handler_Tests.thy ===== *)
theory Handler_Tests
  imports Complex_Main Handler_Bench Handlers_Correct Redis_Store
begin

text \<open>
  The tests of \<open>handlers.rs\<close> on the handlers of the model, over the store in memory and the mock of the
  key service (\<open>Handler_Bench\<close>). A JSON body is given as the value it decodes to, a path parameter as
  its text. Left out are the tests of the JSON text itself (flattened claims, the number of members)
  and of the Prometheus text, which serde and the recorder write.
\<close>

section \<open>Probes\<close>

definition livez_returns_200 :: "('n, 's) world \<Rightarrow> bool" where
  "livez_returns_200 w \<longleftrightarrow> rs_status (fst (livez w) :: unit response) = 200"

text \<open>\<open>readyz\<close>, then the test on its response.\<close>

definition ready ::
  "('b, 'g, 'p, 'k, 'v, 'n, 's) deps \<Rightarrow> ('n, 's) world \<Rightarrow> (nat \<Rightarrow> readiness_response \<Rightarrow> bool) \<Rightarrow> bool" where
  "ready A w check \<longleftrightarrow>
     (let resp = fst (readyz A w) in
      case rs_body resp of ReadinessBody b \<Rightarrow> check (rs_status resp) b | _ \<Rightarrow> False)"

definition readyz_reports_ready_over_arbitrary_store ::
  "serde_jwk \<Rightarrow> 'k \<times> string \<times> string \<Rightarrow> string \<Rightarrow> ('b, 'g, 'p, 'k, 'v, received, mock_state) deps \<Rightarrow> (nat \<Rightarrow> nat)
     \<Rightarrow> (received, mock_state) world \<Rightarrow> bool" where
  "readyz_reports_ready_over_arbitrary_store S gen uri D clk w \<longleftrightarrow>
     (let A = token_deps S (make_key (dp_crypto D) gen ''kid-ready-ok'') uri D in
      ready A (token_world (dp_env A) clk w) (\<lambda>status body.
        status = 200 \<and> rd_status body = ''ok'' \<and> rd_redis body \<and> rd_jwks body \<and> \<not> rd_jwks_stale body))"

definition readyz_reports_503_when_store_ping_fails ::
  "serde_jwk \<Rightarrow> 'k \<times> string \<times> string \<Rightarrow> string \<Rightarrow> ('b, 'g, 'p, 'k, 'v, received, unit) deps \<Rightarrow> (nat \<Rightarrow> nat)
     \<Rightarrow> (received, unit) world \<Rightarrow> bool" where
  "readyz_reports_503_when_store_ping_fails S gen uri D clk w \<longleftrightarrow>
     (let key = make_key (dp_crypto D) gen ''kid-ready-nostore'';
          e = set_jwks_env uri (dp_env D) in
      ready (D\<lparr>dp_store := unavailable_store, dp_server := http_jwks_mock S key uri, dp_env := e\<rparr>)
        (w\<lparr>w_store := (), w_keys := key_manager_new (jwk_service_new e [] clk) ''EdDSA''\<rparr>) (\<lambda>status body.
        status = 503 \<and> rd_status body = ''unavailable'' \<and> \<not> rd_redis body \<and> rd_jwks body))"

text \<open>Port 1: neither Redis (\<open>R\<close>) nor the key service answers.\<close>

definition readyz_reports_503_when_dependencies_unavailable ::
  "'r redis \<Rightarrow> (string \<Rightarrow> bool) \<Rightarrow> ('b, 'g, 'p, 'k, 'v, 'n, 'r redis_client) deps \<Rightarrow> (nat \<Rightarrow> nat) \<Rightarrow> 'r \<Rightarrow> 'n
     \<Rightarrow> ('n, 'r redis_client) world \<Rightarrow> bool" where
  "readyz_reports_503_when_dependencies_unavailable R valid_url D clk r n w \<longleftrightarrow>
     (let e = (dp_env D)(''REDIS_URL'' \<mapsto> ''redis://127.0.0.1:1'', ''JWKS_SERVICE_URL'' \<mapsto> ''http://127.0.0.1:1'') in
      redis_client_new valid_url e \<noteq> None \<and>
      ready (D\<lparr>dp_store := redis_jti_store R, dp_env := e,
               dp_server := \<lparr>kn_get = \<lambda>url n. (None, n), kn_post_alg = \<lambda>url alg n. (None, n),
                 kn_jwks_of = kn_jwks_of (dp_server D), kn_key_of = kn_key_of (dp_server D)\<rparr>\<rparr>)
        (w\<lparr>w_store := redis_client_init r (\<lambda>_. 0) (w_utc w),
           w_keys := key_manager_new (jwk_service_new e n clk) ''RS256''\<rparr>) (\<lambda>status body.
        status = 503 \<and> rd_status body = ''unavailable'' \<and> \<not> rd_redis body \<and> \<not> rd_jwks body))"

definition dying_jwks_mock :: "serde_jwk \<Rightarrow> 'k test_key \<Rightarrow> string \<Rightarrow> received key_server" where
  "dying_jwks_mock S key uri = mock_server S (\<lambda>verb url n.
     if verb = ''GET'' \<and> url = uri @ ''/.well-known/jwks.json''
     then (if filter (\<lambda>r. r = (verb, url)) n = [] then response_template 200 (se_jwks S (test_jwks key)) else response_template 500 [])
     else None)"

definition readyz_counts_jwks_as_ready_while_snapshot_serves ::
  "serde_jwk \<Rightarrow> 'k \<times> string \<times> string \<Rightarrow> string \<Rightarrow> 'r redis \<Rightarrow> (string \<Rightarrow> bool)
     \<Rightarrow> ('b, 'g, 'p, 'k, 'v, received, 'r redis_client) deps \<Rightarrow> (nat \<Rightarrow> nat) \<Rightarrow> 'r \<Rightarrow> (received, 'r redis_client) world \<Rightarrow> bool" where
  "readyz_counts_jwks_as_ready_while_snapshot_serves S gen uri R valid_url D clk r w \<longleftrightarrow>
     (let key = make_key (dp_crypto D) gen ''kid-ready'';
          K = dying_jwks_mock S key uri;
          e = (set_jwks_env uri ((dp_env D)(''REDIS_URL'' \<mapsto> ''redis://127.0.0.1:1'')))
                (''JWKS_CACHE_TTL_SECONDS'' := None, ''JWKS_CACHE_STALE_GRACE_SECONDS'' := None) in
      redis_client_new valid_url e \<noteq> None \<and>
      (case get_public_key (dp_crypto D) K (te_kid key) (key_manager_new (jwk_service_new e [] clk) ''EdDSA'') of
         (k, m) \<Rightarrow> ok k \<and>
           ready (D\<lparr>dp_store := redis_jti_store R, dp_env := e, dp_server := K\<rparr>)
             (w\<lparr>w_store := redis_client_init r (\<lambda>_. 0) (w_utc w), w_keys := m\<rparr>) (\<lambda>status body.
             status = 503 \<and> rd_jwks body \<and> rd_jwks_stale body \<and> \<not> rd_redis body)))"

lemma mock_check_jwks:
  assumes "lawful_serde S" "keys_served key uri m"
  shows "\<exists>m'. check_jwks (http_jwks_mock S key uri) m = (Inr (), m')"
  using assms
  by (simp add: check_jwks_def health_check_def public_keys_def http_jwks_mock_def mock_server_def response_template_def
      keys_served_def lawful_serde_def)

lemma ready_live:
  assumes "js_ping (dp_store A) (w_store w) = (p, s)" "check_jwks (dp_server A) (w_keys w) = (Inr u, m)"
  shows "ready A w check \<longleftrightarrow> check (if ok p then 200 else 503)
     \<lparr>rd_status = (if ok p then ''ok'' else ''unavailable''), rd_redis = ok p, rd_jwks = True, rd_jwks_stale = False\<rparr>"
  using assms by (cases p) (simp_all add: ready_def readyz_def readiness_status_def ok_def Let_def)

lemma ready_dead:
  assumes "js_ping (dp_store A) (w_store w) = (Inl err, s)" "check_jwks (dp_server A) (w_keys w) = (Inl e, m)"
    and "has_servable_jwks_snapshot m = (b, m1)"
  shows "ready A w check \<longleftrightarrow>
     check 503 \<lparr>rd_status = ''unavailable'', rd_redis = False, rd_jwks = b, rd_jwks_stale = b\<rparr>"
  using assms by (simp add: ready_def readyz_def readiness_status_def Let_def)

text \<open>One answer warms the cache; after it the service is down, and the snapshot serves.\<close>

lemma snapshot_serves:
  assumes S: "lawful_serde S" and l: "lawful_crypto C pair" "generates C pair gen pub" and clk: "brisk clk"
    and e: "e ''JWKS_SERVICE_URL'' = Some uri" "e ''JWKS_CACHE_TTL_SECONDS'' = None" "e ''JWKS_CACHE_STALE_GRACE_SECONDS'' = None"
  shows "\<exists>m m2 m3. get_public_key C (dying_jwks_mock S (make_key C gen kid) uri) kid
      (key_manager_new (jwk_service_new e [] clk) alg) = (Inr pub, m) \<and>
    check_jwks (dying_jwks_mock S (make_key C gen kid) uri) m = (Inl KeyNotFound, m2) \<and>
    has_servable_jwks_snapshot m2 = (True, m3)"
proof -
  let ?key = "make_key C gen kid"
  have s: "se_jwks_of S (se_jwks S ks) = Some ks" "se_jwks_of S [] = None" for ks
    using S by (simp_all add: lawful_serde_def)
  obtain pkey pkcs8 raw where gen: "gen = (pkey, pkcs8, raw)" by (cases gen)
  let ?j = "hd (jwks_keys (test_jwks ?key))"
  have kid: "find_kid kid (test_jwks ?key) = Some ?j" "jwks_keys (test_jwks ?key) \<noteq> []"
    by (simp_all add: find_kid_def test_jwks_def make_key_def gen)
  have j: "public_key_of_jwk C ?j = Inr pub"
    using l by (simp add: gen generates_def lawful_crypto_def make_key_def test_jwks_def public_key_of_jwk_def
        get_public_key_from_dsa_def eddsa_of_crv_def)
  define K where "K = dying_jwks_mock S ?key uri"
  have first: "kn_get K (uri @ ''/.well-known/jwks.json'') [] =
      (Some \<lparr>hr_status = 200, hr_body = se_jwks S (test_jwks ?key)\<rparr>, [(''GET'', uri @ ''/.well-known/jwks.json'')])"
    and rest: "kn_get K (uri @ ''/.well-known/jwks.json'') [(''GET'', uri @ ''/.well-known/jwks.json'')] =
      (Some \<lparr>hr_status = 500, hr_body = []\<rparr>, [(''GET'', uri @ ''/.well-known/jwks.json''), (''GET'', uri @ ''/.well-known/jwks.json'')])"
    and dec: "kn_jwks_of K = se_jwks_of S"
    by (simp_all add: K_def dying_jwks_mock_def mock_server_def response_template_def)
  note run = public_key_def public_key_locked_def public_key_fetch_def fetch_and_store_def public_keys_def
    lookup_fresh_def allow_refresh_on_miss_def recently_def lookup_fresh_at_def instant_now_def record_jwks_def
    key_manager_new_def jwk_service_new_def env_or_def jwk_env_u64_def
  show ?thesis
    unfolding K_def [symmetric]
    by (simp add: get_public_key_def get_jwk_def check_jwks_def health_check_def has_servable_jwks_snapshot_def
        has_servable_snapshot_def has_servable_snapshot_at_def servable_max_age_def saturating_add_def duration_max_def
        duration_from_secs_def nanos_per_sec_def run e first rest dec s kid j brisk_age [OF clk])
qed

lemma redis_client_made: "e ''REDIS_URL'' = Some u \<Longrightarrow> valid_url u \<Longrightarrow> redis_client_new valid_url e \<noteq> None"
  by (simp add: redis_client_new_def env_or_def Let_def)

lemma fresh_check_jwks:
  assumes "lawful_serde S" "mono clk"
  shows "\<exists>m'. check_jwks (http_jwks_mock S key uri)
      (key_manager_new (jwk_service_new (set_jwks_env uri e) [] clk) ''EdDSA'') = (Inr (), m')"
  by (rule mock_check_jwks [OF assms(1)], rule new_keys_served [OF _ assms(2)]) (simp add: set_jwks_env_apply)

lemma probe_tests:
  assumes S: "lawful_serde S" and l: "lawful_crypto (dp_crypto D3) pair" "generates (dp_crypto D3) pair gen pub"
    and R: "\<And>r. \<exists>err. fst (rd_connect R r) = Inl err" and url: "valid_url ''redis://127.0.0.1:1''" and clk: "brisk clk"
  shows "livez_returns_200 w0"
    "readyz_reports_ready_over_arbitrary_store S gen uri D clk w"
    "readyz_reports_503_when_store_ping_fails S gen uri D1 clk w1"
    "readyz_reports_503_when_dependencies_unavailable R valid_url D2 clk r n w2"
    "readyz_counts_jwks_as_ready_while_snapshot_serves S gen uri R valid_url D3 clk r w3"
proof -
  have s: "se_jwks_of S (se_jwks S ks) = Some ks" "se_jwks_of S [] = None" for ks
    using S by (simp_all add: lawful_serde_def)
  have ping: "\<exists>c'. redis_ping R (redis_client_init r t u) = (Inl JtiBadConnection, c')" for t u
    using R [of r] by (auto simp: redis_ping_def with_connection_def redis_connection_def redis_client_init_def split: prod.splits)
  note run = ready_def readyz_def check_jwks_def health_check_def public_keys_def key_manager_new_def jwk_service_new_def
    http_jwks_mock_def dying_jwks_mock_def mock_server_def response_template_def token_deps_def token_world_def
    set_jwks_env_def env_or_def record_jwks_def readiness_status_def Let_def s
  show "livez_returns_200 w0" by (simp add: livez_returns_200_def livez_def)
  have m: "mono clk" using clk by (simp add: brisk_def mono_def)
  note fresh = fresh_check_jwks [OF S m]
  show "readyz_reports_ready_over_arbitrary_store S gen uri D clk w"
    using fresh [of "make_key (dp_crypto D) gen ''kid-ready-ok''" uri "dp_env D"]
    by (auto simp: readyz_reports_ready_over_arbitrary_store_def token_deps_def token_world_def Let_def ready_live ok_def)
  show "readyz_reports_503_when_store_ping_fails S gen uri D1 clk w1"
    using fresh [of "make_key (dp_crypto D1) gen ''kid-ready-nostore''" uri "dp_env D1"]
    by (auto simp: readyz_reports_503_when_store_ping_fails_def unavailable_store_def failing_with_def Let_def ready_live ok_def)
  obtain c2 where c2: "redis_ping R (redis_client_init r (\<lambda>_. 0) (w_utc w2)) = (Inl JtiBadConnection, c2)" using ping by blast
  have dead: "\<exists>m m1. check_jwks \<lparr>kn_get = \<lambda>url n. (None, n), kn_post_alg = \<lambda>url alg n. (None, n), kn_jwks_of = f, kn_key_of = g\<rparr>
      (key_manager_new (jwk_service_new e n clk) alg) = (Inl KeyNotFound, m) \<and> has_servable_jwks_snapshot m = (False, m1)"
    for f g e alg
    by (simp add: check_jwks_def health_check_def public_keys_def key_manager_new_def jwk_service_new_def record_jwks_def
        has_servable_jwks_snapshot_def has_servable_snapshot_def instant_now_def has_servable_snapshot_at_def)
  have js: "js_ping (redis_jti_store R) = redis_ping R" by (simp add: redis_jti_store_def)
  define e2 where "e2 = (dp_env D2)(''REDIS_URL'' \<mapsto> ''redis://127.0.0.1:1'', ''JWKS_SERVICE_URL'' \<mapsto> ''http://127.0.0.1:1'')"
  obtain m2 m3 where m2: "check_jwks \<lparr>kn_get = \<lambda>url n. (None, n), kn_post_alg = \<lambda>url alg n. (None, n),
      kn_jwks_of = kn_jwks_of (dp_server D2), kn_key_of = kn_key_of (dp_server D2)\<rparr>
      (key_manager_new (jwk_service_new e2 n clk) ''RS256'') = (Inl KeyNotFound, m2)"
    "has_servable_jwks_snapshot m2 = (False, m3)" using dead by blast
  have u2: "redis_client_new valid_url e2 \<noteq> None"
    by (rule redis_client_made [where u = "''redis://127.0.0.1:1''"]) (use url in \<open>simp_all add: e2_def\<close>)
  show "readyz_reports_503_when_dependencies_unavailable R valid_url D2 clk r n w2"
    unfolding readyz_reports_503_when_dependencies_unavailable_def Let_def e2_def [symmetric]
    by (rule conjI [OF u2], subst ready_dead [where err = JtiBadConnection and s = c2, OF _ _ m2(2)])
      (simp_all add: js c2 m2(1))
  obtain c3 where c3: "redis_ping R (redis_client_init r (\<lambda>_. 0) (w_utc w3)) = (Inl JtiBadConnection, c3)" using ping by blast
  define e3 where "e3 = (set_jwks_env uri ((dp_env D3)(''REDIS_URL'' \<mapsto> ''redis://127.0.0.1:1'')))
    (''JWKS_CACHE_TTL_SECONDS'' := None, ''JWKS_CACHE_STALE_GRACE_SECONDS'' := None)"
  have v3: "e3 ''JWKS_SERVICE_URL'' = Some uri" "e3 ''JWKS_CACHE_TTL_SECONDS'' = None"
    "e3 ''JWKS_CACHE_STALE_GRACE_SECONDS'' = None" "e3 ''REDIS_URL'' = Some ''redis://127.0.0.1:1''"
    by (simp_all add: e3_def set_jwks_env_apply)
  let ?K = "dying_jwks_mock S (make_key (dp_crypto D3) gen ''kid-ready'') uri"
  obtain m m4 m5 where m: "get_public_key (dp_crypto D3) ?K ''kid-ready'' (key_manager_new (jwk_service_new e3 [] clk) ''EdDSA'') = (Inr pub, m)"
    "check_jwks ?K m = (Inl KeyNotFound, m4)" "has_servable_jwks_snapshot m4 = (True, m5)"
    using snapshot_serves [OF S l clk v3(1-3)] by blast
  have u3: "redis_client_new valid_url e3 \<noteq> None" using v3(4) url by (rule redis_client_made [where e = e3])
  have kid: "te_kid (make_key (dp_crypto D3) gen ''kid-ready'') = ''kid-ready''" by (simp add: make_key_def split: prod.splits)
  show "readyz_counts_jwks_as_ready_while_snapshot_serves S gen uri R valid_url D3 clk r w3"
    unfolding readyz_counts_jwks_as_ready_while_snapshot_serves_def Let_def e3_def [symmetric] kid m(1) prod.case
    by (intro conjI u3, simp add: ok_def, subst ready_dead [where err = JtiBadConnection and s = c3, OF _ _ m(3)])
      (simp_all add: js c3 m(2))
qed

section \<open>The life cycle of a token\<close>

text \<open>A test that starts the mock with a new key, sets the environment and assembles \<open>token_app!\<close>.\<close>

definition token_test ::
  "serde_jwk \<Rightarrow> 'k \<times> string \<times> string \<Rightarrow> string \<Rightarrow> string \<Rightarrow> ('b, 'g, 'p, 'k, 'v, received, mock_state) deps \<Rightarrow> (nat \<Rightarrow> nat)
     \<Rightarrow> (received, mock_state) world
     \<Rightarrow> (('b, 'g, 'p, 'k, 'v, received, mock_state) deps \<Rightarrow> (received, mock_state) world \<Rightarrow> bool) \<Rightarrow> bool" where
  "token_test S gen kid uri D clk w test \<longleftrightarrow>
     (let A = token_deps S (make_key (dp_crypto D) gen kid) uri D in test A (token_world (dp_env A) clk w))"

definition verify_status ::
  "('b, 'g, 'p, 'k, 'v, 'n, 's) deps \<Rightarrow> string \<Rightarrow> nat \<Rightarrow> ('n, 's) world \<Rightarrow> (('n, 's) world \<Rightarrow> bool) \<Rightarrow> bool" where
  "verify_status A token status w rest \<longleftrightarrow>
     answered (verify_token_handler A \<lparr>tv_token = token, tv_audience = ''api1''\<rparr> example_host) w
       (\<lambda>resp w. rs_status resp = status \<and> rest w)"

definition token_lifecycle_issue_verify_revoke_verify ::
  "serde_jwk \<Rightarrow> 'k \<times> string \<times> string \<Rightarrow> string \<Rightarrow> ('b, 'g, 'p, 'k, 'v, received, mock_state) deps \<Rightarrow> (nat \<Rightarrow> nat)
     \<Rightarrow> (received, mock_state) world \<Rightarrow> bool" where
  "token_lifecycle_issue_verify_revoke_verify S gen uri D clk w \<longleftrightarrow>
     token_test S gen ''test-key-1'' uri D clk w (\<lambda>A w.
       issue_token A ''user1'' w (\<lambda>token w.
         case jti_of (dp_crypto A) (dp_json A) token of
           None \<Rightarrow> False
         | Some jti \<Rightarrow>
             verify_status A token 200 w (\<lambda>w.
               answered (revoke_token A jti) w (\<lambda>resp w. rs_status resp = 204 \<and>
                 verify_status A token 401 w (\<lambda>_. True)))))"

text \<open>What the calls of a test do, as rules for \<open>answered\<close>.\<close>

lemma record_metric_ticks [simp]:
  "w_utc_tick (record_metric m w) = w_utc_tick w" "w_uuid_tick (record_metric m w) = w_uuid_tick w"
  "utc_now (record_metric m w) = utc_now w" "uuid_next (record_metric m w) = uuid_next w"
  by (simp_all add: record_metric_def utc_now_def uuid_next_def)

lemma on_bench_same:
  "on_bench key uri u i (record_metric m w) = on_bench key uri u i w"
  "on_bench key uri u i (w\<lparr>w_store := s\<rparr>) = on_bench key uri u i w"
  by (simp_all add: on_bench_def)

lemma example_host_header: "host_header example_host = Inr ''example.com''"
  by (simp add: host_header_def example_host_def header_get_with)

definition plain_host :: "('b, 'g, 'p, 'k, 'v, 'n, 's) deps \<Rightarrow> bool" where
  "plain_host A \<longleftrightarrow> is_allowed (dp_env A) ''example.com''"

text \<open>The store after a token was issued.\<close>

definition added :: "string \<Rightarrow> string \<Rightarrow> mock_state \<Rightarrow> mock_state" where
  "added g x m = m\<lparr>ms_groups := (ms_groups m)(g \<mapsto> insert x (members_of m g))\<rparr>"

definition with_token :: "string \<Rightarrow> string \<Rightarrow> mock_state \<Rightarrow> mock_state" where
  "with_token sub jti m = added (subject_group sub) jti (m\<lparr>ms_jtis := insert jti (ms_jtis m)\<rparr>)"

lemma added_simps [simp]:
  "ms_jtis (added g x m) = ms_jtis m" "ms_refreshes (added g x m) = ms_refreshes m"
  "members_of (added g x m) h = (if h = g then insert x (members_of m g) else members_of m h)"
  by (simp_all add: added_def members_of_def)

lemma with_token_simps [simp]:
  "ms_jtis (with_token sub jti m) = insert jti (ms_jtis m)" "ms_refreshes (with_token sub jti m) = ms_refreshes m"
  "members_of (with_token sub jti m) h = (if h = subject_group sub then insert jti (members_of m h) else members_of m h)"
  by (simp_all add: with_token_def) (simp_all add: members_of_def)

lemma answered_issue:
  assumes b: "bench S pair gen pub kid uri A" and w: "on_bench (make_key (dp_crypto A) gen kid) uri u i w" "minute u"
    and h: "host_header hs = Inr host" "is_allowed (dp_env A) host"
    and req: "tr_ttl req = None" "\<not> tr_refresh req" "tr_aud req \<noteq> []"
      "validate_custom_claims (dp_env A) (dp_json A) (tr_claims req) = Inr ()"
      "plain_claims (new_claims host (tr_sub req) (tr_aud req) 0 0 [] (tr_claims req))"
    and rest: "\<And>token v. reads_as A kid pub token (new_claims host (tr_sub req) (tr_aud req) (u (w_utc_tick w))
          (u (w_utc_tick w) + 3600) (i (w_uuid_tick w)) (tr_claims req)) \<Longrightarrow>
        on_bench (make_key (dp_crypto A) gen kid) uri u i v \<Longrightarrow>
        w_store v = with_token (tr_sub req) (i (w_uuid_tick w)) (w_store w) \<Longrightarrow>
        w_utc_tick v = w_utc_tick w + 2 \<Longrightarrow> w_uuid_tick v = w_uuid_tick w + 1 \<Longrightarrow> rest (token_ok token None) v"
  shows "answered (create_token A req hs) w rest"
proof -
  obtain a as where aud: "tr_aud req = a # as" using req(3) by (cases "tr_aud req") auto
  have f: "utc_now w = u (w_utc_tick w)" "uuid_next w = i (w_uuid_tick w)"
    using w(1) by (simp_all add: on_bench_def utc_now_def uuid_next_def)
  obtain token v where g: "generate_token A host (tr_sub req) (tr_aud req) None (tr_claims req) w = (Ok token, v)"
    "reads_as A kid pub token (new_claims host (tr_sub req) (tr_aud req) (u (w_utc_tick w)) (u (w_utc_tick w) + 3600)
       (i (w_uuid_tick w)) (tr_claims req))"
    "on_bench (make_key (dp_crypto A) gen kid) uri u i v"
    "w_store v = with_token (tr_sub req) (i (w_uuid_tick w)) (w_store w)"
    "w_utc_tick v = w_utc_tick w + 2" "w_uuid_tick v = w_uuid_tick w + 1"
    using bench_generate [OF b w req(4,5) aud] by (auto simp: f with_token_def added_def members_of_def)
  then have "rest (token_ok token None) (record_metric TokenIssued v)"
    by (intro rest) (simp_all add: on_bench_same)
  then show ?thesis
    using g(1) h req(1,2)
    by (simp add: answered_def create_token_def issuer_for_issuance_def issue_for_def and_then_def into_response_def)
qed

lemma issued_token_ok [simp]: "issued (token_ok token r) = Some \<lparr>tk_token = token, tk_refresh_token = r\<rparr>"
  by (simp add: issued_def token_ok_def)

lemma answered_issue_token:
  assumes b: "bench S pair gen pub kid uri A" "plain_host A"
    and w: "on_bench (make_key (dp_crypto A) gen kid) uri u i w" "minute u"
    and rest: "\<And>token v. reads_as A kid pub token (new_claims ''example.com'' sub [''api1''] (u (w_utc_tick w))
          (u (w_utc_tick w) + 3600) (i (w_uuid_tick w)) []) \<Longrightarrow>
        on_bench (make_key (dp_crypto A) gen kid) uri u i v \<Longrightarrow>
        w_store v = with_token sub (i (w_uuid_tick w)) (w_store w) \<Longrightarrow>
        w_utc_tick v = w_utc_tick w + 2 \<Longrightarrow> w_uuid_tick v = w_uuid_tick w + 1 \<Longrightarrow> rest token v"
  shows "issue_token A sub w rest"
  unfolding issue_token_def
  by (rule answered_issue [OF b(1) w example_host_header])
    (use b(2) rest in \<open>simp_all add: plain_host_def token_body_def plain_claims_def new_claims_def validate_custom_claims_def\<close>)

lemma answered_verify:
  assumes b: "bench S pair gen pub kid uri A" "plain_host A"
    and w: "on_bench (make_key (dp_crypto A) gen kid) uri u i w"
    and t: "reads_as A kid pub token c"
    and status: "status = (if claims_valid_at c ''example.com'' ''api1'' (as_usize (u (w_utc_tick w))) \<and>
        tc_jti c \<in> ms_jtis (w_store w) then 200 else 401)"
    and rest: "\<And>v. on_bench (make_key (dp_crypto A) gen kid) uri u i v \<Longrightarrow> w_store v = w_store w \<Longrightarrow>
        w_utc_tick v = w_utc_tick w + 1 \<Longrightarrow> w_uuid_tick v = w_uuid_tick w \<Longrightarrow> rest v"
  shows "verify_status A token status w rest"
proof -
  have f: "utc_now w = u (w_utc_tick w)" using w by (simp add: on_bench_def utc_now_def)
  obtain v where v: "verify_token A token ''example.com'' ''api1'' w =
      (if claims_valid_at c ''example.com'' ''api1'' (as_usize (utc_now w)) \<and> tc_jti c \<in> ms_jtis (w_store w)
       then Ok c else Err NotValid, v)"
    "on_bench (make_key (dp_crypto A) gen kid) uri u i v" "w_store v = w_store w" "w_utc_tick v = w_utc_tick w + 1"
    "w_uuid_tick v = w_uuid_tick w"
    using bench_verify [OF b(1) w t] by blast
  then have "rest (record_metric m v)" for m by (intro rest) (simp_all add: on_bench_same)
  then show ?thesis
    using v(1) b(2) status
    by (simp add: verify_status_def answered_def verify_token_handler_def example_host_header plain_host_def f
        into_response_def invalid_token_def)
qed

lemma answered_revoke:
  assumes b: "bench S pair gen pub kid uri A" and w: "on_bench (make_key (dp_crypto A) gen kid) uri u i w"
    and rest: "\<And>v. on_bench (make_key (dp_crypto A) gen kid) uri u i v \<Longrightarrow>
        w_store v = (w_store w)\<lparr>ms_jtis := ms_jtis (w_store w) - {jti}\<rparr> \<Longrightarrow>
        w_utc_tick v = w_utc_tick w \<Longrightarrow> w_uuid_tick v = w_uuid_tick w \<Longrightarrow> rest (respond 204 NoBody) v"
  shows "answered (revoke_token A jti) w rest"
proof -
  have s: "dp_store A = http_mock_store" using b by (simp add: bench_def)
  show ?thesis using w by (simp add: answered_def revoke_token_def s into_response_def on_bench_same rest)
qed

text \<open>A bench set up by \<open>token_test\<close>.\<close>

lemma token_test_bench:
  assumes "bench_laws S pair D" "generates (dp_crypto D) pair gen pub" "mono clk"
    and "\<And>A v. bench S pair gen pub kid uri A \<Longrightarrow> plain_host A \<Longrightarrow> A = token_deps S (make_key (dp_crypto D) gen kid) uri D \<Longrightarrow>
        on_bench (make_key (dp_crypto A) gen kid) uri (w_utc w) (w_uuid w) v \<Longrightarrow> w_store v = mock_new \<Longrightarrow>
        w_utc_tick v = w_utc_tick w \<Longrightarrow> w_uuid_tick v = w_uuid_tick w \<Longrightarrow> test A v"
  shows "token_test S gen kid uri D clk w test"
proof -
  let ?A = "token_deps S (make_key (dp_crypto D) gen kid) uri D"
  have c: "dp_crypto ?A = dp_crypto D" "dp_env ?A = set_jwks_env uri (dp_env D)" by (simp_all add: token_deps_def)
  have e: "dp_env ?A ''JWKS_SERVICE_URL'' = Some uri" "dp_env ?A ''TOKEN_ISSUER_ALLOWLIST'' = None"
    by (simp_all add: c set_jwks_env_apply)
  have "keys_served (make_key (dp_crypto ?A) gen kid) uri (key_manager_new (jwk_service_new (dp_env ?A) [] clk) ''EdDSA'')"
    using e(1) assms(3) by (rule new_keys_served)
  then show ?thesis
    unfolding token_test_def Let_def
    by (intro assms(4) token_deps_bench [OF assms(1,2)] refl)
      (simp_all add: on_bench_def token_world_def plain_host_def is_allowed_def allowed_by_def e(2))
qed

lemma lifecycle_test:
  assumes D: "bench_laws S pair D" "generates (dp_crypto D) pair gen pub" and clk: "mono clk"
    and w: "minute (w_utc w)"
  shows "token_lifecycle_issue_verify_revoke_verify S gen uri D clk w"
  unfolding token_lifecycle_issue_verify_revoke_verify_def
  by (rule token_test_bench [OF D clk], rule answered_issue_token [OF _ _ _ w], assumption+,
      frule reads_as_jti, simp add: new_claims_def,
      rule answered_verify, assumption+)
    (auto simp: minute_valid [OF w, unfolded new_claims_def] intro!: answered_revoke answered_verify)

section \<open>Requests that are refused, issuers, revocation\<close>

definition create_token_rejects_ttl_below_min ::
  "serde_jwk \<Rightarrow> 'k \<times> string \<times> string \<Rightarrow> string \<Rightarrow> ('b, 'g, 'p, 'k, 'v, received, mock_state) deps \<Rightarrow> (nat \<Rightarrow> nat)
     \<Rightarrow> (received, mock_state) world \<Rightarrow> bool" where
  "create_token_rejects_ttl_below_min S gen uri D clk w \<longleftrightarrow>
     token_test S gen ''k'' uri D clk w (\<lambda>A w.
       answered (create_token A ((token_body ''u'' [''api1''])\<lparr>tr_ttl := Some 0\<rparr>) example_host) w (\<lambda>resp w. rs_status resp = 422))"

definition create_token_rejects_ttl_above_max ::
  "serde_jwk \<Rightarrow> 'k \<times> string \<times> string \<Rightarrow> string \<Rightarrow> ('b, 'g, 'p, 'k, 'v, received, mock_state) deps \<Rightarrow> (nat \<Rightarrow> nat)
     \<Rightarrow> (received, mock_state) world \<Rightarrow> bool" where
  "create_token_rejects_ttl_above_max S gen uri D clk w \<longleftrightarrow>
     token_test S gen ''k'' uri D clk w (\<lambda>A w.
       answered (create_token A ((token_body ''u'' [''api1''])\<lparr>tr_ttl := Some 100000\<rparr>) example_host) w (\<lambda>resp w. rs_status resp = 422))"

definition create_token_rejects_empty_audience ::
  "serde_jwk \<Rightarrow> 'k \<times> string \<times> string \<Rightarrow> string \<Rightarrow> ('b, 'g, 'p, 'k, 'v, received, mock_state) deps \<Rightarrow> (nat \<Rightarrow> nat)
     \<Rightarrow> (received, mock_state) world \<Rightarrow> bool" where
  "create_token_rejects_empty_audience S gen uri D clk w \<longleftrightarrow>
     token_test S gen ''k'' uri D clk w (\<lambda>A w.
       answered (create_token A (token_body ''u'' []) example_host) w (\<lambda>resp w. rs_status resp = 422))"

text \<open>These and the malformed token need neither the key service nor the environment.\<close>

definition create_token_missing_host_returns_400 ::
  "('b, 'g, 'p, 'k, 'v, 'n, mock_state) deps \<Rightarrow> ('n, mock_state) world \<Rightarrow> bool" where
  "create_token_missing_host_returns_400 D w \<longleftrightarrow>
     answered (create_token (D\<lparr>dp_store := http_mock_store\<rparr>) (token_body ''u'' [''api1'']) []) (w\<lparr>w_store := mock_new\<rparr>)
       (\<lambda>resp w. rs_status resp = 400)"

definition create_token_invalid_host_returns_400 ::
  "('b, 'g, 'p, 'k, 'v, 'n, mock_state) deps \<Rightarrow> ('n, mock_state) world \<Rightarrow> bool" where
  "create_token_invalid_host_returns_400 D w \<longleftrightarrow>
     answered (create_token (D\<lparr>dp_store := http_mock_store\<rparr>) (token_body ''u'' [''api1''])
         [(''host'', \<lparr>hv_bytes = map char_of [0xFF :: nat, 0xFE], hv_text = None\<rparr>)]) (w\<lparr>w_store := mock_new\<rparr>)
       (\<lambda>resp w. rs_status resp = 400)"

definition verify_rejects_malformed_token ::
  "('b, 'g, 'p, 'k, 'v, 'n, mock_state) deps \<Rightarrow> ('n, mock_state) world \<Rightarrow> bool" where
  "verify_rejects_malformed_token D w \<longleftrightarrow>
     verify_status (D\<lparr>dp_store := http_mock_store\<rparr>) ''not-a-jwt'' 401 (w\<lparr>w_store := mock_new\<rparr>) (\<lambda>_. True)"

text \<open>The allowlist is set after the environment.\<close>

definition only_issuer :: "string \<Rightarrow> ('b, 'g, 'p, 'k, 'v, 'n, 's) deps \<Rightarrow> ('b, 'g, 'p, 'k, 'v, 'n, 's) deps" where
  "only_issuer list A = A\<lparr>dp_env := (dp_env A)(''TOKEN_ISSUER_ALLOWLIST'' \<mapsto> list)\<rparr>"

definition create_token_rejects_issuer_outside_allowlist ::
  "serde_jwk \<Rightarrow> 'k \<times> string \<times> string \<Rightarrow> string \<Rightarrow> ('b, 'g, 'p, 'k, 'v, received, mock_state) deps \<Rightarrow> (nat \<Rightarrow> nat)
     \<Rightarrow> (received, mock_state) world \<Rightarrow> bool" where
  "create_token_rejects_issuer_outside_allowlist S gen uri D clk w \<longleftrightarrow>
     token_test S gen ''kid-allowlist'' uri D clk w (\<lambda>A w.
       let B = only_issuer ''a.example.com'' A in
       answered (create_token B (token_body ''u'' [''api1'']) (headers_with ''Host'' ''b.example.com'')) w (\<lambda>resp w.
         rs_status resp = 403 \<and>
         answered (create_token B (token_body ''u'' [''api1'']) (headers_with ''Host'' ''a.example.com'')) w (\<lambda>resp w.
           rs_status resp = 200)))"

definition create_token_allows_any_issuer_without_allowlist ::
  "serde_jwk \<Rightarrow> 'k \<times> string \<times> string \<Rightarrow> string \<Rightarrow> ('b, 'g, 'p, 'k, 'v, received, mock_state) deps \<Rightarrow> (nat \<Rightarrow> nat)
     \<Rightarrow> (received, mock_state) world \<Rightarrow> bool" where
  "create_token_allows_any_issuer_without_allowlist S gen uri D clk w \<longleftrightarrow>
     token_test S gen ''kid-no-allowlist'' uri D clk w (\<lambda>A w.
       answered (create_token A (token_body ''u'' [''api1'']) (headers_with ''Host'' ''whatever.example.net'')) w (\<lambda>resp w.
         rs_status resp = 200))"

definition verify_rejects_issuer_outside_allowlist ::
  "serde_jwk \<Rightarrow> 'k \<times> string \<times> string \<Rightarrow> string \<Rightarrow> ('b, 'g, 'p, 'k, 'v, received, mock_state) deps \<Rightarrow> (nat \<Rightarrow> nat)
     \<Rightarrow> (received, mock_state) world \<Rightarrow> bool" where
  "verify_rejects_issuer_outside_allowlist S gen uri D clk w \<longleftrightarrow>
     token_test S gen ''kid-allowlist-verify'' uri D clk w (\<lambda>A w.
       issue_token A ''user1'' w (\<lambda>token w.
         verify_status (only_issuer ''other.example.com'' A) token 401 w (\<lambda>_. True)))"

definition revoke_unknown_jti_returns_204 ::
  "('b, 'g, 'p, 'k, 'v, 'n, mock_state) deps \<Rightarrow> ('n, mock_state) world \<Rightarrow> bool" where
  "revoke_unknown_jti_returns_204 D w \<longleftrightarrow>
     answered (revoke_token (D\<lparr>dp_store := http_mock_store\<rparr>) ''does-not-exist'') (w\<lparr>w_store := mock_new\<rparr>)
       (\<lambda>resp w. rs_status resp = 204)"

definition revoke_reports_store_failure_instead_of_204 ::
  "('b, 'g, 'p, 'k, 'v, 'n, unit) deps \<Rightarrow> ('n, unit) world \<Rightarrow> bool" where
  "revoke_reports_store_failure_instead_of_204 D w \<longleftrightarrow>
     answered (revoke_token (D\<lparr>dp_store := unavailable_store\<rparr>) ''some-jti'') w (\<lambda>resp w. rs_status resp = 500)"

definition reserved_custom_claim_gives_422 ::
  "'v \<Rightarrow> serde_jwk \<Rightarrow> 'k \<times> string \<times> string \<Rightarrow> string \<Rightarrow> ('b, 'g, 'p, 'k, 'v, received, mock_state) deps \<Rightarrow> (nat \<Rightarrow> nat)
     \<Rightarrow> (received, mock_state) world \<Rightarrow> bool" where
  "reserved_custom_claim_gives_422 v S gen uri D clk w \<longleftrightarrow>
     token_test S gen ''kid-reserved'' uri D clk w (\<lambda>A w.
       answered (create_token A ((token_body ''user1'' [''api1''])\<lparr>tr_claims := [(''exp'', v)]\<rparr>) example_host) w (\<lambda>resp w. rs_status resp = 422))"

definition refresh_is_absent_unless_requested ::
  "serde_jwk \<Rightarrow> 'k \<times> string \<times> string \<Rightarrow> string \<Rightarrow> ('b, 'g, 'p, 'k, 'v, received, mock_state) deps \<Rightarrow> (nat \<Rightarrow> nat)
     \<Rightarrow> (received, mock_state) world \<Rightarrow> bool" where
  "refresh_is_absent_unless_requested S gen uri D clk w \<longleftrightarrow>
     token_test S gen ''kid-norefresh'' uri D clk w (\<lambda>A w.
       answered (create_token A (token_body ''user1'' [''api1'']) example_host) w (\<lambda>resp w.
         case issued resp of Some t \<Rightarrow> tk_refresh_token t = None | None \<Rightarrow> False))"

lemma host_headers [simp]: "host_header (headers_with ''Host'' h) = Inr h"
  by (simp add: host_header_def header_get_with)

text \<open>A refusal of the claims, after the key was obtained.\<close>

lemma refused_issue:
  assumes b: "bench S pair gen pub kid uri A" "plain_host A" and w: "on_bench (make_key (dp_crypto A) gen kid) uri u i w"
    and r: "\<And>v. fst (claims_create_new A ''example.com'' (tr_sub req) (tr_aud req) (tr_ttl req) (tr_claims req) v) = Err UnprocessableEntity"
      "\<not> tr_refresh req"
  shows "answered (create_token A req example_host) w (\<lambda>resp w. rs_status resp = 422)"
proof -
  have laws: "lawful_serde S" "lawful_crypto (dp_crypto A) pair" "generates (dp_crypto A) pair gen pub"
    "dp_server A = http_jwks_mock S (make_key (dp_crypto A) gen kid) uri"
    using b(1) by (simp_all add: bench_def bench_laws_def)
  obtain m' where m': "get_private_key (dp_crypto A) (dp_server A) (w_keys w) =
      (Inr (test_jwk_data (make_key (dp_crypto A) gen kid), fst gen), m')"
    using mock_private_key [OF laws(1-3), of kid uri "w_keys w"] w laws(4) by (auto simp: on_bench_def)
  obtain v where "claims_create_new A ''example.com'' (tr_sub req) (tr_aud req) (tr_ttl req) (tr_claims req) (w\<lparr>w_keys := m'\<rparr>)
      = (Err UnprocessableEntity, v)" using r(1) by (metis prod.collapse)
  then show ?thesis using m' b(2) r(2)
    by (simp add: answered_def create_token_def issuer_for_issuance_def example_host_header plain_host_def issue_for_def
        generate_token_def and_then_def key_call_def create_token_error_def into_response_def)
qed

lemma refusal_tests:
  assumes D: "bench_laws S pair D" "generates (dp_crypto D) pair gen pub" and clk: "mono clk"
  shows "create_token_rejects_ttl_below_min S gen uri D clk w" "create_token_rejects_ttl_above_max S gen uri D clk w"
    "create_token_rejects_empty_audience S gen uri D clk w" "reserved_custom_claim_gives_422 v S gen uri D clk w"
proof -
  have e: "expiration_seconds (dp_env A) (Some 0) = Inl UnprocessableEntity"
    "expiration_seconds (dp_env A) (Some 100000) = Inl UnprocessableEntity"
    "expiration_seconds (dp_env A) None = Inr 3600"
    "validate_custom_claims (dp_env A) (dp_json A) [(''exp'', v)] = Inl UnprocessableEntity"
    if "bench S pair gen pub kid uri A" for kid A
    using that by (simp_all add: bench_def bench_laws_def expiration_seconds_def env_or_def env_u64_def runs
        validate_custom_claims_def RESERVED_CLAIMS_def)
  note d = claims_create_new_def and_then_def pure_step_def fail_def token_body_def validate_custom_claims_def [of _ _ "[]"]
  show "create_token_rejects_ttl_below_min S gen uri D clk w"
    unfolding create_token_rejects_ttl_below_min_def
    by (rule token_test_bench [OF D clk], rule refused_issue, assumption+) (simp_all add: d e)
  show "create_token_rejects_ttl_above_max S gen uri D clk w"
    unfolding create_token_rejects_ttl_above_max_def
    by (rule token_test_bench [OF D clk], rule refused_issue, assumption+) (simp_all add: d e)
  show "create_token_rejects_empty_audience S gen uri D clk w"
    unfolding create_token_rejects_empty_audience_def
    by (rule token_test_bench [OF D clk], rule refused_issue, assumption+) (simp_all add: d e)
  show "reserved_custom_claim_gives_422 v S gen uri D clk w"
    unfolding reserved_custom_claim_gives_422_def
    by (rule token_test_bench [OF D clk], rule refused_issue, assumption+) (simp_all add: d e)
qed

lemma simple_handler_tests:
  "create_token_missing_host_returns_400 D w" "create_token_invalid_host_returns_400 D w"
  "verify_rejects_malformed_token D w" "revoke_unknown_jti_returns_204 D w" "revoke_reports_store_failure_instead_of_204 D' w'"
proof -
  have seg: "split_on (CHR ''.'') ''not-a-jwt'' = [''not-a-jwt'']" by simp
  show "verify_rejects_malformed_token D w"
    by (simp add: verify_rejects_malformed_token_def verify_status_def answered_def verify_token_handler_def
        example_host_header verify_token_def token_from_string_def seg fail_def into_response_def invalid_token_def)
  show "create_token_missing_host_returns_400 D w" "create_token_invalid_host_returns_400 D w"
    by (simp_all add: create_token_missing_host_returns_400_def create_token_invalid_host_returns_400_def answered_def
        create_token_def issuer_for_issuance_def host_header_def header_get_def into_response_def runs)
  show "revoke_unknown_jti_returns_204 D w"
    by (simp add: revoke_unknown_jti_returns_204_def answered_def revoke_token_def into_response_def)
  show "revoke_reports_store_failure_instead_of_204 D' w'"
    by (simp add: revoke_reports_store_failure_instead_of_204_def answered_def revoke_token_def unavailable_store_def
        failing_with_def into_response_def)
qed

text \<open>An allowlist leaves the bench as it is.\<close>

lemma only_issuer_bench:
  "bench S pair gen pub kid uri A \<Longrightarrow> bench S pair gen pub kid uri (only_issuer list A)"
  "dp_crypto (only_issuer list A) = dp_crypto A"
  by (simp_all add: only_issuer_def bench_def bench_laws_def)

lemma only_issuer_allowed:
  "is_allowed (dp_env (only_issuer ''a.example.com'' A)) ''a.example.com''"
  "\<not> is_allowed (dp_env (only_issuer ''a.example.com'' A)) ''b.example.com''"
  "\<not> is_allowed (dp_env (only_issuer ''other.example.com'' A)) ''example.com''"
  by (simp_all add: only_issuer_def is_allowed_def allowlist_def env_or_def issuer_parse_def allowed_by_def runs)

lemma answered_forbidden:
  assumes "\<not> is_allowed (dp_env A) host"
  shows "answered (create_token A req (headers_with ''Host'' host)) w (\<lambda>resp w. rs_status resp = 403 \<and> rest w) \<longleftrightarrow> rest w"
  using assms by (simp add: answered_def create_token_def issuer_for_issuance_def into_response_def)

lemma issuer_tests_http:
  assumes D: "bench_laws S pair D" "generates (dp_crypto D) pair gen pub" and clk: "mono clk" and w: "minute (w_utc w)"
  shows "create_token_rejects_issuer_outside_allowlist S gen uri D clk w"
    "create_token_allows_any_issuer_without_allowlist S gen uri D clk w"
    "verify_rejects_issuer_outside_allowlist S gen uri D clk w"
    "refresh_is_absent_unless_requested S gen uri D clk w"
proof -
  note d = token_body_def plain_claims_def new_claims_def validate_custom_claims_def
  show "create_token_rejects_issuer_outside_allowlist S gen uri D clk w"
    unfolding create_token_rejects_issuer_outside_allowlist_def Let_def answered_forbidden [OF only_issuer_allowed(2)]
    by (rule token_test_bench [OF D clk], rule answered_issue [OF only_issuer_bench(1) _ w host_headers])
      (simp_all add: d only_issuer_allowed only_issuer_bench(2))
  show "create_token_allows_any_issuer_without_allowlist S gen uri D clk w"
    unfolding create_token_allows_any_issuer_without_allowlist_def
  proof (rule token_test_bench [OF D clk], rule answered_issue [OF _ _ w host_headers])
    fix A :: "('c, 'd, 'b, 'a, 'e, received, mock_state) deps"
    assume "A = token_deps S (make_key (dp_crypto D) gen ''kid-no-allowlist'') uri D"
    then show "is_allowed (dp_env A) ''whatever.example.net''"
      by (simp add: token_deps_def is_allowed_def allowed_by_def set_jwks_env_apply)
  qed (simp_all add: d)
  show "verify_rejects_issuer_outside_allowlist S gen uri D clk w"
    unfolding verify_rejects_issuer_outside_allowlist_def
    by (rule token_test_bench [OF D clk], rule answered_issue_token [OF _ _ _ w], assumption+)
      (simp add: verify_status_def answered_def verify_token_handler_def example_host_header only_issuer_allowed
        into_response_def invalid_token_def)
  show "refresh_is_absent_unless_requested S gen uri D clk w"
    unfolding refresh_is_absent_unless_requested_def
    by (rule token_test_bench [OF D clk], rule answered_issue [OF _ _ w example_host_header])
      (simp_all add: d plain_host_def)
qed

section \<open>Tokens made by hand\<close>

text \<open>
  The claims of the two tests: \<open>exp\<close>, \<open>iat\<close> and \<open>nbf\<close> from one reading of the clock. The token is signed
  with the given key under the header of the mock's key; \<open>None\<close> is a failing \<open>unwrap\<close>.
\<close>

definition handmade :: "string \<Rightarrow> u64 \<Rightarrow> u64 \<Rightarrow> 'v token_claims" where
  "handmade jti expiry iat = \<lparr>tc_iss = ''example.com'', tc_sub = ''u'', tc_aud = [''api1''], tc_exp = expiry, tc_iat = iat,
     tc_nbf = iat, tc_jti = jti, tc_extra = []\<rparr>"

definition signed_by ::
  "('b, 'g, 'p, 'k, 'v, 'n, 's) deps \<Rightarrow> string \<Rightarrow> 'k \<Rightarrow> 'v token_claims \<Rightarrow> string option" where
  "signed_by A kid pkey claims =
     (case token_to_string (dp_crypto A) (dp_json A)
        \<lparr>jt_headers = headers_create_new (dp_env A) kid, jt_claims = claims, jt_key = pkey\<rparr> of
      Inr token \<Rightarrow> Some token | Inl _ \<Rightarrow> None)"

text \<open>The store with the identifier, and the test's reading of the clock.\<close>

definition stored :: "string \<Rightarrow> ('n, mock_state) world \<Rightarrow> ('n, mock_state) world" where
  "stored jti w = utc_tick (w\<lparr>w_store := (w_store w)\<lparr>ms_jtis := insert jti (ms_jtis (w_store w))\<rparr>\<rparr>)"

definition verify_rejects_expired_token ::
  "serde_jwk \<Rightarrow> 'k \<times> string \<times> string \<Rightarrow> string \<Rightarrow> ('b, 'g, 'p, 'k, 'v, received, mock_state) deps \<Rightarrow> (nat \<Rightarrow> nat)
     \<Rightarrow> (received, mock_state) world \<Rightarrow> bool" where
  "verify_rejects_expired_token S gen uri D clk w \<longleftrightarrow>
     token_test S gen ''test-key-1'' uri D clk w (\<lambda>A w.
       let now = as_usize (utc_now w) in
       case signed_by A ''test-key-1'' (fst gen) (handmade ''expired-jti'' (now - 10) (now - 3600)) of
         None \<Rightarrow> False
       | Some token \<Rightarrow> verify_status A token 401 (stored ''expired-jti'' w) (\<lambda>_. True))"

definition verify_rejects_forged_signature ::
  "'k \<times> string \<times> string \<Rightarrow> serde_jwk \<Rightarrow> 'k \<times> string \<times> string \<Rightarrow> string \<Rightarrow> ('b, 'g, 'p, 'k, 'v, received, mock_state) deps \<Rightarrow> (nat \<Rightarrow> nat)
     \<Rightarrow> (received, mock_state) world \<Rightarrow> bool" where
  "verify_rejects_forged_signature attacker S gen uri D clk w \<longleftrightarrow>
     token_test S gen ''test-key-1'' uri D clk w (\<lambda>A w.
       let now = as_usize (utc_now w) in
       case signed_by A ''test-key-1'' (fst attacker) (handmade ''forged-jti'' (now + 3600) now) of
         None \<Rightarrow> False
       | Some token \<Rightarrow> verify_status A token 401 (stored ''forged-jti'' w) (\<lambda>_. True))"

lemma on_bench_stored: "on_bench key uri u i (stored jti w) = on_bench key uri u i w"
  by (simp add: on_bench_def stored_def utc_tick_def)

lemma minute_bounds: "minute u \<Longrightarrow> 7200 \<le> u n \<and> u n < 2 ^ 52 \<and> (n \<le> m \<longrightarrow> u n \<le> u m)"
  unfolding minute_def using monoD [of u 0 n] monoD [of u n m] by fastforce

lemma handmade_expired:
  assumes "minute u" "n \<le> m"
  shows "\<not> claims_valid_at (handmade j (as_usize (u n) - 10) iat) iss a (as_usize (u m))"
proof -
  note b = minute_bounds [OF assms(1), of n m] minute_bounds [OF assms(1), of m m]
  have "as_usize (u n) - 10 = as_usize (u n - 10)" by (simp add: as_usize_def)
  then show ?thesis using b assms(2) by (simp add: claims_valid_at_def handmade_def as_usize_less)
qed

lemma expired_test:
  assumes D: "bench_laws S pair D" "generates (dp_crypto D) pair gen pub" and clk: "mono clk" and w: "minute (w_utc w)"
  shows "verify_rejects_expired_token S gen uri D clk w"
  unfolding verify_rejects_expired_token_def
proof (rule token_test_bench [OF D clk])
  fix A and v :: "(received, mock_state) world"
  assume A: "bench S pair gen pub ''test-key-1'' uri A" "plain_host A"
    and v: "on_bench (make_key (dp_crypto A) gen ''test-key-1'') uri (w_utc w) (w_uuid w) v"
  let ?c = "handmade ''expired-jti'' (as_usize (utc_now v) - 10) (as_usize (utc_now v) - 3600)"
  have now: "utc_now v = w_utc w (w_utc_tick v)" using v by (simp add: on_bench_def utc_now_def)
  have "plain_claims ?c" by (simp add: plain_claims_def handmade_def)
  from bench_encode [OF A(1) this] obtain token where t: "signed_by A ''test-key-1'' (fst gen) ?c = Some token"
    "reads_as A ''test-key-1'' pub token ?c" by (auto simp: signed_by_def)
  have ob: "on_bench (make_key (dp_crypto A) gen ''test-key-1'') uri (w_utc w) (w_uuid w) (stored ''expired-jti'' v)"
    using v by (simp add: on_bench_stored)
  have "verify_status A token 401 (stored ''expired-jti'' v) (\<lambda>_. True)"
    by (rule answered_verify [OF A ob t(2)]) (simp_all add: now handmade_expired [OF w] stored_def utc_tick_def)
  then show "let now = as_usize (utc_now v) in
      case signed_by A ''test-key-1'' (fst gen) (handmade ''expired-jti'' (now - 10) (now - 3600)) of
        None \<Rightarrow> False
      | Some token \<Rightarrow> verify_status A token 401 (stored ''expired-jti'' v) (\<lambda>_. True)" by (simp add: t(1) Let_def)
qed

text \<open>The attacker's signatures do not verify under the mock's public key.\<close>

lemma forged_test:
  assumes D: "bench_laws S pair D" "generates (dp_crypto D) pair gen pub" and clk: "mono clk"
    and a: "generates (dp_crypto D) pair attacker apub"
      "\<And>m sig. cr_sign (dp_crypto D) NoDigest (fst attacker) m = Some sig \<Longrightarrow> cr_verify (dp_crypto D) NoDigest pub sig m \<noteq> Some True"
  shows "verify_rejects_forged_signature attacker S gen uri D clk w"
  unfolding verify_rejects_forged_signature_def
proof (rule token_test_bench [OF D clk])
  fix A and v :: "(received, mock_state) world"
  assume A: "bench S pair gen pub ''test-key-1'' uri A" "plain_host A"
    and D': "A = token_deps S (make_key (dp_crypto D) gen ''test-key-1'') uri D"
    and v: "on_bench (make_key (dp_crypto A) gen ''test-key-1'') uri (w_utc w) (w_uuid w) v"
  let ?c = "handmade ''forged-jti'' (as_usize (utc_now v) + 3600) (as_usize (utc_now v))"
  have C: "dp_crypto A = dp_crypto D" by (simp add: D' token_deps_def)
  have laws: "lawful_serde S" "lawful_crypto (dp_crypto A) pair" "lawful_json (dp_json A)" "generates (dp_crypto A) pair gen pub"
    "dp_server A = http_jwks_mock S (make_key (dp_crypto A) gen ''test-key-1'') uri"
    using A(1) by (simp_all add: bench_def bench_laws_def)
  have "bench S pair attacker apub ''test-key-1'' uri (A\<lparr>dp_server := http_jwks_mock S (make_key (dp_crypto A) attacker ''test-key-1'') uri\<rparr>)"
    using A(1) a(1) by (simp add: bench_def bench_laws_def C)
  from bench_encode [OF this, of ?c] have "\<exists>token. token_to_string (dp_crypto A) (dp_json A)
      \<lparr>jt_headers = headers_create_new (dp_env A) ''test-key-1'', jt_claims = ?c, jt_key = fst attacker\<rparr> = Inr token"
    by (auto simp: plain_claims_def handmade_def)
  then obtain token where t: "token_to_string (dp_crypto A) (dp_json A)
      \<lparr>jt_headers = headers_create_new (dp_env A) ''test-key-1'', jt_claims = ?c, jt_key = fst attacker\<rparr> = Inr token" by blast
  obtain h c sig where seg: "headers_to_base64 (dp_crypto A) (dp_json A) (bench_headers ''test-key-1'') = Inr h"
    "claims_to_base64 (dp_crypto A) (dp_json A) ?c = Inr c"
    "cr_sign (dp_crypto A) NoDigest (fst attacker) (h @ ''.'' @ c) = Some sig"
    "token = h @ ''.'' @ c @ ''.'' @ cr_b64_encode (dp_crypto A) sig"
    using token_to_string_Inr [OF t] A(1)
    by (auto simp: bench_def headers_create_new_def env_or_def bench_headers_def digest_of_alg_def)
  have e: "CHR ''.'' \<notin> set (cr_b64_encode (dp_crypto A) sig)"
    "cr_b64_decode (dp_crypto A) (cr_b64_encode (dp_crypto A) sig) = Some sig" using laws(2) by (auto simp: lawful_crypto_def)
  note hr = headers_roundtrip [OF laws(2,3) seg(1)]
  have cr: "CHR ''.'' \<notin> set c" using claims_roundtrip [OF laws(2,3) _ seg(2)] by (simp add: plain_claims_def handmade_def)
  have split: "split_on (CHR ''.'') token = [h, c, cr_b64_encode (dp_crypto A) sig]"
    using hr cr e(1) by (simp add: seg(4) split_on_append_sep split_on_no_sep)
  obtain m' where m': "get_public_key (dp_crypto A) (dp_server A) ''test-key-1'' (w_keys (stored ''forged-jti'' v)) = (Inr pub, m')"
    using mock_public_key [OF laws(1,2,4), of "''test-key-1''" uri "w_keys v"] v laws(5)
    by (auto simp: on_bench_def stored_def utc_tick_def)
  have kid: "th_kid (bench_headers k) = k" for k by (simp add: bench_headers_def)
  have bad: "check_signature (dp_crypto A) (bench_headers ''test-key-1'') pub h c (cr_b64_encode (dp_crypto A) sig) = Inl BadSignature"
    using a(2) [of "h @ ''.'' @ c" sig] seg(3) e(2)
    by (auto simp: check_signature_def bench_headers_def digest_of_alg_def C split: option.splits)
  have "verify_status A token 401 (stored ''forged-jti'' v) (\<lambda>_. True)"
    using hr m' bad A(2)
    by (simp add: verify_status_def answered_def verify_token_handler_def example_host_header plain_host_def
        verify_token_def token_from_string_def split and_then_def pure_step_def key_call_def into_response_def
        invalid_token_def kid)
  then show "let now = as_usize (utc_now v) in
      case signed_by A ''test-key-1'' (fst attacker) (handmade ''forged-jti'' (now + 3600) now) of
        None \<Rightarrow> False
      | Some token \<Rightarrow> verify_status A token 401 (stored ''forged-jti'' v) (\<lambda>_. True)"
    by (simp add: signed_by_def t Let_def)
qed

section \<open>Bulk revocation\<close>

text \<open>\<open>store.check_jti(&jti_of(token))\<close>; \<open>None\<close> is a failing \<open>unwrap\<close>.\<close>

definition in_store :: "('b, 'g, 'p, 'k, 'v, 'n, 's) deps \<Rightarrow> string \<Rightarrow> ('n, 's) world \<Rightarrow> bool option" where
  "in_store A token w =
     (case jti_of (dp_crypto A) (dp_json A) token of
        None \<Rightarrow> None
      | Some jti \<Rightarrow> (case fst (js_check_jti (dp_store A) jti (w_store w)) of Inr b \<Rightarrow> Some b | Inl _ \<Rightarrow> None))"

definition revoking_subject_kills_all_its_tokens ::
  "serde_jwk \<Rightarrow> 'k \<times> string \<times> string \<Rightarrow> string \<Rightarrow> ('b, 'g, 'p, 'k, 'v, received, mock_state) deps \<Rightarrow> (nat \<Rightarrow> nat)
     \<Rightarrow> (received, mock_state) world \<Rightarrow> bool" where
  "revoking_subject_kills_all_its_tokens S gen uri D clk w \<longleftrightarrow>
     token_test S gen ''kid-bulk'' uri D clk w (\<lambda>A w.
       issue_token A ''victim'' w (\<lambda>t1 w. issue_token A ''victim'' w (\<lambda>t2 w. issue_token A ''victim'' w (\<lambda>t3 w.
       issue_token A ''bystander'' w (\<lambda>bystander w.
         answered (revoke_subject_tokens A ''victim'') w (\<lambda>resp w.
           rs_status resp = 200 \<and> rs_body resp = RevokedBody \<lparr>rg_revoked = 3\<rparr> \<and>
           list_all (\<lambda>t. in_store A t w = Some False) [t1, t2, t3] \<and> in_store A bystander w = Some True))))))"

definition revoking_unknown_subject_is_idempotent ::
  "serde_jwk \<Rightarrow> 'k \<times> string \<times> string \<Rightarrow> string \<Rightarrow> ('b, 'g, 'p, 'k, 'v, received, mock_state) deps \<Rightarrow> (nat \<Rightarrow> nat)
     \<Rightarrow> (received, mock_state) world \<Rightarrow> bool" where
  "revoking_unknown_subject_is_idempotent S gen uri D clk w \<longleftrightarrow>
     token_test S gen ''kid-none'' uri D clk w (\<lambda>A w.
       answered (revoke_subject_tokens A ''nobody'') w (\<lambda>resp w.
         rs_status resp = 200 \<and> rs_body resp = RevokedBody \<lparr>rg_revoked = 0\<rparr>))"

lemma record_revoked_same:
  "w_store (record_revoked n w) = w_store w \<and> w_utc_tick (record_revoked n w) = w_utc_tick w \<and>
   w_uuid_tick (record_revoked n w) = w_uuid_tick w \<and> on_bench key uri u i (record_revoked n w) = on_bench key uri u i w"
  by (induction n w rule: record_revoked.induct) (simp_all add: on_bench_same)

lemma answered_revoke_subject:
  assumes b: "bench S pair gen pub kid uri A" and w: "on_bench (make_key (dp_crypto A) gen kid) uri u i w"
    and r: "http_mock_revoke (subject_group sub) (w_store w) = (Inr n, m)"
    and rest: "\<And>v. on_bench (make_key (dp_crypto A) gen kid) uri u i v \<Longrightarrow> w_store v = m \<Longrightarrow>
        w_utc_tick v = w_utc_tick w \<Longrightarrow> w_uuid_tick v = w_uuid_tick w \<Longrightarrow>
        rest (respond 200 (RevokedBody \<lparr>rg_revoked = n\<rparr>)) v"
  shows "answered (revoke_subject_tokens A sub) w rest"
proof -
  have s: "dp_store A = http_mock_store" using b by (simp add: bench_def)
  have "rest (respond 200 (RevokedBody \<lparr>rg_revoked = n\<rparr>)) (record_revoked (unat n) (w\<lparr>w_store := m\<rparr>))"
    by (intro rest) (use w in \<open>simp_all add: record_revoked_same on_bench_same\<close>)
  then show ?thesis using r by (simp add: answered_def revoke_subject_tokens_def s http_mock_store_def into_response_def)
qed

lemma in_store_reads:
  assumes "bench S pair gen pub kid uri A" "reads_as A kid pub token c"
  shows "in_store A token w = Some (tc_jti c \<in> ms_jtis (w_store w))"
  using assms by (simp add: in_store_def reads_as_jti bench_def)

lemma group_keys [simp]:
  "subject_group a = subject_group b \<longleftrightarrow> a = b" "family_group a = family_group b \<longleftrightarrow> a = b"
  "subject_group a \<noteq> family_group b" "family_group b \<noteq> subject_group a"
  by (simp_all add: subject_group_def family_group_def)

lemma mock_new_members [simp]: "members_of mock_new g = {}" "ms_jtis mock_new = {}" "ms_refreshes mock_new i = None"
  by (simp_all add: mock_new_def members_of_def)

lemma http_mock_revoke_known:
  assumes "members_of m g = J" "J \<subseteq> ms_jtis m" "card J = n"
  shows "\<exists>m'. http_mock_revoke g m = (Inr (of_nat n), m') \<and> ms_jtis m' = ms_jtis m - J"
proof -
  have "{x \<in> J. x \<in> ms_jtis m \<or> (\<exists>i. x = refresh_key i \<and> ms_refreshes m i \<noteq> None)} = J" using assms(2) by blast
  then show ?thesis using assms(1,3) by (simp add: http_mock_revoke_def Let_def)
qed

lemma bulk_tests:
  assumes D: "bench_laws S pair D" "generates (dp_crypto D) pair gen pub" and clk: "mono clk"
    and w: "minute (w_utc w)" "uuids (w_uuid w)"
  shows "revoking_subject_kills_all_its_tokens S gen uri D clk w" "revoking_unknown_subject_is_idempotent S gen uri D clk w"
proof -
  have inj: "w_uuid w n = w_uuid w m \<longleftrightarrow> n = m" for n m using w(2) by (simp add: uuids_def inj_eq)
  let ?t = "w_uuid_tick w"
  let ?J = "{w_uuid w ?t, w_uuid w (?t + 1), w_uuid w (?t + 2)}"
  show "revoking_subject_kills_all_its_tokens S gen uri D clk w"
    unfolding revoking_subject_kills_all_its_tokens_def
  proof (rule token_test_bench [OF D clk], (rule answered_issue_token [OF _ _ _ w(1)], assumption+)+)
    fix A and v v1 v2 v3 v4 :: "(received, mock_state) world" and t1 t2 t3 b
    assume A: "bench S pair gen pub ''kid-bulk'' uri A"
      and reads: "reads_as A ''kid-bulk'' pub t1 (new_claims ''example.com'' ''victim'' [''api1''] (w_utc w (w_utc_tick v))
          (w_utc w (w_utc_tick v) + 3600) (w_uuid w (w_uuid_tick v)) [])"
        "reads_as A ''kid-bulk'' pub t2 (new_claims ''example.com'' ''victim'' [''api1''] (w_utc w (w_utc_tick v1))
          (w_utc w (w_utc_tick v1) + 3600) (w_uuid w (w_uuid_tick v1)) [])"
        "reads_as A ''kid-bulk'' pub t3 (new_claims ''example.com'' ''victim'' [''api1''] (w_utc w (w_utc_tick v2))
          (w_utc w (w_utc_tick v2) + 3600) (w_uuid w (w_uuid_tick v2)) [])"
        "reads_as A ''kid-bulk'' pub b (new_claims ''example.com'' ''bystander'' [''api1''] (w_utc w (w_utc_tick v3))
          (w_utc w (w_utc_tick v3) + 3600) (w_uuid w (w_uuid_tick v3)) [])"
      and on: "on_bench (make_key (dp_crypto A) gen ''kid-bulk'') uri (w_utc w) (w_uuid w) v4"
      and st: "w_store v = mock_new" "w_store v1 = with_token ''victim'' (w_uuid w (w_uuid_tick v)) (w_store v)"
        "w_store v2 = with_token ''victim'' (w_uuid w (w_uuid_tick v1)) (w_store v1)"
        "w_store v3 = with_token ''victim'' (w_uuid w (w_uuid_tick v2)) (w_store v2)"
        "w_store v4 = with_token ''bystander'' (w_uuid w (w_uuid_tick v3)) (w_store v3)"
      and tick: "w_uuid_tick v = ?t" "w_uuid_tick v1 = w_uuid_tick v + 1" "w_uuid_tick v2 = w_uuid_tick v1 + 1"
        "w_uuid_tick v3 = w_uuid_tick v2 + 1"
    have m: "members_of (w_store v4) (subject_group ''victim'') = ?J" "?J \<subseteq> ms_jtis (w_store v4)" "card ?J = 3"
      by (auto simp: st tick inj)
    obtain m' where m': "http_mock_revoke (subject_group ''victim'') (w_store v4) = (Inr (of_nat 3), m')"
      "ms_jtis m' = ms_jtis (w_store v4) - ?J" using http_mock_revoke_known [OF m] by blast
    show "answered (revoke_subject_tokens A ''victim'') v4 (\<lambda>resp w.
        rs_status resp = 200 \<and> rs_body resp = RevokedBody \<lparr>rg_revoked = 3\<rparr> \<and>
        list_all (\<lambda>t. in_store A t w = Some False) [t1, t2, t3] \<and> in_store A b w = Some True)"
      by (rule answered_revoke_subject [OF A on m'(1)])
        (use reads in \<open>simp add: in_store_reads [OF A reads(1)] in_store_reads [OF A reads(2)] in_store_reads [OF A reads(3)]
          in_store_reads [OF A reads(4)] m'(2) st tick inj new_claims_def\<close>)
  qed
  show "revoking_unknown_subject_is_idempotent S gen uri D clk w"
    unfolding revoking_unknown_subject_is_idempotent_def
    by (rule token_test_bench [OF D clk], rule answered_revoke_subject, assumption+)
      (simp_all add: http_mock_revoke_def Let_def)
qed

section \<open>Refresh tokens\<close>

text \<open>\<open>issue_pair!\<close> and \<open>exchange!\<close>\<close>

definition issue_pair ::
  "('b, 'g, 'p, 'k, 'v, 'n, 's) deps \<Rightarrow> string \<Rightarrow> ('n, 's) world \<Rightarrow> (string \<Rightarrow> string \<Rightarrow> ('n, 's) world \<Rightarrow> bool) \<Rightarrow> bool" where
  "issue_pair A sub w rest =
     answered (create_token A ((token_body sub [''api1''])\<lparr>tr_refresh := True\<rparr>) example_host) w (\<lambda>resp w.
       case issued resp of
         Some t \<Rightarrow> (case tk_refresh_token t of Some refresh \<Rightarrow> rest (tk_token t) refresh w | None \<Rightarrow> False)
       | None \<Rightarrow> False)"

definition exchange ::
  "('b, 'g, 'p, 'k, 'v, 'n, 's) deps \<Rightarrow> string \<Rightarrow> ('n, 's) world \<Rightarrow> ('v response \<Rightarrow> ('n, 's) world \<Rightarrow> bool) \<Rightarrow> bool" where
  "exchange A refresh = answered (refresh_token_handler A \<lparr>rq_refresh_token = refresh\<rparr> example_host)"

definition refresh_rotates_and_old_token_stops_working ::
  "serde_jwk \<Rightarrow> 'k \<times> string \<times> string \<Rightarrow> string \<Rightarrow> ('b, 'g, 'p, 'k, 'v, received, mock_state) deps \<Rightarrow> (nat \<Rightarrow> nat)
     \<Rightarrow> (received, mock_state) world \<Rightarrow> bool" where
  "refresh_rotates_and_old_token_stops_working S gen uri D clk w \<longleftrightarrow>
     token_test S gen ''kid-rotate'' uri D clk w (\<lambda>A w.
       issue_pair A ''user1'' w (\<lambda>access refresh w.
         exchange A refresh w (\<lambda>resp w.
           case issued resp of
             None \<Rightarrow> False
           | Some refreshed \<Rightarrow>
               (case tk_refresh_token refreshed of
                  None \<Rightarrow> False
                | Some new_refresh \<Rightarrow>
                    new_refresh \<noteq> refresh \<and> verify_status A (tk_token refreshed) 200 w (\<lambda>_. True)))))"

definition reused_refresh_kills_the_whole_family ::
  "serde_jwk \<Rightarrow> 'k \<times> string \<times> string \<Rightarrow> string \<Rightarrow> ('b, 'g, 'p, 'k, 'v, received, mock_state) deps \<Rightarrow> (nat \<Rightarrow> nat)
     \<Rightarrow> (received, mock_state) world \<Rightarrow> bool" where
  "reused_refresh_kills_the_whole_family S gen uri D clk w \<longleftrightarrow>
     token_test S gen ''kid-reuse'' uri D clk w (\<lambda>A w.
       issue_pair A ''user1'' w (\<lambda>first_access refresh w.
         exchange A refresh w (\<lambda>resp w.
           case issued resp of
             None \<Rightarrow> False
           | Some refreshed \<Rightarrow>
               (case tk_refresh_token refreshed of
                  None \<Rightarrow> False
                | Some new_refresh \<Rightarrow>
                    exchange A refresh w (\<lambda>resp w.
                      rs_status resp = 401 \<and> in_store A first_access w = Some False \<and>
                      in_store A (tk_token refreshed) w = Some False \<and>
                      exchange A new_refresh w (\<lambda>resp w. rs_status resp = 401))))))"

definition unknown_refresh_is_rejected ::
  "serde_jwk \<Rightarrow> 'k \<times> string \<times> string \<Rightarrow> string \<Rightarrow> ('b, 'g, 'p, 'k, 'v, received, mock_state) deps \<Rightarrow> (nat \<Rightarrow> nat)
     \<Rightarrow> (received, mock_state) world \<Rightarrow> bool" where
  "unknown_refresh_is_rejected S gen uri D clk w \<longleftrightarrow>
     token_test S gen ''kid-unknown-refresh'' uri D clk w (\<lambda>A w.
       exchange A ''no-such-token'' w (\<lambda>resp w. rs_status resp = 401))"

definition refresh_rejects_issuer_outside_allowlist ::
  "serde_jwk \<Rightarrow> 'k \<times> string \<times> string \<Rightarrow> string \<Rightarrow> ('b, 'g, 'p, 'k, 'v, received, mock_state) deps \<Rightarrow> (nat \<Rightarrow> nat)
     \<Rightarrow> (received, mock_state) world \<Rightarrow> bool" where
  "refresh_rejects_issuer_outside_allowlist S gen uri D clk w \<longleftrightarrow>
     token_test S gen ''kid-allowlist-refresh'' uri D clk w (\<lambda>A w.
       issue_pair A ''user1'' w (\<lambda>access refresh w.
         exchange (only_issuer ''other.example.com'' A) refresh w (\<lambda>resp w. rs_status resp = 403)))"

text \<open>The store after a pair was issued into a family.\<close>

definition with_pair :: "string \<Rightarrow> string \<Rightarrow> string list \<Rightarrow> string \<Rightarrow> string \<Rightarrow> mock_state \<Rightarrow> mock_state" where
  "with_pair sub fam aud jti r m =
     (let m1 = added (family_group fam) jti (with_token sub jti m) in
      added (family_group fam) (refresh_key r)
        (m1\<lparr>ms_refreshes := (ms_refreshes m1)(r \<mapsto> (\<lparr>rr_subject = sub, rr_audience = aud, rr_family = fam\<rparr>, False))\<rparr>))"

lemma with_pair_simps [simp]:
  "ms_jtis (with_pair sub fam aud jti r m) = insert jti (ms_jtis m)"
  "ms_refreshes (with_pair sub fam aud jti r m) =
     (ms_refreshes m)(r \<mapsto> (\<lparr>rr_subject = sub, rr_audience = aud, rr_family = fam\<rparr>, False))"
  "members_of (with_pair sub fam aud jti r m) (family_group f) =
     (if f = fam then insert (refresh_key r) (insert jti (members_of m (family_group fam))) else members_of m (family_group f))"
proof -
  have u: "members_of (m'\<lparr>ms_refreshes := x\<rparr>) g = members_of m' g" for m' x g by (simp add: members_of_def)
  show "ms_jtis (with_pair sub fam aud jti r m) = insert jti (ms_jtis m)"
    "ms_refreshes (with_pair sub fam aud jti r m) =
     (ms_refreshes m)(r \<mapsto> (\<lparr>rr_subject = sub, rr_audience = aud, rr_family = fam\<rparr>, False))"
    "members_of (with_pair sub fam aud jti r m) (family_group f) =
     (if f = fam then insert (refresh_key r) (insert jti (members_of m (family_group fam))) else members_of m (family_group f))"
    by (simp_all add: with_pair_def Let_def u)
qed

lemma register_reads:
  assumes "dp_store A = http_mock_store" "reads_as A kid pub token c"
  shows "register_access_in_family A token fam w = (Ok (), w\<lparr>w_store := added (family_group fam) (tc_jti c) (w_store w)\<rparr>)"
  using assms
  by (auto simp: reads_as_def register_access_in_family_def and_then_def pure_step_def store_call_def added_def)

lemma mock_issue_refresh:
  assumes "dp_store A = http_mock_store"
  shows "issue_refresh A sub aud fam w = (Ok (uuid_next w), utc_tick (uuid_tick (w\<lparr>w_store := added (family_group fam) (refresh_key (uuid_next w))
      ((w_store w)\<lparr>ms_refreshes := (ms_refreshes (w_store w))(uuid_next w \<mapsto>
        (\<lparr>rr_subject = sub, rr_audience = aud, rr_family = fam\<rparr>, False))\<rparr>)\<rparr>)))"
  using assms
  by (simp add: issue_refresh_def and_then_def store_call_def added_def Let_def uuid_tick_def utc_tick_def)

lemma validate_nothing: "validate_custom_claims e J [] = Inr ()"
  by (simp add: validate_custom_claims_def)

lemma plain_nothing: "plain_claims (new_claims iss sub aud a b j [])"
  by (simp add: plain_claims_def new_claims_def)

text \<open>Issuing a pair into a family, at the end of both \<open>generate_token_pair\<close> and \<open>refresh_token_pair\<close>.\<close>

lemma bench_family:
  assumes b: "bench S pair gen pub kid uri A" and w: "on_bench (make_key (dp_crypto A) gen kid) uri u i w" "minute u"
    and aud: "aud \<noteq> []"
  shows "\<exists>token v. and_then (generate_token A iss sub aud None []) (\<lambda>access.
       and_then (register_access_in_family A access fam) (\<lambda>_.
       and_then (issue_refresh A sub aud fam) (\<lambda>refresh w1. (Ok (access, refresh), w1)))) w =
       (Ok (token, i (w_uuid_tick w + 1)), v) \<and>
     reads_as A kid pub token (new_claims iss sub aud (u (w_utc_tick w)) (u (w_utc_tick w) + 3600) (i (w_uuid_tick w)) []) \<and>
     on_bench (make_key (dp_crypto A) gen kid) uri u i v \<and>
     w_store v = with_pair sub fam aud (i (w_uuid_tick w)) (i (w_uuid_tick w + 1)) (w_store w) \<and>
     w_utc_tick v = w_utc_tick w + 3 \<and> w_uuid_tick v = w_uuid_tick w + 2"
proof -
  have s: "dp_store A = http_mock_store" using b by (simp add: bench_def)
  obtain a as where aud': "aud = a # as" using aud by (cases aud) auto
  have f: "utc_now w = u (w_utc_tick w)" "uuid_next w = i (w_uuid_tick w)"
    using w(1) by (simp_all add: on_bench_def utc_now_def uuid_next_def)
  obtain token v where g: "generate_token A iss sub aud None [] w = (Ok token, v)"
    "reads_as A kid pub token (new_claims iss sub aud (u (w_utc_tick w)) (u (w_utc_tick w) + 3600) (i (w_uuid_tick w)) [])"
    "on_bench (make_key (dp_crypto A) gen kid) uri u i v" "w_store v = with_token sub (i (w_uuid_tick w)) (w_store w)"
    "w_utc_tick v = w_utc_tick w + 2" "w_uuid_tick v = w_uuid_tick w + 1"
    using bench_generate [OF b w validate_nothing plain_nothing aud', where iss = iss and sub = sub] by (auto simp: f with_token_def added_def members_of_def)
  have n: "uuid_next v = i (w_uuid_tick w + 1)" using g(3,6) by (simp add: on_bench_def uuid_next_def)
  show ?thesis
    using g n
    by (simp add: and_then_def register_reads [OF s g(2)] mock_issue_refresh [OF s] new_claims_def with_pair_def Let_def
        on_bench_def uuid_tick_def utc_tick_def uuid_next_def)
qed

lemma answered_issue_pair:
  assumes b: "bench S pair gen pub kid uri A" "plain_host A"
    and w: "on_bench (make_key (dp_crypto A) gen kid) uri u i w" "minute u"
    and rest: "\<And>token v. reads_as A kid pub token (new_claims ''example.com'' sub [''api1''] (u (w_utc_tick w))
          (u (w_utc_tick w) + 3600) (i (w_uuid_tick w + 1)) []) \<Longrightarrow>
        on_bench (make_key (dp_crypto A) gen kid) uri u i v \<Longrightarrow>
        w_store v = with_pair sub (i (w_uuid_tick w)) [''api1''] (i (w_uuid_tick w + 1)) (i (w_uuid_tick w + 2)) (w_store w) \<Longrightarrow>
        w_utc_tick v = w_utc_tick w + 3 \<Longrightarrow> w_uuid_tick v = w_uuid_tick w + 3 \<Longrightarrow> rest token (i (w_uuid_tick w + 2)) v"
  shows "issue_pair A sub w rest"
proof -
  have o: "on_bench (make_key (dp_crypto A) gen kid) uri u i (uuid_tick w)"
    using w(1) by (simp add: on_bench_def uuid_tick_def)
  have f: "uuid_next w = i (w_uuid_tick w)" using w(1) by (simp add: on_bench_def uuid_next_def)
  obtain token v where g: "generate_token_pair A ''example.com'' sub [''api1''] None [] w = (Ok (token, i (w_uuid_tick w + 2)), v)"
    "reads_as A kid pub token (new_claims ''example.com'' sub [''api1''] (u (w_utc_tick w)) (u (w_utc_tick w) + 3600) (i (w_uuid_tick w + 1)) [])"
    "on_bench (make_key (dp_crypto A) gen kid) uri u i v"
    "w_store v = with_pair sub (i (w_uuid_tick w)) [''api1''] (i (w_uuid_tick w + 1)) (i (w_uuid_tick w + 2)) (w_store w)"
    "w_utc_tick v = w_utc_tick w + 3" "w_uuid_tick v = w_uuid_tick w + 3"
    using bench_family [OF b(1) o w(2), where iss = "''example.com''" and sub = sub and aud = "[''api1'']" and fam = "i (w_uuid_tick w)"]
    by (auto simp: generate_token_pair_def Let_def f uuid_tick_def)
  have "rest token (i (w_uuid_tick w + 2)) (record_metric TokenIssued v)"
    by (intro rest g(2)) (use g in \<open>simp_all add: on_bench_same\<close>)
  then show ?thesis
    using g(1) b(2)
    by (simp add: issue_pair_def answered_def create_token_def issuer_for_issuance_def example_host_header plain_host_def
        issue_for_def token_body_def and_then_def into_response_def)
qed

text \<open>An exchange by what the store says of the refresh token: unused, used, unknown.\<close>

lemma answered_exchange:
  assumes b: "bench S pair gen pub kid uri A" "plain_host A"
    and w: "on_bench (make_key (dp_crypto A) gen kid) uri u i w" "minute u"
    and r: "ms_refreshes (w_store w) refresh = Some (rec, False)" "rr_audience rec \<noteq> []"
    and rest: "\<And>token v. reads_as A kid pub token (new_claims ''example.com'' (rr_subject rec) (rr_audience rec) (u (w_utc_tick w))
          (u (w_utc_tick w) + 3600) (i (w_uuid_tick w)) []) \<Longrightarrow>
        on_bench (make_key (dp_crypto A) gen kid) uri u i v \<Longrightarrow>
        w_store v = with_pair (rr_subject rec) (rr_family rec) (rr_audience rec) (i (w_uuid_tick w)) (i (w_uuid_tick w + 1))
          ((w_store w)\<lparr>ms_refreshes := (ms_refreshes (w_store w))(refresh \<mapsto> (rec, True))\<rparr>) \<Longrightarrow>
        w_utc_tick v = w_utc_tick w + 3 \<Longrightarrow> w_uuid_tick v = w_uuid_tick w + 2 \<Longrightarrow>
        rest (token_ok token (Some (i (w_uuid_tick w + 1)))) v"
  shows "exchange A refresh w rest"
proof -
  have s: "dp_store A = http_mock_store" using b by (simp add: bench_def)
  let ?w = "w\<lparr>w_store := (w_store w)\<lparr>ms_refreshes := (ms_refreshes (w_store w))(refresh \<mapsto> (rec, True))\<rparr>\<rparr>"
  have o: "on_bench (make_key (dp_crypto A) gen kid) uri u i ?w" using w(1) by (simp add: on_bench_same)
  obtain token v where g: "refresh_token_pair A refresh ''example.com'' w = (Ok (token, i (w_uuid_tick w + 1)), v)"
    "reads_as A kid pub token (new_claims ''example.com'' (rr_subject rec) (rr_audience rec) (u (w_utc_tick w))
       (u (w_utc_tick w) + 3600) (i (w_uuid_tick w)) [])"
    "on_bench (make_key (dp_crypto A) gen kid) uri u i v"
    "w_store v = with_pair (rr_subject rec) (rr_family rec) (rr_audience rec) (i (w_uuid_tick w)) (i (w_uuid_tick w + 1)) (w_store ?w)"
    "w_utc_tick v = w_utc_tick w + 3" "w_uuid_tick v = w_uuid_tick w + 2"
    using bench_family [OF b(1) o w(2) r(2), where iss = "''example.com''" and sub = "rr_subject rec" and fam = "rr_family rec"]
    by (auto simp: refresh_token_pair_def and_then_def [of "store_call f" for f] store_call_def s mock_mark_def r(1))
  have "rest (token_ok token (Some (i (w_uuid_tick w + 1)))) (record_metric TokenIssued v)"
    by (intro rest g(2)) (use g in \<open>simp_all add: on_bench_same\<close>)
  then show ?thesis
    using g(1) b(2)
    by (simp add: exchange_def answered_def refresh_token_handler_def issuer_for_issuance_def example_host_header
        plain_host_def into_response_def)
qed

lemma answered_exchange_used:
  assumes b: "bench S pair gen pub kid uri A" "plain_host A"
    and w: "on_bench (make_key (dp_crypto A) gen kid) uri u i w"
    and r: "ms_refreshes (w_store w) refresh = Some (rec, True)"
    and rest: "\<And>v. on_bench (make_key (dp_crypto A) gen kid) uri u i v \<Longrightarrow>
        w_store v = snd (http_mock_revoke (family_group (rr_family rec)) (w_store w)) \<Longrightarrow>
        rest (respond 401 (ErrorBody (error_response_new ''Invalid refresh token''))) v"
  shows "exchange A refresh w rest"
proof -
  have s: "dp_store A = http_mock_store" "js_revoke_group http_mock_store = http_mock_revoke"
    using b by (simp_all add: bench_def http_mock_store_def)
  have ok: "\<exists>n. fst (http_mock_revoke g m) = Inr n" for g m by (simp add: http_mock_revoke_def Let_def)
  obtain n m where n: "http_mock_revoke (family_group (rr_family rec)) (w_store w) = (Inr n, m)"
    using ok [of "family_group (rr_family rec)" "w_store w"] by (metis prod.collapse)
  have "refresh_token_pair A refresh ''example.com'' w = (Err NotValid, w\<lparr>w_store := m\<rparr>)"
    using n by (simp add: refresh_token_pair_def and_then_def store_call_def s mock_mark_def r fail_def)
  moreover have "rest (respond 401 (ErrorBody (error_response_new ''Invalid refresh token''))) (w\<lparr>w_store := m\<rparr>)"
    by (intro rest) (use w n in \<open>simp_all add: on_bench_same\<close>)
  ultimately show ?thesis
    using b(2)
    by (simp add: exchange_def answered_def refresh_token_handler_def issuer_for_issuance_def example_host_header
        plain_host_def into_response_def refresh_token_error_def)
qed

lemma exchange_unknown:
  assumes b: "bench S pair gen pub kid uri A" "plain_host A" and r: "ms_refreshes (w_store w) refresh = None"
  shows "exchange A refresh w (\<lambda>resp w. rs_status resp = 401)"
proof -
  have s: "dp_store A = http_mock_store" using b by (simp add: bench_def)
  show ?thesis
    using b(2)
    by (simp add: exchange_def answered_def refresh_token_handler_def issuer_for_issuance_def example_host_header
        plain_host_def into_response_def refresh_token_error_def refresh_token_pair_def and_then_def store_call_def s r fail_def)
qed

text \<open>What a revoked family leaves.\<close>

lemma revoked_family:
  "ms_jtis (snd (http_mock_revoke g m)) = ms_jtis m - members_of m g"
  "ms_refreshes (snd (http_mock_revoke g m)) i = (if refresh_key i \<in> members_of m g then None else ms_refreshes m i)"
  by (simp_all add: http_mock_revoke_def Let_def)

lemma members_marked [simp]: "members_of (m\<lparr>ms_refreshes := x\<rparr>) g = members_of m g"
  by (simp add: members_of_def)

lemma refresh_tests:
  assumes D: "bench_laws S pair D" "generates (dp_crypto D) pair gen pub" and clk: "mono clk"
    and w: "minute (w_utc w)" "uuids (w_uuid w)"
  shows "refresh_rotates_and_old_token_stops_working S gen uri D clk w" "reused_refresh_kills_the_whole_family S gen uri D clk w"
    "unknown_refresh_is_rejected S gen uri D clk w" "refresh_rejects_issuer_outside_allowlist S gen uri D clk w"
proof -
  have inj: "w_uuid w n = w_uuid w m \<longleftrightarrow> n = m" for n m using w(2) by (simp add: uuids_def inj_eq)
  show "refresh_rotates_and_old_token_stops_working S gen uri D clk w"
    unfolding refresh_rotates_and_old_token_stops_working_def
    by (rule token_test_bench [OF D clk], rule answered_issue_pair [OF _ _ _ w(1)], assumption+,
        rule answered_exchange [OF _ _ _ w(1)], assumption+, simp, simp, simp add: inj, rule answered_verify, assumption+)
      (simp_all add: new_claims_def minute_valid [OF w(1), unfolded new_claims_def])
  show "reused_refresh_kills_the_whole_family S gen uri D clk w"
    unfolding reused_refresh_kills_the_whole_family_def
    by (rule token_test_bench [OF D clk], rule answered_issue_pair [OF _ _ _ w(1)], assumption+,
        rule answered_exchange [OF _ _ _ w(1)], assumption+, simp, simp, simp,
        rule answered_exchange_used, assumption+, simp add: inj)
      (simp add: in_store_reads revoked_family new_claims_def exchange_unknown)
  show "unknown_refresh_is_rejected S gen uri D clk w"
    unfolding unknown_refresh_is_rejected_def
    by (rule token_test_bench [OF D clk], rule exchange_unknown) simp_all
  show "refresh_rejects_issuer_outside_allowlist S gen uri D clk w"
    unfolding refresh_rejects_issuer_outside_allowlist_def
    by (rule token_test_bench [OF D clk], rule answered_issue_pair [OF _ _ _ w(1)], assumption+)
      (simp add: exchange_def answered_def refresh_token_handler_def issuer_for_issuance_def example_host_header
        only_issuer_allowed into_response_def)
qed

end
