(* ===== verification/App_Tests.thy ===== *)
theory App_Tests
  imports Test_Support Test_Stores App_Correct
begin

text \<open>
  The tests of \<open>main.rs\<close>: the routes as \<open>configure_api\<close> registers them, over a store in memory, with the
  limiters off. They ask which level stands before which endpoint.

  The environment that the tests write to is a parameter, and what they leave as they find it must let
  the configuration assemble: the second secret of the one-time codes. Of actix-cors they rely on this:
  a request without an \<open>Origin\<close> is no CORS request and is passed on, its answer's status is kept.
\<close>

section \<open>The application of the tests\<close>

definition PROXY_SECRET :: string where
  "PROXY_SECRET = ''test-proxy-secret''"

definition TOTP_SECRET :: string where
  "TOTP_SECRET = ''MRSWGYLSMUQGO33WNFXGO4ZAOBWGKYLSFVRW63LOMNXW2ZI''"

definition auth_test_env :: "bool \<Rightarrow> env \<Rightarrow> env" where
  "auth_test_env with_metrics_token e = e(
     ''AUTH_PROXY_SECRET'' := Some PROXY_SECRET, ''AUTH_TOTP_SECRET'' := Some TOTP_SECRET,
     ''AUTH_PROXY_SECRET_HEADER'' := None, ''AUTH_TOTP_HEADER'' := None,
     ''AUTH_METRICS_TOKEN'' := (if with_metrics_token then Some ''test-metrics-token'' else None))"

text \<open>\<open>auth_config(with_metrics_token)\<close>; \<open>None\<close> where its \<open>expect\<close> panics.\<close>

definition test_auth_config :: "bool \<Rightarrow> env \<Rightarrow> auth_config option" where
  "test_auth_config with_metrics_token e =
     (case auth_config_from_env (auth_test_env with_metrics_token e) of Inr c \<Rightarrow> Some c | Inl _ \<Rightarrow> None)"

definition api_app ::
  "('b, 'g, 'p, 'k, 'v, 'n, mock_state, 'l) app_deps \<Rightarrow> auth_config
     \<Rightarrow> ('v, ('n, mock_state, 'l) app_world) service" where
  "api_app A auth =
     dispatch (A\<lparr>ap_auth := auth, ap_deps := (ap_deps A)\<lparr>dp_store := stub_store\<rparr>\<rparr>)
       (configure_api auth (None :: unit per_ip_limiter option) None [])"

definition api_world :: "('n, mock_state, 'l) app_world \<Rightarrow> ('n, mock_state, 'l) app_world" where
  "api_world a = a\<lparr>aw_world := (aw_world a)\<lparr>w_store := mock_new,
     w_keys := (w_keys (aw_world a))\<lparr>km_algorithm := ''RS256''\<rparr>\<rparr>\<rparr>"

text \<open>The statuses of the answers to some requests, where the configuration assembles.\<close>

definition api_statuses ::
  "('b, 'g, 'p, 'k, 'v, 'n, mock_state, 'l) app_deps \<Rightarrow> env \<Rightarrow> bool \<Rightarrow> request list
     \<Rightarrow> ('n, mock_state, 'l) app_world \<Rightarrow> nat option list option" where
  "api_statuses A e with_metrics_token rs a =
     map_option (\<lambda>auth. statuses (api_app A auth) rs (api_world a)) (test_auth_config with_metrics_token e)"

text \<open>\<open>set_json\<close> puts the type and the text of the body.\<close>

definition json_request :: "string \<Rightarrow> string \<Rightarrow> headers \<Rightarrow> string \<Rightarrow> request" where
  "json_request meth path hs body =
     \<lparr>rq_method = meth, rq_path = path,
      rq_headers = headers_with ''Host'' ''example.com'' @ headers_with ''Content-Type'' ''application/json'' @ hs,
      rq_peer = None, rq_body = body\<rparr>"

definition get_request :: "string \<Rightarrow> headers \<Rightarrow> request" where
  "get_request path hs = \<lparr>rq_method = ''GET'', rq_path = path, rq_headers = hs, rq_peer = None, rq_body = []\<rparr>"

section \<open>The tests\<close>

definition internal_endpoints :: "(string \<times> string) list" where
  "internal_endpoints = [(''POST'', ''/tokens''), (''POST'', ''/tokens/refresh''), (''DELETE'', ''/tokens/some-jti''),
     (''DELETE'', ''/subjects/user1/tokens'')]"

definition internal_requests :: "headers \<Rightarrow> request list" where
  "internal_requests hs = map (\<lambda>(meth, path). json_request meth path hs ''{}'') internal_endpoints"

definition internal_endpoints_require_totp_not_proxy_secret ::
  "('b, 'g, 'p, 'k, 'v, 'n, mock_state, 'l) app_deps \<Rightarrow> env \<Rightarrow> ('n, mock_state, 'l) app_world \<Rightarrow> bool" where
  "internal_endpoints_require_totp_not_proxy_secret A e a \<longleftrightarrow>
     api_statuses A e False (internal_requests (headers_with ''X-Proxy-Secret'' PROXY_SECRET)) a =
       Some (map (\<lambda>_. Some 401) internal_endpoints)"

definition internal_endpoints_reject_requests_without_credentials ::
  "('b, 'g, 'p, 'k, 'v, 'n, mock_state, 'l) app_deps \<Rightarrow> env \<Rightarrow> ('n, mock_state, 'l) app_world \<Rightarrow> bool" where
  "internal_endpoints_reject_requests_without_credentials A e a \<longleftrightarrow>
     api_statuses A e False (internal_requests []) a = Some (map (\<lambda>_. Some 401) internal_endpoints)"

definition verify_accepts_proxy_secret ::
  "('b, 'g, 'p, 'k, 'v, 'n, mock_state, 'l) app_deps \<Rightarrow> env \<Rightarrow> ('n, mock_state, 'l) app_world \<Rightarrow> bool" where
  "verify_accepts_proxy_secret A e a \<longleftrightarrow>
     api_statuses A e False
       [json_request ''POST'' ''/tokens/verify'' (headers_with ''X-Proxy-Secret'' PROXY_SECRET) ''{}''] a =
       Some [Some 400]"

definition verify_rejects_request_without_proxy_secret ::
  "('b, 'g, 'p, 'k, 'v, 'n, mock_state, 'l) app_deps \<Rightarrow> env \<Rightarrow> ('n, mock_state, 'l) app_world \<Rightarrow> bool" where
  "verify_rejects_request_without_proxy_secret A e a \<longleftrightarrow>
     api_statuses A e False
       [json_request ''POST'' ''/tokens/verify'' [] ''{\"token\":\"not-a-jwt\",\"audience\":\"api1\"}''] a =
       Some [Some 401]"

definition open_endpoints_need_no_credentials ::
  "('b, 'g, 'p, 'k, 'v, 'n, mock_state, 'l) app_deps \<Rightarrow> env \<Rightarrow> ('n, mock_state, 'l) app_world \<Rightarrow> bool" where
  "open_endpoints_need_no_credentials A e a \<longleftrightarrow>
     api_statuses A e False [get_request ''/livez'' [], get_request ''/api-docs/openapi.json'' []] a =
       Some [Some 200, Some 200]"

definition metrics_route_is_absent_without_token ::
  "('b, 'g, 'p, 'k, 'v, 'n, mock_state, 'l) app_deps \<Rightarrow> env \<Rightarrow> ('n, mock_state, 'l) app_world \<Rightarrow> bool" where
  "metrics_route_is_absent_without_token A e a \<longleftrightarrow>
     api_statuses A e False [get_request ''/metrics'' []] a = Some [Some 404]"

definition metrics_requires_bearer_token ::
  "('b, 'g, 'p, 'k, 'v, 'n, mock_state, 'l) app_deps \<Rightarrow> env \<Rightarrow> ('n, mock_state, 'l) app_world \<Rightarrow> bool" where
  "metrics_requires_bearer_token A e a \<longleftrightarrow>
     api_statuses A e True [get_request ''/metrics'' (headers_with ''X-Proxy-Secret'' PROXY_SECRET)] a =
       Some [Some 401]"

section \<open>They pass\<close>

text \<open>What is relied on of actix-cors for requests that carry no \<open>Origin\<close>.\<close>

definition cors_without_origin :: "(cors_policy \<Rightarrow> ('v, 'w) service \<Rightarrow> ('v, 'w) service) \<Rightarrow> bool" where
  "cors_without_origin C \<longleftrightarrow>
     (\<forall>p inner r a. header_get (rq_headers r) ''Origin'' = None \<longrightarrow>
        (\<exists>f. C p inner r a = (case inner r a of (Ok resp, a') \<Rightarrow> (Ok (f resp), a') | (x, a') \<Rightarrow> (x, a')) \<and>
           (\<forall>resp. rs_status (f resp) = rs_status resp)))"

lemma no_cors_at_all: "cors_without_origin (\<lambda>p inner. inner)"
  unfolding cors_without_origin_def
proof (intro allI impI)
  fix inner :: "('v, 'w) service" and r and a :: 'w
  show "\<exists>f. inner r a = (case inner r a of (Ok resp, a') \<Rightarrow> (Ok (f resp), a') | (x, a') \<Rightarrow> (x, a')) \<and>
      (\<forall>resp. rs_status (f resp) = rs_status resp)"
    by (intro exI [of _ "\<lambda>resp. resp"]) (auto split: prod.splits outcome.splits)
qed

lemma answered_inside_cors:
  assumes "cors_without_origin C" "header_get (rq_headers r) ''Origin'' = None"
    and "inner r a = (Ok resp, a')" "rs_status resp = s"
  shows "\<exists>res a'. C p inner r a = (Ok res, a') \<and> rs_status res = s"
proof -
  obtain f where f: "C p inner r a = (case inner r a of (Ok resp, a') \<Rightarrow> (Ok (f resp), a') | (x, a') \<Rightarrow> (x, a'))"
    "\<forall>resp. rs_status (f resp) = rs_status resp"
    using assms(1,2) unfolding cors_without_origin_def by blast
  show ?thesis using f assms(3,4) by simp
qed

text \<open>The configuration of the tests: the headers and the token that decide their outcome.\<close>

definition next_secret_readable :: "env \<Rightarrow> bool" where
  "next_secret_readable e \<longleftrightarrow> snd (totp_secret_from e ''AUTH_TOTP_SECRET_NEXT'') = []"

lemma test_secret_decodes: "\<exists>b bs. base32_decode TOTP_SECRET = Some (b # bs)"
  by (simp add: runs TOTP_SECRET_def base32_decode_def base32_value_def base32_push_def BASE32_ALPHABET_def Let_def)

lemma test_auth_assembles:
  assumes "next_secret_readable e"
  obtains c where "test_auth_config with_metrics_token e = Some c"
    "pv_header (ac_proxy c) = ''X-Proxy-Secret''" "pv_secret (ac_proxy c) = PROXY_SECRET"
    "tv_header (ac_totp c) = ''X-TOTP-Code''"
    "mv_token (ac_metrics c) = (if with_metrics_token then Some ''test-metrics-token'' else None)"
proof -
  obtain b bs where s: "base32_decode TOTP_SECRET = Some (b # bs)" using test_secret_decodes by blast
  have t: "trim TOTP_SECRET \<noteq> []" by (simp add: runs TOTP_SECRET_def)
  let ?e = "auth_test_env with_metrics_token e"
  have n: "totp_secret_from ?e ''AUTH_TOTP_SECRET_NEXT'' = totp_secret_from e ''AUTH_TOTP_SECRET_NEXT''"
    by (simp add: totp_secret_from_def auth_test_env_def)
  have o: "totp_secret_from ?e ''AUTH_TOTP_SECRET'' = ([b # bs], [])"
    using s t by (simp add: totp_secret_from_def auth_test_env_def)
  have p: "proxy_secret_from ?e = Some PROXY_SECRET"
    by (simp add: proxy_secret_from_def auth_test_env_def PROXY_SECRET_def)
  have "auth_errors ?e = []"
    using assms n o p by (auto simp: auth_errors_def next_secret_readable_def split: prod.splits)
  moreover have "trim ''test-metrics-token'' = ''test-metrics-token''" by (simp add: runs)
  ultimately show ?thesis
    using that p
    by (simp add: test_auth_config_def auth_config_from_env_def env_or_def)
      (simp add: auth_test_env_def)
qed

text \<open>One request after the other, each answered with the same status in whatever world it finds.\<close>

lemma statuses_all:
  assumes "\<And>r a. r \<in> set rs \<Longrightarrow> \<exists>res a'. app r a = (Ok res, a') \<and> rs_status res = s"
  shows "statuses app rs a = map (\<lambda>_. Some s) rs"
  using assms
proof (induction rs arbitrary: a)
  case (Cons r rs)
  obtain res a' where "app r a = (Ok res, a')" "rs_status res = s" using Cons.prems by fastforce
  then show ?case using Cons.IH [of a'] Cons.prems by (simp add: statuses_def)
qed (simp add: statuses_def)

lemma api_statuses_all:
  assumes "next_secret_readable e"
    and "\<And>c r b. r \<in> set rs \<Longrightarrow> pv_header (ac_proxy c) = ''X-Proxy-Secret'' \<Longrightarrow> pv_secret (ac_proxy c) = PROXY_SECRET \<Longrightarrow>
      tv_header (ac_totp c) = ''X-TOTP-Code'' \<Longrightarrow>
      mv_token (ac_metrics c) = (if with_metrics_token then Some ''test-metrics-token'' else None) \<Longrightarrow>
      \<exists>res b'. api_app A c r b = (Ok res, b') \<and> rs_status res = s"
  shows "api_statuses A e with_metrics_token rs a = Some (map (\<lambda>_. Some s) rs)"
proof -
  obtain c where c: "test_auth_config with_metrics_token e = Some c"
    "pv_header (ac_proxy c) = ''X-Proxy-Secret''" "pv_secret (ac_proxy c) = PROXY_SECRET"
    "tv_header (ac_totp c) = ''X-TOTP-Code''"
    "mv_token (ac_metrics c) = (if with_metrics_token then Some ''test-metrics-token'' else None)"
    using test_auth_assembles [OF assms(1)] by blast
  show ?thesis using c(1) by (simp add: api_statuses_def statuses_all [OF assms(2)] c(2-5))
qed

lemma refused_inside_cors:
  assumes "cors_without_origin C" "header_get (rq_headers r) ''Origin'' = None"
    and "auth_decide H store c level (rq_headers r) (aw_world a) = (Ok False, w)"
  shows "\<exists>res a'. C p (auth_call H store c level inner) r a = (Ok res, a') \<and> rs_status res = 401"
  by (rule answered_inside_cors [OF assms(1,2)], rule auth_call_denied, rule assms(3)) (simp add: unauthorized_response_def)

lemma json_headers:
  "header_get (rq_headers (json_request meth path hs body)) ''Origin'' = header_get hs ''Origin''"
  "header_get (rq_headers (json_request meth path hs body)) ''X-TOTP-Code'' = header_get hs ''X-TOTP-Code''"
  "header_get (rq_headers (json_request meth path hs body)) ''X-Proxy-Secret'' = header_get hs ''X-Proxy-Secret''"
  "header_get [] n = None"
  by (simp_all add: json_request_def headers_with_def header_get_def runs)

text \<open>Without a code, level 3 refuses; without the secret, level 2; without the token, level 4.\<close>

lemma no_credentials_refused:
  "header_get hs (tv_header (ac_totp c)) = None \<Longrightarrow> auth_decide H store c Totp hs w = (Ok False, utc_tick w)"
  "header_get hs (pv_header (ac_proxy c)) = None \<Longrightarrow> auth_decide H store c ProxySecret hs w = (Ok False, w)"
  "header_get hs ''Authorization'' = None \<Longrightarrow> auth_decide H store c MetricsToken hs w = (Ok False, w)"
  by (simp_all add: auth_decide_def authorize_def totp_validate_def proxy_validate_def metrics_validate_def
      split: option.splits)

lemma internal_refused:
  assumes "cors_without_origin (ap_cors A)" "header_get hs ''Origin'' = None" "header_get hs ''X-TOTP-Code'' = None"
    and "tv_header (ac_totp c) = ''X-TOTP-Code''" and "r \<in> set (internal_requests hs)"
  shows "\<exists>res a'. api_app A c r a = (Ok res, a') \<and> rs_status res = 401"
proof -
  obtain meth path where r: "r = json_request meth path hs ''{}''" "(meth, path) \<in> set internal_endpoints"
    using assms(5) by (auto simp: internal_requests_def)
  have h: "header_get (rq_headers r) ''Origin'' = None" "header_get (rq_headers r) (tv_header (ac_totp c)) = None"
    using assms(2-4) by (simp_all add: r json_headers)
  have "\<exists>p inner. api_app A c r a = ap_cors A p (auth_call (ap_hmac A) (Some stub_store) c Totp inner) r a"
    using r
    by (auto simp: internal_endpoints_def api_app_def dispatch_def configure_api_def Let_def match_path_def
        segments_table json_request_def) ((rule exI)+, rule refl)+
  then obtain p inner where
    d: "api_app A c r a = ap_cors A p (auth_call (ap_hmac A) (Some stub_store) c Totp inner) r a" by blast
  show ?thesis unfolding d by (rule refused_inside_cors [OF assms(1) h(1)], rule no_credentials_refused(1), rule h(2))
qed

lemma internal_tests:
  assumes "cors_without_origin (ap_cors A)" "next_secret_readable e"
  shows "internal_endpoints_require_totp_not_proxy_secret A e a"
    "internal_endpoints_reject_requests_without_credentials A e a"
proof -
  have all: "api_statuses A e False (internal_requests hs) a = Some (map (\<lambda>_. Some 401) internal_endpoints)"
    if h: "header_get hs ''Origin'' = None" "header_get hs ''X-TOTP-Code'' = None" for hs
  proof -
    have "api_statuses A e False (internal_requests hs) a = Some (map (\<lambda>_. Some 401) (internal_requests hs))"
      by (rule api_statuses_all [OF assms(2)], rule internal_refused [OF assms(1) h])
    then show ?thesis by (simp add: internal_requests_def)
  qed
  show "internal_endpoints_require_totp_not_proxy_secret A e a"
    unfolding internal_endpoints_require_totp_not_proxy_secret_def
    by (rule all) (simp_all add: header_get_with runs)
  show "internal_endpoints_reject_requests_without_credentials A e a"
    unfolding internal_endpoints_reject_requests_without_credentials_def
    by (rule all) (simp_all add: json_headers)
qed

text \<open>A test with requests that are answered alike whatever the world.\<close>

lemma one_request:
  assumes "next_secret_readable e"
    and "\<And>c b. pv_header (ac_proxy c) = ''X-Proxy-Secret'' \<Longrightarrow> pv_secret (ac_proxy c) = PROXY_SECRET \<Longrightarrow>
      mv_token (ac_metrics c) = (if with_metrics_token then Some ''test-metrics-token'' else None) \<Longrightarrow>
      \<exists>res b'. api_app A c r b = (Ok res, b') \<and> rs_status res = s"
  shows "api_statuses A e with_metrics_token [r] a = Some [Some s]"
  using api_statuses_all [OF assms(1), of "[r]" with_metrics_token A s a] assms(2) by simp

text \<open>
  Of the extractor of JSON the first test relies on its answer to a body without the fields it needs,
  400. Authorised, the request reaches it.
\<close>

lemma verify_accepts_test:
  assumes "cors_without_origin (ap_cors A)" "next_secret_readable e"
    and "\<forall>r. rq_body r = ''{}'' \<longrightarrow> (\<exists>resp. ap_json_verify A r = Inl resp \<and> rs_status resp = 400)"
  shows "verify_accepts_proxy_secret A e a"
proof -
  let ?hs = "headers_with ''X-Proxy-Secret'' PROXY_SECRET"
  let ?r = "json_request ''POST'' ''/tokens/verify'' ?hs ''{}''"
  let ?in = "\<lambda>c. rate_limit_call (ap_governor A) LimitDisabled (auth_call (ap_hmac A) (Some stub_store) c ProxySecret
    (resource_routes (A\<lparr>ap_auth := c, ap_deps := (ap_deps A)\<lparr>dp_store := stub_store\<rparr>\<rparr>)
      \<lparr>re_path = ''/tokens/verify'', re_layers = [AuthLayer ProxySecret, RateLayer LimitDisabled, CorsLayer (verify_cors [])],
       re_routes = [(''POST'', VerifyToken)]\<rparr> []))"
  have h: "header_get ?hs ''Origin'' = None" "header_get ?hs ''X-Proxy-Secret'' = Some (text_value PROXY_SECRET)"
    by (simp_all add: header_get_with runs)
  have f: "rq_path ?r = ''/tokens/verify''" "rq_method ?r = ''POST''" "rq_body ?r = ''{}''"
    by (simp_all add: json_request_def)
  obtain resp where resp: "ap_json_verify A ?r = Inl resp" "rs_status resp = 400" using assms(3) f(3) by blast
  have "\<exists>res b'. api_app A c ?r b = (Ok res, b') \<and> rs_status res = 400"
    if c: "pv_header (ac_proxy c) = ''X-Proxy-Secret''" "pv_secret (ac_proxy c) = PROXY_SECRET" for c b
  proof -
    have "proxy_validate (ac_proxy c) (rq_headers ?r)" using c h(2) by (simp add: proxy_validate_def json_headers)
    then obtain b' where d: "?in c ?r b = (Ok resp, b')"
      using resp f
      by (auto simp: rate_limit_call_def strategy_check_def auth_call_def auth_decide_def authorize_def replay_check_def
          resource_routes_def extracted_def)
    have e: "api_app A c ?r b = ap_cors A (verify_cors []) (?in c) ?r b"
      using f by (simp add: api_app_def dispatch_def configure_api_def Let_def match_path_def segments_table
          rate_limit_per_ip_def)
    show ?thesis unfolding e by (rule answered_inside_cors [OF assms(1)], simp add: json_headers h, rule d, rule resp(2))
  qed
  then show ?thesis unfolding verify_accepts_proxy_secret_def by (intro one_request [OF assms(2)])
qed

lemma verify_rejects_test:
  assumes "cors_without_origin (ap_cors A)" "next_secret_readable e"
  shows "verify_rejects_request_without_proxy_secret A e a"
proof -
  let ?r = "json_request ''POST'' ''/tokens/verify'' [] ''{\"token\":\"not-a-jwt\",\"audience\":\"api1\"}''"
  have "\<exists>res b'. api_app A c ?r b = (Ok res, b') \<and> rs_status res = 401"
    if c: "pv_header (ac_proxy c) = ''X-Proxy-Secret''" for c b
  proof -
    obtain inner where e: "api_app A c ?r b = ap_cors A (verify_cors [])
        (rate_limit_call (ap_governor A) LimitDisabled (auth_call (ap_hmac A) (Some stub_store) c ProxySecret inner)) ?r b"
      by (simp add: api_app_def dispatch_def configure_api_def Let_def match_path_def segments_table json_request_def
          rate_limit_per_ip_def)
    have "auth_decide (ap_hmac A) (Some stub_store) c ProxySecret (rq_headers ?r) (aw_world b) = (Ok False, aw_world b)"
      by (rule no_credentials_refused(2)) (simp add: c json_headers)
    then obtain b' where d: "rate_limit_call (ap_governor A) LimitDisabled
        (auth_call (ap_hmac A) (Some stub_store) c ProxySecret inner) ?r b = (Ok unauthorized_response, b')"
      by (simp add: rate_limit_call_def strategy_check_def auth_call_denied)
    show ?thesis
      unfolding e by (rule answered_inside_cors [OF assms(1)], simp add: json_headers, rule d, simp add: unauthorized_response_def)
  qed
  then show ?thesis unfolding verify_rejects_request_without_proxy_secret_def by (intro one_request [OF assms(2)])
qed

section \<open>The open level and the metrics\<close>

lemma open_and_metrics_tests:
  assumes "cors_without_origin (ap_cors A)" "next_secret_readable e"
  shows "open_endpoints_need_no_credentials A e (a :: ('f, mock_state, 'h) app_world)"
    "metrics_route_is_absent_without_token A e a"
    "metrics_requires_bearer_token A e a"
proof -
  have o: "header_get (rq_headers (get_request path [])) ''Origin'' = None" for path
    by (simp add: get_request_def json_headers)
  note route = api_app_def dispatch_def configure_api_def Let_def match_path_def segments_table get_request_def
    metrics_enabled_def
  have scoped: "\<exists>res b'. api_app A c (get_request path []) b = (Ok res, b') \<and> rs_status res = s"
    if m: "mv_token (ac_metrics c) = None"
      and t: "(path, s) \<in> {(''/livez'', 200), (''/api-docs/openapi.json'', 200), (''/metrics'', 404)}" for c path s b
  proof -
    let ?in = "auth_call (ap_hmac A) (Some stub_store) c Open
      (scope_routes (A\<lparr>ap_auth := c, ap_deps := (ap_deps A)\<lparr>dp_store := stub_store\<rparr>\<rparr>)
        (api_scope (configure_api c (None :: unit per_ip_limiter option) None [])))"
    have e: "api_app A c (get_request path []) b = ap_cors A deny_cors ?in (get_request path []) b"
      using m t by (auto simp: route)
    obtain resp where r: "?in (get_request path []) b = (Ok resp, b)" "rs_status resp = s"
      using t by (auto simp: auth_call_open scope_routes_def route respond_with_def livez_def openapi_spec_def)
    show ?thesis unfolding e by (rule answered_inside_cors [OF assms(1) o], rule r(1), rule r(2))
  qed
  have "api_statuses A e False [get_request ''/livez'' [], get_request ''/api-docs/openapi.json'' []] a =
      Some (map (\<lambda>_. Some 200) [get_request ''/livez'' [], get_request ''/api-docs/openapi.json'' []])"
  proof (rule api_statuses_all [OF assms(2)])
    fix c :: auth_config and r and b :: "('f, mock_state, 'h) app_world"
    assume r: "r \<in> set [get_request ''/livez'' [], get_request ''/api-docs/openapi.json'' []]"
      and m: "mv_token (ac_metrics c) = (if False then Some ''test-metrics-token'' else None)"
    from r obtain path where p: "r = get_request path []"
      "(path, 200) \<in> {(''/livez'', 200 :: nat), (''/api-docs/openapi.json'', 200), (''/metrics'', 404)}" by auto
    show "\<exists>res b'. api_app A c r b = (Ok res, b') \<and> rs_status res = 200"
      unfolding p(1) by (rule scoped [OF _ p(2)]) (use m in simp)
  qed
  then show "open_endpoints_need_no_credentials A e a" by (simp add: open_endpoints_need_no_credentials_def)
  show "metrics_route_is_absent_without_token A e a"
    unfolding metrics_route_is_absent_without_token_def by (intro one_request [OF assms(2)] scoped) auto
  let ?r = "get_request ''/metrics'' (headers_with ''X-Proxy-Secret'' PROXY_SECRET)"
  have h: "header_get (rq_headers ?r) ''Origin'' = None" "header_get (rq_headers ?r) ''Authorization'' = None"
    by (simp_all add: get_request_def header_get_with runs)
  have "\<exists>res b'. api_app A c ?r b = (Ok res, b') \<and> rs_status res = 401"
    if m: "mv_token (ac_metrics c) = Some t" for c t b
  proof -
    have "\<exists>inner. api_app A c ?r b = ap_cors A deny_cors (auth_call (ap_hmac A) (Some stub_store) c MetricsToken inner) ?r b"
      using m by (auto simp: route)
    then obtain inner where d: "api_app A c ?r b =
        ap_cors A deny_cors (auth_call (ap_hmac A) (Some stub_store) c MetricsToken inner) ?r b" by blast
    show ?thesis unfolding d by (rule refused_inside_cors [OF assms(1) h(1)], rule no_credentials_refused(3), rule h(2))
  qed
  then show "metrics_requires_bearer_token A e a"
    unfolding metrics_requires_bearer_token_def by (intro one_request [OF assms(2)]) auto
qed

end
