(* ===== verification/Spec2Isabelle.thy ===== *)
theory Spec2Isabelle
  imports Prelude Models Jti_Store Redis_Store Redis_Contract Redis_Keyspace Redis_Properties
    Jwk_Service Jwk_Cache Jwk_Flight Key_Manager Issuer Token Token_Correct Subject_Revocation Jwt_Manager Net Http
    Rate_Limit Rate_Limit_Correct Bits Auth Auth_Correct Rfc4226 Base32_Correct Handlers Handlers_Correct
    Request_Log Server_Config Middleware App App_Correct App_Answers Telemetry Propagation Openapi
    Metrics Startup_Log Tasks Store_Tasks Redis_Tasks Concurrent Concurrent_Correct Races
    Client Client_Service Client_Direct
    Test_Support Test_Stores Unit_Tests Rate_Tests Auth_Tests Token_Tests
    Jwk_Tests Handler_Bench Handler_Tests App_Tests
begin

text \<open>
  A model of \<open>jwt-service-app\<close>, a Rust service that issues, verifies, exchanges and revokes JSON Web
  Tokens, with the theorems that make it correct. All paths below are under \<open>src/\<close>.

  \<^bold>\<open>The program.\<close> A request passes the request log, then the layers of its route (CORS, rate limit,
  access level, in the order \<open>main.rs\<close> registers them), then a handler (\<open>handlers.rs\<close>). The handlers
  call the token manager (\<open>jwt.rs\<close>), which rests on the claims, headers and signed form of
  \<open>models/jwt.rs\<close>, on the keys that the key manager (\<open>key.rs\<close>) builds from the key service's answers
  as the cache of \<open>jwk.rs\<close> holds them, and on the store of token identifiers, groups, refresh records
  and used one-time codes (\<open>redis.rs\<close> behind the trait \<open>JtiStore\<close>). A token is accepted only while its
  identifier is in the store; deleting it revokes the token, and an index per subject and per family
  of refresh tokens lets them be revoked in bulk.

  \<^bold>\<open>Theories and sources.\<close>
    \<^item> \<open>Prelude\<close>, \<open>Models\<close>, \<open>Bits\<close>, \<open>Net\<close>, \<open>Http\<close>: the integers at their width, the parts of Rust's
      standard library the service uses on strings and addresses, outcomes (a value, an error, a
      panic), the DTOs and errors of \<open>models/mod.rs\<close>, \<open>error.rs\<close> and \<open>models/jwt.rs\<close>, requests,
      responses and metrics (\<open>metrics.rs\<close>).
    \<^item> \<open>Jti_Store\<close>: the trait \<open>JtiStore\<close> as a record of operations over an abstract state, and the
      locale \<open>jti_store\<close> of the laws its users rely on, stated over views (is an identifier present
      at a time, with which expiry is it in a group, which record has a refresh token, is it used).
    \<^item> \<open>Redis_Store\<close>, \<open>Redis_Contract\<close>, \<open>Redis_Keyspace\<close>, \<open>Redis_Properties\<close>: the client of \<open>redis.rs\<close>
      over a dictionary of commands. The locale \<open>redis_server\<close> assumes the documented effect of each
      command on a key space with expiring keys; \<open>redis_server\<close> is a sublocale of \<open>jti_store\<close> on the
      client's operations, and it is interpreted on an executable key space.
    \<^item> \<open>Jwk_Service\<close>, \<open>Jwk_Cache\<close>, \<open>Jwk_Flight\<close>: \<open>jwk.rs\<close>. The state is the cache with its settings, the
      clock and the network as it is now; \<open>Jwk_Flight\<close> is the step relation of any
      number of tasks that look keys up at the same time: a task waits for the refresh mutex, and what it
      does while it holds it is a task of its own, each critical section and the request a step.
    \<^item> \<open>Key_Manager\<close>: \<open>key.rs\<close>. \<open>Issuer\<close>: \<open>issuer.rs\<close>.
    \<^item> \<open>Token\<close>, \<open>Token_Correct\<close>, \<open>Subject_Revocation\<close>: \<open>models/jwt.rs\<close>. \<open>Jwt_Manager\<close>: \<open>jwt.rs\<close>.
    \<^item> \<open>Rate_Limit\<close>, \<open>Rate_Limit_Correct\<close>: \<open>rate_limit.rs\<close>.
    \<^item> \<open>Auth\<close>, \<open>Auth_Correct\<close>, \<open>Base32_Correct\<close>: \<open>auth.rs\<close>. \<open>Rfc4226\<close>: the one-time codes of the RFCs on
      plain numbers, with the proof that \<open>hotp\<close> computes them.
    \<^item> \<open>Handlers\<close>, \<open>Handlers_Correct\<close>: \<open>handlers.rs\<close>.
    \<^item> \<open>Request_Log\<close>: the middleware of \<open>logging.rs\<close>. \<open>Server_Config\<close>: \<open>server.rs\<close>. \<open>Telemetry\<close>: the
      switches of \<open>tracing_otel.rs\<close>, \<open>sentry_glitchtip.rs\<close> and \<open>init_subscriber\<close>; \<open>Propagation\<close>: the
      trace context in and out (\<open>tracing_otel.rs\<close>). \<open>Metrics\<close>: \<open>metrics.rs\<close>, the samples of an event and
      the label of an endpoint. \<open>Startup_Log\<close>: the lines of the log at the start and the shutdown of the
      exporters. \<open>Openapi\<close>: \<open>openapi.rs\<close> with the attributes of the handlers, against the routes.
    \<^item> \<open>App\<close>, \<open>App_Correct\<close>: \<open>main.rs\<close>, the routes with their layers, the service they make and the
      start of the process, to a panic, to the error of binding or to a running server. \<open>Middleware\<close> states the contract of a layer as the locale \<open>middleware\<close>
      (it answers, or calls what it wraps once), shows that layers compose (\<open>two_layers\<close>) and that the
      request log, the rate limiters and the access levels are such layers; \<open>App_Answers\<close> uses it
      for the whole application.
    \<^item> \<open>Tasks\<close>: async functions as data, cut at their calls, and pools of tasks that run in any
      interleaving (\<open>pool_step\<close>), with \<open>within\<close>, the rule that proves what all calls of a task keep.
      \<open>Store_Tasks\<close>: the trait \<open>JtiStore\<close> as a record of tasks, and the locale \<open>jti_tasks\<close>, which extends
      \<open>jti_store\<close> by what concurrent callers rely on. \<open>Redis_Tasks\<close>: the client of \<open>redis.rs\<close> with every
      Redis command a step of its own; \<open>redis_server\<close> is a sublocale of \<open>jti_tasks\<close> on it.
      \<open>Concurrent\<close>: the token layer as such tasks (\<open>generate_task\<close> is \<open>generate_token\<close> and so on) and
      the requests that run them; \<open>Concurrent_Correct\<close>: what holds in every interleaving; \<open>Races\<close>:
      three schedules on the executable key space that break what comments promise.
    \<^item> \<open>Client\<close>: the client of the internal endpoints that the repository ships
      (\<open>docs/clients/rust.rs\<close>), with the scenario of its \<open>main\<close>. \<open>Client_Service\<close> composes it with the
      application: the locale \<open>client_link\<close> says what both rely on (an answer is the service's answer to
      a request that carries what was sent, a request or an answer may be lost, each side's JSON library
      reads what the other's wrote, the client's library computes the codes of RFC 6238); after a revocation any operations of the store may run before the
      verification that the theorems speak of. \<open>Client_Direct\<close> interprets it on \<open>app_service\<close> behind a direct connection.
    \<^item> \<open>Unit_Tests\<close>, \<open>Rate_Tests\<close>, \<open>Auth_Tests\<close>, \<open>Token_Tests\<close>, \<open>Jwk_Tests\<close>,
      \<open>Handler_Tests\<close>, \<open>App_Tests\<close>: the repository's own unit tests, each a
      definition of the test's name that says what it asserts, over the model in the place of the code;
      the lemmas \<open>\<dots>_tests\<close> prove that the model passes them. \<open>Test_Stores\<close> models the stores the tests
      put in the place of Redis, \<open>Test_Support\<close> holds what the tests share; \<open>Jwk_Tests\<close> has the mock of the key
      service, and \<open>Handler_Bench\<close> what a call of a handler does over it and the store in memory.

  Definitions carry the names of the functions they model; record fields have a prefix of the type
  (\<open>tc_exp\<close> is \<open>TokenClaims::exp\<close>). A name that clashes is qualified by its module (\<open>rl_env_u64\<close>,
  \<open>verify_token_handler\<close>). The state is passed explicitly: \<open>world\<close> holds the store's state, the key
  manager's, the readings of the clock, the generated identifiers and the metrics told to the
  recorder, and \<open>app_world\<close> adds the buckets of the rate limiters.

  \<^bold>\<open>What the theorems show.\<close>
    \<^item> Tokens: what an accepted token guarantees, what an issued one holds, that what is signed is
      accepted, which requests are refused with nothing changed.
    \<^item> Revocation: a revoked token is never verified again, singly or through its subject; a refresh
      token is exchanged once and its reuse revokes the family.
    \<^item> Interleavings: the tasks run alone are the functions (\<open>requests_run_as_functions\<close>); of two
      exchanges of one refresh token among any other requests one at most succeeds; a token whose
      revocation was answered before a verification starts is refused in every interleaving, and so
      are the tokens in the index of a subject whose bulk revocation was answered. Three schedules show
      limits: a third exchange can win again after the reuse detector has deleted the record, a winner
      still in flight registers a family that was revoked meanwhile, and a token indexed during a bulk
      revocation is lost from the index, so that no later bulk revocation reaches it.
    \<^item> Client and service: a revocation, of a token or of a subject, that the client's operation returned
      from is final for every later verification; the client's codes are accepted; with replay
      protection its second request within one step of the code is refused; the bulk revocation of a
      subject with a slash in its name reaches no route. The paths are those of names that URL parsing
      and path extraction leave as they are.
    \<^item> Store: the Redis client satisfies the contract of the trait; how long an index lives.
    \<^item> Keys: where a key may come from and how old it may be, no requests under a flood, service
      through an outage, rotation, one request for a stampede, no second signing key.
    \<^item> Access: which codes pass, the shape of a code and that it is the one of RFC 4226, how long a code's use is remembered,
      that a used code is refused whatever else the store is asked meanwhile, base32 against its definition on bits and a reference encoder, the
      configuration's invariant.
    \<^item> Rate limits: ranges against the bits of addresses, forged forwarding entries.
    \<^item> API: every endpoint behind its level, nothing that changes tokens without a one-time code, one
      answer for all refusals of verification, documented statuses, an answer to every request, request
      identifiers, workers, when the process starts; the document lists the routes and names their
      levels; how many series of metrics clients can create; no secret in the log of a start.
    \<^item> Conformance: the model gives the answers the repository's tests expect of the code, among them the
      vectors of RFC 4226 and RFC 4648 and the grace periods in the deployment's manifests. A test over
      foreign code (serde_json, OpenSSL, HMAC, a generated key) passes under the law of it that the test
      relies on, which is a hypothesis of its lemma.

  \<^bold>\<open>Parameters.\<close> Code that is not in the repository is a parameter: OpenSSL and base64 (\<open>crypto\<close>),
  serde_json (\<open>json_codec\<close>), the HTTP client and the key service (\<open>key_server\<close>), the Redis server and
  its crate (\<open>redis\<close>), HMAC (\<open>hmac\<close>), the buckets of governor (\<open>governor\<close>), the CORS layer and the
  extractors of actix (\<open>app_deps\<close>), totp-rs and reqwest (\<open>client_deps\<close>), what the surroundings of the process decide when
  it starts (\<open>surroundings\<close>), \<open>chrono\<close>'s addition and the rounding of a quotient of two doubles. Their laws are hypotheses where a theorem needs them (\<open>redis_server\<close>, \<open>lawful_crypto\<close>,
  \<open>lawful_json\<close>, \<open>chrono_law\<close>, \<open>tag_bytes\<close>, \<open>cors_law\<close>, \<open>client_link\<close>) and each has a witness with a concrete
  instance. Clock readings come from a function of the number of the reading, so other processes may
  let any time pass between two steps.

  \<^bold>\<open>Bounds and termination.\<close> Every definition is total; recursion is structural or by the length of
  the input, there is no fuel. Integers have their width, so additions and products wrap where
  the release build wraps; a panic is a value. Where a theorem needs the absence of overflow it says
  so in its hypotheses.

  \<^bold>\<open>Concurrency.\<close> The sequential functions handle one request after the other; readings of the clock
  and of the store's state may already differ between two calls. \<open>Concurrent\<close> cuts the same functions
  into tasks: one step of a pool is one connection, one Redis command as the server executes it, the
  return of its answer with its metric, one reading of the clock, one call of the key manager or one
  generated identifier, and between two steps any other request may run. The key manager's lookup is
  one such step; inside it the lookups of the key cache have their own step relation (\<open>Jwk_Flight\<close>), in
  which the sending of a request and the wait for its answer are steps too.

  \<^bold>\<open>Not modelled.\<close> Spans and the log lines of single requests (output only, never read back); the
  exporters, the recorder and the text of the metrics, and the generation of the JSON text of the
  OpenAPI document (foreign crates); the work of the thread that sweeps stale buckets and the running of
  the bound server (no effect on answers, framework calls); export of the document to a file (a test).
\<close>

end
